(* ===== verification/Prelude.thy ===== *)
theory Prelude
  imports Main "HOL-Library.Word"
begin

unbundle bit_operations_syntax

text \<open>
  What the components of the development share: the Go values the sources use (fixed width
  integers, errors, maps, strings, \<open>net/netip\<close> addresses and prefixes, the \<open>Socksaddr\<close> struct of
  the \<open>sing\<close> library), the record of the functions that live outside the repository, and the
  generic lemmas on lists, maps and words that the component theories use through the
  collections \<open>go_simps\<close> and \<open>netip_simps\<close>.
\<close>

named_theorems go_simps "unfoldings and laws of the Go values used by every component"
named_theorems netip_simps "laws of net/netip addresses and prefixes"

section \<open>Integers\<close>

type_synonym u8 = "8 word"
type_synonym u16 = "16 word"
type_synonym u32 = "32 word"
type_synonym u64 = "64 word"

section \<open>Errors\<close>

text \<open>
  \<open>E.New(args)\<close>, \<open>E.Cause(err, args)\<close>, \<open>E.Cause1(err, cause)\<close> and \<open>E.Errors(errs)\<close> keep their
  arguments, so that every error return of the source is a value of its own. A Go panic is the error \<open>Panic\<close>: it unwinds through the callers,
  so \<open>cause\<close> does not wrap it.
\<close>

datatype Arg = AStr string | ANum int

datatype Error =
    E_New "Arg list"
  | E_Cause Error "Arg list"
  | E_Cause1 Error Error
  | E_Errors "Error list"
  | E_Lib string
  | Panic "Arg list"

type_synonym 'a result = "Error + 'a"

fun cause :: "Arg list \<Rightarrow> 'a result \<Rightarrow> 'a result" where
  "cause args (Inl (Panic p)) = Inl (Panic p)"
| "cause args (Inl e) = Inl (E_Cause e args)"
| "cause args (Inr x) = Inr x"

fun bindE :: "'a result \<Rightarrow> ('a \<Rightarrow> 'b result) \<Rightarrow> 'b result" where
  "bindE (Inl e) f = Inl e"
| "bindE (Inr x) f = f x"

text \<open>\<open>errors.Is\<close>: the error itself, or one it wraps or joins.\<close>

fun errorsIs :: "Error \<Rightarrow> Error \<Rightarrow> bool" where
  "errorsIs (E_Cause e args) target = (E_Cause e args = target \<or> errorsIs e target)"
| "errorsIs (E_Cause1 e c) target = (E_Cause1 e c = target \<or> errorsIs e target \<or> errorsIs c target)"
| "errorsIs (E_Errors es) target = (E_Errors es = target \<or> list_ex (\<lambda>e. errorsIs e target) es)"
| "errorsIs e target = (e = target)"

text \<open>A sequence of fallible updates of one value, stopped by the first error.\<close>

fun foldE :: "('s \<Rightarrow> 's result) list \<Rightarrow> 's \<Rightarrow> 's result" where
  "foldE [] s = Inr s"
| "foldE (f # fs) s = bindE (f s) (foldE fs)"

text \<open>The loop \<open>for i, x := range xs { y, err := f(i, x); if err != nil { return err }; ... }\<close>.\<close>

fun mapE_from :: "nat \<Rightarrow> (nat \<Rightarrow> 'a \<Rightarrow> 'b result) \<Rightarrow> 'a list \<Rightarrow> 'b list result" where
  "mapE_from i f [] = Inr []"
| "mapE_from i f (x # xs) =
     bindE (f i x) (\<lambda>y. bindE (mapE_from (Suc i) f xs) (\<lambda>ys. Inr (y # ys)))"

definition isOk :: "'a result \<Rightarrow> bool" where
  "isOk r = (case r of Inl _ \<Rightarrow> False | Inr _ \<Rightarrow> True)"

lemma isOk_simps [simp]: "isOk (Inr x)" "\<not> isOk (Inl e)"
  by (simp_all add: isOk_def)

lemma bindE_Inr_iff [simp]: "bindE r f = Inr y \<longleftrightarrow> (\<exists>x. r = Inr x \<and> f x = Inr y)"
  by (cases r) auto

lemma bindE_Inl_iff: "bindE r f = Inl e \<longleftrightarrow> r = Inl e \<or> (\<exists>x. r = Inr x \<and> f x = Inl e)"
  by (cases r) auto

lemma bindE_assoc: "bindE (bindE r f) g = bindE r (\<lambda>x. bindE (f x) g)"
  by (cases r) auto

lemma cause_Inr_iff [simp]: "cause args r = Inr x \<longleftrightarrow> r = Inr x"
  by (induction args r rule: cause.induct) auto

lemma foldE_append: "foldE (fs @ gs) s = bindE (foldE fs s) (foldE gs)"
proof (induction fs arbitrary: s)
  case Nil
  then show ?case by simp
next
  case (Cons f fs)
  then show ?case by (cases "f s") simp_all
qed

lemma mapE_from_length: "mapE_from i f xs = Inr ys \<Longrightarrow> length ys = length xs"
  by (induction xs arbitrary: i ys) auto

lemma mapE_from_nth:
  "mapE_from i f xs = Inr ys \<Longrightarrow> k < length xs \<Longrightarrow> f (i + k) (xs ! k) = Inr (ys ! k)"
proof (induction xs arbitrary: i ys k)
  case Nil
  then show ?case by simp
next
  case (Cons x xs)
  from Cons.prems obtain y ys' where f: "f i x = Inr y"
    and r: "mapE_from (Suc i) f xs = Inr ys'" and ys: "ys = y # ys'" by auto
  show ?case
  proof (cases k)
    case 0
    with f ys show ?thesis by simp
  next
    case (Suc m)
    with Cons.prems(2) Cons.IH [OF r, of m] ys show ?thesis by simp
  qed
qed

section \<open>Maps\<close>

text \<open>
  \<open>m[k]\<close> on a \<open>map[K]bool\<close> is \<open>false\<close> for a missing key; the rule items build such maps from the
  configured lists with \<open>for _, x := range xs { m[x] = true }\<close>.
\<close>

definition mapGet :: "('k \<rightharpoonup> bool) \<Rightarrow> 'k \<Rightarrow> bool" where
  "mapGet m k = (case m k of None \<Rightarrow> False | Some b \<Rightarrow> b)"

definition boolMap :: "'k list \<Rightarrow> ('k \<rightharpoonup> bool)" where
  "boolMap xs = foldl (\<lambda>m x. m(x \<mapsto> True)) Map.empty xs"

lemma mapGet_foldl:
  "mapGet (foldl (\<lambda>m x. m(x \<mapsto> True)) m xs) k \<longleftrightarrow> k \<in> set xs \<or> mapGet m k"
  by (induction xs arbitrary: m) (auto simp: mapGet_def)

lemma mapGet_boolMap [simp, go_simps]: "mapGet (boolMap xs) k \<longleftrightarrow> k \<in> set xs"
  by (simp add: boolMap_def mapGet_foldl) (simp add: mapGet_def)

section \<open>Strings\<close>

text \<open>
  A Go string is a sequence of bytes, an Isabelle \<open>string\<close>. \<open>strings.ToLower\<close> and
  \<open>strings.EqualFold\<close> work bytewise on ASCII strings; on other strings they use the Unicode
  tables, which are a parameter (\<open>Lib\<close> below).
\<close>

definition isASCII :: "string \<Rightarrow> bool" where
  "isASCII s = list_all (\<lambda>c. (of_char c :: nat) < 128) s"

definition lowerASCII :: "char \<Rightarrow> char" where
  "lowerASCII c = (let n = (of_char c :: nat) in if 65 \<le> n \<and> n \<le> 90 then char_of (n + 32) else c)"

fun hasPrefix :: "'a list \<Rightarrow> 'a list \<Rightarrow> bool" where
  "hasPrefix s [] = True"
| "hasPrefix [] (p # ps) = False"
| "hasPrefix (c # s) (p # ps) = (c = p \<and> hasPrefix s ps)"

text \<open>\<open>strings.Contains\<close> and \<open>strings.Index\<close>, with \<open>None\<close> for the index \<open>-1\<close>.\<close>

fun stringsIndex :: "'a list \<Rightarrow> 'a list \<Rightarrow> nat option" where
  "stringsIndex [] sub = (if sub = [] then Some 0 else None)"
| "stringsIndex (c # s) sub =
     (if hasPrefix (c # s) sub then Some 0 else map_option Suc (stringsIndex s sub))"

definition stringsContains :: "'a list \<Rightarrow> 'a list \<Rightarrow> bool" where
  "stringsContains s sub = (stringsIndex s sub \<noteq> None)"

lemma hasPrefix_iff: "hasPrefix s p \<longleftrightarrow> (\<exists>r. s = p @ r)"
  by (induction s p rule: hasPrefix.induct) auto

lemma hasPrefix_take: "hasPrefix s p \<longleftrightarrow> take (length p) s = p"
  by (induction s p rule: hasPrefix.induct) auto

lemma stringsContains_iff: "stringsContains s sub \<longleftrightarrow> (\<exists>a b. s = a @ sub @ b)"
proof (induction s)
  case Nil
  then show ?case by (auto simp: stringsContains_def)
next
  case (Cons c s)
  have "(\<exists>a b. c # s = a @ sub @ b) \<longleftrightarrow> (\<exists>b. c # s = sub @ b) \<or> (\<exists>a b. s = a @ sub @ b)"
    by (metis append_Cons append_Nil list.inject neq_Nil_conv)
  with Cons show ?case
    by (auto simp: stringsContains_def hasPrefix_iff)
qed

text \<open>\<open>strings.HasSuffix\<close>, and \<open>strings.Split\<close> with a separator of one character.\<close>

definition hasSuffix :: "string \<Rightarrow> string \<Rightarrow> bool" where
  "hasSuffix s t = (length t \<le> length s \<and> drop (length s - length t) s = t)"

fun stringsSplit :: "char \<Rightarrow> string \<Rightarrow> string list" where
  "stringsSplit sep [] = [[]]"
| "stringsSplit sep (c # s) =
     (case stringsSplit sep s of
        [] \<Rightarrow> []
      | p # ps \<Rightarrow> if c = sep then [] # p # ps else (c # p) # ps)"

text \<open>\<open>strings.Join\<close>.\<close>

fun stringsJoin :: "string list \<Rightarrow> string \<Rightarrow> string" where
  "stringsJoin [] sep = []"
| "stringsJoin [s] sep = s"
| "stringsJoin (s # ss) sep = s @ sep @ stringsJoin ss sep"

text \<open>\<open>filepath.Base\<close> with the separator \<open>/\<close>.\<close>

definition filepathBase :: "string \<Rightarrow> string" where
  "filepathBase path =
     (if path = [] then ''.''
      else let stripped = rev (dropWhile (\<lambda>c. c = CHR ''/'') (rev path));
               base = rev (takeWhile (\<lambda>c. c \<noteq> CHR ''/'') (rev stripped))
           in if base = [] then ''/'' else base)"

text \<open>\<open>F.ToString\<close> of a natural number.\<close>

fun indexText :: "nat \<Rightarrow> string" where
  "indexText n = (if n < 10 then [char_of (48 + n)] else indexText (n div 10) @ [char_of (48 + n mod 10)])"

declare indexText.simps [simp del]

text \<open>
  \<open>strconv.ParseUint(s, 10, 16)\<close>: decimal digits only, at least one, and a value of at most 65535.
\<close>

definition isDigit :: "char \<Rightarrow> bool" where
  "isDigit c = (48 \<le> (of_char c :: nat) \<and> (of_char c :: nat) \<le> 57)"

definition decimal :: "string \<Rightarrow> nat" where
  "decimal s = foldl (\<lambda>n c. 10 * n + ((of_char c :: nat) - 48)) 0 s"

definition parseUint16 :: "string \<Rightarrow> u16 result" where
  "parseUint16 s =
     (if s = [] then Inl (E_Lib ''strconv.ParseUint: invalid syntax'')
      else if \<not> list_all isDigit s then Inl (E_Lib ''strconv.ParseUint: invalid syntax'')
      else if decimal s > 65535 then Inl (E_Lib ''strconv.ParseUint: value out of range'')
      else Inr (word_of_nat (decimal s)))"

lemma parseUint16_exact:
  "parseUint16 s = Inr w \<Longrightarrow> unat w = decimal s \<and> s \<noteq> [] \<and> list_all isDigit s"
  by (auto simp: parseUint16_def unat_of_nat split: if_splits)

section \<open>Addresses and prefixes of \<open>net/netip\<close>\<close>

text \<open>
  An address is the zero value, an IPv4 address or an IPv6 address; zones of IPv6 addresses are
  not modelled. A prefix is an address and a length, the zero value being \<open>Prefix AddrNone 0\<close>.
\<close>

datatype Addr = AddrNone | Addr4 u32 | Addr6 "128 word"

datatype Prefix = Prefix (prefixAddr: Addr) (prefixBits: nat)

fun addrIsValid :: "Addr \<Rightarrow> bool" where
  "addrIsValid AddrNone = False"
| "addrIsValid _ = True"

fun addrIs4 :: "Addr \<Rightarrow> bool" where
  "addrIs4 (Addr4 _) = True"
| "addrIs4 _ = False"

fun addrIs6 :: "Addr \<Rightarrow> bool" where
  "addrIs6 (Addr6 _) = True"
| "addrIs6 _ = False"

text \<open>\<open>Addr.Next\<close>: the zero value after the last address of a family.\<close>

fun addrNext :: "Addr \<Rightarrow> Addr" where
  "addrNext AddrNone = AddrNone"
| "addrNext (Addr4 a) = (if a + 1 = 0 then AddrNone else Addr4 (a + 1))"
| "addrNext (Addr6 a) = (if a + 1 = 0 then AddrNone else Addr6 (a + 1))"

fun prefixIsValid :: "Prefix \<Rightarrow> bool" where
  "prefixIsValid (Prefix AddrNone n) = False"
| "prefixIsValid (Prefix (Addr4 _) n) = (n \<le> 32)"
| "prefixIsValid (Prefix (Addr6 _) n) = (n \<le> 128)"

text \<open>\<open>Prefix.Contains\<close>: the families agree and the first \<open>bits\<close> bits are equal.\<close>

fun prefixContains :: "Prefix \<Rightarrow> Addr \<Rightarrow> bool" where
  "prefixContains (Prefix (Addr4 p) n) (Addr4 a) = (n \<le> 32 \<and> drop_bit (32 - n) (a XOR p) = 0)"
| "prefixContains (Prefix (Addr6 p) n) (Addr6 a) = (n \<le> 128 \<and> drop_bit (128 - n) (a XOR p) = 0)"
| "prefixContains _ _ = False"

text \<open>\<open>Prefix.Overlaps\<close>: the shorter prefix length decides.\<close>

fun prefixOverlaps :: "Prefix \<Rightarrow> Prefix \<Rightarrow> bool" where
  "prefixOverlaps (Prefix (Addr4 p) n) (Prefix (Addr4 q) m) =
     (n \<le> 32 \<and> m \<le> 32 \<and> drop_bit (32 - min n m) (p XOR q) = 0)"
| "prefixOverlaps (Prefix (Addr6 p) n) (Prefix (Addr6 q) m) =
     (n \<le> 128 \<and> m \<le> 128 \<and> drop_bit (128 - min n m) (p XOR q) = 0)"
| "prefixOverlaps _ _ = False"

lemma prefixOverlaps_sym: "prefixOverlaps p q = prefixOverlaps q p"
  by (induction p q rule: prefixOverlaps.induct) (auto simp: min.commute xor.commute)

lemma prefixContains_self [netip_simps]: "prefixContains (Prefix a n) a = prefixIsValid (Prefix a n)"
  by (cases a) auto

section \<open>The \<open>sing\<close> library and other code outside the repository\<close>

text \<open>
  \<open>Socksaddr\<close> is a struct of \<open>github.com/sagernet/sing/common/metadata\<close>: its fields are used
  directly, its methods are parameters.
\<close>

record Socksaddr =
  sa_Addr :: Addr
  sa_Port :: u16
  sa_Fqdn :: string

text \<open>
  Compiled objects of other packages are their observable behaviour: an \<open>IPSet\<close> is its
  \<open>Contains\<close> method, a domain matcher, an AdGuard matcher and a regular expression are their
  match methods. An address set is built by \<open>netipx.IPSetBuilder\<close> from a list of additions.
\<close>

type_synonym IPSet = "Addr \<Rightarrow> bool"
type_synonym Matcher = "string \<Rightarrow> bool"

datatype IPSetOp = AddPrefix Prefix | AddAddr Addr

text \<open>The functions outside the repository that the modelled code calls.\<close>

record Lib =
  IsIP :: "Socksaddr \<Rightarrow> bool"
  IsIPv4 :: "Socksaddr \<Rightarrow> bool"
  IsIPv6 :: "Socksaddr \<Rightarrow> bool"
  IsDomain :: "Socksaddr \<Rightarrow> bool"
  IsValid :: "Socksaddr \<Rightarrow> bool"
  IsDomainName :: "string \<Rightarrow> bool"
  ParseSocksaddrHostPort :: "string \<Rightarrow> u16 \<Rightarrow> Socksaddr"
  IsPublicAddr :: "Addr \<Rightarrow> bool"
  unicodeToLower :: "string \<Rightarrow> string"
  unicodeEqualFold :: "string \<Rightarrow> string \<Rightarrow> bool"
  domainNewMatcher :: "string list \<Rightarrow> string list \<Rightarrow> bool \<Rightarrow> Matcher"
  domainNewAdGuardMatcher :: "string list \<Rightarrow> Matcher"
  regexpCompile :: "string \<Rightarrow> Matcher result"
  ParsePrefix :: "string \<Rightarrow> Prefix result"
  ParseAddr :: "string \<Rightarrow> Addr result"
  builderIPSet :: "IPSetOp list \<Rightarrow> IPSet result"
  IsAndroid :: bool

definition stringsToLower :: "Lib \<Rightarrow> string \<Rightarrow> string" where
  "stringsToLower lib s = (if isASCII s then map lowerASCII s else unicodeToLower lib s)"

definition stringsEqualFold :: "Lib \<Rightarrow> string \<Rightarrow> string \<Rightarrow> bool" where
  "stringsEqualFold lib s t =
     (if isASCII s \<and> isASCII t then map lowerASCII s = map lowerASCII t
      else unicodeEqualFold lib s t)"

section \<open>Runs\<close>

text \<open>An invariant of the states that steps reach, proved once by induction over the run.\<close>

locale invariant_system =
  fixes step :: "'s \<Rightarrow> 's \<Rightarrow> bool" and init :: 's and inv :: "'s \<Rightarrow> bool"
  assumes initially: "inv init"
    and preserved: "inv r \<Longrightarrow> step r s \<Longrightarrow> inv s"
begin

lemma reachable: "step\<^sup>*\<^sup>* init r \<Longrightarrow> inv r"
  by (induction rule: rtranclp_induct) (auto intro: initially preserved)

end

end
