(* ===== verification/Match_State.thy ===== *)
theory Match_State
  imports Prelude
begin

text \<open>
  \<open>route/rule/match_state.go\<close>: the sets of match states a rule evaluation returns. A state is a
  \<open>uint8\<close> whose four low bits say which condition groups are satisfied; a set of states is a
  \<open>uint16\<close> with one bit per state. The abstraction \<open>statesOf\<close> reads the bit vector as a set, and
  each operation is shown to be the corresponding set operation (\<open>statesOf_simps\<close>).
\<close>

unbundle bit_operations_syntax

named_theorems statesOf_simps "the set each operation on state sets computes"

type_synonym ruleMatchState = u8
type_synonym ruleMatchStateSet = u16

definition ruleMatchSourceAddress :: ruleMatchState where
  "ruleMatchSourceAddress = push_bit 0 1"

definition ruleMatchSourcePort :: ruleMatchState where
  "ruleMatchSourcePort = push_bit 1 1"

definition ruleMatchDestinationAddress :: ruleMatchState where
  "ruleMatchDestinationAddress = push_bit 2 1"

definition ruleMatchDestinationPort :: ruleMatchState where
  "ruleMatchDestinationPort = push_bit 3 1"

lemmas ruleMatch_flags =
  ruleMatchSourceAddress_def ruleMatchSourcePort_def
  ruleMatchDestinationAddress_def ruleMatchDestinationPort_def

definition singleRuleMatchState :: "ruleMatchState \<Rightarrow> ruleMatchStateSet" where
  "singleRuleMatchState state = push_bit (unat state) 1"

definition emptyRuleMatchState :: ruleMatchStateSet where
  "emptyRuleMatchState = singleRuleMatchState 0"

definition states_isEmpty :: "ruleMatchStateSet \<Rightarrow> bool" where
  "states_isEmpty s = (s = 0)"

definition states_contains :: "ruleMatchStateSet \<Rightarrow> ruleMatchState \<Rightarrow> bool" where
  "states_contains s state = (s AND push_bit (unat state) 1 \<noteq> 0)"

definition states_add :: "ruleMatchStateSet \<Rightarrow> ruleMatchState \<Rightarrow> ruleMatchStateSet" where
  "states_add s state = s OR singleRuleMatchState state"

definition states_merge :: "ruleMatchStateSet \<Rightarrow> ruleMatchStateSet \<Rightarrow> ruleMatchStateSet" where
  "states_merge s other = s OR other"

text \<open>The values of the loops \<open>for state := ruleMatchState(0); state < 16; state++\<close>.\<close>

definition allStates :: "ruleMatchState list" where
  "allStates = [0, 1, 2, 3, 4, 5, 6, 7, 8, 9, 10, 11, 12, 13, 14, 15]"

definition states_combine :: "ruleMatchStateSet \<Rightarrow> ruleMatchStateSet \<Rightarrow> ruleMatchStateSet" where
  "states_combine s other =
     (if states_isEmpty s \<or> states_isEmpty other then 0
      else foldl (\<lambda>combined left.
             if \<not> states_contains s left then combined
             else foldl (\<lambda>combined right.
                    if \<not> states_contains other right then combined
                    else states_add combined (left OR right)) combined allStates) 0 allStates)"

definition states_withBase :: "ruleMatchStateSet \<Rightarrow> ruleMatchState \<Rightarrow> ruleMatchStateSet" where
  "states_withBase s base =
     (if states_isEmpty s then 0
      else foldl (\<lambda>acc state.
             if \<not> states_contains s state then acc else states_add acc (state OR base))
           0 allStates)"

definition states_filter ::
  "(ruleMatchState \<Rightarrow> bool) \<Rightarrow> ruleMatchStateSet \<Rightarrow> ruleMatchStateSet" where
  "states_filter allowed s =
     foldl (\<lambda>filtered state.
        if \<not> states_contains s state then filtered
        else if allowed state then states_add filtered state else filtered) 0 allStates"

definition state_has :: "ruleMatchState \<Rightarrow> ruleMatchState \<Rightarrow> bool" where
  "state_has s target = (s AND target \<noteq> 0)"

section \<open>State sets as sets\<close>

definition statesOf :: "ruleMatchStateSet \<Rightarrow> ruleMatchState set" where
  "statesOf s = {st. states_contains s st}"

lemma states_contains_bit: "states_contains s st \<longleftrightarrow> bit s (unat st)"
  by (simp add: states_contains_def bit_iff_and_push_bit_not_eq_0)

lemma mem_statesOf [simp]: "st \<in> statesOf s \<longleftrightarrow> states_contains s st"
  by (simp add: statesOf_def)

lemma states_contains_less: "states_contains s st \<Longrightarrow> unat st < 16"
  using bit_imp_le_length [of s "unat st"] by (simp add: states_contains_bit)

lemma allStates_alt: "allStates = map word_of_nat [0..<16]"
  by (simp add: allStates_def upt_rec)

lemma set_allStates: "set allStates = {st. unat st < 16}"
proof (intro set_eqI iffI)
  fix st :: u8
  assume "st \<in> {st. unat st < 16}"
  then have "st = word_of_nat (unat st)" and "unat st \<in> {0..<16}" by auto
  then show "st \<in> set allStates"
    unfolding allStates_alt by (metis image_eqI list.set_map set_upt)
qed (auto simp: allStates_alt unat_of_nat)

lemma less16_or: "unat a < 16 \<Longrightarrow> unat b < 16 \<Longrightarrow> unat (a OR b) < 16"
  for a b :: u8
proof -
  have *: "unat x < 16 \<longleftrightarrow> take_bit 4 x = x" for x :: u8
    by (simp add: word_unat_eq_iff unsigned_take_bit_eq take_bit_nat_eq_self_iff)
  assume "unat a < 16" "unat b < 16"
  then show ?thesis by (simp add: *)
qed

lemma statesOf_zero [simp, statesOf_simps]: "statesOf 0 = {}"
  by (auto simp: states_contains_bit)

lemma statesOf_single [statesOf_simps]:
  "statesOf (singleRuleMatchState st) = (if unat st < 16 then {st} else {})"
  by (auto simp: statesOf_def states_contains_bit singleRuleMatchState_def bit_exp_iff
      word_unat_eq_iff)

lemma statesOf_empty [statesOf_simps]: "statesOf emptyRuleMatchState = {0}"
  by (simp add: emptyRuleMatchState_def statesOf_single)

lemma statesOf_merge [statesOf_simps]: "statesOf (states_merge s t) = statesOf s \<union> statesOf t"
  by (auto simp: states_contains_bit states_merge_def bit_or_iff)

lemma statesOf_add [statesOf_simps]:
  "statesOf (states_add s st) = statesOf s \<union> (if unat st < 16 then {st} else {})"
  using statesOf_merge [of s "singleRuleMatchState st"]
  by (simp add: states_add_def states_merge_def statesOf_single)

lemma statesOf_inject: "statesOf s = statesOf t \<longleftrightarrow> s = t"
proof
  assume eq: "statesOf s = statesOf t"
  show "s = t"
  proof (rule bit_word_eqI)
    fix n assume "n < LENGTH(16)"
    then have "unat (word_of_nat n :: u8) = n" by (simp add: unat_of_nat)
    moreover have "states_contains s (word_of_nat n) = states_contains t (word_of_nat n)"
      using eq by (metis mem_statesOf)
    ultimately show "bit s n = bit t n" by (simp add: states_contains_bit)
  qed
qed simp

lemma states_isEmpty_iff: "states_isEmpty s \<longleftrightarrow> statesOf s = {}"
  using statesOf_inject [of s 0] by (simp add: states_isEmpty_def)

text \<open>The loops: a fold that adds \<open>f state\<close> for every state of the set.\<close>

lemma statesOf_foldl:
  assumes "\<And>st. st \<in> set xs \<Longrightarrow> P st \<Longrightarrow> unat (f st) < 16"
  shows "statesOf (foldl (\<lambda>acc st. if \<not> P st then acc else states_add acc (f st)) s xs) =
         statesOf s \<union> f ` {st \<in> set xs. P st}"
  using assms by (induction xs arbitrary: s) (auto simp: statesOf_add)

lemma statesOf_eq_range: "{st \<in> set allStates. states_contains s st} = statesOf s"
  by (auto simp: set_allStates dest: states_contains_less)

lemma statesOf_withBase [statesOf_simps]:
  assumes "unat base < 16"
  shows "statesOf (states_withBase s base) = (\<lambda>st. st OR base) ` statesOf s"
proof (cases "states_isEmpty s")
  case True
  then show ?thesis by (simp add: states_withBase_def states_isEmpty_def)
next
  case False
  then show ?thesis
    using assms by (simp add: states_withBase_def statesOf_foldl less16_or states_contains_less
        statesOf_eq_range)
qed

lemma statesOf_filter [statesOf_simps]:
  "statesOf (states_filter allowed s) = {st \<in> statesOf s. allowed st}"
proof -
  let ?P = "\<lambda>st. states_contains s st \<and> allowed st"
  have eq: "states_filter allowed s =
        foldl (\<lambda>acc st. if \<not> ?P st then acc else states_add acc st) 0 allStates"
    unfolding states_filter_def by (rule foldl_cong) simp_all
  have "statesOf (foldl (\<lambda>acc st. if \<not> ?P st then acc else states_add acc st) 0 allStates) =
        statesOf 0 \<union> (\<lambda>st. st) ` {st \<in> set allStates. ?P st}"
    by (rule statesOf_foldl) (blast dest: states_contains_less)
  then show ?thesis
    unfolding eq using states_contains_less by (auto simp only: set_allStates statesOf_zero mem_statesOf)
qed

lemma statesOf_combine_loop:
  "statesOf (foldl (\<lambda>combined left.
             if \<not> states_contains s left then combined
             else foldl (\<lambda>combined right.
                    if \<not> states_contains t right then combined
                    else states_add combined (left OR right)) combined allStates) r xs) =
   statesOf r \<union> (\<Union>l \<in> {l \<in> set xs. states_contains s l}. (\<lambda>m. l OR m) ` statesOf t)"
proof (induction xs arbitrary: r)
  case Nil
  then show ?case by simp
next
  case (Cons x xs)
  have inner: "statesOf (foldl (\<lambda>combined right.
                    if \<not> states_contains t right then combined
                    else states_add combined (x OR right)) r allStates) =
               statesOf r \<union> (\<lambda>m. x OR m) ` statesOf t" if "states_contains s x"
    using that by (simp add: statesOf_foldl less16_or states_contains_less statesOf_eq_range)
  have split: "{l \<in> set (x # xs). states_contains s l} =
      (if states_contains s x then {x} else {}) \<union> {l \<in> set xs. states_contains s l}"
    by auto
  show ?case
    unfolding split by (simp add: Cons.IH inner Un_assoc)
qed

lemma statesOf_combine [statesOf_simps]:
  "statesOf (states_combine s t) = (\<Union>l \<in> statesOf s. (\<lambda>m. l OR m) ` statesOf t)"
proof (cases "states_isEmpty s \<or> states_isEmpty t")
  case True
  then have "states_combine s t = 0" and "statesOf s = {} \<or> statesOf t = {}"
    by (simp_all add: states_combine_def states_isEmpty_iff)
  then show ?thesis by auto
next
  case False
  then show ?thesis
    using statesOf_combine_loop [of s t 0 allStates]
    by (simp add: states_combine_def statesOf_eq_range)
qed

lemma states_combine_isEmpty:
  "states_isEmpty (states_combine s t) \<longleftrightarrow> states_isEmpty s \<or> states_isEmpty t"
  by (auto simp: states_isEmpty_iff statesOf_combine)

lemma states_merge_isEmpty:
  "states_isEmpty (states_merge s t) \<longleftrightarrow> states_isEmpty s \<and> states_isEmpty t"
  by (simp add: states_isEmpty_iff statesOf_merge)

lemma states_withBase_isEmpty:
  "unat b < 16 \<Longrightarrow> states_isEmpty (states_withBase s b) \<longleftrightarrow> states_isEmpty s"
  by (simp add: states_isEmpty_iff statesOf_withBase)

lemma emptyRuleMatchState_not_isEmpty [simp]: "\<not> states_isEmpty emptyRuleMatchState"
  by (simp add: states_isEmpty_iff statesOf_empty)

end
