(* ===== verification/Metadata.thy ===== *)
theory Metadata
  imports Prelude
begin

text \<open>
  \<open>adapter/inbound.go\<close>, \<open>adapter/platform.go\<close>, \<open>adapter/network.go\<close>: the \<open>InboundContext\<close> that
  carries everything known about a connection through the rules, and the snapshot of the network
  state that some rule items read through the \<open>NetworkManager\<close>. Durations are nanoseconds
  (\<open>int\<close>); \<open>SniffContext\<close>, an opaque value private to the QUIC sniffer, is not part of the record.
\<close>

text \<open>
  \<open>C.InterfaceType\<close> and \<open>C.NetworkStrategy\<close> are \<open>uint8\<close> enumerations. A binary rule-set may hold
  interface types that have no name.
\<close>

datatype InterfaceType =
  InterfaceTypeWIFI | InterfaceTypeCellular | InterfaceTypeEthernet | InterfaceTypeOther | UnnamedInterfaceType u8

datatype NetworkStrategy = NetworkStrategyDefault | NetworkStrategyFallback | NetworkStrategyHybrid

record ConnectionOwner =
  co_ProcessID :: u32
  co_UserId :: "32 word"
  co_UserName :: string
  co_ProcessPath :: string
  co_AndroidPackageNames :: "string list"

record InboundContext =
  md_Inbound :: string
  md_InboundType :: string
  md_IPVersion :: u8
  md_Network :: string
  md_Source :: Socksaddr
  md_Destination :: Socksaddr
  md_User :: string
  md_Outbound :: string
  md_Protocol :: string
  md_Domain :: string
  md_Client :: string
  md_SnifferNames :: "string list"
  md_SniffError :: "Error option"
  md_InboundDetour :: string
  md_LastInbound :: string
  md_OriginDestination :: Socksaddr
  md_RouteOriginalDestination :: Socksaddr
  md_UDPDisableDomainUnmapping :: bool
  md_UDPConnect :: bool
  md_UDPTimeout :: int
  md_TLSFragment :: bool
  md_TLSFragmentFallbackDelay :: int
  md_TLSRecordFragment :: bool
  md_NetworkStrategy :: "NetworkStrategy option"
  md_NetworkType :: "InterfaceType list"
  md_FallbackNetworkType :: "InterfaceType list"
  md_FallbackDelay :: int
  md_DestinationAddresses :: "Addr list"
  md_SourceGeoIPCode :: string
  md_GeoIPCode :: string
  md_ProcessInfo :: "ConnectionOwner option"
  md_QueryType :: u16
  md_FakeIP :: bool
  md_IPCIDRMatchSource :: bool
  md_IPCIDRAcceptEmpty :: bool
  md_SourceAddressMatch :: bool
  md_SourcePortMatch :: bool
  md_DestinationAddressMatch :: bool
  md_DestinationPortMatch :: bool
  md_DidMatch :: bool
  md_IgnoreDestinationIPCIDRMatch :: bool

definition ResetRuleMatchCache :: "InboundContext \<Rightarrow> InboundContext" where
  "ResetRuleMatchCache c =
     c\<lparr>md_SourceAddressMatch := False, md_SourcePortMatch := False,
       md_DestinationAddressMatch := False, md_DestinationPortMatch := False,
       md_DidMatch := False\<rparr>"

definition ResetRuleCache :: "InboundContext \<Rightarrow> InboundContext" where
  "ResetRuleCache c =
     ResetRuleMatchCache (c\<lparr>md_IPCIDRMatchSource := False, md_IPCIDRAcceptEmpty := False\<rparr>)"

lemma ResetRuleMatchCache_idem: "ResetRuleMatchCache (ResetRuleMatchCache c) = ResetRuleMatchCache c"
  by (simp add: ResetRuleMatchCache_def)

lemma ResetRuleCache_idem: "ResetRuleCache (ResetRuleCache c) = ResetRuleCache c"
  by (simp add: ResetRuleCache_def ResetRuleMatchCache_def)

text \<open>Interfaces, WIFI state and Clash mode, as the managers report them while a rule is evaluated.\<close>

record Interface =
  if_Name :: string
  if_Addresses :: "Prefix list"

record NetworkInterface =
  ni_Interface :: Interface
  ni_Type :: InterfaceType
  ni_Expensive :: bool
  ni_Constrained :: bool

record Net =
  net_DefaultNetworkInterface :: "NetworkInterface option"
  net_NetworkInterfaces :: "NetworkInterface list"
  net_Interfaces :: "Interface list"
  net_DefaultInterface :: "Interface option"
  net_SSID :: string
  net_BSSID :: string
  net_ClashMode :: string

text \<open>The zero value of Go's \<open>Socksaddr\<close> and of the context.\<close>

definition emptySocksaddr :: Socksaddr where
  "emptySocksaddr = \<lparr>sa_Addr = AddrNone, sa_Port = 0, sa_Fqdn = ''''\<rparr>"

definition emptyInboundContext :: InboundContext where
  "emptyInboundContext =
     \<lparr>md_Inbound = '''', md_InboundType = '''', md_IPVersion = 0, md_Network = '''',
      md_Source = emptySocksaddr, md_Destination = emptySocksaddr, md_User = '''', md_Outbound = '''',
      md_Protocol = '''', md_Domain = '''', md_Client = '''', md_SnifferNames = [], md_SniffError = None,
      md_InboundDetour = '''', md_LastInbound = '''', md_OriginDestination = emptySocksaddr,
      md_RouteOriginalDestination = emptySocksaddr, md_UDPDisableDomainUnmapping = False,
      md_UDPConnect = False, md_UDPTimeout = 0, md_TLSFragment = False, md_TLSFragmentFallbackDelay = 0,
      md_TLSRecordFragment = False, md_NetworkStrategy = None, md_NetworkType = [],
      md_FallbackNetworkType = [], md_FallbackDelay = 0, md_DestinationAddresses = [],
      md_SourceGeoIPCode = '''', md_GeoIPCode = '''', md_ProcessInfo = None, md_QueryType = 0,
      md_FakeIP = False, md_IPCIDRMatchSource = False, md_IPCIDRAcceptEmpty = False,
      md_SourceAddressMatch = False, md_SourcePortMatch = False, md_DestinationAddressMatch = False,
      md_DestinationPortMatch = False, md_DidMatch = False, md_IgnoreDestinationIPCIDRMatch = False\<rparr>"

end
