(* ===== verification/Rule_Items.thy ===== *)
theory Rule_Items
  imports Metadata
begin

text \<open>
  \<open>route/rule/rule_item_*.go\<close> and \<open>rule_*_interface_address.go\<close>: one constructor of \<open>RuleItem\<close> per
  item type, with the fields its \<open>Match\<close> method reads (the textual descriptions used for logging
  are left out), one \<open>New...\<close> function per Go constructor and one \<open>..._Match\<close> function per \<open>Match\<close>
  method. \<open>RuleItem_Match\<close> is the dynamic dispatch. The rule-set item is modelled with the rules.
\<close>

text \<open>\<open>adapter.OutboundWithPreferredRoutes\<close>: the two queries of an outbound with its own routes.\<close>

record PreferredRoutes =
  PreferredDomain :: "string \<Rightarrow> bool"
  PreferredAddress :: "Addr \<Rightarrow> bool"

datatype rangeItem = RangeItem (range_start: u16) (range_end: u16)

datatype RuleItem =
    InboundItem "string list" "string \<rightharpoonup> bool"
  | IPVersionItem bool
  | NetworkItem "string list" "string \<rightharpoonup> bool"
  | AuthUserItem "string list" "string \<rightharpoonup> bool"
  | ProtocolItem "string list" "string \<rightharpoonup> bool"
  | ClientItem "string list" "string \<rightharpoonup> bool"
  | DomainItem Matcher
  | DomainKeywordItem "string list"
  | DomainRegexItem "Matcher list"
  | AdGuardDomainItem Matcher
  | IPCIDRItem IPSet bool
  | IPIsPrivateItem bool
  | IPAcceptAnyItem
  | PortItem "u16 list" "u16 \<rightharpoonup> bool" bool
  | PortRangeItem bool "string list" "rangeItem list"
  | ProcessItem "string list" "string \<rightharpoonup> bool"
  | ProcessPathItem "string list" "string \<rightharpoonup> bool"
  | ProcessPathRegexItem "Matcher list"
  | PackageNameItem "string list" "string \<rightharpoonup> bool"
  | UserItem "string list" "string \<rightharpoonup> bool"
  | UserIdItem "u32 list" "u32 \<rightharpoonup> bool"
  | OutboundItem "string list" "string \<rightharpoonup> bool" bool
  | QueryTypeItem "u16 list" "u16 \<rightharpoonup> bool"
  | ClashModeItem bool string
  | NetworkTypeItem "InterfaceType list"
  | NetworkIsExpensiveItem
  | NetworkIsConstrainedItem
  | WIFISSIDItem "string list" "string \<rightharpoonup> bool"
  | WIFIBSSIDItem "string list" "string \<rightharpoonup> bool"
  | InterfaceAddressItem "(string \<times> Prefix list) list"
  | NetworkInterfaceAddressItem "(InterfaceType \<times> Prefix list) list"
  | DefaultInterfaceAddressItem "Prefix list"
  | PreferredByItem "string list" "PreferredRoutes list"

section \<open>Constructors\<close>

definition NewInboundRule :: "string list \<Rightarrow> RuleItem" where
  "NewInboundRule inbounds = InboundItem inbounds (boolMap inbounds)"

definition NewIPVersionItem :: "bool \<Rightarrow> RuleItem" where
  "NewIPVersionItem isIPv6 = IPVersionItem isIPv6"

definition NewNetworkItem :: "string list \<Rightarrow> RuleItem" where
  "NewNetworkItem networks = NetworkItem networks (boolMap networks)"

definition NewAuthUserItem :: "string list \<Rightarrow> RuleItem" where
  "NewAuthUserItem users = AuthUserItem users (boolMap users)"

definition NewProtocolItem :: "string list \<Rightarrow> RuleItem" where
  "NewProtocolItem protocols = ProtocolItem protocols (boolMap protocols)"

definition NewClientItem :: "string list \<Rightarrow> RuleItem" where
  "NewClientItem clients = ClientItem clients (boolMap clients)"

definition NewDomainItem :: "Lib \<Rightarrow> string list \<Rightarrow> string list \<Rightarrow> RuleItem result" where
  "NewDomainItem lib domains domainSuffixes =
     (if list_ex (\<lambda>d. d = '''') domains
      then Inl (E_New [AStr ''domain: empty item is not allowed''])
      else if list_ex (\<lambda>d. d = '''') domainSuffixes
      then Inl (E_New [AStr ''domain_suffix: empty item is not allowed''])
      else Inr (DomainItem (domainNewMatcher lib domains domainSuffixes False)))"

definition NewRawDomainItem :: "Matcher \<Rightarrow> RuleItem" where
  "NewRawDomainItem matcher = DomainItem matcher"

definition NewDomainKeywordItem :: "string list \<Rightarrow> RuleItem" where
  "NewDomainKeywordItem keywords = DomainKeywordItem keywords"

text \<open>The loop shared by the two regular expression items.\<close>

definition compileAll :: "Lib \<Rightarrow> string list \<Rightarrow> Matcher list result" where
  "compileAll lib expressions =
     mapE_from 0 (\<lambda>i regex. cause [AStr ''parse expression '', ANum (int i)] (regexpCompile lib regex))
       expressions"

definition NewDomainRegexItem :: "Lib \<Rightarrow> string list \<Rightarrow> RuleItem result" where
  "NewDomainRegexItem lib expressions =
     bindE (compileAll lib expressions) (\<lambda>ms. Inr (DomainRegexItem ms))"

definition NewAdGuardDomainItem :: "Lib \<Rightarrow> string list \<Rightarrow> RuleItem" where
  "NewAdGuardDomainItem lib ruleLines = AdGuardDomainItem (domainNewAdGuardMatcher lib ruleLines)"

definition NewRawAdGuardDomainItem :: "Matcher \<Rightarrow> RuleItem" where
  "NewRawAdGuardDomainItem matcher = AdGuardDomainItem matcher"

text \<open>
  Each entry is a prefix, or else a single address; when neither parses, the prefix error is
  reported.
\<close>

definition parseCIDREntry :: "Lib \<Rightarrow> nat \<Rightarrow> string \<Rightarrow> IPSetOp result" where
  "parseCIDREntry lib i s =
     (case ParsePrefix lib s of
        Inr prefix \<Rightarrow> Inr (AddPrefix prefix)
      | Inl err \<Rightarrow>
          (case ParseAddr lib s of
             Inr addr \<Rightarrow> Inr (AddAddr addr)
           | Inl _ \<Rightarrow> Inl (E_Cause err [AStr ''parse ['', ANum (int i), AStr '']''])))"

definition NewIPCIDRItem :: "Lib \<Rightarrow> bool \<Rightarrow> string list \<Rightarrow> RuleItem result" where
  "NewIPCIDRItem lib isSource prefixStrings =
     bindE (mapE_from 0 (parseCIDREntry lib) prefixStrings)
       (\<lambda>ops. bindE (builderIPSet lib ops) (\<lambda>ipSet. Inr (IPCIDRItem ipSet isSource)))"

definition NewRawIPCIDRItem :: "bool \<Rightarrow> IPSet \<Rightarrow> RuleItem" where
  "NewRawIPCIDRItem isSource ipSet = IPCIDRItem ipSet isSource"

definition NewIPIsPrivateItem :: "bool \<Rightarrow> RuleItem" where
  "NewIPIsPrivateItem isSource = IPIsPrivateItem isSource"

definition NewIPAcceptAnyItem :: RuleItem where
  "NewIPAcceptAnyItem = IPAcceptAnyItem"

definition NewPortItem :: "bool \<Rightarrow> u16 list \<Rightarrow> RuleItem" where
  "NewPortItem isSource ports = PortItem ports (boolMap ports) isSource"

text \<open>
  A port range is \<open>a:b\<close>, \<open>:b\<close> (from 0) or \<open>a:\<close> (up to 65535).
\<close>

definition parsePortRange :: "string \<Rightarrow> rangeItem result" where
  "parsePortRange portRange =
     (let bad = E_Cause (E_New [AStr ''bad port range'']) [AStr portRange] in
      case stringsIndex portRange '':'' of
        None \<Rightarrow> Inl bad
      | Some subIndex \<Rightarrow>
          bindE (if subIndex > 0
                 then cause [AStr ''bad port range'', AStr portRange] (parseUint16 (take subIndex portRange))
                 else Inr 0)
            (\<lambda>start. bindE (if subIndex = length portRange - 1 then Inr 65535
                     else cause [AStr ''bad port range'', AStr portRange]
                            (parseUint16 (drop (subIndex + 1) portRange)))
              (\<lambda>end'. Inr (RangeItem start end'))))"

definition NewPortRangeItem :: "bool \<Rightarrow> string list \<Rightarrow> RuleItem result" where
  "NewPortRangeItem isSource rangeList =
     bindE (mapE_from 0 (\<lambda>_. parsePortRange) rangeList)
       (\<lambda>portRangeList. Inr (PortRangeItem isSource rangeList portRangeList))"

definition NewProcessItem :: "string list \<Rightarrow> RuleItem" where
  "NewProcessItem processNameList = ProcessItem processNameList (boolMap processNameList)"

definition NewProcessPathItem :: "string list \<Rightarrow> RuleItem" where
  "NewProcessPathItem processNameList = ProcessPathItem processNameList (boolMap processNameList)"

definition NewProcessPathRegexItem :: "Lib \<Rightarrow> string list \<Rightarrow> RuleItem result" where
  "NewProcessPathRegexItem lib expressions =
     bindE (compileAll lib expressions) (\<lambda>ms. Inr (ProcessPathRegexItem ms))"

definition NewPackageNameItem :: "string list \<Rightarrow> RuleItem" where
  "NewPackageNameItem packageNameList = PackageNameItem packageNameList (boolMap packageNameList)"

definition NewUserItem :: "string list \<Rightarrow> RuleItem" where
  "NewUserItem users = UserItem users (boolMap users)"

definition NewUserIDItem :: "u32 list \<Rightarrow> RuleItem" where
  "NewUserIDItem userIdList = UserIdItem userIdList (boolMap userIdList)"

definition NewOutboundRule :: "string list \<Rightarrow> RuleItem" where
  "NewOutboundRule outbounds =
     (let (m, matchAny) =
        foldl (\<lambda>(m, matchAny) outbound.
                 if outbound = ''any'' then (m, True) else (m(outbound \<mapsto> True), matchAny))
          (Map.empty, False) outbounds
      in OutboundItem outbounds m matchAny)"

definition NewQueryTypeItem :: "u16 list \<Rightarrow> RuleItem" where
  "NewQueryTypeItem typeList = QueryTypeItem typeList (boolMap typeList)"

text \<open>The Clash server is looked up by \<open>Start\<close>; before that the field is nil.\<close>

definition NewClashModeItem :: "string \<Rightarrow> RuleItem" where
  "NewClashModeItem mode = ClashModeItem False mode"

definition NewNetworkTypeItem :: "InterfaceType list \<Rightarrow> RuleItem" where
  "NewNetworkTypeItem networkType = NetworkTypeItem networkType"

definition NewNetworkIsExpensiveItem :: RuleItem where
  "NewNetworkIsExpensiveItem = NetworkIsExpensiveItem"

definition NewNetworkIsConstrainedItem :: RuleItem where
  "NewNetworkIsConstrainedItem = NetworkIsConstrainedItem"

definition NewWIFISSIDItem :: "string list \<Rightarrow> RuleItem" where
  "NewWIFISSIDItem ssidList = WIFISSIDItem ssidList (boolMap ssidList)"

definition NewWIFIBSSIDItem :: "string list \<Rightarrow> RuleItem" where
  "NewWIFIBSSIDItem bssidList = WIFIBSSIDItem bssidList (boolMap bssidList)"

text \<open>
  The three address items keep, per configured key, the prefixes; a key written twice keeps the
  last list, as the map assignment of the loop does. The prefixes arrive built.
\<close>

definition lastEntries :: "('k \<times> 'v) list \<Rightarrow> ('k \<times> 'v) list" where
  "lastEntries entries = foldl (\<lambda>acc (k, v). filter (\<lambda>(k', _). k' \<noteq> k) acc @ [(k, v)]) [] entries"

definition NewInterfaceAddressItem :: "(string \<times> Prefix list) list \<Rightarrow> RuleItem" where
  "NewInterfaceAddressItem entries = InterfaceAddressItem (lastEntries entries)"

definition NewNetworkInterfaceAddressItem :: "(InterfaceType \<times> Prefix list) list \<Rightarrow> RuleItem" where
  "NewNetworkInterfaceAddressItem entries = NetworkInterfaceAddressItem (lastEntries entries)"

definition NewDefaultInterfaceAddressItem :: "Prefix list \<Rightarrow> RuleItem" where
  "NewDefaultInterfaceAddressItem prefixes = DefaultInterfaceAddressItem prefixes"

definition NewPreferredByItem :: "string list \<Rightarrow> RuleItem" where
  "NewPreferredByItem outboundTags = PreferredByItem outboundTags []"

section \<open>Match methods\<close>

definition InboundItem_Match :: "(string \<rightharpoonup> bool) \<Rightarrow> InboundContext \<Rightarrow> bool" where
  "InboundItem_Match inboundMap metadata = mapGet inboundMap (md_Inbound metadata)"

definition IPVersionItem_Match :: "Lib \<Rightarrow> bool \<Rightarrow> InboundContext \<Rightarrow> bool" where
  "IPVersionItem_Match lib isIPv6 metadata =
     (md_IPVersion metadata \<noteq> 0 \<and> (md_IPVersion metadata = 6) = isIPv6 \<or>
      IsIP lib (md_Destination metadata) \<and> IsIPv6 lib (md_Destination metadata) = isIPv6)"

definition NetworkItem_Match :: "(string \<rightharpoonup> bool) \<Rightarrow> InboundContext \<Rightarrow> bool" where
  "NetworkItem_Match networkMap metadata = mapGet networkMap (md_Network metadata)"

definition AuthUserItem_Match :: "(string \<rightharpoonup> bool) \<Rightarrow> InboundContext \<Rightarrow> bool" where
  "AuthUserItem_Match userMap metadata = mapGet userMap (md_User metadata)"

definition ProtocolItem_Match :: "(string \<rightharpoonup> bool) \<Rightarrow> InboundContext \<Rightarrow> bool" where
  "ProtocolItem_Match protocolMap metadata = mapGet protocolMap (md_Protocol metadata)"

definition ClientItem_Match :: "(string \<rightharpoonup> bool) \<Rightarrow> InboundContext \<Rightarrow> bool" where
  "ClientItem_Match clientMap metadata = mapGet clientMap (md_Client metadata)"

text \<open>The domain the four domain items look at: the sniffed one, or else the destination's.\<close>

definition domainHost :: "InboundContext \<Rightarrow> string" where
  "domainHost metadata =
     (if md_Domain metadata \<noteq> '''' then md_Domain metadata else sa_Fqdn (md_Destination metadata))"

definition DomainItem_Match :: "Lib \<Rightarrow> Matcher \<Rightarrow> InboundContext \<Rightarrow> bool" where
  "DomainItem_Match lib matcher metadata =
     (if domainHost metadata = '''' then False
      else matcher (stringsToLower lib (domainHost metadata)))"

definition DomainKeywordItem_Match :: "Lib \<Rightarrow> string list \<Rightarrow> InboundContext \<Rightarrow> bool" where
  "DomainKeywordItem_Match lib keywords metadata =
     (if domainHost metadata = '''' then False
      else let host = stringsToLower lib (domainHost metadata)
           in list_ex (\<lambda>keyword. stringsContains host keyword) keywords)"

definition DomainRegexItem_Match :: "Lib \<Rightarrow> Matcher list \<Rightarrow> InboundContext \<Rightarrow> bool" where
  "DomainRegexItem_Match lib matchers metadata =
     (if domainHost metadata = '''' then False
      else let host = stringsToLower lib (domainHost metadata)
           in list_ex (\<lambda>matcher. matcher host) matchers)"

definition AdGuardDomainItem_Match :: "Lib \<Rightarrow> Matcher \<Rightarrow> InboundContext \<Rightarrow> bool" where
  "AdGuardDomainItem_Match lib matcher metadata =
     (if domainHost metadata = '''' then False
      else matcher (stringsToLower lib (domainHost metadata)))"

definition IPCIDRItem_Match :: "Lib \<Rightarrow> IPSet \<Rightarrow> bool \<Rightarrow> InboundContext \<Rightarrow> bool" where
  "IPCIDRItem_Match lib ipSet isSource metadata =
     (if isSource \<or> md_IPCIDRMatchSource metadata then ipSet (sa_Addr (md_Source metadata))
      else if IsIP lib (md_Destination metadata) then ipSet (sa_Addr (md_Destination metadata))
      else if md_DestinationAddresses metadata \<noteq> []
      then list_ex (\<lambda>address. ipSet address) (md_DestinationAddresses metadata)
      else md_IPCIDRAcceptEmpty metadata)"

definition IPIsPrivateItem_Match :: "Lib \<Rightarrow> bool \<Rightarrow> InboundContext \<Rightarrow> bool" where
  "IPIsPrivateItem_Match lib isSource metadata =
     (let destination = (if isSource then sa_Addr (md_Source metadata)
                         else sa_Addr (md_Destination metadata))
      in if addrIsValid destination then \<not> IsPublicAddr lib destination
         else if \<not> isSource
         then list_ex (\<lambda>address. \<not> IsPublicAddr lib address) (md_DestinationAddresses metadata)
         else False)"

definition IPAcceptAnyItem_Match :: "InboundContext \<Rightarrow> bool" where
  "IPAcceptAnyItem_Match metadata = (length (md_DestinationAddresses metadata) > 0)"

definition PortItem_Match :: "(u16 \<rightharpoonup> bool) \<Rightarrow> bool \<Rightarrow> InboundContext \<Rightarrow> bool" where
  "PortItem_Match portMap isSource metadata =
     (if isSource then mapGet portMap (sa_Port (md_Source metadata))
      else mapGet portMap (sa_Port (md_Destination metadata)))"

definition PortRangeItem_Match :: "bool \<Rightarrow> rangeItem list \<Rightarrow> InboundContext \<Rightarrow> bool" where
  "PortRangeItem_Match isSource portRangeList metadata =
     (let port = (if isSource then sa_Port (md_Source metadata) else sa_Port (md_Destination metadata))
      in list_ex (\<lambda>portRange. port \<ge> range_start portRange \<and> port \<le> range_end portRange) portRangeList)"

definition ProcessItem_Match :: "(string \<rightharpoonup> bool) \<Rightarrow> InboundContext \<Rightarrow> bool" where
  "ProcessItem_Match processMap metadata =
     (case md_ProcessInfo metadata of
        None \<Rightarrow> False
      | Some p \<Rightarrow> if co_ProcessPath p = '''' then False
                  else mapGet processMap (filepathBase (co_ProcessPath p)))"

definition ProcessPathItem_Match :: "Lib \<Rightarrow> (string \<rightharpoonup> bool) \<Rightarrow> InboundContext \<Rightarrow> bool" where
  "ProcessPathItem_Match lib processMap metadata =
     (case md_ProcessInfo metadata of
        None \<Rightarrow> False
      | Some p \<Rightarrow>
          if co_ProcessPath p \<noteq> '''' \<and> mapGet processMap (co_ProcessPath p) then True
          else if IsAndroid lib
          then list_ex (\<lambda>packageName. mapGet processMap packageName) (co_AndroidPackageNames p)
          else False)"

definition ProcessPathRegexItem_Match :: "Matcher list \<Rightarrow> InboundContext \<Rightarrow> bool" where
  "ProcessPathRegexItem_Match matchers metadata =
     (case md_ProcessInfo metadata of
        None \<Rightarrow> False
      | Some p \<Rightarrow> if co_ProcessPath p = '''' then False
                  else list_ex (\<lambda>matcher. matcher (co_ProcessPath p)) matchers)"

definition PackageNameItem_Match :: "(string \<rightharpoonup> bool) \<Rightarrow> InboundContext \<Rightarrow> bool" where
  "PackageNameItem_Match packageMap metadata =
     (case md_ProcessInfo metadata of
        None \<Rightarrow> False
      | Some p \<Rightarrow> if co_AndroidPackageNames p = [] then False
                  else list_ex (\<lambda>packageName. mapGet packageMap packageName) (co_AndroidPackageNames p))"

definition UserItem_Match :: "(string \<rightharpoonup> bool) \<Rightarrow> InboundContext \<Rightarrow> bool" where
  "UserItem_Match userMap metadata =
     (case md_ProcessInfo metadata of
        None \<Rightarrow> False
      | Some p \<Rightarrow> if co_UserName p = '''' then False else mapGet userMap (co_UserName p))"

definition UserIdItem_Match :: "(u32 \<rightharpoonup> bool) \<Rightarrow> InboundContext \<Rightarrow> bool" where
  "UserIdItem_Match userIdMap metadata =
     (case md_ProcessInfo metadata of
        None \<Rightarrow> False
      | Some p \<Rightarrow> if co_UserId p = -1 then False else mapGet userIdMap (co_UserId p))"

definition OutboundItem_Match :: "(string \<rightharpoonup> bool) \<Rightarrow> bool \<Rightarrow> InboundContext \<Rightarrow> bool" where
  "OutboundItem_Match outboundMap matchAny metadata =
     (if matchAny then md_Outbound metadata \<noteq> '''' else mapGet outboundMap (md_Outbound metadata))"

definition QueryTypeItem_Match :: "(u16 \<rightharpoonup> bool) \<Rightarrow> InboundContext \<Rightarrow> bool" where
  "QueryTypeItem_Match typeMap metadata =
     (if md_QueryType metadata = 0 then False else mapGet typeMap (md_QueryType metadata))"

definition ClashModeItem_Match :: "Lib \<Rightarrow> Net \<Rightarrow> bool \<Rightarrow> string \<Rightarrow> bool" where
  "ClashModeItem_Match lib net clashServer mode =
     (if \<not> clashServer then False else stringsEqualFold lib (net_ClashMode net) mode)"

definition NetworkTypeItem_Match :: "Net \<Rightarrow> InterfaceType list \<Rightarrow> bool" where
  "NetworkTypeItem_Match net networkType =
     (case net_DefaultNetworkInterface net of
        None \<Rightarrow> False
      | Some networkInterface \<Rightarrow> ni_Type networkInterface \<in> set networkType)"

definition NetworkIsExpensiveItem_Match :: "Net \<Rightarrow> bool" where
  "NetworkIsExpensiveItem_Match net =
     (case net_DefaultNetworkInterface net of None \<Rightarrow> False | Some i \<Rightarrow> ni_Expensive i)"

definition NetworkIsConstrainedItem_Match :: "Net \<Rightarrow> bool" where
  "NetworkIsConstrainedItem_Match net =
     (case net_DefaultNetworkInterface net of None \<Rightarrow> False | Some i \<Rightarrow> ni_Constrained i)"

definition WIFISSIDItem_Match :: "Net \<Rightarrow> (string \<rightharpoonup> bool) \<Rightarrow> bool" where
  "WIFISSIDItem_Match net ssidMap = mapGet ssidMap (net_SSID net)"

definition WIFIBSSIDItem_Match :: "Net \<Rightarrow> (string \<rightharpoonup> bool) \<Rightarrow> bool" where
  "WIFIBSSIDItem_Match net bssidMap = mapGet bssidMap (net_BSSID net)"

text \<open>
  Every configured interface must exist (with a name) and carry an address that overlaps one of
  its prefixes.
\<close>

definition InterfaceAddressItem_Match :: "Net \<Rightarrow> (string \<times> Prefix list) list \<Rightarrow> bool" where
  "InterfaceAddressItem_Match net interfaceAddresses =
     list_all (\<lambda>(ifName, addresses).
        case find (\<lambda>it. if_Name it = ifName) (net_Interfaces net) of
          None \<Rightarrow> False
        | Some iface \<Rightarrow>
            if if_Name iface = '''' then False
            else \<not> list_all (\<lambda>address.
                     list_all (\<lambda>it. \<not> prefixOverlaps address it) (if_Addresses iface)) addresses)
       interfaceAddresses"

definition NetworkInterfaceAddressItem_Match ::
  "Net \<Rightarrow> (InterfaceType \<times> Prefix list) list \<Rightarrow> bool" where
  "NetworkInterfaceAddressItem_Match net interfaceAddresses =
     list_all (\<lambda>(ifType, addresses).
        list_ex (\<lambda>networkInterface.
           ni_Type networkInterface = ifType \<and>
           list_ex (\<lambda>it. list_ex (\<lambda>prefix. prefixOverlaps prefix it) addresses)
             (if_Addresses (ni_Interface networkInterface)))
          (net_NetworkInterfaces net))
       interfaceAddresses"

definition DefaultInterfaceAddressItem_Match :: "Net \<Rightarrow> Prefix list \<Rightarrow> bool" where
  "DefaultInterfaceAddressItem_Match net interfaceAddresses =
     (case net_DefaultInterface net of
        None \<Rightarrow> False
      | Some defaultInterface \<Rightarrow>
          list_all (\<lambda>address.
             \<not> list_all (\<lambda>it. \<not> prefixOverlaps address it) (if_Addresses defaultInterface))
            interfaceAddresses)"

definition PreferredByItem_Match :: "Lib \<Rightarrow> PreferredRoutes list \<Rightarrow> InboundContext \<Rightarrow> bool" where
  "PreferredByItem_Match lib outbounds metadata =
     (if domainHost metadata \<noteq> '''' \<and>
         list_ex (\<lambda>o'. PreferredDomain o' (domainHost metadata)) outbounds then True
      else if IsIP lib (md_Destination metadata) \<and>
         list_ex (\<lambda>o'. PreferredAddress o' (sa_Addr (md_Destination metadata))) outbounds then True
      else if md_DestinationAddresses metadata \<noteq> [] \<and>
         list_ex (\<lambda>address. list_ex (\<lambda>o'. PreferredAddress o' address) outbounds)
           (md_DestinationAddresses metadata) then True
      else False)"

fun RuleItem_Match :: "Lib \<Rightarrow> Net \<Rightarrow> RuleItem \<Rightarrow> InboundContext \<Rightarrow> bool" where
  "RuleItem_Match lib net (InboundItem _ m) md = InboundItem_Match m md"
| "RuleItem_Match lib net (IPVersionItem v6) md = IPVersionItem_Match lib v6 md"
| "RuleItem_Match lib net (NetworkItem _ m) md = NetworkItem_Match m md"
| "RuleItem_Match lib net (AuthUserItem _ m) md = AuthUserItem_Match m md"
| "RuleItem_Match lib net (ProtocolItem _ m) md = ProtocolItem_Match m md"
| "RuleItem_Match lib net (ClientItem _ m) md = ClientItem_Match m md"
| "RuleItem_Match lib net (DomainItem m) md = DomainItem_Match lib m md"
| "RuleItem_Match lib net (DomainKeywordItem ks) md = DomainKeywordItem_Match lib ks md"
| "RuleItem_Match lib net (DomainRegexItem ms) md = DomainRegexItem_Match lib ms md"
| "RuleItem_Match lib net (AdGuardDomainItem m) md = AdGuardDomainItem_Match lib m md"
| "RuleItem_Match lib net (IPCIDRItem ipSet src) md = IPCIDRItem_Match lib ipSet src md"
| "RuleItem_Match lib net (IPIsPrivateItem src) md = IPIsPrivateItem_Match lib src md"
| "RuleItem_Match lib net IPAcceptAnyItem md = IPAcceptAnyItem_Match md"
| "RuleItem_Match lib net (PortItem _ m src) md = PortItem_Match m src md"
| "RuleItem_Match lib net (PortRangeItem src _ rs) md = PortRangeItem_Match src rs md"
| "RuleItem_Match lib net (ProcessItem _ m) md = ProcessItem_Match m md"
| "RuleItem_Match lib net (ProcessPathItem _ m) md = ProcessPathItem_Match lib m md"
| "RuleItem_Match lib net (ProcessPathRegexItem ms) md = ProcessPathRegexItem_Match ms md"
| "RuleItem_Match lib net (PackageNameItem _ m) md = PackageNameItem_Match m md"
| "RuleItem_Match lib net (UserItem _ m) md = UserItem_Match m md"
| "RuleItem_Match lib net (UserIdItem _ m) md = UserIdItem_Match m md"
| "RuleItem_Match lib net (OutboundItem _ m a) md = OutboundItem_Match m a md"
| "RuleItem_Match lib net (QueryTypeItem _ m) md = QueryTypeItem_Match m md"
| "RuleItem_Match lib net (ClashModeItem s m) md = ClashModeItem_Match lib net s m"
| "RuleItem_Match lib net (NetworkTypeItem ts) md = NetworkTypeItem_Match net ts"
| "RuleItem_Match lib net NetworkIsExpensiveItem md = NetworkIsExpensiveItem_Match net"
| "RuleItem_Match lib net NetworkIsConstrainedItem md = NetworkIsConstrainedItem_Match net"
| "RuleItem_Match lib net (WIFISSIDItem _ m) md = WIFISSIDItem_Match net m"
| "RuleItem_Match lib net (WIFIBSSIDItem _ m) md = WIFIBSSIDItem_Match net m"
| "RuleItem_Match lib net (InterfaceAddressItem es) md = InterfaceAddressItem_Match net es"
| "RuleItem_Match lib net (NetworkInterfaceAddressItem es) md = NetworkInterfaceAddressItem_Match net es"
| "RuleItem_Match lib net (DefaultInterfaceAddressItem ps) md = DefaultInterfaceAddressItem_Match net ps"
| "RuleItem_Match lib net (PreferredByItem _ os) md = PreferredByItem_Match lib os md"

lemmas item_Match_defs =
  InboundItem_Match_def IPVersionItem_Match_def NetworkItem_Match_def AuthUserItem_Match_def
  ProtocolItem_Match_def ClientItem_Match_def DomainItem_Match_def DomainKeywordItem_Match_def
  DomainRegexItem_Match_def AdGuardDomainItem_Match_def IPCIDRItem_Match_def IPIsPrivateItem_Match_def
  IPAcceptAnyItem_Match_def PortItem_Match_def PortRangeItem_Match_def ProcessItem_Match_def
  ProcessPathItem_Match_def ProcessPathRegexItem_Match_def PackageNameItem_Match_def UserItem_Match_def
  UserIdItem_Match_def OutboundItem_Match_def QueryTypeItem_Match_def ClashModeItem_Match_def
  PreferredByItem_Match_def domainHost_def

lemma DidMatch_frame [simp]: "RuleItem_Match lib net it (md\<lparr>md_DidMatch := b\<rparr>) = RuleItem_Match lib net it md"
  by (cases it) (simp_all add: item_Match_defs)

lemma Ignore_frame [simp]:
  "RuleItem_Match lib net it (md\<lparr>md_IgnoreDestinationIPCIDRMatch := b\<rparr>) = RuleItem_Match lib net it md"
  by (cases it) (simp_all add: item_Match_defs)

end
