(* ===== verification/Bytes.thy ===== *)
theory Bytes
  imports Prelude
begin

text \<open>
  Bytes, and what the sources use of Go's \<open>io\<close>, \<open>encoding/binary\<close> and \<open>net/netip\<close> to write and read
  them: big-endian integers, variable-length integers (\<open>PutUvarint\<close>, \<open>ReadUvarint\<close>), exact reads,
  and the binary form of addresses and prefixes, each with its round trip.
\<close>

unbundle bit_operations_syntax

type_synonym bytes = "u8 list"

definition EOF :: Error where
  "EOF = E_Lib ''EOF''"

definition unexpectedEOF :: Error where
  "unexpectedEOF = E_Lib ''unexpected EOF''"

definition bytesOf :: "string \<Rightarrow> bytes" where
  "bytesOf s = map (\<lambda>c. word_of_nat (of_char c)) s"

definition stringOf :: "bytes \<Rightarrow> string" where
  "stringOf bs = map (\<lambda>b. char_of (unat b)) bs"

section \<open>Big-endian integers\<close>

text \<open>\<open>binary.BigEndian.Uint16/32/64\<close> of the first bytes, and the bytes of a number.\<close>

definition bigEndian :: "bytes \<Rightarrow> nat" where
  "bigEndian bs = foldl (\<lambda>n b. 256 * n + unat b) 0 bs"

fun bytesOfNat :: "nat \<Rightarrow> nat \<Rightarrow> bytes" where
  "bytesOfNat 0 v = []"
| "bytesOfNat (Suc n) v = word_of_nat (v div 256 ^ n) # bytesOfNat n v"

text \<open>\<open>io.ReadFull\<close> from the rest of a \<open>bytes.Reader\<close>.\<close>

definition readN :: "nat \<Rightarrow> bytes \<Rightarrow> (bytes \<times> bytes) result" where
  "readN n bs =
     (if n \<le> length bs then Inr (take n bs, drop n bs) else Inl (if bs = [] then EOF else unexpectedEOF))"

section \<open>Variable-length integers\<close>

function putUvarint :: "u64 \<Rightarrow> bytes" where
  "putUvarint v = (if v < 0x80 then [ucast v] else (ucast v OR 0x80) # putUvarint (drop_bit 7 v))"
  by auto
termination
proof (relation "measure unat")
  fix v :: u64 assume v: "\<not> v < 0x80"
  then have "unat v > 0" by (simp add: word_less_nat_alt)
  then have "unat v div 2 ^ 7 < unat v" by simp
  moreover have "unat (drop_bit 7 v) = unat v div 2 ^ 7" by (metis drop_bit_eq_div unat_drop_bit_eq)
  ultimately show "(drop_bit 7 v, v) \<in> measure unat" by simp
qed simp

declare putUvarint.simps [simp del]

definition overflow :: Error where
  "overflow = E_Lib ''binary: varint overflows a 64-bit integer''"

fun readUvarint_loop :: "nat \<Rightarrow> u64 \<Rightarrow> bytes \<Rightarrow> (u64 \<times> bytes) result" where
  "readUvarint_loop i x [] = Inl (if i \<ge> 10 then overflow else if i > 0 then unexpectedEOF else EOF)"
| "readUvarint_loop i x (b # bs) =
     (if i \<ge> 10 then Inl overflow
      else if b < 0x80 then
        (if i = 9 \<and> b > 1 then Inl overflow else Inr (x OR push_bit (7 * i) (ucast b), bs))
      else readUvarint_loop (Suc i) (x OR push_bit (7 * i) (ucast (b AND 0x7F))) bs)"

definition readUvarint :: "bytes \<Rightarrow> (u64 \<times> bytes) result" where
  "readUvarint bs = readUvarint_loop 0 0 bs"

section \<open>Addresses and prefixes\<close>

fun addrAsSlice :: "Addr \<Rightarrow> bytes" where
  "addrAsSlice AddrNone = []"
| "addrAsSlice (Addr4 a) = bytesOfNat 4 (unat a)"
| "addrAsSlice (Addr6 a) = bytesOfNat 16 (unat a)"

definition addrFromSlice :: "bytes \<Rightarrow> Addr option" where
  "addrFromSlice bs =
     (if length bs = 4 then Some (Addr4 (word_of_nat (bigEndian bs)))
      else if length bs = 16 then Some (Addr6 (word_of_nat (bigEndian bs)))
      else if bs = [] then Some AddrNone else None)"

text \<open>\<open>Addr.MarshalBinary\<close> and \<open>UnmarshalBinary\<close> (without zones), \<open>Prefix.MarshalBinary\<close>: the bits of an invalid prefix are \<open>-1\<close>.\<close>

definition addrUnmarshal :: "bytes \<Rightarrow> Addr result" where
  "addrUnmarshal bs =
     (case addrFromSlice bs of Some a \<Rightarrow> Inr a | None \<Rightarrow> Inl (E_Lib ''unexpected slice size''))"

definition prefixMarshal :: "Prefix \<Rightarrow> bytes" where
  "prefixMarshal p =
     addrAsSlice (prefixAddr p) @ [if prefixIsValid p then word_of_nat (prefixBits p) else 0xFF]"

definition prefixUnmarshal :: "bytes \<Rightarrow> Prefix result" where
  "prefixUnmarshal bs =
     (if bs = [] then Inl (E_Lib ''unexpected slice size'')
      else bindE (addrUnmarshal (butlast bs))
             (\<lambda>a. Inr (if a = AddrNone then Prefix AddrNone 0 else Prefix a (unat (last bs)))))"

section \<open>Round trips\<close>

lemma stringOf_bytesOf [simp]: "stringOf (bytesOf s) = s"
proof -
  have "unat (word_of_nat (of_char c) :: u8) = of_char c" for c :: char
    using nat_of_char_less_256 [of c] by (simp add: unat_of_nat)
  then show ?thesis by (simp add: stringOf_def bytesOf_def comp_def)
qed

lemma bytesOf_stringOf [simp]: "bytesOf (stringOf bs) = bs"
proof -
  have "word_of_nat (unat w mod 256) = w" for w :: u8
  proof -
    have "unat w < 256" using unsigned_less [of w] by simp
    then show ?thesis by simp
  qed
  then show ?thesis by (simp add: bytesOf_def stringOf_def comp_def)
qed

lemma bytesOf_length [simp]: "length (bytesOf s) = length s"
  by (simp add: bytesOf_def)

lemma bytesOf_inject [simp]: "bytesOf s = bytesOf t \<longleftrightarrow> s = t"
  by (metis stringOf_bytesOf)

lemma bytesOf_Nil [simp]: "bytesOf s = [] \<longleftrightarrow> s = []"
  by (simp add: bytesOf_def)

lemma bytesOfNat_length [simp]: "length (bytesOfNat n v) = n"
  by (induction n) simp_all

lemma bigEndian_foldl: "foldl (\<lambda>n b. 256 * n + unat b) k bs = k * 256 ^ length bs + bigEndian bs"
proof (induction bs arbitrary: k)
  case Nil
  then show ?case by (simp add: bigEndian_def)
next
  case (Cons b bs)
  have "foldl (\<lambda>n b. 256 * n + unat b) k (b # bs) = (256 * k + unat b) * 256 ^ length bs + bigEndian bs"
    using Cons [of "256 * k + unat b"] by simp
  moreover have "bigEndian (b # bs) = unat b * 256 ^ length bs + bigEndian bs"
    using Cons [of "unat b"] by (simp add: bigEndian_def)
  ultimately show ?case by (simp add: algebra_simps)
qed

lemma bigEndian_Cons: "bigEndian (b # bs) = unat b * 256 ^ length bs + bigEndian bs"
  using bigEndian_foldl [of "unat b" bs] by (simp add: bigEndian_def)

lemma bigEndian_bytesOfNat: "bigEndian (bytesOfNat n v) = v mod 256 ^ n"
proof (induction n)
  case 0
  then show ?case by (simp add: bigEndian_def)
next
  case (Suc n)
  have "unat (word_of_nat (v div 256 ^ n) :: u8) = (v div 256 ^ n) mod 256" by (simp add: unat_of_nat)
  with Suc have "bigEndian (bytesOfNat (Suc n) v) = (v div 256 ^ n) mod 256 * 256 ^ n + v mod 256 ^ n"
    by (simp add: bigEndian_Cons)
  also have "\<dots> = v mod (256 ^ n * 256)" by (subst mod_mult2_eq) simp
  finally show ?case by (simp add: mult.commute)
qed

lemma readN_append [simp]: "length xs = n \<Longrightarrow> readN n (xs @ rest) = Inr (xs, rest)"
  by (simp add: readN_def)

lemma take_bit_small:
  assumes "unat (w::'a::len word) < 2 ^ k"
  shows "take_bit k w = w"
proof -
  have "unat (take_bit k w) = take_bit k (unat w)" by (rule unsigned_take_bit_eq)
  also have "\<dots> = unat w" using assms by (rule take_bit_nat_eq_self)
  finally show ?thesis by (metis word_unat_eq_iff)
qed

lemma small_bit: "unat (w::'a::len word) < 2 ^ k \<Longrightarrow> bit w n \<Longrightarrow> n < k"
  using take_bit_small [of w k] bit_take_bit_iff [of k w n] by metis

lemma split_at_7:
  fixes x w :: u64
  assumes "i \<le> 8"
  shows "x OR push_bit (7 * i) (ucast (((ucast w :: u8) OR 0x80) AND 0x7F)) OR push_bit (7 * Suc i) (drop_bit 7 w) =
    x OR push_bit (7 * i) w"
proof -
  have "((ucast w :: u8) OR 0x80) AND 0x7F = ucast w AND mask 7"
    by (rule bit_eqI) (auto simp: bit_simps mask_eq_exp_minus_1 bit_numeral_rec split: nat.splits)
  then have "(ucast (((ucast w :: u8) OR 0x80) AND 0x7F) :: u64) = ucast (ucast w AND mask 7 :: u8)" by simp
  also have "\<dots> = take_bit 7 w" by (auto simp: bit_eq_iff bit_simps)
  finally have low: "(ucast (((ucast w :: u8) OR 0x80) AND 0x7F) :: u64) = take_bit 7 w" .
  have "push_bit (7 * i) (take_bit 7 w) OR push_bit (7 * Suc i) (drop_bit 7 w) = push_bit (7 * i) w"
  proof (rule bit_eqI)
    fix n assume "possible_bit TYPE(u64) n"
    show "bit (push_bit (7 * i) (take_bit 7 w) OR push_bit (7 * Suc i) (drop_bit 7 w)) n = bit (push_bit (7 * i) w) n"
    proof (cases "7 * Suc i \<le> n")
      case True
      then have "7 + (n - 7 * Suc i) = n - 7 * i" by simp
      then show ?thesis using True by (auto simp: bit_or_iff bit_push_bit_iff bit_take_bit_iff bit_drop_bit_eq)
    next
      case False
      then show ?thesis by (auto simp: bit_or_iff bit_push_bit_iff bit_take_bit_iff)
    qed
  qed
  then show ?thesis unfolding low by (simp only: or.assoc)
qed

lemma readUvarint_put:
  "unat w < 2 ^ (64 - 7 * i) \<Longrightarrow> i \<le> 9 \<Longrightarrow>
   readUvarint_loop i x (putUvarint w @ rest) = Inr (x OR push_bit (7 * i) w, rest)"
proof (induction w arbitrary: i x rule: putUvarint.induct)
  case (1 w)
  show ?case
  proof (cases "w < 0x80")
    case True
    then have w: "unat w < 2 ^ 7" by (simp add: word_less_nat_alt)
    have "unat (ucast w :: u8) = take_bit 8 (unat w)" using unsigned_ucast_eq [of w, where ?'c = 8] by simp
    also have "\<dots> = unat w" using w by (intro take_bit_nat_eq_self) simp
    finally have b: "unat (ucast w :: u8) = unat w" .
    have "unat (ucast (ucast w :: u8) :: u64) = take_bit 64 (unat (ucast w :: u8))"
      using unsigned_ucast_eq [of "ucast w :: u8", where ?'c = 64] by simp
    also have "\<dots> = unat w" unfolding b using w by (intro take_bit_nat_eq_self) simp
    finally have u: "ucast (ucast w :: u8) = w" by (metis word_unat_eq_iff)
    have "i = 9 \<Longrightarrow> \<not> 1 < (ucast w :: u8)" using 1(2) b by (simp add: word_less_nat_alt)
    moreover have "(ucast w :: u8) < 0x80" using b w by (simp add: word_less_nat_alt)
    ultimately show ?thesis using True 1(3) u by (simp add: putUvarint.simps [of w])
  next
    case False
    then have w: "2 ^ 7 \<le> unat w" by (simp add: word_less_nat_alt)
    then have "(2::nat) ^ 7 < 2 ^ (64 - 7 * i)" using 1(2) by linarith
    then have "7 < 64 - 7 * i" using power_less_imp_less_exp [of "2::nat" 7 "64 - 7 * i"] by simp
    then have i: "i \<le> 8" by simp
    have e: "64 - 7 * i = 7 + (64 - 7 * Suc i)" using i by simp
    have "unat (drop_bit 7 w) = unat w div 2 ^ 7" by (metis drop_bit_eq_div unat_drop_bit_eq)
    also have "\<dots> < 2 ^ (64 - 7 * Suc i)"
      using 1(2) unfolding e power_add by (simp add: div_less_iff_less_mult mult.commute)
    finally have d: "unat (drop_bit 7 w) < 2 ^ (64 - 7 * Suc i)" .
    have "bit ((ucast w :: u8) OR 0x80) 7" by (simp add: bit_simps)
    then have b: "\<not> (ucast w :: u8) OR 0x80 < 0x80"
      using small_bit [of "(ucast w :: u8) OR 0x80" 7 7] by (auto simp: word_less_nat_alt)
    have "readUvarint_loop i x (putUvarint w @ rest) =
        readUvarint_loop (Suc i) (x OR push_bit (7 * i) (ucast (((ucast w :: u8) OR 0x80) AND 0x7F))) (putUvarint (drop_bit 7 w) @ rest)"
      using False i b by (subst putUvarint.simps) simp
    also have "\<dots> = Inr ((x OR push_bit (7 * i) (ucast (((ucast w :: u8) OR 0x80) AND 0x7F))) OR push_bit (7 * Suc i) (drop_bit 7 w), rest)"
      using 1(1) [OF False d] i by simp
    finally show ?thesis using split_at_7 [OF i, of x w] by (simp add: or.assoc)
  qed
qed

lemma readUvarint_putUvarint: "readUvarint (putUvarint w @ rest) = Inr (w, rest)"
  using readUvarint_put [of w 0 0 rest] unsigned_less [of w] by (simp add: readUvarint_def)

lemma addrFromSlice_asSlice [simp]: "addrFromSlice (addrAsSlice a) = Some a"
proof (cases a)
  case (Addr4 w)
  have "unat w < 2 ^ 32" using unsigned_less [of w] by simp
  then have "unat w mod 256 ^ 4 = unat w" by simp
  then show ?thesis using Addr4 by (simp add: addrFromSlice_def bigEndian_bytesOfNat del: bytesOfNat.simps)
next
  case (Addr6 w)
  have "unat w < 2 ^ 128" using unsigned_less [of w] by simp
  then have "unat w mod 256 ^ 16 = unat w" by simp
  then show ?thesis using Addr6 by (simp add: addrFromSlice_def bigEndian_bytesOfNat del: bytesOfNat.simps)
qed (simp add: addrFromSlice_def)

lemma addrAsSlice_inject [simp]: "addrAsSlice a = addrAsSlice b \<longleftrightarrow> a = b"
  by (metis addrFromSlice_asSlice option.inject)

lemma addrAsSlice_length: "length (addrAsSlice a) = (case a of AddrNone \<Rightarrow> 0 | Addr4 _ \<Rightarrow> 4 | Addr6 _ \<Rightarrow> 16)"
  by (cases a) (simp_all del: bytesOfNat.simps)

text \<open>A prefix in the form \<open>net/netip\<close> builds it: valid, or the zero value.\<close>

definition properPrefix :: "Prefix \<Rightarrow> bool" where
  "properPrefix p = (prefixIsValid p \<or> p = Prefix AddrNone 0)"

lemma prefixUnmarshal_marshal: "properPrefix p \<Longrightarrow> prefixUnmarshal (prefixMarshal p) = Inr p"
proof -
  assume p: "properPrefix p"
  obtain a n where a: "p = Prefix a n" by (cases p)
  show ?thesis
  proof (cases "prefixIsValid p")
    case True
    then have "n < 256" "a \<noteq> AddrNone" using a by (cases a; simp)+
    then show ?thesis using True a
      by (simp add: prefixMarshal_def prefixUnmarshal_def addrUnmarshal_def butlast_append unat_of_nat)
  next
    case False
    then show ?thesis using p by (auto simp: properPrefix_def prefixMarshal_def prefixUnmarshal_def addrUnmarshal_def addrFromSlice_def)
  qed
qed

end
