(* ===== verification/Dns_Message.thy ===== *)
theory Dns_Message
  imports Bytes
begin

text \<open>
  DNS messages as \<open>dns/client.go\<close>, \<open>dns/client_log.go\<close> and \<open>dns/extension_edns0_subnet.go\<close> build
  and read them. Messages and records are structs of \<open>miekg/dns\<close>, here with the fields the code
  uses; a record is its header and the fields of its Go type, so that a type switch is a case
  distinction. The functions of \<open>miekg/dns\<close> and \<open>sing\<close> are the record \<open>DnsLib\<close>.
\<close>

section \<open>Messages\<close>

record Question =
  qu_Name :: string
  qu_Qtype :: u16
  qu_Qclass :: u16

text \<open>An option of an OPT record: a client subnet (family, source netmask, address) or another one.\<close>

datatype EdnsOption = EDNS0_SUBNET u16 u8 "u8 list" | OtherOption u16

datatype RData =
    RD_A "u8 list"
  | RD_AAAA "u8 list"
  | RD_CNAME string
  | RD_TXT "string list"
  | RD_MX u16 string
  | RD_SOA u32
  | RD_HTTPS "(u16 \<times> string) list"
  | RD_OPT "EdnsOption list"
  | RD_Other string

record Record =
  rc_Name :: string
  rc_Rrtype :: u16
  rc_Class :: u16
  rc_Ttl :: u32
  rc_Data :: RData

record Msg =
  ms_Id :: u16
  ms_Response :: bool
  ms_Authoritative :: bool
  ms_RecursionDesired :: bool
  ms_RecursionAvailable :: bool
  ms_Rcode :: int
  ms_Question :: "Question list"
  ms_Answer :: "Record list"
  ms_Ns :: "Record list"
  ms_Extra :: "Record list"

abbreviation (input) TypeA :: u16 where "TypeA \<equiv> 1"
abbreviation (input) TypeCNAME :: u16 where "TypeCNAME \<equiv> 5"
abbreviation (input) TypeAAAA :: u16 where "TypeAAAA \<equiv> 28"
abbreviation (input) TypeOPT :: u16 where "TypeOPT \<equiv> 41"
abbreviation (input) TypeHTTPS :: u16 where "TypeHTTPS \<equiv> 65"
abbreviation (input) ClassINET :: u16 where "ClassINET \<equiv> 1"

text \<open>What is outside the repository: \<open>miekg/dns\<close>, \<open>M.AddrFromIP\<close> and \<open>M.ParseAddr\<close> of \<open>sing\<close>.\<close>

record DnsLib =
  dl_IsFqdn :: "string \<Rightarrow> bool"
  dl_Fqdn :: "string \<Rightarrow> string"
  dl_IsEdns0 :: "Msg \<Rightarrow> Record option"
  dl_Version :: "Record \<Rightarrow> u8"
  dl_SetEdns0 :: "Record \<Rightarrow> Msg \<Rightarrow> Msg"
  dl_AddrFromIP :: "u8 list \<Rightarrow> Addr"
  dl_ParseAddr :: "string \<Rightarrow> Addr"

definition FqdnToDomain :: "DnsLib \<Rightarrow> string \<Rightarrow> string" where
  "FqdnToDomain dl fqdn = (if dl_IsFqdn dl fqdn then take (length fqdn - 1) fqdn else fqdn)"

text \<open>The records of a message, in the order in which the code walks over them.\<close>

definition msgRecords :: "Msg \<Rightarrow> Record list" where
  "msgRecords m = ms_Answer m @ ms_Ns m @ ms_Extra m"

definition mapRecords :: "(Record \<Rightarrow> Record) \<Rightarrow> Msg \<Rightarrow> Msg" where
  "mapRecords f m = m\<lparr>ms_Answer := map f (ms_Answer m), ms_Ns := map f (ms_Ns m), ms_Extra := map f (ms_Extra m)\<rparr>"

section \<open>Fixed responses\<close>

definition FixedResponseStatus :: "Msg \<Rightarrow> int \<Rightarrow> Msg" where
  "FixedResponseStatus message rcode =
     \<lparr>ms_Id = ms_Id message, ms_Response = True, ms_Authoritative = True, ms_RecursionDesired = True,
      ms_RecursionAvailable = True, ms_Rcode = rcode, ms_Question = ms_Question message,
      ms_Answer = [], ms_Ns = [], ms_Extra = []\<rparr>"

definition fixedMsg :: "u16 \<Rightarrow> Question \<Rightarrow> Record list \<Rightarrow> Msg" where
  "fixedMsg i question answer =
     \<lparr>ms_Id = i, ms_Response = True, ms_Authoritative = True, ms_RecursionDesired = True,
      ms_RecursionAvailable = True, ms_Rcode = 0, ms_Question = [question],
      ms_Answer = answer, ms_Ns = [], ms_Extra = []\<rparr>"

definition rrHeader :: "Question \<Rightarrow> u16 \<Rightarrow> u32 \<Rightarrow> RData \<Rightarrow> Record" where
  "rrHeader question rrtype ttl d =
     \<lparr>rc_Name = qu_Name question, rc_Rrtype = rrtype, rc_Class = ClassINET, rc_Ttl = ttl, rc_Data = d\<rparr>"

definition FixedResponse :: "u16 \<Rightarrow> Question \<Rightarrow> Addr list \<Rightarrow> u32 \<Rightarrow> Msg" where
  "FixedResponse i question addresses timeToLive =
     fixedMsg i question
       (concat (map (\<lambda>address.
          if addrIs4 address \<and> qu_Qtype question = TypeA
          then [rrHeader question TypeA timeToLive (RD_A (addrAsSlice address))]
          else if addrIs6 address \<and> qu_Qtype question = TypeAAAA
          then [rrHeader question TypeAAAA timeToLive (RD_AAAA (addrAsSlice address))]
          else []) addresses))"

definition FixedResponseCNAME :: "u16 \<Rightarrow> Question \<Rightarrow> string \<Rightarrow> u32 \<Rightarrow> Msg" where
  "FixedResponseCNAME i question target timeToLive =
     fixedMsg i question [rrHeader question TypeCNAME timeToLive (RD_CNAME target)]"

text \<open>The TXT and MX responses carry the record type A in their headers.\<close>

definition FixedResponseTXT :: "u16 \<Rightarrow> Question \<Rightarrow> string list \<Rightarrow> u32 \<Rightarrow> Msg" where
  "FixedResponseTXT i question txt timeToLive =
     fixedMsg i question [rrHeader question TypeA timeToLive (RD_TXT txt)]"

definition FixedResponseMX :: "u16 \<Rightarrow> Question \<Rightarrow> (u16 \<times> string) list \<Rightarrow> u32 \<Rightarrow> Msg" where
  "FixedResponseMX i question mxs timeToLive =
     fixedMsg i question (map (\<lambda>(pref, host). rrHeader question TypeA timeToLive (RD_MX pref host)) mxs)"

section \<open>Reading responses\<close>

definition recordAddresses :: "DnsLib \<Rightarrow> Record \<Rightarrow> Addr list" where
  "recordAddresses dl answer =
     (case rc_Data answer of
        RD_A a \<Rightarrow> [dl_AddrFromIP dl a]
      | RD_AAAA a \<Rightarrow> [dl_AddrFromIP dl a]
      | RD_HTTPS values \<Rightarrow>
          concat (map (\<lambda>(key, value).
            if key = 4 \<or> key = 6 then map (dl_ParseAddr dl) (stringsSplit (CHR '','') value) else []) values)
      | _ \<Rightarrow> [])"

definition MessageToAddresses :: "DnsLib \<Rightarrow> Msg \<Rightarrow> Addr list" where
  "MessageToAddresses dl response =
     (if ms_Rcode response \<noteq> 0 then [] else concat (map (recordAddresses dl) (ms_Answer response)))"

fun negativeTTL :: "Record list \<Rightarrow> u32 option" where
  "negativeTTL [] = None"
| "negativeTTL (record # records) =
     (case rc_Data record of
        RD_SOA minttl \<Rightarrow> Some (if rc_Ttl record < minttl then rc_Ttl record else minttl)
      | _ \<Rightarrow> negativeTTL records)"

definition extractNegativeTTL :: "Msg \<Rightarrow> u32 option" where
  "extractNegativeTTL response = negativeTTL (ms_Ns response)"

section \<open>The client subnet\<close>

text \<open>
  The search of \<open>setClientSubnet\<close>: the variables \<open>optRecord\<close> and \<open>subnetOption\<close> after the loop, as
  indices. A record that is not OPT sets \<open>optRecord\<close> back to nil, an option that is not a subnet
  sets \<open>subnetOption\<close> back to nil; the loop ends at the first subnet option.
\<close>

fun findSubnet :: "nat \<Rightarrow> EdnsOption list \<Rightarrow> nat option" where
  "findSubnet i [] = None"
| "findSubnet i (EDNS0_SUBNET f n a # os) = Some i"
| "findSubnet i (OtherOption c # os) = findSubnet (Suc i) os"

definition optOptions :: "Record \<Rightarrow> EdnsOption list option" where
  "optOptions record = (case rc_Data record of RD_OPT os \<Rightarrow> Some os | _ \<Rightarrow> None)"

fun findOpt :: "nat \<Rightarrow> nat option \<Rightarrow> Record list \<Rightarrow> nat option \<times> nat option" where
  "findOpt i current [] = (current, None)"
| "findOpt i current (record # records) =
     (case optOptions record of
        Some os \<Rightarrow>
          (case findSubnet 0 os of
             Some j \<Rightarrow> (Some i, Some j)
           | None \<Rightarrow> findOpt (Suc i) (Some i) records)
      | None \<Rightarrow> findOpt (Suc i) None records)"

definition subnetOption :: "Prefix \<Rightarrow> EdnsOption" where
  "subnetOption p =
     EDNS0_SUBNET (if addrIs4 (prefixAddr p) then 1 else 2) (word_of_nat (prefixBits p)) (addrAsSlice (prefixAddr p))"

definition setOption :: "Prefix \<Rightarrow> nat option \<Rightarrow> Record \<Rightarrow> Record" where
  "setOption p at record =
     (case rc_Data record of
        RD_OPT os \<Rightarrow>
          record\<lparr>rc_Data := RD_OPT (case at of None \<Rightarrow> os @ [subnetOption p] | Some j \<Rightarrow> os[j := subnetOption p])\<rparr>
      | _ \<Rightarrow> record)"

definition SetClientSubnet :: "Msg \<Rightarrow> Prefix \<Rightarrow> Msg" where
  "SetClientSubnet message clientSubnet =
     (case findOpt 0 None (ms_Extra message) of
        (None, at) \<Rightarrow>
          message\<lparr>ms_Extra := ms_Extra message @
            [setOption clientSubnet at \<lparr>rc_Name = ''.'', rc_Rrtype = TypeOPT, rc_Class = 0, rc_Ttl = 0, rc_Data = RD_OPT []\<rparr>]\<rparr>
      | (Some i, at) \<Rightarrow>
          message\<lparr>ms_Extra := (ms_Extra message)[i := setOption clientSubnet at (ms_Extra message ! i)]\<rparr>)"

section \<open>Lemmas\<close>

lemma mapRecords_records [simp]: "msgRecords (mapRecords f m) = map f (msgRecords m)"
  by (simp add: msgRecords_def mapRecords_def)

lemma findSubnet_Some: "findSubnet i os = Some j \<Longrightarrow> i \<le> j \<and> j - i < length os"
  by (induction i os rule: findSubnet.induct) auto

text \<open>The OPT record found is one of the message, with the position of its first subnet option.\<close>

lemma findOpt_Some:
  "findOpt i c rs = (Some k, at) \<Longrightarrow>
     (c = Some k \<and> at = None \<and> rs = []) \<or>
     (i \<le> k \<and> k - i < length rs \<and> (\<exists>os. optOptions (rs ! (k - i)) = Some os \<and> findSubnet 0 os = at))"
proof (induction rs arbitrary: i c)
  case Nil
  then show ?case by simp
next
  case (Cons r rs)
  have step: "i \<le> k \<and> k - i < length (r # rs) \<and> (\<exists>os. optOptions ((r # rs) ! (k - i)) = Some os \<and> findSubnet 0 os = at)"
    if "Suc i \<le> k \<and> k - Suc i < length rs \<and> (\<exists>os. optOptions (rs ! (k - Suc i)) = Some os \<and> findSubnet 0 os = at)"
  proof -
    from that have "Suc i \<le> k" by blast
    then have "k - i = Suc (k - Suc i)" "i \<le> k" by (simp_all add: Suc_diff_Suc Suc_le_eq)
    then show ?thesis using that by simp
  qed
  show ?case
  proof (cases "optOptions r")
    case None
    then show ?thesis using Cons.IH [of "Suc i" None] Cons.prems step by simp
  next
    case (Some os)
    then show ?thesis
      using Cons.IH [of "Suc i" "Some i"] Cons.prems step by (cases "findSubnet 0 os") auto
  qed
qed

lemma findOpt_None: "findOpt i c rs = (None, at) \<Longrightarrow> at = None"
  by (induction i c rs rule: findOpt.induct) (auto split: option.splits)

end
