(* ===== verification/Actions.thy ===== *)
theory Actions
  imports Metadata Dns_Message
begin

text \<open>
  \<open>route/rule/rule_action.go\<close> with the options of \<open>option/rule_action.go\<close>: the actions a rule can
  carry, their construction from the options (\<open>NewRuleAction\<close>, \<open>NewDNSRuleAction\<close>), the sniffer
  table (\<open>RuleActionSniff.build\<close>) and the flood limiter of the reject action. The lemmas show what
  construction keeps of the options and that the limiter is a sliding window.
\<close>

section \<open>Sniffers\<close>

text \<open>The sniffers of \<open>common/sniff\<close>, by name.\<close>

datatype StreamSniffer = TLSClientHello | HTTPHost | StreamDomainNameQuery | BitTorrent | SSH | RDP

datatype PacketSniffer =
  DomainNameQuery | QUICClientHello | STUNMessage | UTP | UDPTracker | DTLSRecord | NTP

record RuleActionSniff =
  sn_SnifferNames :: "string list"
  sn_StreamSniffers :: "StreamSniffer list"
  sn_PacketSniffers :: "PacketSniffer list"
  sn_Timeout :: int
  sn_OverrideDestination :: bool

definition addStream :: "StreamSniffer \<Rightarrow> RuleActionSniff \<Rightarrow> RuleActionSniff" where
  "addStream s r = r\<lparr>sn_StreamSniffers := sn_StreamSniffers r @ [s]\<rparr>"

definition addPacket :: "PacketSniffer \<Rightarrow> RuleActionSniff \<Rightarrow> RuleActionSniff" where
  "addPacket s r = r\<lparr>sn_PacketSniffers := sn_PacketSniffers r @ [s]\<rparr>"

definition sniffStep :: "string \<Rightarrow> RuleActionSniff \<Rightarrow> RuleActionSniff result" where
  "sniffStep name r =
     (if name = ''tls'' then Inr (addStream TLSClientHello r)
      else if name = ''http'' then Inr (addStream HTTPHost r)
      else if name = ''quic'' then Inr (addPacket QUICClientHello r)
      else if name = ''dns'' then Inr (addPacket DomainNameQuery (addStream StreamDomainNameQuery r))
      else if name = ''stun'' then Inr (addPacket STUNMessage r)
      else if name = ''bittorrent'' then Inr (addPacket UDPTracker (addPacket UTP (addStream BitTorrent r)))
      else if name = ''dtls'' then Inr (addPacket DTLSRecord r)
      else if name = ''ssh'' then Inr (addStream SSH r)
      else if name = ''rdp'' then Inr (addStream RDP r)
      else if name = ''ntp'' then Inr (addPacket NTP r)
      else Inl (E_New [AStr ''unknown sniffer: '', AStr name]))"

definition RuleActionSniff_build :: "RuleActionSniff \<Rightarrow> RuleActionSniff result" where
  "RuleActionSniff_build r = foldE (map sniffStep (sn_SnifferNames r)) r"

section \<open>Actions\<close>

record RuleActionRouteOptions =
  ro_OverrideAddress :: Socksaddr
  ro_OverridePort :: u16
  ro_NetworkStrategy :: "NetworkStrategy option"
  ro_NetworkType :: "InterfaceType list"
  ro_FallbackNetworkType :: "InterfaceType list"
  ro_FallbackDelay :: int
  ro_UDPDisableDomainUnmapping :: bool
  ro_UDPConnect :: bool
  ro_UDPTimeout :: int
  ro_TLSFragment :: bool
  ro_TLSFragmentFallbackDelay :: int
  ro_TLSRecordFragment :: bool

text \<open>\<open>C.DomainStrategy\<close> is a \<open>uint8\<close> enumeration.\<close>

datatype DomainStrategy =
  DomainStrategyAsIS | DomainStrategyPreferIPv4 | DomainStrategyPreferIPv6
| DomainStrategyIPv4Only | DomainStrategyIPv6Only

record RuleActionResolve =
  rs_Server :: string
  rs_Strategy :: DomainStrategy
  rs_DisableCache :: bool
  rs_RewriteTTL :: "u32 option"
  rs_ClientSubnet :: Prefix

record RuleActionDNSRouteOptions =
  dr_Strategy :: DomainStrategy
  dr_DisableCache :: bool
  dr_RewriteTTL :: "u32 option"
  dr_ClientSubnet :: Prefix

text \<open>The mutable part of \<open>RuleActionReject\<close>, the times of the recent rejections, is in the record.\<close>

record RuleActionReject =
  rj_Method :: string
  rj_NoDrop :: bool
  rj_dropCounter :: "int list"

datatype RuleAction =
    ActionRoute string RuleActionRouteOptions
  | ActionRouteOptions RuleActionRouteOptions
  | ActionBypass string RuleActionRouteOptions
  | ActionDirect "Arg list"
  | ActionReject RuleActionReject
  | ActionHijackDNS
  | ActionSniff RuleActionSniff
  | ActionResolve RuleActionResolve
  | ActionDNSRoute string RuleActionDNSRouteOptions
  | ActionDNSRouteOptions RuleActionDNSRouteOptions
  | ActionPredefined int "Record list" "Record list" "Record list"

fun RuleAction_Type :: "RuleAction \<Rightarrow> string" where
  "RuleAction_Type (ActionRoute _ _) = ''route''"
| "RuleAction_Type (ActionRouteOptions _) = ''route-options''"
| "RuleAction_Type (ActionBypass _ _) = ''bypass''"
| "RuleAction_Type (ActionDirect _) = ''direct''"
| "RuleAction_Type (ActionReject _) = ''reject''"
| "RuleAction_Type ActionHijackDNS = ''hijack-dns''"
| "RuleAction_Type (ActionSniff _) = ''sniff''"
| "RuleAction_Type (ActionResolve _) = ''resolve''"
| "RuleAction_Type (ActionDNSRoute _ _) = ''route''"
| "RuleAction_Type (ActionDNSRouteOptions _) = ''route-options''"
| "RuleAction_Type (ActionPredefined _ _ _ _) = ''predefined''"

definition IsFinalAction :: "RuleAction \<Rightarrow> bool" where
  "IsFinalAction action = (RuleAction_Type action \<notin> {''sniff'', ''resolve''})"

section \<open>Options and construction\<close>

text \<open>\<open>RawRouteOptionsActionOptions\<close>; durations in nanoseconds, \<open>FallbackDelay\<close> a plain \<open>uint32\<close>.\<close>

record RouteOptionsActionOptions =
  oo_OverrideAddress :: string
  oo_OverridePort :: u16
  oo_NetworkStrategy :: "NetworkStrategy option"
  oo_FallbackDelay :: u32
  oo_UDPDisableDomainUnmapping :: bool
  oo_UDPConnect :: bool
  oo_UDPTimeout :: int
  oo_TLSFragment :: bool
  oo_TLSFragmentFallbackDelay :: int
  oo_TLSRecordFragment :: bool

record RouteActionOptions =
  ra_Outbound :: string
  ra_Options :: RouteOptionsActionOptions

text \<open>
  The options of an action. The dialer options of the \<open>direct\<close> action are a type parameter: they
  are handed to \<open>dialer.New\<close> and \<open>Descriptions\<close>, which are parameters of \<open>NewRuleAction\<close>.
\<close>

record 'd RuleActionOptions =
  ao_Action :: string
  ao_RouteOptions :: RouteActionOptions
  ao_RouteOptionsOptions :: RouteOptionsActionOptions
  ao_DirectOptions :: 'd
  ao_BypassOptions :: RouteActionOptions
  ao_RejectMethod :: string
  ao_RejectNoDrop :: bool
  ao_SniffSniffer :: "string list"
  ao_SniffTimeout :: int
  ao_ResolveOptions :: RuleActionResolve

text \<open>
  The options the \<open>route\<close> and \<open>bypass\<close> branches copy (no \<open>UDPTimeout\<close> there) and the ones the
  \<open>route-options\<close> branch copies.
\<close>

definition routeBranchOptions :: "Lib \<Rightarrow> RouteOptionsActionOptions \<Rightarrow> RuleActionRouteOptions" where
  "routeBranchOptions lib o' =
     \<lparr>ro_OverrideAddress = ParseSocksaddrHostPort lib (oo_OverrideAddress o') 0,
      ro_OverridePort = oo_OverridePort o',
      ro_NetworkStrategy = oo_NetworkStrategy o',
      ro_NetworkType = [], ro_FallbackNetworkType = [],
      ro_FallbackDelay = uint (oo_FallbackDelay o'),
      ro_UDPDisableDomainUnmapping = oo_UDPDisableDomainUnmapping o',
      ro_UDPConnect = oo_UDPConnect o',
      ro_UDPTimeout = 0,
      ro_TLSFragment = oo_TLSFragment o',
      ro_TLSFragmentFallbackDelay = oo_TLSFragmentFallbackDelay o',
      ro_TLSRecordFragment = oo_TLSRecordFragment o'\<rparr>"

definition routeOptionsBranchOptions :: "Lib \<Rightarrow> RouteOptionsActionOptions \<Rightarrow> RuleActionRouteOptions" where
  "routeOptionsBranchOptions lib o' =
     (routeBranchOptions lib o')\<lparr>ro_UDPTimeout := oo_UDPTimeout o'\<rparr>"

text \<open>The arguments of the \<open>F.ToString\<close> call that renders the description of a direct action.\<close>

definition directDescription :: "string list \<Rightarrow> Arg list" where
  "directDescription descriptions =
     (case descriptions of
        [] \<Rightarrow> []
      | [d] \<Rightarrow> [AStr ''('', AStr d, AStr '')'']
      | [d, e] \<Rightarrow> [AStr ''('', AStr d, AStr '','', AStr e, AStr '')'']
      | d # e # _ \<Rightarrow> [AStr ''('', AStr d, AStr '','', AStr e, AStr '',...)''])"

definition NewRuleAction ::
  "('d \<Rightarrow> unit result) \<Rightarrow> ('d \<Rightarrow> string list) \<Rightarrow> Lib \<Rightarrow> 'd RuleActionOptions \<Rightarrow> RuleAction option result" where
  "NewRuleAction dialerNew Descriptions lib action =
     (if ao_Action action = '''' then Inr None
      else if ao_Action action = ''route''
      then Inr (Some (ActionRoute (ra_Outbound (ao_RouteOptions action))
                       (routeBranchOptions lib (ra_Options (ao_RouteOptions action)))))
      else if ao_Action action = ''route-options''
      then Inr (Some (ActionRouteOptions (routeOptionsBranchOptions lib (ao_RouteOptionsOptions action))))
      else if ao_Action action = ''bypass''
      then Inr (Some (ActionBypass (ra_Outbound (ao_BypassOptions action))
                       (routeBranchOptions lib (ra_Options (ao_BypassOptions action)))))
      else if ao_Action action = ''direct''
      then bindE (dialerNew (ao_DirectOptions action))
             (\<lambda>_. Inr (Some (ActionDirect (directDescription (Descriptions (ao_DirectOptions action))))))
      else if ao_Action action = ''reject''
      then Inr (Some (ActionReject \<lparr>rj_Method = ao_RejectMethod action, rj_NoDrop = ao_RejectNoDrop action,
                                     rj_dropCounter = []\<rparr>))
      else if ao_Action action = ''hijack-dns'' then Inr (Some ActionHijackDNS)
      else if ao_Action action = ''sniff''
      then bindE (RuleActionSniff_build
                    \<lparr>sn_SnifferNames = ao_SniffSniffer action, sn_StreamSniffers = [],
                     sn_PacketSniffers = [], sn_Timeout = ao_SniffTimeout action,
                     sn_OverrideDestination = False\<rparr>) (\<lambda>a. Inr (Some (ActionSniff a)))
      else if ao_Action action = ''resolve'' then Inr (Some (ActionResolve (ao_ResolveOptions action)))
      else Inl (Panic [AStr ''unknown rule action: '', AStr (ao_Action action)]))"

record DNSRuleActionOptions =
  da_Action :: string
  da_Server :: string
  da_RouteOptions :: RuleActionDNSRouteOptions
  da_RouteOptionsOptions :: RuleActionDNSRouteOptions
  da_RejectMethod :: string
  da_RejectNoDrop :: bool
  da_Rcode :: "int option"
  da_Answer :: "Record list"
  da_Ns :: "Record list"
  da_Extra :: "Record list"

definition DNSRCode_Build :: "int option \<Rightarrow> int" where
  "DNSRCode_Build r = (case r of None \<Rightarrow> 0 | Some c \<Rightarrow> c)"

definition NewDNSRuleAction :: "DNSRuleActionOptions \<Rightarrow> RuleAction option result" where
  "NewDNSRuleAction action =
     (if da_Action action = '''' then Inr None
      else if da_Action action = ''route''
      then Inr (Some (ActionDNSRoute (da_Server action) (da_RouteOptions action)))
      else if da_Action action = ''route-options''
      then Inr (Some (ActionDNSRouteOptions (da_RouteOptionsOptions action)))
      else if da_Action action = ''reject''
      then Inr (Some (ActionReject \<lparr>rj_Method = da_RejectMethod action, rj_NoDrop = da_RejectNoDrop action,
                                     rj_dropCounter = []\<rparr>))
      else if da_Action action = ''predefined''
      then Inr (Some (ActionPredefined (DNSRCode_Build (da_Rcode action)) (da_Answer action)
                       (da_Ns action) (da_Extra action)))
      else Inl (Panic [AStr ''unknown rule action: '', AStr (da_Action action)]))"

section \<open>The reject action\<close>

text \<open>
  \<open>RuleActionReject.Error\<close> at the time \<open>now\<close> (nanoseconds): nil for the \<open>reply\<close> method, the error
  that the client sees otherwise. Unless \<open>NoDrop\<close> is set, more than 50 rejections within 30 seconds
  turn a reset into a silent drop.
\<close>

datatype RejectCause = ErrReset | ErrDrop

datatype RejectOutcome = NoError | RejectedError RejectCause | RejectPanic string

definition rejectWindow :: int where
  "rejectWindow = 30 * 1000000000"

definition RuleActionReject_Error :: "int \<Rightarrow> RuleActionReject \<Rightarrow> RejectOutcome \<times> RuleActionReject" where
  "RuleActionReject_Error now r =
     (if rj_Method r = ''default'' then
        (if rj_NoDrop r then (RejectedError ErrReset, r)
         else let counter = filter (\<lambda>t. now - t \<le> rejectWindow) (rj_dropCounter r) @ [now];
                  r' = r\<lparr>rj_dropCounter := counter\<rparr>
              in if length counter > 50 then (RejectedError ErrDrop, r')
                 else (RejectedError ErrReset, r'))
      else if rj_Method r = ''drop'' then (RejectedError ErrDrop, r)
      else if rj_Method r = ''reply'' then (NoError, r)
      else (RejectPanic (rj_Method r), r))"

text \<open>A run of rejections at the given times.\<close>

fun rejectRun :: "int list \<Rightarrow> RuleActionReject \<Rightarrow> RejectOutcome list \<times> RuleActionReject" where
  "rejectRun [] r = ([], r)"
| "rejectRun (t # ts) r =
     (let (o', r') = RuleActionReject_Error t r; (os, r'') = rejectRun ts r' in (o' # os, r''))"

section \<open>Lemmas\<close>

lemma addStream_names [simp]: "sn_SnifferNames (addStream s r) = sn_SnifferNames r"
  by (simp add: addStream_def)

lemma addPacket_names [simp]: "sn_SnifferNames (addPacket s r) = sn_SnifferNames r"
  by (simp add: addPacket_def)

definition knownSniffers :: "string list" where
  "knownSniffers = [''tls'', ''http'', ''quic'', ''dns'', ''stun'', ''bittorrent'', ''dtls'', ''ssh'', ''rdp'', ''ntp'']"

lemma sniffStep_ok_iff: "isOk (sniffStep name r) \<longleftrightarrow> name \<in> set knownSniffers"
  by (simp add: sniffStep_def knownSniffers_def)

lemma sniffSteps_ok_iff: "isOk (foldE (map sniffStep names) r) \<longleftrightarrow> set names \<subseteq> set knownSniffers"
proof (induction names arbitrary: r)
  case Nil
  then show ?case by simp
next
  case (Cons n ns)
  show ?case
  proof (cases "sniffStep n r")
    case (Inl e)
    then show ?thesis using sniffStep_ok_iff [of n r] by simp
  next
    case (Inr r')
    then show ?thesis using sniffStep_ok_iff [of n r] Cons.IH by simp
  qed
qed

lemma RuleActionSniff_build_ok_iff:
  "isOk (RuleActionSniff_build r) \<longleftrightarrow> set (sn_SnifferNames r) \<subseteq> set knownSniffers"
  by (simp add: RuleActionSniff_build_def sniffSteps_ok_iff)

text \<open>The window the limiter keeps: every stored time lies within 30 seconds of the last one.\<close>

lemma Error_default_limited:
  assumes "rj_Method r = ''default''" and "\<not> rj_NoDrop r"
  shows "fst (RuleActionReject_Error now r) =
           RejectedError (if length (filter (\<lambda>t. now - t \<le> rejectWindow) (rj_dropCounter r)) \<ge> 50
                          then ErrDrop else ErrReset)"
    and "rj_dropCounter (snd (RuleActionReject_Error now r)) =
           filter (\<lambda>t. now - t \<le> rejectWindow) (rj_dropCounter r) @ [now]"
    and "rj_Method (snd (RuleActionReject_Error now r)) = ''default''"
    and "rj_NoDrop (snd (RuleActionReject_Error now r)) = False"
  using assms by (simp_all add: RuleActionReject_Error_def Let_def)

lemma filter_window_filter:
  "now \<le> t \<Longrightarrow> filter (\<lambda>u. t - u \<le> w) (filter (\<lambda>u. now - u \<le> w) us) = filter (\<lambda>u. t - u \<le> w) us"
  for t :: int
  by (induction us) auto

text \<open>
  After a run at non-decreasing times, the counter holds exactly the times of the run (and of the
  initial counter) that lie in the window of the last one.
\<close>

lemma rejectRun_append:
  "rejectRun (xs @ ys) r =
     (let (os, r') = rejectRun xs r; (ps, r'') = rejectRun ys r' in (os @ ps, r''))"
proof (induction xs arbitrary: r)
  case Nil
  then show ?case by (simp add: split_beta)
next
  case (Cons x xs)
  then show ?case by (simp add: split_beta Let_def)
qed

lemma rejectRun_counter:
  assumes "rj_Method r = ''default''" and "\<not> rj_NoDrop r" and "sorted (ts @ [t])"
  shows "rj_dropCounter (snd (rejectRun (ts @ [t]) r)) =
           filter (\<lambda>u. t - u \<le> rejectWindow) (rj_dropCounter r @ ts) @ [t]
       \<and> rj_Method (snd (rejectRun (ts @ [t]) r)) = ''default''
       \<and> \<not> rj_NoDrop (snd (rejectRun (ts @ [t]) r))"
  using assms
proof (induction ts arbitrary: t rule: rev_induct)
  case Nil
  then show ?case by (simp add: Error_default_limited split_beta)
next
  case (snoc x xs)
  then have "sorted (xs @ [x])" and "x \<le> t" by (simp_all add: sorted_append)
  note IH = snoc.IH [OF snoc.prems(1,2) \<open>sorted (xs @ [x])\<close>]
  let ?r = "snd (rejectRun (xs @ [x]) r)"
  have run: "snd (rejectRun ((xs @ [x]) @ [t]) r) = snd (RuleActionReject_Error t ?r)"
    unfolding rejectRun_append [of "xs @ [x]" "[t]"] by (simp add: split_beta Let_def)
  have m: "rj_Method ?r = ''default''" and n: "\<not> rj_NoDrop ?r" using IH by auto
  have "0 \<le> rejectWindow" by (simp add: rejectWindow_def)
  then show ?case
    unfolding run Error_default_limited [OF m n]
    using IH \<open>x \<le> t\<close> by (simp add: filter_window_filter del: rejectRun.simps filter_filter)
qed

lemma rejectRun_last:
  assumes "rj_Method r = ''default''" and "\<not> rj_NoDrop r" and "sorted (ts @ [t])"
  shows "last (fst (rejectRun (ts @ [t]) r)) =
           RejectedError (if length (filter (\<lambda>u. t - u \<le> rejectWindow) (rj_dropCounter r @ ts)) \<ge> 50
                          then ErrDrop else ErrReset)"
proof -
  let ?r = "snd (rejectRun ts r)"
  have last: "last (fst (rejectRun (ts @ [t]) r)) = fst (RuleActionReject_Error t ?r)"
    by (simp add: rejectRun_append split_beta Let_def)
  show ?thesis
  proof (cases ts rule: rev_cases)
    case Nil
    then show ?thesis using last assms by (simp add: Error_default_limited)
  next
    case (snoc xs x)
    then have so: "sorted (xs @ [x])" and "x \<le> t" using assms(3) by (simp_all add: sorted_append)
    note C = rejectRun_counter [OF assms(1,2) so]
    have m: "rj_Method ?r = ''default''" and n: "\<not> rj_NoDrop ?r"
      and c: "rj_dropCounter ?r = filter (\<lambda>u. x - u \<le> rejectWindow) (rj_dropCounter r @ xs) @ [x]"
      using C snoc by auto
    have "filter (\<lambda>u. t - u \<le> rejectWindow) (rj_dropCounter ?r) =
          filter (\<lambda>u. t - u \<le> rejectWindow) (rj_dropCounter r @ ts)"
      unfolding c using \<open>x \<le> t\<close> snoc filter_window_filter [of x t rejectWindow "rj_dropCounter r @ xs"]
      by (simp del: filter_filter)
    then show ?thesis
      unfolding last Error_default_limited(1) [OF m n] by simp
  qed
qed

section \<open>Properties\<close>

text \<open>
  C11: the flood limiter of a reject action without \<open>no_drop\<close> is a sliding window: at the end of any
  run of rejections at non-decreasing times, the last one is dropped silently exactly when at least
  50 earlier rejections lie within the 30 seconds before it, and is a reset otherwise.
\<close>

theorem reject_limiter_is_sliding_window:
  assumes "rj_Method r = ''default''" and "\<not> rj_NoDrop r" and "rj_dropCounter r = []" and "sorted (ts @ [t])"
  shows "last (fst (rejectRun (ts @ [t]) r)) =
           RejectedError (if length (filter (\<lambda>u. t - u \<le> rejectWindow) ts) \<ge> 50 then ErrDrop else ErrReset)"
  using rejectRun_last [OF assms(1,2,4)] assms(3) by simp

theorem reject_limiter_is_sliding_window_witness:
  "last (fst (rejectRun (replicate 50 0 @ [1]) \<lparr>rj_Method = ''default'', rj_NoDrop = False, rj_dropCounter = []\<rparr>)) =
     RejectedError ErrDrop"
proof -
  let ?r = "\<lparr>rj_Method = ''default'', rj_NoDrop = False, rj_dropCounter = []\<rparr>"
  have h: "rj_Method ?r = ''default''" "\<not> rj_NoDrop ?r" "rj_dropCounter ?r = []" "sorted (replicate 50 (0::int) @ [1])"
    by (simp_all add: sorted_append)
  have "length (filter (\<lambda>u::int. 1 - u \<le> rejectWindow) (replicate 50 0)) \<ge> 50"
    by (simp add: rejectWindow_def filter_replicate)
  then show ?thesis
    unfolding reject_limiter_is_sliding_window [OF h] by simp
qed

text \<open>
  A \<open>route\<close> action never carries the \<open>udp_timeout\<close> of its options, while a \<open>route-options\<close>
  action with the same options does.
\<close>

theorem route_action_drops_udp_timeout:
  "(case NewRuleAction dialerNew descriptions lib
           (options\<lparr>ao_Action := ''route'', ao_RouteOptions := \<lparr>ra_Outbound = outbound, ra_Options = o'\<rparr>\<rparr>) of
      Inr (Some (ActionRoute _ ro)) \<Rightarrow> ro_UDPTimeout ro = 0 | _ \<Rightarrow> False) \<and>
   (case NewRuleAction dialerNew descriptions lib
           (options\<lparr>ao_Action := ''route-options'', ao_RouteOptionsOptions := o'\<rparr>) of
      Inr (Some (ActionRouteOptions ro)) \<Rightarrow> ro_UDPTimeout ro = oo_UDPTimeout o' | _ \<Rightarrow> False)"
  by (simp add: NewRuleAction_def routeBranchOptions_def routeOptionsBranchOptions_def)

end
