(* ===== verification/Rule_Eval.thy ===== *)
theory Rule_Eval
  imports Match_State Rule_Items Actions
begin

text \<open>
  \<open>route/rule/rule_abstract.go\<close>, \<open>rule_item_rule_set.go\<close>, the match methods of \<open>rule_set_local.go\<close>
  and \<open>rule_set_remote.go\<close> and of the rule types of \<open>rule_default.go\<close>, \<open>rule_headless.go\<close> and
  \<open>rule_dns.go\<close>: how a rule is evaluated on an \<open>InboundContext\<close>.

  The context is a mutable object: an evaluation returns the set of match states together with the
  updated context. Rule-sets are shared mutable objects too: a rule-set item holds pointers
  (\<open>nat\<close>) into a store of rule-sets. The rules inside a rule-set are headless rules, which have no
  rule-set item of their own; the type of the rule-set item is a parameter \<open>'rs\<close> of the rule types,
  and headless rules use \<open>unit\<close>.
\<close>

unbundle bit_operations_syntax

section \<open>Rules\<close>

text \<open>
  An entry of \<open>allItems\<close> is the same pointer as an entry of one of the groups (or the rule-set
  item); it is modelled as that position.
\<close>

datatype ItemRef =
    InItems nat | InSourceAddress nat | InSourcePort nat | InDestinationAddress nat
  | InDestinationIPCIDR nat | InDestinationPort nat | InRuleSet

record 'rs abstractDefaultRule =
  r_items :: "RuleItem list"
  r_sourceAddressItems :: "RuleItem list"
  r_sourcePortItems :: "RuleItem list"
  r_destinationAddressItems :: "RuleItem list"
  r_destinationIPCIDRItems :: "RuleItem list"
  r_destinationPortItems :: "RuleItem list"
  r_allItems :: "ItemRef list"
  r_ruleSetItem :: "'rs option"
  r_invert :: bool
  r_action :: "RuleAction option"

datatype 'rs HeadlessRule =
    DefaultRule "'rs abstractDefaultRule"
  | LogicalRule "'rs HeadlessRule list" string bool "RuleAction option"

record RuleSetItem =
  rsi_tagList :: "string list"
  rsi_setList :: "nat list"
  rsi_ipCidrMatchSource :: bool
  rsi_ipCidrAcceptEmpty :: bool

record RuleSetMetadata =
  rm_ContainsProcessRule :: bool
  rm_ContainsWIFIRule :: bool
  rm_ContainsIPCIDRRule :: bool

text \<open>
  What local and remote rule-sets share: the rules, the metadata, the registered update callbacks
  (the elements of the callback list, by number) and the reference count.
\<close>

record RuleSetObj =
  ls_tag :: string
  ls_rules :: "unit HeadlessRule list"
  ls_metadata :: RuleSetMetadata
  ls_fileFormat :: string
  ls_callbacks :: "nat list"
  ls_refs :: u32

type_synonym RuleSetStore = "nat \<rightharpoonup> RuleSetObj"

section \<open>Evaluation of a default rule\<close>

definition matchAnyItem :: "Lib \<Rightarrow> Net \<Rightarrow> RuleItem list \<Rightarrow> InboundContext \<Rightarrow> bool" where
  "matchAnyItem lib net items metadata = list_ex (\<lambda>it. RuleItem_Match lib net it metadata) items"

definition destinationIPCIDRMatchesSource :: "'rs abstractDefaultRule \<Rightarrow> InboundContext \<Rightarrow> bool" where
  "destinationIPCIDRMatchesSource r metadata =
     (\<not> md_IgnoreDestinationIPCIDRMatch metadata \<and> md_IPCIDRMatchSource metadata \<and>
      length (r_destinationIPCIDRItems r) > 0)"

definition destinationIPCIDRMatchesDestination :: "'rs abstractDefaultRule \<Rightarrow> InboundContext \<Rightarrow> bool" where
  "destinationIPCIDRMatchesDestination r metadata =
     (\<not> md_IgnoreDestinationIPCIDRMatch metadata \<and> \<not> md_IPCIDRMatchSource metadata \<and>
      length (r_destinationIPCIDRItems r) > 0)"

definition requiresSourceAddressMatch :: "'rs abstractDefaultRule \<Rightarrow> InboundContext \<Rightarrow> bool" where
  "requiresSourceAddressMatch r metadata =
     (length (r_sourceAddressItems r) > 0 \<or> destinationIPCIDRMatchesSource r metadata)"

definition requiresDestinationAddressMatch :: "'rs abstractDefaultRule \<Rightarrow> InboundContext \<Rightarrow> bool" where
  "requiresDestinationAddressMatch r metadata =
     (length (r_destinationAddressItems r) > 0 \<or> destinationIPCIDRMatchesDestination r metadata)"

definition setDidMatch :: "InboundContext \<Rightarrow> InboundContext" where
  "setDidMatch metadata = metadata\<lparr>md_DidMatch := True\<rparr>"

text \<open>\<open>if len(items) > 0 { metadata.DidMatch = true; if matchAnyItem(...) { baseState |= flag } }\<close>\<close>

definition matchGroup ::
  "Lib \<Rightarrow> Net \<Rightarrow> RuleItem list \<Rightarrow> ruleMatchState \<Rightarrow> InboundContext \<times> ruleMatchState \<Rightarrow>
   InboundContext \<times> ruleMatchState" where
  "matchGroup lib net items flag = (\<lambda>(metadata, baseState).
     if length items > 0
     then let metadata' = setDidMatch metadata
          in (metadata', if matchAnyItem lib net items metadata' then baseState OR flag else baseState)
     else (metadata, baseState))"

text \<open>The two steps for the destination address items, guarded by the state already reached.\<close>

definition matchIPCIDRGroup ::
  "Lib \<Rightarrow> Net \<Rightarrow> ('rs abstractDefaultRule \<Rightarrow> InboundContext \<Rightarrow> bool) \<Rightarrow> 'rs abstractDefaultRule \<Rightarrow>
   ruleMatchState \<Rightarrow> InboundContext \<times> ruleMatchState \<Rightarrow> InboundContext \<times> ruleMatchState" where
  "matchIPCIDRGroup lib net applies r flag = (\<lambda>(metadata, baseState).
     if applies r metadata \<and> \<not> state_has baseState flag
     then let metadata' = setDidMatch metadata
          in (metadata', if matchAnyItem lib net (r_destinationIPCIDRItems r) metadata'
                         then baseState OR flag else baseState)
     else if applies r metadata then (setDidMatch metadata, baseState)
     else (metadata, baseState))"

text \<open>\<open>for _, item := range r.items\<close>: false at the first item that does not match.\<close>

fun matchItems :: "Lib \<Rightarrow> Net \<Rightarrow> RuleItem list \<Rightarrow> InboundContext \<Rightarrow> bool \<times> InboundContext" where
  "matchItems lib net [] metadata = (True, metadata)"
| "matchItems lib net (item # items) metadata =
     (let metadata' = setDidMatch metadata
      in if \<not> RuleItem_Match lib net item metadata' then (False, metadata')
         else matchItems lib net items metadata')"

definition invertedFailure :: "'rs abstractDefaultRule \<Rightarrow> ruleMatchState \<Rightarrow> ruleMatchStateSet" where
  "invertedFailure r base =
     (if r_invert r then states_withBase emptyRuleMatchState base else 0)"

definition allowedState :: "'rs abstractDefaultRule \<Rightarrow> InboundContext \<Rightarrow> ruleMatchState \<Rightarrow> bool" where
  "allowedState r metadata state =
     (if requiresSourceAddressMatch r metadata \<and> \<not> state_has state ruleMatchSourceAddress then False
      else if length (r_sourcePortItems r) > 0 \<and> \<not> state_has state ruleMatchSourcePort then False
      else if requiresDestinationAddressMatch r metadata \<and> \<not> state_has state ruleMatchDestinationAddress
      then False
      else if length (r_destinationPortItems r) > 0 \<and> \<not> state_has state ruleMatchDestinationPort
      then False
      else True)"

text \<open>The state the condition groups reach, before the remaining items are looked at.\<close>

definition matchGroups ::
  "Lib \<Rightarrow> Net \<Rightarrow> 'rs abstractDefaultRule \<Rightarrow> InboundContext \<times> ruleMatchState \<Rightarrow>
   InboundContext \<times> ruleMatchState" where
  "matchGroups lib net r x =
     (let x1 = matchGroup lib net (r_sourceAddressItems r) ruleMatchSourceAddress x;
          x2 = matchIPCIDRGroup lib net destinationIPCIDRMatchesSource r ruleMatchSourceAddress x1;
          x3 = matchGroup lib net (r_sourcePortItems r) ruleMatchSourcePort x2;
          x4 = matchGroup lib net (r_destinationAddressItems r) ruleMatchDestinationAddress x3;
          x5 = matchIPCIDRGroup lib net destinationIPCIDRMatchesDestination r
                 ruleMatchDestinationAddress x4
      in matchGroup lib net (r_destinationPortItems r) ruleMatchDestinationPort x5)"

type_synonym 'rs RuleSetMatcher =
  "'rs \<Rightarrow> InboundContext \<Rightarrow> ruleMatchState \<Rightarrow> ruleMatchStateSet"

definition abstractDefaultRule_matchStatesWithBase ::
  "Lib \<Rightarrow> Net \<Rightarrow> 'rs RuleSetMatcher \<Rightarrow> 'rs abstractDefaultRule \<Rightarrow> InboundContext \<Rightarrow> ruleMatchState \<Rightarrow>
   ruleMatchStateSet \<times> InboundContext" where
  "abstractDefaultRule_matchStatesWithBase lib net matchRuleItem r metadata inheritedBase =
     (if length (r_allItems r) = 0
      then (states_withBase emptyRuleMatchState inheritedBase, metadata)
      else
        let evaluationBase = (if r_invert r then 0 else inheritedBase);
            (metadata1, baseState) = matchGroups lib net r (metadata, evaluationBase);
            (ok, metadata2) = matchItems lib net (r_items r) metadata1
        in if \<not> ok then (invertedFailure r inheritedBase, metadata2)
           else
             let (stateSet, metadata3) =
                   (case r_ruleSetItem r of
                      Some item \<Rightarrow>
                        (let m = setDidMatch metadata2 in (matchRuleItem item m baseState, m))
                    | None \<Rightarrow> (singleRuleMatchState baseState, metadata2));
                 stateSet = states_filter (allowedState r metadata3) stateSet
             in if states_isEmpty stateSet then (invertedFailure r inheritedBase, metadata3)
                else if r_invert r then
                  (if md_IgnoreDestinationIPCIDRMatch metadata3 \<and> stateSet = emptyRuleMatchState \<and>
                      \<not> md_DidMatch metadata3 \<and> length (r_destinationIPCIDRItems r) > 0
                   then (states_withBase emptyRuleMatchState inheritedBase, metadata3)
                   else (0, metadata3))
                else (stateSet, metadata3))"

section \<open>Evaluation of rule trees\<close>

text \<open>
  A logical rule evaluates its children on copies of the context with the rule cache reset. In
  \<open>and\<close> mode the loop ends at the first child that does not match (\<open>None\<close>).
\<close>

fun HeadlessRule_matchStatesWithBase ::
  "Lib \<Rightarrow> Net \<Rightarrow> 'rs RuleSetMatcher \<Rightarrow> 'rs HeadlessRule \<Rightarrow> InboundContext \<Rightarrow> ruleMatchState \<Rightarrow>
   ruleMatchStateSet \<times> InboundContext"
and logicalAnd ::
  "Lib \<Rightarrow> Net \<Rightarrow> 'rs RuleSetMatcher \<Rightarrow> 'rs HeadlessRule list \<Rightarrow> InboundContext \<Rightarrow> ruleMatchState \<Rightarrow>
   ruleMatchStateSet \<Rightarrow> ruleMatchStateSet option"
and logicalOr ::
  "Lib \<Rightarrow> Net \<Rightarrow> 'rs RuleSetMatcher \<Rightarrow> 'rs HeadlessRule list \<Rightarrow> InboundContext \<Rightarrow> ruleMatchState \<Rightarrow>
   ruleMatchStateSet \<Rightarrow> ruleMatchStateSet" where
  "HeadlessRule_matchStatesWithBase lib net rsM (DefaultRule r) metadata base =
     abstractDefaultRule_matchStatesWithBase lib net rsM r metadata base"
| "HeadlessRule_matchStatesWithBase lib net rsM (LogicalRule rules mode invert action) metadata base =
     (let evaluationBase = (if invert then 0 else base);
          failure = (if invert then states_withBase emptyRuleMatchState base else 0)
      in (if mode = ''and''
          then (case logicalAnd lib net rsM rules metadata evaluationBase
                       (states_withBase emptyRuleMatchState evaluationBase) of
                  None \<Rightarrow> failure
                | Some stateSet \<Rightarrow> if invert then 0 else stateSet)
          else (let stateSet = logicalOr lib net rsM rules metadata evaluationBase 0
                in if states_isEmpty stateSet then failure
                   else if invert then 0 else stateSet), metadata))"
| "logicalAnd lib net rsM [] metadata base stateSet = Some stateSet"
| "logicalAnd lib net rsM (rule # rules) metadata base stateSet =
     (let nestedStateSet =
        fst (HeadlessRule_matchStatesWithBase lib net rsM rule (ResetRuleCache metadata) base)
      in if states_isEmpty nestedStateSet then None
         else logicalAnd lib net rsM rules metadata base (states_combine stateSet nestedStateSet))"
| "logicalOr lib net rsM [] metadata base stateSet = stateSet"
| "logicalOr lib net rsM (rule # rules) metadata base stateSet =
     logicalOr lib net rsM rules metadata base
       (states_merge stateSet
          (fst (HeadlessRule_matchStatesWithBase lib net rsM rule (ResetRuleCache metadata) base)))"

section \<open>Rule-sets\<close>

text \<open>Rules inside a rule-set have no rule-set item, so their matcher for it is never called.\<close>

definition noRuleSet :: "unit RuleSetMatcher" where
  "noRuleSet _ _ _ = 0"

definition RuleSet_matchStatesWithBase ::
  "Lib \<Rightarrow> Net \<Rightarrow> RuleSetObj \<Rightarrow> InboundContext \<Rightarrow> ruleMatchState \<Rightarrow> ruleMatchStateSet" where
  "RuleSet_matchStatesWithBase lib net s metadata base =
     foldl (\<lambda>stateSet rule.
        states_merge stateSet
          (fst (HeadlessRule_matchStatesWithBase lib net noRuleSet rule
                  (ResetRuleMatchCache metadata) base))) 0 (ls_rules s)"

definition RuleSetItem_matchStatesWithBase ::
  "Lib \<Rightarrow> Net \<Rightarrow> RuleSetStore \<Rightarrow> RuleSetItem RuleSetMatcher" where
  "RuleSetItem_matchStatesWithBase lib net store r metadata base =
     foldl (\<lambda>stateSet p.
        case store p of
          None \<Rightarrow> stateSet
        | Some ruleSet \<Rightarrow>
            states_merge stateSet
              (RuleSet_matchStatesWithBase lib net ruleSet
                ((ResetRuleMatchCache metadata)\<lparr>md_IPCIDRMatchSource := rsi_ipCidrMatchSource r,
                                                md_IPCIDRAcceptEmpty := rsi_ipCidrAcceptEmpty r\<rparr>) base))
       0 (rsi_setList r)"

definition RuleSetItem_ContainsDestinationIPCIDRRule :: "RuleSetStore \<Rightarrow> RuleSetItem \<Rightarrow> bool" where
  "RuleSetItem_ContainsDestinationIPCIDRRule store r =
     (if rsi_ipCidrMatchSource r then False
      else list_ex (\<lambda>p. case store p of None \<Rightarrow> False
                        | Some s \<Rightarrow> rm_ContainsIPCIDRRule (ls_metadata s)) (rsi_setList r))"

section \<open>The rules of the router\<close>

type_synonym Rule = "RuleSetItem HeadlessRule"

definition Rule_matchStates ::
  "Lib \<Rightarrow> Net \<Rightarrow> RuleSetStore \<Rightarrow> Rule \<Rightarrow> InboundContext \<Rightarrow> ruleMatchStateSet \<times> InboundContext" where
  "Rule_matchStates lib net store rule metadata =
     HeadlessRule_matchStatesWithBase lib net (RuleSetItem_matchStatesWithBase lib net store) rule metadata 0"

definition Rule_Match ::
  "Lib \<Rightarrow> Net \<Rightarrow> RuleSetStore \<Rightarrow> Rule \<Rightarrow> InboundContext \<Rightarrow> bool \<times> InboundContext" where
  "Rule_Match lib net store rule metadata =
     (let (states, metadata') = Rule_matchStates lib net store rule metadata
      in (\<not> states_isEmpty states, metadata'))"

text \<open>
  A DNS rule is first matched with the destination address conditions ignored (the address is not
  known yet), and again with them (\<open>MatchAddressLimit\<close>) once the response is there.
\<close>

definition DNSRule_Match ::
  "Lib \<Rightarrow> Net \<Rightarrow> RuleSetStore \<Rightarrow> Rule \<Rightarrow> InboundContext \<Rightarrow> bool \<times> InboundContext" where
  "DNSRule_Match lib net store rule metadata =
     (let (states, metadata') =
        Rule_matchStates lib net store rule (metadata\<lparr>md_IgnoreDestinationIPCIDRMatch := True\<rparr>)
      in (\<not> states_isEmpty states, metadata'\<lparr>md_IgnoreDestinationIPCIDRMatch := False\<rparr>))"

definition DNSRule_MatchAddressLimit ::
  "Lib \<Rightarrow> Net \<Rightarrow> RuleSetStore \<Rightarrow> Rule \<Rightarrow> InboundContext \<Rightarrow> bool \<times> InboundContext" where
  "DNSRule_MatchAddressLimit lib net store rule metadata = Rule_Match lib net store rule metadata"

fun Rule_WithAddressLimit :: "RuleSetStore \<Rightarrow> Rule \<Rightarrow> bool" where
  "Rule_WithAddressLimit store (DefaultRule r) =
     (if length (r_destinationIPCIDRItems r) > 0 then True
      else (case r_ruleSetItem r of
              None \<Rightarrow> False
            | Some item \<Rightarrow> RuleSetItem_ContainsDestinationIPCIDRRule store item))"
| "Rule_WithAddressLimit store (LogicalRule rules mode invert action) =
     list_ex (Rule_WithAddressLimit store) rules"

fun Rule_getAction :: "'rs HeadlessRule \<Rightarrow> RuleAction option" where
  "Rule_getAction (DefaultRule r) = r_action r"
| "Rule_getAction (LogicalRule _ _ _ action) = action"

end
