(* ===== verification/Rule_Build.thy ===== *)
theory Rule_Build
  imports Rule_Eval
begin

text \<open>
  The construction of rules from options: \<open>option/rule.go\<close>, \<open>option/rule_set.go\<close>,
  \<open>option/rule_dns.go\<close> (the option structs and their \<open>IsValid\<close> methods) and \<open>NewRule\<close>,
  \<open>NewDefaultRule\<close>, \<open>NewLogicalRule\<close> of \<open>route/rule/rule_default.go\<close> with their headless and DNS
  counterparts of \<open>rule_headless.go\<close> and \<open>rule_dns.go\<close>. Each \<open>if\<close> of a constructor is one fallible
  step on the rule under construction; the steps run in the order of the source and stop at the
  first error. An option slice that is empty is a nil slice.
\<close>

section \<open>Steps of a constructor\<close>

type_synonym 'rs step = "'rs abstractDefaultRule \<Rightarrow> 'rs abstractDefaultRule result"

definition newAbstractRule :: "bool \<Rightarrow> RuleAction option \<Rightarrow> 'rs abstractDefaultRule" where
  "newAbstractRule invert action =
     \<lparr>r_items = [], r_sourceAddressItems = [], r_sourcePortItems = [], r_destinationAddressItems = [],
      r_destinationIPCIDRItems = [], r_destinationPortItems = [], r_allItems = [],
      r_ruleSetItem = None, r_invert = invert, r_action = action\<rparr>"

text \<open>\<open>rule.<group> = append(rule.<group>, item); rule.allItems = append(rule.allItems, item)\<close>\<close>

definition addItems :: "RuleItem \<Rightarrow> 'rs abstractDefaultRule \<Rightarrow> 'rs abstractDefaultRule" where
  "addItems item r = r\<lparr>r_items := r_items r @ [item], r_allItems := r_allItems r @ [InItems (length (r_items r))]\<rparr>"

definition addSourceAddress :: "RuleItem \<Rightarrow> 'rs abstractDefaultRule \<Rightarrow> 'rs abstractDefaultRule" where
  "addSourceAddress item r =
     r\<lparr>r_sourceAddressItems := r_sourceAddressItems r @ [item],
       r_allItems := r_allItems r @ [InSourceAddress (length (r_sourceAddressItems r))]\<rparr>"

definition addSourcePort :: "RuleItem \<Rightarrow> 'rs abstractDefaultRule \<Rightarrow> 'rs abstractDefaultRule" where
  "addSourcePort item r =
     r\<lparr>r_sourcePortItems := r_sourcePortItems r @ [item],
       r_allItems := r_allItems r @ [InSourcePort (length (r_sourcePortItems r))]\<rparr>"

definition addDestinationAddress :: "RuleItem \<Rightarrow> 'rs abstractDefaultRule \<Rightarrow> 'rs abstractDefaultRule" where
  "addDestinationAddress item r =
     r\<lparr>r_destinationAddressItems := r_destinationAddressItems r @ [item],
       r_allItems := r_allItems r @ [InDestinationAddress (length (r_destinationAddressItems r))]\<rparr>"

definition addDestinationIPCIDR :: "RuleItem \<Rightarrow> 'rs abstractDefaultRule \<Rightarrow> 'rs abstractDefaultRule" where
  "addDestinationIPCIDR item r =
     r\<lparr>r_destinationIPCIDRItems := r_destinationIPCIDRItems r @ [item],
       r_allItems := r_allItems r @ [InDestinationIPCIDR (length (r_destinationIPCIDRItems r))]\<rparr>"

definition addDestinationPort :: "RuleItem \<Rightarrow> 'rs abstractDefaultRule \<Rightarrow> 'rs abstractDefaultRule" where
  "addDestinationPort item r =
     r\<lparr>r_destinationPortItems := r_destinationPortItems r @ [item],
       r_allItems := r_allItems r @ [InDestinationPort (length (r_destinationPortItems r))]\<rparr>"

definition addRuleSet :: "'rs \<Rightarrow> 'rs abstractDefaultRule \<Rightarrow> 'rs abstractDefaultRule" where
  "addRuleSet item r = r\<lparr>r_ruleSetItem := Some item, r_allItems := r_allItems r @ [InRuleSet]\<rparr>"

text \<open>
  \<open>if cond { item := new(); add }\<close>, \<open>if cond { item, err := new(); if err != nil { return } add }\<close>
  and \<open>if cond { return nil, err }\<close>.
\<close>

definition on ::
  "bool \<Rightarrow> (RuleItem \<Rightarrow> 'rs abstractDefaultRule \<Rightarrow> 'rs abstractDefaultRule) \<Rightarrow> RuleItem \<Rightarrow> 'rs step" where
  "on cond add item r = (if cond then Inr (add item r) else Inr r)"

definition onE ::
  "bool \<Rightarrow> (RuleItem \<Rightarrow> 'rs abstractDefaultRule \<Rightarrow> 'rs abstractDefaultRule) \<Rightarrow> RuleItem result \<Rightarrow> 'rs step" where
  "onE cond add item r = (if cond then bindE item (\<lambda>it. Inr (add it r)) else Inr r)"

definition failIf :: "bool \<Rightarrow> string \<Rightarrow> 'rs step" where
  "failIf cond message r = (if cond then Inl (E_New [AStr message]) else Inr r)"

definition someNonEmpty :: "'a list option \<Rightarrow> bool" where
  "someNonEmpty m = (case m of None \<Rightarrow> False | Some entries \<Rightarrow> length entries > 0)"

definition entriesOf :: "'a list option \<Rightarrow> 'a list" where
  "entriesOf m = (case m of None \<Rightarrow> [] | Some entries \<Rightarrow> entries)"

section \<open>Options of the route rules\<close>

record RawDefaultRuleOptions =
  o_Inbound :: "string list"
  o_IPVersion :: int
  o_Network :: "string list"
  o_AuthUser :: "string list"
  o_Protocol :: "string list"
  o_Client :: "string list"
  o_Domain :: "string list"
  o_DomainSuffix :: "string list"
  o_DomainKeyword :: "string list"
  o_DomainRegex :: "string list"
  o_Geosite :: "string list"
  o_SourceGeoIP :: "string list"
  o_GeoIP :: "string list"
  o_SourceIPCIDR :: "string list"
  o_SourceIPIsPrivate :: bool
  o_IPCIDR :: "string list"
  o_IPIsPrivate :: bool
  o_SourcePort :: "u16 list"
  o_SourcePortRange :: "string list"
  o_Port :: "u16 list"
  o_PortRange :: "string list"
  o_ProcessName :: "string list"
  o_ProcessPath :: "string list"
  o_ProcessPathRegex :: "string list"
  o_PackageName :: "string list"
  o_User :: "string list"
  o_UserID :: "u32 list"
  o_ClashMode :: string
  o_NetworkType :: "InterfaceType list"
  o_NetworkIsExpensive :: bool
  o_NetworkIsConstrained :: bool
  o_WIFISSID :: "string list"
  o_WIFIBSSID :: "string list"
  o_InterfaceAddress :: "(string \<times> Prefix list) list option"
  o_NetworkInterfaceAddress :: "(InterfaceType \<times> Prefix list) list option"
  o_DefaultInterfaceAddress :: "Prefix list"
  o_PreferredBy :: "string list"
  o_RuleSet :: "string list"
  o_RuleSetIPCIDRMatchSource :: bool
  o_Invert :: bool
  o_Deprecated_RulesetIPCIDRMatchSource :: bool

text \<open>The zero value of the struct.\<close>

definition zeroRawDefaultRule :: RawDefaultRuleOptions where
  "zeroRawDefaultRule =
     \<lparr>o_Inbound = [], o_IPVersion = 0, o_Network = [], o_AuthUser = [], o_Protocol = [], o_Client = [],
      o_Domain = [], o_DomainSuffix = [], o_DomainKeyword = [], o_DomainRegex = [], o_Geosite = [],
      o_SourceGeoIP = [], o_GeoIP = [], o_SourceIPCIDR = [], o_SourceIPIsPrivate = False, o_IPCIDR = [],
      o_IPIsPrivate = False, o_SourcePort = [], o_SourcePortRange = [], o_Port = [], o_PortRange = [],
      o_ProcessName = [], o_ProcessPath = [], o_ProcessPathRegex = [], o_PackageName = [], o_User = [],
      o_UserID = [], o_ClashMode = '''', o_NetworkType = [], o_NetworkIsExpensive = False,
      o_NetworkIsConstrained = False, o_WIFISSID = [], o_WIFIBSSID = [], o_InterfaceAddress = None,
      o_NetworkInterfaceAddress = None, o_DefaultInterfaceAddress = [], o_PreferredBy = [], o_RuleSet = [],
      o_RuleSetIPCIDRMatchSource = False, o_Invert = False, o_Deprecated_RulesetIPCIDRMatchSource = False\<rparr>"

definition zeroRouteOptions :: RouteOptionsActionOptions where
  "zeroRouteOptions =
     \<lparr>oo_OverrideAddress = '''', oo_OverridePort = 0, oo_NetworkStrategy = None, oo_FallbackDelay = 0,
      oo_UDPDisableDomainUnmapping = False, oo_UDPConnect = False, oo_UDPTimeout = 0, oo_TLSFragment = False,
      oo_TLSFragmentFallbackDelay = 0, oo_TLSRecordFragment = False\<rparr>"

definition zeroRuleAction :: "'d \<Rightarrow> 'd RuleActionOptions" where
  "zeroRuleAction zeroDialer =
     \<lparr>ao_Action = '''', ao_RouteOptions = \<lparr>ra_Outbound = '''', ra_Options = zeroRouteOptions\<rparr>,
      ao_RouteOptionsOptions = zeroRouteOptions, ao_DirectOptions = zeroDialer,
      ao_BypassOptions = \<lparr>ra_Outbound = '''', ra_Options = zeroRouteOptions\<rparr>,
      ao_RejectMethod = '''', ao_RejectNoDrop = False, ao_SniffSniffer = [], ao_SniffTimeout = 0,
      ao_ResolveOptions = \<lparr>rs_Server = '''', rs_Strategy = DomainStrategyAsIS, rs_DisableCache = False,
                            rs_RewriteTTL = None, rs_ClientSubnet = Prefix AddrNone 0\<rparr>\<rparr>"

record 'd DefaultRuleOptions =
  dro_Raw :: RawDefaultRuleOptions
  dro_Action :: "'d RuleActionOptions"

definition DefaultRuleOptions_IsValid :: "'d \<Rightarrow> 'd DefaultRuleOptions \<Rightarrow> bool" where
  "DefaultRuleOptions_IsValid zeroDialer r =
     (\<not> (dro_Raw r = zeroRawDefaultRule\<lparr>o_Invert := o_Invert (dro_Raw r)\<rparr> \<and>
         dro_Action r = zeroRuleAction zeroDialer))"

section \<open>Rule options\<close>

text \<open>
  \<open>option.Rule\<close>, \<open>option.HeadlessRule\<close> and \<open>option.DNSRule\<close>: the type, the options of a default
  rule, and the mode, sub-rules, inversion and action of a logical rule.
\<close>

datatype ('o, 'a) RuleOptions =
  RuleOptions (ru_Type: string) (ru_Default: 'o) (ru_Mode: string) (ru_Rules: "('o, 'a) RuleOptions list")
    (ru_Invert: bool) (ru_Action: 'a)

text \<open>\<open>common.All\<close> with a predicate that may panic.\<close>

fun allE :: "('a \<Rightarrow> bool result) \<Rightarrow> 'a list \<Rightarrow> bool result" where
  "allE f [] = Inr True"
| "allE f (x # xs) = bindE (f x) (\<lambda>b. if b then allE f xs else Inr False)"

lemma allE_cong [fundef_cong]:
  "xs = ys \<Longrightarrow> (\<And>x. x \<in> set ys \<Longrightarrow> f x = g x) \<Longrightarrow> allE f xs = allE g ys"
proof (induction xs arbitrary: ys)
  case Nil
  then show ?case by simp
next
  case (Cons x xs)
  then have "allE f xs = allE g xs" and "f x = g x" by auto
  then show ?case using Cons.prems(1) by (cases "g x") (auto simp: Cons.prems(1) [symmetric])
qed

lemma mapE_from_cong [fundef_cong]:
  "xs = ys \<Longrightarrow> i = j \<Longrightarrow> (\<And>k x. x \<in> set ys \<Longrightarrow> f k x = g k x) \<Longrightarrow> mapE_from i f xs = mapE_from j g ys"
proof (induction xs arbitrary: ys i j)
  case Nil
  then show ?case by simp
next
  case (Cons x xs)
  then have "mapE_from (Suc i) f xs = mapE_from (Suc i) g xs" and "f i x = g i x" by auto
  then show ?case using Cons.prems(1,2) by (cases "g i x") auto
qed

text \<open>
  \<open>Rule.IsValid\<close>: the default types, the validity of default options and the panic message differ
  between the three kinds of rules.
\<close>

fun RuleOptions_IsValid ::
  "string list \<Rightarrow> string \<Rightarrow> ('o \<Rightarrow> bool) \<Rightarrow> ('o, 'a) RuleOptions \<Rightarrow> bool result" where
  "RuleOptions_IsValid defaultTypes message valid (RuleOptions type dflt mode rules invert action) =
     (if type \<in> set defaultTypes then Inr (valid dflt)
      else if type = ''logical''
      then (if rules = [] then Inr False else allE (RuleOptions_IsValid defaultTypes message valid) rules)
      else Inl (Panic [AStr message, AStr type]))"

text \<open>\<open>LogicalRule.IsValid\<close>\<close>

definition LogicalOptions_IsValid ::
  "string list \<Rightarrow> string \<Rightarrow> ('o \<Rightarrow> bool) \<Rightarrow> ('o, 'a) RuleOptions list \<Rightarrow> bool result" where
  "LogicalOptions_IsValid defaultTypes message valid rules =
     (if rules = [] then Inr False else allE (RuleOptions_IsValid defaultTypes message valid) rules)"

text \<open>The switch on the mode of a logical rule.\<close>

definition logicalMode :: "string \<Rightarrow> string result" where
  "logicalMode mode =
     (if mode = ''and'' then Inr ''and'' else if mode = ''or'' then Inr ''or''
      else Inl (E_New [AStr ''unknown logical mode: '', AStr mode]))"

section \<open>Route rules\<close>

definition NewRuleSetItem :: "string list \<Rightarrow> bool \<Rightarrow> bool \<Rightarrow> RuleSetItem" where
  "NewRuleSetItem tagList ipCIDRMatchSource ipCidrAcceptEmpty =
     \<lparr>rsi_tagList = tagList, rsi_setList = [], rsi_ipCidrMatchSource = ipCIDRMatchSource,
      rsi_ipCidrAcceptEmpty = ipCidrAcceptEmpty\<rparr>"

definition ipVersionStep :: "int \<Rightarrow> 'rs step" where
  "ipVersionStep v r =
     (if v > 0 then
        (if v = 4 \<or> v = 6 then Inr (addItems (NewIPVersionItem (v = 6)) r)
         else Inl (E_New [AStr ''invalid ip version: '', ANum v]))
      else Inr r)"

definition ruleSetStep :: "string list \<Rightarrow> bool \<Rightarrow> bool \<Rightarrow> bool \<Rightarrow> RuleSetItem step" where
  "ruleSetStep tags deprecatedMatchSource matchSource acceptEmpty r =
     (if length tags > 0 then
        (if deprecatedMatchSource
         then Inl (E_New [AStr ''rule_set_ipcidr_match_source is deprecated in sing-box 1.10.0 and removed in sing-box 1.11.0''])
         else Inr (addRuleSet (NewRuleSetItem tags matchSource acceptEmpty) r))
      else Inr r)"

definition geositeRemoved :: string where
  "geositeRemoved = ''geosite database is deprecated in sing-box 1.8.0 and removed in sing-box 1.12.0''"

definition geoipRemoved :: string where
  "geoipRemoved = ''geoip database is deprecated in sing-box 1.8.0 and removed in sing-box 1.12.0''"

text \<open>The connection fields and the domain fields (lines 71 to 123 of \<open>rule_default.go\<close>).\<close>

definition defaultConnectionSteps :: "Lib \<Rightarrow> RawDefaultRuleOptions \<Rightarrow> RuleSetItem step list" where
  "defaultConnectionSteps lib options =
     [on (length (o_Inbound options) > 0) addItems (NewInboundRule (o_Inbound options)),
      ipVersionStep (o_IPVersion options),
      on (length (o_Network options) > 0) addItems (NewNetworkItem (o_Network options)),
      on (length (o_AuthUser options) > 0) addItems (NewAuthUserItem (o_AuthUser options)),
      on (length (o_Protocol options) > 0) addItems (NewProtocolItem (o_Protocol options)),
      on (length (o_Client options) > 0) addItems (NewClientItem (o_Client options)),
      onE (length (o_Domain options) > 0 \<or> length (o_DomainSuffix options) > 0) addDestinationAddress
        (NewDomainItem lib (o_Domain options) (o_DomainSuffix options)),
      on (length (o_DomainKeyword options) > 0) addDestinationAddress
        (NewDomainKeywordItem (o_DomainKeyword options)),
      onE (length (o_DomainRegex options) > 0) addDestinationAddress
        (NewDomainRegexItem lib (o_DomainRegex options))]"

text \<open>The address and port fields (lines 124 to 189).\<close>

definition defaultAddressSteps :: "Lib \<Rightarrow> RawDefaultRuleOptions \<Rightarrow> RuleSetItem step list" where
  "defaultAddressSteps lib options =
     [failIf (length (o_Geosite options) > 0) geositeRemoved,
      failIf (length (o_SourceGeoIP options) > 0) geoipRemoved,
      failIf (length (o_GeoIP options) > 0) geoipRemoved,
      onE (length (o_SourceIPCIDR options) > 0) addSourceAddress
        (cause [AStr ''source_ip_cidr''] (NewIPCIDRItem lib True (o_SourceIPCIDR options))),
      on (o_SourceIPIsPrivate options) addSourceAddress (NewIPIsPrivateItem True),
      onE (length (o_IPCIDR options) > 0) addDestinationIPCIDR
        (cause [AStr ''ipcidr''] (NewIPCIDRItem lib False (o_IPCIDR options))),
      on (o_IPIsPrivate options) addDestinationIPCIDR (NewIPIsPrivateItem False),
      on (length (o_SourcePort options) > 0) addSourcePort (NewPortItem True (o_SourcePort options)),
      onE (length (o_SourcePortRange options) > 0) addSourcePort
        (cause [AStr ''source_port_range''] (NewPortRangeItem True (o_SourcePortRange options))),
      on (length (o_Port options) > 0) addDestinationPort (NewPortItem False (o_Port options)),
      onE (length (o_PortRange options) > 0) addDestinationPort
        (cause [AStr ''port_range''] (NewPortRangeItem False (o_PortRange options)))]"

text \<open>The process, network and preference fields and the rule-sets (lines 190 to 285).\<close>

definition defaultOtherSteps :: "Lib \<Rightarrow> RawDefaultRuleOptions \<Rightarrow> RuleSetItem step list" where
  "defaultOtherSteps lib options =
     [on (length (o_ProcessName options) > 0) addItems (NewProcessItem (o_ProcessName options)),
      on (length (o_ProcessPath options) > 0) addItems (NewProcessPathItem (o_ProcessPath options)),
      onE (length (o_ProcessPathRegex options) > 0) addItems
        (cause [AStr ''process_path_regex''] (NewProcessPathRegexItem lib (o_ProcessPathRegex options))),
      on (length (o_PackageName options) > 0) addItems (NewPackageNameItem (o_PackageName options)),
      on (length (o_User options) > 0) addItems (NewUserItem (o_User options)),
      on (length (o_UserID options) > 0) addItems (NewUserIDItem (o_UserID options)),
      on (o_ClashMode options \<noteq> '''') addItems (NewClashModeItem (o_ClashMode options)),
      on (length (o_NetworkType options) > 0) addItems (NewNetworkTypeItem (o_NetworkType options)),
      on (o_NetworkIsExpensive options) addItems NewNetworkIsExpensiveItem,
      on (o_NetworkIsConstrained options) addItems NewNetworkIsConstrainedItem,
      on (length (o_WIFISSID options) > 0) addItems (NewWIFISSIDItem (o_WIFISSID options)),
      on (length (o_WIFIBSSID options) > 0) addItems (NewWIFIBSSIDItem (o_WIFIBSSID options)),
      on (someNonEmpty (o_InterfaceAddress options)) addItems
        (NewInterfaceAddressItem (entriesOf (o_InterfaceAddress options))),
      on (someNonEmpty (o_NetworkInterfaceAddress options)) addItems
        (NewNetworkInterfaceAddressItem (entriesOf (o_NetworkInterfaceAddress options))),
      on (length (o_DefaultInterfaceAddress options) > 0) addItems
        (NewDefaultInterfaceAddressItem (o_DefaultInterfaceAddress options)),
      on (length (o_PreferredBy options) > 0) addItems (NewPreferredByItem (o_PreferredBy options)),
      ruleSetStep (o_RuleSet options) (o_Deprecated_RulesetIPCIDRMatchSource options)
        (o_RuleSetIPCIDRMatchSource options) False]"

text \<open>The dialer of the direct action: \<open>dialer.New\<close>, its descriptions and its zero options.\<close>

record 'd DialerLib =
  dl_New :: "'d \<Rightarrow> unit result"
  dl_Descriptions :: "'d \<Rightarrow> string list"
  dl_zero :: 'd

definition NewDefaultRule ::
  "'d DialerLib \<Rightarrow> Lib \<Rightarrow> 'd DefaultRuleOptions \<Rightarrow> RuleSetItem abstractDefaultRule result" where
  "NewDefaultRule dl lib options =
     bindE (cause [AStr ''action'']
              (NewRuleAction (dl_New dl) (dl_Descriptions dl) lib (dro_Action options)))
       (\<lambda>action.
          foldE (defaultConnectionSteps lib (dro_Raw options) @ defaultAddressSteps lib (dro_Raw options) @
                 defaultOtherSteps lib (dro_Raw options))
            (newAbstractRule (o_Invert (dro_Raw options)) action))"

type_synonym 'd Options = "('d DefaultRuleOptions, 'd RuleActionOptions) RuleOptions"

definition Rule_IsValid :: "'d \<Rightarrow> 'd Options \<Rightarrow> bool result" where
  "Rule_IsValid zeroDialer =
     RuleOptions_IsValid [''default''] ''unknown rule type: '' (DefaultRuleOptions_IsValid zeroDialer)"

definition LogicalRule_IsValid :: "'d \<Rightarrow> 'd Options list \<Rightarrow> bool result" where
  "LogicalRule_IsValid zeroDialer =
     LogicalOptions_IsValid [''default''] ''unknown rule type: '' (DefaultRuleOptions_IsValid zeroDialer)"

text \<open>The guard of \<open>NewRule\<close> on the outbound of a top-level route action.\<close>

definition missingOutbound :: "bool \<Rightarrow> 'd RuleActionOptions \<Rightarrow> bool" where
  "missingOutbound checkOutbound action =
     ((ao_Action action = '''' \<or> ao_Action action = ''route'') \<and>
      ra_Outbound (ao_RouteOptions action) = '''' \<and> checkOutbound)"

text \<open>\<open>NewRule\<close>, with the body of \<open>NewLogicalRule\<close> in its second branch.\<close>

fun NewRule :: "'d DialerLib \<Rightarrow> Lib \<Rightarrow> bool \<Rightarrow> 'd Options \<Rightarrow> Rule result" where
  "NewRule dl lib checkOutbound (RuleOptions type dflt mode rules invert action) =
     (if type = '''' \<or> type = ''default'' then
        (if \<not> DefaultRuleOptions_IsValid (dl_zero dl) dflt then Inl (E_New [AStr ''missing conditions''])
         else if missingOutbound checkOutbound (dro_Action dflt)
         then Inl (E_New [AStr ''missing outbound field''])
         else bindE (NewDefaultRule dl lib dflt) (\<lambda>r. Inr (DefaultRule r)))
      else if type = ''logical'' then
        bindE (LogicalRule_IsValid (dl_zero dl) rules) (\<lambda>valid.
          if \<not> valid then Inl (E_New [AStr ''missing conditions''])
          else if missingOutbound checkOutbound action then Inl (E_New [AStr ''missing outbound field''])
          else
            bindE (cause [AStr ''action''] (NewRuleAction (dl_New dl) (dl_Descriptions dl) lib action)) (\<lambda>act.
            bindE (logicalMode mode) (\<lambda>mode'.
            bindE (mapE_from 0 (\<lambda>i sub. cause [AStr ''sub rule['', ANum (int i), AStr '']''] (NewRule dl lib False sub)) rules)
              (\<lambda>subRules. Inr (LogicalRule subRules mode' invert act)))))
      else Inl (E_New [AStr ''unknown rule type: '', AStr type]))"

section \<open>Headless rules\<close>

record DefaultHeadlessRuleOptions =
  h_QueryType :: "u16 list"
  h_Network :: "string list"
  h_Domain :: "string list"
  h_DomainSuffix :: "string list"
  h_DomainKeyword :: "string list"
  h_DomainRegex :: "string list"
  h_SourceIPCIDR :: "string list"
  h_IPCIDR :: "string list"
  h_SourcePort :: "u16 list"
  h_SourcePortRange :: "string list"
  h_Port :: "u16 list"
  h_PortRange :: "string list"
  h_ProcessName :: "string list"
  h_ProcessPath :: "string list"
  h_ProcessPathRegex :: "string list"
  h_PackageName :: "string list"
  h_NetworkType :: "InterfaceType list"
  h_NetworkIsExpensive :: bool
  h_NetworkIsConstrained :: bool
  h_WIFISSID :: "string list"
  h_WIFIBSSID :: "string list"
  h_NetworkInterfaceAddress :: "(InterfaceType \<times> Prefix list) list option"
  h_DefaultInterfaceAddress :: "Prefix list"
  h_Invert :: bool
  h_DomainMatcher :: "Matcher option"
  h_SourceIPSet :: "IPSet option"
  h_IPSet :: "IPSet option"
  h_AdGuardDomain :: "string list"
  h_AdGuardDomainMatcher :: "Matcher option"

text \<open>\<open>!reflect.DeepEqual(r, defaultValue)\<close>, field by field: compiled matchers have no equality.\<close>

definition DefaultHeadlessRule_IsValid :: "DefaultHeadlessRuleOptions \<Rightarrow> bool" where
  "DefaultHeadlessRule_IsValid r =
     (\<not> (h_QueryType r = [] \<and> h_Network r = [] \<and> h_Domain r = [] \<and> h_DomainSuffix r = [] \<and>
         h_DomainKeyword r = [] \<and> h_DomainRegex r = [] \<and> h_SourceIPCIDR r = [] \<and> h_IPCIDR r = [] \<and>
         h_SourcePort r = [] \<and> h_SourcePortRange r = [] \<and> h_Port r = [] \<and> h_PortRange r = [] \<and>
         h_ProcessName r = [] \<and> h_ProcessPath r = [] \<and> h_ProcessPathRegex r = [] \<and>
         h_PackageName r = [] \<and> h_NetworkType r = [] \<and> \<not> h_NetworkIsExpensive r \<and>
         \<not> h_NetworkIsConstrained r \<and> h_WIFISSID r = [] \<and> h_WIFIBSSID r = [] \<and>
         h_NetworkInterfaceAddress r = None \<and> h_DefaultInterfaceAddress r = [] \<and>
         Option.is_none (h_DomainMatcher r) \<and> Option.is_none (h_SourceIPSet r) \<and>
         Option.is_none (h_IPSet r) \<and> h_AdGuardDomain r = [] \<and>
         Option.is_none (h_AdGuardDomainMatcher r)))"

text \<open>\<open>if cond { ... } else if raw != nil { add(newRaw(raw)) }\<close>\<close>

definition onElse ::
  "bool \<Rightarrow> (RuleItem \<Rightarrow> 'rs abstractDefaultRule \<Rightarrow> 'rs abstractDefaultRule) \<Rightarrow> RuleItem result \<Rightarrow>
   RuleItem option \<Rightarrow> 'rs step" where
  "onElse cond add item raw r =
     (if cond then bindE item (\<lambda>it. Inr (add it r))
      else case raw of Some it \<Rightarrow> Inr (add it r) | None \<Rightarrow> Inr r)"

definition headlessFrontSteps :: "Lib \<Rightarrow> DefaultHeadlessRuleOptions \<Rightarrow> unit step list" where
  "headlessFrontSteps lib options =
     [on (length (h_QueryType options) > 0) addItems (NewQueryTypeItem (h_QueryType options)),
      on (length (h_Network options) > 0) addItems (NewNetworkItem (h_Network options)),
      onElse (length (h_Domain options) > 0 \<or> length (h_DomainSuffix options) > 0) addDestinationAddress
        (NewDomainItem lib (h_Domain options) (h_DomainSuffix options))
        (map_option NewRawDomainItem (h_DomainMatcher options)),
      on (length (h_DomainKeyword options) > 0) addDestinationAddress
        (NewDomainKeywordItem (h_DomainKeyword options)),
      onE (length (h_DomainRegex options) > 0) addDestinationAddress
        (cause [AStr ''domain_regex''] (NewDomainRegexItem lib (h_DomainRegex options))),
      onElse (length (h_SourceIPCIDR options) > 0) addSourceAddress
        (cause [AStr ''source_ip_cidr''] (NewIPCIDRItem lib True (h_SourceIPCIDR options)))
        (map_option (NewRawIPCIDRItem True) (h_SourceIPSet options)),
      onElse (length (h_IPCIDR options) > 0) addDestinationIPCIDR
        (cause [AStr ''ipcidr''] (NewIPCIDRItem lib False (h_IPCIDR options)))
        (map_option (NewRawIPCIDRItem False) (h_IPSet options)),
      on (length (h_SourcePort options) > 0) addSourcePort (NewPortItem True (h_SourcePort options)),
      onE (length (h_SourcePortRange options) > 0) addSourcePort
        (cause [AStr ''source_port_range''] (NewPortRangeItem True (h_SourcePortRange options))),
      on (length (h_Port options) > 0) addDestinationPort (NewPortItem False (h_Port options)),
      onE (length (h_PortRange options) > 0) addDestinationPort
        (cause [AStr ''port_range''] (NewPortRangeItem False (h_PortRange options)))]"

definition headlessProcessSteps :: "Lib \<Rightarrow> DefaultHeadlessRuleOptions \<Rightarrow> unit step list" where
  "headlessProcessSteps lib options =
     [on (length (h_ProcessName options) > 0) addItems (NewProcessItem (h_ProcessName options)),
      on (length (h_ProcessPath options) > 0) addItems (NewProcessPathItem (h_ProcessPath options)),
      onE (length (h_ProcessPathRegex options) > 0) addItems
        (cause [AStr ''process_path_regex''] (NewProcessPathRegexItem lib (h_ProcessPathRegex options))),
      on (length (h_PackageName options) > 0) addItems (NewPackageNameItem (h_PackageName options))]"

text \<open>The fields that need a network manager; without one (rule-set tools) they are skipped.\<close>

definition headlessNetworkSteps :: "DefaultHeadlessRuleOptions \<Rightarrow> unit step list" where
  "headlessNetworkSteps options =
     [on (length (h_NetworkType options) > 0) addItems (NewNetworkTypeItem (h_NetworkType options)),
      on (h_NetworkIsExpensive options) addItems NewNetworkIsExpensiveItem,
      on (h_NetworkIsConstrained options) addItems NewNetworkIsConstrainedItem,
      on (length (h_WIFISSID options) > 0) addItems (NewWIFISSIDItem (h_WIFISSID options)),
      on (length (h_WIFIBSSID options) > 0) addItems (NewWIFIBSSIDItem (h_WIFIBSSID options)),
      on (someNonEmpty (h_NetworkInterfaceAddress options)) addItems
        (NewNetworkInterfaceAddressItem (entriesOf (h_NetworkInterfaceAddress options))),
      on (length (h_DefaultInterfaceAddress options) > 0) addItems
        (NewDefaultInterfaceAddressItem (h_DefaultInterfaceAddress options))]"

definition NewDefaultHeadlessRule ::
  "bool \<Rightarrow> Lib \<Rightarrow> DefaultHeadlessRuleOptions \<Rightarrow> unit abstractDefaultRule result" where
  "NewDefaultHeadlessRule networkManager lib options =
     foldE (headlessFrontSteps lib options @ headlessProcessSteps lib options @
            (if networkManager then headlessNetworkSteps options else []) @
            [onElse (length (h_AdGuardDomain options) > 0) addDestinationAddress
               (Inr (NewAdGuardDomainItem lib (h_AdGuardDomain options)))
               (map_option NewRawAdGuardDomainItem (h_AdGuardDomainMatcher options))])
       (newAbstractRule (h_Invert options) None)"

type_synonym HeadlessOptions = "(DefaultHeadlessRuleOptions, unit) RuleOptions"

definition HeadlessRule_IsValid :: "HeadlessOptions \<Rightarrow> bool result" where
  "HeadlessRule_IsValid =
     RuleOptions_IsValid [''default'', ''''] ''unknown rule type: '' DefaultHeadlessRule_IsValid"

definition LogicalHeadlessRule_IsValid :: "HeadlessOptions list \<Rightarrow> bool result" where
  "LogicalHeadlessRule_IsValid =
     LogicalOptions_IsValid [''default'', ''''] ''unknown rule type: '' DefaultHeadlessRule_IsValid"

text \<open>\<open>NewHeadlessRule\<close>, with the body of \<open>NewLogicalHeadlessRule\<close> in its second branch.\<close>

fun NewHeadlessRule :: "bool \<Rightarrow> Lib \<Rightarrow> HeadlessOptions \<Rightarrow> unit HeadlessRule result" where
  "NewHeadlessRule networkManager lib (RuleOptions type dflt mode rules invert _) =
     (if type = '''' \<or> type = ''default'' then
        (if \<not> DefaultHeadlessRule_IsValid dflt then Inl (E_New [AStr ''missing conditions''])
         else bindE (NewDefaultHeadlessRule networkManager lib dflt) (\<lambda>r. Inr (DefaultRule r)))
      else if type = ''logical'' then
        bindE (LogicalHeadlessRule_IsValid rules) (\<lambda>valid.
          if \<not> valid then Inl (E_New [AStr ''missing conditions''])
          else
            bindE (logicalMode mode) (\<lambda>mode'.
            bindE (mapE_from 0 (\<lambda>i sub. cause [AStr ''sub rule['', ANum (int i), AStr '']'']
                                    (NewHeadlessRule networkManager lib sub)) rules)
              (\<lambda>subRules. Inr (LogicalRule subRules mode' invert None))))
      else Inl (E_New [AStr ''unknown rule type: '', AStr type]))"

section \<open>DNS rules\<close>

record RawDefaultDNSRuleOptions =
  n_Inbound :: "string list"
  n_IPVersion :: int
  n_QueryType :: "u16 list"
  n_Network :: "string list"
  n_AuthUser :: "string list"
  n_Protocol :: "string list"
  n_Domain :: "string list"
  n_DomainSuffix :: "string list"
  n_DomainKeyword :: "string list"
  n_DomainRegex :: "string list"
  n_Geosite :: "string list"
  n_SourceGeoIP :: "string list"
  n_GeoIP :: "string list"
  n_IPCIDR :: "string list"
  n_IPIsPrivate :: bool
  n_IPAcceptAny :: bool
  n_SourceIPCIDR :: "string list"
  n_SourceIPIsPrivate :: bool
  n_SourcePort :: "u16 list"
  n_SourcePortRange :: "string list"
  n_Port :: "u16 list"
  n_PortRange :: "string list"
  n_ProcessName :: "string list"
  n_ProcessPath :: "string list"
  n_ProcessPathRegex :: "string list"
  n_PackageName :: "string list"
  n_User :: "string list"
  n_UserID :: "u32 list"
  n_Outbound :: "string list"
  n_ClashMode :: string
  n_NetworkType :: "InterfaceType list"
  n_NetworkIsExpensive :: bool
  n_NetworkIsConstrained :: bool
  n_WIFISSID :: "string list"
  n_WIFIBSSID :: "string list"
  n_InterfaceAddress :: "(string \<times> Prefix list) list option"
  n_NetworkInterfaceAddress :: "(InterfaceType \<times> Prefix list) list option"
  n_DefaultInterfaceAddress :: "Prefix list"
  n_RuleSet :: "string list"
  n_RuleSetIPCIDRMatchSource :: bool
  n_RuleSetIPCIDRAcceptEmpty :: bool
  n_Invert :: bool
  n_Deprecated_RulesetIPCIDRMatchSource :: bool

definition zeroRawDefaultDNSRule :: RawDefaultDNSRuleOptions where
  "zeroRawDefaultDNSRule =
     \<lparr>n_Inbound = [], n_IPVersion = 0, n_QueryType = [], n_Network = [], n_AuthUser = [], n_Protocol = [],
      n_Domain = [], n_DomainSuffix = [], n_DomainKeyword = [], n_DomainRegex = [], n_Geosite = [],
      n_SourceGeoIP = [], n_GeoIP = [], n_IPCIDR = [], n_IPIsPrivate = False, n_IPAcceptAny = False,
      n_SourceIPCIDR = [], n_SourceIPIsPrivate = False, n_SourcePort = [], n_SourcePortRange = [],
      n_Port = [], n_PortRange = [], n_ProcessName = [], n_ProcessPath = [], n_ProcessPathRegex = [],
      n_PackageName = [], n_User = [], n_UserID = [], n_Outbound = [], n_ClashMode = '''',
      n_NetworkType = [], n_NetworkIsExpensive = False, n_NetworkIsConstrained = False, n_WIFISSID = [],
      n_WIFIBSSID = [], n_InterfaceAddress = None, n_NetworkInterfaceAddress = None,
      n_DefaultInterfaceAddress = [], n_RuleSet = [], n_RuleSetIPCIDRMatchSource = False,
      n_RuleSetIPCIDRAcceptEmpty = False, n_Invert = False,
      n_Deprecated_RulesetIPCIDRMatchSource = False\<rparr>"

definition zeroDNSRouteOptions :: RuleActionDNSRouteOptions where
  "zeroDNSRouteOptions =
     \<lparr>dr_Strategy = DomainStrategyAsIS, dr_DisableCache = False, dr_RewriteTTL = None,
      dr_ClientSubnet = Prefix AddrNone 0\<rparr>"

definition zeroDNSRuleAction :: DNSRuleActionOptions where
  "zeroDNSRuleAction =
     \<lparr>da_Action = '''', da_Server = '''', da_RouteOptions = zeroDNSRouteOptions,
      da_RouteOptionsOptions = zeroDNSRouteOptions, da_RejectMethod = '''', da_RejectNoDrop = False,
      da_Rcode = None, da_Answer = [], da_Ns = [], da_Extra = []\<rparr>"

record DefaultDNSRuleOptions =
  ddo_Raw :: RawDefaultDNSRuleOptions
  ddo_Action :: DNSRuleActionOptions

definition DefaultDNSRule_IsValid :: "DefaultDNSRuleOptions \<Rightarrow> bool" where
  "DefaultDNSRule_IsValid r =
     (\<not> (ddo_Raw r = zeroRawDefaultDNSRule\<lparr>n_Invert := n_Invert (ddo_Raw r)\<rparr> \<and>
         ddo_Action r = zeroDNSRuleAction))"

definition dnsConnectionSteps :: "Lib \<Rightarrow> RawDefaultDNSRuleOptions \<Rightarrow> RuleSetItem step list" where
  "dnsConnectionSteps lib options =
     [on (length (n_Inbound options) > 0) addItems (NewInboundRule (n_Inbound options)),
      ipVersionStep (n_IPVersion options),
      on (length (n_QueryType options) > 0) addItems (NewQueryTypeItem (n_QueryType options)),
      on (length (n_Network options) > 0) addItems (NewNetworkItem (n_Network options)),
      on (length (n_AuthUser options) > 0) addItems (NewAuthUserItem (n_AuthUser options)),
      on (length (n_Protocol options) > 0) addItems (NewProtocolItem (n_Protocol options)),
      onE (length (n_Domain options) > 0 \<or> length (n_DomainSuffix options) > 0) addDestinationAddress
        (NewDomainItem lib (n_Domain options) (n_DomainSuffix options)),
      on (length (n_DomainKeyword options) > 0) addDestinationAddress
        (NewDomainKeywordItem (n_DomainKeyword options)),
      onE (length (n_DomainRegex options) > 0) addDestinationAddress
        (cause [AStr ''domain_regex''] (NewDomainRegexItem lib (n_DomainRegex options)))]"

definition dnsAddressSteps :: "Lib \<Rightarrow> RawDefaultDNSRuleOptions \<Rightarrow> RuleSetItem step list" where
  "dnsAddressSteps lib options =
     [failIf (length (n_Geosite options) > 0) geositeRemoved,
      failIf (length (n_SourceGeoIP options) > 0) geoipRemoved,
      failIf (length (n_GeoIP options) > 0) geoipRemoved,
      onE (length (n_SourceIPCIDR options) > 0) addSourceAddress
        (cause [AStr ''source_ip_cidr''] (NewIPCIDRItem lib True (n_SourceIPCIDR options))),
      onE (length (n_IPCIDR options) > 0) addDestinationIPCIDR
        (cause [AStr ''ip_cidr''] (NewIPCIDRItem lib False (n_IPCIDR options))),
      on (n_SourceIPIsPrivate options) addSourceAddress (NewIPIsPrivateItem True),
      on (n_IPIsPrivate options) addDestinationIPCIDR (NewIPIsPrivateItem False),
      on (n_IPAcceptAny options) addDestinationIPCIDR NewIPAcceptAnyItem,
      on (length (n_SourcePort options) > 0) addSourcePort (NewPortItem True (n_SourcePort options)),
      onE (length (n_SourcePortRange options) > 0) addSourcePort
        (cause [AStr ''source_port_range''] (NewPortRangeItem True (n_SourcePortRange options))),
      on (length (n_Port options) > 0) addDestinationPort (NewPortItem False (n_Port options)),
      onE (length (n_PortRange options) > 0) addDestinationPort
        (cause [AStr ''port_range''] (NewPortRangeItem False (n_PortRange options)))]"

definition dnsOtherSteps :: "Lib \<Rightarrow> RawDefaultDNSRuleOptions \<Rightarrow> RuleSetItem step list" where
  "dnsOtherSteps lib options =
     [on (length (n_ProcessName options) > 0) addItems (NewProcessItem (n_ProcessName options)),
      on (length (n_ProcessPath options) > 0) addItems (NewProcessPathItem (n_ProcessPath options)),
      onE (length (n_ProcessPathRegex options) > 0) addItems
        (cause [AStr ''process_path_regex''] (NewProcessPathRegexItem lib (n_ProcessPathRegex options))),
      on (length (n_PackageName options) > 0) addItems (NewPackageNameItem (n_PackageName options)),
      on (length (n_User options) > 0) addItems (NewUserItem (n_User options)),
      on (length (n_UserID options) > 0) addItems (NewUserIDItem (n_UserID options)),
      on (length (n_Outbound options) > 0) addItems (NewOutboundRule (n_Outbound options)),
      on (n_ClashMode options \<noteq> '''') addItems (NewClashModeItem (n_ClashMode options)),
      on (length (n_NetworkType options) > 0) addItems (NewNetworkTypeItem (n_NetworkType options)),
      on (n_NetworkIsExpensive options) addItems NewNetworkIsExpensiveItem,
      on (n_NetworkIsConstrained options) addItems NewNetworkIsConstrainedItem,
      on (length (n_WIFISSID options) > 0) addItems (NewWIFISSIDItem (n_WIFISSID options)),
      on (length (n_WIFIBSSID options) > 0) addItems (NewWIFIBSSIDItem (n_WIFIBSSID options)),
      on (someNonEmpty (n_InterfaceAddress options)) addItems
        (NewInterfaceAddressItem (entriesOf (n_InterfaceAddress options))),
      on (someNonEmpty (n_NetworkInterfaceAddress options)) addItems
        (NewNetworkInterfaceAddressItem (entriesOf (n_NetworkInterfaceAddress options))),
      on (length (n_DefaultInterfaceAddress options) > 0) addItems
        (NewDefaultInterfaceAddressItem (n_DefaultInterfaceAddress options)),
      ruleSetStep (n_RuleSet options) (n_Deprecated_RulesetIPCIDRMatchSource options)
        (n_RuleSetIPCIDRMatchSource options) (n_RuleSetIPCIDRAcceptEmpty options)]"

definition NewDefaultDNSRule :: "Lib \<Rightarrow> DefaultDNSRuleOptions \<Rightarrow> RuleSetItem abstractDefaultRule result" where
  "NewDefaultDNSRule lib options =
     bindE (NewDNSRuleAction (ddo_Action options)) (\<lambda>action.
       foldE (dnsConnectionSteps lib (ddo_Raw options) @ dnsAddressSteps lib (ddo_Raw options) @
              dnsOtherSteps lib (ddo_Raw options))
         (newAbstractRule (n_Invert (ddo_Raw options)) action))"

type_synonym DNSOptions = "(DefaultDNSRuleOptions, DNSRuleActionOptions) RuleOptions"

definition DNSRule_IsValid :: "DNSOptions \<Rightarrow> bool result" where
  "DNSRule_IsValid = RuleOptions_IsValid [''default''] ''unknown DNS rule type: '' DefaultDNSRule_IsValid"

definition LogicalDNSRule_IsValid :: "DNSOptions list \<Rightarrow> bool result" where
  "LogicalDNSRule_IsValid =
     LogicalOptions_IsValid [''default''] ''unknown DNS rule type: '' DefaultDNSRule_IsValid"

definition missingServer :: "bool \<Rightarrow> DNSRuleActionOptions \<Rightarrow> bool" where
  "missingServer checkServer action =
     ((da_Action action = '''' \<or> da_Action action = ''route'') \<and> da_Server action = '''' \<and> checkServer)"

text \<open>\<open>NewDNSRule\<close>, with the body of \<open>NewLogicalDNSRule\<close> in its second branch.\<close>

fun NewDNSRule :: "Lib \<Rightarrow> bool \<Rightarrow> DNSOptions \<Rightarrow> Rule result" where
  "NewDNSRule lib checkServer (RuleOptions type dflt mode rules invert action) =
     (if type = '''' \<or> type = ''default'' then
        (if \<not> DefaultDNSRule_IsValid dflt then Inl (E_New [AStr ''missing conditions''])
         else if missingServer checkServer (ddo_Action dflt)
         then Inl (E_New [AStr ''missing server field''])
         else bindE (NewDefaultDNSRule lib dflt) (\<lambda>r. Inr (DefaultRule r)))
      else if type = ''logical'' then
        bindE (LogicalDNSRule_IsValid rules) (\<lambda>valid.
          if \<not> valid then Inl (E_New [AStr ''missing conditions''])
          else if missingServer checkServer action then Inl (E_New [AStr ''missing server field''])
          else
            bindE (NewDNSRuleAction action) (\<lambda>act.
            bindE (logicalMode mode) (\<lambda>mode'.
            bindE (mapE_from 0 (\<lambda>i sub. cause [AStr ''sub rule['', ANum (int i), AStr '']''] (NewDNSRule lib False sub)) rules)
              (\<lambda>subRules. Inr (LogicalRule subRules mode' invert act)))))
      else Inl (E_New [AStr ''unknown rule type: '', AStr type]))"

section \<open>Start\<close>

text \<open>
  What \<open>Start\<close> of the items looks up: the rule-set of a tag (a pointer into the store), the
  outbound of a tag with its type and its preferred routes, if it has any, and whether a Clash
  server is registered.
\<close>

record StartEnv =
  se_RuleSet :: "string \<Rightarrow> nat option"
  se_Outbound :: "string \<Rightarrow> (string \<times> PreferredRoutes option) option"
  se_ClashServer :: bool

definition IncRef :: "nat \<Rightarrow> RuleSetStore \<Rightarrow> RuleSetStore" where
  "IncRef p store = (case store p of None \<Rightarrow> store | Some s \<Rightarrow> store(p \<mapsto> s\<lparr>ls_refs := ls_refs s + 1\<rparr>))"

text \<open>The loop of \<open>RuleSetItem.Start\<close>; what was appended and counted before an error stays.\<close>

fun RuleSetItem_startLoop ::
  "StartEnv \<Rightarrow> string list \<Rightarrow> RuleSetItem \<Rightarrow> RuleSetStore \<Rightarrow> Error option \<times> RuleSetItem \<times> RuleSetStore" where
  "RuleSetItem_startLoop env [] item store = (None, item, store)"
| "RuleSetItem_startLoop env (tag # tags) item store =
     (case se_RuleSet env tag of
        None \<Rightarrow> (Some (E_New [AStr ''rule-set not found: '', AStr tag]), item, store)
      | Some p \<Rightarrow>
          RuleSetItem_startLoop env tags (item\<lparr>rsi_setList := rsi_setList item @ [p]\<rparr>) (IncRef p store))"

definition RuleSetItem_Start ::
  "StartEnv \<Rightarrow> RuleSetItem \<Rightarrow> RuleSetStore \<Rightarrow> Error option \<times> RuleSetItem \<times> RuleSetStore" where
  "RuleSetItem_Start env item store = RuleSetItem_startLoop env (rsi_tagList item) item store"

fun PreferredByItem_startLoop ::
  "StartEnv \<Rightarrow> string list \<Rightarrow> PreferredRoutes list \<Rightarrow> Error option \<times> PreferredRoutes list" where
  "PreferredByItem_startLoop env [] outbounds = (None, outbounds)"
| "PreferredByItem_startLoop env (tag # tags) outbounds =
     (case se_Outbound env tag of
        None \<Rightarrow> (Some (E_New [AStr ''outbound not found: '', AStr tag]), outbounds)
      | Some (type, None) \<Rightarrow>
          (Some (E_New [AStr ''outbound type does not support preferred routes: '', AStr type]), outbounds)
      | Some (_, Some routes) \<Rightarrow> PreferredByItem_startLoop env tags (outbounds @ [routes]))"

text \<open>\<open>Start\<close> of the two other items that have the method; the others are left as they are.\<close>

fun RuleItem_Start :: "StartEnv \<Rightarrow> RuleItem \<Rightarrow> Error option \<times> RuleItem" where
  "RuleItem_Start env (ClashModeItem _ mode) = (None, ClashModeItem (se_ClashServer env) mode)"
| "RuleItem_Start env (PreferredByItem tags outbounds) =
     (let (err, outbounds') = PreferredByItem_startLoop env tags outbounds
      in (err, PreferredByItem tags outbounds'))"
| "RuleItem_Start env item = (None, item)"

definition startAt :: "StartEnv \<Rightarrow> nat \<Rightarrow> RuleItem list \<Rightarrow> Error option \<times> RuleItem list" where
  "startAt env i xs =
     (if i < length xs then let (err, item) = RuleItem_Start env (xs ! i) in (err, xs[i := item])
      else (None, xs))"

text \<open>\<open>Start\<close> through an entry of \<open>allItems\<close> changes the item in the group that shares it.\<close>

fun startRef ::
  "StartEnv \<Rightarrow> ItemRef \<Rightarrow> RuleSetItem abstractDefaultRule \<Rightarrow> RuleSetStore \<Rightarrow>
   Error option \<times> RuleSetItem abstractDefaultRule \<times> RuleSetStore" where
  "startRef env (InItems i) r store =
     (let (err, xs) = startAt env i (r_items r) in (err, r\<lparr>r_items := xs\<rparr>, store))"
| "startRef env (InSourceAddress i) r store =
     (let (err, xs) = startAt env i (r_sourceAddressItems r) in (err, r\<lparr>r_sourceAddressItems := xs\<rparr>, store))"
| "startRef env (InSourcePort i) r store =
     (let (err, xs) = startAt env i (r_sourcePortItems r) in (err, r\<lparr>r_sourcePortItems := xs\<rparr>, store))"
| "startRef env (InDestinationAddress i) r store =
     (let (err, xs) = startAt env i (r_destinationAddressItems r) in (err, r\<lparr>r_destinationAddressItems := xs\<rparr>, store))"
| "startRef env (InDestinationIPCIDR i) r store =
     (let (err, xs) = startAt env i (r_destinationIPCIDRItems r) in (err, r\<lparr>r_destinationIPCIDRItems := xs\<rparr>, store))"
| "startRef env (InDestinationPort i) r store =
     (let (err, xs) = startAt env i (r_destinationPortItems r) in (err, r\<lparr>r_destinationPortItems := xs\<rparr>, store))"
| "startRef env InRuleSet r store =
     (case r_ruleSetItem r of
        None \<Rightarrow> (None, r, store)
      | Some item \<Rightarrow>
          (let (err, item', store') = RuleSetItem_Start env item store
           in (err, r\<lparr>r_ruleSetItem := Some item'\<rparr>, store')))"

fun startRefs ::
  "StartEnv \<Rightarrow> ItemRef list \<Rightarrow> RuleSetItem abstractDefaultRule \<Rightarrow> RuleSetStore \<Rightarrow>
   Error option \<times> RuleSetItem abstractDefaultRule \<times> RuleSetStore" where
  "startRefs env [] r store = (None, r, store)"
| "startRefs env (ref # refs) r store =
     (case startRef env ref r store of
        (Some err, r', store') \<Rightarrow> (Some err, r', store')
      | (None, r', store') \<Rightarrow> startRefs env refs r' store')"

text \<open>\<open>abstractDefaultRule.Start\<close> and \<open>abstractLogicalRule.Start\<close>.\<close>

fun Rule_Start :: "StartEnv \<Rightarrow> Rule \<Rightarrow> RuleSetStore \<Rightarrow> Error option \<times> Rule \<times> RuleSetStore"
and Rules_Start :: "StartEnv \<Rightarrow> Rule list \<Rightarrow> RuleSetStore \<Rightarrow> Error option \<times> Rule list \<times> RuleSetStore" where
  "Rule_Start env (DefaultRule r) store =
     (let (err, r', store') = startRefs env (r_allItems r) r store in (err, DefaultRule r', store'))"
| "Rule_Start env (LogicalRule rules mode invert action) store =
     (let (err, rules', store') = Rules_Start env rules store
      in (err, LogicalRule rules' mode invert action, store'))"
| "Rules_Start env [] store = (None, [], store)"
| "Rules_Start env (rule # rules) store =
     (case Rule_Start env rule store of
        (Some err, rule', store') \<Rightarrow> (Some err, rule' # rules, store')
      | (None, rule', store') \<Rightarrow>
          (let (err, rules', store'') = Rules_Start env rules store' in (err, rule' # rules', store'')))"

end
