(* ===== verification/Saved_Binary.thy ===== *)
theory Saved_Binary
  imports Bytes
begin

text \<open>
  The form in which the cache file keeps a remote rule-set (\<open>SavedBinary\<close> of \<open>adapter/experimental.go\<close>), and that
  reading it back gives the content and the entity tag, and the time to the second.
\<close>

record SavedBinary =
  sb_Content :: string
  sb_LastUpdated :: "int option"
  sb_LastEtag :: string

text \<open>
  \<open>SavedBinary.MarshalBinary\<close>; \<open>writeUvarint\<close> is \<open>varbin.WriteUvarint\<close> of the \<open>sing\<close> library. Times
  are nanoseconds since 1970; the zero time is year 1.
\<close>

definition zeroUnix :: int where
  "zeroUnix = - 62135596800"

definition unixSeconds :: "int option \<Rightarrow> int" where
  "unixSeconds t = (case t of None \<Rightarrow> zeroUnix | Some ns \<Rightarrow> ns div 1000000000)"

definition timeUnix :: "int \<Rightarrow> int option" where
  "timeUnix s = (if s = zeroUnix then None else Some (s * 1000000000))"

definition int64Bytes :: "int \<Rightarrow> bytes" where
  "int64Bytes i = bytesOfNat 8 (unat (word_of_int i :: u64))"

definition bytesInt64 :: "bytes \<Rightarrow> int" where
  "bytesInt64 bs = sint (word_of_nat (bigEndian bs) :: u64)"

definition SavedBinary_MarshalBinary :: "(u64 \<Rightarrow> bytes) \<Rightarrow> SavedBinary \<Rightarrow> bytes" where
  "SavedBinary_MarshalBinary writeUvarint s =
     1 # writeUvarint (word_of_nat (length (sb_Content s))) @ bytesOf (sb_Content s) @
     int64Bytes (unixSeconds (sb_LastUpdated s)) @
     writeUvarint (word_of_nat (length (sb_LastEtag s))) @ bytesOf (sb_LastEtag s)"

text \<open>\<open>make([]byte, n)\<close> panics beyond the address space of the runtime (48 bits).\<close>

definition makeBytes :: "u64 \<Rightarrow> nat result" where
  "makeBytes n =
     (if unat n < 2 ^ 48 then Inr (unat n) else Inl (Panic [AStr ''runtime error: makeslice: len out of range'']))"

definition SavedBinary_UnmarshalBinary :: "bytes \<Rightarrow> SavedBinary result" where
  "SavedBinary_UnmarshalBinary d =
     bindE (readN 1 d) (\<lambda>(_, r).
     bindE (readUvarint r) (\<lambda>(contentLength, r).
     bindE (makeBytes contentLength) (\<lambda>n.
     bindE (readN n r) (\<lambda>(content, r).
     bindE (readN 8 r) (\<lambda>(lastUpdated, r).
     bindE (readUvarint r) (\<lambda>(etagLength, r).
     bindE (makeBytes etagLength) (\<lambda>n.
     bindE (readN n r) (\<lambda>(etag, _).
       Inr \<lparr>sb_Content = stringOf content, sb_LastUpdated = timeUnix (bytesInt64 lastUpdated),
            sb_LastEtag = stringOf etag\<rparr>))))))))"

lemma bytesInt64_int64Bytes:
  assumes "- (2 ^ 63) \<le> i" and "i < 2 ^ 63"
  shows "bytesInt64 (int64Bytes i) = i"
proof -
  let ?w = "word_of_int i :: u64"
  have "unat ?w < 2 ^ 64" using unsigned_less [of ?w] by simp
  then have "unat ?w mod 256 ^ 8 = unat ?w" by simp
  then have "bytesInt64 (int64Bytes i) = sint ?w"
    by (simp add: bytesInt64_def int64Bytes_def bigEndian_bytesOfNat del: bytesOfNat.simps)
  also have "\<dots> = i" using assms by (simp add: signed_of_int signed_take_bit_int_eq_self)
  finally show ?thesis .
qed

lemma int64Bytes_length [simp]: "length (int64Bytes i) = 8"
  by (simp add: int64Bytes_def del: bytesOfNat.simps)

lemma unixSeconds_timeUnix: "unixSeconds (timeUnix s) = s"
  by (simp add: unixSeconds_def timeUnix_def)

text \<open>What \<open>varbin.WriteUvarint\<close> of the \<open>sing\<close> library is documented to write.\<close>

definition writesUvarint :: "(u64 \<Rightarrow> bytes) \<Rightarrow> bool" where
  "writesUvarint writeUvarint = (\<forall>v rest. readUvarint (writeUvarint v @ rest) = Inr (v, rest))"

definition savable :: "SavedBinary \<Rightarrow> bool" where
  "savable s = (length (sb_Content s) < 2 ^ 48 \<and> length (sb_LastEtag s) < 2 ^ 48 \<and>
     - (2 ^ 63) \<le> unixSeconds (sb_LastUpdated s) \<and> unixSeconds (sb_LastUpdated s) < 2 ^ 63)"

lemma makeBytes_length: "n < 2 ^ 48 \<Longrightarrow> makeBytes (word_of_nat n) = Inr n"
  by (simp add: makeBytes_def unat_of_nat)

lemma SavedBinary_round_trip:
  assumes "writesUvarint w" and "savable s"
  shows "SavedBinary_UnmarshalBinary (SavedBinary_MarshalBinary w s) =
    Inr (s\<lparr>sb_LastUpdated := timeUnix (unixSeconds (sb_LastUpdated s))\<rparr>)"
proof -
  have w: "readUvarint (w v @ rest) = Inr (v, rest)" "readUvarint (w v) = Inr (v, [])" for v rest
    using assms(1) append_Nil2 [of "w v"] unfolding writesUvarint_def by metis+
  have 1: "readN (Suc 0) (1 # xs) = Inr ([1], xs)" for xs :: bytes using readN_append [of "[1]" 1 xs] by simp
  have e: "readN n xs = Inr (xs, [])" if "length xs = n" for xs n using readN_append [OF that, of "[]"] by simp
  show ?thesis using assms(2)
    by (simp add: SavedBinary_UnmarshalBinary_def SavedBinary_MarshalBinary_def 1 w makeBytes_length savable_def
        bytesInt64_int64Bytes e del: bindE_Inr_iff)
qed

end
