(* ===== verification/Rule_Set.thy ===== *)
theory Rule_Set
  imports Rule_Build Saved_Binary
begin

text \<open>
  \<open>route/rule/rule_set.go\<close>, \<open>rule_set_local.go\<close> and \<open>rule_set_remote.go\<close>: rule-sets as shared
  mutable objects. An operation takes the object and returns it updated; the callbacks that an
  update notifies are returned as a list. The file system, the HTTP exchange, the JSON decoder and
  the cache file are arguments of the operations that use them; the time is an argument too
  (nanoseconds, with \<open>None\<close> for the zero time).
\<close>

text \<open>\<open>E.Cause(err, args)\<close>; a panic goes through.\<close>

fun causeErr :: "Arg list \<Rightarrow> Error \<Rightarrow> Error" where
  "causeErr args (Panic p) = Panic p"
| "causeErr args err = E_Cause err args"

section \<open>Metadata of rule-sets\<close>

fun HasHeadlessRule :: "(DefaultHeadlessRuleOptions \<Rightarrow> bool) \<Rightarrow> HeadlessOptions \<Rightarrow> bool" where
  "HasHeadlessRule cond (RuleOptions type dflt mode rules invert action) =
     (if type = ''default'' then cond dflt
      else if type = ''logical'' then list_ex (HasHeadlessRule cond) rules
      else False)"

definition isProcessHeadlessRule :: "DefaultHeadlessRuleOptions \<Rightarrow> bool" where
  "isProcessHeadlessRule rule =
     (length (h_ProcessName rule) > 0 \<or> length (h_ProcessPath rule) > 0 \<or>
      length (h_ProcessPathRegex rule) > 0 \<or> length (h_PackageName rule) > 0)"

definition isWIFIHeadlessRule :: "DefaultHeadlessRuleOptions \<Rightarrow> bool" where
  "isWIFIHeadlessRule rule = (length (h_WIFISSID rule) > 0 \<or> length (h_WIFIBSSID rule) > 0)"

definition isIPCIDRHeadlessRule :: "DefaultHeadlessRuleOptions \<Rightarrow> bool" where
  "isIPCIDRHeadlessRule rule = (length (h_IPCIDR rule) > 0 \<or> \<not> Option.is_none (h_IPSet rule))"

definition ruleSetMetadata :: "HeadlessOptions list \<Rightarrow> RuleSetMetadata" where
  "ruleSetMetadata headlessRules =
     \<lparr>rm_ContainsProcessRule = list_ex (HasHeadlessRule isProcessHeadlessRule) headlessRules,
      rm_ContainsWIFIRule = list_ex (HasHeadlessRule isWIFIHeadlessRule) headlessRules,
      rm_ContainsIPCIDRRule = list_ex (HasHeadlessRule isIPCIDRHeadlessRule) headlessRules\<rparr>"

fun extractIPSetFromRule :: "unit HeadlessRule \<Rightarrow> IPSet list" where
  "extractIPSetFromRule (DefaultRule r) =
     concat (map (\<lambda>item. case item of IPCIDRItem ipSet _ \<Rightarrow> [ipSet] | _ \<Rightarrow> []) (r_destinationIPCIDRItems r))"
| "extractIPSetFromRule (LogicalRule rules _ _ _) = concat (map extractIPSetFromRule rules)"

definition ExtractIPSet :: "RuleSetObj \<Rightarrow> IPSet list" where
  "ExtractIPSet s = concat (map extractIPSetFromRule (ls_rules s))"

section \<open>Operations of every rule-set\<close>

text \<open>
  The count is an \<open>atomic.Int32\<close>: it wraps around and is compared as a signed number. A release that
  panics has already changed it.
\<close>

definition RuleSet_IncRef :: "RuleSetObj \<Rightarrow> RuleSetObj" where
  "RuleSet_IncRef s = s\<lparr>ls_refs := ls_refs s + 1\<rparr>"

definition RuleSet_DecRef :: "RuleSetObj \<Rightarrow> Error option \<times> RuleSetObj" where
  "RuleSet_DecRef s =
     (let s' = s\<lparr>ls_refs := ls_refs s - 1\<rparr>
      in (if sint (ls_refs s') < 0 then Some (Panic [AStr ''rule-set: negative refs'']) else None, s'))"

definition RuleSet_Cleanup :: "RuleSetObj \<Rightarrow> RuleSetObj" where
  "RuleSet_Cleanup s = (if ls_refs s = 0 then s\<lparr>ls_rules := []\<rparr> else s)"

text \<open>\<open>PushBack\<close> returns the new element; \<open>Remove\<close> takes an element out of the list.\<close>

definition freshElement :: "nat list \<Rightarrow> nat" where
  "freshElement es = (if es = [] then 0 else Suc (foldr max es 0))"

definition RegisterCallback :: "RuleSetObj \<Rightarrow> nat \<times> RuleSetObj" where
  "RegisterCallback s =
     (let e = freshElement (ls_callbacks s) in (e, s\<lparr>ls_callbacks := ls_callbacks s @ [e]\<rparr>))"

definition UnregisterCallback :: "nat \<Rightarrow> RuleSetObj \<Rightarrow> RuleSetObj" where
  "UnregisterCallback e s = s\<lparr>ls_callbacks := remove1 e (ls_callbacks s)\<rparr>"

definition RuleSet_Close :: "RuleSetObj \<Rightarrow> RuleSetObj" where
  "RuleSet_Close s = s\<lparr>ls_rules := []\<rparr>"

text \<open>
  \<open>reloadRules\<close>: all the rules are built before anything changes; then the rules and the metadata
  are replaced together and every callback is notified.
\<close>

definition buildRules :: "bool \<Rightarrow> Lib \<Rightarrow> HeadlessOptions list \<Rightarrow> unit HeadlessRule list result" where
  "buildRules networkManager lib headlessRules =
     mapE_from 0 (\<lambda>i ruleOptions. cause [AStr ''parse rule_set.rules.['', ANum (int i), AStr '']'']
                    (NewHeadlessRule networkManager lib ruleOptions)) headlessRules"

definition reloadRules ::
  "bool \<Rightarrow> Lib \<Rightarrow> HeadlessOptions list \<Rightarrow> RuleSetObj \<Rightarrow> Error option \<times> RuleSetObj \<times> nat list" where
  "reloadRules networkManager lib headlessRules s =
     (case buildRules networkManager lib headlessRules of
        Inl err \<Rightarrow> (Some err, s, [])
      | Inr rules \<Rightarrow>
          (None, s\<lparr>ls_rules := rules, ls_metadata := ruleSetMetadata headlessRules\<rparr>, ls_callbacks s))"

section \<open>Decoding\<close>

record PlainRuleSetCompat =
  pc_Version :: u8
  pc_Rules :: "HeadlessOptions list"

definition PlainRuleSetCompat_Upgrade :: "PlainRuleSetCompat \<Rightarrow> HeadlessOptions list result" where
  "PlainRuleSetCompat_Upgrade r =
     (if pc_Version r \<in> {1, 2, 3, 4} then Inr (pc_Rules r)
      else Inl (E_New [AStr ''unknown rule-set version: '', ANum (uint (pc_Version r))]))"

text \<open>The two decoders: \<open>json.UnmarshalExtended\<close> and \<open>srs.Read\<close>.\<close>

record Decoders =
  dec_json :: "string \<Rightarrow> PlainRuleSetCompat result"
  dec_srs :: "string \<Rightarrow> PlainRuleSetCompat result"

section \<open>Local rule-sets\<close>

definition reloadFile ::
  "bool \<Rightarrow> Lib \<Rightarrow> Decoders \<Rightarrow> (string \<Rightarrow> string result) \<Rightarrow> string \<Rightarrow> RuleSetObj \<Rightarrow>
   Error option \<times> RuleSetObj \<times> nat list" where
  "reloadFile networkManager lib dec readFile path s =
     (let ruleSet =
        (if ls_fileFormat s = ''source'' \<or> ls_fileFormat s = '''' then bindE (readFile path) (dec_json dec)
         else if ls_fileFormat s = ''binary'' then bindE (readFile path) (dec_srs dec)
         else Inl (E_New [AStr ''unknown rule-set format: '', AStr (ls_fileFormat s)]))
      in case bindE ruleSet PlainRuleSetCompat_Upgrade of
           Inl err \<Rightarrow> (Some err, s, [])
         | Inr rules \<Rightarrow> reloadRules networkManager lib rules s)"

record RuleSetOptions =
  so_Type :: string
  so_Tag :: string
  so_Format :: string
  so_InlineRules :: "HeadlessOptions list"
  so_Path :: string
  so_DownloadDetour :: string
  so_UpdateInterval :: int

definition zeroMetadata :: RuleSetMetadata where
  "zeroMetadata = \<lparr>rm_ContainsProcessRule = False, rm_ContainsWIFIRule = False, rm_ContainsIPCIDRRule = False\<rparr>"

definition newRuleSetObj :: "RuleSetOptions \<Rightarrow> RuleSetObj" where
  "newRuleSetObj options =
     \<lparr>ls_tag = so_Tag options, ls_rules = [], ls_metadata = zeroMetadata, ls_fileFormat = so_Format options,
      ls_callbacks = [], ls_refs = 0\<rparr>"

text \<open>
  \<open>NewLocalRuleSet\<close>: \<open>basePath\<close> stands for \<open>filemanager.BasePath\<close> and \<open>filepath.Abs\<close>, \<open>newWatcher\<close>
  for \<open>fswatch.NewWatcher\<close>.
\<close>

definition NewLocalRuleSet ::
  "bool \<Rightarrow> Lib \<Rightarrow> Decoders \<Rightarrow> (string \<Rightarrow> string) \<Rightarrow> (string \<Rightarrow> string result) \<Rightarrow> (string \<Rightarrow> unit result) \<Rightarrow>
   RuleSetOptions \<Rightarrow> RuleSetObj result" where
  "NewLocalRuleSet networkManager lib dec basePath readFile newWatcher options =
     (if so_Type options = ''inline'' then
        (if length (so_InlineRules options) = 0 then Inl (E_New [AStr ''empty inline rule-set''])
         else case reloadRules networkManager lib (so_InlineRules options) (newRuleSetObj options) of
                (Some err, _, _) \<Rightarrow> Inl err
              | (None, s, _) \<Rightarrow> Inr s)
      else
        (let filePath = basePath (so_Path options)
         in case reloadFile networkManager lib dec readFile filePath (newRuleSetObj options) of
              (Some err, _, _) \<Rightarrow> Inl err
            | (None, s, _) \<Rightarrow> bindE (newWatcher filePath) (\<lambda>_. Inr s)))"

section \<open>Remote rule-sets\<close>

text \<open>
  A remote rule-set. \<open>rr_cacheFile\<close> is the entry of the cache file for its tag, in the binary form that
  the cache file stores: \<open>None\<close> without a cache file, \<open>Some None\<close> when nothing is saved.
\<close>

record RemoteRuleSet =
  rr_set :: RuleSetObj
  rr_DownloadDetour :: string
  rr_updateInterval :: int
  rr_lastUpdated :: "int option"
  rr_lastEtag :: string
  rr_cacheFile :: "bytes option option"

definition NewRemoteRuleSet :: "RuleSetOptions \<Rightarrow> RemoteRuleSet" where
  "NewRemoteRuleSet options =
     \<lparr>rr_set = newRuleSetObj options, rr_DownloadDetour = so_DownloadDetour options,
      rr_updateInterval = (if so_UpdateInterval options > 0 then so_UpdateInterval options
                           else 24 * 3600 * 1000000000),
      rr_lastUpdated = None, rr_lastEtag = '''', rr_cacheFile = None\<rparr>"

text \<open>The first part of \<open>loadBytes\<close>: decoding and upgrading the content.\<close>

definition decodeContent :: "Decoders \<Rightarrow> string \<Rightarrow> string \<Rightarrow> HeadlessOptions list result" where
  "decodeContent dec format content =
     bindE (if format = ''source'' then dec_json dec content
            else if format = ''binary'' then dec_srs dec content
            else Inl (E_New [AStr ''unknown rule-set format: '', AStr format])) PlainRuleSetCompat_Upgrade"

definition loadBytes ::
  "bool \<Rightarrow> Lib \<Rightarrow> Decoders \<Rightarrow> string \<Rightarrow> RuleSetObj \<Rightarrow> Error option \<times> RuleSetObj \<times> nat list" where
  "loadBytes networkManager lib dec content s =
     (case decodeContent dec (ls_fileFormat s) content of
        Inl err \<Rightarrow> (Some err, s, [])
      | Inr rules \<Rightarrow> reloadRules networkManager lib rules s)"

text \<open>The answer to a request: the status, the \<open>Etag\<close> header and the body, which may fail to arrive.\<close>

record Response =
  rp_Status :: nat
  rp_Etag :: string
  rp_Body :: "string result"

text \<open>
  The exchange of \<open>fetch\<close>: the answer to a request with the given \<open>If-None-Match\<close> header, and the
  outcome of writing the cache file; \<open>ex_writeUvarint\<close> is \<open>varbin.WriteUvarint\<close> of the \<open>sing\<close> library.
\<close>

record Exchange =
  ex_Do :: "string option \<Rightarrow> Response result"
  ex_SaveRuleSet :: "SavedBinary \<Rightarrow> unit result"
  ex_writeUvarint :: "u64 \<Rightarrow> bytes"

definition saveRuleSet :: "Exchange \<Rightarrow> SavedBinary \<Rightarrow> RemoteRuleSet \<Rightarrow> RemoteRuleSet" where
  "saveRuleSet ex saved s =
     (if isOk (ex_SaveRuleSet ex saved)
      then s\<lparr>rr_cacheFile := Some (Some (SavedBinary_MarshalBinary (ex_writeUvarint ex) saved))\<rparr> else s)"

text \<open>
  \<open>LoadRuleSet\<close> of the cache file as the rule-set sees it: nothing is loaded without an entry or from an
  entry that is empty or cannot be decoded.
\<close>

definition loadSaved :: "bytes option option \<Rightarrow> SavedBinary option" where
  "loadSaved cacheFile =
     (case cacheFile of
        Some (Some setBinary) \<Rightarrow>
          (if length setBinary = 0 then None
           else case SavedBinary_UnmarshalBinary setBinary of Inl _ \<Rightarrow> None | Inr saved \<Rightarrow> Some saved)
      | _ \<Rightarrow> None)"

definition fetch_notModified :: "Exchange \<Rightarrow> int \<Rightarrow> RemoteRuleSet \<Rightarrow> RemoteRuleSet" where
  "fetch_notModified ex now s =
     (let s1 = s\<lparr>rr_lastUpdated := Some now\<rparr>
      in case loadSaved (rr_cacheFile s1) of
           Some saved \<Rightarrow> saveRuleSet ex (saved\<lparr>sb_LastUpdated := Some now\<rparr>) s1
         | None \<Rightarrow> s1)"

definition fetch_ok ::
  "bool \<Rightarrow> Lib \<Rightarrow> Decoders \<Rightarrow> Exchange \<Rightarrow> int \<Rightarrow> Response \<Rightarrow> RemoteRuleSet \<Rightarrow>
   Error option \<times> RemoteRuleSet \<times> nat list" where
  "fetch_ok networkManager lib dec ex now response s =
     (case rp_Body response of
        Inl err \<Rightarrow> (Some err, s, [])
      | Inr content \<Rightarrow>
          (case loadBytes networkManager lib dec content (rr_set s) of
             (Some err, set', notified) \<Rightarrow> (Some err, s\<lparr>rr_set := set'\<rparr>, notified)
           | (None, set', notified) \<Rightarrow>
               (let s1 = s\<lparr>rr_set := set',
                           rr_lastEtag := (if rp_Etag response \<noteq> '''' then rp_Etag response else rr_lastEtag s),
                           rr_lastUpdated := Some now\<rparr>;
                    s2 = (if rr_cacheFile s1 \<noteq> None
                          then saveRuleSet ex \<lparr>sb_Content = content, sb_LastUpdated = rr_lastUpdated s1,
                                               sb_LastEtag = rr_lastEtag s1\<rparr> s1
                          else s1)
                in (None, s2, notified))))"

definition fetch ::
  "bool \<Rightarrow> Lib \<Rightarrow> Decoders \<Rightarrow> Exchange \<Rightarrow> int \<Rightarrow> RemoteRuleSet \<Rightarrow> Error option \<times> RemoteRuleSet \<times> nat list" where
  "fetch networkManager lib dec ex now s =
     (case ex_Do ex (if rr_lastEtag s \<noteq> '''' then Some (rr_lastEtag s) else None) of
        Inl err \<Rightarrow> (Some err, s, [])
      | Inr response \<Rightarrow>
          if rp_Status response = 200 then fetch_ok networkManager lib dec ex now response s
          else if rp_Status response = 304 then (None, fetch_notModified ex now s, [])
          else (Some (E_New [AStr ''unexpected status: '', ANum (int (rp_Status response))]), s, []))"

definition updateOnce ::
  "bool \<Rightarrow> Lib \<Rightarrow> Decoders \<Rightarrow> Exchange \<Rightarrow> int \<Rightarrow> RemoteRuleSet \<Rightarrow> RemoteRuleSet \<times> nat list" where
  "updateOnce networkManager lib dec ex now s =
     (case fetch networkManager lib dec ex now s of
        (Some err, s', notified) \<Rightarrow> (s', notified)
      | (None, s', notified) \<Rightarrow>
          (if ls_refs (rr_set s') = 0 then s'\<lparr>rr_set := (rr_set s')\<lparr>ls_rules := []\<rparr>\<rparr> else s', notified))"

text \<open>The first iteration of \<open>loopUpdate\<close>: an update when the rules are older than the interval.\<close>

definition loopUpdate_first ::
  "bool \<Rightarrow> Lib \<Rightarrow> Decoders \<Rightarrow> Exchange \<Rightarrow> int \<Rightarrow> RemoteRuleSet \<Rightarrow> RemoteRuleSet \<times> nat list" where
  "loopUpdate_first networkManager lib dec ex now s =
     (if (case rr_lastUpdated s of None \<Rightarrow> True | Some t \<Rightarrow> now - t > rr_updateInterval s)
      then updateOnce networkManager lib dec ex now s else (s, []))"

text \<open>
  \<open>StartContext\<close>: the download detour must exist; a saved rule-set is restored, and only a rule-set
  without an update time is fetched. \<open>cacheFile\<close> is the cache file found in the context.
\<close>

definition RemoteRuleSet_StartContext ::
  "bool \<Rightarrow> Lib \<Rightarrow> Decoders \<Rightarrow> (string \<Rightarrow> bool) \<Rightarrow> bytes option option \<Rightarrow> Exchange \<Rightarrow> int \<Rightarrow>
   RemoteRuleSet \<Rightarrow> Error option \<times> RemoteRuleSet \<times> nat list" where
  "RemoteRuleSet_StartContext networkManager lib dec outboundExists cacheFile ex now s0 =
     (let s = s0\<lparr>rr_cacheFile := cacheFile\<rparr>
      in if rr_DownloadDetour s \<noteq> '''' \<and> \<not> outboundExists (rr_DownloadDetour s)
         then (Some (E_New [AStr ''download detour not found: '', AStr (rr_DownloadDetour s)]), s, [])
         else
           (let (err, s1, n1) =
              (case loadSaved (rr_cacheFile s) of
                 Some saved \<Rightarrow>
                   (case loadBytes networkManager lib dec (sb_Content saved) (rr_set s) of
                      (Some err, set', notified) \<Rightarrow>
                        (Some (causeErr [AStr ''restore cached rule-set''] err), s\<lparr>rr_set := set'\<rparr>, notified)
                    | (None, set', notified) \<Rightarrow>
                        (None, s\<lparr>rr_set := set', rr_lastUpdated := sb_LastUpdated saved,
                                 rr_lastEtag := sb_LastEtag saved\<rparr>, notified))
               | None \<Rightarrow> (None, s, []))
            in if err \<noteq> None then (err, s1, n1)
               else if rr_lastUpdated s1 = None then
                 (case fetch networkManager lib dec ex now s1 of
                    (Some err, s2, n2) \<Rightarrow>
                      (Some (causeErr [AStr ''initial rule-set: '', AStr (ls_tag (rr_set s2))] err), s2, n1 @ n2)
                  | (None, s2, n2) \<Rightarrow> (None, s2, n1 @ n2))
               else (None, s1, n1)))"

end
