(* ===== verification/Rule_Sem.thy ===== *)
theory Rule_Sem
  imports Rule_Eval
begin

text \<open>
  The meaning of rules, free of bit vectors and of the mutable context: a match state is the set of
  condition groups it satisfies, and a rule denotes a set of such sets. The locale
  \<open>rule_set_interface\<close> is what the rule evaluator relies on from the rule-sets (their state sets mean
  what their specification says); inside it the evaluator of \<open>Rule_Eval\<close> is shown to compute the
  meaning of every rule tree. It is interpreted for rules without a rule-set item and for the
  rule-set items of the router.
\<close>

unbundle bit_operations_syntax

section \<open>Condition groups\<close>

datatype Group = GSourceAddress | GSourcePort | GDestinationAddress | GDestinationPort

fun flagOf :: "Group \<Rightarrow> ruleMatchState" where
  "flagOf GSourceAddress = ruleMatchSourceAddress"
| "flagOf GSourcePort = ruleMatchSourcePort"
| "flagOf GDestinationAddress = ruleMatchDestinationAddress"
| "flagOf GDestinationPort = ruleMatchDestinationPort"

fun indexOf :: "Group \<Rightarrow> nat" where
  "indexOf GSourceAddress = 0"
| "indexOf GSourcePort = 1"
| "indexOf GDestinationAddress = 2"
| "indexOf GDestinationPort = 3"

definition groupsOf :: "ruleMatchState \<Rightarrow> Group set" where
  "groupsOf st = {g. state_has st (flagOf g)}"

definition absStates :: "ruleMatchStateSet \<Rightarrow> Group set set" where
  "absStates s = groupsOf ` statesOf s"

text \<open>All unions of a member of the one set and a member of the other.\<close>

definition unions :: "Group set set \<Rightarrow> Group set set \<Rightarrow> Group set set" where
  "unions S T = (\<Union>A \<in> S. (\<lambda>B. A \<union> B) ` T)"

lemma flagOf_push_bit: "flagOf g = push_bit (indexOf g) 1"
  by (cases g) (simp_all add: ruleMatch_flags)

lemma state_has_bit: "state_has st (flagOf g) \<longleftrightarrow> bit st (indexOf g)"
  by (simp only: state_has_def flagOf_push_bit bit_iff_and_push_bit_not_eq_0)

lemma mem_groupsOf: "g \<in> groupsOf st \<longleftrightarrow> bit st (indexOf g)"
  by (simp add: groupsOf_def state_has_bit)

lemma state_has_mem: "state_has st (flagOf g) \<longleftrightarrow> g \<in> groupsOf st"
  by (simp add: groupsOf_def)

lemma groupsOf_or [simp]: "groupsOf (a OR b) = groupsOf a \<union> groupsOf b"
  by (auto simp: mem_groupsOf bit_or_iff)

lemma groupsOf_zero [simp]: "groupsOf 0 = {}"
  by (auto simp: mem_groupsOf)

lemma indexOf_inject [simp]: "indexOf g = indexOf h \<longleftrightarrow> g = h"
  by (cases g; cases h) simp_all

lemma indexOf_less: "indexOf g < 4"
  by (cases g) simp_all

lemma groupsOf_flagOf [simp]: "groupsOf (flagOf g) = {g}"
proof (rule set_eqI)
  fix h
  show "h \<in> groupsOf (flagOf g) \<longleftrightarrow> h \<in> {g}"
    by (cases g; cases h) (simp_all add: groupsOf_def state_has_def ruleMatch_flags)
qed

lemma flagOf_less16: "unat (flagOf g) < 16"
  by (cases g) (simp_all add: ruleMatch_flags)

lemma groupsOf_inject:
  assumes "unat a < 16" and "unat b < 16"
  shows "groupsOf a = groupsOf b \<longleftrightarrow> a = b"
proof
  assume eq: "groupsOf a = groupsOf b"
  have high: "\<not> bit x n" if "unat x < 16" "4 \<le> n" for x :: u8 and n
  proof -
    have "take_bit 4 x = x"
      using that(1) by (simp add: word_unat_eq_iff unsigned_take_bit_eq take_bit_nat_eq_self_iff)
    then show ?thesis using that(2) by (metis bit_take_bit_iff not_less)
  qed
  have low: "\<exists>g. indexOf g = n" if "n < 4" for n
  proof -
    from that have "n = 0 \<or> n = 1 \<or> n = 2 \<or> n = 3" by linarith
    then show ?thesis by (metis indexOf.simps)
  qed
  show "a = b"
  proof (rule bit_word_eqI)
    fix n
    show "bit a n = bit b n"
    proof (cases "n < 4")
      case True
      with low obtain g where "indexOf g = n" by blast
      with eq show ?thesis by (metis mem_groupsOf)
    next
      case False
      with high assms show ?thesis by simp
    qed
  qed
qed simp

lemma absStates_isEmpty: "states_isEmpty s \<longleftrightarrow> absStates s = {}"
  by (simp add: states_isEmpty_iff absStates_def)

lemma absStates_zero [simp]: "absStates 0 = {}"
  by (simp add: absStates_def)

lemma absStates_single: "unat st < 16 \<Longrightarrow> absStates (singleRuleMatchState st) = {groupsOf st}"
  by (simp add: absStates_def statesOf_single)

lemma absStates_empty [simp]: "absStates emptyRuleMatchState = {{}}"
  by (simp add: absStates_def statesOf_empty)

lemma absStates_merge [simp]: "absStates (states_merge s t) = absStates s \<union> absStates t"
  by (simp add: absStates_def statesOf_merge image_Un)

lemma absStates_withBase [simp]:
  "unat b < 16 \<Longrightarrow> absStates (states_withBase s b) = (\<lambda>A. A \<union> groupsOf b) ` absStates s"
  by (simp add: absStates_def statesOf_withBase image_image)

lemma absStates_combine [simp]:
  "absStates (states_combine s t) = unions (absStates s) (absStates t)"
  by (auto simp: absStates_def unions_def statesOf_combine image_UN image_image)

lemma absStates_filter:
  assumes "\<And>st. P st \<longleftrightarrow> Q (groupsOf st)"
  shows "absStates (states_filter P s) = {A \<in> absStates s. Q A}"
  using assms by (auto simp: absStates_def statesOf_filter)

lemma absStates_eq_empty: "absStates s = {{}} \<longleftrightarrow> s = emptyRuleMatchState"
proof
  assume eq: "absStates s = {{}}"
  have "st = 0" if "st \<in> statesOf s" for st
    using that eq groupsOf_inject [of st 0] states_contains_less [of s st]
    by (auto simp: absStates_def)
  moreover have "statesOf s \<noteq> {}" using eq by (auto simp: absStates_def)
  ultimately have "statesOf s = {0}" by blast
  then show "s = emptyRuleMatchState" by (simp flip: statesOf_empty statesOf_inject)
qed simp

section \<open>The meaning of a default rule\<close>

text \<open>
  The group the destination address items (\<open>ip_cidr\<close>, \<open>ip_is_private\<close>, \<open>ip_accept_any\<close>) belong to:
  none while a DNS rule is matched before the lookup, the source group inside a rule-set that is
  matched against the source, the destination group otherwise.
\<close>

definition cidrGroup :: "InboundContext \<Rightarrow> Group option" where
  "cidrGroup md =
     (if md_IgnoreDestinationIPCIDRMatch md then None
      else Some (if md_IPCIDRMatchSource md then GSourceAddress else GDestinationAddress))"

fun ownItems :: "'rs abstractDefaultRule \<Rightarrow> Group \<Rightarrow> RuleItem list" where
  "ownItems r GSourceAddress = r_sourceAddressItems r"
| "ownItems r GSourcePort = r_sourcePortItems r"
| "ownItems r GDestinationAddress = r_destinationAddressItems r"
| "ownItems r GDestinationPort = r_destinationPortItems r"

definition groupItems :: "'rs abstractDefaultRule \<Rightarrow> InboundContext \<Rightarrow> Group \<Rightarrow> RuleItem list" where
  "groupItems r md g =
     ownItems r g @ (if cidrGroup md = Some g then r_destinationIPCIDRItems r else [])"

definition required :: "'rs abstractDefaultRule \<Rightarrow> InboundContext \<Rightarrow> Group set" where
  "required r md = {g. groupItems r md g \<noteq> []}"

definition satisfied :: "Lib \<Rightarrow> Net \<Rightarrow> 'rs abstractDefaultRule \<Rightarrow> InboundContext \<Rightarrow> Group set" where
  "satisfied lib net r md = {g. \<exists>it \<in> set (groupItems r md g). RuleItem_Match lib net it md}"

definition otherFields :: "Lib \<Rightarrow> Net \<Rightarrow> 'rs abstractDefaultRule \<Rightarrow> InboundContext \<Rightarrow> bool" where
  "otherFields lib net r md = (\<forall>it \<in> set (r_items r). RuleItem_Match lib net it md)"

text \<open>A rule that, before a DNS lookup, has nothing but deferred destination address conditions.\<close>

definition onlyDeferred :: "'rs abstractDefaultRule \<Rightarrow> InboundContext \<Rightarrow> bool" where
  "onlyDeferred r md \<longleftrightarrow>
     md_IgnoreDestinationIPCIDRMatch md \<and> \<not> md_DidMatch md \<and> required r md = {} \<and> r_items r = [] \<and>
     r_ruleSetItem r = None \<and> r_destinationIPCIDRItems r \<noteq> []"

type_synonym 'rs RuleSetMeaning = "'rs \<Rightarrow> InboundContext \<Rightarrow> Group set \<Rightarrow> Group set set"

definition semDefault ::
  "Lib \<Rightarrow> Net \<Rightarrow> 'rs RuleSetMeaning \<Rightarrow> 'rs abstractDefaultRule \<Rightarrow> InboundContext \<Rightarrow> Group set \<Rightarrow> Group set set" where
  "semDefault lib net RS r md B =
     (if r_allItems r = [] then {B}
      else
        let full = (if r_invert r then {} else B) \<union> satisfied lib net r md;
            reached = (if otherFields lib net r md
                       then (case r_ruleSetItem r of
                               None \<Rightarrow> {full}
                             | Some item \<Rightarrow> RS item (setDidMatch md) full)
                       else {});
            S = {A \<in> reached. required r md \<subseteq> A}
        in if \<not> r_invert r then S
           else if S = {} \<or> onlyDeferred r md then {B} else {})"

section \<open>The steps of the evaluator\<close>

lemma setDidMatch_idem [simp]: "setDidMatch (setDidMatch md) = setDidMatch md"
  by (simp add: setDidMatch_def)

lemma Match_setDidMatch [simp]: "RuleItem_Match lib net it (setDidMatch md) = RuleItem_Match lib net it md"
  by (simp add: setDidMatch_def)

lemma setDidMatch_flags [simp]:
  "md_IgnoreDestinationIPCIDRMatch (setDidMatch md) = md_IgnoreDestinationIPCIDRMatch md"
  "md_IPCIDRMatchSource (setDidMatch md) = md_IPCIDRMatchSource md"
  "md_DidMatch (setDidMatch md)"
  by (simp_all add: setDidMatch_def)

text \<open>\<open>touch c md\<close>: the context after steps that looked at items iff \<open>c\<close>.\<close>

definition touch :: "bool \<Rightarrow> InboundContext \<Rightarrow> InboundContext" where
  "touch c md = (if c then setDidMatch md else md)"

lemma touch_simps [simp]:
  "touch c (touch d md) = touch (c \<or> d) md"
  "setDidMatch (touch c md) = setDidMatch md"
  "RuleItem_Match lib net it (touch c md) = RuleItem_Match lib net it md"
  "md_IgnoreDestinationIPCIDRMatch (touch c md) = md_IgnoreDestinationIPCIDRMatch md"
  "md_IPCIDRMatchSource (touch c md) = md_IPCIDRMatchSource md"
  "md_DidMatch (touch c md) \<longleftrightarrow> c \<or> md_DidMatch md"
  "touch False md = md"
  by (simp_all add: touch_def setDidMatch_def)

lemma matchGroup_touch:
  assumes "matchGroup lib net items (flagOf g) (touch c md, st) = (md', st')" and "unat st < 16"
  shows "md' = touch (c \<or> items \<noteq> []) md"
    and "groupsOf st' = groupsOf st \<union> {h. h = g \<and> (\<exists>it \<in> set items. RuleItem_Match lib net it md)}"
    and "unat st' < 16"
  using assms flagOf_less16 [of g]
  by (auto simp: matchGroup_def matchAnyItem_def list_ex_iff touch_def less16_or split: if_splits)

lemma matchIPCIDRGroup_touch:
  assumes "matchIPCIDRGroup lib net applies r (flagOf g) (touch c md, st) = (md', st')"
    and "unat st < 16" and "applies r (touch c md) = (cidrGroup md = Some g \<and> r_destinationIPCIDRItems r \<noteq> [])"
  shows "md' = touch (c \<or> cidrGroup md = Some g \<and> r_destinationIPCIDRItems r \<noteq> []) md"
    and "groupsOf st' = groupsOf st \<union>
      {h. h = g \<and> cidrGroup md = Some g \<and>
          (\<exists>it \<in> set (r_destinationIPCIDRItems r). RuleItem_Match lib net it md)}"
    and "unat st' < 16"
  using assms flagOf_less16 [of g]
  by (auto simp: matchIPCIDRGroup_def matchAnyItem_def list_ex_iff touch_def state_has_mem less16_or
      split: if_splits)

lemma matchesSource_touch:
  "destinationIPCIDRMatchesSource r (touch c md) =
     (cidrGroup md = Some GSourceAddress \<and> r_destinationIPCIDRItems r \<noteq> [])"
  by (auto simp: destinationIPCIDRMatchesSource_def cidrGroup_def)

lemma matchesDestination_touch:
  "destinationIPCIDRMatchesDestination r (touch c md) =
     (cidrGroup md = Some GDestinationAddress \<and> r_destinationIPCIDRItems r \<noteq> [])"
  by (auto simp: destinationIPCIDRMatchesDestination_def cidrGroup_def)

lemma required_iff_Cidr:
  "required r md \<noteq> {} \<longleftrightarrow>
     r_sourceAddressItems r \<noteq> [] \<or> r_sourcePortItems r \<noteq> [] \<or> r_destinationAddressItems r \<noteq> [] \<or>
     r_destinationPortItems r \<noteq> [] \<or>
     cidrGroup md \<noteq> None \<and> r_destinationIPCIDRItems r \<noteq> []"
proof -
  have "(\<exists>g. Q g) \<longleftrightarrow> Q GSourceAddress \<or> Q GSourcePort \<or> Q GDestinationAddress \<or> Q GDestinationPort" for Q
    by (metis Group.exhaust)
  then show ?thesis
    by (auto simp: required_def groupItems_def cidrGroup_def)
qed

lemma satisfied_split:
  "satisfied lib net r md =
     {h. h = GSourceAddress \<and> (\<exists>it \<in> set (r_sourceAddressItems r). RuleItem_Match lib net it md)} \<union>
     {h. h = GSourceAddress \<and> cidrGroup md = Some GSourceAddress \<and>
         (\<exists>it \<in> set (r_destinationIPCIDRItems r). RuleItem_Match lib net it md)} \<union>
     {h. h = GSourcePort \<and> (\<exists>it \<in> set (r_sourcePortItems r). RuleItem_Match lib net it md)} \<union>
     {h. h = GDestinationAddress \<and> (\<exists>it \<in> set (r_destinationAddressItems r). RuleItem_Match lib net it md)} \<union>
     {h. h = GDestinationAddress \<and> cidrGroup md = Some GDestinationAddress \<and>
         (\<exists>it \<in> set (r_destinationIPCIDRItems r). RuleItem_Match lib net it md)} \<union>
     {h. h = GDestinationPort \<and> (\<exists>it \<in> set (r_destinationPortItems r). RuleItem_Match lib net it md)}"
  unfolding satisfied_def groupItems_def
  by (intro set_eqI; rename_tac g; case_tac g) (auto simp: cidrGroup_def)

lemma matchGroups_touch:
  assumes "unat st < 16" and "matchGroups lib net r (md, st) = (md', st')"
  shows "md' = touch (required r md \<noteq> {}) md \<and> groupsOf st' = groupsOf st \<union> satisfied lib net r md
    \<and> unat st' < 16"
proof -
  obtain m1 s1 where 1: "matchGroup lib net (r_sourceAddressItems r) (flagOf GSourceAddress) (touch False md, st) = (m1, s1)"
    by fastforce
  note a = matchGroup_touch [OF 1 assms(1)]
  obtain m2 s2 where 2: "matchIPCIDRGroup lib net destinationIPCIDRMatchesSource r (flagOf GSourceAddress) (m1, s1) = (m2, s2)"
    by fastforce
  note b = matchIPCIDRGroup_touch [OF 2 [unfolded a(1)] a(3) matchesSource_touch]
  obtain m3 s3 where 3: "matchGroup lib net (r_sourcePortItems r) (flagOf GSourcePort) (m2, s2) = (m3, s3)"
    by fastforce
  note c = matchGroup_touch [OF 3 [unfolded b(1)] b(3)]
  obtain m4 s4 where 4: "matchGroup lib net (r_destinationAddressItems r) (flagOf GDestinationAddress) (m3, s3) = (m4, s4)"
    by fastforce
  note d = matchGroup_touch [OF 4 [unfolded c(1)] c(3)]
  obtain m5 s5 where 5: "matchIPCIDRGroup lib net destinationIPCIDRMatchesDestination r (flagOf GDestinationAddress) (m4, s4) = (m5, s5)"
    by fastforce
  note e = matchIPCIDRGroup_touch [OF 5 [unfolded d(1)] d(3) matchesDestination_touch]
  obtain m6 s6 where 6: "matchGroup lib net (r_destinationPortItems r) (flagOf GDestinationPort) (m5, s5) = (m6, s6)"
    by fastforce
  note f = matchGroup_touch [OF 6 [unfolded e(1)] e(3)]
  have "(m6, s6) = (md', st')"
    using assms(2) 1 2 3 4 5 6 by (simp add: matchGroups_def Let_def)
  moreover have "m6 = touch (required r md \<noteq> {}) md"
    unfolding f(1) required_iff_Cidr by (rule arg_cong [where f = "\<lambda>c. touch c md"]) (auto simp: cidrGroup_def)
  moreover have "groupsOf s6 = groupsOf st \<union> satisfied lib net r md"
    unfolding satisfied_split f(2) e(2) d(2) c(2) b(2) a(2) by (simp only: Un_assoc)
  ultimately show ?thesis using f(3) by simp
qed

lemma matchItems_touch:
  assumes "matchItems lib net items md = (ok, md')"
  shows "ok = (\<forall>it \<in> set items. RuleItem_Match lib net it md)"
    and "ok \<Longrightarrow> md' = touch (items \<noteq> []) md"
proof -
  have "ok = (\<forall>it \<in> set items. RuleItem_Match lib net it md) \<and> (ok \<longrightarrow> md' = touch (items \<noteq> []) md)"
    using assms
  proof (induction items arbitrary: md)
    case Nil
    then show ?case by simp
  next
    case (Cons it items)
    show ?case
    proof (cases "RuleItem_Match lib net it md")
      case True
      with Cons.prems have "matchItems lib net items (setDidMatch md) = (ok, md')"
        by (simp add: Let_def)
      from Cons.IH [OF this] True show ?thesis by (auto simp: touch_def)
    next
      case False
      with Cons.prems show ?thesis by (simp add: Let_def)
    qed
  qed
  then show "ok = (\<forall>it \<in> set items. RuleItem_Match lib net it md)"
    and "ok \<Longrightarrow> md' = touch (items \<noteq> []) md" by simp_all
qed

lemma allowedState_iff: "allowedState r (touch c md) st \<longleftrightarrow> required r md \<subseteq> groupsOf st"
proof -
  have all: "(\<forall>g. Q g) \<longleftrightarrow> Q GSourceAddress \<and> Q GSourcePort \<and> Q GDestinationAddress \<and> Q GDestinationPort" for Q
    by (metis Group.exhaust)
  have never: "cidrGroup md \<noteq> Some GSourcePort" "cidrGroup md \<noteq> Some GDestinationPort"
    by (simp_all add: cidrGroup_def)
  show ?thesis
    unfolding subset_iff all
    by (simp add: allowedState_def required_def groupItems_def requiresSourceAddressMatch_def
        requiresDestinationAddressMatch_def matchesSource_touch matchesDestination_touch groupsOf_def never)
qed

section \<open>The meaning of rule trees and rule-sets\<close>

fun semRule ::
  "Lib \<Rightarrow> Net \<Rightarrow> 'rs RuleSetMeaning \<Rightarrow> 'rs HeadlessRule \<Rightarrow> InboundContext \<Rightarrow> Group set \<Rightarrow> Group set set" where
  "semRule lib net RS (DefaultRule r) md B = semDefault lib net RS r md B"
| "semRule lib net RS (LogicalRule rules mode invert action) md B =
     (let E = (if invert then {} else B);
          children = map (\<lambda>rule. semRule lib net RS rule (ResetRuleCache md) E) rules;
          S = (if mode = ''and'' then foldr unions children {E} else \<Union> (set children))
      in if \<not> invert then S else if S = {} then {B} else {})"

definition semRuleSet ::
  "Lib \<Rightarrow> Net \<Rightarrow> RuleSetObj \<Rightarrow> InboundContext \<Rightarrow> Group set \<Rightarrow> Group set set" where
  "semRuleSet lib net s md B =
     (\<Union>rule \<in> set (ls_rules s). semRule lib net (\<lambda>_ _ _. {}) rule (ResetRuleMatchCache md) B)"

definition semRuleSetItem :: "Lib \<Rightarrow> Net \<Rightarrow> RuleSetStore \<Rightarrow> RuleSetItem RuleSetMeaning" where
  "semRuleSetItem lib net store r md B =
     (\<Union>p \<in> set (rsi_setList r).
        case store p of
          None \<Rightarrow> {}
        | Some s \<Rightarrow>
            semRuleSet lib net s
              ((ResetRuleMatchCache md)\<lparr>md_IPCIDRMatchSource := rsi_ipCidrMatchSource r,
                                        md_IPCIDRAcceptEmpty := rsi_ipCidrAcceptEmpty r\<rparr>) B)"

lemma unions_empty_iff: "unions S T = {} \<longleftrightarrow> S = {} \<or> T = {}"
  by (auto simp: unions_def)

lemma unions_empty [simp]: "unions {} T = {}" "unions S {} = {}"
  by (simp_all add: unions_def)

lemma unions_assoc: "unions (unions S T) U = unions S (unions T U)"
  by (simp add: unions_def image_UN image_image Un_assoc) blast

lemma unions_commute: "unions S T = unions T S"
  by (auto simp: unions_def)

lemma foldr_unions_empty_iff: "foldr unions Ss T = {} \<longleftrightarrow> T = {} \<or> {} \<in> set Ss"
  by (induction Ss) (auto simp: unions_empty_iff)

lemma foldr_unions_shift: "foldr unions Ss (unions S T) = unions S (foldr unions Ss T)"
  by (induction Ss) (simp_all, metis unions_assoc unions_commute)

section \<open>The evaluator computes the meaning\<close>

locale rule_set_interface =
  fixes lib :: Lib and net :: Net
    and rsM :: "'rs RuleSetMatcher" and RS :: "'rs RuleSetMeaning"
  assumes rule_set_refines:
    "unat base < 16 \<Longrightarrow> absStates (rsM item md base) = RS item md (groupsOf base)"
begin

lemma reached_refines:
  assumes "unat st < 16"
  shows "absStates (case r_ruleSetItem r of Some item \<Rightarrow> rsM item (setDidMatch md) st
                    | None \<Rightarrow> singleRuleMatchState st) =
         (case r_ruleSetItem r of Some item \<Rightarrow> RS item (setDidMatch md) (groupsOf st)
          | None \<Rightarrow> {groupsOf st})"
  using assms by (cases "r_ruleSetItem r") (simp_all add: absStates_single rule_set_refines)

lemma default_rule_refines:
  assumes base: "unat base < 16"
  shows "absStates (fst (abstractDefaultRule_matchStatesWithBase lib net rsM r md base)) =
         semDefault lib net RS r md (groupsOf base)"
proof (cases "r_allItems r = []")
  case True
  with base show ?thesis by (simp add: abstractDefaultRule_matchStatesWithBase_def semDefault_def)
next
  case False
  define E where "E = (if r_invert r then 0 else base)"
  have E: "unat E < 16" "groupsOf E = (if r_invert r then {} else groupsOf base)"
    using base by (simp_all add: E_def)
  obtain md1 st where g: "matchGroups lib net r (md, E) = (md1, st)" by fastforce
  note G = matchGroups_touch [OF E(1) g]
  obtain ok md2 where i: "matchItems lib net (r_items r) md1 = (ok, md2)" by fastforce
  have ok: "ok = otherFields lib net r md"
    using matchItems_touch(1) [OF i] G by (simp add: otherFields_def)
  have full: "groupsOf st = (if r_invert r then {} else groupsOf base) \<union> satisfied lib net r md"
    and st: "unat st < 16" using G E by simp_all
  have failure: "absStates (invertedFailure r base) = (if r_invert r then {groupsOf base} else {})"
    using base by (simp add: invertedFailure_def)
  show ?thesis
  proof (cases ok)
    case False
    with \<open>r_allItems r \<noteq> []\<close> g i ok show ?thesis
      by (simp add: abstractDefaultRule_matchStatesWithBase_def semDefault_def E_def failure)
  next
    case True
    define md3 where "md3 = (if r_ruleSetItem r = None then md2 else setDidMatch md2)"
    have md2: "md2 = touch (required r md \<noteq> {} \<or> r_items r \<noteq> []) md"
      using matchItems_touch(2) [OF i True] G by (simp add: disj_commute)
    have md3: "md3 = touch (required r md \<noteq> {} \<or> r_items r \<noteq> [] \<or> r_ruleSetItem r \<noteq> None) md"
      by (simp add: md3_def md2 touch_def)
    have sdm: "setDidMatch md2 = setDidMatch md" by (simp add: md2)
    define S where "S = states_filter (allowedState r md3)
        (case r_ruleSetItem r of Some item \<Rightarrow> rsM item (setDidMatch md) st | None \<Rightarrow> singleRuleMatchState st)"
    define SS where "SS = {A \<in> (case r_ruleSetItem r of Some item \<Rightarrow> RS item (setDidMatch md) (groupsOf st)
          | None \<Rightarrow> {groupsOf st}). required r md \<subseteq> A}"
    have S: "absStates S = SS"
      unfolding S_def SS_def
      by (subst absStates_filter [where Q = "\<lambda>A. required r md \<subseteq> A"])
        (simp_all only: md3 allowedState_iff reached_refines [OF st])
    have deferred: "md_IgnoreDestinationIPCIDRMatch md3 \<and> S = emptyRuleMatchState \<and> \<not> md_DidMatch md3 \<and>
        length (r_destinationIPCIDRItems r) > 0 \<longleftrightarrow> onlyDeferred r md"
      if "r_invert r" "SS \<noteq> {}"
    proof -
      have "SS = {{}}" if "onlyDeferred r md"
        using that \<open>r_invert r\<close> full by (auto simp: SS_def onlyDeferred_def satisfied_def required_def)
      then show ?thesis
        using absStates_eq_empty [of S] unfolding S md3 onlyDeferred_def by auto
    qed
    have "fst (abstractDefaultRule_matchStatesWithBase lib net rsM r md base) =
        (if states_isEmpty S then invertedFailure r base
         else if r_invert r then
           (if md_IgnoreDestinationIPCIDRMatch md3 \<and> S = emptyRuleMatchState \<and> \<not> md_DidMatch md3 \<and>
               length (r_destinationIPCIDRItems r) > 0
            then states_withBase emptyRuleMatchState base else 0)
         else S)"
      using \<open>r_allItems r \<noteq> []\<close> g i True sdm
      by (cases "r_ruleSetItem r")
        (simp_all add: abstractDefaultRule_matchStatesWithBase_def E_def S_def md3_def Let_def)
    then show ?thesis
      using \<open>r_allItems r \<noteq> []\<close> ok True base S deferred failure
      by (auto simp: absStates_isEmpty semDefault_def Let_def SS_def [symmetric] full [symmetric])
  qed
qed

lemma logicalOr_refines:
  assumes "\<And>rule. rule \<in> set rules \<Longrightarrow>
      absStates (fst (HeadlessRule_matchStatesWithBase lib net rsM rule (ResetRuleCache md) base)) =
      semRule lib net RS rule (ResetRuleCache md) (groupsOf base)"
  shows "absStates (logicalOr lib net rsM rules md base s) =
         absStates s \<union> (\<Union>rule \<in> set rules. semRule lib net RS rule (ResetRuleCache md) (groupsOf base))"
  using assms by (induction rules arbitrary: s) (simp_all add: Un_assoc)

lemma logicalAnd_refines:
  assumes "\<And>rule. rule \<in> set rules \<Longrightarrow>
      absStates (fst (HeadlessRule_matchStatesWithBase lib net rsM rule (ResetRuleCache md) base)) =
      semRule lib net RS rule (ResetRuleCache md) (groupsOf base)"
  shows "(case logicalAnd lib net rsM rules md base s of None \<Rightarrow> {} | Some t \<Rightarrow> absStates t) =
         foldr unions (map (\<lambda>rule. semRule lib net RS rule (ResetRuleCache md) (groupsOf base)) rules)
           (absStates s)"
    and "logicalAnd lib net rsM rules md base s = None \<longleftrightarrow>
         {} \<in> set (map (\<lambda>rule. semRule lib net RS rule (ResetRuleCache md) (groupsOf base)) rules)"
  using assms
proof (induction rules arbitrary: s)
  case Nil
  {
    case 1
    show ?case by simp
  next
    case 2
    show ?case by simp
  }
next
  case (Cons rule rules)
  let ?n = "fst (HeadlessRule_matchStatesWithBase lib net rsM rule (ResetRuleCache md) base)"
  {
    case 1
    have n: "absStates ?n = semRule lib net RS rule (ResetRuleCache md) (groupsOf base)" using 1 by simp
    show ?case
    proof (cases "states_isEmpty ?n")
      case True
      with n show ?thesis by (simp add: absStates_isEmpty foldr_unions_empty_iff unions_empty_iff)
    next
      case False
      with 1 Cons.IH(1) [of "states_combine s ?n"] n show ?thesis
        by (simp add: unions_commute [of "absStates s"] foldr_unions_shift)
    qed
  next
    case 2
    have n: "absStates ?n = semRule lib net RS rule (ResetRuleCache md) (groupsOf base)" using 2 by simp
    show ?case
      using 2 Cons.IH(2) [of "states_combine s ?n"] n by (auto simp: absStates_isEmpty)
  }
qed

lemma rule_refines:
  "unat base < 16 \<Longrightarrow>
     absStates (fst (HeadlessRule_matchStatesWithBase lib net rsM rule md base)) =
     semRule lib net RS rule md (groupsOf base)"
proof (induction rule arbitrary: md base)
  case (DefaultRule r)
  then show ?case by (simp add: default_rule_refines)
next
  case (LogicalRule rules mode invert action)
  define E where "E = (if invert then 0 else base)"
  have E: "unat E < 16" "groupsOf E = (if invert then {} else groupsOf base)"
    using LogicalRule.prems by (simp_all add: E_def)
  have IH: "absStates (fst (HeadlessRule_matchStatesWithBase lib net rsM rule (ResetRuleCache md) E)) =
      semRule lib net RS rule (ResetRuleCache md) (groupsOf E)" if "rule \<in> set rules" for rule
    using LogicalRule.IH [OF that E(1)] .
  note And = logicalAnd_refines [of rules md E "states_withBase emptyRuleMatchState E", OF IH]
  note Or = logicalOr_refines [of rules md E 0, OF IH]
  show ?case
  proof (cases "mode = ''and''")
    case True
    let ?S = "foldr unions (map (\<lambda>rule. semRule lib net RS rule (ResetRuleCache md) (groupsOf E)) rules)
                {groupsOf E}"
    have sem: "semRule lib net RS (LogicalRule rules mode invert action) md (groupsOf base) =
        (if \<not> invert then ?S else if ?S = {} then {groupsOf base} else {})"
      using True E by (simp add: Let_def)
    show ?thesis
    proof (cases "logicalAnd lib net rsM rules md E (states_withBase emptyRuleMatchState E)")
      case None
      with And E(1) have "?S = {}" by simp
      with None True LogicalRule.prems show ?thesis
        unfolding sem by (simp add: Let_def E_def [symmetric])
    next
      case (Some t)
      with And E(1) have "absStates t = ?S" and "?S \<noteq> {}"
        by (simp_all add: foldr_unions_empty_iff)
      with Some True show ?thesis
        unfolding sem by (simp add: Let_def E_def [symmetric])
    qed
  next
    case False
    with Or E LogicalRule.prems show ?thesis
      by (auto simp: Let_def E_def [symmetric] absStates_isEmpty)
  qed
qed

end

interpretation headless: rule_set_interface lib net noRuleSet "\<lambda>_ _ _. {}" for lib net
  by unfold_locales (simp add: noRuleSet_def)

lemma absStates_foldl_merge:
  "absStates (foldl (\<lambda>acc x. states_merge acc (f x)) s xs) = absStates s \<union> (\<Union>x \<in> set xs. absStates (f x))"
  by (induction xs arbitrary: s) (simp_all add: Un_assoc)

lemma RuleSet_refines:
  "unat base < 16 \<Longrightarrow>
     absStates (RuleSet_matchStatesWithBase lib net s md base) = semRuleSet lib net s md (groupsOf base)"
  by (simp add: RuleSet_matchStatesWithBase_def semRuleSet_def absStates_foldl_merge headless.rule_refines)

lemma RuleSetItem_refines:
  assumes "unat base < 16"
  shows "absStates (RuleSetItem_matchStatesWithBase lib net store item md base) =
         semRuleSetItem lib net store item md (groupsOf base)"
proof -
  define f where "f p = (case store p of None \<Rightarrow> 0
      | Some s \<Rightarrow> RuleSet_matchStatesWithBase lib net s
          ((ResetRuleMatchCache md)\<lparr>md_IPCIDRMatchSource := rsi_ipCidrMatchSource item,
                                    md_IPCIDRAcceptEmpty := rsi_ipCidrAcceptEmpty item\<rparr>) base)" for p
  have "RuleSetItem_matchStatesWithBase lib net store item md base =
        foldl (\<lambda>acc p. states_merge acc (f p)) 0 (rsi_setList item)"
    unfolding RuleSetItem_matchStatesWithBase_def
    by (rule foldl_cong) (auto simp: f_def states_merge_def split: option.split)
  then show ?thesis
    using assms by (simp add: absStates_foldl_merge semRuleSetItem_def f_def)
      (auto simp: RuleSet_refines split: option.splits)
qed

interpretation router: rule_set_interface lib net
  "RuleSetItem_matchStatesWithBase lib net store" "semRuleSetItem lib net store" for lib net store
  by unfold_locales (rule RuleSetItem_refines)

section \<open>When a rule matches\<close>

abbreviation semRouter ::
  "Lib \<Rightarrow> Net \<Rightarrow> RuleSetStore \<Rightarrow> Rule \<Rightarrow> InboundContext \<Rightarrow> Group set \<Rightarrow> Group set set" where
  "semRouter lib net store \<equiv> semRule lib net (semRuleSetItem lib net store)"

lemma Rule_Match_sem: "fst (Rule_Match lib net store rule md) \<longleftrightarrow> semRouter lib net store rule md {} \<noteq> {}"
  using router.rule_refines [of 0 lib net store rule md]
  by (simp add: Rule_Match_def Rule_matchStates_def absStates_isEmpty split_beta)

end
