(* ===== verification/Sample.thy ===== *)
theory Sample
  imports Metadata
begin

text \<open>
  A concrete instance of the functions outside the repository and a network snapshot, for the
  witnesses: addresses decide the \<open>Socksaddr\<close> predicates, a domain matcher looks for the domain in
  its lists, an address set is the union of the prefixes and addresses added to it.
\<close>

fun opContains :: "IPSetOp \<Rightarrow> Addr \<Rightarrow> bool" where
  "opContains (AddPrefix p) a = prefixContains p a"
| "opContains (AddAddr b) a = (a = b)"

definition sampleLib :: Lib where
  "sampleLib =
     \<lparr>IsIP = (\<lambda>s. addrIsValid (sa_Addr s)), IsIPv4 = (\<lambda>s. addrIs4 (sa_Addr s)),
      IsIPv6 = (\<lambda>s. addrIs6 (sa_Addr s)), IsDomain = (\<lambda>s. sa_Fqdn s \<noteq> ''''),
      IsValid = (\<lambda>s. addrIsValid (sa_Addr s) \<or> sa_Fqdn s \<noteq> ''''),
      IsDomainName = (\<lambda>d. d \<noteq> ''''),
      ParseSocksaddrHostPort = (\<lambda>h p. \<lparr>sa_Addr = AddrNone, sa_Port = p, sa_Fqdn = h\<rparr>),
      IsPublicAddr = (\<lambda>a. \<not> prefixContains (Prefix (Addr4 0x0A000000) 8) a),
      unicodeToLower = (\<lambda>s. s), unicodeEqualFold = (=),
      domainNewMatcher = (\<lambda>ds ss _ d. d \<in> set ds \<or> d \<in> set ss),
      domainNewAdGuardMatcher = (\<lambda>ds d. d \<in> set ds),
      regexpCompile = (\<lambda>r. Inr (\<lambda>s. s = r)),
      ParsePrefix = (\<lambda>_. Inl (E_Lib ''prefix'')), ParseAddr = (\<lambda>_. Inl (E_Lib ''addr'')),
      builderIPSet = (\<lambda>ops. Inr (\<lambda>a. list_ex (\<lambda>op. opContains op a) ops)),
      IsAndroid = False\<rparr>"

definition sampleNet :: Net where
  "sampleNet =
     \<lparr>net_DefaultNetworkInterface = None, net_NetworkInterfaces = [], net_Interfaces = [],
      net_DefaultInterface = None, net_SSID = '''', net_BSSID = '''', net_ClashMode = ''Rule''\<rparr>"

text \<open>A TCP connection of 10.0.0.2 to port 443 of a domain.\<close>

definition sampleContext :: "string \<Rightarrow> InboundContext" where
  "sampleContext domain =
     emptyInboundContext\<lparr>md_Inbound := ''in'', md_Network := ''tcp'',
       md_Source := \<lparr>sa_Addr = Addr4 0x0A000002, sa_Port = 40000, sa_Fqdn = ''''\<rparr>,
       md_Destination := \<lparr>sa_Addr = AddrNone, sa_Port = 443, sa_Fqdn = domain\<rparr>\<rparr>"

end
