(* ===== verification/Rule_Props.thy ===== *)
theory Rule_Props
  imports Rule_Sem Sample
begin

text \<open>
  What the rules promise to the people who write them (\<open>docs/configuration/route/rule.md\<close>,
  \<open>docs/configuration/dns/rule.md\<close>), derived from the meaning of rules in \<open>Rule_Sem\<close>: the
  documented formula of a default rule, the merging of rule-set branches, boolean logic of logical
  and inverted rules, and the two phases of DNS rules.
\<close>

section \<open>The documented formula\<close>

definition allGroups :: "Group list" where
  "allGroups = [GSourceAddress, GSourcePort, GDestinationAddress, GDestinationPort]"

lemma set_allGroups [simp]: "set allGroups = UNIV"
  using Group.exhaust by (auto simp: allGroups_def)

text \<open>
  Within a group the items are alternatives, the groups and the other fields are all required, and a
  group without items is no condition.
\<close>

definition documentedMatch :: "Lib \<Rightarrow> Net \<Rightarrow> 'rs abstractDefaultRule \<Rightarrow> InboundContext \<Rightarrow> bool" where
  "documentedMatch lib net r md =
     (list_all (\<lambda>g. groupItems r md g = [] \<or> list_ex (\<lambda>it. RuleItem_Match lib net it md) (groupItems r md g))
        allGroups \<and>
      list_all (\<lambda>it. RuleItem_Match lib net it md) (r_items r))"

text \<open>Rules as the constructors build them: \<open>allItems\<close> is empty only if everything is.\<close>

definition wellFormedRule :: "'rs abstractDefaultRule \<Rightarrow> bool" where
  "wellFormedRule r =
     (r_allItems r \<noteq> [] \<or>
      r_items r = [] \<and> r_sourceAddressItems r = [] \<and> r_sourcePortItems r = [] \<and>
      r_destinationAddressItems r = [] \<and> r_destinationIPCIDRItems r = [] \<and>
      r_destinationPortItems r = [] \<and> r_ruleSetItem r = None)"

lemma documentedMatch_iff:
  "documentedMatch lib net r md \<longleftrightarrow> required r md \<subseteq> satisfied lib net r md \<and> otherFields lib net r md"
  by (auto simp: documentedMatch_def required_def satisfied_def otherFields_def list_all_iff list_ex_iff)

lemma wellFormed_empty:
  "wellFormedRule r \<Longrightarrow> r_allItems r = [] \<Longrightarrow>
     required r md = {} \<and> satisfied lib net r md = {} \<and> otherFields lib net r md \<and> r_ruleSetItem r = None"
proof -
  assume "wellFormedRule r" and "r_allItems r = []"
  then have "groupItems r md g = []" for g
    by (cases g) (simp_all add: groupItems_def wellFormedRule_def)
  with \<open>wellFormedRule r\<close> \<open>r_allItems r = []\<close> show ?thesis
    by (simp add: required_def satisfied_def otherFields_def wellFormedRule_def)
qed

lemma semDefault_plain:
  assumes "wellFormedRule r" and "\<not> r_invert r" and "r_ruleSetItem r = None"
  shows "semDefault lib net RS r md B =
     (if otherFields lib net r md \<and> required r md \<subseteq> B \<union> satisfied lib net r md
      then {B \<union> satisfied lib net r md} else {})"
proof (cases "r_allItems r = []")
  case True
  with wellFormed_empty [OF assms(1) True] show ?thesis by (simp add: semDefault_def)
next
  case False
  with assms show ?thesis by (auto simp: semDefault_def Let_def)
qed

lemma DefaultRule_Match_plain:
  assumes "wellFormedRule r" and "\<not> r_invert r" and "r_ruleSetItem r = None"
  shows "fst (Rule_Match lib net store (DefaultRule r) md) \<longleftrightarrow> documentedMatch lib net r md"
  by (auto simp: Rule_Match_sem semDefault_plain [OF assms] documentedMatch_iff)

section \<open>Merging of rule-set branches\<close>

text \<open>
  The context in which the branches of the included rule-sets are evaluated, and the formula of the
  outer rule and one branch merged group by group.
\<close>

definition nestedContext :: "RuleSetItem \<Rightarrow> InboundContext \<Rightarrow> InboundContext" where
  "nestedContext item md =
     (ResetRuleMatchCache md)\<lparr>md_IPCIDRMatchSource := rsi_ipCidrMatchSource item,
                              md_IPCIDRAcceptEmpty := rsi_ipCidrAcceptEmpty item\<rparr>"

definition mergedMatch ::
  "Lib \<Rightarrow> Net \<Rightarrow> 'a abstractDefaultRule \<Rightarrow> InboundContext \<Rightarrow> 'b abstractDefaultRule \<Rightarrow> InboundContext \<Rightarrow> bool" where
  "mergedMatch lib net outer omd inner imd =
     (list_all (\<lambda>g.
        groupItems outer omd g = [] \<and> groupItems inner imd g = [] \<or>
        list_ex (\<lambda>it. RuleItem_Match lib net it omd) (groupItems outer omd g) \<or>
        list_ex (\<lambda>it. RuleItem_Match lib net it imd) (groupItems inner imd g)) allGroups \<and>
      list_all (\<lambda>it. RuleItem_Match lib net it omd) (r_items outer) \<and>
      list_all (\<lambda>it. RuleItem_Match lib net it imd) (r_items inner))"

text \<open>The rule-sets of an item, and the branches they hold: plain default rules.\<close>

definition branches :: "RuleSetStore \<Rightarrow> RuleSetItem \<Rightarrow> unit HeadlessRule list" where
  "branches store item =
     concat (map (\<lambda>p. case store p of None \<Rightarrow> [] | Some s \<Rightarrow> ls_rules s) (rsi_setList item))"

fun plainBranch :: "unit HeadlessRule \<Rightarrow> bool" where
  "plainBranch (DefaultRule b) = (wellFormedRule b \<and> \<not> r_invert b \<and> r_ruleSetItem b = None)"
| "plainBranch (LogicalRule _ _ _ _) = False"

lemma nestedContext_setDidMatch [simp]: "nestedContext item (setDidMatch md) = nestedContext item md"
  by (simp add: nestedContext_def ResetRuleMatchCache_def setDidMatch_def)

lemma reset_nestedContext [simp]: "ResetRuleMatchCache (nestedContext item md) = nestedContext item md"
  by (simp add: nestedContext_def ResetRuleMatchCache_def)

lemma semRuleSetItem_branches:
  "semRuleSetItem lib net store item md B =
     (\<Union>rule \<in> set (branches store item). semRule lib net (\<lambda>_ _ _. {}) rule (nestedContext item md) B)"
proof -
  have "semRuleSetItem lib net store item md B =
    (\<Union>p \<in> set (rsi_setList item). case store p of None \<Rightarrow> {} | Some s \<Rightarrow>
       (\<Union>rule \<in> set (ls_rules s). semRule lib net (\<lambda>_ _ _. {}) rule (nestedContext item md) B))"
    unfolding semRuleSetItem_def semRuleSet_def nestedContext_def [symmetric] reset_nestedContext ..
  also have "\<dots> = (\<Union>rule \<in> set (branches store item).
       semRule lib net (\<lambda>_ _ _. {}) rule (nestedContext item md) B)"
  proof -
    have "(case store p of None \<Rightarrow> {} | Some s \<Rightarrow> (\<Union>rule \<in> set (ls_rules s). f rule)) =
        (\<Union>rule \<in> set (case store p of None \<Rightarrow> [] | Some s \<Rightarrow> ls_rules s). f rule)"
      for p and f :: "unit HeadlessRule \<Rightarrow> Group set set"
      by (cases "store p") simp_all
    then show ?thesis by (simp add: branches_def)
  qed
  finally show ?thesis .
qed

lemma mergedMatch_iff:
  "mergedMatch lib net outer omd inner imd \<longleftrightarrow>
     required outer omd \<union> required inner imd \<subseteq> satisfied lib net outer omd \<union> satisfied lib net inner imd \<and>
     otherFields lib net outer omd \<and> otherFields lib net inner imd"
  by (auto simp: mergedMatch_def required_def satisfied_def otherFields_def list_all_iff list_ex_iff)

lemma DefaultRule_Match_merged:
  assumes wf: "wellFormedRule r" and inv: "\<not> r_invert r" and rs: "r_ruleSetItem r = Some item"
    and plain: "list_all plainBranch (branches store item)"
  shows "fst (Rule_Match lib net store (DefaultRule r) md) \<longleftrightarrow>
    list_ex (\<lambda>b. case b of DefaultRule inner \<Rightarrow> mergedMatch lib net r md inner (nestedContext item md)
                 | LogicalRule _ _ _ _ \<Rightarrow> False) (branches store item)"
proof -
  let ?P = "\<lambda>b. case b of DefaultRule inner \<Rightarrow> mergedMatch lib net r md inner (nestedContext item md)
                | LogicalRule _ _ _ _ \<Rightarrow> False"
  let ?full = "satisfied lib net r md"
  have ne: "r_allItems r \<noteq> []" using wf rs by (auto simp: wellFormedRule_def)
  have branch: "(\<exists>A \<in> semRule lib net (\<lambda>_ _ _. {}) b (nestedContext item md) ?full. required r md \<subseteq> A)
      \<and> otherFields lib net r md \<longleftrightarrow> ?P b" if "b \<in> set (branches store item)" for b
  proof (cases b)
    case (DefaultRule inner)
    with plain that have pb: "wellFormedRule inner" "\<not> r_invert inner" "r_ruleSetItem inner = None"
      by (auto simp: list_all_iff)
    show ?thesis
      unfolding DefaultRule by (auto simp: semDefault_plain [OF pb] mergedMatch_iff)
  next
    case (LogicalRule x1 x2 x3 x4)
    with plain that show ?thesis by (auto simp: list_all_iff)
  qed
  have "semRouter lib net store (DefaultRule r) md {} \<noteq> {} \<longleftrightarrow>
      otherFields lib net r md \<and>
      (\<exists>b \<in> set (branches store item).
         \<exists>A \<in> semRule lib net (\<lambda>_ _ _. {}) b (nestedContext item md) ?full. required r md \<subseteq> A)"
    using ne inv rs by (auto simp: semDefault_def Let_def semRuleSetItem_branches)
  also have "\<dots> \<longleftrightarrow> (\<exists>b \<in> set (branches store item). ?P b)"
    using branch by blast
  finally show ?thesis by (simp add: Rule_Match_sem list_ex_iff)
qed

section \<open>Boolean structure\<close>

lemma LogicalRule_Match:
  "fst (Rule_Match lib net store (LogicalRule rules mode invert action) md) \<longleftrightarrow>
     invert \<noteq> (if mode = ''and''
               then list_all (\<lambda>rule. fst (Rule_Match lib net store rule (ResetRuleCache md))) rules
               else list_ex (\<lambda>rule. fst (Rule_Match lib net store rule (ResetRuleCache md))) rules)"
proof -
  let ?sem = "\<lambda>rule. semRouter lib net store rule (ResetRuleCache md) {}"
  have "foldr unions (map ?sem rules) {{}} = {} \<longleftrightarrow> \<not> (\<forall>rule \<in> set rules. ?sem rule \<noteq> {})"
    by (auto simp: foldr_unions_empty_iff image_iff simp del: semRule.simps)
  moreover have "\<Union> (set (map ?sem rules)) = {} \<longleftrightarrow> \<not> (\<exists>rule \<in> set rules. ?sem rule \<noteq> {})"
    by auto
  ultimately show ?thesis
    by (cases invert; cases "mode = ''and''")
      (simp_all add: Rule_Match_sem Let_def list_all_iff list_ex_iff)
qed

lemma DefaultRule_Match_invert:
  assumes "r_allItems r \<noteq> []" and "\<not> md_IgnoreDestinationIPCIDRMatch md"
  shows "fst (Rule_Match lib net store (DefaultRule (r\<lparr>r_invert := True\<rparr>)) md) \<longleftrightarrow>
     \<not> fst (Rule_Match lib net store (DefaultRule (r\<lparr>r_invert := False\<rparr>)) md)"
proof -
  have g: "groupItems (r\<lparr>r_invert := b\<rparr>) md g = groupItems r md g" for b g
    by (cases g) (simp_all add: groupItems_def)
  have "required (r\<lparr>r_invert := b\<rparr>) md = required r md" "satisfied lib net (r\<lparr>r_invert := b\<rparr>) md = satisfied lib net r md"
    "otherFields lib net (r\<lparr>r_invert := b\<rparr>) md = otherFields lib net r md" for b
    by (simp_all add: required_def satisfied_def otherFields_def g)
  then show ?thesis
    using assms by (auto simp: Rule_Match_sem semDefault_def Let_def onlyDeferred_def)
qed

section \<open>DNS rules\<close>

lemma DNSRule_Match_sem:
  "fst (DNSRule_Match lib net store rule md) \<longleftrightarrow>
     semRouter lib net store rule (md\<lparr>md_IgnoreDestinationIPCIDRMatch := True\<rparr>) {} \<noteq> {}"
  using router.rule_refines [of 0 lib net store rule "md\<lparr>md_IgnoreDestinationIPCIDRMatch := True\<rparr>"]
  by (simp add: DNSRule_Match_def Rule_matchStates_def absStates_isEmpty split_beta)

text \<open>Before the lookup the destination address items belong to no group.\<close>

lemma groupItems_ignored:
  "groupItems r (md\<lparr>md_IgnoreDestinationIPCIDRMatch := True\<rparr>) g = ownItems r g"
  by (simp add: groupItems_def cidrGroup_def)

lemma DNSRule_Match_plain:
  assumes "wellFormedRule r" and "\<not> r_invert r" and "r_ruleSetItem r = None"
  shows "fst (DNSRule_Match lib net store (DefaultRule r) md) \<longleftrightarrow>
     (\<forall>g. ownItems r g = [] \<or> (\<exists>it \<in> set (ownItems r g). RuleItem_Match lib net it md)) \<and>
     (\<forall>it \<in> set (r_items r). RuleItem_Match lib net it md)"
  by (auto simp: DNSRule_Match_sem semDefault_plain [OF assms] required_def satisfied_def otherFields_def
      groupItems_ignored)

lemma DNSRule_Match_onlyDeferred:
  assumes "r_invert r" and "r_destinationIPCIDRItems r \<noteq> []" and "r_allItems r \<noteq> []" and "r_items r = []"
    and "\<And>g. ownItems r g = []" and "r_ruleSetItem r = None" and "\<not> md_DidMatch md"
  shows "fst (DNSRule_Match lib net store (DefaultRule r) md)"
proof -
  let ?md = "md\<lparr>md_IgnoreDestinationIPCIDRMatch := True\<rparr>"
  have "onlyDeferred r ?md"
    using assms by (simp add: onlyDeferred_def required_def groupItems_ignored)
  then show ?thesis
    using assms by (simp add: DNSRule_Match_sem semDefault_def Let_def)
qed

section \<open>What an evaluation does to the context\<close>

lemma matchItems_snd: "\<exists>c. snd (matchItems lib net items md) = touch c md"
proof (induction items arbitrary: md)
  case Nil
  then show ?case using touch_simps(7) by (metis matchItems.simps(1) snd_conv)
next
  case (Cons it items)
  have eq: "setDidMatch md = touch True md" by (simp add: touch_def)
  obtain c where "snd (matchItems lib net items (setDidMatch md)) = touch c (setDidMatch md)"
    using Cons by blast
  then show ?case by (auto simp: Let_def eq)
qed

lemma touch_closed:
  assumes "\<exists>c. m = touch c md" and "m' \<in> {m, setDidMatch m}"
  shows "\<exists>c. m' = touch c md"
proof -
  have "setDidMatch md = touch True md" by (simp add: touch_def)
  with assms show ?thesis by auto
qed

lemma matchGroup_fst: "fst (matchGroup lib net items flag x) \<in> {fst x, setDidMatch (fst x)}"
  by (cases x) (simp add: matchGroup_def Let_def)

lemma matchIPCIDRGroup_fst: "fst (matchIPCIDRGroup lib net ap r flag x) \<in> {fst x, setDidMatch (fst x)}"
  by (cases x) (simp add: matchIPCIDRGroup_def Let_def)

lemma matchGroups_fst: "\<exists>c. fst (matchGroups lib net r (md, st)) = touch c md"
proof -
  have "\<exists>c. fst (md, st) = touch c md" using touch_simps(7) by (metis fst_conv)
  then show ?thesis
    unfolding matchGroups_def Let_def
    by (intro touch_closed [OF _ matchGroup_fst] touch_closed [OF _ matchIPCIDRGroup_fst])
qed

lemma abstractDefaultRule_snd:
  "\<exists>c. snd (abstractDefaultRule_matchStatesWithBase lib net rsM r md base) = touch c md"
proof (cases "r_allItems r = []")
  case True
  then have "snd (abstractDefaultRule_matchStatesWithBase lib net rsM r md base) = touch False md"
    by (simp add: abstractDefaultRule_matchStatesWithBase_def)
  then show ?thesis ..
next
  case False
  obtain md1 st where g: "matchGroups lib net r (md, if r_invert r then 0 else base) = (md1, st)" by fastforce
  obtain ok md2 where i: "matchItems lib net (r_items r) md1 = (ok, md2)" by fastforce
  have "\<exists>c. md1 = touch c md"
    using g matchGroups_fst [of lib net r md] by (metis fst_conv)
  moreover have "\<exists>c. md2 = touch c md1" using matchItems_snd [of lib net "r_items r" md1] i by simp
  ultimately obtain c where c: "md2 = touch c md" by auto
  have "snd (abstractDefaultRule_matchStatesWithBase lib net rsM r md base) \<in> {md2, setDidMatch md2}"
    using False g i
    by (cases ok; cases "r_ruleSetItem r") (simp_all add: abstractDefaultRule_matchStatesWithBase_def Let_def)
  then show ?thesis using touch_closed [of md2 md] c by blast
qed

lemma Rule_Match_snd: "\<exists>c. snd (Rule_Match lib net store rule md) = touch c md"
proof (cases rule)
  case (DefaultRule r)
  then show ?thesis
    using abstractDefaultRule_snd by (simp add: Rule_Match_def Rule_matchStates_def split_beta)
next
  case (LogicalRule rules mode invert action)
  then have "snd (Rule_Match lib net store rule md) = touch False md"
    by (simp add: Rule_Match_def Rule_matchStates_def split_beta Let_def)
  then show ?thesis ..
qed

section \<open>Properties\<close>

text \<open>The rules and the rule-set of the witnesses.\<close>

definition sampleDomainRule :: "string list \<Rightarrow> 'rs option \<Rightarrow> 'rs abstractDefaultRule" where
  "sampleDomainRule domains rs =
     \<lparr>r_items = [NewNetworkItem [''tcp'']], r_sourceAddressItems = [], r_sourcePortItems = [],
      r_destinationAddressItems = [DomainItem (\<lambda>d. d \<in> set domains)],
      r_destinationIPCIDRItems = [], r_destinationPortItems = [NewPortItem False [443]],
      r_allItems = [InItems 0, InDestinationAddress 0, InDestinationPort 0],
      r_ruleSetItem = rs, r_invert = False, r_action = None\<rparr>"

definition sampleFilterRule :: "string list \<Rightarrow> 'rs abstractDefaultRule" where
  "sampleFilterRule domains = (sampleDomainRule domains None)\<lparr>r_destinationIPCIDRItems := [IPIsPrivateItem False]\<rparr>"

definition sampleAddressRule :: "'rs abstractDefaultRule" where
  "sampleAddressRule =
     \<lparr>r_items = [], r_sourceAddressItems = [], r_sourcePortItems = [],
      r_destinationAddressItems = [], r_destinationIPCIDRItems = [IPIsPrivateItem False],
      r_destinationPortItems = [], r_allItems = [InDestinationIPCIDR 0],
      r_ruleSetItem = None, r_invert = True, r_action = None\<rparr>"

definition sampleStore :: RuleSetStore where
  "sampleStore =
     [0 \<mapsto> \<lparr>ls_tag = ''set'', ls_rules = [DefaultRule (sampleDomainRule [''b.org''] None)],
           ls_metadata = \<lparr>rm_ContainsProcessRule = False, rm_ContainsWIFIRule = False, rm_ContainsIPCIDRRule = False\<rparr>,
           ls_fileFormat = '''', ls_callbacks = [], ls_refs = 1\<rparr>]"

definition sampleItem :: RuleSetItem where
  "sampleItem =
     \<lparr>rsi_tagList = [''set''], rsi_setList = [0], rsi_ipCidrMatchSource = False, rsi_ipCidrAcceptEmpty = False\<rparr>"

lemmas sample_defs = sampleDomainRule_def sampleFilterRule_def sampleAddressRule_def sampleStore_def
  sampleItem_def sampleLib_def sampleNet_def sampleContext_def emptyInboundContext_def emptySocksaddr_def
  NewNetworkItem_def NewPortItem_def

lemmas eval_simps = sample_defs documentedMatch_def mergedMatch_def wellFormedRule_def allGroups_def
  groupItems_def cidrGroup_def item_Match_defs branches_def nestedContext_def ResetRuleMatchCache_def
  stringsToLower_def isASCII_def lowerASCII_def

text \<open>
  C1: the bit-mask evaluator of a rule, nested logical rules and included rule-sets computes exactly
  the meaning of the rule: the set of its match states is, group by group, the set of ways in which
  the rule can be satisfied on top of the groups already satisfied outside.
\<close>

theorem rule_evaluation_refines_meaning:
  assumes "unat base < 16"
  shows "absStates (fst (HeadlessRule_matchStatesWithBase lib net
           (RuleSetItem_matchStatesWithBase lib net store) rule md base)) =
         semRouter lib net store rule md (groupsOf base)"
  using assms by (rule router.rule_refines)

theorem rule_evaluation_refines_meaning_witness:
  "absStates (fst (HeadlessRule_matchStatesWithBase sampleLib sampleNet
     (RuleSetItem_matchStatesWithBase sampleLib sampleNet sampleStore)
     (DefaultRule (sampleDomainRule [''a.org''] (Some sampleItem))) (sampleContext ''b.org'') 5)) =
   semRouter sampleLib sampleNet sampleStore
     (DefaultRule (sampleDomainRule [''a.org''] (Some sampleItem))) (sampleContext ''b.org'') (groupsOf 5)"
  by (rule rule_evaluation_refines_meaning) simp

text \<open>
  C2: a default rule that is not inverted and includes no rule-set matches exactly when every
  non-empty group of fields has a matching item and all the other fields match.
\<close>

theorem default_rule_documented_formula:
  assumes "wellFormedRule r" and "\<not> r_invert r" and "r_ruleSetItem r = None"
  shows "fst (Rule_Match lib net store (DefaultRule r) md) = documentedMatch lib net r md"
  using DefaultRule_Match_plain [OF assms] by simp

theorem default_rule_documented_formula_witness:
  "fst (Rule_Match sampleLib sampleNet sampleStore (DefaultRule (sampleDomainRule [''a.org''] None)) (sampleContext ''a.org'')) \<and>
   \<not> fst (Rule_Match sampleLib sampleNet sampleStore (DefaultRule (sampleDomainRule [''a.org''] None)) (sampleContext ''c.org''))"
proof -
  let ?r = "sampleDomainRule [''a.org''] None :: RuleSetItem abstractDefaultRule"
  have h: "wellFormedRule ?r" "\<not> r_invert ?r" "r_ruleSetItem ?r = None"
    by (simp_all add: eval_simps)
  show ?thesis
    unfolding default_rule_documented_formula [OF h] by (simp add: eval_simps)
qed

text \<open>
  C3: a default rule with rule-sets that is well-formed (as the constructors build it) and not inverted
  matches exactly when, for some branch of the included rule-sets, the fields of the rule and of the
  branch merged group by group match; the branch is evaluated with a fresh match cache and with the
  address options of the including item. The branches must be well-formed default rules that are not
  inverted; logical and inverted branches are not covered.
\<close>

theorem rule_set_branches_merge:
  assumes "wellFormedRule r" and "\<not> r_invert r" and "r_ruleSetItem r = Some item"
    and "list_all plainBranch (branches store item)"
  shows "fst (Rule_Match lib net store (DefaultRule r) md) =
    list_ex (\<lambda>b. case b of DefaultRule inner \<Rightarrow> mergedMatch lib net r md inner (nestedContext item md)
                 | LogicalRule _ _ _ _ \<Rightarrow> False) (branches store item)"
  using DefaultRule_Match_merged [OF assms] by simp

theorem rule_set_branches_merge_witness:
  "fst (Rule_Match sampleLib sampleNet sampleStore (DefaultRule (sampleDomainRule [''a.org''] (Some sampleItem))) (sampleContext ''b.org'')) \<and>
   \<not> fst (Rule_Match sampleLib sampleNet sampleStore (DefaultRule (sampleDomainRule [''a.org''] (Some sampleItem))) (sampleContext ''c.org''))"
proof -
  let ?r = "sampleDomainRule [''a.org''] (Some sampleItem)"
  have h: "wellFormedRule ?r" "\<not> r_invert ?r" "r_ruleSetItem ?r = Some sampleItem"
    "list_all plainBranch (branches sampleStore sampleItem)"
    by (simp_all add: eval_simps)
  show ?thesis
    unfolding rule_set_branches_merge [OF h] by (simp add: eval_simps)
qed

text \<open>
  A logical rule is the conjunction or the disjunction of its sub-rules, each evaluated on the
  context with a fresh cache, negated when it is inverted.
\<close>

theorem logical_rule_is_boolean:
  "fst (Rule_Match lib net store (LogicalRule rules mode invert action) md) =
     (invert \<noteq> (if mode = ''and''
               then list_all (\<lambda>rule. fst (Rule_Match lib net store rule (ResetRuleCache md))) rules
               else list_ex (\<lambda>rule. fst (Rule_Match lib net store rule (ResetRuleCache md))) rules))"
  using LogicalRule_Match by blast

text \<open>
  Outside the first phase of DNS matching, inverting a default rule with at least one item
  negates it, whatever rule-sets it includes.
\<close>

theorem inverted_default_rule_negates:
  assumes "r_allItems r \<noteq> []" and "\<not> md_IgnoreDestinationIPCIDRMatch md"
  shows "fst (Rule_Match lib net store (DefaultRule (r\<lparr>r_invert := True\<rparr>)) md) =
     (\<not> fst (Rule_Match lib net store (DefaultRule (r\<lparr>r_invert := False\<rparr>)) md))"
  using DefaultRule_Match_invert [OF assms] by blast

theorem inverted_default_rule_negates_witness:
  "fst (Rule_Match sampleLib sampleNet sampleStore
     (DefaultRule (sampleDomainRule [''a.org''] (Some sampleItem)\<lparr>r_invert := True\<rparr>)) (sampleContext ''b.org'')) =
   (\<not> fst (Rule_Match sampleLib sampleNet sampleStore
     (DefaultRule (sampleDomainRule [''a.org''] (Some sampleItem)\<lparr>r_invert := False\<rparr>)) (sampleContext ''b.org'')))"
  by (rule inverted_default_rule_negates) (simp_all add: sample_defs)

text \<open>
  Evaluating a rule changes nothing of the connection's context but the flag that records that
  some group was compared.
\<close>

theorem rule_evaluation_frames_context:
  "snd (Rule_Match lib net store rule md) \<in> {md, md\<lparr>md_DidMatch := True\<rparr>}"
  using Rule_Match_snd [of lib net store rule md] by (auto simp: touch_def setDidMatch_def)

text \<open>
  An inverted DNS rule made of address fields only is accepted before the lookup, and decides on
  the looked-up addresses afterwards: the response is kept exactly when no address field matches it.
\<close>

theorem dns_inverted_address_rule_deferred:
  assumes "r_invert r" and "r_destinationIPCIDRItems r \<noteq> []" and "r_allItems r \<noteq> []" and "r_items r = []"
    and "list_all (\<lambda>g. ownItems r g = []) allGroups" and "r_ruleSetItem r = None" and "\<not> md_DidMatch md"
    and "\<not> md_IgnoreDestinationIPCIDRMatch md"
  shows "fst (DNSRule_Match lib net store (DefaultRule r) md) \<and>
    fst (DNSRule_MatchAddressLimit lib net store (DefaultRule r) md) =
      (\<not> list_ex (\<lambda>it. RuleItem_Match lib net it md) (r_destinationIPCIDRItems r))"
proof
  have own: "ownItems r g = []" for g using assms(5) by (simp add: list_all_iff)
  show "fst (DNSRule_Match lib net store (DefaultRule r) md)"
    by (rule DNSRule_Match_onlyDeferred) (use assms own in auto)
  show "fst (DNSRule_MatchAddressLimit lib net store (DefaultRule r) md) =
      (\<not> list_ex (\<lambda>it. RuleItem_Match lib net it md) (r_destinationIPCIDRItems r))"
  proof -
    let ?p = "r\<lparr>r_invert := False\<rparr>"
    have r: "r\<lparr>r_invert := True\<rparr> = r" using assms(1) by simp
    have own': "ownItems ?p g = []" for g using own [of g] by (cases g) simp_all
    obtain c where c: "cidrGroup md = Some c" using assms(8) by (simp add: cidrGroup_def)
    have "documentedMatch lib net ?p md =
        list_ex (\<lambda>it. RuleItem_Match lib net it md) (r_destinationIPCIDRItems r)"
      using assms(2,4) c by (simp add: documentedMatch_def groupItems_def own' list_all_iff)
    then show ?thesis
      using DefaultRule_Match_invert [OF assms(3,8), of lib net store]
        DefaultRule_Match_plain [of ?p lib net store md] assms(3,6)
      by (simp add: DNSRule_MatchAddressLimit_def r wellFormedRule_def)
  qed
qed

theorem dns_inverted_address_rule_deferred_witness:
  "fst (DNSRule_Match sampleLib sampleNet sampleStore (DefaultRule sampleAddressRule) (sampleContext ''a.org'')) \<and>
   fst (DNSRule_MatchAddressLimit sampleLib sampleNet sampleStore (DefaultRule sampleAddressRule) (sampleContext ''a.org'')) =
     (\<not> list_ex (\<lambda>it. RuleItem_Match sampleLib sampleNet it (sampleContext ''a.org''))
         (r_destinationIPCIDRItems (sampleAddressRule :: RuleSetItem abstractDefaultRule)))"
  by (rule dns_inverted_address_rule_deferred) (simp_all add: sample_defs allGroups_def)

text \<open>
  When a domain field of a DNS rule matches the query, its address fields filter nothing: they
  are alternatives of the same group, and the decision on the response is that of the rule without
  them.
\<close>

theorem dns_domain_match_voids_address_filter:
  assumes "wellFormedRule r" and "\<not> r_invert r" and "r_ruleSetItem r = None"
    and "list_ex (\<lambda>it. RuleItem_Match lib net it md) (r_destinationAddressItems r)"
    and "\<not> md_IPCIDRMatchSource md"
  shows "fst (DNSRule_MatchAddressLimit lib net store (DefaultRule r) md) =
    fst (DNSRule_MatchAddressLimit lib net store (DefaultRule (r\<lparr>r_destinationIPCIDRItems := []\<rparr>)) md)"
proof -
  let ?p = "r\<lparr>r_destinationIPCIDRItems := []\<rparr>"
  let ?ok = "\<lambda>r g. groupItems r md g = [] \<or> list_ex (\<lambda>it. RuleItem_Match lib net it md) (groupItems r md g)"
  have wf: "wellFormedRule ?p" using assms(1) by (auto simp: wellFormedRule_def)
  have "?ok r g = ?ok ?p g" for g
    using assms(4,5) by (cases g) (auto simp: groupItems_def cidrGroup_def)
  then have "documentedMatch lib net r md = documentedMatch lib net ?p md"
    by (simp add: documentedMatch_def)
  then show ?thesis
    using assms wf DefaultRule_Match_plain [of ?p lib net store md]
    by (simp add: DNSRule_MatchAddressLimit_def DefaultRule_Match_plain)
qed

theorem dns_domain_match_voids_address_filter_witness:
  "fst (DNSRule_MatchAddressLimit sampleLib sampleNet sampleStore
     (DefaultRule (sampleFilterRule [''a.org''])) (sampleContext ''a.org'')) =
   fst (DNSRule_MatchAddressLimit sampleLib sampleNet sampleStore
     (DefaultRule (sampleFilterRule [''a.org'']\<lparr>r_destinationIPCIDRItems := []\<rparr>)) (sampleContext ''a.org''))"
  by (rule dns_domain_match_voids_address_filter) (simp_all add: eval_simps)

end
