(* ===== verification/Rule_Build_Props.thy ===== *)
theory Rule_Build_Props
  imports Rule_Build Rule_Props
begin

text \<open>
  What construction guarantees: \<open>allItems\<close> lists every item of every group exactly once, each group
  holds items of its kind only, and a rule built from options matches by the formula of the
  documentation over the configured fields.
\<close>

section \<open>The fields of a rule under construction\<close>

lemmas add_defs = addItems_def addSourceAddress_def addSourcePort_def addDestinationAddress_def
  addDestinationIPCIDR_def addDestinationPort_def addRuleSet_def

text \<open>\<open>if c { add(item) }\<close>\<close>

definition addIf :: "bool \<Rightarrow> ('i \<Rightarrow> 'r \<Rightarrow> 'r) \<Rightarrow> 'i \<Rightarrow> 'r \<Rightarrow> 'r" where
  "addIf c add it r = (if c then add it r else r)"

lemma on_Inr: "on c add it r = Inr r' \<longleftrightarrow> r' = addIf c add it r"
  by (auto simp: on_def addIf_def)

lemma onE_Inr: "onE c add res r = Inr r' \<longleftrightarrow> (c \<longrightarrow> isOk res) \<and> r' = addIf c add (projr res) r"
  by (cases res) (auto simp: onE_def addIf_def)

lemma failIf_Inr: "failIf c m r = Inr r' \<longleftrightarrow> \<not> c \<and> r' = r"
  by (auto simp: failIf_def)

lemma ipVersionStep_Inr:
  "ipVersionStep v r = Inr r' \<longleftrightarrow> (v \<le> 0 \<or> v = 4 \<or> v = 6) \<and> r' = addIf (v > 0) addItems (NewIPVersionItem (v = 6)) r"
  by (auto simp: ipVersionStep_def addIf_def)

lemma ruleSetStep_Inr:
  "ruleSetStep tags dep src acc r = Inr r' \<longleftrightarrow>
     (tags = [] \<or> \<not> dep) \<and> r' = addIf (tags \<noteq> []) addRuleSet (NewRuleSetItem tags src acc) r"
  by (auto simp: ruleSetStep_def addIf_def)

lemma onElse_Inr:
  "onElse c add res raw r = Inr r' \<longleftrightarrow>
     (c \<longrightarrow> isOk res) \<and> r' = addIf (c \<or> raw \<noteq> None) add (if c then projr res else the raw) r"
  by (cases res; cases raw) (auto simp: onElse_def addIf_def)

lemmas step_Inr = on_Inr onE_Inr failIf_Inr ipVersionStep_Inr ruleSetStep_Inr onElse_Inr

lemma r_items_addIf:
  "r_items (addIf c addItems it r) = r_items r @ (if c then [it] else [])"
  "r_items (addIf c addSourceAddress it r) = r_items r"
  "r_items (addIf c addSourcePort it r) = r_items r"
  "r_items (addIf c addDestinationAddress it r) = r_items r"
  "r_items (addIf c addDestinationIPCIDR it r) = r_items r"
  "r_items (addIf c addDestinationPort it r) = r_items r"
  "r_items (addIf c addRuleSet rs r) = r_items r"
  by (simp_all add: addIf_def add_defs)

lemma r_sourceAddressItems_addIf:
  "r_sourceAddressItems (addIf c addItems it r) = r_sourceAddressItems r"
  "r_sourceAddressItems (addIf c addSourceAddress it r) = r_sourceAddressItems r @ (if c then [it] else [])"
  "r_sourceAddressItems (addIf c addSourcePort it r) = r_sourceAddressItems r"
  "r_sourceAddressItems (addIf c addDestinationAddress it r) = r_sourceAddressItems r"
  "r_sourceAddressItems (addIf c addDestinationIPCIDR it r) = r_sourceAddressItems r"
  "r_sourceAddressItems (addIf c addDestinationPort it r) = r_sourceAddressItems r"
  "r_sourceAddressItems (addIf c addRuleSet rs r) = r_sourceAddressItems r"
  by (simp_all add: addIf_def add_defs)

lemma r_sourcePortItems_addIf:
  "r_sourcePortItems (addIf c addItems it r) = r_sourcePortItems r"
  "r_sourcePortItems (addIf c addSourceAddress it r) = r_sourcePortItems r"
  "r_sourcePortItems (addIf c addSourcePort it r) = r_sourcePortItems r @ (if c then [it] else [])"
  "r_sourcePortItems (addIf c addDestinationAddress it r) = r_sourcePortItems r"
  "r_sourcePortItems (addIf c addDestinationIPCIDR it r) = r_sourcePortItems r"
  "r_sourcePortItems (addIf c addDestinationPort it r) = r_sourcePortItems r"
  "r_sourcePortItems (addIf c addRuleSet rs r) = r_sourcePortItems r"
  by (simp_all add: addIf_def add_defs)

lemma r_destinationAddressItems_addIf:
  "r_destinationAddressItems (addIf c addItems it r) = r_destinationAddressItems r"
  "r_destinationAddressItems (addIf c addSourceAddress it r) = r_destinationAddressItems r"
  "r_destinationAddressItems (addIf c addSourcePort it r) = r_destinationAddressItems r"
  "r_destinationAddressItems (addIf c addDestinationAddress it r) = r_destinationAddressItems r @ (if c then [it] else [])"
  "r_destinationAddressItems (addIf c addDestinationIPCIDR it r) = r_destinationAddressItems r"
  "r_destinationAddressItems (addIf c addDestinationPort it r) = r_destinationAddressItems r"
  "r_destinationAddressItems (addIf c addRuleSet rs r) = r_destinationAddressItems r"
  by (simp_all add: addIf_def add_defs)

lemma r_destinationIPCIDRItems_addIf:
  "r_destinationIPCIDRItems (addIf c addItems it r) = r_destinationIPCIDRItems r"
  "r_destinationIPCIDRItems (addIf c addSourceAddress it r) = r_destinationIPCIDRItems r"
  "r_destinationIPCIDRItems (addIf c addSourcePort it r) = r_destinationIPCIDRItems r"
  "r_destinationIPCIDRItems (addIf c addDestinationAddress it r) = r_destinationIPCIDRItems r"
  "r_destinationIPCIDRItems (addIf c addDestinationIPCIDR it r) = r_destinationIPCIDRItems r @ (if c then [it] else [])"
  "r_destinationIPCIDRItems (addIf c addDestinationPort it r) = r_destinationIPCIDRItems r"
  "r_destinationIPCIDRItems (addIf c addRuleSet rs r) = r_destinationIPCIDRItems r"
  by (simp_all add: addIf_def add_defs)

lemma r_destinationPortItems_addIf:
  "r_destinationPortItems (addIf c addItems it r) = r_destinationPortItems r"
  "r_destinationPortItems (addIf c addSourceAddress it r) = r_destinationPortItems r"
  "r_destinationPortItems (addIf c addSourcePort it r) = r_destinationPortItems r"
  "r_destinationPortItems (addIf c addDestinationAddress it r) = r_destinationPortItems r"
  "r_destinationPortItems (addIf c addDestinationIPCIDR it r) = r_destinationPortItems r"
  "r_destinationPortItems (addIf c addDestinationPort it r) = r_destinationPortItems r @ (if c then [it] else [])"
  "r_destinationPortItems (addIf c addRuleSet rs r) = r_destinationPortItems r"
  by (simp_all add: addIf_def add_defs)

lemma r_ruleSetItem_addIf:
  "r_ruleSetItem (addIf c addItems it r) = r_ruleSetItem r"
  "r_ruleSetItem (addIf c addSourceAddress it r) = r_ruleSetItem r"
  "r_ruleSetItem (addIf c addSourcePort it r) = r_ruleSetItem r"
  "r_ruleSetItem (addIf c addDestinationAddress it r) = r_ruleSetItem r"
  "r_ruleSetItem (addIf c addDestinationIPCIDR it r) = r_ruleSetItem r"
  "r_ruleSetItem (addIf c addDestinationPort it r) = r_ruleSetItem r"
  "r_ruleSetItem (addIf c addRuleSet rs r) = (if c then Some rs else r_ruleSetItem r)"
  by (simp_all add: addIf_def add_defs)

lemma r_invert_addIf:
  "r_invert (addIf c addItems it r) = r_invert r"
  "r_invert (addIf c addSourceAddress it r) = r_invert r"
  "r_invert (addIf c addSourcePort it r) = r_invert r"
  "r_invert (addIf c addDestinationAddress it r) = r_invert r"
  "r_invert (addIf c addDestinationIPCIDR it r) = r_invert r"
  "r_invert (addIf c addDestinationPort it r) = r_invert r"
  "r_invert (addIf c addRuleSet rs r) = r_invert r"
  by (simp_all add: addIf_def add_defs)

lemmas fields_addIf = r_items_addIf r_sourceAddressItems_addIf r_sourcePortItems_addIf r_destinationAddressItems_addIf
  r_destinationIPCIDRItems_addIf r_destinationPortItems_addIf r_ruleSetItem_addIf r_invert_addIf

section \<open>Coherence of \<open>allItems\<close>\<close>

text \<open>Every position of every group occurs in \<open>allItems\<close> exactly once, and nothing else does.\<close>

definition positions :: "'rs abstractDefaultRule \<Rightarrow> ItemRef list" where
  "positions r =
     map InItems [0..<length (r_items r)] @
     map InSourceAddress [0..<length (r_sourceAddressItems r)] @
     map InSourcePort [0..<length (r_sourcePortItems r)] @
     map InDestinationAddress [0..<length (r_destinationAddressItems r)] @
     map InDestinationIPCIDR [0..<length (r_destinationIPCIDRItems r)] @
     map InDestinationPort [0..<length (r_destinationPortItems r)] @
     (if r_ruleSetItem r = None then [] else [InRuleSet])"

definition coherent :: "'rs abstractDefaultRule \<Rightarrow> bool" where
  "coherent r = (distinct (r_allItems r) \<and> set (r_allItems r) = set (positions r))"

lemma coherent_new: "coherent (newAbstractRule invert action)"
  by (simp add: coherent_def positions_def newAbstractRule_def)

lemma coherent_add:
  "coherent r \<Longrightarrow> coherent (addItems it r)"
  "coherent r \<Longrightarrow> coherent (addSourceAddress it r)"
  "coherent r \<Longrightarrow> coherent (addSourcePort it r)"
  "coherent r \<Longrightarrow> coherent (addDestinationAddress it r)"
  "coherent r \<Longrightarrow> coherent (addDestinationIPCIDR it r)"
  "coherent r \<Longrightarrow> coherent (addDestinationPort it r)"
  "coherent r \<Longrightarrow> r_ruleSetItem r = None \<Longrightarrow> coherent (addRuleSet rs r)"
  by (auto simp: coherent_def positions_def add_defs)

lemma coherent_wellFormed: "coherent r \<Longrightarrow> wellFormedRule r"
  by (auto simp: coherent_def positions_def wellFormedRule_def split: if_splits)

section \<open>The kinds of items in the groups\<close>

fun itemGroup :: "RuleItem \<Rightarrow> ItemRef" where
  "itemGroup (DomainItem _) = InDestinationAddress 0"
| "itemGroup (DomainKeywordItem _) = InDestinationAddress 0"
| "itemGroup (DomainRegexItem _) = InDestinationAddress 0"
| "itemGroup (AdGuardDomainItem _) = InDestinationAddress 0"
| "itemGroup (IPCIDRItem _ isSource) = (if isSource then InSourceAddress 0 else InDestinationIPCIDR 0)"
| "itemGroup (IPIsPrivateItem isSource) = (if isSource then InSourceAddress 0 else InDestinationIPCIDR 0)"
| "itemGroup IPAcceptAnyItem = InDestinationIPCIDR 0"
| "itemGroup (PortItem _ _ isSource) = (if isSource then InSourcePort 0 else InDestinationPort 0)"
| "itemGroup (PortRangeItem isSource _ _) = (if isSource then InSourcePort 0 else InDestinationPort 0)"
| "itemGroup _ = InItems 0"

definition typedRule :: "'rs abstractDefaultRule \<Rightarrow> bool" where
  "typedRule r =
     (list_all (\<lambda>it. itemGroup it = InItems 0) (r_items r) \<and>
      list_all (\<lambda>it. itemGroup it = InSourceAddress 0) (r_sourceAddressItems r) \<and>
      list_all (\<lambda>it. itemGroup it = InSourcePort 0) (r_sourcePortItems r) \<and>
      list_all (\<lambda>it. itemGroup it = InDestinationAddress 0) (r_destinationAddressItems r) \<and>
      list_all (\<lambda>it. itemGroup it = InDestinationIPCIDR 0) (r_destinationIPCIDRItems r) \<and>
      list_all (\<lambda>it. itemGroup it = InDestinationPort 0) (r_destinationPortItems r))"

definition builtRule :: "'rs abstractDefaultRule \<Rightarrow> bool" where
  "builtRule r = (coherent r \<and> typedRule r)"

lemma typed_add:
  "typedRule r \<Longrightarrow> itemGroup it = InItems 0 \<Longrightarrow> typedRule (addItems it r)"
  "typedRule r \<Longrightarrow> itemGroup it = InSourceAddress 0 \<Longrightarrow> typedRule (addSourceAddress it r)"
  "typedRule r \<Longrightarrow> itemGroup it = InSourcePort 0 \<Longrightarrow> typedRule (addSourcePort it r)"
  "typedRule r \<Longrightarrow> itemGroup it = InDestinationAddress 0 \<Longrightarrow> typedRule (addDestinationAddress it r)"
  "typedRule r \<Longrightarrow> itemGroup it = InDestinationIPCIDR 0 \<Longrightarrow> typedRule (addDestinationIPCIDR it r)"
  "typedRule r \<Longrightarrow> itemGroup it = InDestinationPort 0 \<Longrightarrow> typedRule (addDestinationPort it r)"
  "typedRule r \<Longrightarrow> typedRule (addRuleSet rs r)"
  by (simp_all add: typedRule_def add_defs)

lemma itemGroup_New:
  "itemGroup (NewInboundRule a) = InItems 0" "itemGroup (NewIPVersionItem b) = InItems 0"
  "itemGroup (NewNetworkItem a) = InItems 0" "itemGroup (NewAuthUserItem a) = InItems 0"
  "itemGroup (NewProtocolItem a) = InItems 0" "itemGroup (NewClientItem a) = InItems 0"
  "itemGroup (NewDomainKeywordItem a) = InDestinationAddress 0"
  "itemGroup (NewRawDomainItem d) = InDestinationAddress 0"
  "itemGroup (NewAdGuardDomainItem lib a) = InDestinationAddress 0"
  "itemGroup (NewRawAdGuardDomainItem d) = InDestinationAddress 0"
  "itemGroup (NewRawIPCIDRItem True s) = InSourceAddress 0"
  "itemGroup (NewRawIPCIDRItem False s) = InDestinationIPCIDR 0"
  "itemGroup (NewIPIsPrivateItem True) = InSourceAddress 0"
  "itemGroup (NewIPIsPrivateItem False) = InDestinationIPCIDR 0"
  "itemGroup NewIPAcceptAnyItem = InDestinationIPCIDR 0"
  "itemGroup (NewPortItem True ps) = InSourcePort 0" "itemGroup (NewPortItem False ps) = InDestinationPort 0"
  "itemGroup (NewProcessItem a) = InItems 0" "itemGroup (NewProcessPathItem a) = InItems 0"
  "itemGroup (NewPackageNameItem a) = InItems 0" "itemGroup (NewUserItem a) = InItems 0"
  "itemGroup (NewUserIDItem us) = InItems 0" "itemGroup (NewQueryTypeItem ps) = InItems 0"
  "itemGroup (NewClashModeItem m) = InItems 0" "itemGroup (NewNetworkTypeItem t) = InItems 0"
  "itemGroup NewNetworkIsExpensiveItem = InItems 0" "itemGroup NewNetworkIsConstrainedItem = InItems 0"
  "itemGroup (NewWIFISSIDItem a) = InItems 0" "itemGroup (NewWIFIBSSIDItem a) = InItems 0"
  "itemGroup (NewInterfaceAddressItem e) = InItems 0" "itemGroup (NewNetworkInterfaceAddressItem e') = InItems 0"
  "itemGroup (NewDefaultInterfaceAddressItem p) = InItems 0" "itemGroup (NewPreferredByItem a) = InItems 0"
  "itemGroup (NewOutboundRule a) = InItems 0"
  by (simp_all add: NewInboundRule_def NewIPVersionItem_def NewNetworkItem_def NewAuthUserItem_def
      NewProtocolItem_def NewClientItem_def NewDomainKeywordItem_def NewRawDomainItem_def
      NewAdGuardDomainItem_def NewRawAdGuardDomainItem_def NewRawIPCIDRItem_def NewIPIsPrivateItem_def
      NewIPAcceptAnyItem_def NewPortItem_def NewProcessItem_def NewProcessPathItem_def
      NewPackageNameItem_def NewUserItem_def NewUserIDItem_def NewQueryTypeItem_def NewClashModeItem_def
      NewNetworkTypeItem_def NewNetworkIsExpensiveItem_def NewNetworkIsConstrainedItem_def
      NewWIFISSIDItem_def NewWIFIBSSIDItem_def NewInterfaceAddressItem_def
      NewNetworkInterfaceAddressItem_def NewDefaultInterfaceAddressItem_def NewPreferredByItem_def
      NewOutboundRule_def split_beta)

lemma itemGroup_NewE:
  "NewDomainItem lib a b = Inr it \<Longrightarrow> itemGroup it = InDestinationAddress 0"
  "NewDomainRegexItem lib a = Inr it \<Longrightarrow> itemGroup it = InDestinationAddress 0"
  "NewIPCIDRItem lib True a = Inr it \<Longrightarrow> itemGroup it = InSourceAddress 0"
  "NewIPCIDRItem lib False a = Inr it \<Longrightarrow> itemGroup it = InDestinationIPCIDR 0"
  "NewPortRangeItem True a = Inr it \<Longrightarrow> itemGroup it = InSourcePort 0"
  "NewPortRangeItem False a = Inr it \<Longrightarrow> itemGroup it = InDestinationPort 0"
  "NewProcessPathRegexItem lib a = Inr it \<Longrightarrow> itemGroup it = InItems 0"
  by (auto simp: NewDomainItem_def NewDomainRegexItem_def NewIPCIDRItem_def NewPortRangeItem_def
      NewProcessPathRegexItem_def split: if_splits)

text \<open>Before the rule-sets are added.\<close>

definition openRule :: "'rs abstractDefaultRule \<Rightarrow> bool" where
  "openRule r = (builtRule r \<and> r_ruleSetItem r = None)"

lemma openRule_new: "openRule (newAbstractRule invert action)"
  by (simp add: openRule_def builtRule_def coherent_new) (simp add: newAbstractRule_def typedRule_def)

lemma openRule_add:
  "openRule r \<Longrightarrow> itemGroup it = InItems 0 \<Longrightarrow> openRule (addItems it r)"
  "openRule r \<Longrightarrow> itemGroup it = InSourceAddress 0 \<Longrightarrow> openRule (addSourceAddress it r)"
  "openRule r \<Longrightarrow> itemGroup it = InSourcePort 0 \<Longrightarrow> openRule (addSourcePort it r)"
  "openRule r \<Longrightarrow> itemGroup it = InDestinationAddress 0 \<Longrightarrow> openRule (addDestinationAddress it r)"
  "openRule r \<Longrightarrow> itemGroup it = InDestinationIPCIDR 0 \<Longrightarrow> openRule (addDestinationIPCIDR it r)"
  "openRule r \<Longrightarrow> itemGroup it = InDestinationPort 0 \<Longrightarrow> openRule (addDestinationPort it r)"
  unfolding openRule_def builtRule_def
  by (auto intro: coherent_add typed_add) (simp_all add: add_defs)

definition preserves :: "('s \<Rightarrow> bool) \<Rightarrow> ('s \<Rightarrow> 's result) \<Rightarrow> bool" where
  "preserves P step = (\<forall>r r'. P r \<longrightarrow> step r = Inr r' \<longrightarrow> P r')"

lemma foldE_preserves: "list_all (preserves P) ss \<Longrightarrow> P r \<Longrightarrow> foldE ss r = Inr r' \<Longrightarrow> P r'"
proof (induction ss arbitrary: r)
  case Nil
  then show ?case by simp
next
  case (Cons s ss)
  from Cons.prems(3) obtain m where m: "s r = Inr m" "foldE ss m = Inr r'" by auto
  with Cons.prems(1,2) have "P m" by (simp add: preserves_def)
  with m Cons show ?case by simp
qed

lemma preserves_on: "(\<And>r. P r \<Longrightarrow> P (add it r)) \<Longrightarrow> preserves P (on c add it)"
  by (auto simp: preserves_def on_def)

lemma preserves_onE: "(\<And>r it. res = Inr it \<Longrightarrow> P r \<Longrightarrow> P (add it r)) \<Longrightarrow> preserves P (onE c add res)"
  by (auto simp: preserves_def onE_def)

lemma preserves_failIf: "preserves P (failIf c m)"
  by (auto simp: preserves_def failIf_Inr)

lemma preserves_onElse:
  "(\<And>r it. res = Inr it \<Longrightarrow> P r \<Longrightarrow> P (add it r)) \<Longrightarrow> (\<And>r it. raw = Some it \<Longrightarrow> P r \<Longrightarrow> P (add it r)) \<Longrightarrow>
   preserves P (onElse c add res raw)"
  by (auto simp: preserves_def onElse_def split: if_splits option.splits)

lemma preserves_ipVersionStep: "preserves openRule (ipVersionStep v)"
  by (auto simp: preserves_def ipVersionStep_Inr addIf_def intro: openRule_add itemGroup_New)

lemmas preserves_steps = preserves_on preserves_onE preserves_failIf preserves_onElse preserves_ipVersionStep

lemma defaultSteps_preserve:
  "list_all (preserves openRule) (defaultConnectionSteps lib options)"
  "list_all (preserves openRule) (defaultAddressSteps lib options)"
  "list_all (preserves openRule) (butlast (defaultOtherSteps lib options))"
  unfolding defaultConnectionSteps_def defaultAddressSteps_def defaultOtherSteps_def
  by (auto intro!: preserves_steps openRule_add simp: itemGroup_New itemGroup_NewE)

lemma dnsSteps_preserve:
  "list_all (preserves openRule) (dnsConnectionSteps lib options)"
  "list_all (preserves openRule) (dnsAddressSteps lib options)"
  "list_all (preserves openRule) (butlast (dnsOtherSteps lib options))"
  unfolding dnsConnectionSteps_def dnsAddressSteps_def dnsOtherSteps_def
  by (auto intro!: preserves_steps openRule_add simp: itemGroup_New itemGroup_NewE)

lemma headlessSteps_preserve:
  "list_all (preserves openRule) (headlessFrontSteps lib options)"
  "list_all (preserves openRule) (headlessProcessSteps lib options)"
  "list_all (preserves openRule) (headlessNetworkSteps options)"
  unfolding headlessFrontSteps_def headlessProcessSteps_def headlessNetworkSteps_def
  by (auto intro!: preserves_steps openRule_add simp: itemGroup_New itemGroup_NewE)

lemma ruleSetStep_built: "openRule r \<Longrightarrow> ruleSetStep tags dep src acc r = Inr r' \<Longrightarrow> builtRule r'"
  by (auto simp: ruleSetStep_Inr addIf_def openRule_def builtRule_def intro: coherent_add typed_add)

lemma steps_built:
  assumes "list_all (preserves openRule) front" and "list_all (preserves openRule) (butlast last')"
    and "last' = butlast last' @ [ruleSetStep tags dep src acc]"
    and "foldE (front @ last') (newAbstractRule invert action) = Inr r"
  shows "builtRule r"
proof -
  let ?pre = "front @ butlast last'"
  have "foldE (?pre @ [ruleSetStep tags dep src acc]) (newAbstractRule invert action) = Inr r"
    using assms(3,4) by (metis append_assoc)
  then obtain m where m: "foldE ?pre (newAbstractRule invert action) = Inr m" "ruleSetStep tags dep src acc m = Inr r"
    by (auto simp: foldE_append)
  have "openRule m"
    by (rule foldE_preserves [where P = openRule, OF _ openRule_new m(1)]) (use assms(1,2) in simp)
  with m(2) show ?thesis by (simp add: ruleSetStep_built)
qed

lemma NewDefaultRule_built: "NewDefaultRule dl lib options = Inr r \<Longrightarrow> builtRule r"
  unfolding NewDefaultRule_def
  by (auto intro!: steps_built [where front = "defaultConnectionSteps lib (dro_Raw options) @ defaultAddressSteps lib (dro_Raw options)"
        and last' = "defaultOtherSteps lib (dro_Raw options)"] simp: defaultSteps_preserve)
    (simp_all add: defaultOtherSteps_def)

lemma NewDefaultDNSRule_built: "NewDefaultDNSRule lib options = Inr r \<Longrightarrow> builtRule r"
  unfolding NewDefaultDNSRule_def
  by (auto intro!: steps_built [where front = "dnsConnectionSteps lib (ddo_Raw options) @ dnsAddressSteps lib (ddo_Raw options)"
        and last' = "dnsOtherSteps lib (ddo_Raw options)"] simp: dnsSteps_preserve)
    (simp_all add: dnsOtherSteps_def)

lemma NewDefaultHeadlessRule_open: "NewDefaultHeadlessRule nm lib options = Inr r \<Longrightarrow> openRule r"
  unfolding NewDefaultHeadlessRule_def
  by (erule foldE_preserves [rotated 2])
    (auto simp: headlessSteps_preserve openRule_new itemGroup_New intro!: preserves_onElse openRule_add)

text \<open>The default rules in a tree of rules, and the modes of its logical rules.\<close>

fun defaultsOf :: "'rs HeadlessRule \<Rightarrow> 'rs abstractDefaultRule list" where
  "defaultsOf (DefaultRule r) = [r]"
| "defaultsOf (LogicalRule rules _ _ _) = concat (map defaultsOf rules)"

fun modesOf :: "'rs HeadlessRule \<Rightarrow> string list" where
  "modesOf (DefaultRule r) = []"
| "modesOf (LogicalRule rules mode _ _) = mode # concat (map modesOf rules)"

definition builtTree :: "'rs HeadlessRule \<Rightarrow> bool" where
  "builtTree rule =
     (list_all builtRule (defaultsOf rule) \<and> list_all (\<lambda>mode. mode = ''and'' \<or> mode = ''or'') (modesOf rule))"

lemma builtTree_logical:
  "mode = ''and'' \<or> mode = ''or'' \<Longrightarrow> list_all builtTree rules \<Longrightarrow> builtTree (LogicalRule rules mode invert action)"
  by (auto simp: builtTree_def list_all_iff)

lemma logicalMode_Inr: "logicalMode mode = Inr mode' \<Longrightarrow> mode' = mode \<and> (mode = ''and'' \<or> mode = ''or'')"
  by (auto simp: logicalMode_def split: if_splits)

lemma mapE_from_all:
  assumes "mapE_from i f xs = Inr ys" and "\<And>k x y. x \<in> set xs \<Longrightarrow> f k x = Inr y \<Longrightarrow> P y"
  shows "list_all P ys"
  unfolding list_all_length using assms mapE_from_nth mapE_from_length by (metis nth_mem)

lemma logical_built:
  assumes "logicalMode mode = Inr mode'"
    and "mapE_from 0 (\<lambda>i sub. cause (msg i) (f sub)) rules = Inr subs"
    and "\<And>sub rule. sub \<in> set rules \<Longrightarrow> f sub = Inr rule \<Longrightarrow> builtTree rule"
  shows "builtTree (LogicalRule subs mode' invert act)"
proof -
  have "list_all builtTree subs"
    using assms(2) by (rule mapE_from_all) (use assms(3) in auto)
  then show ?thesis using logicalMode_Inr [OF assms(1)] by (auto intro: builtTree_logical)
qed

lemma NewRule_built: "NewRule dl lib c options = Inr rule \<Longrightarrow> builtTree rule"
proof (induction dl lib c options arbitrary: rule rule: NewRule.induct)
  case (1 dl lib c type dflt mode rules invert action)
  show ?case
  proof (cases "type = '''' \<or> type = ''default''")
    case True
    with "1.prems" show ?thesis by (auto simp: builtTree_def NewDefaultRule_built split: if_splits)
  next
    case False
    with "1.prems" show ?thesis
      by (auto split: if_splits intro!: logical_built "1.IH")
  qed
qed

lemma NewDNSRule_built: "NewDNSRule lib c options = Inr rule \<Longrightarrow> builtTree rule"
proof (induction lib c options arbitrary: rule rule: NewDNSRule.induct)
  case (1 lib c type dflt mode rules invert action)
  show ?case
  proof (cases "type = '''' \<or> type = ''default''")
    case True
    with "1.prems" show ?thesis by (auto simp: builtTree_def NewDefaultDNSRule_built split: if_splits)
  next
    case False
    with "1.prems" show ?thesis
      by (auto split: if_splits intro!: logical_built "1.IH")
  qed
qed

lemma NewHeadlessRule_built: "NewHeadlessRule nm lib options = Inr rule \<Longrightarrow> builtTree rule"
proof (induction nm lib options arbitrary: rule rule: NewHeadlessRule.induct)
  case (1 nm lib type dflt mode rules invert action)
  show ?case
  proof (cases "type = '''' \<or> type = ''default''")
    case True
    with "1.prems" NewDefaultHeadlessRule_open show ?thesis
      by (auto simp: builtTree_def openRule_def split: if_splits)
  next
    case False
    with "1.prems" show ?thesis
      by (auto split: if_splits intro!: logical_built "1.IH")
  qed
qed

section \<open>The formula over the options\<close>

text \<open>
  The fields of the options by group: whether the field is configured and the item that decides it.
\<close>

type_synonym field = "bool \<times> RuleItem"

definition sourceAddressFields :: "Lib \<Rightarrow> RawDefaultRuleOptions \<Rightarrow> field list" where
  "sourceAddressFields lib o' =
     [(o_SourceIPCIDR o' \<noteq> [], projr (NewIPCIDRItem lib True (o_SourceIPCIDR o'))),
      (o_SourceIPIsPrivate o', NewIPIsPrivateItem True)]"

definition sourcePortFields :: "RawDefaultRuleOptions \<Rightarrow> field list" where
  "sourcePortFields o' =
     [(o_SourcePort o' \<noteq> [], NewPortItem True (o_SourcePort o')),
      (o_SourcePortRange o' \<noteq> [], projr (NewPortRangeItem True (o_SourcePortRange o')))]"

definition destinationAddressFields :: "Lib \<Rightarrow> RawDefaultRuleOptions \<Rightarrow> field list" where
  "destinationAddressFields lib o' =
     [(o_Domain o' \<noteq> [] \<or> o_DomainSuffix o' \<noteq> [], projr (NewDomainItem lib (o_Domain o') (o_DomainSuffix o'))),
      (o_DomainKeyword o' \<noteq> [], NewDomainKeywordItem (o_DomainKeyword o')),
      (o_DomainRegex o' \<noteq> [], projr (NewDomainRegexItem lib (o_DomainRegex o'))),
      (o_IPCIDR o' \<noteq> [], projr (NewIPCIDRItem lib False (o_IPCIDR o'))),
      (o_IPIsPrivate o', NewIPIsPrivateItem False)]"

definition destinationPortFields :: "RawDefaultRuleOptions \<Rightarrow> field list" where
  "destinationPortFields o' =
     [(o_Port o' \<noteq> [], NewPortItem False (o_Port o')),
      (o_PortRange o' \<noteq> [], projr (NewPortRangeItem False (o_PortRange o')))]"

definition remainingFields :: "Lib \<Rightarrow> RawDefaultRuleOptions \<Rightarrow> field list" where
  "remainingFields lib o' =
     [(o_Inbound o' \<noteq> [], NewInboundRule (o_Inbound o')),
      (o_IPVersion o' > 0, NewIPVersionItem (o_IPVersion o' = 6)),
      (o_Network o' \<noteq> [], NewNetworkItem (o_Network o')),
      (o_AuthUser o' \<noteq> [], NewAuthUserItem (o_AuthUser o')),
      (o_Protocol o' \<noteq> [], NewProtocolItem (o_Protocol o')),
      (o_Client o' \<noteq> [], NewClientItem (o_Client o')),
      (o_ProcessName o' \<noteq> [], NewProcessItem (o_ProcessName o')),
      (o_ProcessPath o' \<noteq> [], NewProcessPathItem (o_ProcessPath o')),
      (o_ProcessPathRegex o' \<noteq> [], projr (NewProcessPathRegexItem lib (o_ProcessPathRegex o'))),
      (o_PackageName o' \<noteq> [], NewPackageNameItem (o_PackageName o')),
      (o_User o' \<noteq> [], NewUserItem (o_User o')),
      (o_UserID o' \<noteq> [], NewUserIDItem (o_UserID o')),
      (o_ClashMode o' \<noteq> '''', NewClashModeItem (o_ClashMode o')),
      (o_NetworkType o' \<noteq> [], NewNetworkTypeItem (o_NetworkType o')),
      (o_NetworkIsExpensive o', NewNetworkIsExpensiveItem),
      (o_NetworkIsConstrained o', NewNetworkIsConstrainedItem),
      (o_WIFISSID o' \<noteq> [], NewWIFISSIDItem (o_WIFISSID o')),
      (o_WIFIBSSID o' \<noteq> [], NewWIFIBSSIDItem (o_WIFIBSSID o')),
      (someNonEmpty (o_InterfaceAddress o'), NewInterfaceAddressItem (entriesOf (o_InterfaceAddress o'))),
      (someNonEmpty (o_NetworkInterfaceAddress o'),
       NewNetworkInterfaceAddressItem (entriesOf (o_NetworkInterfaceAddress o'))),
      (o_DefaultInterfaceAddress o' \<noteq> [], NewDefaultInterfaceAddressItem (o_DefaultInterfaceAddress o')),
      (o_PreferredBy o' \<noteq> [], NewPreferredByItem (o_PreferredBy o'))]"

text \<open>A group is no condition if none of its fields is configured; otherwise one of them matches.\<close>

definition anyField :: "Lib \<Rightarrow> Net \<Rightarrow> InboundContext \<Rightarrow> field list \<Rightarrow> bool" where
  "anyField lib net md fs =
     (list_all (\<lambda>(c, _). \<not> c) fs \<or> list_ex (\<lambda>(c, it). c \<and> RuleItem_Match lib net it md) fs)"

definition allFields :: "Lib \<Rightarrow> Net \<Rightarrow> InboundContext \<Rightarrow> field list \<Rightarrow> bool" where
  "allFields lib net md fs = list_all (\<lambda>(c, it). \<not> c \<or> RuleItem_Match lib net it md) fs"

definition optionsMatch :: "Lib \<Rightarrow> Net \<Rightarrow> RawDefaultRuleOptions \<Rightarrow> InboundContext \<Rightarrow> bool" where
  "optionsMatch lib net o' md =
     (anyField lib net md (sourceAddressFields lib o') \<and>
      anyField lib net md (sourcePortFields o') \<and>
      anyField lib net md (destinationAddressFields lib o') \<and>
      anyField lib net md (destinationPortFields o') \<and>
      allFields lib net md (remainingFields lib o'))"

definition fieldItems :: "field list \<Rightarrow> RuleItem list" where
  "fieldItems fs = map snd (filter fst fs)"

lemma fieldItems_simps [simp]:
  "fieldItems [] = []" "fieldItems ((c, it) # fs) = (if c then [it] else []) @ fieldItems fs"
  by (simp_all add: fieldItems_def)

lemma anyField_items:
  "anyField lib net md fs =
     (fieldItems fs = [] \<or> list_ex (\<lambda>it. RuleItem_Match lib net it md) (fieldItems fs))"
  by (auto simp: anyField_def fieldItems_def filter_empty_conv list_all_iff list_ex_iff)

lemma allFields_items: "allFields lib net md fs = list_all (\<lambda>it. RuleItem_Match lib net it md) (fieldItems fs)"
  by (induction fs) (auto simp: allFields_def)

lemma anyField_append:
  "anyField lib net md (fs @ gs) =
     (fieldItems fs @ fieldItems gs = [] \<or>
      list_ex (\<lambda>it. RuleItem_Match lib net it md) (fieldItems fs @ fieldItems gs))"
  unfolding anyField_items by (simp add: fieldItems_def)

lemma projr_cause: "projr (cause args (Inr x)) = x"
  by simp

lemma isOk_cause [simp]: "isOk (cause args r) = isOk r"
  by (cases "(args, r)" rule: cause.cases) simp_all

lemma projr_cause_isOk: "isOk r \<Longrightarrow> projr (cause args r) = projr r"
  by (cases r) simp_all

text \<open>The part of the destination group that is address fields.\<close>

definition domainFields :: "Lib \<Rightarrow> RawDefaultRuleOptions \<Rightarrow> field list" where
  "domainFields lib o' = take 3 (destinationAddressFields lib o')"

definition cidrFields :: "Lib \<Rightarrow> RawDefaultRuleOptions \<Rightarrow> field list" where
  "cidrFields lib o' = drop 3 (destinationAddressFields lib o')"

lemma if_onE: "(c \<longrightarrow> isOk r) \<Longrightarrow> (if c then [projr (cause args r)] else []) = (if c then [projr r] else [])"
  by (simp add: projr_cause_isOk)

lemma connection_fields:
  "foldE (defaultConnectionSteps lib o') r0 = Inr r \<Longrightarrow>
     r_items r = r_items r0 @ fieldItems (take 6 (remainingFields lib o')) \<and>
     r_destinationAddressItems r = r_destinationAddressItems r0 @ fieldItems (domainFields lib o') \<and>
     r_sourceAddressItems r = r_sourceAddressItems r0 \<and> r_sourcePortItems r = r_sourcePortItems r0 \<and>
     r_destinationIPCIDRItems r = r_destinationIPCIDRItems r0 \<and>
     r_destinationPortItems r = r_destinationPortItems r0 \<and>
     r_invert r = r_invert r0 \<and> r_ruleSetItem r = r_ruleSetItem r0"
  unfolding defaultConnectionSteps_def
  by (clarsimp simp: step_Inr fields_addIf if_onE remainingFields_def domainFields_def
      destinationAddressFields_def split del: if_split)

lemma address_fields:
  "foldE (defaultAddressSteps lib o') r0 = Inr r \<Longrightarrow>
     r_items r = r_items r0 \<and> r_destinationAddressItems r = r_destinationAddressItems r0 \<and>
     r_sourceAddressItems r = r_sourceAddressItems r0 @ fieldItems (sourceAddressFields lib o') \<and>
     r_sourcePortItems r = r_sourcePortItems r0 @ fieldItems (sourcePortFields o') \<and>
     r_destinationIPCIDRItems r = r_destinationIPCIDRItems r0 @ fieldItems (cidrFields lib o') \<and>
     r_destinationPortItems r = r_destinationPortItems r0 @ fieldItems (destinationPortFields o') \<and>
     r_invert r = r_invert r0 \<and> r_ruleSetItem r = r_ruleSetItem r0"
  unfolding defaultAddressSteps_def
  by (clarsimp simp: step_Inr fields_addIf if_onE sourceAddressFields_def sourcePortFields_def cidrFields_def
      destinationAddressFields_def destinationPortFields_def split del: if_split)

lemma other_fields:
  "foldE (defaultOtherSteps lib o') r0 = Inr r \<Longrightarrow>
     r_items r = r_items r0 @ fieldItems (drop 6 (remainingFields lib o')) \<and>
     r_destinationAddressItems r = r_destinationAddressItems r0 \<and>
     r_sourceAddressItems r = r_sourceAddressItems r0 \<and> r_sourcePortItems r = r_sourcePortItems r0 \<and>
     r_destinationIPCIDRItems r = r_destinationIPCIDRItems r0 \<and>
     r_destinationPortItems r = r_destinationPortItems r0 \<and>
     r_invert r = r_invert r0 \<and>
     r_ruleSetItem r = (if o_RuleSet o' \<noteq> []
       then Some (NewRuleSetItem (o_RuleSet o') (o_RuleSetIPCIDRMatchSource o') False) else r_ruleSetItem r0)"
  unfolding defaultOtherSteps_def
  by (clarsimp simp: step_Inr fields_addIf if_onE remainingFields_def split del: if_split)
    (simp add: r_ruleSetItem_addIf)

lemma fieldItems_take_drop: "fieldItems (take n fs) @ fieldItems (drop n fs) = fieldItems fs"
  unfolding fieldItems_def by (metis append_take_drop_id filter_append map_append)

text \<open>What \<open>NewDefaultRule\<close> puts into the groups.\<close>

lemma NewDefaultRule_fields:
  assumes "NewDefaultRule dl lib options = Inr r"
  shows "r_items r = fieldItems (remainingFields lib (dro_Raw options)) \<and>
     r_sourceAddressItems r = fieldItems (sourceAddressFields lib (dro_Raw options)) \<and>
     r_sourcePortItems r = fieldItems (sourcePortFields (dro_Raw options)) \<and>
     r_destinationAddressItems r = fieldItems (domainFields lib (dro_Raw options)) \<and>
     r_destinationIPCIDRItems r = fieldItems (cidrFields lib (dro_Raw options)) \<and>
     r_destinationPortItems r = fieldItems (destinationPortFields (dro_Raw options)) \<and>
     r_invert r = o_Invert (dro_Raw options) \<and>
     r_ruleSetItem r = (if o_RuleSet (dro_Raw options) \<noteq> []
       then Some (NewRuleSetItem (o_RuleSet (dro_Raw options)) (o_RuleSetIPCIDRMatchSource (dro_Raw options)) False)
       else None)"
proof -
  let ?o = "dro_Raw options"
  obtain action r1 r2 where
    1: "foldE (defaultConnectionSteps lib ?o) (newAbstractRule (o_Invert ?o) action) = Inr r1" and
    2: "foldE (defaultAddressSteps lib ?o) r1 = Inr r2" and
    3: "foldE (defaultOtherSteps lib ?o) r2 = Inr r"
    using assms by (auto simp: NewDefaultRule_def foldE_append)
  show ?thesis
    using connection_fields [OF 1] address_fields [OF 2] other_fields [OF 3]
      fieldItems_take_drop [of 6 "remainingFields lib ?o"]
    by (simp add: newAbstractRule_def)
qed

lemma NewDefaultRule_documented:
  assumes b: "NewDefaultRule dl lib options = Inr r"
    and m: "\<not> md_IgnoreDestinationIPCIDRMatch md" "\<not> md_IPCIDRMatchSource md"
  shows "documentedMatch lib net r md = optionsMatch lib net (dro_Raw options) md"
proof -
  let ?o = "dro_Raw options"
  have "fieldItems (domainFields lib ?o) @ fieldItems (cidrFields lib ?o) =
      fieldItems (destinationAddressFields lib ?o)"
    by (simp add: domainFields_def cidrFields_def fieldItems_take_drop)
  then have g: "groupItems r md GDestinationAddress = fieldItems (destinationAddressFields lib ?o)"
    "groupItems r md GSourceAddress = fieldItems (sourceAddressFields lib ?o)"
    "groupItems r md GSourcePort = fieldItems (sourcePortFields ?o)"
    "groupItems r md GDestinationPort = fieldItems (destinationPortFields ?o)"
    using NewDefaultRule_fields [OF b] m by (simp_all add: groupItems_def cidrGroup_def)
  show ?thesis
    using NewDefaultRule_fields [OF b]
    by (auto simp: documentedMatch_def allGroups_def g optionsMatch_def anyField_items allFields_items)
qed

section \<open>Actions of built rules\<close>

lemma steps_action:
  "list_all (preserves (\<lambda>r. r_action r = a)) (defaultConnectionSteps lib o')"
  "list_all (preserves (\<lambda>r. r_action r = a)) (defaultAddressSteps lib o')"
  "list_all (preserves (\<lambda>r. r_action r = a)) (defaultOtherSteps lib o')"
  unfolding defaultConnectionSteps_def defaultAddressSteps_def defaultOtherSteps_def
  by (auto intro!: preserves_on preserves_onE preserves_failIf simp: add_defs)
    (auto simp: preserves_def ipVersionStep_Inr ruleSetStep_Inr addIf_def add_defs)

lemma NewDefaultRule_action:
  assumes "NewDefaultRule dl lib options = Inr r"
  shows "NewRuleAction (dl_New dl) (dl_Descriptions dl) lib (dro_Action options) = Inr (r_action r)"
proof -
  obtain a where a: "NewRuleAction (dl_New dl) (dl_Descriptions dl) lib (dro_Action options) = Inr a"
    and f: "foldE (defaultConnectionSteps lib (dro_Raw options) @ defaultAddressSteps lib (dro_Raw options) @
                 defaultOtherSteps lib (dro_Raw options)) (newAbstractRule (o_Invert (dro_Raw options)) a) = Inr r"
    using assms by (auto simp: NewDefaultRule_def)
  have "r_action r = a"
    by (rule foldE_preserves [where P = "\<lambda>r. r_action r = a", OF _ _ f])
      (simp_all add: steps_action newAbstractRule_def)
  with a show ?thesis by simp
qed

lemma NewRuleAction_route:
  "NewRuleAction dn ds lib action = Inr (Some (ActionRoute outbound ro)) \<Longrightarrow>
     ao_Action action = ''route'' \<and> ra_Outbound (ao_RouteOptions action) = outbound"
  by (auto simp: NewRuleAction_def split: if_splits)

lemma NewRule_outbound:
  assumes "NewRule dl lib True options = Inr rule" and "Rule_getAction rule = Some (ActionRoute outbound ro)"
  shows "outbound \<noteq> ''''"
proof (cases options)
  case (RuleOptions type dflt mode rules invert action)
  show ?thesis
    using assms NewRuleAction_route unfolding RuleOptions
    by (auto split: if_splits simp: missingOutbound_def dest!: NewDefaultRule_action) blast+
qed

section \<open>Starting a rule-set item\<close>

definition refsOf :: "RuleSetStore \<Rightarrow> nat \<Rightarrow> u32" where
  "refsOf store p = (case store p of None \<Rightarrow> 0 | Some s \<Rightarrow> ls_refs s)"

lemma refsOf_IncRef: "p \<in> dom store \<Longrightarrow> refsOf (IncRef p store) q = refsOf store q + (if q = p then 1 else 0)"
  by (auto simp: refsOf_def IncRef_def)

lemma dom_IncRef [simp]: "dom (IncRef p store) = dom store"
  by (auto simp: IncRef_def split: option.splits)

lemma startLoop_ok:
  assumes "RuleSetItem_startLoop env tags item store = (None, item', store')"
    and "\<And>tag p. se_RuleSet env tag = Some p \<Longrightarrow> p \<in> dom store"
  shows "map Some (rsi_setList item') = map Some (rsi_setList item) @ map (se_RuleSet env) tags \<and>
    refsOf store' q = refsOf store q + of_nat (count_list (map (se_RuleSet env) tags) (Some q))"
  using assms
proof (induction tags arbitrary: item store)
  case Nil
  then show ?case by simp
next
  case (Cons tag tags)
  then obtain p where p: "se_RuleSet env tag = Some p"
    and rest: "RuleSetItem_startLoop env tags (item\<lparr>rsi_setList := rsi_setList item @ [p]\<rparr>) (IncRef p store) = (None, item', store')"
    by (auto split: option.splits)
  have "p \<in> dom store" using Cons.prems(2) p by blast
  with Cons.IH [OF rest] Cons.prems(2) p show ?case by (simp add: refsOf_IncRef)
qed

lemma startLoop_error_iff:
  "fst (RuleSetItem_startLoop env tags item store) = None \<longleftrightarrow> (\<forall>tag \<in> set tags. se_RuleSet env tag \<noteq> None)"
  by (induction tags arbitrary: item store) (auto split: option.splits)

section \<open>Properties\<close>

text \<open>The options of the witnesses: a domain and a port, routed to an outbound.\<close>

definition sampleDialer :: "unit DialerLib" where
  "sampleDialer = \<lparr>dl_New = (\<lambda>_. Inr ()), dl_Descriptions = (\<lambda>_. []), dl_zero = ()\<rparr>"

definition sampleOptions :: "unit DefaultRuleOptions" where
  "sampleOptions =
     \<lparr>dro_Raw = zeroRawDefaultRule\<lparr>o_Domain := [''a.org''], o_Port := [443]\<rparr>,
      dro_Action = (zeroRuleAction ())\<lparr>ao_Action := ''route'',
        ao_RouteOptions := \<lparr>ra_Outbound = ''proxy'', ra_Options = zeroRouteOptions\<rparr>\<rparr>\<rparr>"

definition sampleRule :: "unit Options" where
  "sampleRule = RuleOptions ''default'' sampleOptions '''' [] False (zeroRuleAction ())"

lemmas build_simps = sampleDialer_def sampleOptions_def sampleRule_def zeroRawDefaultRule_def zeroRuleAction_def
  zeroRouteOptions_def NewDefaultRule_def NewRuleAction_def defaultConnectionSteps_def defaultAddressSteps_def
  defaultOtherSteps_def on_def onE_def failIf_def ipVersionStep_def ruleSetStep_def someNonEmpty_def
  NewDomainItem_def DefaultRuleOptions_IsValid_def missingOutbound_def

text \<open>
  C6: whatever the options, a route rule, a DNS rule or a rule of a rule-set that construction
  accepts is well-formed throughout its tree: \<open>allItems\<close> lists each item of each group exactly once,
  every group holds items of its own kind and side only, and every logical rule is an \<open>and\<close> or an
  \<open>or\<close>.
\<close>

theorem constructed_rules_are_well_formed:
  "(NewRule dl lib checkOutbound options = Inr rule \<longrightarrow> builtTree rule) \<and>
   (NewDNSRule lib checkServer dnsOptions = Inr dnsRule \<longrightarrow> builtTree dnsRule) \<and>
   (NewHeadlessRule networkManager lib headlessOptions = Inr headlessRule \<longrightarrow> builtTree headlessRule)"
  using NewRule_built NewDNSRule_built NewHeadlessRule_built by blast

theorem constructed_rules_are_well_formed_witness:
  "case NewRule sampleDialer sampleLib True sampleRule of Inr rule \<Rightarrow> builtTree rule | Inl _ \<Rightarrow> False"
proof -
  have "isOk (NewRule sampleDialer sampleLib True sampleRule)" by (simp add: build_simps)
  then obtain rule where "NewRule sampleDialer sampleLib True sampleRule = Inr rule"
    by (cases "NewRule sampleDialer sampleLib True sampleRule") auto
  then show ?thesis using constructed_rules_are_well_formed [of sampleDialer sampleLib True sampleRule rule] by simp
qed

text \<open>
  C7: a route rule built from options that are not inverted and name no rule-set matches exactly by
  the formula of the documentation over the configured fields: within the source address, source
  port, destination (domain and address) and port groups one configured field suffices, and every
  other configured field is required.
\<close>

theorem route_rule_matches_configured_fields:
  assumes "NewDefaultRule dl lib options = Inr r"
    and "\<not> o_Invert (dro_Raw options)" and "o_RuleSet (dro_Raw options) = []"
    and "\<not> md_IgnoreDestinationIPCIDRMatch md" and "\<not> md_IPCIDRMatchSource md"
  shows "fst (Rule_Match lib net store (DefaultRule r) md) = optionsMatch lib net (dro_Raw options) md"
proof -
  have "wellFormedRule r"
    using NewDefaultRule_built [OF assms(1)] by (simp add: builtRule_def coherent_wellFormed)
  then have "fst (Rule_Match lib net store (DefaultRule r) md) = documentedMatch lib net r md"
    using NewDefaultRule_fields [OF assms(1)] assms(2,3) DefaultRule_Match_plain by auto
  then show ?thesis by (simp add: NewDefaultRule_documented [OF assms(1,4,5)])
qed

theorem route_rule_matches_configured_fields_witness:
  "case NewDefaultRule sampleDialer sampleLib sampleOptions of
     Inr r \<Rightarrow> fst (Rule_Match sampleLib sampleNet sampleStore (DefaultRule r) (sampleContext ''a.org'')) =
             optionsMatch sampleLib sampleNet (dro_Raw sampleOptions) (sampleContext ''a.org'')
   | Inl _ \<Rightarrow> False"
proof -
  have "isOk (NewDefaultRule sampleDialer sampleLib sampleOptions)" by (simp add: build_simps)
  then obtain r where r: "NewDefaultRule sampleDialer sampleLib sampleOptions = Inr r"
    by (cases "NewDefaultRule sampleDialer sampleLib sampleOptions") auto
  have h: "\<not> o_Invert (dro_Raw sampleOptions)" "o_RuleSet (dro_Raw sampleOptions) = []"
    "\<not> md_IgnoreDestinationIPCIDRMatch (sampleContext ''a.org'')" "\<not> md_IPCIDRMatchSource (sampleContext ''a.org'')"
    by (simp_all add: sampleOptions_def zeroRawDefaultRule_def sample_defs)
  show ?thesis using route_rule_matches_configured_fields [OF r h] r by simp
qed

text \<open>
  A top-level rule with a route action names an outbound; only sub-rules of logical rules may
  leave it empty.
\<close>

theorem top_level_route_rule_has_outbound:
  assumes "NewRule dl lib True options = Inr rule" and "Rule_getAction rule = Some (ActionRoute outbound ro)"
  shows "outbound \<noteq> ''''"
  using NewRule_outbound [OF assms] .

theorem top_level_route_rule_has_outbound_witness:
  "case NewRule sampleDialer sampleLib True sampleRule of
     Inr rule \<Rightarrow> (case Rule_getAction rule of Some (ActionRoute outbound _) \<Rightarrow> outbound \<noteq> '''' | _ \<Rightarrow> False)
   | Inl _ \<Rightarrow> False"
proof -
  obtain rule ro where r: "NewRule sampleDialer sampleLib True sampleRule = Inr rule"
    and a: "Rule_getAction rule = Some (ActionRoute ''proxy'' ro)"
    by (simp add: build_simps newAbstractRule_def add_defs)
  show ?thesis using top_level_route_rule_has_outbound [OF r a] r a by simp
qed

text \<open>
  Options with a field that was removed (\<open>geosite\<close>, \<open>geoip\<close>, \<open>source_geoip\<close>, or the old name of
  the rule-set source flag beside rule-sets) are refused.
\<close>

theorem removed_fields_are_refused:
  assumes "o_Geosite (dro_Raw options) \<noteq> [] \<or> o_SourceGeoIP (dro_Raw options) \<noteq> [] \<or>
    o_GeoIP (dro_Raw options) \<noteq> [] \<or>
    o_RuleSet (dro_Raw options) \<noteq> [] \<and> o_Deprecated_RulesetIPCIDRMatchSource (dro_Raw options)"
  shows "\<not> isOk (NewDefaultRule dl lib options)"
proof
  assume "isOk (NewDefaultRule dl lib options)"
  then obtain r where "NewDefaultRule dl lib options = Inr r" by (cases "NewDefaultRule dl lib options") auto
  then obtain r1 r2 where 2: "foldE (defaultAddressSteps lib (dro_Raw options)) r1 = Inr r2"
    and 3: "foldE (defaultOtherSteps lib (dro_Raw options)) r2 = Inr r"
    by (auto simp: NewDefaultRule_def foldE_append)
  from 2 have "o_Geosite (dro_Raw options) = [] \<and> o_SourceGeoIP (dro_Raw options) = [] \<and> o_GeoIP (dro_Raw options) = []"
    unfolding defaultAddressSteps_def by (clarsimp simp: step_Inr)
  moreover from 3 have "o_RuleSet (dro_Raw options) = [] \<or> \<not> o_Deprecated_RulesetIPCIDRMatchSource (dro_Raw options)"
    unfolding defaultOtherSteps_def by (clarsimp simp: step_Inr)
  ultimately show False using assms by blast
qed

theorem removed_fields_are_refused_witness:
  "\<not> isOk (NewDefaultRule sampleDialer sampleLib
      (sampleOptions\<lparr>dro_Raw := zeroRawDefaultRule\<lparr>o_Geosite := [''cn'']\<rparr>\<rparr>))"
  by (rule removed_fields_are_refused) simp

text \<open>
  Starting a rule-set item succeeds exactly when every tag names a rule-set; then the item holds
  the rule-sets of its tags in order, and the reference count of every rule-set has grown by the
  number of tags that name it.
\<close>

theorem rule_set_item_start:
  assumes "\<And>tag p. se_RuleSet env tag = Some p \<Longrightarrow> p \<in> dom store" and "rsi_setList item = []"
    and "RuleSetItem_Start env item store = (err, item', store')"
  shows "(err = None) = list_all (\<lambda>tag. se_RuleSet env tag \<noteq> None) (rsi_tagList item) \<and>
    (err = None \<longrightarrow> map Some (rsi_setList item') = map (se_RuleSet env) (rsi_tagList item) \<and>
       refsOf store' q = refsOf store q + of_nat (count_list (map (se_RuleSet env) (rsi_tagList item)) (Some q)))"
  using startLoop_error_iff [of env "rsi_tagList item" item store]
    startLoop_ok [of env "rsi_tagList item" item store item' store' q] assms
  by (auto simp: RuleSetItem_Start_def list_all_iff)

definition sampleEnv :: StartEnv where
  "sampleEnv = \<lparr>se_RuleSet = (\<lambda>tag. if tag = ''set'' then Some 0 else None), se_Outbound = (\<lambda>_. None), se_ClashServer = True\<rparr>"

theorem rule_set_item_start_witness:
  "refsOf (snd (snd (RuleSetItem_Start sampleEnv (NewRuleSetItem [''set'', ''set''] False False) sampleStore))) 0 = 3"
proof -
  let ?item = "NewRuleSetItem [''set'', ''set''] False False"
  obtain err item' store' where run: "RuleSetItem_Start sampleEnv ?item sampleStore = (err, item', store')"
    using prod_cases3 by blast
  have h: "p \<in> dom sampleStore" if "se_RuleSet sampleEnv tag = Some p" for tag p
    using that by (auto simp: sampleEnv_def sampleStore_def split: if_splits)
  have i: "rsi_setList ?item = []" by (simp add: NewRuleSetItem_def)
  show ?thesis
    using rule_set_item_start [where q = 0, OF h i run] run
    by (simp add: sampleEnv_def NewRuleSetItem_def refsOf_def sampleStore_def)
qed

end
