(* ===== verification/Rule_Set_Props.thy ===== *)
theory Rule_Set_Props
  imports Rule_Set Rule_Build_Props
begin

text \<open>
  Rule-sets over their life: the metadata tells the truth about the built rules in every reachable
  state, a failed update changes nothing, and a rule-set restored from the cache is the one that was
  fetched.
\<close>

section \<open>The metadata of built rules\<close>

lemma headless_front_cidr:
  "foldE (headlessFrontSteps lib o') r0 = Inr r \<Longrightarrow>
     (r_destinationIPCIDRItems r \<noteq> []) = (r_destinationIPCIDRItems r0 \<noteq> [] \<or> isIPCIDRHeadlessRule o')"
  unfolding headlessFrontSteps_def
  by (clarsimp simp: step_Inr fields_addIf isIPCIDRHeadlessRule_def Option.is_none_def split del: if_split)
    (auto split: if_splits)

lemma headless_process_cidr:
  "foldE (headlessProcessSteps lib o') r0 = Inr r \<Longrightarrow> r_destinationIPCIDRItems r = r_destinationIPCIDRItems r0"
  unfolding headlessProcessSteps_def
  by (clarsimp simp: step_Inr fields_addIf split del: if_split)

lemma headless_network_cidr:
  "foldE (headlessNetworkSteps o') r0 = Inr r \<Longrightarrow> r_destinationIPCIDRItems r = r_destinationIPCIDRItems r0"
  unfolding headlessNetworkSteps_def
  by (clarsimp simp: step_Inr fields_addIf split del: if_split)

lemma NewDefaultHeadlessRule_cidr:
  assumes "NewDefaultHeadlessRule nm lib o' = Inr r"
  shows "(r_destinationIPCIDRItems r \<noteq> []) = isIPCIDRHeadlessRule o'"
proof -
  obtain r1 r2 r3 where
    1: "foldE (headlessFrontSteps lib o') (newAbstractRule (h_Invert o') None) = Inr r1" and
    2: "foldE (headlessProcessSteps lib o') r1 = Inr r2" and
    3: "foldE (if nm then headlessNetworkSteps o' else []) r2 = Inr r3" and
    4: "onElse (length (h_AdGuardDomain o') > 0) addDestinationAddress
               (Inr (NewAdGuardDomainItem lib (h_AdGuardDomain o')))
               (map_option NewRawAdGuardDomainItem (h_AdGuardDomainMatcher o')) r3 = Inr r"
    using assms by (auto simp: NewDefaultHeadlessRule_def foldE_append)
  have "r_destinationIPCIDRItems r = r_destinationIPCIDRItems r3" using 4 by (simp add: onElse_Inr fields_addIf)
  also have "\<dots> = r_destinationIPCIDRItems r2" using 3 by (cases nm) (simp_all add: headless_network_cidr)
  also have "\<dots> = r_destinationIPCIDRItems r1" using 2 by (rule headless_process_cidr)
  finally show ?thesis using headless_front_cidr [OF 1] by (simp add: newAbstractRule_def)
qed

definition hasCIDR :: "'rs HeadlessRule \<Rightarrow> bool" where
  "hasCIDR rule = list_ex (\<lambda>r. r_destinationIPCIDRItems r \<noteq> []) (defaultsOf rule)"

lemma hasCIDR_simps [simp]:
  "hasCIDR (DefaultRule r) = (r_destinationIPCIDRItems r \<noteq> [])"
  "hasCIDR (LogicalRule rules mode invert action) = list_ex hasCIDR rules"
  by (auto simp: hasCIDR_def list_ex_iff)

text \<open>Options as they come out of the decoders: every rule has its type spelled out.\<close>

fun normalised :: "('o, 'a) RuleOptions \<Rightarrow> bool" where
  "normalised (RuleOptions type dflt mode rules invert action) = (type \<noteq> '''' \<and> list_all normalised rules)"

lemma list_ex_nth_eq:
  "length xs = length ys \<Longrightarrow> (\<And>k. k < length xs \<Longrightarrow> P (xs ! k) = Q (ys ! k)) \<Longrightarrow> list_ex P xs = list_ex Q ys"
  by (auto simp: list_ex_length)

lemma NewHeadlessRule_cidr:
  "NewHeadlessRule nm lib options = Inr rule \<Longrightarrow> normalised options \<Longrightarrow>
     hasCIDR rule = HasHeadlessRule isIPCIDRHeadlessRule options"
proof (induction nm lib options arbitrary: rule rule: NewHeadlessRule.induct)
  case (1 nm lib type dflt mode rules invert action)
  show ?case
  proof (cases "type = ''default''")
    case True
    with "1.prems" NewDefaultHeadlessRule_cidr show ?thesis by (auto split: if_splits)
  next
    case False
    with "1.prems" obtain subs mode' where type: "type = ''logical''"
      and subs: "mapE_from 0 (\<lambda>i sub. cause [AStr ''sub rule['', ANum (int i), AStr '']''] (NewHeadlessRule nm lib sub)) rules = Inr subs"
      and rule: "rule = LogicalRule subs mode' invert None" and m: "logicalMode mode = Inr mode'"
      and v: "LogicalHeadlessRule_IsValid rules = Inr True"
      by (auto split: if_splits)
    have len: "length subs = length rules" using subs by (rule mapE_from_length)
    have "hasCIDR (subs ! k) = HasHeadlessRule isIPCIDRHeadlessRule (rules ! k)" if "k < length subs" for k
    proof -
      have k: "NewHeadlessRule nm lib (rules ! k) = Inr (subs ! k)"
        using mapE_from_nth [OF subs, of k] that len by simp
      have "rules ! k \<in> set rules" "normalised (rules ! k)"
        using that len "1.prems"(2) by (auto simp: list_all_length)
      then show ?thesis using "1.IH" k False type m v by auto
    qed
    then show ?thesis using type by (simp add: rule list_ex_nth_eq [OF len])
  qed
qed

lemma buildRules_cidr:
  assumes "buildRules nm lib options = Inr rules" and "list_all normalised options"
  shows "rm_ContainsIPCIDRRule (ruleSetMetadata options) = list_ex hasCIDR rules"
proof -
  have len: "length rules = length options"
    using assms(1) unfolding buildRules_def by (rule mapE_from_length)
  have "hasCIDR (rules ! k) = HasHeadlessRule isIPCIDRHeadlessRule (options ! k)" if "k < length rules" for k
    using mapE_from_nth [OF assms(1) [unfolded buildRules_def], of k] that len assms(2)
    by (simp add: list_all_length NewHeadlessRule_cidr)
  then show ?thesis by (simp add: ruleSetMetadata_def list_ex_nth_eq [OF len])
qed

section \<open>The life of a rule-set\<close>

text \<open>
  The operations on a rule-set object, in any order, together with the number of references that are
  held: taken by \<open>IncRef\<close> and not yet given back by \<open>DecRef\<close>. A release that panics is a step too.
\<close>

inductive ruleSetTransition :: "bool \<Rightarrow> Lib \<Rightarrow> RuleSetObj \<times> int \<Rightarrow> RuleSetObj \<times> int \<Rightarrow> bool" for nm lib where
  reload: "list_all normalised options \<Longrightarrow> reloadRules nm lib options s = (err, s', notified) \<Longrightarrow>
    ruleSetTransition nm lib (s, held) (s', held)"
| incRef: "ruleSetTransition nm lib (s, held) (RuleSet_IncRef s, held + 1)"
| decRef: "ruleSetTransition nm lib (s, held) (snd (RuleSet_DecRef s), held - 1)"
| cleanup: "ruleSetTransition nm lib (s, held) (RuleSet_Cleanup s, held)"
| register: "ruleSetTransition nm lib (s, held) (snd (RegisterCallback s), held)"
| unregister: "ruleSetTransition nm lib (s, held) (UnregisterCallback e s, held)"
| close: "ruleSetTransition nm lib (s, held) (RuleSet_Close s, held)"

inductive_cases ruleSetTransitionE: "ruleSetTransition nm lib s s'"

text \<open>The invariant: every rule is well-formed, and a rule with an address condition is announced in the metadata.\<close>

definition ruleSetInv :: "RuleSetObj \<Rightarrow> bool" where
  "ruleSetInv s =
     (list_all builtTree (ls_rules s) \<and>
      (list_ex hasCIDR (ls_rules s) \<longrightarrow> rm_ContainsIPCIDRRule (ls_metadata s)))"

lemma buildRules_built: "buildRules nm lib options = Inr rules \<Longrightarrow> list_all builtTree rules"
  unfolding buildRules_def by (rule mapE_from_all) (auto intro: NewHeadlessRule_built)

lemma reloadRules_inv:
  assumes "ruleSetInv s" and "list_all normalised options" and "reloadRules nm lib options s = (err, s', notified)"
  shows "ruleSetInv s'"
  using assms buildRules_built buildRules_cidr
  by (auto simp: reloadRules_def ruleSetInv_def split: sum.splits)

lemma reloadRules_refs: "reloadRules nm lib options s = (err, s', notified) \<Longrightarrow> ls_refs s' = ls_refs s"
  by (auto simp: reloadRules_def split: sum.splits)

definition countedInv :: "RuleSetObj \<times> int \<Rightarrow> bool" where
  "countedInv = (\<lambda>(s, held). ruleSetInv s \<and> ls_refs s = word_of_int held)"

lemma ruleSetTransition_inv: "ruleSetTransition nm lib a b \<Longrightarrow> countedInv a \<Longrightarrow> countedInv b"
proof (induction rule: ruleSetTransition.induct)
  case (reload options s err s' notified held)
  then show ?case using reloadRules_inv reloadRules_refs by (auto simp: countedInv_def)
qed (auto simp: countedInv_def ruleSetInv_def RuleSet_IncRef_def RuleSet_DecRef_def RuleSet_Cleanup_def RegisterCallback_def
    UnregisterCallback_def RuleSet_Close_def Let_def split: if_splits)

lemma newRuleSetObj_inv: "countedInv (newRuleSetObj options, 0)"
  by (simp add: newRuleSetObj_def ruleSetInv_def countedInv_def)

interpretation rule_set_life: invariant_system "ruleSetTransition nm lib" "(newRuleSetObj options, 0)" countedInv for nm lib options
  by unfold_locales (blast intro: newRuleSetObj_inv ruleSetTransition_inv)+

lemma sint_word_of_int32: "- (2 ^ 31) \<le> i \<Longrightarrow> i < 2 ^ 31 \<Longrightarrow> sint (word_of_int i :: u32) = i"
  by (simp add: signed_of_int signed_take_bit_int_eq_self)

text \<open>With a number of references that 32 bits can hold, a release panics exactly when none is held.\<close>

lemma DecRef_panics_iff:
  assumes "ls_refs s = word_of_int held" and "- (2 ^ 31) < held" and "held < 2 ^ 31"
  shows "fst (RuleSet_DecRef s) \<noteq> None \<longleftrightarrow> held \<le> 0"
proof -
  have "ls_refs s - 1 = word_of_int (held - 1)" using assms(1) by simp
  then have "sint (ls_refs s - 1) = held - 1" using assms(2,3) sint_word_of_int32 [of "held - 1"] by simp
  then show ?thesis by (auto simp: RuleSet_DecRef_def Let_def)
qed

lemma Cleanup_drops_iff:
  assumes "ls_refs s = word_of_int held" and "- (2 ^ 31) < held" and "held < 2 ^ 31"
  shows "RuleSet_Cleanup s = (if held = 0 then s\<lparr>ls_rules := []\<rparr> else s)"
proof -
  have "ls_refs s = 0 \<longleftrightarrow> sint (ls_refs s) = 0" using signed_word_eqI [of "ls_refs s" 0] by auto
  also have "sint (ls_refs s) = held" using assms by (simp add: sint_word_of_int32)
  finally show ?thesis by (simp add: RuleSet_Cleanup_def)
qed

section \<open>Rules without address conditions\<close>

abbreviation ignoring :: "InboundContext \<Rightarrow> InboundContext" where
  "ignoring md \<equiv> md\<lparr>md_IgnoreDestinationIPCIDRMatch := True\<rparr>"

lemma reset_ignoring:
  "ResetRuleCache (ignoring md) = ignoring (ResetRuleCache md)"
  "ResetRuleMatchCache (ignoring md) = ignoring (ResetRuleMatchCache md)"
  "setDidMatch (ignoring md) = ignoring (setDidMatch md)"
  by (simp_all add: ResetRuleCache_def ResetRuleMatchCache_def setDidMatch_def)

lemma groupItems_noCIDR:
  "r_destinationIPCIDRItems r = [] \<Longrightarrow> groupItems r md g = ownItems r g"
  by (simp add: groupItems_def)

lemma semDefault_noCIDR:
  assumes "r_destinationIPCIDRItems r = []"
    and "\<And>item md B. r_ruleSetItem r = Some item \<Longrightarrow> RS item (ignoring md) B = RS item md B"
  shows "semDefault lib net RS r (ignoring md) B = semDefault lib net RS r md B"
proof -
  have "required r (ignoring md) = required r md" "satisfied lib net r (ignoring md) = satisfied lib net r md"
    "otherFields lib net r (ignoring md) = otherFields lib net r md"
    "onlyDeferred r (ignoring md) = onlyDeferred r md"
    using assms(1) by (simp_all add: required_def satisfied_def otherFields_def onlyDeferred_def groupItems_noCIDR)
  moreover have "(case r_ruleSetItem r of None \<Rightarrow> {F} | Some item \<Rightarrow> RS item (setDidMatch (ignoring md)) F) =
      (case r_ruleSetItem r of None \<Rightarrow> {F} | Some item \<Rightarrow> RS item (setDidMatch md) F)" for F
    using assms(2) by (cases "r_ruleSetItem r") (simp_all add: reset_ignoring)
  ultimately show ?thesis by (simp only: semDefault_def)
qed

lemma semRule_noCIDR:
  assumes "\<not> hasCIDR rule"
    and "\<And>r item md B. r \<in> set (defaultsOf rule) \<Longrightarrow> r_ruleSetItem r = Some item \<Longrightarrow> RS item (ignoring md) B = RS item md B"
  shows "semRule lib net RS rule (ignoring md) B = semRule lib net RS rule md B"
  using assms
proof (induction lib net RS rule md B rule: semRule.induct)
  case (1 lib net RS r md B)
  then show ?case by (simp add: semDefault_noCIDR)
next
  case (2 lib net RS rules mode invert action md B)
  let ?E = "if invert then {} else B"
  have "semRule lib net RS rule (ignoring (ResetRuleCache md)) ?E = semRule lib net RS rule (ResetRuleCache md) ?E"
    if "rule \<in> set rules" for rule
  proof (rule "2.IH" [OF refl that])
    show "\<not> hasCIDR rule" using "2.prems"(1) that by (auto simp: list_ex_iff)
    show "RS item (ignoring md) B = RS item md B" if "r \<in> set (defaultsOf rule)" "r_ruleSetItem r = Some item" for r item md B
      by (rule "2.prems"(2) [OF _ that(2)]) (use that(1) \<open>rule \<in> set rules\<close> in auto)
  qed
  then have "map (\<lambda>rule. semRule lib net RS rule (ignoring (ResetRuleCache md)) ?E) rules =
      map (\<lambda>rule. semRule lib net RS rule (ResetRuleCache md) ?E) rules"
    by simp
  then show ?case by (simp only: semRule.simps reset_ignoring Let_def)
qed

lemma Rule_WithAddressLimit_False:
  "\<not> Rule_WithAddressLimit store rule \<Longrightarrow>
     \<not> hasCIDR rule \<and>
     (\<forall>r \<in> set (defaultsOf rule). \<forall>item. r_ruleSetItem r = Some item \<longrightarrow> \<not> RuleSetItem_ContainsDestinationIPCIDRRule store item)"
  by (induction store rule rule: Rule_WithAddressLimit.induct) (auto simp: list_ex_iff split: if_splits option.splits)

lemma semRuleSetItem_noCIDR:
  assumes inv: "\<And>p s. store p = Some s \<Longrightarrow> ruleSetInv s"
    and "\<not> RuleSetItem_ContainsDestinationIPCIDRRule store item" and "\<not> rsi_ipCidrMatchSource item"
  shows "semRuleSetItem lib net store item (ignoring md) B = semRuleSetItem lib net store item md B"
proof -
  have nested: "nestedContext item (ignoring md) = ignoring (nestedContext item md)"
    by (simp add: nestedContext_def ResetRuleMatchCache_def)
  have "\<not> hasCIDR b" if b: "b \<in> set (branches store item)" for b
  proof -
    obtain p where p': "p \<in> set (rsi_setList item)" "b \<in> set (case store p of None \<Rightarrow> [] | Some s \<Rightarrow> ls_rules s)"
      using b by (auto simp: branches_def)
    then obtain s where p: "p \<in> set (rsi_setList item)" "store p = Some s" "b \<in> set (ls_rules s)"
      by (cases "store p") auto
    then have "\<not> rm_ContainsIPCIDRRule (ls_metadata s)"
      using assms(2,3) by (force simp: RuleSetItem_ContainsDestinationIPCIDRRule_def list_ex_iff split: option.splits)
    then show ?thesis using inv [OF p(2)] p(3) by (auto simp: ruleSetInv_def list_ex_iff)
  qed
  then have "semRule lib net (\<lambda>_ _ _. {}) b (ignoring (nestedContext item md)) B =
      semRule lib net (\<lambda>_ _ _. {}) b (nestedContext item md) B" if "b \<in> set (branches store item)" for b
    using that by (simp add: semRule_noCIDR)
  then show ?thesis by (simp add: semRuleSetItem_branches nested)
qed

lemma DNSRule_two_phases_agree:
  assumes "\<not> Rule_WithAddressLimit store rule" and inv: "\<And>p s. store p = Some s \<Longrightarrow> ruleSetInv s"
    and "\<And>r item. r \<in> set (defaultsOf rule) \<Longrightarrow> r_ruleSetItem r = Some item \<Longrightarrow> \<not> rsi_ipCidrMatchSource item"
  shows "fst (DNSRule_Match lib net store rule md) \<longleftrightarrow> fst (DNSRule_MatchAddressLimit lib net store rule md)"
proof -
  have "semRouter lib net store rule (ignoring md) {} = semRouter lib net store rule md {}"
  proof (rule semRule_noCIDR)
    show "\<not> hasCIDR rule" using Rule_WithAddressLimit_False [OF assms(1)] by blast
    show "semRuleSetItem lib net store item (ignoring md) B = semRuleSetItem lib net store item md B"
      if "r \<in> set (defaultsOf rule)" "r_ruleSetItem r = Some item" for r item md B
      using Rule_WithAddressLimit_False [OF assms(1)] assms(3) [OF that] that
      by (intro semRuleSetItem_noCIDR [OF inv]) auto
  qed
  then show ?thesis
    by (simp only: DNSRule_Match_sem DNSRule_MatchAddressLimit_def Rule_Match_sem)
qed

section \<open>Updates of remote rule-sets\<close>

lemma loadBytes_error: "loadBytes nm lib dec content s = (Some err, s', notified) \<Longrightarrow> s' = s \<and> notified = []"
  by (auto simp: loadBytes_def reloadRules_def Let_def split: sum.splits)

lemma fetch_error:
  "fetch nm lib dec ex now s = (Some err, s', notified) \<Longrightarrow> s' = s \<and> notified = []"
  by (auto simp: fetch_def fetch_ok_def Let_def split: sum.splits if_splits prod.splits option.splits
      dest!: loadBytes_error)

lemma saveRuleSet_frame [simp]:
  "rr_set (saveRuleSet ex saved s) = rr_set s" "rr_lastUpdated (saveRuleSet ex saved s) = rr_lastUpdated s"
  "rr_lastEtag (saveRuleSet ex saved s) = rr_lastEtag s"
  "rr_DownloadDetour (saveRuleSet ex saved s) = rr_DownloadDetour s"
  by (simp_all add: saveRuleSet_def)

lemma fetch_notModified_frame:
  "rr_set (fetch_notModified ex now s) = rr_set s \<and> rr_lastEtag (fetch_notModified ex now s) = rr_lastEtag s \<and>
   rr_lastUpdated (fetch_notModified ex now s) = Some now"
  by (simp add: fetch_notModified_def Let_def split: option.splits)

text \<open>What loading the same content gives does not depend on the rules loaded before.\<close>

lemma loadBytes_determined:
  assumes "loadBytes nm lib dec content s = (None, s', n)" and "ls_fileFormat t = ls_fileFormat s"
  obtains t' m where "loadBytes nm lib dec content t = (None, t', m)"
    and "ls_rules t' = ls_rules s'" and "ls_metadata t' = ls_metadata s'"
  using assms by (auto simp: loadBytes_def reloadRules_def split: sum.splits)

lemma fetch_ok_saved:
  assumes "fetch nm lib dec ex now s = (None, s', notified)"
    and "ex_Do ex (if rr_lastEtag s \<noteq> '''' then Some (rr_lastEtag s) else None) = Inr response"
    and "rp_Status response = 200" and "rr_cacheFile s \<noteq> None" and "\<And>saved. isOk (ex_SaveRuleSet ex saved)"
  obtains content n where "loadBytes nm lib dec content (rr_set s) = (None, rr_set s', n)"
    and "rp_Body response = Inr content"
    and "rr_cacheFile s' = Some (Some (SavedBinary_MarshalBinary (ex_writeUvarint ex)
      \<lparr>sb_Content = content, sb_LastUpdated = Some now, sb_LastEtag = rr_lastEtag s'\<rparr>))"
    and "rr_lastUpdated s' = Some now"
  using assms
  by (auto simp: fetch_def fetch_ok_def Let_def saveRuleSet_def split: sum.splits option.splits prod.splits)

section \<open>Properties\<close>

text \<open>The rule-set of the witnesses: one rule with an address set, decoded from any content.\<close>

definition sampleHeadless :: HeadlessOptions where
  "sampleHeadless =
     RuleOptions ''default''
       \<lparr>h_QueryType = [], h_Network = [], h_Domain = [], h_DomainSuffix = [], h_DomainKeyword = [],
        h_DomainRegex = [], h_SourceIPCIDR = [], h_IPCIDR = [], h_SourcePort = [], h_SourcePortRange = [],
        h_Port = [], h_PortRange = [], h_ProcessName = [], h_ProcessPath = [], h_ProcessPathRegex = [],
        h_PackageName = [], h_NetworkType = [], h_NetworkIsExpensive = False, h_NetworkIsConstrained = False,
        h_WIFISSID = [], h_WIFIBSSID = [], h_NetworkInterfaceAddress = None, h_DefaultInterfaceAddress = [],
        h_Invert = False, h_DomainMatcher = None, h_SourceIPSet = None, h_IPSet = Some (\<lambda>a. a = Addr4 1),
        h_AdGuardDomain = [], h_AdGuardDomainMatcher = None\<rparr> '''' [] False ()"

definition sampleSetOptions :: RuleSetOptions where
  "sampleSetOptions =
     \<lparr>so_Type = ''remote'', so_Tag = ''set'', so_Format = ''binary'', so_InlineRules = [], so_Path = '''',
      so_DownloadDetour = '''', so_UpdateInterval = 0\<rparr>"

definition sampleDecoders :: Decoders where
  "sampleDecoders =
     \<lparr>dec_json = (\<lambda>_. Inl (E_Lib ''json'')), dec_srs = (\<lambda>_. Inr \<lparr>pc_Version = 4, pc_Rules = [sampleHeadless]\<rparr>)\<rparr>"

definition sampleExchange :: Exchange where
  "sampleExchange =
     \<lparr>ex_Do = (\<lambda>_. Inr \<lparr>rp_Status = 200, rp_Etag = ''v1'', rp_Body = Inr ''content''\<rparr>),
      ex_SaveRuleSet = (\<lambda>_. Inr ()), ex_writeUvarint = putUvarint\<rparr>"

definition sampleRemote :: RemoteRuleSet where
  "sampleRemote = (NewRemoteRuleSet sampleSetOptions)\<lparr>rr_cacheFile := Some None\<rparr>"

lemmas remote_simps = sampleHeadless_def sampleSetOptions_def sampleDecoders_def sampleExchange_def sampleRemote_def
  NewRemoteRuleSet_def newRuleSetObj_def fetch_def fetch_ok_def loadBytes_def decodeContent_def reloadRules_def
  buildRules_def PlainRuleSetCompat_Upgrade_def NewDefaultHeadlessRule_def headlessFrontSteps_def
  headlessProcessSteps_def headlessNetworkSteps_def on_def onE_def onElse_def someNonEmpty_def
  DefaultHeadlessRule_IsValid_def saveRuleSet_def

text \<open>
  C8: in every state a rule-set can reach by reloads of rules whose types are spelled out (as the
  decoders leave them), references, releases (also ones that panic), clean-ups, callback registrations
  and closing, every rule is well-formed, and a rule with an address condition is announced in the
  metadata. As long as the number of references held, \<open>IncRef\<close> less \<open>DecRef\<close>, is strictly between the bounds of
  the 32-bit counter, a release panics exactly when no reference is held, and a clean-up drops the
  rules exactly when none is held.
\<close>

theorem rule_set_state_invariant:
  assumes "(ruleSetTransition networkManager lib)\<^sup>*\<^sup>* (newRuleSetObj options, 0) (s, held)"
  shows "list_all builtTree (ls_rules s) \<and>
    (list_ex hasCIDR (ls_rules s) \<longrightarrow> rm_ContainsIPCIDRRule (ls_metadata s)) \<and>
    (- (2 ^ 31) < held \<and> held < 2 ^ 31 \<longrightarrow>
      (fst (RuleSet_DecRef s) \<noteq> None \<longleftrightarrow> held \<le> 0) \<and>
      RuleSet_Cleanup s = (if held = 0 then s\<lparr>ls_rules := []\<rparr> else s))"
proof -
  have "ruleSetInv s" and refs: "ls_refs s = word_of_int held"
    using rule_set_life.reachable [OF assms] by (simp_all add: countedInv_def)
  then show ?thesis using DecRef_panics_iff [OF refs] Cleanup_drops_iff [OF refs] by (simp add: ruleSetInv_def)
qed

theorem rule_set_state_invariant_witness:
  "fst (RuleSet_DecRef (RuleSet_IncRef (fst (snd (reloadRules False sampleLib [sampleHeadless] (newRuleSetObj sampleSetOptions)))))) = None \<and>
   fst (RuleSet_DecRef (snd (RuleSet_DecRef (RuleSet_IncRef (fst (snd (reloadRules False sampleLib [sampleHeadless] (newRuleSetObj sampleSetOptions)))))))) \<noteq> None"
proof -
  let ?s0 = "newRuleSetObj sampleSetOptions"
  obtain err s1 n where r: "reloadRules False sampleLib [sampleHeadless] ?s0 = (err, s1, n)"
    using prod_cases3 by blast
  have "ruleSetTransition False sampleLib (?s0, 0) (s1, 0)"
    by (rule ruleSetTransition.reload [OF _ r]) (simp add: sampleHeadless_def)
  then have 1: "(ruleSetTransition False sampleLib)\<^sup>*\<^sup>* (?s0, 0) (RuleSet_IncRef s1, 0 + 1)"
    by (meson ruleSetTransition.incRef rtranclp.rtrancl_into_rtrancl rtranclp.rtrancl_refl)
  then have 2: "(ruleSetTransition False sampleLib)\<^sup>*\<^sup>* (?s0, 0) (snd (RuleSet_DecRef (RuleSet_IncRef s1)), 0 + 1 - 1)"
    by (meson ruleSetTransition.decRef rtranclp.rtrancl_into_rtrancl)
  show ?thesis using rule_set_state_invariant [OF 1] rule_set_state_invariant [OF 2] by (simp add: r)
qed

text \<open>
  A DNS rule that reports no address limit is decided before the lookup: matching it again with
  the address conditions gives the same answer, provided its rule-sets are in a reachable state and
  are not matched against the source.
\<close>

theorem dns_rule_without_address_limit:
  assumes "\<not> Rule_WithAddressLimit store rule" and "\<And>p s. store p = Some s \<Longrightarrow> ruleSetInv s"
    and "\<And>r item. r \<in> set (defaultsOf rule) \<Longrightarrow> r_ruleSetItem r = Some item \<Longrightarrow> \<not> rsi_ipCidrMatchSource item"
  shows "fst (DNSRule_Match lib net store rule md) = fst (DNSRule_MatchAddressLimit lib net store rule md)"
  using DNSRule_two_phases_agree [OF assms] by simp

theorem dns_rule_without_address_limit_witness:
  "fst (DNSRule_Match sampleLib sampleNet Map.empty
      (DefaultRule (sampleDomainRule [''a.org''] (Some sampleItem))) (sampleContext ''b.org'')) =
   fst (DNSRule_MatchAddressLimit sampleLib sampleNet Map.empty
      (DefaultRule (sampleDomainRule [''a.org''] (Some sampleItem))) (sampleContext ''b.org''))"
  by (rule dns_rule_without_address_limit)
    (auto simp: sample_defs RuleSetItem_ContainsDestinationIPCIDRRule_def)

text \<open>
  A DNS rule whose rule-set is matched against the source (\<open>rule_set_ip_cidr_match_source\<close>) and
  has a branch made of address fields only is accepted for every client before the lookup, and
  reports no address limit, so that the address fields are never compared with the source.
\<close>

theorem dns_rule_set_source_condition_is_skipped:
  assumes "r_allItems r \<noteq> []" and "\<not> r_invert r" and "r_items r = []"
    and "list_all (\<lambda>g. ownItems r g = []) allGroups" and "r_destinationIPCIDRItems r = []"
    and "r_ruleSetItem r = Some item" and "rsi_ipCidrMatchSource item"
    and "DefaultRule b \<in> set (branches store item)" and "wellFormedRule b" and "\<not> r_invert b"
    and "r_items b = []" and "list_all (\<lambda>g. ownItems b g = []) allGroups" and "r_ruleSetItem b = None"
  shows "fst (DNSRule_Match lib net store (DefaultRule r) md) \<and> \<not> Rule_WithAddressLimit store (DefaultRule r)"
proof
  have own: "ownItems r g = []" "ownItems b g = []" for g
    using assms(4,12) by (simp_all add: list_all_iff)
  have nested: "nestedContext item (ignoring md) = ignoring (nestedContext item md)"
    by (simp add: nestedContext_def ResetRuleMatchCache_def)
  have req: "required r (ignoring md) = {}" "required b (ignoring m) = {}" "satisfied lib net b (ignoring m) = {}"
    "satisfied lib net r (ignoring md) = {}" for m
    by (simp_all add: required_def satisfied_def groupItems_ignored own)
  have "{} \<in> semDefault lib net (\<lambda>_ _ _. {}) b (ignoring (nestedContext item md)) {}"
    using assms(11) by (simp add: semDefault_plain [OF assms(9,10,13)] req otherFields_def)
  then have "{} \<in> semRuleSetItem lib net store item (setDidMatch (ignoring md)) {}"
    using assms(8) by (force simp: semRuleSetItem_branches nested)
  then show "fst (DNSRule_Match lib net store (DefaultRule r) md)"
    using assms(1,2,3,6) by (auto simp: DNSRule_Match_sem semDefault_def Let_def req otherFields_def)
  show "\<not> Rule_WithAddressLimit store (DefaultRule r)"
    using assms(5,6,7) by (simp add: RuleSetItem_ContainsDestinationIPCIDRRule_def)
qed

definition sampleSourceRule :: "RuleSetItem abstractDefaultRule" where
  "sampleSourceRule = (newAbstractRule False None)\<lparr>r_ruleSetItem := Some (sampleItem\<lparr>rsi_ipCidrMatchSource := True\<rparr>),
     r_allItems := [InRuleSet]\<rparr>"

definition sampleSourceStore :: RuleSetStore where
  "sampleSourceStore = sampleStore(0 \<mapsto> (newRuleSetObj sampleSetOptions)\<lparr>ls_rules := [DefaultRule (sampleAddressRule\<lparr>r_invert := False\<rparr>)]\<rparr>)"

theorem dns_rule_set_source_condition_is_skipped_witness:
  "fst (DNSRule_Match sampleLib sampleNet sampleSourceStore (DefaultRule sampleSourceRule) (sampleContext ''a.org'')) \<and>
   \<not> Rule_WithAddressLimit sampleSourceStore (DefaultRule sampleSourceRule)"
  by (rule dns_rule_set_source_condition_is_skipped [where b = "sampleAddressRule\<lparr>r_invert := False\<rparr>"
        and item = "sampleItem\<lparr>rsi_ipCidrMatchSource := True\<rparr>"])
    (simp_all add: sampleSourceRule_def sampleSourceStore_def newAbstractRule_def sample_defs allGroups_def
      branches_def wellFormedRule_def newRuleSetObj_def)

text \<open>
  C9: an update of a remote rule-set that fails, wherever it fails, changes nothing of it and
  notifies no one: the rules in force, the metadata, the update time, the entity tag and the cache
  stay.
\<close>

theorem failed_update_changes_nothing:
  assumes "fetch networkManager lib dec ex now s = (Some err, s', notified)"
  shows "s' = s \<and> notified = []"
  using fetch_error [OF assms] .

theorem failed_update_changes_nothing_witness:
  "snd (fetch False sampleLib sampleDecoders (sampleExchange\<lparr>ex_Do := \<lambda>_. Inl (E_Lib ''timeout'')\<rparr>) 7 sampleRemote) = (sampleRemote, [])"
proof -
  let ?x = "sampleExchange\<lparr>ex_Do := \<lambda>_. Inl (E_Lib ''timeout'')\<rparr>"
  obtain err s' n where r: "fetch False sampleLib sampleDecoders ?x 7 sampleRemote = (err, s', n)"
    using prod_cases3 by blast
  then have "err = Some (E_Lib ''timeout'')" by (simp add: fetch_def)
  with r have "fetch False sampleLib sampleDecoders ?x 7 sampleRemote = (Some (E_Lib ''timeout''), s', n)" by simp
  from failed_update_changes_nothing [OF this] r show ?thesis by simp
qed

text \<open>
  C10: a remote rule-set whose content was fetched (status 200) and saved in the cache file comes back on
  the next start, from the bytes that were saved, with the same rules, metadata and entity tag and with
  the time of the update in whole seconds, without any request. The download detour must exist, the
  format of the rule-set must be the same, the variable-length integers of the library must be readable,
  the content and the tag must be shorter than 2^48 bytes, and the time must be after 1970 and fit into
  64 bits.
\<close>

theorem restart_restores_fetched_rule_set:
  assumes "fetch networkManager lib dec ex now s = (None, s', notified)"
    and "ex_Do ex (if rr_lastEtag s \<noteq> '''' then Some (rr_lastEtag s) else None) = Inr response"
    and "rp_Status response = 200" and "rr_cacheFile s \<noteq> None" and "\<And>saved. isOk (ex_SaveRuleSet ex saved)"
    and "rr_DownloadDetour t = '''' \<or> outboundExists (rr_DownloadDetour t)"
    and "ls_fileFormat (rr_set t) = ls_fileFormat (rr_set s)"
    and "writesUvarint (ex_writeUvarint ex)" and "\<And>content. rp_Body response = Inr content \<Longrightarrow> length content < 2 ^ 48"
    and "length (rr_lastEtag s') < 2 ^ 48" and "0 \<le> now" and "now < 2 ^ 63 * 1000000000"
  shows "case RemoteRuleSet_StartContext networkManager lib dec outboundExists (rr_cacheFile s') ex2 later t of
    (err, t', _) \<Rightarrow> err = None \<and> ls_rules (rr_set t') = ls_rules (rr_set s') \<and>
      ls_metadata (rr_set t') = ls_metadata (rr_set s') \<and>
      rr_lastUpdated t' = Some (now div 1000000000 * 1000000000) \<and> rr_lastEtag t' = rr_lastEtag s'"
proof -
  obtain content n where l: "loadBytes networkManager lib dec content (rr_set s) = (None, rr_set s', n)"
    and b: "rp_Body response = Inr content"
    and c: "rr_cacheFile s' = Some (Some (SavedBinary_MarshalBinary (ex_writeUvarint ex)
      \<lparr>sb_Content = content, sb_LastUpdated = Some now, sb_LastEtag = rr_lastEtag s'\<rparr>))"
    using fetch_ok_saved [OF assms(1-5)] by blast
  let ?saved = "\<lparr>sb_Content = content, sb_LastUpdated = Some now, sb_LastEtag = rr_lastEtag s'\<rparr>"
  have sec: "0 \<le> now div 1000000000" "now div 1000000000 < 2 ^ 63"
    using assms(11,12) by (auto simp: pos_imp_zdiv_nonneg_iff div_less_iff_less_mult)
  have "savable ?saved" using assms(9) [OF b] assms(10) sec by (simp add: savable_def unixSeconds_def)
  from SavedBinary_round_trip [OF assms(8) this] sec(1)
  have ld: "loadSaved (rr_cacheFile s') =
      Some \<lparr>sb_Content = content, sb_LastUpdated = Some (now div 1000000000 * 1000000000), sb_LastEtag = rr_lastEtag s'\<rparr>"
    by (simp add: c loadSaved_def SavedBinary_MarshalBinary_def unixSeconds_def timeUnix_def zeroUnix_def)
  obtain t' m where t: "loadBytes networkManager lib dec content (rr_set t) = (None, t', m)"
    "ls_rules t' = ls_rules (rr_set s')" "ls_metadata t' = ls_metadata (rr_set s')"
    using loadBytes_determined [OF l assms(7)] .
  show ?thesis
    using assms(6) t by (auto simp: RemoteRuleSet_StartContext_def ld Let_def)
qed

theorem restart_restores_fetched_rule_set_witness:
  "case RemoteRuleSet_StartContext False sampleLib sampleDecoders (\<lambda>_. False)
      (rr_cacheFile (fst (snd (fetch False sampleLib sampleDecoders sampleExchange 7000000009 sampleRemote))))
      sampleExchange 9000000000 sampleRemote of
    (err, t', _) \<Rightarrow> err = None \<and> length (ls_rules (rr_set t')) = 1 \<and> rr_lastUpdated t' = Some 7000000000 \<and> rr_lastEtag t' = ''v1''"
proof -
  obtain err s' n where r: "fetch False sampleLib sampleDecoders sampleExchange 7000000009 sampleRemote = (err, s', n)"
    using prod_cases3 by blast
  then have e: "err = None" and s': "length (ls_rules (rr_set s')) = 1" "rr_lastEtag s' = ''v1''"
    by (auto simp: remote_simps)
  have h: "ex_Do sampleExchange (if rr_lastEtag sampleRemote \<noteq> '''' then Some (rr_lastEtag sampleRemote) else None) =
      Inr \<lparr>rp_Status = 200, rp_Etag = ''v1'', rp_Body = Inr ''content''\<rparr>"
    "rp_Status \<lparr>rp_Status = 200, rp_Etag = ''v1'', rp_Body = Inr ''content''\<rparr> = 200"
    "rr_cacheFile sampleRemote \<noteq> None" "\<And>saved. isOk (ex_SaveRuleSet sampleExchange saved)"
    "rr_DownloadDetour sampleRemote = '''' \<or> (\<lambda>_. False) (rr_DownloadDetour sampleRemote)"
    "ls_fileFormat (rr_set sampleRemote) = ls_fileFormat (rr_set sampleRemote)"
    "writesUvarint (ex_writeUvarint sampleExchange)"
    "rp_Body \<lparr>rp_Status = 200, rp_Etag = ''v1'', rp_Body = Inr ''content''\<rparr> = Inr content \<Longrightarrow> length content < 2 ^ 48"
    "length (rr_lastEtag s') < 2 ^ 48" "(0::int) \<le> 7000000009" "(7000000009::int) < 2 ^ 63 * 1000000000" for content
    by (auto simp: sampleExchange_def sampleRemote_def NewRemoteRuleSet_def sampleSetOptions_def s' writesUvarint_def readUvarint_putUvarint)
  show ?thesis
    using restart_restores_fetched_rule_set [OF r [unfolded e] h, of sampleExchange 9000000000] s'
    by (simp add: r split_beta)
qed

end
