(* ===== verification/Srs.thy ===== *)
theory Srs
  imports Bytes Rule_Set
begin

text \<open>
  The binary format of rule-sets, \<open>common/srs\<close>: \<open>binary.go\<close>, \<open>ip_set.go\<close>, \<open>ip_cidr.go\<close>, and the choice of its
  version by the compiler of rule-sets (\<open>cmd/sing-box/cmd_rule_set_compile.go\<close>).

  A reader takes the bytes that are left and returns a value and the rest. The writers return all bytes;
  what they have written before an error is not modelled, as the caller removes the file, and the file
  itself does not fail. The code outside the repository is the record \<open>SrsLib\<close>: the matchers of
  \<open>sing/common/domain\<close> with their encoding (a matcher that is read is its match function and its \<open>Dump\<close>, together
  with the number of bytes it took), the ranges of an address set of \<open>netipx\<close>, \<open>AddrFromIP\<close>, \<open>WriteUvarint\<close> and the
  ordered map of \<open>sing\<close>, the size of a \<open>HeadlessRule\<close> in memory, and the compression of \<open>zlib\<close>. A compressed
  stream that breaks off ends the data.
\<close>

record SrsLib =
  sr_WriteUvarint :: "u64 \<Rightarrow> bytes"
  sr_matcherBytes :: "string list \<Rightarrow> string list \<Rightarrow> bool \<Rightarrow> bytes"
  sr_ReadMatcher :: "bytes \<Rightarrow> ((Matcher \<times> string list \<times> string list) \<times> nat) result"
  sr_adGuardBytes :: "string list \<Rightarrow> bytes"
  sr_ReadAdGuardMatcher :: "bytes \<Rightarrow> ((Matcher \<times> string list) \<times> nat) result"
  sr_IPSet :: "IPSetOp list \<Rightarrow> (Addr \<times> Addr) list result"
  sr_Contains :: "(Addr \<times> Addr) list \<Rightarrow> IPSet"
  sr_Prefixes :: "(Addr \<times> Addr) list \<Rightarrow> string list"
  sr_AddrFromIP :: "bytes \<Rightarrow> Addr"
  sr_Put :: "(InterfaceType \<times> Prefix list) list \<Rightarrow> InterfaceType \<times> Prefix list \<Rightarrow> (InterfaceType \<times> Prefix list) list"
  sr_sizeofHeadlessRule :: nat
  sr_compress :: "bytes \<Rightarrow> bytes"
  sr_uncompress :: "bytes \<Rightarrow> bytes result"

section \<open>Readers and writers\<close>

definition readByte :: "bytes \<Rightarrow> (u8 \<times> bytes) result" where
  "readByte bs = (case bs of [] \<Rightarrow> Inl EOF | b # rest \<Rightarrow> Inr (b, rest))"

text \<open>\<open>make([]T, n)\<close> with elements of the given size on a 64-bit platform.\<close>

definition makeslice :: "nat \<Rightarrow> u64 \<Rightarrow> unit result" where
  "makeslice elemSize n =
     (if elemSize * unat n > 2 ^ 48 then Inl (Panic [AStr ''runtime error: makeslice: len out of range'']) else Inr ())"

text \<open>A loop of \<open>n\<close> reads, and a value that is read and stored.\<close>

fun readEach :: "(bytes \<Rightarrow> ('a \<times> bytes) result) \<Rightarrow> nat \<Rightarrow> bytes \<Rightarrow> ('a list \<times> bytes) result" where
  "readEach rd 0 bs = Inr ([], bs)"
| "readEach rd (Suc n) bs = bindE (rd bs) (\<lambda>(x, bs1). bindE (readEach rd n bs1) (\<lambda>(xs, rest). Inr (x # xs, rest)))"

definition storeRead :: "('a \<Rightarrow> 'b) \<Rightarrow> ('a \<times> bytes) result \<Rightarrow> ('b \<times> bytes) result" where
  "storeRead f r = bindE r (\<lambda>(v, rest). Inr (f v, rest))"

fun concatE :: "bytes result list \<Rightarrow> bytes result" where
  "concatE [] = Inr []"
| "concatE (r # rs) = bindE r (\<lambda>b. bindE (concatE rs) (\<lambda>bs. Inr (b @ bs)))"

definition optionalItem :: "bool \<Rightarrow> bytes result \<Rightarrow> bytes result" where
  "optionalItem cond r = (if cond then r else Inr [])"

definition writeBool :: "bool \<Rightarrow> bytes" where
  "writeBool b = [if b then 1 else 0]"

definition writeCount :: "SrsLib \<Rightarrow> 'a list \<Rightarrow> bytes" where
  "writeCount S xs = sr_WriteUvarint S (word_of_nat (length xs))"

text \<open>A slice of bytes behind its length.\<close>

definition readSlice :: "bytes \<Rightarrow> (bytes \<times> bytes) result" where
  "readSlice bs = bindE (readUvarint bs) (\<lambda>(n, bs1). bindE (makeslice 1 n) (\<lambda>_. readN (unat n) bs1))"

definition writeSlice :: "SrsLib \<Rightarrow> bytes \<Rightarrow> bytes" where
  "writeSlice S b = writeCount S b @ b"

definition readRuleItemString :: "bytes \<Rightarrow> (string list \<times> bytes) result" where
  "readRuleItemString bs =
     bindE (readUvarint bs) (\<lambda>(n, bs1).
       bindE (makeslice 16 n) (\<lambda>_. readEach (\<lambda>b. storeRead stringOf (readSlice b)) (unat n) bs1))"

definition writeRuleItemString :: "SrsLib \<Rightarrow> u8 \<Rightarrow> string list \<Rightarrow> bytes" where
  "writeRuleItemString S itemType value = itemType # writeCount S value @ concat (map (\<lambda>s. writeSlice S (bytesOf s)) value)"

text \<open>\<open>option.InterfaceType\<close> as a \<open>uint8\<close>.\<close>

definition interfaceTypeOf :: "u8 \<Rightarrow> InterfaceType" where
  "interfaceTypeOf b =
     (if b = 0 then InterfaceTypeWIFI else if b = 1 then InterfaceTypeCellular else if b = 2 then InterfaceTypeEthernet
      else if b = 3 then InterfaceTypeOther else UnnamedInterfaceType b)"

fun interfaceTypeByte :: "InterfaceType \<Rightarrow> u8" where
  "interfaceTypeByte InterfaceTypeWIFI = 0"
| "interfaceTypeByte InterfaceTypeCellular = 1"
| "interfaceTypeByte InterfaceTypeEthernet = 2"
| "interfaceTypeByte InterfaceTypeOther = 3"
| "interfaceTypeByte (UnnamedInterfaceType b) = b"

definition readRuleItemUint8 :: "bytes \<Rightarrow> (InterfaceType list \<times> bytes) result" where
  "readRuleItemUint8 bs =
     bindE (readUvarint bs) (\<lambda>(n, bs1). bindE (makeslice 1 n) (\<lambda>_. storeRead (map interfaceTypeOf) (readN (unat n) bs1)))"

definition writeRuleItemUint8 :: "SrsLib \<Rightarrow> u8 \<Rightarrow> InterfaceType list \<Rightarrow> bytes" where
  "writeRuleItemUint8 S itemType value = itemType # writeCount S value @ map interfaceTypeByte value"

fun uint16s :: "bytes \<Rightarrow> u16 list" where
  "uint16s (a # b # bs) = word_of_nat (bigEndian [a, b]) # uint16s bs"
| "uint16s _ = []"

definition readRuleItemUint16 :: "bytes \<Rightarrow> (u16 list \<times> bytes) result" where
  "readRuleItemUint16 bs =
     bindE (readUvarint bs) (\<lambda>(n, bs1). bindE (makeslice 2 n) (\<lambda>_. storeRead uint16s (readN (2 * unat n) bs1)))"

definition writeRuleItemUint16 :: "SrsLib \<Rightarrow> u8 \<Rightarrow> u16 list \<Rightarrow> bytes" where
  "writeRuleItemUint16 S itemType value = itemType # writeCount S value @ concat (map (\<lambda>w. bytesOfNat 2 (unat w)) value)"

section \<open>Address sets and prefixes\<close>

definition readRange :: "SrsLib \<Rightarrow> bytes \<Rightarrow> ((Addr \<times> Addr) \<times> bytes) result" where
  "readRange S bs =
     bindE (readSlice bs) (\<lambda>(fromBytes, bs1).
       storeRead (\<lambda>toBytes. (sr_AddrFromIP S fromBytes, sr_AddrFromIP S toBytes)) (readSlice bs1))"

definition writeRange :: "SrsLib \<Rightarrow> Addr \<times> Addr \<Rightarrow> bytes" where
  "writeRange S rr = writeSlice S (addrAsSlice (fst rr)) @ writeSlice S (addrAsSlice (snd rr))"

definition readIPSet :: "SrsLib \<Rightarrow> bytes \<Rightarrow> ((Addr \<times> Addr) list \<times> bytes) result" where
  "readIPSet S bs =
     bindE (readByte bs) (\<lambda>(version, bs1).
       if version \<noteq> 1 then Inl (E_Lib ''invalid argument'')
       else bindE (readN 8 bs1) (\<lambda>(lengthBytes, bs2).
              let n = word_of_nat (bigEndian lengthBytes)
              in bindE (makeslice 48 n) (\<lambda>_. readEach (readRange S) (unat n) bs2)))"

definition writeIPSet :: "SrsLib \<Rightarrow> (Addr \<times> Addr) list \<Rightarrow> bytes" where
  "writeIPSet S rr = 1 # bytesOfNat 8 (length rr) @ concat (map (writeRange S) rr)"

text \<open>\<open>netip.PrefixFrom\<close>: all lengths out of range give the same invalid prefix, of length \<open>-1\<close>.\<close>

definition prefixFrom :: "Addr \<Rightarrow> nat \<Rightarrow> Prefix" where
  "prefixFrom a n = (if a = AddrNone then Prefix AddrNone 0 else if prefixIsValid (Prefix a n) then Prefix a n else Prefix a 255)"

definition readPrefix :: "SrsLib \<Rightarrow> bytes \<Rightarrow> (Prefix \<times> bytes) result" where
  "readPrefix S bs =
     bindE (readSlice bs) (\<lambda>(addrSlice, bs1).
       storeRead (\<lambda>prefixBits. prefixFrom (sr_AddrFromIP S addrSlice) (unat prefixBits)) (readByte bs1))"

definition writePrefix :: "SrsLib \<Rightarrow> Prefix \<Rightarrow> bytes" where
  "writePrefix S p =
     writeSlice S (addrAsSlice (prefixAddr p)) @ [if prefixIsValid p then word_of_nat (prefixBits p) else 0xFF]"

definition readPrefixes :: "SrsLib \<Rightarrow> bytes \<Rightarrow> (Prefix list \<times> bytes) result" where
  "readPrefixes S bs = bindE (readUvarint bs) (\<lambda>(n, bs1). readEach (readPrefix S) (unat n) bs1)"

definition writePrefixes :: "SrsLib \<Rightarrow> Prefix list \<Rightarrow> bytes" where
  "writePrefixes S ps = writeCount S ps @ concat (map (writePrefix S) ps)"

definition readEntry :: "SrsLib \<Rightarrow> bytes \<Rightarrow> ((InterfaceType \<times> Prefix list) \<times> bytes) result" where
  "readEntry S bs =
     bindE (readByte bs) (\<lambda>(key, bs1). storeRead (\<lambda>value. (interfaceTypeOf key, value)) (readPrefixes S bs1))"

definition writeEntry :: "SrsLib \<Rightarrow> InterfaceType \<times> Prefix list \<Rightarrow> bytes" where
  "writeEntry S e = interfaceTypeByte (fst e) # writePrefixes S (snd e)"

section \<open>Default rules\<close>

definition emptyHeadlessRule :: DefaultHeadlessRuleOptions where
  "emptyHeadlessRule =
     \<lparr>h_QueryType = [], h_Network = [], h_Domain = [], h_DomainSuffix = [], h_DomainKeyword = [], h_DomainRegex = [],
      h_SourceIPCIDR = [], h_IPCIDR = [], h_SourcePort = [], h_SourcePortRange = [], h_Port = [], h_PortRange = [],
      h_ProcessName = [], h_ProcessPath = [], h_ProcessPathRegex = [], h_PackageName = [], h_NetworkType = [],
      h_NetworkIsExpensive = False, h_NetworkIsConstrained = False, h_WIFISSID = [], h_WIFIBSSID = [],
      h_NetworkInterfaceAddress = None, h_DefaultInterfaceAddress = [], h_Invert = False, h_DomainMatcher = None,
      h_SourceIPSet = None, h_IPSet = None, h_AdGuardDomain = [], h_AdGuardDomainMatcher = None\<rparr>"

text \<open>One case of the loop of \<open>readDefaultRule\<close>, for an item whose type has been read.\<close>

definition readDomainItem ::
  "SrsLib \<Rightarrow> bool \<Rightarrow> DefaultHeadlessRuleOptions \<Rightarrow> bytes \<Rightarrow> (DefaultHeadlessRuleOptions \<times> bytes) result" where
  "readDomainItem S recover rule bs =
     bindE (sr_ReadMatcher S bs) (\<lambda>((matcher, domains, domainSuffixes), n).
       let rule1 = rule\<lparr>h_DomainMatcher := Some matcher\<rparr>
       in Inr (if recover then rule1\<lparr>h_Domain := domains, h_DomainSuffix := domainSuffixes\<rparr> else rule1, drop n bs))"

definition readAdGuardItem ::
  "SrsLib \<Rightarrow> bool \<Rightarrow> DefaultHeadlessRuleOptions \<Rightarrow> bytes \<Rightarrow> (DefaultHeadlessRuleOptions \<times> bytes) result" where
  "readAdGuardItem S recover rule bs =
     bindE (sr_ReadAdGuardMatcher S bs) (\<lambda>((matcher, ruleLines), n).
       let rule1 = rule\<lparr>h_AdGuardDomainMatcher := Some matcher\<rparr>
       in Inr (if recover then rule1\<lparr>h_AdGuardDomain := ruleLines\<rparr> else rule1, drop n bs))"

definition storeSourceIPSet :: "SrsLib \<Rightarrow> bool \<Rightarrow> DefaultHeadlessRuleOptions \<Rightarrow> (Addr \<times> Addr) list \<Rightarrow> DefaultHeadlessRuleOptions" where
  "storeSourceIPSet S recover rule rr =
     (let rule1 = rule\<lparr>h_SourceIPSet := Some (sr_Contains S rr)\<rparr>
      in if recover then rule1\<lparr>h_SourceIPCIDR := sr_Prefixes S rr\<rparr> else rule1)"

definition storeIPSet :: "SrsLib \<Rightarrow> bool \<Rightarrow> DefaultHeadlessRuleOptions \<Rightarrow> (Addr \<times> Addr) list \<Rightarrow> DefaultHeadlessRuleOptions" where
  "storeIPSet S recover rule rr =
     (let rule1 = rule\<lparr>h_IPSet := Some (sr_Contains S rr)\<rparr>
      in if recover then rule1\<lparr>h_IPCIDR := sr_Prefixes S rr\<rparr> else rule1)"

definition readInterfaceAddresses :: "SrsLib \<Rightarrow> bytes \<Rightarrow> ((InterfaceType \<times> Prefix list) list \<times> bytes) result" where
  "readInterfaceAddresses S bs =
     bindE (readUvarint bs) (\<lambda>(n, bs1). storeRead (foldl (sr_Put S) []) (readEach (readEntry S) (unat n) bs1))"

definition readRuleItem ::
  "SrsLib \<Rightarrow> bool \<Rightarrow> u8 \<Rightarrow> u8 \<Rightarrow> DefaultHeadlessRuleOptions \<Rightarrow> bytes \<Rightarrow> (DefaultHeadlessRuleOptions \<times> bytes) result" where
  "readRuleItem S recover lastItemType itemType rule bs =
     (if itemType = 0 then storeRead (\<lambda>v. rule\<lparr>h_QueryType := v\<rparr>) (readRuleItemUint16 bs)
      else if itemType = 1 then storeRead (\<lambda>v. rule\<lparr>h_Network := v\<rparr>) (readRuleItemString bs)
      else if itemType = 2 then readDomainItem S recover rule bs
      else if itemType = 3 then storeRead (\<lambda>v. rule\<lparr>h_DomainKeyword := v\<rparr>) (readRuleItemString bs)
      else if itemType = 4 then storeRead (\<lambda>v. rule\<lparr>h_DomainRegex := v\<rparr>) (readRuleItemString bs)
      else if itemType = 5 then storeRead (storeSourceIPSet S recover rule) (readIPSet S bs)
      else if itemType = 6 then storeRead (storeIPSet S recover rule) (readIPSet S bs)
      else if itemType = 7 then storeRead (\<lambda>v. rule\<lparr>h_SourcePort := v\<rparr>) (readRuleItemUint16 bs)
      else if itemType = 8 then storeRead (\<lambda>v. rule\<lparr>h_SourcePortRange := v\<rparr>) (readRuleItemString bs)
      else if itemType = 9 then storeRead (\<lambda>v. rule\<lparr>h_Port := v\<rparr>) (readRuleItemUint16 bs)
      else if itemType = 10 then storeRead (\<lambda>v. rule\<lparr>h_PortRange := v\<rparr>) (readRuleItemString bs)
      else if itemType = 11 then storeRead (\<lambda>v. rule\<lparr>h_ProcessName := v\<rparr>) (readRuleItemString bs)
      else if itemType = 12 then storeRead (\<lambda>v. rule\<lparr>h_ProcessPath := v\<rparr>) (readRuleItemString bs)
      else if itemType = 13 then storeRead (\<lambda>v. rule\<lparr>h_PackageName := v\<rparr>) (readRuleItemString bs)
      else if itemType = 14 then storeRead (\<lambda>v. rule\<lparr>h_WIFISSID := v\<rparr>) (readRuleItemString bs)
      else if itemType = 15 then storeRead (\<lambda>v. rule\<lparr>h_WIFIBSSID := v\<rparr>) (readRuleItemString bs)
      else if itemType = 16 then readAdGuardItem S recover rule bs
      else if itemType = 17 then storeRead (\<lambda>v. rule\<lparr>h_ProcessPathRegex := v\<rparr>) (readRuleItemString bs)
      else if itemType = 18 then storeRead (\<lambda>v. rule\<lparr>h_NetworkType := v\<rparr>) (readRuleItemUint8 bs)
      else if itemType = 19 then Inr (rule\<lparr>h_NetworkIsExpensive := True\<rparr>, bs)
      else if itemType = 20 then Inr (rule\<lparr>h_NetworkIsConstrained := True\<rparr>, bs)
      else if itemType = 21 then storeRead (\<lambda>v. rule\<lparr>h_NetworkInterfaceAddress := Some v\<rparr>) (readInterfaceAddresses S bs)
      else if itemType = 22 then storeRead (\<lambda>v. rule\<lparr>h_DefaultInterfaceAddress := v\<rparr>) (readPrefixes S bs)
      else Inl (E_New [AStr ''unknown rule item type: '', ANum (uint itemType), AStr '', last type: '', ANum (uint lastItemType)]))"

text \<open>No read goes back: what is left is not longer than what was there. So the loop over the items ends.\<close>

named_theorems shrinks

definition shrinking :: "nat \<Rightarrow> ('a \<times> bytes) result \<Rightarrow> bool" where
  "shrinking n r = (\<forall>x rest. r = Inr (x, rest) \<longrightarrow> length rest \<le> n)"

lemma shrinking_bindE:
  "shrinking n r \<Longrightarrow> (\<And>x rest. r = Inr (x, rest) \<Longrightarrow> length rest \<le> n \<Longrightarrow> shrinking n (f (x, rest))) \<Longrightarrow> shrinking n (bindE r f)"
  by (cases r) (fastforce simp: shrinking_def)+

lemma shrinking_make: "shrinking n (f ()) \<Longrightarrow> shrinking n (bindE (makeslice k m) f)"
  by (simp add: makeslice_def shrinking_def)

lemma shrinking_storeRead [shrinks]: "shrinking n r \<Longrightarrow> shrinking n (storeRead f r)"
  by (cases r) (auto simp: shrinking_def storeRead_def)

lemma shrinking_Inr [simp]: "shrinking n (Inr (x, rest)) \<longleftrightarrow> length rest \<le> n"
  by (simp add: shrinking_def)

lemma shrinking_Inl [simp]: "shrinking n (Inl e)"
  by (simp add: shrinking_def)

lemma shrinking_mono: "shrinking m r \<Longrightarrow> m \<le> n \<Longrightarrow> shrinking n r"
  by (auto simp: shrinking_def)

lemma readUvarint_loop_shrinks: "shrinking (length bs) (readUvarint_loop i x bs)"
  by (induction i x bs rule: readUvarint_loop.induct) (auto intro: shrinking_mono)

lemma readUvarint_shrinks [shrinks]: "length bs \<le> n \<Longrightarrow> shrinking n (readUvarint bs)"
  unfolding readUvarint_def by (rule shrinking_mono [OF readUvarint_loop_shrinks])

lemma readN_shrinks [shrinks]: "length bs \<le> n \<Longrightarrow> shrinking n (readN k bs)"
  by (auto simp: readN_def)

lemma readByte_shrinks [shrinks]: "length bs \<le> n \<Longrightarrow> shrinking n (readByte bs)"
  by (cases bs) (auto simp: readByte_def)

lemma readEach_shrinks [shrinks]:
  assumes "\<And>bs. length bs \<le> n \<Longrightarrow> shrinking n (rd bs)" and "length bs \<le> n"
  shows "shrinking n (readEach rd k bs)"
  using assms(2)
proof (induction k arbitrary: bs)
  case (Suc k)
  then show ?case using assms(1) by (auto intro!: shrinking_bindE)
qed simp

lemma readSlice_shrinks [shrinks]: "length bs \<le> n \<Longrightarrow> shrinking n (readSlice bs)"
  unfolding readSlice_def by (auto intro!: shrinking_bindE shrinking_make shrinks)

lemma readRuleItem_lists_shrink [shrinks]:
  "length bs \<le> n \<Longrightarrow> shrinking n (readRuleItemString bs)"
  "length bs \<le> n \<Longrightarrow> shrinking n (readRuleItemUint8 bs)"
  "length bs \<le> n \<Longrightarrow> shrinking n (readRuleItemUint16 bs)"
  unfolding readRuleItemString_def readRuleItemUint8_def readRuleItemUint16_def
  by (auto intro!: shrinking_bindE shrinking_make shrinks)

lemma readRange_shrinks [shrinks]: "length bs \<le> n \<Longrightarrow> shrinking n (readRange S bs)"
  unfolding readRange_def by (auto intro!: shrinking_bindE shrinks)

lemma readPrefix_shrinks [shrinks]: "length bs \<le> n \<Longrightarrow> shrinking n (readPrefix S bs)"
  unfolding readPrefix_def by (auto intro!: shrinking_bindE shrinks)

lemma readPrefixes_shrinks [shrinks]: "length bs \<le> n \<Longrightarrow> shrinking n (readPrefixes S bs)"
  unfolding readPrefixes_def by (auto intro!: shrinking_bindE shrinks)

lemma readEntry_shrinks [shrinks]: "length bs \<le> n \<Longrightarrow> shrinking n (readEntry S bs)"
  unfolding readEntry_def by (auto intro!: shrinking_bindE shrinks)

lemma readInterfaceAddresses_shrinks [shrinks]: "length bs \<le> n \<Longrightarrow> shrinking n (readInterfaceAddresses S bs)"
  unfolding readInterfaceAddresses_def by (auto intro!: shrinking_bindE shrinks)

lemma readIPSet_shrinks [shrinks]: "length bs \<le> n \<Longrightarrow> shrinking n (readIPSet S bs)"
  unfolding readIPSet_def by (auto simp: Let_def intro!: shrinking_bindE shrinking_make shrinks)

lemma readDomainItem_shrinks [shrinks]: "length bs \<le> n \<Longrightarrow> shrinking n (readDomainItem S recover rule bs)"
  by (cases "sr_ReadMatcher S bs") (auto simp: readDomainItem_def Let_def split: prod.split)

lemma readAdGuardItem_shrinks [shrinks]: "length bs \<le> n \<Longrightarrow> shrinking n (readAdGuardItem S recover rule bs)"
  by (cases "sr_ReadAdGuardMatcher S bs") (auto simp: readAdGuardItem_def Let_def split: prod.split)

lemma readRuleItem_shrinks: "shrinking (length bs) (readRuleItem S recover lastItemType itemType rule bs)"
  unfolding readRuleItem_def by (simp add: shrinks)

function readItems :: "SrsLib \<Rightarrow> bool \<Rightarrow> u8 \<Rightarrow> DefaultHeadlessRuleOptions \<Rightarrow> bytes \<Rightarrow> (DefaultHeadlessRuleOptions \<times> bytes) result" where
  "readItems S recover lastItemType rule [] = Inl EOF"
| "readItems S recover lastItemType rule (itemType # bs) =
     (if itemType = 0xFF then storeRead (\<lambda>b. rule\<lparr>h_Invert := b \<noteq> 0\<rparr>) (readByte bs)
      else case readRuleItem S recover lastItemType itemType rule bs of
             Inl err \<Rightarrow> Inl err
           | Inr (rule', rest) \<Rightarrow> readItems S recover itemType rule' rest)"
  by pat_completeness auto
termination
proof (relation "measure (\<lambda>(S, recover, lastItemType, rule, bs). length bs)", goal_cases)
  case (2 S recover lastItemType rule itemType bs x rule' rest)
  then have "readRuleItem S recover lastItemType itemType rule bs = Inr (rule', rest)" by simp
  then show ?case using readRuleItem_shrinks [of bs S recover lastItemType itemType rule] by (simp add: shrinking_def)
qed simp

lemma readItems_shrinks: "shrinking (length bs) (readItems S recover lastItemType rule bs)"
proof (induction S recover lastItemType rule bs rule: readItems.induct)
  case (2 S recover lastItemType rule itemType bs)
  have "shrinking (length bs) (readRuleItem S recover lastItemType itemType rule bs)" by (rule readRuleItem_shrinks)
  then show ?case using 2
    by (auto simp: shrinks split: sum.splits intro!: shrinking_mono [where n = "Suc (length bs)"])
qed simp

definition readDefaultRule :: "SrsLib \<Rightarrow> bool \<Rightarrow> bytes \<Rightarrow> (DefaultHeadlessRuleOptions \<times> bytes) result" where
  "readDefaultRule S recover bs = readItems S recover 0 emptyHeadlessRule bs"

definition writeRuleItemCIDR :: "SrsLib \<Rightarrow> Lib \<Rightarrow> u8 \<Rightarrow> string list \<Rightarrow> bytes result" where
  "writeRuleItemCIDR S lib itemType value =
     bindE (mapE_from 0 (parseCIDREntry lib) value) (\<lambda>ops.
       bindE (sr_IPSet S ops) (\<lambda>ipSet. Inr (itemType # writeIPSet S ipSet)))"

definition versioned :: "bool \<Rightarrow> string \<Rightarrow> bytes \<Rightarrow> bytes result" where
  "versioned supported message bytes = (if supported then Inr bytes else Inl (E_New [AStr message]))"

text \<open>The items of \<open>writeDefaultRule\<close> in the order in which they are written.\<close>

definition writeFrontItems :: "SrsLib \<Rightarrow> Lib \<Rightarrow> u8 \<Rightarrow> DefaultHeadlessRuleOptions \<Rightarrow> bytes result list" where
  "writeFrontItems S lib generateVersion rule =
     [optionalItem (length (h_QueryType rule) > 0) (Inr (writeRuleItemUint16 S 0 (h_QueryType rule))),
      optionalItem (length (h_Network rule) > 0) (Inr (writeRuleItemString S 1 (h_Network rule))),
      optionalItem (length (h_Domain rule) > 0 \<or> length (h_DomainSuffix rule) > 0)
        (Inr (2 # sr_matcherBytes S (h_Domain rule) (h_DomainSuffix rule) (generateVersion = 1))),
      optionalItem (length (h_DomainKeyword rule) > 0) (Inr (writeRuleItemString S 3 (h_DomainKeyword rule))),
      optionalItem (length (h_DomainRegex rule) > 0) (Inr (writeRuleItemString S 4 (h_DomainRegex rule))),
      optionalItem (length (h_SourceIPCIDR rule) > 0)
        (cause [AStr ''source_ip_cidr''] (writeRuleItemCIDR S lib 5 (h_SourceIPCIDR rule))),
      optionalItem (length (h_IPCIDR rule) > 0) (cause [AStr ''ipcidr''] (writeRuleItemCIDR S lib 6 (h_IPCIDR rule))),
      optionalItem (length (h_SourcePort rule) > 0) (Inr (writeRuleItemUint16 S 7 (h_SourcePort rule))),
      optionalItem (length (h_SourcePortRange rule) > 0) (Inr (writeRuleItemString S 8 (h_SourcePortRange rule))),
      optionalItem (length (h_Port rule) > 0) (Inr (writeRuleItemUint16 S 9 (h_Port rule))),
      optionalItem (length (h_PortRange rule) > 0) (Inr (writeRuleItemString S 10 (h_PortRange rule))),
      optionalItem (length (h_ProcessName rule) > 0) (Inr (writeRuleItemString S 11 (h_ProcessName rule))),
      optionalItem (length (h_ProcessPath rule) > 0) (Inr (writeRuleItemString S 12 (h_ProcessPath rule))),
      optionalItem (length (h_ProcessPathRegex rule) > 0) (Inr (writeRuleItemString S 17 (h_ProcessPathRegex rule))),
      optionalItem (length (h_PackageName rule) > 0) (Inr (writeRuleItemString S 13 (h_PackageName rule)))]"

definition writeNetworkItems :: "SrsLib \<Rightarrow> u8 \<Rightarrow> DefaultHeadlessRuleOptions \<Rightarrow> bytes result list" where
  "writeNetworkItems S generateVersion rule =
     [optionalItem (length (h_NetworkType rule) > 0)
        (versioned (generateVersion \<ge> 3) ''`network_type` rule item is only supported in version 3 or later''
           (writeRuleItemUint8 S 18 (h_NetworkType rule))),
      optionalItem (h_NetworkIsExpensive rule)
        (versioned (generateVersion \<ge> 3) ''`network_is_expensive` rule item is only supported in version 3 or later'' [19]),
      optionalItem (h_NetworkIsConstrained rule)
        (versioned (generateVersion \<ge> 3) ''`network_is_constrained` rule item is only supported in version 3 or later'' [20]),
      optionalItem (someNonEmpty (h_NetworkInterfaceAddress rule))
        (versioned (generateVersion \<ge> 4) ''`network_interface_address` rule item is only supported in version 4 or later''
           (21 # writeCount S (entriesOf (h_NetworkInterfaceAddress rule)) @
            concat (map (writeEntry S) (entriesOf (h_NetworkInterfaceAddress rule))))),
      optionalItem (length (h_DefaultInterfaceAddress rule) > 0)
        (versioned (generateVersion \<ge> 4) ''`default_interface_address` rule item is only supported in version 4 or later''
           (22 # writePrefixes S (h_DefaultInterfaceAddress rule)))]"

definition writeLastItems :: "SrsLib \<Rightarrow> u8 \<Rightarrow> DefaultHeadlessRuleOptions \<Rightarrow> bytes result list" where
  "writeLastItems S generateVersion rule =
     [optionalItem (length (h_WIFISSID rule) > 0) (Inr (writeRuleItemString S 14 (h_WIFISSID rule))),
      optionalItem (length (h_WIFIBSSID rule) > 0) (Inr (writeRuleItemString S 15 (h_WIFIBSSID rule))),
      optionalItem (length (h_AdGuardDomain rule) > 0)
        (versioned (generateVersion \<ge> 2) ''AdGuard rule items is only supported in version 2 or later''
           (16 # sr_adGuardBytes S (h_AdGuardDomain rule)))]"

definition writeDefaultRule :: "SrsLib \<Rightarrow> Lib \<Rightarrow> u8 \<Rightarrow> DefaultHeadlessRuleOptions \<Rightarrow> bytes result" where
  "writeDefaultRule S lib generateVersion rule =
     bindE (concatE (writeFrontItems S lib generateVersion rule @ writeNetworkItems S generateVersion rule @
                     writeLastItems S generateVersion rule))
       (\<lambda>items. Inr (0 # items @ 0xFF # writeBool (h_Invert rule)))"

section \<open>Rules and rule-sets\<close>

definition unknownType :: "string \<Rightarrow> Error" where
  "unknownType type = Panic [AStr ''unknown rule type: '', AStr type]"

text \<open>\<open>writeLogicalRule\<close>, given what \<open>writeRule\<close> does with each of its rules.\<close>

definition writeLogicalRule :: "SrsLib \<Rightarrow> string \<Rightarrow> bytes result list \<Rightarrow> bool \<Rightarrow> bytes result" where
  "writeLogicalRule S mode written invert =
     (if mode \<noteq> ''and'' \<and> mode \<noteq> ''or'' then Inl (Panic [AStr ''unknown logical mode: '', AStr mode])
      else bindE (concatE written) (\<lambda>body.
             Inr (1 # (if mode = ''and'' then 0 else 1) # writeCount S written @ body @ writeBool invert)))"

lemma writeCount_map [simp]: "writeCount S (map f xs) = writeCount S xs"
  by (simp add: writeCount_def)

fun writeRule :: "SrsLib \<Rightarrow> Lib \<Rightarrow> u8 \<Rightarrow> HeadlessOptions \<Rightarrow> bytes result" where
  "writeRule S lib generateVersion (RuleOptions type dflt mode rules invert _) =
     (if type = ''default'' then writeDefaultRule S lib generateVersion dflt
      else if type = ''logical'' then
        writeLogicalRule S mode (map (writeRule S lib generateVersion) rules) invert
      else Inl (unknownType type))"

declare writeLogicalRule_def [simp]

definition MagicBytes :: bytes where
  "MagicBytes = [0x53, 0x52, 0x53]"

definition srs_Write :: "SrsLib \<Rightarrow> Lib \<Rightarrow> HeadlessOptions list \<Rightarrow> u8 \<Rightarrow> bytes result" where
  "srs_Write S lib rules generateVersion =
     bindE (concatE (map (writeRule S lib generateVersion) rules)) (\<lambda>body.
       Inr (MagicBytes @ generateVersion # sr_compress S (writeCount S rules @ body)))"

definition defaultOptions :: "DefaultHeadlessRuleOptions \<Rightarrow> HeadlessOptions" where
  "defaultOptions d = RuleOptions ''default'' d '''' [] False ()"

definition logicalOptions :: "string \<Rightarrow> HeadlessOptions list \<Rightarrow> bool \<Rightarrow> HeadlessOptions" where
  "logicalOptions mode rules invert = RuleOptions ''logical'' emptyHeadlessRule mode rules invert ()"

text \<open>
  \<open>readRule\<close>, \<open>readLogicalRule\<close> and the loop over a number of rules, whose error message is given. The nested
  rules of a rule are read from what is left after its head, so the recursion ends.
\<close>

function readRule :: "SrsLib \<Rightarrow> bool \<Rightarrow> bytes \<Rightarrow> (HeadlessOptions \<times> bytes) result"
and readLogicalRule :: "SrsLib \<Rightarrow> bool \<Rightarrow> bytes \<Rightarrow> (HeadlessOptions \<times> bytes) result"
and readRules :: "SrsLib \<Rightarrow> bool \<Rightarrow> string \<Rightarrow> nat \<Rightarrow> nat \<Rightarrow> bytes \<Rightarrow> (HeadlessOptions list \<times> bytes) result" where
  "readRule S recover bs =
     (case bs of
        [] \<Rightarrow> Inl EOF
      | ruleType # bs1 \<Rightarrow>
          if ruleType = 0 then storeRead defaultOptions (readDefaultRule S recover bs1)
          else if ruleType = 1 then readLogicalRule S recover bs1
          else Inl (E_New [AStr ''unknown rule type: '', ANum (uint ruleType)]))"
| "readLogicalRule S recover bs =
     (case bs of
        [] \<Rightarrow> Inl EOF
      | mode # bs1 \<Rightarrow>
          if mode > 1 then Inl (E_New [AStr ''unknown logical mode: '', ANum (uint mode)])
          else case readUvarint bs1 of
                 Inl err \<Rightarrow> Inl err
               | Inr (n, bs2) \<Rightarrow>
                   (case makeslice (sr_sizeofHeadlessRule S) n of
                      Inl err \<Rightarrow> Inl err
                    | Inr _ \<Rightarrow>
                        (case readRules S recover ''read logical rule ['' 0 (unat n) bs2 of
                           Inl err \<Rightarrow> Inl err
                         | Inr (rules, bs3) \<Rightarrow>
                             storeRead (\<lambda>b. logicalOptions (if mode = 0 then ''and'' else ''or'') rules (b \<noteq> 0)) (readByte bs3))))"
| "readRules S recover message i n bs =
     (case n of
        0 \<Rightarrow> Inr ([], bs)
      | Suc k \<Rightarrow>
          (case cause [AStr message, ANum (int i), AStr '']''] (readRule S recover bs) of
             Inl err \<Rightarrow> Inl err
           | Inr (rule, bs1) \<Rightarrow> storeRead (\<lambda>rules. rule # rules) (readRules S recover message (Suc i) k bs1)))"
  by pat_completeness auto

lemma readRules_shrink:
  "readRule_readLogicalRule_readRules_dom (Inl (S, recover, bs)) \<Longrightarrow> shrinking (length bs) (readRule S recover bs)"
  "readRule_readLogicalRule_readRules_dom (Inr (Inl (S', recover', bs'))) \<Longrightarrow> shrinking (length bs') (readLogicalRule S' recover' bs')"
  "readRule_readLogicalRule_readRules_dom (Inr (Inr (S'', recover'', message, i, n, bs''))) \<Longrightarrow>
     shrinking (length bs'') (readRules S'' recover'' message i n bs'')"
proof (induction rule: readRule_readLogicalRule_readRules.pinduct)
  case (1 S recover bs)
  show ?case
  proof (cases bs)
    case (Cons t bs1)
    have "shrinking (length bs) (readDefaultRule S recover bs1)"
      unfolding readDefaultRule_def by (rule shrinking_mono [OF readItems_shrinks]) (simp add: Cons)
    moreover have "t = 1 \<Longrightarrow> shrinking (length bs) (readLogicalRule S recover bs1)"
      using shrinking_mono [OF 1(2)] Cons by simp
    ultimately show ?thesis using Cons 1(1) by (simp add: readRule.psimps shrinks)
  qed (use 1(1) in \<open>simp add: readRule.psimps\<close>)
next
  case (2 S recover bs)
  show ?case
  proof (cases bs)
    case (Cons m bs1)
    show ?thesis
    proof (cases "readUvarint bs1")
      case (Inr p)
      obtain n bs2 where p: "p = (n, bs2)" by fastforce
      then have l: "length bs2 \<le> length bs1" using Inr readUvarint_shrinks [of bs1 "length bs1"] by (simp add: shrinking_def)
      show ?thesis
      proof (cases "\<not> m > 1 \<and> makeslice (sr_sizeofHeadlessRule S) n = Inr ()")
        case True
        then have sh: "shrinking (length bs2) (readRules S recover ''read logical rule ['' 0 (unat n) bs2)"
          using 2(2) Cons Inr p by simp
        show ?thesis
        proof (cases "readRules S recover ''read logical rule ['' 0 (unat n) bs2")
          case (Inr q)
          obtain rules bs3 where q: "q = (rules, bs3)" by fastforce
          then have "length bs3 \<le> length bs" using sh Inr l Cons by (simp add: shrinking_def)
          then show ?thesis using True Cons \<open>readUvarint bs1 = Inr p\<close> p q Inr 2(1)
            by (simp add: readLogicalRule.psimps shrinking_storeRead readByte_shrinks)
        qed (use True Cons Inr p 2(1) in \<open>simp add: readLogicalRule.psimps\<close>)
      qed (use Cons Inr p 2(1) in \<open>auto simp: readLogicalRule.psimps split: sum.splits\<close>)
    qed (use Cons 2(1) in \<open>simp add: readLogicalRule.psimps\<close>)
  qed (use 2(1) in \<open>simp add: readLogicalRule.psimps\<close>)
next
  case (3 S recover message i n bs)
  show ?case
  proof (cases n)
    case (Suc k)
    show ?thesis
    proof (cases "readRule S recover bs")
      case (Inr p)
      obtain rule bs1 where p: "p = (rule, bs1)" by fastforce
      then have "length bs1 \<le> length bs" using 3(2) Suc Inr by (simp add: shrinking_def)
      moreover have "shrinking (length bs1) (readRules S recover message (Suc i) k bs1)" using 3(3) Suc Inr p by simp
      ultimately show ?thesis using 3(1) Suc Inr p by (auto simp: readRules.psimps intro: shrinks shrinking_mono)
    next
      case (Inl e)
      then show ?thesis using 3(1) Suc by (cases e) (simp_all add: readRules.psimps)
    qed
  qed (use 3(1) in \<open>simp add: readRules.psimps\<close>)
qed

termination readRule
proof (relation "measures [\<lambda>x. case x of Inl (_, _, bs) \<Rightarrow> length bs | Inr (Inl (_, _, bs)) \<Rightarrow> length bs | Inr (Inr (_, _, _, _, _, bs)) \<Rightarrow> length bs,
    \<lambda>x. case x of Inr (Inr _) \<Rightarrow> 1 | _ \<Rightarrow> 0, \<lambda>x. case x of Inr (Inr (_, _, _, _, n, _)) \<Rightarrow> n | _ \<Rightarrow> 0]", goal_cases)
  case (3 S recover bs m bs1 p n bs2)
  then show ?case using readUvarint_shrinks [of bs1 "length bs1"] by (auto simp: shrinking_def)
next
  case (5 S recover message i n bs k p rule bs1)
  then show ?case using readRules_shrink(1) [of S recover bs] by (fastforce simp: shrinking_def)
qed auto

declare readRule.simps [simp del] readLogicalRule.simps [simp del] readRules.simps [simp del]

definition srs_Read :: "SrsLib \<Rightarrow> bool \<Rightarrow> bytes \<Rightarrow> PlainRuleSetCompat result" where
  "srs_Read S recover bs =
     bindE (readN 3 bs) (\<lambda>(magicBytes, bs1).
       if magicBytes \<noteq> MagicBytes then Inl (E_New [AStr ''invalid sing-box rule-set file''])
       else bindE (readByte bs1) (\<lambda>(version, bs2).
         if version > 4 then Inl (E_New [AStr ''unsupported version: '', ANum (uint version)])
         else bindE (sr_uncompress S bs2) (\<lambda>content.
           bindE (readUvarint content) (\<lambda>(n, bs3).
           bindE (makeslice (sr_sizeofHeadlessRule S) n) (\<lambda>_.
           bindE (readRules S recover ''read rule['' 0 (unat n) bs3) (\<lambda>(rules, _).
             Inr \<lparr>pc_Version = version, pc_Rules = rules\<rparr>))))))"

section \<open>The compiler of rule-sets\<close>

definition downgradeRuleSetVersion :: "u8 \<Rightarrow> HeadlessOptions list \<Rightarrow> u8" where
  "downgradeRuleSetVersion version0 rules =
     (let version1 =
            (if version0 = 4 \<and> \<not> list_ex (HasHeadlessRule (\<lambda>rule. someNonEmpty (h_NetworkInterfaceAddress rule) \<or>
                   length (h_DefaultInterfaceAddress rule) > 0)) rules
             then 3 else version0)
      in if version1 = 3 \<and> \<not> list_ex (HasHeadlessRule (\<lambda>rule. length (h_NetworkType rule) > 0 \<or>
              h_NetworkIsExpensive rule \<or> h_NetworkIsConstrained rule)) rules
         then 2 else version1)"

definition compileRuleSet :: "SrsLib \<Rightarrow> Lib \<Rightarrow> PlainRuleSetCompat \<Rightarrow> bytes result" where
  "compileRuleSet S lib plainRuleSet =
     srs_Write S lib (pc_Rules plainRuleSet) (downgradeRuleSetVersion (pc_Version plainRuleSet) (pc_Rules plainRuleSet))"

end
