(* ===== verification/Srs_Props.thy ===== *)
theory Srs_Props
  imports Srs Rule_Set_Props
begin

text \<open>
  The binary format: what is written is read back, in the compiled form that the rules are built from,
  and a compiled rule-set loads like its source.
\<close>

section \<open>Encoders and decoders\<close>

text \<open>A decoder that recovers what an encoder has written, whatever follows it.\<close>

locale codec =
  fixes valid :: "'a \<Rightarrow> bool" and enc :: "'a \<Rightarrow> bytes" and dec :: "bytes \<Rightarrow> ('a \<times> bytes) result"
  assumes decode: "valid x \<Longrightarrow> dec (enc x @ rest) = Inr (x, rest)"
begin

lemma decode_each: "list_all valid xs \<Longrightarrow> readEach dec (length xs) (concat (map enc xs) @ rest) = Inr (xs, rest)"
  by (induction xs arbitrary: rest) (simp_all add: decode)

end

text \<open>
  What the format relies on of the code outside the repository: \<open>WriteUvarint\<close> writes what \<open>ReadUvarint\<close>
  reads, matchers are read as they were built, the ranges of an address set determine it, \<open>AddrFromIP\<close> inverts
  \<open>AsSlice\<close>, \<open>Put\<close> appends a new key, and \<open>zlib\<close> recovers what it has compressed.
\<close>

locale srs_library =
  fixes S :: SrsLib and lib :: Lib
  assumes uvarint: "readUvarint (sr_WriteUvarint S w @ rest) = Inr (w, rest)"
    and matcher: "\<exists>dump. sr_ReadMatcher S (sr_matcherBytes S ds ss legacy @ rest) =
        Inr ((domainNewMatcher lib ds ss legacy, dump), length (sr_matcherBytes S ds ss legacy))"
    and adguard: "\<exists>dump. sr_ReadAdGuardMatcher S (sr_adGuardBytes S ls @ rest) =
        Inr ((domainNewAdGuardMatcher lib ls, dump), length (sr_adGuardBytes S ls))"
    and ipset: "builderIPSet lib ops = bindE (sr_IPSet S ops) (\<lambda>rr. Inr (sr_Contains S rr))"
    and addr: "sr_AddrFromIP S (addrAsSlice a) = a"
    and put: "k \<notin> fst ` set m \<Longrightarrow> sr_Put S m (k, v) = m @ [(k, v)]"
    and zlib: "sr_uncompress S (sr_compress S b) = Inr b"
    and size: "48 \<le> sr_sizeofHeadlessRule S"
begin

lemma writeCount_nonempty: "writeCount S xs \<noteq> []"
proof
  assume "writeCount S xs = []"
  then show False using uvarint [of "word_of_nat (length xs)" "[]"] by (simp add: writeCount_def readUvarint_def)
qed

lemma readCount: "readUvarint (writeCount S xs @ rest) = Inr (word_of_nat (length xs), rest)"
  by (simp add: writeCount_def uvarint)

end

lemma unat_length: "length xs \<le> 2 ^ 48 \<Longrightarrow> unat (word_of_nat (length xs) :: u64) = length xs"
  by (simp add: unat_of_nat)

lemma makeslice_ok: "k * length xs \<le> 2 ^ 48 \<Longrightarrow> 0 < k \<Longrightarrow> makeslice k (word_of_nat (length xs)) = Inr ()"
proof -
  assume k: "k * length xs \<le> 2 ^ 48" "0 < k"
  then have "1 * length xs \<le> k * length xs" by (intro mult_right_mono) auto
  then have "length xs \<le> 2 ^ 48" using k(1) by linarith
  then show ?thesis using k unat_length [of xs] by (simp add: makeslice_def)
qed

sublocale srs_library \<subseteq> slices: codec "\<lambda>b. length b \<le> 2 ^ 48" "writeSlice S" readSlice
proof
  fix x rest :: bytes assume "length x \<le> 2 ^ 48"
  then show "readSlice (writeSlice S x @ rest) = Inr (x, rest)"
    using makeslice_ok [of 1 x] unat_length [of x] by (simp add: readSlice_def writeSlice_def readCount)
qed

sublocale srs_library \<subseteq> strings: codec "\<lambda>s. length s \<le> 2 ^ 48" "\<lambda>s. writeSlice S (bytesOf s)" "\<lambda>b. storeRead stringOf (readSlice b)"
  by unfold_locales (simp add: storeRead_def slices.decode)

lemma addrAsSlice_short: "length (addrAsSlice a) \<le> 2 ^ 48"
  by (simp add: addrAsSlice_length split: Addr.split)

context srs_library
begin

lemma read_addr: "readSlice (writeSlice S (addrAsSlice a) @ rest) = Inr (addrAsSlice a, rest)"
  by (rule slices.decode [OF addrAsSlice_short])

lemma addr_Nil [simp]: "sr_AddrFromIP S [] = AddrNone"
  using addr [of AddrNone] by simp

end

sublocale srs_library \<subseteq> ranges: codec "\<lambda>_. True" "writeRange S" "readRange S"
  by unfold_locales (simp add: readRange_def writeRange_def storeRead_def read_addr addr)

sublocale srs_library \<subseteq> prefixes: codec properPrefix "writePrefix S" "readPrefix S"
proof
  fix p rest assume p: "properPrefix p"
  obtain a n where a: "p = Prefix a n" by (cases p)
  have "prefixIsValid p \<Longrightarrow> n < 256 \<and> a \<noteq> AddrNone" using a by (cases a) simp_all
  then show "readPrefix S (writePrefix S p @ rest) = Inr (p, rest)"
    using p a read_addr [of a]
    by (auto simp: readPrefix_def writePrefix_def addr storeRead_def readByte_def prefixFrom_def properPrefix_def unat_of_nat)
qed

text \<open>The lists behind a count. Each element takes at least one byte, so a short encoding has a small count.\<close>

definition fits :: "SrsLib \<Rightarrow> bytes \<Rightarrow> bool" where
  "fits S b = (sr_sizeofHeadlessRule S * length b \<le> 2 ^ 48)"

context srs_library
begin

lemma fits_le: "fits S b \<Longrightarrow> length xs \<le> length b \<Longrightarrow> k \<le> 48 \<Longrightarrow> k * length xs \<le> 2 ^ 48"
proof -
  assume f: "fits S b" and l: "length xs \<le> length b" and k: "k \<le> 48"
  have "k * length xs \<le> sr_sizeofHeadlessRule S * length b" using mult_le_mono [OF _ l, of k] k size by simp
  then show ?thesis using f by (simp add: fits_def)
qed

lemma fits_length: "fits S b \<Longrightarrow> length xs \<le> length b \<Longrightarrow> length xs \<le> 2 ^ 48"
  using fits_le [of b xs 1] by simp

lemma fits_mono: "fits S b \<Longrightarrow> length c \<le> length b \<Longrightarrow> fits S c"
  unfolding fits_def using mult_le_mono2 [of "length c" "length b" "sr_sizeofHeadlessRule S"] by linarith

lemma writeSlice_length: "length b < length (writeSlice S b)"
  using writeCount_nonempty [of b] by (simp add: writeSlice_def)

lemma concat_length: "(\<And>x. x \<in> set xs \<Longrightarrow> 0 < length (f x)) \<Longrightarrow> length xs \<le> length (concat (map f xs))"
proof (induction xs)
  case (Cons x xs)
  then have "length xs \<le> length (concat (map f xs))" "0 < length (f x)" by auto
  then show ?case unfolding list.map concat.simps length_append list.size by linarith
qed simp

lemma member_length: "x \<in> set xs \<Longrightarrow> length (f x) \<le> length (concat (map f xs))"
  by (induction xs) auto

lemma read_strings:
  assumes "fits S (writeRuleItemString S t vs)"
  shows "readRuleItemString (tl (writeRuleItemString S t vs) @ rest) = Inr (vs, rest)"
proof -
  let ?f = "\<lambda>s. writeSlice S (bytesOf s)"
  let ?b = "writeRuleItemString S t vs"
  have b: "length (concat (map ?f vs)) \<le> length ?b" by (simp add: writeRuleItemString_def)
  have f: "length s < length (?f s)" for s using writeSlice_length [of "bytesOf s"] by simp
  have "0 < length (?f s)" for s using f [of s] by linarith
  then have "length vs \<le> length (concat (map ?f vs))" by (rule concat_length)
  then have l: "length vs \<le> length ?b" using b by (rule order.trans)
  have "length s \<le> 2 ^ 48" if "s \<in> set vs" for s
    using fits_length [OF assms, of s] f [of s] member_length [OF that, of ?f] b by linarith
  then have "list_all (\<lambda>s. length s \<le> 2 ^ 48) vs" by (simp add: list_all_iff)
  then show ?thesis
    using unat_length [OF fits_length [OF assms l]] makeslice_ok [OF fits_le [OF assms l, of 16]] strings.decode_each [of vs rest]
    by (simp add: readRuleItemString_def writeRuleItemString_def readCount)
qed

lemma read_uint16s:
  assumes "fits S (writeRuleItemUint16 S t vs)"
  shows "readRuleItemUint16 (tl (writeRuleItemUint16 S t vs) @ rest) = Inr (vs, rest)"
proof -
  let ?f = "\<lambda>w :: u16. bytesOfNat 2 (unat w)"
  have l: "length vs \<le> length (writeRuleItemUint16 S t vs)"
    using concat_length [of vs ?f] by (simp add: writeRuleItemUint16_def)
  have len: "length (concat (map ?f vs)) = 2 * length vs"
    by (induction vs) (simp_all del: bytesOfNat.simps)
  have u: "uint16s (?f w @ bs) = w # uint16s bs" for w :: u16 and bs
  proof -
    have "unat w < 65536" using unsigned_less [of w] by simp
    then show ?thesis using bigEndian_bytesOfNat [of 2 "unat w"] by (simp add: numeral_2_eq_2)
  qed
  have "uint16s (concat (map ?f vs)) = vs" by (induction vs) (simp_all add: u del: bytesOfNat.simps)
  then show ?thesis
    using unat_length [OF fits_length [OF assms l]] makeslice_ok [OF fits_le [OF assms l, of 2]] len
    by (simp add: readRuleItemUint16_def writeRuleItemUint16_def readCount storeRead_def del: bytesOfNat.simps)
qed

lemma read_uint8s:
  assumes "fits S (writeRuleItemUint8 S t vs)" and "list_all (\<lambda>x. interfaceTypeOf (interfaceTypeByte x) = x) vs"
  shows "readRuleItemUint8 (tl (writeRuleItemUint8 S t vs) @ rest) = Inr (vs, rest)"
proof -
  have l: "length vs \<le> length (writeRuleItemUint8 S t vs)" by (simp add: writeRuleItemUint8_def)
  have "map (\<lambda>x. interfaceTypeOf (interfaceTypeByte x)) vs = vs" using assms(2) by (induction vs) simp_all
  then show ?thesis
    using unat_length [OF fits_length [OF assms(1) l]] makeslice_ok [OF fits_le [OF assms(1) l, of 1]]
    by (simp add: readRuleItemUint8_def writeRuleItemUint8_def readCount storeRead_def comp_def)
qed

lemma read_ip_set:
  assumes "fits S (writeIPSet S rr)"
  shows "readIPSet S (writeIPSet S rr @ rest) = Inr (rr, rest)"
proof -
  have "0 < length (writeRange S x)" for x using writeSlice_length [of "addrAsSlice (fst x)"] by (auto simp: writeRange_def)
  then have "length rr \<le> length (concat (map (writeRange S) rr))" by (rule concat_length)
  then have l: "length rr \<le> length (writeIPSet S rr)" by (simp add: writeIPSet_def del: bytesOfNat.simps)
  have "length rr \<le> 2 ^ 48" by (rule fits_length [OF assms l])
  then have "bigEndian (bytesOfNat 8 (length rr)) = length rr" by (simp add: bigEndian_bytesOfNat)
  then show ?thesis
    using unat_length [OF fits_length [OF assms l]] makeslice_ok [OF fits_le [OF assms l, of 48]] ranges.decode_each [of rr rest]
    by (simp add: readIPSet_def writeIPSet_def readByte_def Let_def list_all_iff del: bytesOfNat.simps)
qed

lemma read_prefixes:
  assumes "fits S (writePrefixes S ps)" and "list_all properPrefix ps"
  shows "readPrefixes S (writePrefixes S ps @ rest) = Inr (ps, rest)"
proof -
  have "length ps \<le> length (concat (map (writePrefix S) ps))" by (rule concat_length) (simp add: writePrefix_def)
  then have l: "length ps \<le> length (writePrefixes S ps)" by (simp add: writePrefixes_def)
  show ?thesis
    using unat_length [OF fits_length [OF assms(1) l]] prefixes.decode_each [OF assms(2), of rest]
    by (simp add: readPrefixes_def writePrefixes_def readCount)
qed

lemma put_all: "distinct (map fst m) \<Longrightarrow> set (map fst acc) \<inter> set (map fst m) = {} \<Longrightarrow> foldl (sr_Put S) acc m = acc @ m"
proof (induction m arbitrary: acc)
  case (Cons e m)
  then show ?case using put [of "fst e" acc "snd e"] by (cases e) auto
qed simp

end

definition properEntry :: "SrsLib \<Rightarrow> InterfaceType \<times> Prefix list \<Rightarrow> bool" where
  "properEntry S e = (interfaceTypeOf (interfaceTypeByte (fst e)) = fst e \<and> list_all properPrefix (snd e) \<and> fits S (writeEntry S e))"

sublocale srs_library \<subseteq> entries: codec "properEntry S" "writeEntry S" "readEntry S"
proof
  fix e rest assume e: "properEntry S e"
  then have "fits S (writePrefixes S (snd e))" using fits_mono [of "writeEntry S e"] by (simp add: properEntry_def writeEntry_def)
  then show "readEntry S (writeEntry S e @ rest) = Inr (e, rest)"
    using e by (simp add: readEntry_def writeEntry_def readByte_def properEntry_def read_prefixes storeRead_def)
qed

context srs_library
begin

lemma read_interface_addresses:
  assumes "fits S (writeCount S m @ concat (map (writeEntry S) m))" and "distinct (map fst m)"
    and "list_all (\<lambda>e. interfaceTypeOf (interfaceTypeByte (fst e)) = fst e \<and> list_all properPrefix (snd e)) m"
  shows "readInterfaceAddresses S (writeCount S m @ concat (map (writeEntry S) m) @ rest) = Inr (m, rest)"
proof -
  let ?b = "writeCount S m @ concat (map (writeEntry S) m)"
  have "length m \<le> length (concat (map (writeEntry S) m))" by (rule concat_length) (simp add: writeEntry_def)
  then have l: "length m \<le> length ?b" by simp
  have "fits S (writeEntry S e)" if "e \<in> set m" for e
    using fits_mono [OF assms(1)] member_length [OF that, of "writeEntry S"] by simp
  then have "list_all (properEntry S) m" using assms(3) by (simp add: list_all_iff properEntry_def)
  then show ?thesis
    using unat_length [OF fits_length [OF assms(1) l]] entries.decode_each [of m rest] put_all [OF assms(2), of "[]"]
    by (simp add: readInterfaceAddresses_def readCount storeRead_def)
qed

end

section \<open>Default rules\<close>

text \<open>Bytes that make the loop over the items change the rule by the given function.\<close>

definition decodesTo :: "SrsLib \<Rightarrow> bytes \<Rightarrow> (DefaultHeadlessRuleOptions \<Rightarrow> DefaultHeadlessRuleOptions) \<Rightarrow> bool" where
  "decodesTo S b upd = (\<forall>last rule rest. \<exists>last'. readItems S False last rule (b @ rest) = readItems S False last' (upd rule) rest)"

lemma decodesTo_Nil: "decodesTo S [] (\<lambda>r. r)"
  by (auto simp: decodesTo_def)

lemma decodesTo_append: "decodesTo S b u \<Longrightarrow> decodesTo S c v \<Longrightarrow> decodesTo S (b @ c) (\<lambda>r. v (u r))"
  unfolding decodesTo_def by (metis append.assoc)

lemma decodesTo_item:
  assumes "t \<noteq> 0xFF" and "\<And>last rule rest. readRuleItem S False last t rule (b @ rest) = Inr (upd rule, rest)"
  shows "decodesTo S (t # b) upd"
  unfolding decodesTo_def using assms by (simp del: readItems.simps(1)) blast

definition itemDecodes :: "SrsLib \<Rightarrow> bytes result \<Rightarrow> (DefaultHeadlessRuleOptions \<Rightarrow> DefaultHeadlessRuleOptions) \<Rightarrow> bool" where
  "itemDecodes S r upd = (\<forall>b. r = Inr b \<longrightarrow> fits S b \<longrightarrow> decodesTo S b upd)"

lemma itemDecodes_optional:
  assumes "c \<Longrightarrow> itemDecodes S r upd" and "\<not> c \<Longrightarrow> upd = (\<lambda>r. r)"
  shows "itemDecodes S (optionalItem c r) upd"
  using assms by (auto simp: itemDecodes_def optionalItem_def decodesTo_Nil)

lemma itemDecodes_versioned: "itemDecodes S (Inr b) upd \<Longrightarrow> itemDecodes S (versioned ok m b) upd"
  by (simp add: itemDecodes_def versioned_def)

context srs_library
begin

lemma items_decode:
  "list_all2 (itemDecodes S) items us \<Longrightarrow> concatE items = Inr b \<Longrightarrow> fits S b \<Longrightarrow> decodesTo S b (\<lambda>r. fold (\<lambda>u. u) us r)"
proof (induction items us arbitrary: b rule: list_all2_induct)
  case Nil
  then show ?case by (simp add: decodesTo_Nil)
next
  case (Cons item items u us)
  from Cons(4) obtain b1 b2 where b: "item = Inr b1" "concatE items = Inr b2" "b = b1 @ b2" by auto
  have "fits S b1" "fits S b2" using fits_mono [OF Cons(5)] b(3) by simp_all
  then show ?case
    using Cons(1) Cons(3) [OF b(2)] b decodesTo_append [of S b1 u b2] by (simp add: itemDecodes_def)
qed

lemma item_read:
  assumes "t \<noteq> 0xFF" and "\<And>last rule bs. readRuleItem S False last t rule bs = storeRead (\<lambda>v. upd v rule) (rd bs)"
    and "fits S (t # b) \<Longrightarrow> (\<And>rest. rd (b @ rest) = Inr (v, rest))"
  shows "itemDecodes S (Inr (t # b)) (upd v)"
  unfolding itemDecodes_def using decodesTo_item [OF assms(1), of S b "upd v"] assms(2,3) by (simp add: storeRead_def)

end

text \<open>A field that is replaced if the condition holds.\<close>

definition keep :: "bool \<Rightarrow> 'a \<Rightarrow> 'a \<Rightarrow> 'a" where
  "keep c v old = (if c then v else old)"

lemma keep_simps [simp]: "keep True v = (\<lambda>_. v)" "keep False v = (\<lambda>old. old)"
  by (auto simp: keep_def)

lemma optional_keep:
  assumes "c \<Longrightarrow> itemDecodes S r (f (\<lambda>_. v))" and "f (\<lambda>x. x) = (\<lambda>r. r)"
  shows "itemDecodes S (optionalItem c r) (f (keep c v))"
  using assms by (auto intro: itemDecodes_optional)

lemma update_ident:
  "h_QueryType_update (\<lambda>x. x) r = r" "h_Network_update (\<lambda>x. x) r = r" "h_DomainMatcher_update (\<lambda>x. x) r = r"
  "h_DomainKeyword_update (\<lambda>x. x) r = r" "h_DomainRegex_update (\<lambda>x. x) r = r" "h_SourceIPSet_update (\<lambda>x. x) r = r"
  "h_IPSet_update (\<lambda>x. x) r = r" "h_SourcePort_update (\<lambda>x. x) r = r" "h_SourcePortRange_update (\<lambda>x. x) r = r"
  "h_Port_update (\<lambda>x. x) r = r" "h_PortRange_update (\<lambda>x. x) r = r" "h_ProcessName_update (\<lambda>x. x) r = r"
  "h_ProcessPath_update (\<lambda>x. x) r = r" "h_ProcessPathRegex_update (\<lambda>x. x) r = r" "h_PackageName_update (\<lambda>x. x) r = r"
  "h_NetworkType_update (\<lambda>x. x) r = r" "h_NetworkIsExpensive_update (\<lambda>x. x) r = r" "h_NetworkIsConstrained_update (\<lambda>x. x) r = r"
  "h_NetworkInterfaceAddress_update (\<lambda>x. x) r = r" "h_DefaultInterfaceAddress_update (\<lambda>x. x) r = r" "h_WIFISSID_update (\<lambda>x. x) r = r"
  "h_WIFIBSSID_update (\<lambda>x. x) r = r" "h_AdGuardDomainMatcher_update (\<lambda>x. x) r = (r :: DefaultHeadlessRuleOptions)"
  by (cases r; simp)+

context srs_library
begin

lemma string_item:
  assumes "t \<noteq> 0xFF" and "\<And>last rule bs. readRuleItem S False last t rule bs = storeRead (\<lambda>v. f (\<lambda>_. v) rule) (readRuleItemString bs)"
    and "\<And>r. f (\<lambda>x. x) r = r"
  shows "itemDecodes S (optionalItem (length vs > 0) (Inr (writeRuleItemString S t vs))) (f (keep (length vs > 0) vs))"
proof (rule optional_keep)
  have b: "writeRuleItemString S t vs = t # tl (writeRuleItemString S t vs)" by (simp add: writeRuleItemString_def)
  show "itemDecodes S (Inr (writeRuleItemString S t vs)) (f (\<lambda>_. vs))"
    by (subst b, rule item_read [where upd = "\<lambda>v. f (\<lambda>_. v)", OF assms(1,2)]) (simp add: read_strings b [symmetric])
qed (simp add: assms(3) ext)

lemma uint16_item:
  assumes "t \<noteq> 0xFF" and "\<And>last rule bs. readRuleItem S False last t rule bs = storeRead (\<lambda>v. f (\<lambda>_. v) rule) (readRuleItemUint16 bs)"
    and "\<And>r. f (\<lambda>x. x) r = r"
  shows "itemDecodes S (optionalItem (length vs > 0) (Inr (writeRuleItemUint16 S t vs))) (f (keep (length vs > 0) vs))"
proof (rule optional_keep)
  have b: "writeRuleItemUint16 S t vs = t # tl (writeRuleItemUint16 S t vs)" by (simp add: writeRuleItemUint16_def)
  show "itemDecodes S (Inr (writeRuleItemUint16 S t vs)) (f (\<lambda>_. vs))"
    by (subst b, rule item_read [where upd = "\<lambda>v. f (\<lambda>_. v)", OF assms(1,2)]) (simp add: read_uint16s b [symmetric])
qed (simp add: assms(3) ext)

lemma matcher_item:
  "itemDecodes S (optionalItem c (Inr (2 # sr_matcherBytes S ds ss legacy)))
     (h_DomainMatcher_update (keep c (Some (domainNewMatcher lib ds ss legacy))))"
proof (rule optional_keep)
  have "readRuleItem S False last 2 rule (sr_matcherBytes S ds ss legacy @ rest) =
      Inr (rule\<lparr>h_DomainMatcher := Some (domainNewMatcher lib ds ss legacy)\<rparr>, rest)" for last rule rest
    using matcher [of ds ss legacy rest] by (auto simp: readRuleItem_def readDomainItem_def)
  then show "itemDecodes S (Inr (2 # sr_matcherBytes S ds ss legacy)) (h_DomainMatcher_update (\<lambda>_. Some (domainNewMatcher lib ds ss legacy)))"
    by (simp add: itemDecodes_def decodesTo_item)
qed (simp add: update_ident ext)

lemma adguard_item:
  "itemDecodes S (optionalItem c (versioned ok m (16 # sr_adGuardBytes S ls)))
     (h_AdGuardDomainMatcher_update (keep c (Some (domainNewAdGuardMatcher lib ls))))"
proof (rule optional_keep)
  have "readRuleItem S False last 16 rule (sr_adGuardBytes S ls @ rest) =
      Inr (rule\<lparr>h_AdGuardDomainMatcher := Some (domainNewAdGuardMatcher lib ls)\<rparr>, rest)" for last rule rest
    using adguard [of ls rest] by (auto simp: readRuleItem_def readAdGuardItem_def)
  then show "itemDecodes S (versioned ok m (16 # sr_adGuardBytes S ls)) (h_AdGuardDomainMatcher_update (\<lambda>_. Some (domainNewAdGuardMatcher lib ls)))"
    by (intro itemDecodes_versioned) (simp add: itemDecodes_def decodesTo_item)
qed (simp add: update_ident ext)

end

text \<open>The address set that is built from the configured prefixes and addresses.\<close>

definition compiledSet :: "Lib \<Rightarrow> string list \<Rightarrow> IPSet option" where
  "compiledSet lib cidrs =
     (case bindE (mapE_from 0 (parseCIDREntry lib) cidrs) (builderIPSet lib) of Inl _ \<Rightarrow> None | Inr ipSet \<Rightarrow> Some ipSet)"

context srs_library
begin

lemma cidr_item:
  assumes "t \<noteq> 0xFF" and "\<And>last rule bs. readRuleItem S False last t rule bs = storeRead (\<lambda>rr. f (\<lambda>_. Some (sr_Contains S rr)) rule) (readIPSet S bs)"
    and "\<And>r. f (\<lambda>x. x) r = r"
  shows "itemDecodes S (optionalItem c (cause a (writeRuleItemCIDR S lib t vs))) (f (keep c (compiledSet lib vs)))"
proof (rule optional_keep)
  show "itemDecodes S (cause a (writeRuleItemCIDR S lib t vs)) (f (\<lambda>_. compiledSet lib vs))"
  proof (unfold itemDecodes_def, intro allI impI)
    fix b assume "cause a (writeRuleItemCIDR S lib t vs) = Inr b" and f: "fits S b"
    then obtain ops rr where o: "mapE_from 0 (parseCIDREntry lib) vs = Inr ops" "sr_IPSet S ops = Inr rr" "b = t # writeIPSet S rr"
      by (auto simp: writeRuleItemCIDR_def)
    have c: "compiledSet lib vs = Some (sr_Contains S rr)" using o(1,2) by (simp add: compiledSet_def ipset)
    have "fits S (writeIPSet S rr)" using fits_mono [OF f] o(3) by simp
    then show "decodesTo S b (f (\<lambda>_. compiledSet lib vs))"
      unfolding o(3) c by (intro decodesTo_item [OF assms(1)]) (simp add: assms(2) read_ip_set storeRead_def)
  qed
qed (simp add: assms(3) ext)

lemma interface_types_item:
  assumes "list_all (\<lambda>x. interfaceTypeOf (interfaceTypeByte x) = x) vs"
  shows "itemDecodes S (optionalItem c (versioned ok m (writeRuleItemUint8 S 18 vs))) (h_NetworkType_update (keep c vs))"
proof (rule optional_keep)
  have b: "writeRuleItemUint8 S 18 vs = 18 # tl (writeRuleItemUint8 S 18 vs)" by (simp add: writeRuleItemUint8_def)
  show "itemDecodes S (versioned ok m (writeRuleItemUint8 S 18 vs)) (h_NetworkType_update (\<lambda>_. vs))"
    by (intro itemDecodes_versioned, subst b, rule item_read [where upd = "\<lambda>v. h_NetworkType_update (\<lambda>_. v)" and rd = readRuleItemUint8])
      (simp_all add: readRuleItem_def read_uint8s assms b [symmetric])
qed (simp add: update_ident ext)

lemma flag_item:
  assumes "t \<noteq> 0xFF" and "\<And>last rule bs. readRuleItem S False last t rule bs = Inr (f (\<lambda>_. True) rule, bs)" and "\<And>r. f (\<lambda>x. x) r = r"
  shows "itemDecodes S (optionalItem c (versioned ok m [t])) (f (keep c True))"
proof (rule optional_keep)
  show "itemDecodes S (versioned ok m [t]) (f (\<lambda>_. True))"
    using decodesTo_item [OF assms(1), of S "[]" "f (\<lambda>_. True)"] assms(2) by (intro itemDecodes_versioned) (simp add: itemDecodes_def)
qed (simp add: assms(3) ext)

lemma interface_addresses_item:
  assumes "distinct (map fst es)"
    and "list_all (\<lambda>e. interfaceTypeOf (interfaceTypeByte (fst e)) = fst e \<and> list_all properPrefix (snd e)) es"
  shows "itemDecodes S (optionalItem c (versioned ok m (21 # writeCount S es @ concat (map (writeEntry S) es))))
     (h_NetworkInterfaceAddress_update (keep c (Some es)))"
proof (rule optional_keep)
  let ?b = "writeCount S es @ concat (map (writeEntry S) es)"
  show "itemDecodes S (versioned ok m (21 # ?b)) (h_NetworkInterfaceAddress_update (\<lambda>_. Some es))"
  proof (intro itemDecodes_versioned, rule item_read [where upd = "\<lambda>v. h_NetworkInterfaceAddress_update (\<lambda>_. Some v)" and rd = "readInterfaceAddresses S"])
    fix rest assume "fits S (21 # ?b)"
    then have "fits S ?b" using fits_mono by fastforce
    then show "readInterfaceAddresses S (?b @ rest) = Inr (es, rest)" using read_interface_addresses [OF _ assms, of rest] by simp
  qed (simp_all add: readRuleItem_def)
qed (simp add: update_ident ext)

lemma default_addresses_item:
  assumes "list_all properPrefix ps"
  shows "itemDecodes S (optionalItem c (versioned ok m (22 # writePrefixes S ps))) (h_DefaultInterfaceAddress_update (keep c ps))"
proof (rule optional_keep)
  show "itemDecodes S (versioned ok m (22 # writePrefixes S ps)) (h_DefaultInterfaceAddress_update (\<lambda>_. ps))"
  proof (intro itemDecodes_versioned, rule item_read [where upd = "\<lambda>v. h_DefaultInterfaceAddress_update (\<lambda>_. v)" and rd = "readPrefixes S"])
    fix rest assume "fits S (22 # writePrefixes S ps)"
    then have "fits S (writePrefixes S ps)" using fits_mono by fastforce
    then show "readPrefixes S (writePrefixes S ps @ rest) = Inr (ps, rest)" using assms by (rule read_prefixes)
  qed (simp_all add: readRuleItem_def)
qed (simp add: update_ident ext)

end

text \<open>
  What of a rule can be written: interface types and prefixes in the form the parsers of the configuration
  give them, and interfaces that are listed once, as in a map.
\<close>

definition writable :: "DefaultHeadlessRuleOptions \<Rightarrow> bool" where
  "writable h =
     (list_all (\<lambda>x. interfaceTypeOf (interfaceTypeByte x) = x) (h_NetworkType h) \<and>
      distinct (map fst (entriesOf (h_NetworkInterfaceAddress h))) \<and>
      list_all (\<lambda>e. interfaceTypeOf (interfaceTypeByte (fst e)) = fst e \<and> list_all properPrefix (snd e))
        (entriesOf (h_NetworkInterfaceAddress h)) \<and>
      list_all properPrefix (h_DefaultInterfaceAddress h))"

text \<open>The rule that is read: domains, address sets and AdGuard filters are compiled, the rest is as it was written.\<close>

definition compiledRule :: "Lib \<Rightarrow> bool \<Rightarrow> DefaultHeadlessRuleOptions \<Rightarrow> DefaultHeadlessRuleOptions" where
  "compiledRule lib legacy h =
     h\<lparr>h_Domain := [], h_DomainSuffix := [],
       h_DomainMatcher := (if h_Domain h \<noteq> [] \<or> h_DomainSuffix h \<noteq> [] then Some (domainNewMatcher lib (h_Domain h) (h_DomainSuffix h) legacy) else None),
       h_SourceIPCIDR := [], h_SourceIPSet := (if h_SourceIPCIDR h \<noteq> [] then compiledSet lib (h_SourceIPCIDR h) else None),
       h_IPCIDR := [], h_IPSet := (if h_IPCIDR h \<noteq> [] then compiledSet lib (h_IPCIDR h) else None),
       h_NetworkInterfaceAddress := (if someNonEmpty (h_NetworkInterfaceAddress h) then h_NetworkInterfaceAddress h else None),
       h_AdGuardDomain := [],
       h_AdGuardDomainMatcher := (if h_AdGuardDomain h \<noteq> [] then Some (domainNewAdGuardMatcher lib (h_AdGuardDomain h)) else None)\<rparr>"

definition frontUpdates :: "Lib \<Rightarrow> bool \<Rightarrow> DefaultHeadlessRuleOptions \<Rightarrow> (DefaultHeadlessRuleOptions \<Rightarrow> DefaultHeadlessRuleOptions) list" where
  "frontUpdates lib legacy h =
     [h_QueryType_update (keep (length (h_QueryType h) > 0) (h_QueryType h)),
      h_Network_update (keep (length (h_Network h) > 0) (h_Network h)),
      h_DomainMatcher_update (keep (length (h_Domain h) > 0 \<or> length (h_DomainSuffix h) > 0)
        (Some (domainNewMatcher lib (h_Domain h) (h_DomainSuffix h) legacy))),
      h_DomainKeyword_update (keep (length (h_DomainKeyword h) > 0) (h_DomainKeyword h)),
      h_DomainRegex_update (keep (length (h_DomainRegex h) > 0) (h_DomainRegex h)),
      h_SourceIPSet_update (keep (length (h_SourceIPCIDR h) > 0) (compiledSet lib (h_SourceIPCIDR h))),
      h_IPSet_update (keep (length (h_IPCIDR h) > 0) (compiledSet lib (h_IPCIDR h))),
      h_SourcePort_update (keep (length (h_SourcePort h) > 0) (h_SourcePort h)),
      h_SourcePortRange_update (keep (length (h_SourcePortRange h) > 0) (h_SourcePortRange h)),
      h_Port_update (keep (length (h_Port h) > 0) (h_Port h)),
      h_PortRange_update (keep (length (h_PortRange h) > 0) (h_PortRange h)),
      h_ProcessName_update (keep (length (h_ProcessName h) > 0) (h_ProcessName h)),
      h_ProcessPath_update (keep (length (h_ProcessPath h) > 0) (h_ProcessPath h)),
      h_ProcessPathRegex_update (keep (length (h_ProcessPathRegex h) > 0) (h_ProcessPathRegex h)),
      h_PackageName_update (keep (length (h_PackageName h) > 0) (h_PackageName h))]"

definition networkUpdates :: "DefaultHeadlessRuleOptions \<Rightarrow> (DefaultHeadlessRuleOptions \<Rightarrow> DefaultHeadlessRuleOptions) list" where
  "networkUpdates h =
     [h_NetworkType_update (keep (length (h_NetworkType h) > 0) (h_NetworkType h)),
      h_NetworkIsExpensive_update (keep (h_NetworkIsExpensive h) True),
      h_NetworkIsConstrained_update (keep (h_NetworkIsConstrained h) True),
      h_NetworkInterfaceAddress_update (keep (someNonEmpty (h_NetworkInterfaceAddress h)) (Some (entriesOf (h_NetworkInterfaceAddress h)))),
      h_DefaultInterfaceAddress_update (keep (length (h_DefaultInterfaceAddress h) > 0) (h_DefaultInterfaceAddress h))]"

definition lastUpdates :: "Lib \<Rightarrow> DefaultHeadlessRuleOptions \<Rightarrow> (DefaultHeadlessRuleOptions \<Rightarrow> DefaultHeadlessRuleOptions) list" where
  "lastUpdates lib h =
     [h_WIFISSID_update (keep (length (h_WIFISSID h) > 0) (h_WIFISSID h)),
      h_WIFIBSSID_update (keep (length (h_WIFIBSSID h) > 0) (h_WIFIBSSID h)),
      h_AdGuardDomainMatcher_update (keep (length (h_AdGuardDomain h) > 0) (Some (domainNewAdGuardMatcher lib (h_AdGuardDomain h))))]"

context srs_library
begin

lemma front_items: "list_all2 (itemDecodes S) (writeFrontItems S lib v h) (frontUpdates lib (v = 1) h)"
  unfolding writeFrontItems_def frontUpdates_def list_all2_Cons list_all2_Nil
  by (intro conjI TrueI matcher_item uint16_item [where f = h_QueryType_update] string_item [where f = h_Network_update]
      string_item [where f = h_DomainKeyword_update] string_item [where f = h_DomainRegex_update]
      cidr_item [where f = h_SourceIPSet_update] cidr_item [where f = h_IPSet_update]
      uint16_item [where f = h_SourcePort_update] string_item [where f = h_SourcePortRange_update]
      uint16_item [where f = h_Port_update] string_item [where f = h_PortRange_update]
      string_item [where f = h_ProcessName_update] string_item [where f = h_ProcessPath_update]
      string_item [where f = h_ProcessPathRegex_update] string_item [where f = h_PackageName_update])
    (simp_all add: readRuleItem_def update_ident storeSourceIPSet_def [abs_def] storeIPSet_def [abs_def] Let_def)

lemma network_items: "writable h \<Longrightarrow> list_all2 (itemDecodes S) (writeNetworkItems S v h) (networkUpdates h)"
  unfolding writeNetworkItems_def networkUpdates_def list_all2_Cons list_all2_Nil
  by (intro conjI TrueI interface_types_item flag_item [where f = h_NetworkIsExpensive_update]
      flag_item [where f = h_NetworkIsConstrained_update] interface_addresses_item default_addresses_item)
    (simp_all add: readRuleItem_def update_ident writable_def)

lemma last_items: "list_all2 (itemDecodes S) (writeLastItems S v h) (lastUpdates lib h)"
  unfolding writeLastItems_def lastUpdates_def list_all2_Cons list_all2_Nil
  by (intro conjI TrueI string_item [where f = h_WIFISSID_update] string_item [where f = h_WIFIBSSID_update] adguard_item) (simp_all add: readRuleItem_def update_ident)

end

lemma keep_list: "keep (xs \<noteq> []) xs [] = xs"
  by (cases xs) simp_all

lemma keep_flag: "keep b True False = b"
  by (cases b) simp_all

lemma keep_map: "keep (someNonEmpty m) (Some (entriesOf m)) None = (if someNonEmpty m then m else None)"
  by (cases m) (simp_all add: someNonEmpty_def entriesOf_def)

lemma keep_None: "keep c x None = (if c then x else None)"
  by (simp add: keep_def)

lemma updates_compile:
  "(fold (\<lambda>u. u) (frontUpdates lib legacy h @ networkUpdates h @ lastUpdates lib h) emptyHeadlessRule)\<lparr>h_Invert := h_Invert h\<rparr> =
     compiledRule lib legacy h"
  by (cases h) (simp add: frontUpdates_def networkUpdates_def lastUpdates_def emptyHeadlessRule_def compiledRule_def
      keep_list keep_flag keep_map keep_None [where x = "compiledSet lib vs" for vs] keep_None [where x = "Some (f :: Matcher)" for f]
      cong: if_cong split del: if_split)

context srs_library
begin

lemma read_default_rule:
  assumes "writeDefaultRule S lib v h = Inr b" and "writable h" and "fits S b"
  shows "readRule S False (b @ rest) = Inr (defaultOptions (compiledRule lib (v = 1) h), rest)"
proof -
  let ?items = "writeFrontItems S lib v h @ writeNetworkItems S v h @ writeLastItems S v h"
  let ?us = "frontUpdates lib (v = 1) h @ networkUpdates h @ lastUpdates lib h"
  obtain c where c: "concatE ?items = Inr c" "b = 0 # c @ 0xFF # writeBool (h_Invert h)"
    using assms(1) by (auto simp: writeDefaultRule_def)
  have "fits S c" using fits_mono [OF assms(3)] c(2) by simp
  moreover have "list_all2 (itemDecodes S) ?items ?us"
    by (intro list_all2_appendI front_items network_items [OF assms(2)] last_items)
  ultimately have "decodesTo S c (\<lambda>r. fold (\<lambda>u. u) ?us r)" using items_decode c(1) by blast
  then obtain last' where l: "readItems S False 0 emptyHeadlessRule (c @ 0xFF # writeBool (h_Invert h) @ rest) =
      readItems S False last' (fold (\<lambda>u. u) ?us emptyHeadlessRule) (0xFF # writeBool (h_Invert h) @ rest)"
    unfolding decodesTo_def by blast
  have "(if h_Invert h then 1 else 0 :: u8) \<noteq> 0 \<longleftrightarrow> h_Invert h" by simp
  then have "readItems S False last' r (0xFF # writeBool (h_Invert h) @ rest) = Inr (r\<lparr>h_Invert := h_Invert h\<rparr>, rest)" for r
    by (simp add: writeBool_def storeRead_def readByte_def del: fold_append)
  then have "readDefaultRule S False (c @ 0xFF # writeBool (h_Invert h) @ rest) = Inr (compiledRule lib (v = 1) h, rest)"
    unfolding readDefaultRule_def l updates_compile [symmetric] .
  then show ?thesis by (simp add: c(2) readRule.simps storeRead_def)
qed

end

section \<open>Rules and rule-sets\<close>

fun writableRule :: "HeadlessOptions \<Rightarrow> bool" where
  "writableRule (RuleOptions type dflt mode rules invert a) =
     (if type = ''default'' then writable dflt else list_all writableRule rules)"

fun compiledOptions :: "Lib \<Rightarrow> bool \<Rightarrow> HeadlessOptions \<Rightarrow> HeadlessOptions" where
  "compiledOptions lib legacy (RuleOptions type dflt mode rules invert a) =
     (if type = ''default'' then defaultOptions (compiledRule lib legacy dflt)
      else logicalOptions mode (map (compiledOptions lib legacy) rules) invert)"

context srs_library
begin

lemma read_rules:
  assumes "\<And>r b rest. r \<in> set rules \<Longrightarrow> writeRule S lib v r = Inr b \<Longrightarrow> fits S b \<Longrightarrow> readRule S False (b @ rest) = Inr (f r, rest)"
    and "concatE (map (writeRule S lib v) rules) = Inr b" and "fits S b"
  shows "readRules S False message i (length rules) (b @ rest) = Inr (map f rules, rest)"
  using assms
proof (induction rules arbitrary: i b)
  case (Cons r rules)
  from Cons(3) obtain b1 b2 where b: "writeRule S lib v r = Inr b1" "concatE (map (writeRule S lib v) rules) = Inr b2" "b = b1 @ b2" by auto
  have f: "fits S b1" "fits S b2" using fits_mono [OF Cons(4)] b(3) by simp_all
  have "readRule S False (b1 @ b2 @ rest) = Inr (f r, b2 @ rest)" using Cons(2) [OF _ b(1) f(1)] by simp
  moreover have "readRules S False message (Suc i) (length rules) (b2 @ rest) = Inr (map f rules, rest)"
    using Cons(1) [OF Cons(2) b(2) f(2)] by simp
  ultimately show ?case using b(3) by (simp add: readRules.simps [of S False message i "Suc (length rules)"] storeRead_def)
qed (simp add: readRules.simps)

lemma concatE_length: "concatE (map w xs) = Inr b \<Longrightarrow> (\<And>x c. x \<in> set xs \<Longrightarrow> w x = Inr c \<Longrightarrow> c \<noteq> []) \<Longrightarrow> length xs \<le> length b"
proof (induction xs arbitrary: b)
  case (Cons x xs)
  then obtain c b' where c: "w x = Inr c" "concatE (map w xs) = Inr b'" "b = c @ b'" by auto
  then have "length xs \<le> length b'" "Suc 0 \<le> length c" using Cons by (auto simp: Suc_le_eq)
  then show ?case using c(3) by simp
qed simp

lemma writeRule_nonempty: "writeRule S lib v r = Inr b \<Longrightarrow> b \<noteq> []"
  by (cases r) (auto simp: writeDefaultRule_def split: if_splits)

lemma count_rules:
  assumes "concatE (map (writeRule S lib v) rules) = Inr body" and "fits S body"
  shows "readUvarint (writeCount S rules @ rest) = Inr (word_of_nat (length rules), rest)"
    and "makeslice (sr_sizeofHeadlessRule S) (word_of_nat (length rules)) = Inr ()"
    and "unat (word_of_nat (length rules) :: u64) = length rules"
proof -
  have l: "length rules \<le> length body" by (rule concatE_length [OF assms(1) writeRule_nonempty])
  have "sr_sizeofHeadlessRule S * length rules \<le> sr_sizeofHeadlessRule S * length body" using l by simp
  then have "sr_sizeofHeadlessRule S * length rules \<le> 2 ^ 48" using assms(2) unfolding fits_def by linarith
  then show "makeslice (sr_sizeofHeadlessRule S) (word_of_nat (length rules)) = Inr ()" using size by (intro makeslice_ok) simp_all
  show "unat (word_of_nat (length rules) :: u64) = length rules" by (rule unat_length [OF fits_length [OF assms(2) l]])
qed (rule readCount)

lemma read_rule:
  "writeRule S lib v r = Inr b \<Longrightarrow> writableRule r \<Longrightarrow> fits S b \<Longrightarrow> readRule S False (b @ rest) = Inr (compiledOptions lib (v = 1) r, rest)"
proof (induction r arbitrary: b rest)
  case (RuleOptions type dflt mode rules invert a)
  show ?case
  proof (cases "type = ''default''")
    case True
    then show ?thesis using RuleOptions.prems read_default_rule [of v dflt b rest] by simp
  next
    case False
    then obtain body where body: "concatE (map (writeRule S lib v) rules) = Inr body" "mode = ''and'' \<or> mode = ''or''"
        "b = 1 # (if mode = ''and'' then 0 else 1) # writeCount S rules @ body @ writeBool invert"
      using RuleOptions.prems(1) by (auto split: if_splits)
    have f: "fits S body" using fits_mono [OF RuleOptions.prems(3)] body(3) by simp
    have "readRules S False ''read logical rule ['' 0 (length rules) (body @ writeBool invert @ rest) =
        Inr (map (compiledOptions lib (v = 1)) rules, writeBool invert @ rest)"
      by (rule read_rules [OF _ body(1) f]) (use RuleOptions False in \<open>auto simp: list_all_iff\<close>)
    moreover have "\<not> (if mode = ''and'' then 0 else 1 :: u8) > 1" by simp
    ultimately show ?thesis using False body(2,3) count_rules [OF body(1) f]
      by (auto simp: readRule.simps readLogicalRule.simps storeRead_def writeBool_def readByte_def)
  qed
qed

lemma read_rule_set:
  assumes "srs_Write S lib rules v = Inr file" and "v \<le> 4" and "list_all writableRule rules"
    and "\<And>body. concatE (map (writeRule S lib v) rules) = Inr body \<Longrightarrow> fits S body"
  shows "srs_Read S False file = Inr \<lparr>pc_Version = v, pc_Rules = map (compiledOptions lib (v = 1)) rules\<rparr>"
proof -
  obtain body where body: "concatE (map (writeRule S lib v) rules) = Inr body"
      "file = MagicBytes @ v # sr_compress S (writeCount S rules @ body)"
    using assms(1) by (auto simp: srs_Write_def)
  have f: "fits S body" by (rule assms(4) [OF body(1)])
  have r: "readRules S False ''read rule['' 0 (length rules) (body @ []) = Inr (map (compiledOptions lib (v = 1)) rules, [])"
    by (rule read_rules [OF _ body(1) f]) (use read_rule assms(3) in \<open>auto simp: list_all_iff\<close>)
  have "readN 3 (MagicBytes @ v # sr_compress S (writeCount S rules @ body)) = Inr (MagicBytes, v # sr_compress S (writeCount S rules @ body))"
    by (rule readN_append) (simp add: MagicBytes_def)
  then show ?thesis using assms(2) r count_rules [OF body(1) f] by (simp add: body(2) srs_Read_def readByte_def zlib)
qed

end

end
