(* ===== verification/Srs_Load.thy ===== *)
theory Srs_Load
  imports Srs_Props
begin

text \<open>
  Compiled rule-sets in use: the compiler writes the lowest version that can hold the rules, and a binary
  rule-set loads like the source it was compiled from.
\<close>

section \<open>The version of a compiled rule-set\<close>

definition needsVersion3 :: "DefaultHeadlessRuleOptions \<Rightarrow> bool" where
  "needsVersion3 rule = (length (h_NetworkType rule) > 0 \<or> h_NetworkIsExpensive rule \<or> h_NetworkIsConstrained rule)"

definition needsVersion4 :: "DefaultHeadlessRuleOptions \<Rightarrow> bool" where
  "needsVersion4 rule = (someNonEmpty (h_NetworkInterfaceAddress rule) \<or> length (h_DefaultInterfaceAddress rule) > 0)"

text \<open>A version from 2 on is enough for a rule if it knows its items.\<close>

definition enough :: "u8 \<Rightarrow> ((DefaultHeadlessRuleOptions \<Rightarrow> bool) \<Rightarrow> bool) \<Rightarrow> bool" where
  "enough v has = ((has needsVersion3 \<longrightarrow> 3 \<le> v) \<and> (has needsVersion4 \<longrightarrow> 4 \<le> v))"

lemma downgrade_alt:
  "downgradeRuleSetVersion v rules =
     (let v1 = (if v = 4 \<and> \<not> list_ex (HasHeadlessRule needsVersion4) rules then 3 else v)
      in if v1 = 3 \<and> \<not> list_ex (HasHeadlessRule needsVersion3) rules then 2 else v1)"
  by (simp add: downgradeRuleSetVersion_def needsVersion3_def [abs_def] needsVersion4_def [abs_def])

definition implied :: "'a result \<Rightarrow> 'a result \<Rightarrow> bool" where
  "implied r r' = (\<forall>x. r = Inr x \<longrightarrow> r' = Inr x)"

lemma implied_refl [simp]: "implied r r"
  by (simp add: implied_def)

lemma concatE_implied: "list_all2 implied rs rs' \<Longrightarrow> implied (concatE rs) (concatE rs')"
  by (induction rs rs' rule: list_all2_induct) (auto simp: implied_def)

lemma versioned_implied: "(c \<Longrightarrow> ok') \<Longrightarrow> implied (optionalItem c (versioned ok m x)) (optionalItem c (versioned ok' m x))"
  by (auto simp: implied_def optionalItem_def versioned_def split: if_splits)

lemma writeDefaultRule_version:
  assumes "2 \<le> v" and "2 \<le> v'" and "enough v' (\<lambda>has. has h)"
  shows "implied (writeDefaultRule S lib v h) (writeDefaultRule S lib v' h)"
proof -
  have "v \<noteq> 1" "v' \<noteq> 1" using assms(1,2) by (auto simp: word_le_nat_alt)
  then have 1: "writeFrontItems S lib v' h = writeFrontItems S lib v h" by (simp add: writeFrontItems_def)
  have 2: "writeLastItems S v' h = writeLastItems S v h" using assms(1,2) by (simp add: writeLastItems_def versioned_def)
  have "list_all2 implied (writeNetworkItems S v h) (writeNetworkItems S v' h)"
    unfolding writeNetworkItems_def list_all2_Cons list_all2_Nil
    by (intro conjI TrueI versioned_implied) (use assms(3) in \<open>simp_all add: enough_def needsVersion3_def needsVersion4_def\<close>)
  then have "implied (concatE (writeFrontItems S lib v h @ writeNetworkItems S v h @ writeLastItems S v h))
      (concatE (writeFrontItems S lib v' h @ writeNetworkItems S v' h @ writeLastItems S v' h))"
    unfolding 1 2 by (intro concatE_implied list_all2_appendI) (simp_all add: list.rel_refl)
  then show ?thesis by (auto simp: implied_def writeDefaultRule_def)
qed

lemma concatE_append: "concatE (xs @ ys) = bindE (concatE xs) (\<lambda>a. bindE (concatE ys) (\<lambda>b. Inr (a @ b)))"
proof (induction xs)
  case Nil
  show ?case by (cases "concatE ys") simp_all
next
  case (Cons x xs)
  then show ?case by (cases x; cases "concatE xs"; cases "concatE ys") simp_all
qed

lemma writeDefaultRule_enough: "writeDefaultRule S lib v h = Inr b \<Longrightarrow> enough v (\<lambda>has. has h)"
  by (auto simp: writeDefaultRule_def concatE_append writeNetworkItems_def enough_def needsVersion3_def needsVersion4_def
      optionalItem_def versioned_def split: if_splits)

lemma writeRule_version:
  "2 \<le> v \<Longrightarrow> 2 \<le> v' \<Longrightarrow> enough v' (\<lambda>has. HasHeadlessRule has r) \<Longrightarrow> implied (writeRule S lib v r) (writeRule S lib v' r)"
proof (induction r)
  case (RuleOptions type dflt mode rules invert a)
  show ?case
  proof (cases "type = ''default''")
    case True
    then show ?thesis using RuleOptions.prems writeDefaultRule_version [of v v' dflt S lib] by simp
  next
    case False
    have "implied (writeRule S lib v r) (writeRule S lib v' r)" if "r \<in> set rules" "type = ''logical''" for r
      using RuleOptions that False by (auto simp: enough_def list_ex_iff)
    then have "type = ''logical'' \<Longrightarrow> implied (concatE (map (writeRule S lib v) rules)) (concatE (map (writeRule S lib v') rules))"
      by (intro concatE_implied) (simp add: list.rel_map list.rel_refl_strong)
    then show ?thesis using False by (auto simp: implied_def)
  qed
qed

lemma concatE_all: "concatE (map w xs) = Inr b \<Longrightarrow> x \<in> set xs \<Longrightarrow> \<exists>c. w x = Inr c"
  by (induction xs arbitrary: b) auto

lemma writeRule_enough: "writeRule S lib v r = Inr b \<Longrightarrow> enough v (\<lambda>has. HasHeadlessRule has r)"
proof (induction r arbitrary: b)
  case (RuleOptions type dflt mode rules invert a)
  show ?case
  proof (cases "type = ''default''")
    case True
    then show ?thesis using RuleOptions.prems writeDefaultRule_enough [of S lib v dflt b] by simp
  next
    case False
    then obtain body where body: "concatE (map (writeRule S lib v) rules) = Inr body" "type = ''logical''"
      using RuleOptions.prems by (auto split: if_splits)
    have "enough v (\<lambda>has. HasHeadlessRule has r)" if "r \<in> set rules" for r
      using RuleOptions.IH [OF that] concatE_all [OF body(1) that] by blast
    then show ?thesis using body(2) by (auto simp: enough_def list_ex_iff)
  qed
qed

lemma rules_enough:
  assumes "srs_Write S lib rules v = Inr file"
  shows "enough v (\<lambda>has. list_ex (HasHeadlessRule has) rules)"
proof -
  obtain body where body: "concatE (map (writeRule S lib v) rules) = Inr body" using assms by (auto simp: srs_Write_def)
  have "enough v (\<lambda>has. HasHeadlessRule has r)" if "r \<in> set rules" for r
    using concatE_all [OF body that] writeRule_enough by blast
  then show ?thesis by (auto simp: enough_def list_ex_iff)
qed

lemma srs_Write_version:
  assumes "2 \<le> v" and "2 \<le> v'" and "enough v' (\<lambda>has. list_ex (HasHeadlessRule has) rules)" and "srs_Write S lib rules v = Inr file"
  shows "\<exists>file'. srs_Write S lib rules v' = Inr file' \<and> drop 4 file' = drop 4 file"
proof -
  have "implied (writeRule S lib v r) (writeRule S lib v' r)" if "r \<in> set rules" for r
    using assms(1-3) that by (intro writeRule_version) (auto simp: enough_def list_ex_iff)
  then have "implied (concatE (map (writeRule S lib v) rules)) (concatE (map (writeRule S lib v') rules))"
    by (intro concatE_implied) (simp add: list.rel_map list.rel_refl_strong)
  then show ?thesis using assms(4) by (auto simp: implied_def srs_Write_def MagicBytes_def)
qed

lemma downgrade_enough:
  assumes "v \<in> {2, 3, 4}" and "enough v (\<lambda>has. list_ex (HasHeadlessRule has) rules)"
  shows "downgradeRuleSetVersion v rules \<in> {2, 3, 4}" and "downgradeRuleSetVersion v rules \<le> v"
    and "enough (downgradeRuleSetVersion v rules) (\<lambda>has. list_ex (HasHeadlessRule has) rules)"
    and "2 \<le> w \<Longrightarrow> enough w (\<lambda>has. list_ex (HasHeadlessRule has) rules) \<Longrightarrow> downgradeRuleSetVersion v rules \<le> w"
  using assms by (auto simp: downgrade_alt enough_def Let_def)

text \<open>
  The compiler of rule-sets writes the same content as for the declared version, under the lowest
  version from 2 on with which the rules can be written: older programs can read it whenever possible.
\<close>

theorem compiler_chooses_lowest_version:
  assumes "v \<in> {2, 3, 4}" and "srs_Write S lib rules v = Inr file"
  shows "\<exists>file' v'. compileRuleSet S lib \<lparr>pc_Version = v, pc_Rules = rules\<rparr> = Inr file' \<and> drop 4 file' = drop 4 file \<and>
    file' ! 3 = v' \<and> 2 \<le> v' \<and> v' \<le> v \<and> (\<forall>w. 2 \<le> w \<and> isOk (srs_Write S lib rules w) \<longrightarrow> v' \<le> w)"
proof -
  let ?v = "downgradeRuleSetVersion v rules"
  note d = downgrade_enough [OF assms(1) rules_enough [OF assms(2)]]
  have 2: "2 \<le> v" "2 \<le> ?v" using assms(1) d(1) by auto
  obtain file' where f: "srs_Write S lib rules ?v = Inr file'" "drop 4 file' = drop 4 file"
    using srs_Write_version [OF 2 d(3) assms(2)] by blast
  have "file' ! 3 = ?v" using f(1) by (auto simp: srs_Write_def MagicBytes_def)
  moreover have "?v \<le> w" if "2 \<le> w" "isOk (srs_Write S lib rules w)" for w
    using that d(4) rules_enough [of S lib rules w] by (auto simp: isOk_def split: sum.splits)
  ultimately show ?thesis using f d(2) 2 by (auto simp: compileRuleSet_def)
qed

section \<open>Loading a compiled rule-set\<close>

text \<open>A rule as the configuration or the source of a rule-set gives it: nothing compiled, maps that are there have entries.\<close>

definition sourceRule :: "DefaultHeadlessRuleOptions \<Rightarrow> bool" where
  "sourceRule h =
     (writable h \<and> h_NetworkInterfaceAddress h \<noteq> Some [] \<and> Option.is_none (h_DomainMatcher h) \<and> Option.is_none (h_SourceIPSet h) \<and>
      Option.is_none (h_IPSet h) \<and> Option.is_none (h_AdGuardDomainMatcher h))"

fun sourceOptions :: "HeadlessOptions \<Rightarrow> bool" where
  "sourceOptions (RuleOptions type dflt mode rules invert a) =
     (if type = ''default'' then sourceRule dflt else list_all sourceOptions rules)"

lemma sourceOptions_writable: "sourceOptions r \<Longrightarrow> writableRule r"
  by (induction r) (auto simp: sourceRule_def list_all_iff)

text \<open>The parts of a rule that have been written could be compiled.\<close>

definition compilable :: "Lib \<Rightarrow> DefaultHeadlessRuleOptions \<Rightarrow> bool" where
  "compilable lib h =
     ((h_SourceIPCIDR h \<noteq> [] \<longrightarrow> compiledSet lib (h_SourceIPCIDR h) \<noteq> None) \<and> (h_IPCIDR h \<noteq> [] \<longrightarrow> compiledSet lib (h_IPCIDR h) \<noteq> None))"

fun compilableOptions :: "Lib \<Rightarrow> HeadlessOptions \<Rightarrow> bool" where
  "compilableOptions lib (RuleOptions type dflt mode rules invert a) =
     (if type = ''default'' then sourceRule dflt \<and> compilable lib dflt else type = ''logical'' \<and> list_all (compilableOptions lib) rules)"

context srs_library
begin

lemma cidr_compilable: "writeRuleItemCIDR S lib t vs = Inr b \<Longrightarrow> compiledSet lib vs \<noteq> None"
  by (auto simp: writeRuleItemCIDR_def compiledSet_def ipset)

lemma written_compilable:
  assumes "writeDefaultRule S lib v h = Inr b"
  shows "compilable lib h"
proof -
  let ?items = "writeFrontItems S lib v h @ writeNetworkItems S v h @ writeLastItems S v h"
  obtain c where c: "concatE ?items = Inr c" using assms by (auto simp: writeDefaultRule_def)
  have ok: "\<exists>x. i = Inr x" if "i \<in> set ?items" for i using concatE_all [of "\<lambda>i. i" ?items c i] c that by simp
  have "\<exists>x. optionalItem (length (h_SourceIPCIDR h) > 0) (cause [AStr ''source_ip_cidr''] (writeRuleItemCIDR S lib 5 (h_SourceIPCIDR h))) = Inr x"
    by (rule ok) (simp add: writeFrontItems_def)
  moreover have "\<exists>x. optionalItem (length (h_IPCIDR h) > 0) (cause [AStr ''ipcidr''] (writeRuleItemCIDR S lib 6 (h_IPCIDR h))) = Inr x"
    by (rule ok) (simp add: writeFrontItems_def)
  ultimately show ?thesis using cidr_compilable by (auto simp: optionalItem_def compilable_def)
qed

lemma written_compilableOptions: "writeRule S lib v r = Inr b \<Longrightarrow> sourceOptions r \<Longrightarrow> compilableOptions lib r"
proof (induction r arbitrary: b)
  case (RuleOptions type dflt mode rules invert a)
  show ?case
  proof (cases "type = ''default''")
    case True
    then show ?thesis using RuleOptions.prems written_compilable by auto
  next
    case False
    then obtain body where body: "concatE (map (writeRule S lib v) rules) = Inr body" "type = ''logical''"
      using RuleOptions.prems(1) by (auto split: if_splits)
    have "compilableOptions lib r" if "r \<in> set rules" for r
      using concatE_all [OF body(1) that] RuleOptions.IH [OF that] RuleOptions.prems(2) that False by (auto simp: list_all_iff)
    then show ?thesis using body(2) by (simp add: list_all_iff)
  qed
qed

end

subsection \<open>Building the compiled rules\<close>

lemma foldE_implied: "list_all2 (\<lambda>f g. \<forall>s. implied (f s) (g s)) fs gs \<Longrightarrow> implied (foldE fs s) (foldE gs s)"
proof (induction fs gs arbitrary: s rule: list_all2_induct)
  case (Cons f fs g gs)
  then show ?case by (auto simp: implied_def)
qed simp

lemma domain_step:
  "implied (onElse (length ds > 0 \<or> length ss > 0) add (NewDomainItem lib ds ss) None r)
     (onElse False add i (map_option NewRawDomainItem (if ds \<noteq> [] \<or> ss \<noteq> [] then Some (domainNewMatcher lib ds ss False) else None)) r)"
  by (auto simp: implied_def onElse_def NewDomainItem_def NewRawDomainItem_def split: if_splits)

lemma cidr_step:
  "implied (onElse (length vs > 0) add (cause a (NewIPCIDRItem lib b vs)) None r)
     (onElse False add i (map_option (NewRawIPCIDRItem b) (if vs \<noteq> [] then compiledSet lib vs else None)) r)"
  by (auto simp: implied_def onElse_def NewIPCIDRItem_def NewRawIPCIDRItem_def compiledSet_def split: if_splits)

lemma adguard_step:
  "onElse (length ls > 0) add (Inr (NewAdGuardDomainItem lib ls)) None r =
     onElse False add i (map_option NewRawAdGuardDomainItem (if ls \<noteq> [] then Some (domainNewAdGuardMatcher lib ls) else None)) r"
  by (auto simp: onElse_def NewAdGuardDomainItem_def NewRawAdGuardDomainItem_def)

lemma compiled_default_builds:
  assumes "sourceRule h"
  shows "implied (NewDefaultHeadlessRule nm lib h) (NewDefaultHeadlessRule nm lib (compiledRule lib False h))"
proof -
  let ?h = "compiledRule lib False h"
  have none: "h_DomainMatcher h = None" "h_SourceIPSet h = None" "h_IPSet h = None" "h_AdGuardDomainMatcher h = None"
    using assms by (simp_all add: sourceRule_def Option.is_none_def)
  have 1: "list_all2 (\<lambda>f g. \<forall>s. implied (f s) (g s)) (headlessFrontSteps lib h) (headlessFrontSteps lib ?h)"
    unfolding headlessFrontSteps_def list_all2_Cons list_all2_Nil
    using domain_step [of "h_Domain h" "h_DomainSuffix h" "addDestinationAddress :: _ \<Rightarrow> unit abstractDefaultRule \<Rightarrow> _" lib] cidr_step [of "h_SourceIPCIDR h" "addSourceAddress :: _ \<Rightarrow> unit abstractDefaultRule \<Rightarrow> _"]
      cidr_step [of "h_IPCIDR h" "addDestinationIPCIDR :: _ \<Rightarrow> unit abstractDefaultRule \<Rightarrow> _"]
    by (simp add: compiledRule_def none split del: if_split)
  have 2: "headlessProcessSteps lib ?h = headlessProcessSteps lib h" by (simp add: headlessProcessSteps_def compiledRule_def)
  have 3: "headlessNetworkSteps ?h = headlessNetworkSteps h"
    by (cases "h_NetworkInterfaceAddress h")
      (auto simp: headlessNetworkSteps_def compiledRule_def someNonEmpty_def entriesOf_def on_def)
  have "implied (foldE fs s) (foldE gs s)" if "list_all2 (\<lambda>f g. \<forall>s. implied (f s) (g s)) fs gs" for fs gs :: "unit step list" and s
    using that by (rule foldE_implied)
  then show ?thesis
    unfolding NewDefaultHeadlessRule_def 2 3 using 1 adguard_step [of "h_AdGuardDomain h" "addDestinationAddress :: _ \<Rightarrow> unit abstractDefaultRule \<Rightarrow> _" lib]
    by (simp add: compiledRule_def none list_all2_appendI list.rel_refl split del: if_split)
qed

lemma compiled_valid:
  assumes "sourceRule h" and "compilable lib h"
  shows "DefaultHeadlessRule_IsValid (compiledRule lib legacy h) = DefaultHeadlessRule_IsValid h"
proof -
  have "(if someNonEmpty (h_NetworkInterfaceAddress h) then h_NetworkInterfaceAddress h else None) = h_NetworkInterfaceAddress h"
    using assms(1) by (cases "h_NetworkInterfaceAddress h") (auto simp: sourceRule_def someNonEmpty_def)
  moreover have "(if c then Some x else None) = None \<longleftrightarrow> \<not> c" for c and x :: Matcher by simp
  moreover have "(if vs \<noteq> [] then compiledSet lib vs else None) = None \<longleftrightarrow> vs = []" if "vs \<noteq> [] \<longrightarrow> compiledSet lib vs \<noteq> None" for vs
    using that by simp
  ultimately show ?thesis using assms
    by (simp add: DefaultHeadlessRule_IsValid_def compiledRule_def compilable_def sourceRule_def Option.is_none_def split del: if_split)
      blast
qed

lemma allE_map: "(\<And>x. x \<in> set xs \<Longrightarrow> f (g x) = f x) \<Longrightarrow> allE f (map g xs) = allE f xs"
  by (induction xs) (simp_all cong: if_cong)

lemma compiled_options_valid: "compilableOptions lib r \<Longrightarrow> HeadlessRule_IsValid (compiledOptions lib legacy r) = HeadlessRule_IsValid r"
proof (induction r)
  case (RuleOptions type dflt mode rules invert a)
  show ?case
  proof (cases "type = ''default''")
    case True
    then show ?thesis using RuleOptions.prems compiled_valid by (simp add: HeadlessRule_IsValid_def defaultOptions_def)
  next
    case False
    then have "type = ''logical''" "\<And>r. r \<in> set rules \<Longrightarrow> compilableOptions lib r" using RuleOptions.prems by (auto simp: list_all_iff)
    moreover from this have "allE HeadlessRule_IsValid (map (compiledOptions lib legacy) rules) = allE HeadlessRule_IsValid rules"
      using RuleOptions.IH by (intro allE_map) blast
    ultimately show ?thesis by (simp add: HeadlessRule_IsValid_def logicalOptions_def)
  qed
qed

lemma mapE_from_implied:
  "(\<And>i x. x \<in> set xs \<Longrightarrow> implied (f i x) (f i (g x))) \<Longrightarrow> implied (mapE_from i f xs) (mapE_from i f (map g xs))"
proof (induction xs arbitrary: i)
  case (Cons x xs)
  then have "implied (f i x) (f i (g x))" "implied (mapE_from (Suc i) f xs) (mapE_from (Suc i) f (map g xs))" by simp_all
  then show ?case by (auto simp: implied_def)
qed simp

lemma cause_implied: "implied r r' \<Longrightarrow> implied (cause a r) (cause a r')"
  by (auto simp: implied_def)

lemma compiled_rule_builds:
  "compilableOptions lib r \<Longrightarrow> implied (NewHeadlessRule nm lib r) (NewHeadlessRule nm lib (compiledOptions lib False r))"
proof (induction r)
  case (RuleOptions type dflt mode rules invert a)
  show ?case
  proof (cases "type = ''default''")
    case True
    then show ?thesis
      using RuleOptions.prems compiled_valid [of dflt lib False] compiled_default_builds [of dflt nm lib]
      by (auto simp: implied_def defaultOptions_def)
  next
    case False
    then have l: "type = ''logical''" and c: "\<And>r. r \<in> set rules \<Longrightarrow> compilableOptions lib r"
      using RuleOptions.prems by (auto simp: list_all_iff)
    have "allE HeadlessRule_IsValid (map (compiledOptions lib False) rules) = allE HeadlessRule_IsValid rules"
      by (intro allE_map compiled_options_valid c)
    then have v: "LogicalHeadlessRule_IsValid (map (compiledOptions lib False) rules) = LogicalHeadlessRule_IsValid rules"
      by (simp add: LogicalHeadlessRule_IsValid_def LogicalOptions_IsValid_def HeadlessRule_IsValid_def)
    have "implied (mapE_from 0 (\<lambda>i sub. cause [AStr ''sub rule['', ANum (int i), AStr '']''] (NewHeadlessRule nm lib sub)) rules)
        (mapE_from 0 (\<lambda>i sub. cause [AStr ''sub rule['', ANum (int i), AStr '']''] (NewHeadlessRule nm lib sub)) (map (compiledOptions lib False) rules))"
      by (rule mapE_from_implied) (intro cause_implied RuleOptions.IH c)
    then show ?thesis using l v by (auto simp: implied_def logicalOptions_def)
  qed
qed

subsection \<open>The metadata of the rule-set\<close>

lemma compiled_has:
  assumes "\<And>h. compilable lib h \<Longrightarrow> sourceRule h \<Longrightarrow> cond (compiledRule lib False h) = cond h"
  shows "compilableOptions lib r \<Longrightarrow> HasHeadlessRule cond (compiledOptions lib False r) = HasHeadlessRule cond r"
proof (induction r)
  case (RuleOptions type dflt mode rules invert a)
  then show ?case using assms by (auto simp: defaultOptions_def logicalOptions_def list_all_iff list_ex_iff)
qed

lemma compiled_process: "isProcessHeadlessRule (compiledRule lib legacy h) = isProcessHeadlessRule h"
  by (simp add: isProcessHeadlessRule_def compiledRule_def)

lemma compiled_wifi: "isWIFIHeadlessRule (compiledRule lib legacy h) = isWIFIHeadlessRule h"
  by (simp add: isWIFIHeadlessRule_def compiledRule_def)

lemma compiled_ipcidr:
  assumes "compilable lib h" and "sourceRule h"
  shows "isIPCIDRHeadlessRule (compiledRule lib legacy h) = isIPCIDRHeadlessRule h"
proof -
  have "h_IPSet h = None" "h_IPCIDR h \<noteq> [] \<longrightarrow> compiledSet lib (h_IPCIDR h) \<noteq> None"
    using assms by (simp_all add: compilable_def sourceRule_def Option.is_none_def)
  then show ?thesis by (simp add: isIPCIDRHeadlessRule_def compiledRule_def Option.is_none_def)
qed

lemma compiled_metadata:
  assumes "list_all (compilableOptions lib) rules"
  shows "ruleSetMetadata (map (compiledOptions lib False) rules) = ruleSetMetadata rules"
proof -
  have "list_ex (HasHeadlessRule cond) (map (compiledOptions lib False) rules) = list_ex (HasHeadlessRule cond) rules"
    if "\<And>h. compilable lib h \<Longrightarrow> sourceRule h \<Longrightarrow> cond (compiledRule lib False h) = cond h" for cond
    using assms compiled_has [of lib cond, OF that] by (induction rules) simp_all
  then show ?thesis by (simp add: ruleSetMetadata_def compiled_process compiled_wifi compiled_ipcidr)
qed

lemma compiled_rules_reload:
  assumes "list_all (compilableOptions lib) rules" and "buildRules nm lib rules = Inr built"
  shows "reloadRules nm lib (map (compiledOptions lib False) rules) s = reloadRules nm lib rules s"
proof -
  have "implied (buildRules nm lib rules) (buildRules nm lib (map (compiledOptions lib False) rules))"
    unfolding buildRules_def using assms(1)
    by (intro mapE_from_implied cause_implied compiled_rule_builds) (auto simp: list_all_iff)
  then show ?thesis using assms(2) compiled_metadata [OF assms(1)] by (simp add: implied_def reloadRules_def)
qed

text \<open>The decoder of binary rule-sets that rule-sets use, over the content of a file.\<close>

definition srsDecoder :: "SrsLib \<Rightarrow> string \<Rightarrow> PlainRuleSetCompat result" where
  "srsDecoder S content = srs_Read S False (bytesOf content)"

text \<open>
  C24: a rule-set that the compiler has written, of version 2 or later, is loaded from its binary form as it
  would be from its source: the rules that are built, the metadata and the callbacks that are notified are the
  same, for every rule-set object. (The binary form holds compiled matchers and address sets instead of the
  lists of domains and prefixes, and drops what is empty.)
\<close>

theorem compiled_rule_set_loads_like_source:
  assumes "srs_library S lib" and "v \<in> {2, 3, 4}" and "compileRuleSet S lib \<lparr>pc_Version = v, pc_Rules = rules\<rparr> = Inr file"
    and "list_all sourceOptions rules" and "sr_uncompress S (drop 4 file) = Inr content" and "fits S content"
    and "buildRules networkManager lib rules = Inr built" and "ls_fileFormat s = ''binary''" and "dec_srs dec = srsDecoder S"
  shows "loadBytes networkManager lib dec (stringOf file) s = reloadRules networkManager lib rules s"
proof -
  let ?v = "downgradeRuleSetVersion v rules"
  have w: "srs_Write S lib rules ?v = Inr file" using assms(3) by (simp add: compileRuleSet_def)
  then obtain body where body: "concatE (map (writeRule S lib ?v) rules) = Inr body"
      "file = MagicBytes @ ?v # sr_compress S (writeCount S rules @ body)" by (auto simp: srs_Write_def)
  have "content = writeCount S rules @ body"
    using assms(5) body(2) srs_library.zlib [OF assms(1)] by (simp add: MagicBytes_def)
  then have f: "fits S body" using srs_library.fits_mono [OF assms(1,6)] by simp
  have v: "?v \<in> {2, 3, 4}" using assms(2) by (auto simp: downgrade_alt Let_def)
  have "list_all writableRule rules" using assms(4) sourceOptions_writable by (auto simp: list_all_iff)
  then have r: "srs_Read S False file = Inr \<lparr>pc_Version = ?v, pc_Rules = map (compiledOptions lib (?v = 1)) rules\<rparr>"
    using srs_library.read_rule_set [OF assms(1) w] v body(1) f by auto
  have "compilableOptions lib r" if "r \<in> set rules" for r
    using srs_library.written_compilableOptions [OF assms(1)] concatE_all [OF body(1) that] assms(4) that by (auto simp: list_all_iff)
  then have c: "list_all (compilableOptions lib) rules" by (simp add: list_all_iff)
  have "decodeContent dec ''binary'' (stringOf file) = Inr (map (compiledOptions lib False) rules)"
    using r v by (auto simp: decodeContent_def assms(9) srsDecoder_def PlainRuleSetCompat_Upgrade_def)
  then show ?thesis using compiled_rules_reload [OF c assms(7)] by (simp add: loadBytes_def assms(8))
qed

section \<open>Size of what is read\<close>

fun ruleCount :: "HeadlessOptions \<Rightarrow> nat" where
  "ruleCount (RuleOptions type dflt mode rules invert a) = Suc (sum_list (map ruleCount rules))"

definition paidFor :: "('a \<Rightarrow> nat) \<Rightarrow> nat \<Rightarrow> ('a \<times> bytes) result \<Rightarrow> bool" where
  "paidFor cost n r = (\<forall>x rest. r = Inr (x, rest) \<longrightarrow> cost x + length rest \<le> n)"

lemma paid_rules:
  "paidFor ruleCount (length bs) (readRule S recover bs)"
  "paidFor ruleCount (Suc (length bs')) (readLogicalRule S' recover' bs')"
  "paidFor (\<lambda>rs. sum_list (map ruleCount rs)) (length bs'') (readRules S'' recover'' message i n bs'')"
proof (induction S recover bs and S' recover' bs' and S'' recover'' message i n bs'' rule: readRule_readLogicalRule_readRules.induct)
  case (1 S recover bs)
  show ?case
  proof (cases bs)
    case (Cons t bs1)
    have "shrinking (length bs1) (readDefaultRule S recover bs1)" unfolding readDefaultRule_def by (rule readItems_shrinks)
    then show ?thesis using 1 Cons
      by (auto simp: paidFor_def readRule.simps [of S recover "t # bs1"] storeRead_def defaultOptions_def shrinking_def)
  qed (simp add: paidFor_def readRule.simps)
next
  case (2 S recover bs)
  show ?case unfolding paidFor_def
  proof (intro allI impI)
    fix x rest assume "readLogicalRule S recover bs = Inr (x, rest)"
    then obtain m bs1 n bs2 rules bs3 b where r: "bs = m # bs1" "\<not> 1 < m" "readUvarint bs1 = Inr (n, bs2)"
        "makeslice (sr_sizeofHeadlessRule S) n = Inr ()" "readRules S recover ''read logical rule ['' 0 (unat n) bs2 = Inr (rules, bs3)"
        "bs3 = b # rest" "x = logicalOptions (if m = 0 then ''and'' else ''or'') rules (b \<noteq> 0)"
      by (auto simp: readLogicalRule.simps [of S recover bs] storeRead_def readByte_def split: list.splits if_splits sum.splits)
    have "sum_list (map ruleCount rules) + length bs3 \<le> length bs2" using 2 [OF r(1-3) refl r(4)] r(5) by (simp add: paidFor_def)
    moreover have "length bs2 \<le> length bs1" using readUvarint_shrinks [of bs1 "length bs1"] r(3) by (simp add: shrinking_def)
    ultimately show "ruleCount x + length rest \<le> Suc (length bs)" using r(1,6,7) by (simp add: logicalOptions_def)
  qed
next
  case (3 S recover message i n bs)
  show ?case
  proof (cases n)
    case (Suc k)
    show ?thesis unfolding paidFor_def
    proof (intro allI impI)
      fix x rest assume "readRules S recover message i n bs = Inr (x, rest)"
      then obtain r bs1 rs where r: "readRule S recover bs = Inr (r, bs1)" "readRules S recover message (Suc i) k bs1 = Inr (rs, rest)" "x = r # rs"
        using Suc by (auto simp: readRules.simps [of S recover message i "Suc k"] storeRead_def split: sum.splits)
      have "ruleCount r + length bs1 \<le> length bs" using 3(1) [OF Suc] r(1) by (simp add: paidFor_def)
      moreover have "sum_list (map ruleCount rs) + length rest \<le> length bs1"
        using 3(2) [OF Suc, of "(r, bs1)" r bs1] r(1,2) by (simp add: paidFor_def)
      ultimately show "sum_list (map ruleCount x) + length rest \<le> length bs" using r(3) by simp
    qed
  qed (simp add: paidFor_def readRules.simps)
qed

text \<open>
  C25: whatever a file holds, reading it ends, and the rules that are read, nested ones included, are not more
  than the bytes of its uncompressed content: every rule takes at least one byte, so no file makes the reader
  build an endless or exponentially large rule-set.
\<close>

theorem reading_is_bounded_by_content:
  assumes "srs_Read S recover file = Inr ruleSet" and "sr_uncompress S (drop 4 file) = Inr content"
  shows "sum_list (map ruleCount (pc_Rules ruleSet)) \<le> length content"
proof -
  obtain v bs2 content' n bs rules rest where d: "drop 3 file = v # bs2" "sr_uncompress S bs2 = Inr content'"
    and r: "readUvarint content' = Inr (n, bs)" "readRules S recover ''read rule['' 0 (unat n) bs = Inr (rules, rest)" "pc_Rules ruleSet = rules"
    using assms(1) by (auto simp: srs_Read_def readN_def readByte_def split: if_splits list.splits)
  have "drop 4 file = tl (drop 3 file)" by (simp add: drop_Suc eval_nat_numeral tl_drop)
  then have content: "content' = content" using d assms(2) by simp
  have "length bs \<le> length content" using readUvarint_shrinks [of content "length content"] r(1) content by (simp add: shrinking_def)
  moreover have "sum_list (map ruleCount rules) + length rest \<le> length bs"
    using paid_rules(3) [of bs S recover "''read rule[''" 0 "unat n"] r(2) by (simp add: paidFor_def)
  ultimately show ?thesis using r(3) by simp
qed

section \<open>A concrete library\<close>

text \<open>
  Matchers are encoded by the lists they are built from, strings being terminated and their characters marked, an
  address set is the list of the ranges added to it, nothing is compressed, and a rule takes 1024 bytes of memory.
\<close>

fun markStrings :: "string list \<Rightarrow> bytes" where
  "markStrings [] = [2]"
| "markStrings (s # ss) = concat (map (\<lambda>b. [1, b]) (bytesOf s)) @ 0 # markStrings ss"

fun unmarkStrings :: "bytes \<Rightarrow> string \<Rightarrow> nat \<Rightarrow> (string list \<times> nat) result" where
  "unmarkStrings (t # bs) acc n =
     (if t = 2 then Inr ([], Suc n)
      else if t = 0 then bindE (unmarkStrings bs [] (Suc n)) (\<lambda>(ss, k). Inr (acc # ss, k))
      else (case bs of [] \<Rightarrow> Inl EOF | b # bs' \<Rightarrow> unmarkStrings bs' (acc @ stringOf [b]) (n + 2)))"
| "unmarkStrings [] acc n = Inl EOF"

lemma unmark_chars: "unmarkStrings (concat (map (\<lambda>b. [1, b]) cs) @ bs) acc n = unmarkStrings bs (acc @ stringOf cs) (n + 2 * length cs)"
  by (induction cs arbitrary: acc n) (simp_all add: stringOf_def)

lemma unmark_mark: "unmarkStrings (markStrings ss @ rest) [] n = Inr (ss, n + length (markStrings ss))"
proof (induction ss arbitrary: n)
  case (Cons s ss)
  have "length (concat (map (\<lambda>b. [1, b]) cs)) = 2 * length cs" for cs :: bytes by (induction cs) simp_all
  then show ?case using Cons unmark_chars [of "bytesOf s" "0 # markStrings ss @ rest" "[]" n] by simp
qed simp

definition sampleReadMatcher :: "bytes \<Rightarrow> ((Matcher \<times> string list \<times> string list) \<times> nat) result" where
  "sampleReadMatcher bs =
     bindE (readByte bs) (\<lambda>(legacy, bs1).
       bindE (unmarkStrings bs1 [] 1) (\<lambda>(ds, n).
         bindE (unmarkStrings (drop n bs) [] n) (\<lambda>(ss, k). Inr ((domainNewMatcher sampleLib ds ss (legacy = 1), ds, ss), k))))"

definition opRange :: "IPSetOp \<Rightarrow> Addr \<times> Addr" where
  "opRange op =
     (case op of
        AddAddr a \<Rightarrow> (a, a)
      | AddPrefix (Prefix (Addr4 a) n) \<Rightarrow> (Addr4 (a AND NOT (mask (32 - n))), Addr4 (a OR mask (32 - n)))
      | AddPrefix (Prefix (Addr6 a) n) \<Rightarrow> (Addr6 (a AND NOT (mask (128 - n))), Addr6 (a OR mask (128 - n)))
      | AddPrefix (Prefix AddrNone n) \<Rightarrow> (AddrNone, AddrNone))"

fun addrBetween :: "Addr \<Rightarrow> Addr \<times> Addr \<Rightarrow> bool" where
  "addrBetween (Addr4 x) (Addr4 a, Addr4 b) = (a \<le> x \<and> x \<le> b)"
| "addrBetween (Addr6 x) (Addr6 a, Addr6 b) = (a \<le> x \<and> x \<le> b)"
| "addrBetween _ _ = False"

definition sampleSrs :: SrsLib where
  "sampleSrs =
     \<lparr>sr_WriteUvarint = putUvarint,
      sr_matcherBytes = (\<lambda>ds ss legacy. (if legacy then 1 else 0) # markStrings ds @ markStrings ss),
      sr_ReadMatcher = sampleReadMatcher,
      sr_adGuardBytes = markStrings,
      sr_ReadAdGuardMatcher = (\<lambda>bs. bindE (unmarkStrings bs [] 0) (\<lambda>(ls, n). Inr ((domainNewAdGuardMatcher sampleLib ls, ls), n))),
      sr_IPSet = (\<lambda>ops. Inr (map opRange ops)),
      sr_Contains = (\<lambda>rr a. list_ex (addrBetween a) rr), sr_Prefixes = (\<lambda>rr. []),
      sr_AddrFromIP = (\<lambda>b. case addrFromSlice b of None \<Rightarrow> AddrNone | Some a \<Rightarrow> a),
      sr_Put = (\<lambda>m (k, v). if k \<in> fst ` set m then map (\<lambda>(k', v'). if k' = k then (k, v) else (k', v')) m else m @ [(k, v)]),
      sr_sizeofHeadlessRule = 1024, sr_compress = (\<lambda>b. b), sr_uncompress = Inr\<rparr>"

definition sampleSrsLib :: Lib where
  "sampleSrsLib =
     sampleLib\<lparr>builderIPSet := (\<lambda>ops. Inr (\<lambda>a. list_ex (addrBetween a) (map opRange ops))),
       ParsePrefix := (\<lambda>s. if s = ''10.0.0.0/8'' then Inr (Prefix (Addr4 0x0A000000) 8) else Inl (E_Lib ''prefix''))\<rparr>"

interpretation sampleSrs: srs_library sampleSrs sampleSrsLib
proof
  fix w rest show "readUvarint (sr_WriteUvarint sampleSrs w @ rest) = Inr (w, rest)"
    by (simp add: sampleSrs_def readUvarint_putUvarint)
next
  fix ds ss legacy rest
  have "drop (Suc (length (markStrings ds))) ((if legacy then 1 else 0) # markStrings ds @ markStrings ss @ rest) = markStrings ss @ rest" by simp
  then show "\<exists>dump. sr_ReadMatcher sampleSrs (sr_matcherBytes sampleSrs ds ss legacy @ rest) =
      Inr ((domainNewMatcher sampleSrsLib ds ss legacy, dump), length (sr_matcherBytes sampleSrs ds ss legacy))"
    using unmark_mark [of ds "markStrings ss @ rest" 1] unmark_mark [of ss rest "Suc (length (markStrings ds))"]
    by (simp add: sampleSrs_def sampleReadMatcher_def sampleSrsLib_def readByte_def)
next
  fix ls rest
  show "\<exists>dump. sr_ReadAdGuardMatcher sampleSrs (sr_adGuardBytes sampleSrs ls @ rest) =
      Inr ((domainNewAdGuardMatcher sampleSrsLib ls, dump), length (sr_adGuardBytes sampleSrs ls))"
    using unmark_mark [of ls rest 0] by (simp add: sampleSrs_def sampleSrsLib_def)
qed (simp_all add: sampleSrs_def sampleSrsLib_def comp_def)

definition sampleDomainSource :: DefaultHeadlessRuleOptions where
  "sampleDomainSource = emptyHeadlessRule\<lparr>h_Domain := [''a''], h_IPCIDR := [''10.0.0.0/8''], h_NetworkIsExpensive := True\<rparr>"

definition samplePortSource :: DefaultHeadlessRuleOptions where
  "samplePortSource = emptyHeadlessRule\<lparr>h_Port := [443], h_ProcessName := [''x''], h_Invert := True\<rparr>"

definition sampleSource :: HeadlessOptions where
  "sampleSource = logicalOptions ''or'' [defaultOptions sampleDomainSource, defaultOptions samplePortSource] False"

lemmas sample_srs = sampleSrs_def sampleSrsLib_def sampleLib_def

lemma small_uvarint: "w < 0x80 \<Longrightarrow> putUvarint w = [ucast w]"
  by (simp add: putUvarint.simps)

lemma bytesOfNat_numeral: "bytesOfNat (numeral k) v = word_of_nat (v div 256 ^ pred_numeral k) # bytesOfNat (pred_numeral k) v"
  by (simp add: numeral_eq_Suc)

lemma sample_cidr:
  "writeRuleItemCIDR sampleSrs sampleSrsLib 6 [''10.0.0.0/8''] = Inr [6, 1, 0, 0, 0, 0, 0, 0, 0, 1, 4, 10, 0, 0, 0, 4, 10, 255, 255, 255]"
proof -
  have "(mask 24 :: u32) = 0xFFFFFF" by (simp add: mask_eq_exp_minus_1)
  then show ?thesis
    by (simp add: sample_srs writeRuleItemCIDR_def parseCIDREntry_def writeIPSet_def writeRange_def writeSlice_def writeCount_def small_uvarint
        opRange_def bytesOfNat_numeral)
qed

lemma sample_domain_written:
  "writeDefaultRule sampleSrs sampleSrsLib 3 sampleDomainSource =
     Inr ([0, 2, 0, 1, 97, 0, 2, 2] @ [6, 1, 0, 0, 0, 0, 0, 0, 0, 1, 4, 10, 0, 0, 0, 4, 10, 255, 255, 255] @ [19, 255, 0])"
  by (simp add: writeDefaultRule_def sampleDomainSource_def emptyHeadlessRule_def writeFrontItems_def writeNetworkItems_def writeLastItems_def
      optionalItem_def versioned_def someNonEmpty_def sample_cidr writeBool_def)
    (simp add: sampleSrs_def bytesOf_def)

lemma sample_port_written:
  "writeDefaultRule sampleSrs sampleSrsLib 3 samplePortSource = Inr [0, 9, 1, 1, 187, 11, 1, 1, 120, 255, 1]"
  by (simp add: writeDefaultRule_def samplePortSource_def emptyHeadlessRule_def writeFrontItems_def writeNetworkItems_def writeLastItems_def
      optionalItem_def versioned_def someNonEmpty_def writeBool_def)
    (simp add: sampleSrs_def bytesOf_def writeRuleItemUint16_def writeRuleItemString_def writeCount_def writeSlice_def small_uvarint bytesOfNat_numeral)

lemma sample_rules_written:
  "concatE (map (writeRule sampleSrs sampleSrsLib 3) [sampleSource]) =
     Inr ([1, 1, 2] @ [0, 2, 0, 1, 97, 0, 2, 2] @ [6, 1, 0, 0, 0, 0, 0, 0, 0, 1, 4, 10, 0, 0, 0, 4, 10, 255, 255, 255] @ [19, 255, 0] @
          [0, 9, 1, 1, 187, 11, 1, 1, 120, 255, 1, 0])"
  using sample_domain_written sample_port_written
  by (simp add: sampleSource_def logicalOptions_def defaultOptions_def writeBool_def writeCount_def) (simp add: sampleSrs_def small_uvarint)

lemma sample_downgrade: "downgradeRuleSetVersion 4 [sampleSource] = 3"
  by (simp add: downgradeRuleSetVersion_def sampleSource_def logicalOptions_def defaultOptions_def sampleDomainSource_def samplePortSource_def
      emptyHeadlessRule_def someNonEmpty_def)

definition sampleFile :: bytes where
  "sampleFile =
     [0x53, 0x52, 0x53, 3, 1] @ [1, 1, 2] @ [0, 2, 0, 1, 97, 0, 2, 2] @
     [6, 1, 0, 0, 0, 0, 0, 0, 0, 1, 4, 10, 0, 0, 0, 4, 10, 255, 255, 255] @ [19, 255, 0] @ [0, 9, 1, 1, 187, 11, 1, 1, 120, 255, 1, 0]"

lemma sample_written: "srs_Write sampleSrs sampleSrsLib [sampleSource] 3 = Inr sampleFile"
  using sample_rules_written
  by (simp add: srs_Write_def MagicBytes_def sampleFile_def writeCount_def del: writeRule.simps) (simp add: sampleSrs_def small_uvarint)

lemma sample_compiled: "compileRuleSet sampleSrs sampleSrsLib \<lparr>pc_Version = 4, pc_Rules = [sampleSource]\<rparr> = Inr sampleFile"
  by (simp add: compileRuleSet_def sample_downgrade sample_written)

theorem compiler_chooses_lowest_version_witness:
  "\<exists>file' v'. compileRuleSet sampleSrs sampleSrsLib \<lparr>pc_Version = 3, pc_Rules = [sampleSource]\<rparr> = Inr file' \<and> drop 4 file' = drop 4 sampleFile \<and>
     file' ! 3 = v' \<and> 2 \<le> v' \<and> v' \<le> 3 \<and> (\<forall>w. 2 \<le> w \<and> isOk (srs_Write sampleSrs sampleSrsLib [sampleSource] w) \<longrightarrow> v' \<le> w)"
  by (rule compiler_chooses_lowest_version [OF _ sample_written]) simp

lemma sample_source: "sourceOptions sampleSource"
  by (simp add: sampleSource_def logicalOptions_def defaultOptions_def sampleDomainSource_def samplePortSource_def emptyHeadlessRule_def
      sourceRule_def writable_def entriesOf_def)

lemma sample_builds: "isOk (buildRules True sampleSrsLib [sampleSource])"
  by (simp add: buildRules_def sampleSource_def logicalOptions_def defaultOptions_def sampleDomainSource_def samplePortSource_def emptyHeadlessRule_def
      LogicalHeadlessRule_IsValid_def LogicalOptions_IsValid_def DefaultHeadlessRule_IsValid_def logicalMode_def NewDefaultHeadlessRule_def
      headlessFrontSteps_def headlessProcessSteps_def headlessNetworkSteps_def on_def onE_def onElse_def NewDomainItem_def NewIPCIDRItem_def
      parseCIDREntry_def someNonEmpty_def)
    (simp add: sample_srs on_def onE_def onElse_def)

definition sampleBinarySet :: RuleSetObj where
  "sampleBinarySet =
     \<lparr>ls_tag = ''ads'', ls_rules = [], ls_metadata = zeroMetadata, ls_fileFormat = ''binary'', ls_callbacks = [4, 7], ls_refs = 1\<rparr>"

theorem compiled_rule_set_loads_like_source_witness:
  "loadBytes True sampleSrsLib \<lparr>dec_json = (\<lambda>_. Inl EOF), dec_srs = srsDecoder sampleSrs\<rparr> (stringOf sampleFile) sampleBinarySet =
     reloadRules True sampleSrsLib [sampleSource] sampleBinarySet"
proof -
  obtain built where b: "buildRules True sampleSrsLib [sampleSource] = Inr built"
    using sample_builds by (auto simp: isOk_def split: sum.splits)
  have u: "sr_uncompress sampleSrs (drop 4 sampleFile) = Inr (drop 4 sampleFile)" by (simp add: sampleSrs_def)
  have "fits sampleSrs (drop 4 sampleFile)" by (simp add: fits_def sampleSrs_def sampleFile_def)
  then show ?thesis
    by (intro compiled_rule_set_loads_like_source [OF sampleSrs.srs_library_axioms _ sample_compiled _ u _ b])
      (simp_all add: sample_source sampleBinarySet_def)
qed

theorem reading_is_bounded_by_content_witness:
  "\<exists>ruleSet. srs_Read sampleSrs False sampleFile = Inr ruleSet \<and> sum_list (map ruleCount (pc_Rules ruleSet)) \<le> 47"
proof -
  have f: "fits sampleSrs b" if "concatE (map (writeRule sampleSrs sampleSrsLib 3) [sampleSource]) = Inr b" for b
    using that sample_rules_written by (auto simp: fits_def sampleSrs_def)
  obtain ruleSet where r: "srs_Read sampleSrs False sampleFile = Inr ruleSet"
    using sampleSrs.read_rule_set [OF sample_written _ _ f] sample_source sourceOptions_writable by auto
  have u: "sr_uncompress sampleSrs (drop 4 sampleFile) = Inr (drop 4 sampleFile)" by (simp add: sampleSrs_def)
  have "length (drop 4 sampleFile) = 47" by (simp add: sampleFile_def)
  then show ?thesis using r reading_is_bounded_by_content [OF r u] by auto
qed

text \<open>
  A number of rules that memory cannot hold panics, before anything else of the content is looked at: \<open>make\<close> is called with
  the length that the file gives.
\<close>

lemma large_length_panics:
  assumes "srs_library S lib" and "v \<le> 4" and "2 ^ 48 < sr_sizeofHeadlessRule S * unat n"
  shows "srs_Read S recover (MagicBytes @ v # sr_compress S (sr_WriteUvarint S n @ rest)) =
    Inl (Panic [AStr ''runtime error: makeslice: len out of range''])"
  using assms(2,3) srs_library.zlib [OF assms(1)] srs_library.uvarint [OF assms(1), of n rest]
  by (simp add: srs_Read_def readN_def readByte_def makeslice_def MagicBytes_def)

end
