(* ===== verification/Dependency_Start.thy ===== *)
theory Dependency_Start
  imports Prelude "HOL-Library.Finite_Map"
begin

text \<open>
  The start of services that depend on each other: \<open>startOutbounds\<close> of \<open>adapter/outbound/manager.go\<close>
  and \<open>startTransports\<close> of \<open>dns/transport_manager.go\<close>, which are the same algorithm with different
  messages. Every round starts the services whose dependencies have been started; when a round
  starts nothing, the recursive closure (\<open>lintOutbound\<close>, \<open>lintTransport\<close>) looks for the reason.

  A service is what the algorithm reads of it; \<open>sv_Id\<close> stands for the identity of the Go object.
  The map of the started tags is the list of the tags in the order of their start.
\<close>

section \<open>Model\<close>

record Service =
  sv_Id :: nat
  sv_Type :: string
  sv_Tag :: string
  sv_Dependencies :: "string list"

text \<open>The texts in which the two managers differ.\<close>

record StartTexts =
  tx_Start :: "Service \<Rightarrow> Arg list"
  tx_Circular :: string
  tx_Kind :: string

text \<open>One round of the loop \<open>startOne\<close>; \<open>start\<close> is the outcome of \<open>Start(StartStateStart)\<close>.\<close>

fun startRound ::
  "StartTexts \<Rightarrow> (Service \<Rightarrow> Error option) \<Rightarrow> Service list \<Rightarrow> string list \<Rightarrow> bool \<Rightarrow> Error option \<times> string list \<times> bool" where
  "startRound tx start [] started canContinue = (None, started, canContinue)"
| "startRound tx start (s # ss) started canContinue =
     (if sv_Tag s \<in> set started then startRound tx start ss started canContinue
      else if list_ex (\<lambda>d. d \<notin> set started) (sv_Dependencies s) then startRound tx start ss started canContinue
      else case start s of
             Some err \<Rightarrow> (Some (E_Cause err (tx_Start tx s)), started @ [sv_Tag s], True)
           | None \<Rightarrow> startRound tx start ss (started @ [sv_Tag s]) True)"

text \<open>\<open>common.Find\<close> on strings: the first hit, or the empty string.\<close>

definition findOrEmpty :: "(string \<Rightarrow> bool) \<Rightarrow> string list \<Rightarrow> string" where
  "findOrEmpty P xs = (case find P xs of Some x \<Rightarrow> x | None \<Rightarrow> '''')"

text \<open>The closure \<open>lint\<close>: it follows unstarted dependencies until one repeats or is unknown.\<close>

function lint :: "StartTexts \<Rightarrow> (string, Service) fmap \<Rightarrow> string list \<Rightarrow> string list \<Rightarrow> Service \<Rightarrow> Error" where
  "lint tx byTag started oTree oCurrent =
     (let problem = findOrEmpty (\<lambda>d. d \<notin> set started) (sv_Dependencies oCurrent)
      in if problem \<in> set oTree
         then E_New [AStr (tx_Circular tx), AStr (stringsJoin oTree '' -> ''), AStr '' -> '', AStr problem]
         else case fmlookup byTag problem of
                None \<Rightarrow> E_New [AStr ''dependency['', AStr problem, AStr ''] not found for '', AStr (tx_Kind tx), AStr ''['', AStr (sv_Tag oCurrent), AStr '']'']
              | Some s \<Rightarrow> lint tx byTag started (oTree @ [problem]) s)"
  by pat_completeness auto

text \<open>Every call adds a registered tag to the tree that was not in it.\<close>

termination
proof (relation "measure (\<lambda>(tx, byTag, started, oTree, oCurrent). card (fset (fmdom byTag) - set oTree))", simp, goal_cases)
  case (1 tx byTag started oTree oCurrent problem s)
  then have p: "problem \<in> fset (fmdom byTag) - set oTree" by (simp add: fmdomI)
  have "fset (fmdom byTag) - set (oTree @ [problem]) = (fset (fmdom byTag) - set oTree) - {problem}" by auto
  then show ?case using p card_Diff1_less [of "fset (fmdom byTag) - set oTree" problem] by simp
qed

lemma startRound_mono:
  "startRound tx start ss started cc = (e, started', cc') \<Longrightarrow>
     \<exists>new. started' = started @ new \<and> set new \<subseteq> sv_Tag ` set ss - set started \<and> distinct new \<and> (cc' \<longleftrightarrow> cc \<or> new \<noteq> [])"
proof (induction ss arbitrary: started cc)
  case (Cons s ss)
  show ?case
  proof (cases "sv_Tag s \<in> set started \<or> list_ex (\<lambda>d. d \<notin> set started) (sv_Dependencies s)")
    case True
    then show ?thesis using Cons.IH [of started cc] Cons.prems by (auto split: if_splits)
  next
    case False
    show ?thesis
    proof (cases "start s")
      case None
      then have "startRound tx start ss (started @ [sv_Tag s]) True = (e, started', cc')" using False Cons.prems by simp
      from Cons.IH [OF this] obtain new where "started' = (started @ [sv_Tag s]) @ new"
        "set new \<subseteq> sv_Tag ` set ss - set (started @ [sv_Tag s])" "distinct new" "cc'" by auto
      then show ?thesis using False by (intro exI [of _ "sv_Tag s # new"]) auto
    next
      case (Some err)
      then show ?thesis using False Cons.prems by auto
    qed
  qed
qed simp

text \<open>The loop around the rounds; a nil service would be dereferenced if every tag had been started.\<close>

function startServices ::
  "StartTexts \<Rightarrow> (Service \<Rightarrow> Error option) \<Rightarrow> (string, Service) fmap \<Rightarrow> Service list \<Rightarrow> string list \<Rightarrow> Error option \<times> string list" where
  "startServices tx start byTag ss started =
     (case startRound tx start ss started False of
        (Some err, started', canContinue) \<Rightarrow> (Some err, started')
      | (None, started', canContinue) \<Rightarrow>
          if length started' = length ss then (None, started')
          else if canContinue then startServices tx start byTag ss started'
          else case find (\<lambda>s. sv_Tag s \<notin> set started') ss of
                 None \<Rightarrow> (Some (Panic [AStr ''nil pointer dereference'']), started')
               | Some current \<Rightarrow> (Some (lint tx byTag started' [sv_Tag current] current), started'))"
  by pat_completeness auto

termination
proof (relation "measure (\<lambda>(tx, start, byTag, ss, started). length (filter (\<lambda>s. sv_Tag s \<notin> set started) ss))", simp, goal_cases)
  case (1 tx start byTag ss started x y started' canContinue)
  then have "startRound tx start ss started False = (None, started', True)" by auto
  from startRound_mono [OF this] obtain new where new: "started' = started @ new" "set new \<subseteq> sv_Tag ` set ss - set started" "new \<noteq> []"
    by auto
  then obtain s where s: "s \<in> set ss" "sv_Tag s \<in> set new" "sv_Tag s \<notin> set started" by (cases new) auto
  have "length (filter (\<lambda>s. sv_Tag s \<notin> set started') ss) = length (filter (\<lambda>s. sv_Tag s \<notin> set new) (filter (\<lambda>s. sv_Tag s \<notin> set started) ss))"
    using new(1) by (simp add: conj_commute)
  also have "\<dots> < length (filter (\<lambda>s. sv_Tag s \<notin> set started) ss)"
    using s by (intro length_filter_less [of s]) auto
  finally show ?case by simp
qed

declare lint.simps [simp del] startServices.simps [simp del]

text \<open>The two instances.\<close>

definition transportTexts :: StartTexts where
  "transportTexts =
     \<lparr>tx_Start = \<lambda>s. [AStr ''start dns/'', AStr (sv_Type s), AStr ''['', AStr (sv_Tag s), AStr '']''],
      tx_Circular = ''circular server dependency: '', tx_Kind = ''server''\<rparr>"

definition outboundTexts :: StartTexts where
  "outboundTexts =
     \<lparr>tx_Start = \<lambda>s. [AStr ''start '', AStr (''outbound/'' @ sv_Type s @ ''['' @ sv_Tag s @ '']'')],
      tx_Circular = ''circular outbound dependency: '', tx_Kind = ''outbound''\<rparr>"

definition startTransports ::
  "(Service \<Rightarrow> Error option) \<Rightarrow> (string, Service) fmap \<Rightarrow> Service list \<Rightarrow> Error option \<times> string list" where
  "startTransports start byTag transports = startServices transportTexts start byTag transports []"

definition startOutbounds ::
  "(Service \<Rightarrow> Error option) \<Rightarrow> (string, Service) fmap \<Rightarrow> Service list \<Rightarrow> Error option \<times> string list" where
  "startOutbounds start byTag outbounds = startServices outboundTexts start byTag outbounds []"


section \<open>Rounds\<close>

text \<open>An order of start in which every service comes after its dependencies.\<close>

definition inOrder :: "Service set \<Rightarrow> string list \<Rightarrow> bool" where
  "inOrder S order =
     (\<forall>before t after. order = before @ t # after \<longrightarrow> (\<exists>s\<in>S. sv_Tag s = t \<and> set (sv_Dependencies s) \<subseteq> set before))"

lemma inOrder_Nil [simp]: "inOrder S []"
  by (simp add: inOrder_def)

lemma inOrder_snoc:
  assumes "inOrder S order" and "s \<in> S" and "set (sv_Dependencies s) \<subseteq> set order"
  shows "inOrder S (order @ [sv_Tag s])"
  unfolding inOrder_def
proof (intro allI impI)
  fix before t after
  assume o: "order @ [sv_Tag s] = before @ t # after"
  show "\<exists>u\<in>S. sv_Tag u = t \<and> set (sv_Dependencies u) \<subseteq> set before"
  proof (cases after rule: rev_cases)
    case Nil
    then show ?thesis using o assms by auto
  next
    case (snoc xs x)
    then have "order = before @ t # xs" using o by (metis append_assoc append_Cons butlast_snoc)
    then show ?thesis using assms(1) by (auto simp: inOrder_def)
  qed
qed

lemma startRound_inOrder:
  "startRound tx start ss started cc = (e, started', cc') \<Longrightarrow> inOrder S started \<Longrightarrow> set ss \<subseteq> S \<Longrightarrow> inOrder S started'"
proof (induction ss arbitrary: started cc)
  case (Cons s ss)
  have "inOrder S (started @ [sv_Tag s])" if "\<not> list_ex (\<lambda>d. d \<notin> set started) (sv_Dependencies s)"
    using inOrder_snoc [OF Cons.prems(2), of s] Cons.prems(3) that by (auto simp: list_ex_iff)
  then show ?case using Cons by (auto split: if_splits option.splits)
qed simp

text \<open>A round that starts nothing: every service is started already or waits for a dependency.\<close>

lemma startRound_stuck:
  "startRound tx start ss started False = (None, started', False) \<Longrightarrow>
     started' = started \<and> (\<forall>s\<in>set ss. sv_Tag s \<notin> set started \<longrightarrow> (\<exists>d\<in>set (sv_Dependencies s). d \<notin> set started))"
proof (induction ss arbitrary: started)
  case (Cons s ss)
  have "\<not> (sv_Tag s \<notin> set started \<and> \<not> list_ex (\<lambda>d. d \<notin> set started) (sv_Dependencies s))"
    using Cons.prems startRound_mono [of tx start ss "started @ [sv_Tag s]" True None started' False]
    by (auto split: option.splits if_splits)
  then show ?case using Cons by (auto simp: list_ex_iff split: if_splits)
qed simp

lemma startRound_no_error:
  "\<forall>s\<in>set ss. start s = None \<Longrightarrow> fst (startRound tx start ss started cc) = None"
  by (induction ss arbitrary: started cc) auto

lemma startRound_error:
  "startRound tx start ss started cc = (Some e, r) \<Longrightarrow> \<exists>s\<in>set ss. \<exists>err. start s = Some err \<and> e = E_Cause err (tx_Start tx s)"
  by (induction ss arbitrary: started cc) (auto split: if_splits option.splits)

lemma find_unstarted: "findOrEmpty P xs = x \<Longrightarrow> \<exists>y\<in>set xs. P y \<Longrightarrow> x \<in> set xs \<and> P x"
  by (auto simp: findOrEmpty_def find_None_iff find_Some_iff split: option.splits)

section \<open>What the start guarantees\<close>

definition wellTagged :: "Service list \<Rightarrow> string list \<Rightarrow> bool" where
  "wellTagged ss started = (distinct (map sv_Tag ss) \<and> distinct started \<and> set started \<subseteq> sv_Tag ` set ss)"

lemma wellTagged_round:
  assumes "wellTagged ss started" and "startRound tx start ss started cc = (e, started', cc')"
  shows "wellTagged ss started'"
  using startRound_mono [OF assms(2)] assms(1) by (auto simp: wellTagged_def)

lemma wellTagged_all:
  assumes "wellTagged ss started"
  shows "length started = length ss \<longleftrightarrow> set started = sv_Tag ` set ss"
proof -
  have "card (sv_Tag ` set ss) = length ss" using assms distinct_card [of "map sv_Tag ss"] by (simp add: wellTagged_def)
  moreover have "card (set started) = length started" using assms by (simp add: wellTagged_def distinct_card)
  ultimately show ?thesis using assms card_subset_eq [of "sv_Tag ` set ss" "set started"]
    by (auto simp: wellTagged_def)
qed

lemma startServices_ok:
  "startServices tx start byTag ss started = (e, order) \<Longrightarrow> wellTagged ss started \<Longrightarrow> inOrder (set ss) started \<Longrightarrow>
     inOrder (set ss) order \<and> wellTagged ss order \<and> (e = None \<longrightarrow> set order = sv_Tag ` set ss)"
proof (induction tx start byTag ss started rule: startServices.induct)
  case (1 tx start byTag ss started)
  obtain r started' cc where round: "startRound tx start ss started False = (r, started', cc)" by (metis prod_cases3)
  have w: "wellTagged ss started'" "inOrder (set ss) started'"
    using wellTagged_round [OF 1(3) round] startRound_inOrder [OF round 1(4)] by simp_all
  show ?case
    using 1(1) [OF round [symmetric]] 1(2) w round wellTagged_all [OF w(1)]
    by (subst (asm) startServices.simps) (auto split: option.splits if_splits)
qed


text \<open>Without failing services the start can only end with everything started, or stuck.\<close>

lemma startServices_stuck:
  "startServices tx start byTag ss started = (Some e, order) \<Longrightarrow> wellTagged ss started \<Longrightarrow> \<forall>s\<in>set ss. start s = None \<Longrightarrow>
     (\<forall>s\<in>set ss. sv_Tag s \<notin> set order \<longrightarrow> (\<exists>d\<in>set (sv_Dependencies s). d \<notin> set order)) \<and>
     (\<exists>current\<in>set ss. sv_Tag current \<notin> set order \<and> e = lint tx byTag order [sv_Tag current] current)"
proof (induction tx start byTag ss started rule: startServices.induct)
  case (1 tx start byTag ss started)
  obtain r started' cc where round: "startRound tx start ss started False = (r, started', cc)" by (metis prod_cases3)
  have r: "r = None" using startRound_no_error [OF 1(4), of tx started False] round by simp
  have w: "wellTagged ss started'" using wellTagged_round [OF 1(3) round] .
  have ne: "length started' \<noteq> length ss" using 1(2) round r by (subst (asm) startServices.simps) auto
  show ?case
  proof (cases cc)
    case True
    then have "startServices tx start byTag ss started' = (Some e, order)"
      using 1(2) round r ne by (subst (asm) startServices.simps) simp
    then show ?thesis using 1(1) [OF round [symmetric] r refl ne True] w 1(4) by simp
  next
    case False
    from w ne have "\<exists>s\<in>set ss. sv_Tag s \<notin> set started'"
      using wellTagged_all [OF w] by (auto simp: wellTagged_def)
    then obtain current where f: "find (\<lambda>s. sv_Tag s \<notin> set started') ss = Some current"
      by (cases "find (\<lambda>s. sv_Tag s \<notin> set started') ss") (auto simp: find_None_iff)
    then have "e = lint tx byTag started' [sv_Tag current] current \<and> order = started'"
      using 1(2) round r ne False by (subst (asm) startServices.simps) auto
    moreover have "current \<in> set ss" "sv_Tag current \<notin> set started'" using f by (auto simp: find_Some_iff)
    ultimately show ?thesis using startRound_stuck [of tx start ss started started'] round r False by auto
  qed
qed

text \<open>What the two messages say.\<close>

definition dependsOn :: "Service list \<Rightarrow> string \<Rightarrow> string \<Rightarrow> bool" where
  "dependsOn ss t d = (\<exists>s\<in>set ss. sv_Tag s = t \<and> d \<in> set (sv_Dependencies s))"

fun chain :: "(string \<Rightarrow> string \<Rightarrow> bool) \<Rightarrow> string list \<Rightarrow> bool" where
  "chain R (x # y # xs) = (R x y \<and> chain R (y # xs))"
| "chain R xs = True"

lemma chain_snoc: "chain R (xs @ [x, y]) \<longleftrightarrow> chain R (xs @ [x]) \<and> R x y"
  by (induction xs rule: chain.induct [of "\<lambda>_ xs. chain R (xs @ [x, y]) \<longleftrightarrow> chain R (xs @ [x]) \<and> R x y", case_names A B C])
    (auto simp: neq_Nil_conv)

definition circularError :: "StartTexts \<Rightarrow> string list \<Rightarrow> string \<Rightarrow> Error" where
  "circularError tx tree t = E_New [AStr (tx_Circular tx), AStr (stringsJoin tree '' -> ''), AStr '' -> '', AStr t]"

definition missingError :: "StartTexts \<Rightarrow> string \<Rightarrow> string \<Rightarrow> Error" where
  "missingError tx t d =
     E_New [AStr ''dependency['', AStr d, AStr ''] not found for '', AStr (tx_Kind tx), AStr ''['', AStr t, AStr '']'']"

lemma lint_genuine:
  assumes "\<forall>t s. fmlookup byTag t = Some s \<longrightarrow> s \<in> set ss \<and> sv_Tag s = t"
    and "\<forall>s\<in>set ss. sv_Tag s \<notin> set started \<longrightarrow> (\<exists>d\<in>set (sv_Dependencies s). d \<notin> set started)"
  shows "current \<in> set ss \<Longrightarrow> sv_Tag current \<notin> set started \<Longrightarrow> oTree \<noteq> [] \<Longrightarrow> last oTree = sv_Tag current \<Longrightarrow>
    chain (dependsOn ss) oTree \<Longrightarrow>
    (\<exists>tree t. lint tx byTag started oTree current = circularError tx tree t \<and>
       t \<in> set tree \<and> chain (dependsOn ss) (tree @ [t])) \<or>
    (\<exists>t d. lint tx byTag started oTree current = missingError tx t d \<and> dependsOn ss t d \<and> fmlookup byTag d = None)"
  using assms
proof (induction tx byTag started oTree current rule: lint.induct)
  case (1 tx byTag started oTree current)
  define p where "p = findOrEmpty (\<lambda>d. d \<notin> set started) (sv_Dependencies current)"
  have p: "p \<in> set (sv_Dependencies current)" "p \<notin> set started"
    using find_unstarted [OF p_def [symmetric]] 1(2,3,8) by auto
  then have d: "dependsOn ss (sv_Tag current) p" using 1(2) by (auto simp: dependsOn_def)
  have ch: "chain (dependsOn ss) (oTree @ [p])"
    using 1(4,5,6) d chain_snoc [of "dependsOn ss" "butlast oTree" "last oTree" p]
    by (simp add: append_butlast_last_id [symmetric] del: append_butlast_last_id) (metis append_butlast_last_id append_assoc append_Cons append_Nil)
  show ?case
  proof (cases "p \<in> set oTree")
    case True
    then have "lint tx byTag started oTree current = circularError tx oTree p"
      by (subst lint.simps) (simp add: Let_def circularError_def p_def)
    then show ?thesis using True ch by blast
  next
    case False
    show ?thesis
    proof (cases "fmlookup byTag p")
      case None
      then have "lint tx byTag started oTree current = missingError tx (sv_Tag current) p"
        using False by (subst lint.simps) (simp add: Let_def missingError_def p_def)
      then show ?thesis using d None by blast
    next
      case (Some s)
      have "lint tx byTag started oTree current = lint tx byTag started (oTree @ [p]) s"
        using False Some by (subst lint.simps) (simp add: Let_def p_def)
      moreover have "s \<in> set ss" "sv_Tag s = p" using 1(7) Some by auto
      ultimately show ?thesis using 1(1) [OF p_def False Some] p(2) ch 1(7,8) by simp
    qed
  qed
qed


section \<open>Properties\<close>

text \<open>
  C16: a start that reports no error has started every service once, each one after all the services
  it depends on; when it reports an error, the services started up to then were started in such an
  order as well. It holds of the outbounds and of the DNS servers.
\<close>

theorem services_start_after_dependencies:
  assumes "distinct (map sv_Tag services)"
    and "startOutbounds start byTag services = (err, order) \<or> startTransports start byTag services = (err, order)"
  shows "inOrder (set services) order \<and> distinct order \<and> (err = None \<longrightarrow> set order = set (map sv_Tag services))"
  using assms startServices_ok [of _ start byTag services "[]" err order]
  by (auto simp: startOutbounds_def startTransports_def wellTagged_def)

text \<open>
  C17: the start always ends, and if the dependencies are among the services and not circular (there is
  a rank that decreases along them) and no service fails, then it succeeds: every service is
  started.
\<close>

theorem acyclic_services_are_started:
  assumes "distinct (map sv_Tag services)" and "\<forall>s\<in>set services. start s = None"
    and "\<forall>s\<in>set services. \<forall>d\<in>set (sv_Dependencies s). d \<in> set (map sv_Tag services) \<and> rank d < (rank (sv_Tag s) :: nat)"
  shows "fst (startOutbounds start byTag services) = None \<and> fst (startTransports start byTag services) = None"
proof -
  have "fst (startServices tx start byTag services []) = None" for tx
  proof (rule ccontr)
    assume "fst (startServices tx start byTag services []) \<noteq> None"
    then obtain e order where s: "startServices tx start byTag services [] = (Some e, order)" by (metis option.exhaust prod.collapse)
    have w: "wellTagged services []" using assms(1) by (simp add: wellTagged_def)
    note stuck = startServices_stuck [OF s w assms(2)]
    have "\<forall>s\<in>set services. rank (sv_Tag s) = n \<longrightarrow> sv_Tag s \<in> set order" for n
    proof (induction n rule: less_induct)
      case (less n)
      show ?case
      proof (intro ballI impI, rule ccontr)
        fix s assume s: "s \<in> set services" "rank (sv_Tag s) = n" "sv_Tag s \<notin> set order"
        then obtain d where d: "d \<in> set (sv_Dependencies s)" "d \<notin> set order" using stuck by blast
        then obtain u where "u \<in> set services" "sv_Tag u = d" "rank d < n" using assms(3) s by fastforce
        then show False using less d by blast
      qed
    qed
    then show False using stuck by blast
  qed
  then show ?thesis by (simp add: startOutbounds_def startTransports_def)
qed

text \<open>
  When the start of services that do not fail themselves reports an error, the error is true: it
  shows a chain of dependencies that runs into itself, or a dependency of a service that is not
  registered.
\<close>

theorem start_errors_are_genuine:
  assumes "distinct (map sv_Tag services)" and "\<forall>s\<in>set services. start s = None"
    and "\<forall>t s. fmlookup byTag t = Some s \<longrightarrow> s \<in> set services \<and> sv_Tag s = t"
    and "startTransports start byTag services = (Some err, order)"
  shows "(\<exists>tree t. err = circularError transportTexts tree t \<and> t \<in> set tree \<and> chain (dependsOn services) (tree @ [t])) \<or>
    (\<exists>t d. err = missingError transportTexts t d \<and> dependsOn services t d \<and> fmlookup byTag d = None)"
proof -
  have "wellTagged services []" using assms(1) by (simp add: wellTagged_def)
  from startServices_stuck [OF assms(4) [unfolded startTransports_def] this assms(2)] obtain current where
    st: "\<forall>s\<in>set services. sv_Tag s \<notin> set order \<longrightarrow> (\<exists>d\<in>set (sv_Dependencies s). d \<notin> set order)"
    and cu: "current \<in> set services" "sv_Tag current \<notin> set order" "err = lint transportTexts byTag order [sv_Tag current] current"
    by blast
  show ?thesis using lint_genuine [OF assms(3) st cu(1,2), of "[sv_Tag current]" transportTexts] cu(3) by simp
qed

text \<open>The witnesses: a server that resolves its own address through another one, and two that need each other.\<close>

definition server :: "string \<Rightarrow> string list \<Rightarrow> Service" where
  "server tag deps = \<lparr>sv_Id = length tag, sv_Type = ''udp'', sv_Tag = tag, sv_Dependencies = deps\<rparr>"

theorem services_start_after_dependencies_witness:
  "\<exists>order. startTransports (\<lambda>_. None) fmempty [server ''a'' [''bb''], server ''bb'' []] = (None, order) \<and>
     inOrder {server ''a'' [''bb''], server ''bb'' []} order"
proof -
  let ?ss = "[server ''a'' [''bb''], server ''bb'' []]"
  have "startTransports (\<lambda>_. None) fmempty ?ss = (None, [''bb'', ''a''])"
    by (simp add: startTransports_def startServices.simps server_def)
  with services_start_after_dependencies [of ?ss "\<lambda>_. None" fmempty None] show ?thesis by (auto simp: server_def)
qed

theorem acyclic_services_are_started_witness:
  "fst (startOutbounds (\<lambda>_. None) fmempty [server ''a'' [''bb''], server ''bb'' []]) = None"
  using acyclic_services_are_started [of "[server ''a'' [''bb''], server ''bb'' []]" "\<lambda>_. None"
      "\<lambda>t. if t = ''a'' then 1 else 0" fmempty]
  by (simp add: server_def)

theorem start_errors_are_genuine_witness:
  "\<exists>err order. startTransports (\<lambda>_. None) (fmap_of_list [(''a'', server ''a'' [''bb'']), (''bb'', server ''bb'' [''a''])])
      [server ''a'' [''bb''], server ''bb'' [''a'']] = (Some err, order) \<and>
    ((\<exists>tree t. err = circularError transportTexts tree t \<and> t \<in> set tree) \<or> (\<exists>t d. err = missingError transportTexts t d))"
proof -
  let ?ss = "[server ''a'' [''bb''], server ''bb'' [''a'']]"
  let ?m = "fmap_of_list [(''a'', server ''a'' [''bb'']), (''bb'', server ''bb'' [''a''])]"
  obtain err where e: "startTransports (\<lambda>_. None) ?m ?ss = (Some err, [])"
    by (simp add: startTransports_def startServices.simps server_def)
  have m: "\<forall>t s. fmlookup ?m t = Some s \<longrightarrow> s \<in> set ?ss \<and> sv_Tag s = t"
    by (auto simp: fmlookup_of_list server_def split: if_splits)
  show ?thesis using start_errors_are_genuine [OF _ _ m e] e by (auto simp: server_def)
qed

end
