(* ===== verification/Managers.thy ===== *)
theory Managers
  imports Dependency_Start
begin

text \<open>
  The registries of outbounds (\<open>adapter/outbound/manager.go\<close>) and of DNS servers
  (\<open>dns/transport_manager.go\<close>): creating, replacing and removing services by tag, the default
  service and the record of who depends on whom.

  The registries of the types, the \<open>Start\<close> and \<open>Close\<close> methods of the services and the endpoints
  are the record \<open>ManagerEnv\<close>. An operation returns its error, the new state and the calls it made
  of \<open>Start\<close> and \<open>Close\<close>. The tables by tag are finite maps.
\<close>

section \<open>State\<close>

record ManagerEnv =
  me_Create :: "string \<Rightarrow> string \<Rightarrow> Service result"
  me_Start :: "Service \<Rightarrow> nat \<Rightarrow> Error option"
  me_Close :: "Service \<Rightarrow> Error option"
  me_Endpoint :: "string \<Rightarrow> Service option"
  me_Endpoints :: "Service list"
  me_Fallback :: "Service result"

datatype Call = StartCall Service nat | CloseCall Service

record OutboundManager =
  om_defaultTag :: string
  om_started :: bool
  om_stage :: nat
  om_outbounds :: "Service list"
  om_outboundByTag :: "(string, Service) fmap"
  om_dependByTag :: "(string, string list) fmap"
  om_defaultOutbound :: "Service option"

definition NewManager :: "string \<Rightarrow> OutboundManager" where
  "NewManager defaultTag =
     \<lparr>om_defaultTag = defaultTag, om_started = False, om_stage = 0, om_outbounds = [], om_outboundByTag = fmempty,
      om_dependByTag = fmempty, om_defaultOutbound = None\<rparr>"

text \<open>The stages of \<open>ListStartStages\<close> by their number, and their names.\<close>

fun stageName :: "nat \<Rightarrow> string" where
  "stageName n = (if n = 0 then ''initialize'' else if n = 1 then ''start'' else if n = 2 then ''post-start'' else ''finish-start'')"

fun startStages :: "ManagerEnv \<Rightarrow> (nat \<Rightarrow> Arg list) \<Rightarrow> Service \<Rightarrow> nat list \<Rightarrow> Error option \<times> Call list" where
  "startStages env name s [] = (None, [])"
| "startStages env name s (stage # stages) =
     (case me_Start env s stage of
        Some err \<Rightarrow> (Some (E_Cause err (name stage)), [StartCall s stage])
      | None \<Rightarrow> (let (err, calls) = startStages env name s stages in (err, StartCall s stage # calls)))"

fun startAll :: "ManagerEnv \<Rightarrow> (Service \<Rightarrow> Arg list) \<Rightarrow> nat \<Rightarrow> Service list \<Rightarrow> Error option \<times> Call list" where
  "startAll env name stage [] = (None, [])"
| "startAll env name stage (s # ss) =
     (case me_Start env s stage of
        Some err \<Rightarrow> (Some (E_Cause err (name s)), [StartCall s stage])
      | None \<Rightarrow> (let (err, calls) = startAll env name stage ss in (err, StartCall s stage # calls)))"

text \<open>\<open>common.Index\<close> by identity, and the removal by index; an index of -1 panics.\<close>

fun serviceIndex :: "Service \<Rightarrow> Service list \<Rightarrow> nat option" where
  "serviceIndex s [] = None"
| "serviceIndex s (x # xs) = (if x = s then Some 0 else map_option Suc (serviceIndex s xs))"

definition without :: "Service \<Rightarrow> Service list \<Rightarrow> Service list result" where
  "without s xs =
     (case serviceIndex s xs of
        None \<Rightarrow> Inl (Panic [AStr ''invalid inbound index''])
      | Some i \<Rightarrow> Inr (take i xs @ drop (Suc i) xs))"

definition dependBy :: "(string, string list) fmap \<Rightarrow> string \<Rightarrow> string list" where
  "dependBy d tag = (case fmlookup d tag of None \<Rightarrow> [] | Some ts \<Rightarrow> ts)"

fun addDependencies :: "string \<Rightarrow> string list \<Rightarrow> (string, string list) fmap \<Rightarrow> (string, string list) fmap" where
  "addDependencies tag [] d = d"
| "addDependencies tag (dependency # ds) d = addDependencies tag ds (fmupd dependency (dependBy d dependency @ [tag]) d)"

fun dropDependencies :: "string \<Rightarrow> string list \<Rightarrow> (string, string list) fmap \<Rightarrow> (string, string list) fmap" where
  "dropDependencies tag [] d = d"
| "dropDependencies tag (dependency # ds) d =
     dropDependencies tag ds
       (if length (dependBy d dependency) = 1 then fmdrop dependency d
        else fmupd dependency (filter (\<lambda>t. t \<noteq> tag) (dependBy d dependency)) d)"

section \<open>Outbounds\<close>

definition outboundName :: "Service \<Rightarrow> string" where
  "outboundName s = ''outbound/'' @ sv_Type s @ ''['' @ sv_Tag s @ '']''"

definition Manager_Start ::
  "ManagerEnv \<Rightarrow> nat \<Rightarrow> OutboundManager \<Rightarrow> Error option \<times> OutboundManager \<times> Call list" where
  "Manager_Start env stage m =
     (if om_started m \<and> om_stage m \<ge> stage then (Some (Panic [AStr ''already started'']), m, [])
      else let m1 = m\<lparr>om_started := True, om_stage := stage\<rparr>
           in if stage = 1
              then (case (if om_defaultTag m1 \<noteq> '''' \<and> om_defaultOutbound m1 = None
                          then (case me_Endpoint env (om_defaultTag m1) of
                                  None \<Rightarrow> Inl (E_New [AStr ''default outbound not found: '', AStr (om_defaultTag m1)])
                                | Some e \<Rightarrow> Inr (m1\<lparr>om_defaultOutbound := Some e\<rparr>))
                          else Inr m1) of
                      Inl err \<Rightarrow> (Some err, m1, [])
                    | Inr m2 \<Rightarrow>
                        (case (if om_defaultOutbound m2 = None
                               then (case me_Fallback env of
                                       Inl err \<Rightarrow> Inl (E_Cause err [AStr ''create direct outbound for fallback''])
                                     | Inr s \<Rightarrow> Inr (m2\<lparr>om_outbounds := om_outbounds m2 @ [s],
                                                       om_outboundByTag := fmupd (sv_Tag s) s (om_outboundByTag m2),
                                                       om_defaultOutbound := Some s\<rparr>))
                               else Inr m2) of
                           Inl err \<Rightarrow> (Some err, m2, [])
                         | Inr m3 \<Rightarrow>
                             (let ss = om_outbounds m3 @ me_Endpoints env;
                                  (err, order) = startOutbounds (\<lambda>s. me_Start env s 1) (om_outboundByTag m3) ss
                              in (err, m3, map (\<lambda>t. StartCall (the (find (\<lambda>s. sv_Tag s = t) ss)) 1) order))))
              else let (err, calls) = startAll env (\<lambda>s. [AStr (stageName stage), AStr '' '', AStr (outboundName s)]) stage (om_outbounds m1)
                   in (err, m1, calls))"

fun closeAll :: "ManagerEnv \<Rightarrow> Service list \<Rightarrow> Call list" where
  "closeAll env ss = map CloseCall ss"

text \<open>\<open>Close\<close> collects the errors of the outbounds and returns nil.\<close>

definition Manager_Close :: "ManagerEnv \<Rightarrow> OutboundManager \<Rightarrow> Error option \<times> OutboundManager \<times> Call list" where
  "Manager_Close env m =
     (if \<not> om_started m then (None, m, [])
      else (None, m\<lparr>om_started := False, om_outbounds := []\<rparr>, closeAll env (om_outbounds m)))"

definition Manager_Outbound :: "ManagerEnv \<Rightarrow> OutboundManager \<Rightarrow> string \<Rightarrow> Service option" where
  "Manager_Outbound env m tag =
     (case fmlookup (om_outboundByTag m) tag of Some s \<Rightarrow> Some s | None \<Rightarrow> me_Endpoint env tag)"

definition Manager_Remove ::
  "ManagerEnv \<Rightarrow> string \<Rightarrow> OutboundManager \<Rightarrow> Error option \<times> OutboundManager \<times> Call list" where
  "Manager_Remove env tag m =
     (case fmlookup (om_outboundByTag m) tag of
        None \<Rightarrow> (Some (E_Lib ''invalid argument''), m, [])
      | Some s \<Rightarrow>
          (let m1 = m\<lparr>om_outboundByTag := fmdrop tag (om_outboundByTag m)\<rparr>
           in case without s (om_outbounds m1) of
                Inl err \<Rightarrow> (Some err, m1, [])
              | Inr outbounds \<Rightarrow>
                  (let m2 = m1\<lparr>om_outbounds := outbounds\<rparr>;
                       m3 = (if om_defaultOutbound m2 = Some s
                             then m2\<lparr>om_defaultOutbound := (case outbounds of [] \<Rightarrow> None | o1 # _ \<Rightarrow> Some o1)\<rparr> else m2);
                       dependents = dependBy (om_dependByTag m3) tag
                   in if length dependents > 0
                      then (Some (E_New [AStr ''outbound['', AStr tag, AStr ''] is depended by '', AStr (stringsJoin dependents '', '')]), m3, [])
                      else let m4 = m3\<lparr>om_dependByTag := dropDependencies tag (sv_Dependencies s) (om_dependByTag m3)\<rparr>
                           in if om_started m4 then (me_Close env s, m4, [CloseCall s]) else (None, m4, []))))"

definition Manager_Create ::
  "ManagerEnv \<Rightarrow> string \<Rightarrow> string \<Rightarrow> OutboundManager \<Rightarrow> Error option \<times> OutboundManager \<times> Call list" where
  "Manager_Create env tag outboundType m =
     (if tag = '''' then (Some (E_Lib ''invalid argument''), m, [])
      else case me_Create env tag outboundType of
             Inl err \<Rightarrow> (Some err, m, [])
           | Inr s \<Rightarrow>
               (case (if om_started m
                      then startStages env (\<lambda>stage. [AStr (stageName stage), AStr '' '', AStr (outboundName s)]) s [0, 1, 2, 3]
                      else (None, [])) of
                  (Some err, calls) \<Rightarrow> (Some err, m, calls)
                | (None, calls) \<Rightarrow>
                    (case (case fmlookup (om_outboundByTag m) tag of
                             None \<Rightarrow> (Inr (om_outbounds m), [])
                           | Some old \<Rightarrow>
                               if om_started m
                               then (case me_Close env old of
                                       Some err \<Rightarrow> (Inl (E_Cause err [AStr ''close outbound/'', AStr (sv_Type old), AStr ''['', AStr (sv_Tag old), AStr '']'']), [CloseCall old])
                                     | None \<Rightarrow> (without old (om_outbounds m), [CloseCall old]))
                               else (without old (om_outbounds m), [])) of
                       (Inl err, closed) \<Rightarrow> (Some err, m, calls @ closed)
                     | (Inr outbounds, closed) \<Rightarrow>
                         (let m1 = m\<lparr>om_outbounds := outbounds @ [s], om_outboundByTag := fmupd tag s (om_outboundByTag m),
                                     om_dependByTag := addDependencies tag (sv_Dependencies s) (om_dependByTag m)\<rparr>;
                              m2 = (if tag = om_defaultTag m1 \<or> (om_defaultTag m1 = '''' \<and> om_defaultOutbound m1 = None)
                                    then m1\<lparr>om_defaultOutbound := Some s\<rparr> else m1)
                          in (None, m2, calls @ closed)))))"


section \<open>DNS servers\<close>

record TransportManager =
  tm_defaultTag :: string
  tm_started :: bool
  tm_stage :: nat
  tm_transports :: "Service list"
  tm_transportByTag :: "(string, Service) fmap"
  tm_dependByTag :: "(string, string list) fmap"
  tm_defaultTransport :: "Service option"
  tm_fakeIPTransport :: "Service option"

definition NewTransportManager :: "string \<Rightarrow> TransportManager" where
  "NewTransportManager defaultTag =
     \<lparr>tm_defaultTag = defaultTag, tm_started = False, tm_stage = 0, tm_transports = [], tm_transportByTag = fmempty,
      tm_dependByTag = fmempty, tm_defaultTransport = None, tm_fakeIPTransport = None\<rparr>"

definition transportName :: "Arg list \<Rightarrow> Service \<Rightarrow> Arg list" where
  "transportName prefix s = prefix @ [AStr (sv_Type s), AStr ''['', AStr (sv_Tag s), AStr '']'']"

definition stageText :: "nat \<Rightarrow> Arg list" where
  "stageText stage = [AStr (stageName stage), AStr '' dns/'']"

definition TransportManager_Start ::
  "ManagerEnv \<Rightarrow> nat \<Rightarrow> TransportManager \<Rightarrow> Error option \<times> TransportManager \<times> Call list" where
  "TransportManager_Start env stage m =
     (if tm_started m \<and> tm_stage m \<ge> stage then (Some (Panic [AStr ''already started'']), m, [])
      else let m1 = m\<lparr>tm_started := True, tm_stage := stage\<rparr>
           in if stage = 1
              then if tm_defaultTag m1 \<noteq> '''' \<and> tm_defaultTransport m1 = None
                   then (Some (E_New [AStr ''default DNS server not found: '', AStr (tm_defaultTag m1)]), m1, [])
                   else (case (if tm_defaultTransport m1 = None
                               then (case me_Fallback env of
                                       Inl err \<Rightarrow> Inl (E_Cause err [AStr ''default DNS server fallback''])
                                     | Inr s \<Rightarrow> Inr (m1\<lparr>tm_transports := tm_transports m1 @ [s],
                                                       tm_transportByTag := fmupd (sv_Tag s) s (tm_transportByTag m1),
                                                       tm_defaultTransport := Some s\<rparr>))
                               else Inr m1) of
                           Inl err \<Rightarrow> (Some err, m1, [])
                         | Inr m2 \<Rightarrow>
                             (let (err, order) = startTransports (\<lambda>s. me_Start env s 1) (tm_transportByTag m2) (tm_transports m2)
                              in (err, m2, map (\<lambda>t. StartCall (the (find (\<lambda>s. sv_Tag s = t) (tm_transports m2))) 1) order)))
              else let (err, calls) = startAll env (transportName (stageText stage)) stage (tm_transports m1)
                   in (err, m1, calls))"

definition TransportManager_Close :: "ManagerEnv \<Rightarrow> TransportManager \<Rightarrow> Error option \<times> TransportManager \<times> Call list" where
  "TransportManager_Close env m =
     (if \<not> tm_started m then (None, m, [])
      else (None, m\<lparr>tm_started := False, tm_transports := []\<rparr>, closeAll env (tm_transports m)))"

definition TransportManager_Transport :: "TransportManager \<Rightarrow> string \<Rightarrow> Service option" where
  "TransportManager_Transport m tag = fmlookup (tm_transportByTag m) tag"

text \<open>
  \<open>Remove\<close>: a new default must be of the type fakeip, or it is refused with the text that it cannot
  be. The error of \<open>Close\<close> is dropped.
\<close>

definition TransportManager_Remove ::
  "ManagerEnv \<Rightarrow> string \<Rightarrow> TransportManager \<Rightarrow> Error option \<times> TransportManager \<times> Call list" where
  "TransportManager_Remove env tag m =
     (case fmlookup (tm_transportByTag m) tag of
        None \<Rightarrow> (Some (E_Lib ''invalid argument''), m, [])
      | Some s \<Rightarrow>
          (let m1 = m\<lparr>tm_transportByTag := fmdrop tag (tm_transportByTag m)\<rparr>
           in case without s (tm_transports m1) of
                Inl err \<Rightarrow> (Some err, m1, [])
              | Inr transports \<Rightarrow>
                  (let m2 = m1\<lparr>tm_transports := transports\<rparr>
                   in case (if tm_defaultTransport m2 = Some s
                            then (case transports of
                                    [] \<Rightarrow> Inr (m2\<lparr>tm_defaultTransport := None\<rparr>)
                                  | t1 # _ \<Rightarrow> if sv_Type t1 \<noteq> ''fakeip'' then Inl (E_New [AStr ''default server cannot be fakeip''])
                                             else Inr (m2\<lparr>tm_defaultTransport := Some t1\<rparr>))
                            else Inr m2) of
                        Inl err \<Rightarrow> (Some err, m2, [])
                      | Inr m3 \<Rightarrow>
                          (let dependents = dependBy (tm_dependByTag m3) tag
                           in if length dependents > 0
                              then (Some (E_New [AStr ''server['', AStr tag, AStr ''] is depended by '', AStr (stringsJoin dependents '', '')]), m3, [])
                              else let m4 = m3\<lparr>tm_dependByTag := dropDependencies tag (sv_Dependencies s) (tm_dependByTag m3)\<rparr>
                                   in (None, m4, if tm_started m4 then [CloseCall s] else [])))))"

definition TransportManager_Create ::
  "ManagerEnv \<Rightarrow> string \<Rightarrow> string \<Rightarrow> TransportManager \<Rightarrow> Error option \<times> TransportManager \<times> Call list" where
  "TransportManager_Create env tag transportType m =
     (if tag = '''' then (Some (E_Lib ''invalid argument''), m, [])
      else case me_Create env tag transportType of
             Inl err \<Rightarrow> (Some err, m, [])
           | Inr s \<Rightarrow>
               (case (if tm_started m then startStages env (\<lambda>stage. transportName (stageText stage) s) s [0, 1, 2, 3]
                      else (None, [])) of
                  (Some err, calls) \<Rightarrow> (Some err, m, calls)
                | (None, calls) \<Rightarrow>
                    (case (case fmlookup (tm_transportByTag m) tag of
                             None \<Rightarrow> (Inr (tm_transports m), [])
                           | Some old \<Rightarrow>
                               if tm_started m
                               then (case me_Close env old of
                                       Some err \<Rightarrow> (Inl (E_Cause err (transportName [AStr ''close dns/''] old)), [CloseCall old])
                                     | None \<Rightarrow> (without old (tm_transports m), [CloseCall old]))
                               else (without old (tm_transports m), [])) of
                       (Inl err, closed) \<Rightarrow> (Some err, m, calls @ closed)
                     | (Inr transports, closed) \<Rightarrow>
                         (let m1 = m\<lparr>tm_transports := transports @ [s], tm_transportByTag := fmupd tag s (tm_transportByTag m),
                                     tm_dependByTag := addDependencies tag (sv_Dependencies s) (tm_dependByTag m)\<rparr>;
                              isDefault = (tag = tm_defaultTag m1 \<or> (tm_defaultTag m1 = '''' \<and> tm_defaultTransport m1 = None))
                          in if isDefault \<and> sv_Type s = ''fakeip''
                             then (Some (E_New [AStr ''default server cannot be fakeip'']), m1, calls @ closed)
                             else let m2 = (if isDefault then m1\<lparr>tm_defaultTransport := Some s\<rparr> else m1)
                                  in if sv_Type s = ''fakeip''
                                     then if tm_fakeIPTransport m2 \<noteq> None
                                          then (Some (E_New [AStr ''multiple fakeip server are not supported'']), m2, calls @ closed)
                                          else (None, m2\<lparr>tm_fakeIPTransport := Some s\<rparr>, calls @ closed)
                                     else (None, m2, calls @ closed)))))"

section \<open>The registry invariant\<close>

text \<open>The list and the table by tag hold the same services, one for each tag.\<close>

definition registryOk :: "Service list \<Rightarrow> (string, Service) fmap \<Rightarrow> bool" where
  "registryOk ss byTag =
     (distinct (map sv_Tag ss) \<and> (\<forall>t s. fmlookup byTag t = Some s \<longleftrightarrow> s \<in> set ss \<and> sv_Tag s = t))"

lemma serviceIndex_split: "s \<in> set xs \<Longrightarrow> \<exists>i. serviceIndex s xs = Some i \<and> i < length xs \<and> xs ! i = s \<and> s \<notin> set (take i xs)"
proof (induction xs)
  case (Cons x xs)
  show ?case
  proof (cases "x = s")
    case False
    then obtain i where "serviceIndex s xs = Some i" "i < length xs" "xs ! i = s" "s \<notin> set (take i xs)" using Cons by auto
    then show ?thesis using False by (intro exI [of _ "Suc i"]) auto
  qed auto
qed simp

lemma without_ok:
  assumes "registryOk ss byTag" and "fmlookup byTag tag = Some s"
  shows "\<exists>ss'. without s ss = Inr ss' \<and> distinct (map sv_Tag ss') \<and> set ss' = set ss - {s} \<and>
    (\<forall>u\<in>set ss'. sv_Tag u \<noteq> tag)"
proof -
  have s: "s \<in> set ss" "sv_Tag s = tag" "distinct (map sv_Tag ss)" using assms by (auto simp: registryOk_def)
  then obtain i where i: "serviceIndex s ss = Some i" "i < length ss" "ss ! i = s" using serviceIndex_split by blast
  then have "take i ss @ s # drop (Suc i) ss = ss" using id_take_nth_drop [of i ss] by simp
  then have d: "distinct (map sv_Tag (take i ss @ s # drop (Suc i) ss))" "set ss = set (take i ss @ s # drop (Suc i) ss)"
    using s(3) by simp_all
  have "\<forall>u\<in>set (take i ss) \<union> set (drop (Suc i) ss). sv_Tag u \<noteq> sv_Tag s" using d(1) by auto (metis imageI)+
  then show ?thesis using d i s(2) by (auto simp: without_def)
qed

lemma registry_add:
  assumes "registryOk ss byTag" and "fmlookup byTag (sv_Tag s) = None"
  shows "registryOk (ss @ [s]) (fmupd (sv_Tag s) s byTag)"
proof -
  have u: "sv_Tag u \<noteq> sv_Tag s" if "u \<in> set ss" for u
    using assms that unfolding registryOk_def by (metis option.distinct(1))
  then have "sv_Tag s \<notin> sv_Tag ` set ss" by (metis imageE)
  then show ?thesis using assms u by (auto simp: registryOk_def)
qed

lemma registry_replace:
  assumes "registryOk ss byTag" and "fmlookup byTag (sv_Tag s) = Some old" and "without old ss = Inr ss'"
  shows "registryOk (ss' @ [s]) (fmupd (sv_Tag s) s byTag)"
  using without_ok [OF assms(1,2)] assms by (auto simp: registryOk_def)

lemma registry_drop:
  assumes "registryOk ss byTag" and "fmlookup byTag tag = Some s" and "without s ss = Inr ss'"
  shows "registryOk ss' (fmdrop tag byTag)"
  using without_ok [OF assms(1,2)] assms by (auto simp: registryOk_def)


definition createsTagged :: "ManagerEnv \<Rightarrow> bool" where
  "createsTagged env = (\<forall>tag ty s. me_Create env tag ty = Inr s \<longrightarrow> sv_Tag s = tag)"

text \<open>The errors of the services are no panics.\<close>

definition envSafe :: "ManagerEnv \<Rightarrow> bool" where
  "envSafe env = (\<forall>p. (\<forall>tag ty. me_Create env tag ty \<noteq> Inl (Panic p)) \<and> (\<forall>s. me_Close env s \<noteq> Some (Panic p)))"

lemma startStages_panic: "fst (startStages env name s stages) \<noteq> Some (Panic p)"
  by (induction stages) (auto split: option.splits prod.splits)

lemma create_outbound_ok:
  assumes "registryOk (om_outbounds m) (om_outboundByTag m)" and "createsTagged env" and "envSafe env"
    and "Manager_Create env tag ty m = (err, m', calls)"
  shows "registryOk (om_outbounds m') (om_outboundByTag m') \<and> err \<noteq> Some (Panic p)"
proof (cases "me_Create env tag ty")
  case (Inl e)
  then show ?thesis using assms by (auto simp: Manager_Create_def envSafe_def split: if_splits)
next
  case (Inr s)
  have t: "sv_Tag s = tag" using Inr assms(2) by (auto simp: createsTagged_def)
  obtain e cs where st: "(if om_started m
      then startStages env (\<lambda>stage. [AStr (stageName stage), AStr '' '', AStr (outboundName s)]) s [0, 1, 2, 3]
      else (None, [])) = (e, cs)" and e: "e \<noteq> Some (Panic p)"
    using startStages_panic [of env _ s "[0, 1, 2, 3]" p] by (metis fst_conv option.distinct(1) prod.collapse)
  show ?thesis
  proof (cases "fmlookup (om_outboundByTag m) tag")
    case None
    then show ?thesis
      using assms(1,4) Inr st e registry_add [OF assms(1), of s] t
      by (auto simp: Manager_Create_def Let_def split: if_splits option.splits)
  next
    case (Some old)
    then obtain ss where w: "without old (om_outbounds m) = Inr ss" using without_ok [OF assms(1)] by blast
    then show ?thesis
      using assms(1,4) Inr st e registry_replace [OF assms(1), of s old ss] t Some
      by (auto simp: Manager_Create_def Let_def split: if_splits option.splits)
  qed
qed

lemma remove_outbound_ok:
  assumes "registryOk (om_outbounds m) (om_outboundByTag m)" and "envSafe env"
    and "Manager_Remove env tag m = (err, m', calls)"
  shows "registryOk (om_outbounds m') (om_outboundByTag m') \<and> err \<noteq> Some (Panic p)"
proof (cases "fmlookup (om_outboundByTag m) tag")
  case None
  then show ?thesis using assms by (auto simp: Manager_Remove_def)
next
  case (Some s)
  then obtain ss where w: "without s (om_outbounds m) = Inr ss" using without_ok [OF assms(1)] by blast
  then show ?thesis using assms registry_drop [OF assms(1) Some w] Some
    by (auto simp: Manager_Remove_def Let_def envSafe_def split: if_splits)
qed


lemma create_transport_ok:
  assumes "registryOk (tm_transports m) (tm_transportByTag m)" and "createsTagged env" and "envSafe env"
    and "TransportManager_Create env tag ty m = (err, m', calls)"
  shows "registryOk (tm_transports m') (tm_transportByTag m') \<and> err \<noteq> Some (Panic p)"
proof (cases "me_Create env tag ty")
  case (Inl e)
  then show ?thesis using assms by (auto simp: TransportManager_Create_def envSafe_def split: if_splits)
next
  case (Inr s)
  have t: "sv_Tag s = tag" using Inr assms(2) by (auto simp: createsTagged_def)
  obtain e cs where st: "(if tm_started m then startStages env (\<lambda>stage. transportName (stageText stage) s) s [0, 1, 2, 3]
      else (None, [])) = (e, cs)" and e: "e \<noteq> Some (Panic p)"
    using startStages_panic [of env _ s "[0, 1, 2, 3]" p] by (metis fst_conv option.distinct(1) prod.collapse)
  show ?thesis
  proof (cases "fmlookup (tm_transportByTag m) tag")
    case None
    then show ?thesis
      using assms(1,4) Inr st e registry_add [OF assms(1), of s] t
      by (auto simp: TransportManager_Create_def Let_def split: if_splits option.splits)
  next
    case (Some old)
    then obtain ss where w: "without old (tm_transports m) = Inr ss" using without_ok [OF assms(1)] by blast
    then show ?thesis
      using assms(1,4) Inr st e registry_replace [OF assms(1), of s old ss] t Some
      by (auto simp: TransportManager_Create_def Let_def split: if_splits option.splits)
  qed
qed

lemma remove_transport_ok:
  assumes "registryOk (tm_transports m) (tm_transportByTag m)"
    and "TransportManager_Remove env tag m = (err, m', calls)"
  shows "registryOk (tm_transports m') (tm_transportByTag m') \<and> err \<noteq> Some (Panic p)"
proof (cases "fmlookup (tm_transportByTag m) tag")
  case None
  then show ?thesis using assms by (auto simp: TransportManager_Remove_def)
next
  case (Some s)
  then obtain ss where w: "without s (tm_transports m) = Inr ss" using without_ok [OF assms(1)] by blast
  then show ?thesis using assms registry_drop [OF assms(1) Some w] Some
    by (auto simp: TransportManager_Remove_def Let_def split: if_splits list.splits)
qed

lemma start_outbound_ok:
  assumes "registryOk (om_outbounds m) (om_outboundByTag m)"
    and "\<And>s. me_Fallback env = Inr s \<Longrightarrow> fmlookup (om_outboundByTag m) (sv_Tag s) = None"
  shows "registryOk (om_outbounds (fst (snd (Manager_Start env stage m)))) (om_outboundByTag (fst (snd (Manager_Start env stage m))))"
  using assms registry_add [OF assms(1)]
  by (auto simp: Manager_Start_def Let_def split_beta split: option.splits sum.splits if_splits)

lemma start_transport_ok:
  assumes "registryOk (tm_transports m) (tm_transportByTag m)"
    and "\<And>s. me_Fallback env = Inr s \<Longrightarrow> fmlookup (tm_transportByTag m) (sv_Tag s) = None"
  shows "registryOk (tm_transports (fst (snd (TransportManager_Start env stage m)))) (tm_transportByTag (fst (snd (TransportManager_Start env stage m))))"
  using assms registry_add [OF assms(1)]
  by (auto simp: TransportManager_Start_def Let_def split_beta split: option.splits sum.splits if_splits)

section \<open>Runs of the managers\<close>

text \<open>
  The operations of a manager before it is closed, in any order and with whatever results of the
  services. The tag of the fallback service must be free when the manager starts.
\<close>

definition fallbackFree :: "ManagerEnv \<Rightarrow> (string, Service) fmap \<Rightarrow> bool" where
  "fallbackFree env byTag = (case me_Fallback env of Inl _ \<Rightarrow> True | Inr s \<Rightarrow> fmlookup byTag (sv_Tag s) = None)"

inductive outboundStep :: "OutboundManager \<Rightarrow> OutboundManager \<Rightarrow> bool" where
  outbound_create: "createsTagged env \<Longrightarrow> envSafe env \<Longrightarrow> outboundStep m (fst (snd (Manager_Create env tag ty m)))"
| outbound_remove: "envSafe env \<Longrightarrow> outboundStep m (fst (snd (Manager_Remove env tag m)))"
| outbound_start: "fallbackFree env (om_outboundByTag m) \<Longrightarrow> outboundStep m (fst (snd (Manager_Start env stage m)))"

inductive transportStep :: "TransportManager \<Rightarrow> TransportManager \<Rightarrow> bool" where
  transport_create: "createsTagged env \<Longrightarrow> envSafe env \<Longrightarrow> transportStep m (fst (snd (TransportManager_Create env tag ty m)))"
| transport_remove: "transportStep m (fst (snd (TransportManager_Remove env tag m)))"
| transport_start: "fallbackFree env (tm_transportByTag m) \<Longrightarrow> transportStep m (fst (snd (TransportManager_Start env stage m)))"

lemma outboundStep_ok:
  "outboundStep m m' \<Longrightarrow> registryOk (om_outbounds m) (om_outboundByTag m) \<Longrightarrow> registryOk (om_outbounds m') (om_outboundByTag m')"
proof (induction rule: outboundStep.induct)
  case (outbound_create env m tag ty)
  then show ?case using create_outbound_ok by (metis prod.collapse)
next
  case (outbound_remove env m tag)
  then show ?case using remove_outbound_ok by (metis prod.collapse)
next
  case (outbound_start env m stage)
  then show ?case by (auto intro!: start_outbound_ok simp: fallbackFree_def)
qed

lemma transportStep_ok:
  "transportStep m m' \<Longrightarrow> registryOk (tm_transports m) (tm_transportByTag m) \<Longrightarrow> registryOk (tm_transports m') (tm_transportByTag m')"
proof (induction rule: transportStep.induct)
  case (transport_create env m tag ty)
  then show ?case using create_transport_ok by (metis prod.collapse)
next
  case (transport_remove m env tag)
  then show ?case using remove_transport_ok by (metis prod.collapse)
next
  case (transport_start env m stage)
  then show ?case by (auto intro!: start_transport_ok simp: fallbackFree_def)
qed

interpretation outbound_registry: invariant_system outboundStep "NewManager defaultTag"
    "\<lambda>m. registryOk (om_outbounds m) (om_outboundByTag m)" for defaultTag
proof
  show "registryOk (om_outbounds (NewManager defaultTag)) (om_outboundByTag (NewManager defaultTag))" by (simp add: NewManager_def registryOk_def)
qed (rule outboundStep_ok)

interpretation transport_registry: invariant_system transportStep "NewTransportManager defaultTag"
    "\<lambda>t. registryOk (tm_transports t) (tm_transportByTag t)" for defaultTag
proof
  show "registryOk (tm_transports (NewTransportManager defaultTag)) (tm_transportByTag (NewTransportManager defaultTag))" by (simp add: NewTransportManager_def registryOk_def)
qed (rule transportStep_ok)

section \<open>Properties\<close>

text \<open>
  C18: from the construction of an outbound or DNS server manager until it is closed, in any order of
  creating (or replacing), removing and starting, whether these succeed or fail, the list of services
  and the table by tag agree, with one service for each tag; so the index that creating and removing
  look up is found, and neither of them panics. The services must have the tags they are created with
  and not panic themselves, and the tag of the fallback service must be free when the manager starts.
  (After \<open>Close\<close>, which empties the list and keeps the table, the two no longer agree.)
\<close>

theorem registries_stay_consistent:
  assumes "outboundStep\<^sup>*\<^sup>* (NewManager defaultTag) m" and "transportStep\<^sup>*\<^sup>* (NewTransportManager defaultTag') t"
    and "createsTagged env" and "envSafe env"
  shows "registryOk (om_outbounds m) (om_outboundByTag m) \<and> registryOk (tm_transports t) (tm_transportByTag t) \<and>
    fst (Manager_Create env tag ty m) \<noteq> Some (Panic p) \<and> fst (Manager_Remove env tag m) \<noteq> Some (Panic p) \<and>
    fst (TransportManager_Create env tag ty t) \<noteq> Some (Panic p) \<and> fst (TransportManager_Remove env tag t) \<noteq> Some (Panic p)"
proof (intro conjI)
  show m: "registryOk (om_outbounds m) (om_outboundByTag m)" by (rule outbound_registry.reachable [OF assms(1)])
  show t: "registryOk (tm_transports t) (tm_transportByTag t)" by (rule transport_registry.reachable [OF assms(2)])
  show "fst (Manager_Create env tag ty m) \<noteq> Some (Panic p)" using create_outbound_ok [OF m assms(3,4)] by (metis prod.collapse)
  show "fst (Manager_Remove env tag m) \<noteq> Some (Panic p)" using remove_outbound_ok [OF m assms(4)] by (metis prod.collapse)
  show "fst (TransportManager_Create env tag ty t) \<noteq> Some (Panic p)" using create_transport_ok [OF t assms(3,4)] by (metis prod.collapse)
  show "fst (TransportManager_Remove env tag t) \<noteq> Some (Panic p)" using remove_transport_ok [OF t] by (metis prod.collapse)
qed

text \<open>
  An outbound that other outbounds depend on is refused removal only after it has been removed:
  the operation returns the error that it is depended on, but the tag is no longer found, the
  outbound is no longer listed, and it has not been closed.
\<close>

theorem refused_removal_has_happened:
  assumes "registryOk (om_outbounds m) (om_outboundByTag m)" and "fmlookup (om_outboundByTag m) tag = Some s"
    and "dependBy (om_dependByTag m) tag \<noteq> []"
  shows "\<exists>err m'. Manager_Remove env tag m = (Some err, m', []) \<and> fmlookup (om_outboundByTag m') tag = None \<and>
    s \<notin> set (om_outbounds m')"
  using without_ok [OF assms(1,2)] assms(2,3) by (auto simp: Manager_Remove_def Let_def)

text \<open>
  When the implicit default outbound (the first one, with no default tag configured) is replaced
  by a new outbound of the same tag in a running manager, the default remains the old one, which has
  been closed and is no longer listed.
\<close>

theorem replaced_default_stays_closed:
  assumes "registryOk (om_outbounds m) (om_outboundByTag m)" and "fmlookup (om_outboundByTag m) tag = Some old"
    and "om_started m" and "om_defaultTag m = ''''" and "om_defaultOutbound m = Some old" and "me_Close env old = None"
    and "me_Create env tag ty = Inr new" and "new \<noteq> old"
    and "Manager_Create env tag ty m = (None, m', calls)"
  shows "om_defaultOutbound m' = Some old \<and> CloseCall old \<in> set calls \<and> old \<notin> set (om_outbounds m') \<and>
    fmlookup (om_outboundByTag m') tag = Some new"
proof -
  obtain ss where w: "without old (om_outbounds m) = Inr ss" "set ss = set (om_outbounds m) - {old}" using without_ok [OF assms(1,2)] by blast
  have tag: "tag \<noteq> ''''" using assms(9) by (auto simp: Manager_Create_def)
  obtain e cs where st: "startStages env (\<lambda>stage. [AStr (stageName stage), AStr '' '', AStr (outboundName new)]) new [0, 1, 2, 3] = (e, cs)"
    by (metis prod.collapse)
  have e: "e = None" using assms(9) tag assms(3,7) st by (cases e) (simp_all add: Manager_Create_def del: startStages.simps)
  have "m' = m\<lparr>om_outbounds := ss @ [new], om_outboundByTag := fmupd tag new (om_outboundByTag m),
      om_dependByTag := addDependencies tag (sv_Dependencies new) (om_dependByTag m)\<rparr> \<and> calls = cs @ [CloseCall old]"
    using assms(9) tag assms(2-7) st e w(1) by (auto simp: Manager_Create_def Let_def simp del: startStages.simps)
  then show ?thesis using w(2) assms(5,8) by simp
qed

text \<open>
  After the default DNS server has been removed, the next server takes its place only if it is a
  fakeip server; any other one is refused with the message that the default server cannot be fakeip,
  and the removed server stays the default.
\<close>

theorem removed_default_server_check_is_inverted:
  assumes "registryOk (tm_transports m) (tm_transportByTag m)" and "fmlookup (tm_transportByTag m) tag = Some s"
    and "tm_defaultTransport m = Some s" and "tm_transports m = s # next # rest" and "dependBy (tm_dependByTag m) tag = []"
  shows "(let (err, m', _) = TransportManager_Remove env tag m
     in if sv_Type next = ''fakeip'' then err = None \<and> tm_defaultTransport m' = Some next
        else err = Some (E_New [AStr ''default server cannot be fakeip'']) \<and> tm_defaultTransport m' = Some s)"
  using assms by (auto simp: TransportManager_Remove_def without_def Let_def)

section \<open>Witnesses\<close>

definition sampleManagerEnv :: ManagerEnv where
  "sampleManagerEnv =
     \<lparr>me_Create = \<lambda>tag ty. Inr \<lparr>sv_Id = 7, sv_Type = ty, sv_Tag = tag, sv_Dependencies = []\<rparr>, me_Start = \<lambda>_ _. None,
      me_Close = \<lambda>_. None, me_Endpoint = \<lambda>_. None, me_Endpoints = [], me_Fallback = Inl (E_Lib ''none'')\<rparr>"

definition sampleManager :: OutboundManager where
  "sampleManager =
     \<lparr>om_defaultTag = '''', om_started = True, om_stage = 3, om_outbounds = [server ''a'' [], server ''bb'' [''a'']],
      om_outboundByTag = fmap_of_list [(''a'', server ''a'' []), (''bb'', server ''bb'' [''a''])],
      om_dependByTag = fmap_of_list [(''a'', [''bb''])], om_defaultOutbound = Some (server ''a'' [])\<rparr>"

lemma sampleManager_ok: "registryOk (om_outbounds sampleManager) (om_outboundByTag sampleManager)"
  by (auto simp: registryOk_def sampleManager_def server_def fmlookup_of_list split: if_splits)

lemma sampleManagerEnv_ok: "createsTagged sampleManagerEnv" "envSafe sampleManagerEnv"
  by (simp_all add: createsTagged_def envSafe_def sampleManagerEnv_def)

theorem registries_stay_consistent_witness:
  "fst (Manager_Remove sampleManagerEnv ''a'' (fst (snd (Manager_Create sampleManagerEnv ''a'' ''direct'' (NewManager ''''))))) \<noteq> Some (Panic []) \<and>
   fst (TransportManager_Create sampleManagerEnv ''a'' ''local'' (fst (snd (TransportManager_Create sampleManagerEnv ''a'' ''udp'' (NewTransportManager ''''))))) \<noteq> Some (Panic [])"
proof -
  have m: "outboundStep\<^sup>*\<^sup>* (NewManager '''') (fst (snd (Manager_Create sampleManagerEnv ''a'' ''direct'' (NewManager ''''))))"
    by (rule r_into_rtranclp) (rule outbound_create [OF sampleManagerEnv_ok])
  have t: "transportStep\<^sup>*\<^sup>* (NewTransportManager '''') (fst (snd (TransportManager_Create sampleManagerEnv ''a'' ''udp'' (NewTransportManager ''''))))"
    by (rule r_into_rtranclp) (rule transport_create [OF sampleManagerEnv_ok])
  show ?thesis
    using registries_stay_consistent [OF m t sampleManagerEnv_ok, of "''a''" _ "[]"] by blast
qed

theorem refused_removal_has_happened_witness:
  "\<exists>err m'. Manager_Remove sampleManagerEnv ''a'' sampleManager = (Some err, m', []) \<and> fmlookup (om_outboundByTag m') ''a'' = None"
  using refused_removal_has_happened [OF sampleManager_ok, of "''a''" "server ''a'' []" sampleManagerEnv]
  by (auto simp: sampleManager_def dependBy_def fmlookup_of_list)

theorem replaced_default_stays_closed_witness:
  "\<exists>m' calls. Manager_Create sampleManagerEnv ''a'' ''direct'' sampleManager = (None, m', calls) \<and>
     om_defaultOutbound m' = Some (server ''a'' []) \<and> server ''a'' [] \<notin> set (om_outbounds m')"
proof -
  obtain m' calls where c: "Manager_Create sampleManagerEnv ''a'' ''direct'' sampleManager = (None, m', calls)"
    by (simp add: Manager_Create_def sampleManagerEnv_def sampleManager_def fmlookup_of_list without_def server_def)
  show ?thesis
    using replaced_default_stays_closed [OF sampleManager_ok _ _ _ _ _ _ _ c] c
    by (auto simp: sampleManager_def sampleManagerEnv_def server_def fmlookup_of_list)
qed

definition sampleTransports :: TransportManager where
  "sampleTransports =
     \<lparr>tm_defaultTag = '''', tm_started = True, tm_stage = 3, tm_transports = [server ''a'' [], server ''bb'' []],
      tm_transportByTag = fmap_of_list [(''a'', server ''a'' []), (''bb'', server ''bb'' [])],
      tm_dependByTag = fmempty, tm_defaultTransport = Some (server ''a'' []), tm_fakeIPTransport = None\<rparr>"

theorem removed_default_server_check_is_inverted_witness:
  "fst (TransportManager_Remove sampleManagerEnv ''a'' sampleTransports) = Some (E_New [AStr ''default server cannot be fakeip''])"
proof -
  have ok: "registryOk (tm_transports sampleTransports) (tm_transportByTag sampleTransports)"
    by (auto simp: registryOk_def sampleTransports_def server_def fmlookup_of_list split: if_splits)
  show ?thesis
    using removed_default_server_check_is_inverted [OF ok, of "''a''" "server ''a'' []" "server ''bb'' []" "[]" sampleManagerEnv]
    by (auto simp: sampleTransports_def dependBy_def fmlookup_of_list server_def Let_def split: prod.splits)
qed

end
