(* ===== verification/Fakeip.thy ===== *)
theory Fakeip
  imports Dns_Message
begin

text \<open>
  \<open>dns/transport/fakeip\<close> and \<open>adapter/fakeip.go\<close>: the fake-IP store hands out addresses of a range
  for domains, in cyclic order, and keeps both directions in a storage. The storage is an interface
  with two implementations, the memory storage below and the cache file (\<open>Cache_File\<close>): its methods
  are a record of functions, its contract is the locale \<open>fakeip_storage\<close>.
\<close>

section \<open>The interface\<close>

record FakeIPMetadata =
  fm_Inet4Range :: Prefix
  fm_Inet6Range :: Prefix
  fm_Inet4Current :: Addr
  fm_Inet6Current :: Addr

record 's FakeIPStorage =
  so_FakeIPMetadata :: "'s \<Rightarrow> FakeIPMetadata option \<times> 's"
  so_FakeIPSaveMetadata :: "FakeIPMetadata \<Rightarrow> 's \<Rightarrow> Error option \<times> 's"
  so_FakeIPSaveMetadataAsync :: "FakeIPMetadata \<Rightarrow> 's \<Rightarrow> 's"
  so_FakeIPStore :: "Addr \<Rightarrow> string \<Rightarrow> 's \<Rightarrow> Error option \<times> 's"
  so_FakeIPLoad :: "'s \<Rightarrow> Addr \<Rightarrow> string option"
  so_FakeIPLoadDomain :: "'s \<Rightarrow> string \<Rightarrow> bool \<Rightarrow> Addr option"
  so_FakeIPReset :: "'s \<Rightarrow> Error option \<times> 's"

section \<open>The memory storage\<close>

record MemoryStorage =
  mem_addressCache :: "Addr \<rightharpoonup> string"
  mem_domainCache4 :: "string \<rightharpoonup> Addr"
  mem_domainCache6 :: "string \<rightharpoonup> Addr"

definition NewMemoryStorage :: MemoryStorage where
  "NewMemoryStorage =
     \<lparr>mem_addressCache = Map.empty, mem_domainCache4 = Map.empty, mem_domainCache6 = Map.empty\<rparr>"

definition Memory_FakeIPStore :: "Addr \<Rightarrow> string \<Rightarrow> MemoryStorage \<Rightarrow> Error option \<times> MemoryStorage" where
  "Memory_FakeIPStore address domain s =
     (let s1 = (case mem_addressCache s address of
                  None \<Rightarrow> s
                | Some oldDomain \<Rightarrow>
                    if addrIs4 address
                    then s\<lparr>mem_domainCache4 := (mem_domainCache4 s)(oldDomain := None)\<rparr>
                    else s\<lparr>mem_domainCache6 := (mem_domainCache6 s)(oldDomain := None)\<rparr>);
          s2 = s1\<lparr>mem_addressCache := (mem_addressCache s1)(address \<mapsto> domain)\<rparr>
      in (None,
          if addrIs4 address then s2\<lparr>mem_domainCache4 := (mem_domainCache4 s2)(domain \<mapsto> address)\<rparr>
          else s2\<lparr>mem_domainCache6 := (mem_domainCache6 s2)(domain \<mapsto> address)\<rparr>))"

definition Memory_FakeIPLoad :: "MemoryStorage \<Rightarrow> Addr \<Rightarrow> string option" where
  "Memory_FakeIPLoad s address = mem_addressCache s address"

definition Memory_FakeIPLoadDomain :: "MemoryStorage \<Rightarrow> string \<Rightarrow> bool \<Rightarrow> Addr option" where
  "Memory_FakeIPLoadDomain s domain isIPv6 =
     (if \<not> isIPv6 then mem_domainCache4 s domain else mem_domainCache6 s domain)"

definition Memory_FakeIPReset :: "MemoryStorage \<Rightarrow> Error option \<times> MemoryStorage" where
  "Memory_FakeIPReset s =
     (None, s\<lparr>mem_addressCache := Map.empty, mem_domainCache4 := Map.empty, mem_domainCache6 := Map.empty\<rparr>)"

definition memoryStorage :: "MemoryStorage FakeIPStorage" where
  "memoryStorage =
     \<lparr>so_FakeIPMetadata = (\<lambda>s. (None, s)), so_FakeIPSaveMetadata = (\<lambda>_ s. (None, s)),
      so_FakeIPSaveMetadataAsync = (\<lambda>_ s. s), so_FakeIPStore = Memory_FakeIPStore,
      so_FakeIPLoad = Memory_FakeIPLoad, so_FakeIPLoadDomain = Memory_FakeIPLoadDomain,
      so_FakeIPReset = Memory_FakeIPReset\<rparr>"

section \<open>The store\<close>

text \<open>\<open>storage\<close> is nil until the store is started.\<close>

record 's Store =
  fs_inet4Range :: Prefix
  fs_inet6Range :: Prefix
  fs_inet4Last :: Addr
  fs_inet6Last :: Addr
  fs_storage :: "'s option"
  fs_inet4Current :: Addr
  fs_inet6Current :: Addr

text \<open>
  \<open>broadcastAddress\<close>: the bits after the prefix are set one by one in the sixteen bytes of the
  address, here the bits of one word of 128 (bit \<open>i\<close> of the bytes is bit \<open>127 - i\<close> of the word). An
  IPv4 address occupies the last four bytes.
\<close>

definition addrAs16 :: "Addr \<Rightarrow> 128 word" where
  "addrAs16 addr = (case addr of AddrNone \<Rightarrow> 0 | Addr4 a \<Rightarrow> push_bit 32 0xFFFF OR ucast a | Addr6 a \<Rightarrow> a)"

definition setBit :: "128 word \<Rightarrow> nat \<Rightarrow> 128 word" where
  "setBit raw i = raw OR push_bit (127 - i) 1"

definition broadcastAddress :: "Prefix \<Rightarrow> Addr" where
  "broadcastAddress prefix =
     (let addr = prefixAddr prefix;
          bits = (if addrIs4 addr then prefixBits prefix + 96 else prefixBits prefix);
          raw = foldl setBit (addrAs16 addr) [bits..<128]
      in if addrIs4 addr then Addr4 (ucast raw) else Addr6 raw)"

definition NewStore :: "Prefix \<Rightarrow> Prefix \<Rightarrow> 's Store" where
  "NewStore inet4Range inet6Range =
     \<lparr>fs_inet4Range = inet4Range, fs_inet6Range = inet6Range,
      fs_inet4Last = (if prefixIsValid inet4Range then broadcastAddress inet4Range else AddrNone),
      fs_inet6Last = (if prefixIsValid inet6Range then broadcastAddress inet6Range else AddrNone),
      fs_storage = None, fs_inet4Current = AddrNone, fs_inet6Current = AddrNone\<rparr>"

text \<open>\<open>Start\<close>, for the storage found in the context (the cache file, or a new memory storage).\<close>

definition Store_Start :: "'s FakeIPStorage \<Rightarrow> 's \<Rightarrow> 's Store \<Rightarrow> 's Store" where
  "Store_Start ops storage s =
     (case so_FakeIPMetadata ops storage of
        (metadata, storage1) \<Rightarrow>
          (case metadata of
             Some md \<Rightarrow>
               if fm_Inet4Range md = fs_inet4Range s \<and> fm_Inet6Range md = fs_inet6Range s
               then s\<lparr>fs_inet4Current := fm_Inet4Current md, fs_inet6Current := fm_Inet6Current md,
                      fs_storage := Some storage1\<rparr>
               else s\<lparr>fs_inet4Current := (if prefixIsValid (fs_inet4Range s) then addrNext (prefixAddr (fs_inet4Range s))
                                          else fs_inet4Current s),
                      fs_inet6Current := (if prefixIsValid (fs_inet6Range s) then addrNext (prefixAddr (fs_inet6Range s))
                                          else fs_inet6Current s),
                      fs_storage := Some (snd (so_FakeIPReset ops storage1))\<rparr>
           | None \<Rightarrow>
               s\<lparr>fs_inet4Current := (if prefixIsValid (fs_inet4Range s) then addrNext (prefixAddr (fs_inet4Range s))
                                     else fs_inet4Current s),
                 fs_inet6Current := (if prefixIsValid (fs_inet6Range s) then addrNext (prefixAddr (fs_inet6Range s))
                                     else fs_inet6Current s),
                 fs_storage := Some (snd (so_FakeIPReset ops storage1))\<rparr>))"

definition Store_Contains :: "'s Store \<Rightarrow> Addr \<Rightarrow> bool" where
  "Store_Contains s address = (prefixContains (fs_inet4Range s) address \<or> prefixContains (fs_inet6Range s) address)"

definition storeMetadata :: "'s Store \<Rightarrow> FakeIPMetadata" where
  "storeMetadata s =
     \<lparr>fm_Inet4Range = fs_inet4Range s, fm_Inet6Range = fs_inet6Range s,
      fm_Inet4Current = fs_inet4Current s, fm_Inet6Current = fs_inet6Current s\<rparr>"

definition Store_Close :: "'s FakeIPStorage \<Rightarrow> 's Store \<Rightarrow> Error option \<times> 's Store" where
  "Store_Close ops s =
     (case fs_storage s of
        None \<Rightarrow> (None, s)
      | Some storage \<Rightarrow>
          (let (err, storage') = so_FakeIPSaveMetadata ops (storeMetadata s) storage
           in (err, s\<lparr>fs_storage := Some storage'\<rparr>)))"

text \<open>The address after the current one; after the end of the range, the third of the range.\<close>

definition nextAddress :: "Addr \<Rightarrow> Addr \<Rightarrow> Prefix \<Rightarrow> Addr" where
  "nextAddress current lastAddr prefix =
     (let next = addrNext current
      in if next = lastAddr \<or> \<not> prefixContains prefix next
         then addrNext (addrNext (prefixAddr prefix)) else next)"

definition nilStorage :: Error where
  "nilStorage = Panic [AStr ''invalid memory address or nil pointer dereference'']"

text \<open>\<open>Create\<close>; the lock is held from the second lookup on, so the two lookups are one.\<close>

definition Store_Create :: "'s FakeIPStorage \<Rightarrow> string \<Rightarrow> bool \<Rightarrow> 's Store \<Rightarrow> Addr result \<times> 's Store" where
  "Store_Create ops domain isIPv6 s =
     (case fs_storage s of
        None \<Rightarrow> (Inl nilStorage, s)
      | Some storage \<Rightarrow>
          (case so_FakeIPLoadDomain ops storage domain isIPv6 of
             Some address \<Rightarrow> (Inr address, s)
           | None \<Rightarrow>
               if \<not> isIPv6 \<and> \<not> addrIsValid (fs_inet4Current s)
               then (Inl (E_New [AStr ''missing IPv4 fakeip address range'']), s)
               else if isIPv6 \<and> \<not> addrIsValid (fs_inet6Current s)
               then (Inl (E_New [AStr ''missing IPv6 fakeip address range'']), s)
               else
                 let address = (if \<not> isIPv6 then nextAddress (fs_inet4Current s) (fs_inet4Last s) (fs_inet4Range s)
                                else nextAddress (fs_inet6Current s) (fs_inet6Last s) (fs_inet6Range s));
                     s1 = (if \<not> isIPv6 then s\<lparr>fs_inet4Current := address\<rparr> else s\<lparr>fs_inet6Current := address\<rparr>);
                     (err, storage1) = so_FakeIPStore ops address domain storage;
                     storage2 = so_FakeIPSaveMetadataAsync ops (storeMetadata s1) storage1
                 in (Inr address, s1\<lparr>fs_storage := Some storage2\<rparr>)))"

definition Store_Lookup :: "'s FakeIPStorage \<Rightarrow> 's Store \<Rightarrow> Addr \<Rightarrow> string option result" where
  "Store_Lookup ops s address =
     (case fs_storage s of None \<Rightarrow> Inl nilStorage | Some storage \<Rightarrow> Inr (so_FakeIPLoad ops storage address))"

definition Store_Reset :: "'s FakeIPStorage \<Rightarrow> 's Store \<Rightarrow> Error option \<times> 's Store" where
  "Store_Reset ops s =
     (case fs_storage s of
        None \<Rightarrow> (Some nilStorage, s)
      | Some storage \<Rightarrow>
          (let (err, storage') = so_FakeIPReset ops storage in (err, s\<lparr>fs_storage := Some storage'\<rparr>)))"

section \<open>The transport\<close>

text \<open>\<open>Transport.Exchange\<close>, with \<open>C.DefaultDNSTTL\<close> of 600 seconds.\<close>

definition Transport_Exchange ::
  "DnsLib \<Rightarrow> 's FakeIPStorage \<Rightarrow> Msg \<Rightarrow> 's Store \<Rightarrow> Msg result \<times> 's Store" where
  "Transport_Exchange dl ops message s =
     (case ms_Question message of
        [] \<Rightarrow> (Inl (Panic [AStr ''index out of range'']), s)
      | question # _ \<Rightarrow>
          if qu_Qtype question \<noteq> TypeA \<and> qu_Qtype question \<noteq> TypeAAAA
          then (Inl (E_New [AStr ''only IP queries are supported by fakeip'']), s)
          else (case Store_Create ops (FqdnToDomain dl (qu_Name question)) (qu_Qtype question = TypeAAAA) s of
                  (Inl err, s') \<Rightarrow> (Inl err, s')
                | (Inr address, s') \<Rightarrow> (Inr (FixedResponse (ms_Id message) question [address] 600), s')))"

section \<open>Ranges as intervals of numbers\<close>

fun addrNat :: "Addr \<Rightarrow> nat" where
  "addrNat AddrNone = 0"
| "addrNat (Addr4 a) = unat a"
| "addrNat (Addr6 a) = unat a"

fun addrWidth :: "Addr \<Rightarrow> nat" where
  "addrWidth AddrNone = 0"
| "addrWidth (Addr4 a) = 32"
| "addrWidth (Addr6 a) = 128"

definition hostBits :: "Prefix \<Rightarrow> nat" where
  "hostBits p = addrWidth (prefixAddr p) - prefixBits p"

text \<open>The number of the last address of a prefix.\<close>

definition lastNat :: "Prefix \<Rightarrow> nat" where
  "lastNat p = (addrNat (prefixAddr p) div 2 ^ hostBits p) * 2 ^ hostBits p + (2 ^ hostBits p - 1)"

lemma addr_eq_iff: "addrWidth a = addrWidth b \<Longrightarrow> a = b \<longleftrightarrow> addrNat a = addrNat b"
  by (cases a; cases b) (auto simp: word_unat_eq_iff)

lemma addrNat_bound: "addrNat a < 2 ^ addrWidth a"
proof (cases a)
  case (Addr4 w)
  then show ?thesis using unsigned_less [of w] by simp
next
  case (Addr6 w)
  then show ?thesis using unsigned_less [of w] by simp
qed simp

lemma drop_bit_xor_zero:
  fixes a p :: "'a::len word"
  shows "drop_bit k (a XOR p) = 0 \<longleftrightarrow> unat a div 2 ^ k = unat p div 2 ^ k"
proof -
  have "drop_bit k (a XOR p) = 0 \<longleftrightarrow> drop_bit k a = drop_bit k p"
    by (auto simp: bit_eq_iff bit_simps)
  also have "\<dots> \<longleftrightarrow> unat (drop_bit k a) = unat (drop_bit k p)"
    by (metis word_unat_eq_iff)
  finally have e: "drop_bit k (a XOR p) = 0 \<longleftrightarrow> unat (drop_bit k a) = unat (drop_bit k p)" .
  have "unat (drop_bit k x) = unat x div 2 ^ k" for x :: "'a word"
    by (metis drop_bit_eq_div unat_drop_bit_eq)
  then show ?thesis unfolding e by simp
qed

lemma prefixContains_nat:
  "prefixIsValid p \<Longrightarrow> prefixContains p a \<longleftrightarrow>
     addrWidth a = addrWidth (prefixAddr p) \<and>
     addrNat a div 2 ^ hostBits p = addrNat (prefixAddr p) div 2 ^ hostBits p"
  by (cases p; cases "prefixAddr p"; cases a) (auto simp: hostBits_def drop_bit_xor_zero simp del: drop_bit_xor)

lemma same_block_iff: "(a::nat) div 2 ^ k = b div 2 ^ k \<longleftrightarrow> (b div 2 ^ k) * 2 ^ k \<le> a \<and> a \<le> (b div 2 ^ k) * 2 ^ k + (2 ^ k - 1)"
proof -
  have "(2::nat) ^ k > 0" by simp
  then show ?thesis
    by (metis Suc_pred' div_nat_eqI div_times_less_eq_dividend dividend_less_div_times less_Suc_eq_le mult.commute
        add_Suc_right mult_Suc_right add.commute)
qed

lemma or_mask_nat: "(n::nat) OR mask k = (n div 2 ^ k) * 2 ^ k + (2 ^ k - 1)"
proof -
  let ?x = "n OR mask k"
  have "drop_bit k ?x = drop_bit k n" by (auto simp: bit_eq_iff bit_simps)
  moreover have "take_bit k ?x = mask k" by (auto simp: bit_eq_iff bit_simps)
  moreover have "?x = push_bit k (drop_bit k ?x) + take_bit k ?x" by (rule bits_ident [symmetric])
  ultimately have "?x = push_bit k (drop_bit k n) + mask k" by metis
  then show ?thesis by (simp add: push_bit_eq_mult drop_bit_eq_div mask_eq_exp_minus_1)
qed

lemma unat_or_mask:
  fixes w :: "'a::len word"
  shows "k \<le> LENGTH('a) \<Longrightarrow> unat (w OR mask k) = unat w OR mask k"
  by (rule bit_eqI) (auto simp: bit_simps dest: bit_imp_le_length)

lemma bit_setBit: "bit (setBit r i) j \<longleftrightarrow> bit r j \<or> j = 127 - i"
  by (auto simp: setBit_def bit_simps)

lemma bit_setLoop: "bit (foldl setBit r xs) j \<longleftrightarrow> bit r j \<or> (\<exists>i\<in>set xs. j = 127 - i)"
  by (induction xs arbitrary: r) (auto simp: bit_setBit)

lemma setLoop_mask:
  assumes "b \<le> 128"
  shows "foldl setBit r [b..<128] = r OR mask (128 - b)"
proof (rule bit_eqI)
  fix j assume "possible_bit TYPE(128 word) j"
  then have j: "j < 128" by simp
  have "(\<exists>i\<in>{b..<128}. j = 127 - i) \<longleftrightarrow> j < 128 - b"
  proof
    assume "j < 128 - b"
    with j have "127 - j \<in> {b..<128}" "j = 127 - (127 - j)" by auto
    then show "\<exists>i\<in>{b..<128}. j = 127 - i" by blast
  qed auto
  then show "bit (foldl setBit r [b..<128]) j = bit (r OR mask (128 - b)) j"
    using j by (simp add: bit_setLoop bit_simps)
qed

lemma broadcastAddress_nat:
  assumes "prefixIsValid p"
  shows "addrNat (broadcastAddress p) = lastNat p" and "addrWidth (broadcastAddress p) = addrWidth (prefixAddr p)"
proof -
  obtain a n where p: "p = Prefix a n" by (cases p)
  have "addrNat (broadcastAddress p) = lastNat p \<and> addrWidth (broadcastAddress p) = addrWidth (prefixAddr p)"
  proof (cases a)
    case AddrNone
    then show ?thesis using assms p by simp
  next
    case (Addr4 w)
    have n: "n \<le> 32" using assms p Addr4 by simp
    define high where "high = (push_bit 32 0xFFFF :: 128 word)"
    have "\<not> bit high j" if "j < 32" for j using that unfolding high_def bit_push_bit_iff by simp
    then have "ucast ((high OR ucast w) OR mask (32 - n)) = w OR mask (32 - n)"
      by (auto simp: bit_eq_iff bit_simps)
    then have "broadcastAddress p = Addr4 (w OR mask (32 - n))"
      using Addr4 p n by (simp add: broadcastAddress_def addrAs16_def setLoop_mask high_def)
    moreover have "unat (w OR mask (32 - n)) = unat w OR mask (32 - n)"
      using n by (simp add: unat_or_mask)
    ultimately show ?thesis using p Addr4 by (simp add: lastNat_def hostBits_def or_mask_nat)
  next
    case (Addr6 w)
    have n: "n \<le> 128" using assms p Addr6 by simp
    then have "broadcastAddress p = Addr6 (w OR mask (128 - n))"
      using Addr6 p by (simp add: broadcastAddress_def addrAs16_def setLoop_mask)
    moreover have "unat (w OR mask (128 - n)) = unat w OR mask (128 - n)"
      using n by (simp add: unat_or_mask)
    ultimately show ?thesis using p Addr6 by (simp add: lastNat_def hostBits_def or_mask_nat)
  qed
  then show "addrNat (broadcastAddress p) = lastNat p" "addrWidth (broadcastAddress p) = addrWidth (prefixAddr p)"
    by simp_all
qed

section \<open>The next address\<close>

text \<open>A range with room: its address, the next one and the last one are not handed out.\<close>

definition roomy :: "Prefix \<Rightarrow> bool" where
  "roomy p = (prefixIsValid p \<and> addrNat (prefixAddr p) + 2 < lastNat p)"

definition capacity :: "Prefix \<Rightarrow> nat" where
  "capacity p = lastNat p - addrNat (prefixAddr p) - 2"

definition validCurrent :: "Prefix \<Rightarrow> Addr \<Rightarrow> bool" where
  "validCurrent p current =
     (addrWidth current = addrWidth (prefixAddr p) \<and> addrNat (prefixAddr p) < addrNat current \<and>
      addrNat current < lastNat p)"

lemma addrNext_nat:
  assumes "addrNat a + 1 < 2 ^ addrWidth a"
  shows "addrNat (addrNext a) = addrNat a + 1" and "addrWidth (addrNext a) = addrWidth a"
proof -
  have "addrNat (addrNext a) = addrNat a + 1 \<and> addrWidth (addrNext a) = addrWidth a"
  proof (cases a)
    case (Addr4 w)
    then have "unat (w + 1) = unat w + 1" using assms by (simp add: unat_word_ariths)
    then show ?thesis using Addr4 by auto
  next
    case (Addr6 w)
    then have "unat (w + 1) = unat w + 1" using assms by (simp add: unat_word_ariths)
    then show ?thesis using Addr6 by auto
  qed (use assms in simp)
  then show "addrNat (addrNext a) = addrNat a + 1" "addrWidth (addrNext a) = addrWidth a" by simp_all
qed

lemma lastNat_bound: "prefixIsValid p \<Longrightarrow> lastNat p < 2 ^ addrWidth (prefixAddr p)"
proof -
  assume p: "prefixIsValid p"
  let ?k = "hostBits p" and ?w = "addrWidth (prefixAddr p)" and ?a = "addrNat (prefixAddr p)"
  have k: "?k \<le> ?w" by (simp add: hostBits_def)
  have "?a div 2 ^ ?k < 2 ^ (?w - ?k)"
    using addrNat_bound [of "prefixAddr p"] k by (simp add: div_less_iff_less_mult power_add [symmetric])
  then have "(?a div 2 ^ ?k + 1) * 2 ^ ?k \<le> 2 ^ (?w - ?k) * 2 ^ ?k" by (intro mult_right_mono) simp_all
  also have "\<dots> = 2 ^ ?w" using k by (simp add: power_add [symmetric])
  finally have "(?a div 2 ^ ?k) * 2 ^ ?k + 2 ^ ?k \<le> 2 ^ ?w" by simp
  moreover have "(0::nat) < 2 ^ ?k" by simp
  ultimately show ?thesis unfolding lastNat_def by linarith
qed

lemma contains_interval:
  assumes "prefixIsValid p" and "addrWidth a = addrWidth (prefixAddr p)"
    and "addrNat (prefixAddr p) \<le> addrNat a" and "addrNat a \<le> lastNat p"
  shows "prefixContains p a"
proof -
  have "(addrNat (prefixAddr p) div 2 ^ hostBits p) * 2 ^ hostBits p \<le> addrNat a"
    using assms(3) div_times_less_eq_dividend le_trans by blast
  then show ?thesis using assms(1,2,4) by (simp add: prefixContains_nat same_block_iff lastNat_def)
qed

lemma nextAddress_roomy:
  assumes "roomy p" and "validCurrent p current"
  defines "next \<equiv> nextAddress current (broadcastAddress p) p"
  shows "addrNat next = (if addrNat current + 1 < lastNat p then addrNat current + 1 else addrNat (prefixAddr p) + 2)"
    and "validCurrent p next" and "prefixContains p next" and "next \<noteq> prefixAddr p"
proof -
  let ?P = "addrNat (prefixAddr p)" and ?w = "addrWidth (prefixAddr p)"
  have p: "prefixIsValid p" "?P + 2 < lastNat p" using assms(1) by (simp_all add: roomy_def)
  have c: "addrWidth current = ?w" "?P < addrNat current" "addrNat current < lastNat p"
    using assms(2) by (simp_all add: validCurrent_def)
  note b = lastNat_bound [OF p(1)]
  have n: "addrNat (addrNext current) = addrNat current + 1" "addrWidth (addrNext current) = ?w"
    using addrNext_nat [of current] c b by simp_all
  have n1: "addrNat (addrNext (prefixAddr p)) = ?P + 1" "addrWidth (addrNext (prefixAddr p)) = ?w"
    using addrNext_nat [of "prefixAddr p"] p b by simp_all
  have n2: "addrNat (addrNext (addrNext (prefixAddr p))) = ?P + 2" "addrWidth (addrNext (addrNext (prefixAddr p))) = ?w"
    using addrNext_nat [of "addrNext (prefixAddr p)"] n1 p b by simp_all
  have l: "addrNext current = broadcastAddress p \<longleftrightarrow> addrNat current + 1 = lastNat p"
    using addr_eq_iff [of "addrNext current" "broadcastAddress p"] n broadcastAddress_nat [OF p(1)] by simp
  have in_range: "prefixContains p (addrNext current)"
    using contains_interval [OF p(1), of "addrNext current"] n c by simp
  have v: "next = (if addrNat current + 1 < lastNat p then addrNext current else addrNext (addrNext (prefixAddr p)))"
    using l in_range c by (auto simp: next_def nextAddress_def)
  then show e: "addrNat next = (if addrNat current + 1 < lastNat p then addrNat current + 1 else ?P + 2)"
    using n n2 by simp
  show "validCurrent p next" using v n n2 c p by (auto simp: validCurrent_def)
  then show "prefixContains p next"
    using contains_interval [OF p(1)] by (simp add: validCurrent_def)
  show "next \<noteq> prefixAddr p" using \<open>validCurrent p next\<close> by (auto simp: validCurrent_def)
qed

text \<open>The addresses handed out one after the other, as a closed form.\<close>

fun nthAddress :: "Prefix \<Rightarrow> Addr \<Rightarrow> nat \<Rightarrow> Addr" where
  "nthAddress p current 0 = current"
| "nthAddress p current (Suc i) = nextAddress (nthAddress p current i) (broadcastAddress p) p"

lemma nthAddress_valid: "roomy p \<Longrightarrow> validCurrent p current \<Longrightarrow> validCurrent p (nthAddress p current i)"
  by (induction i) (simp_all add: nextAddress_roomy)

lemma nthAddress_nat:
  assumes "roomy p" and "validCurrent p current"
  shows "addrNat (nthAddress p current (Suc i)) =
    addrNat (prefixAddr p) + 2 + (addrNat current - addrNat (prefixAddr p) - 1 + i) mod capacity p"
proof (induction i)
  case 0
  have "addrNat (prefixAddr p) + 2 < lastNat p" "addrNat (prefixAddr p) < addrNat current" "addrNat current < lastNat p"
    using assms by (simp_all add: roomy_def validCurrent_def)
  note b = this
  have "(addrNat current - addrNat (prefixAddr p) - 1) mod capacity p =
      (if addrNat current + 1 < lastNat p then addrNat current - addrNat (prefixAddr p) - 1 else 0)"
  proof (cases "addrNat current + 1 < lastNat p")
    case True
    then show ?thesis using b by (simp add: capacity_def less_diff_conv)
  next
    case False
    then have "addrNat current - addrNat (prefixAddr p) - 1 = capacity p" using b by (simp add: capacity_def)
    then show ?thesis using False by simp
  qed
  with b show ?case using nextAddress_roomy(1) [OF assms] by auto
next
  case (Suc i)
  let ?c = "nthAddress p current (Suc i)" and ?x = "addrNat current - addrNat (prefixAddr p) - 1 + i"
  have cap: "capacity p > 0" and cp: "lastNat p = addrNat (prefixAddr p) + 2 + capacity p"
    using assms(1) by (auto simp: roomy_def capacity_def)
  have v: "validCurrent p ?c" using nthAddress_valid [OF assms] .
  have "addrNat (nthAddress p current (Suc (Suc i))) =
      (if addrNat ?c + 1 < lastNat p then addrNat ?c + 1 else addrNat (prefixAddr p) + 2)"
    using nextAddress_roomy(1) [OF assms(1) v] by simp
  also have "\<dots> = addrNat (prefixAddr p) + 2 + (if Suc (?x mod capacity p) = capacity p then 0 else Suc (?x mod capacity p))"
    using Suc cp mod_less_divisor [OF cap, of ?x] by simp
  also have "\<dots> = addrNat (prefixAddr p) + 2 + Suc ?x mod capacity p"
    by (simp add: mod_Suc)
  finally show ?case by simp
qed

lemma nthAddress_distinct:
  assumes "roomy p" and "validCurrent p current" and "0 < i" and "i < j" and "j - i < capacity p"
  shows "nthAddress p current i \<noteq> nthAddress p current j"
proof
  assume e: "nthAddress p current i = nthAddress p current j"
  let ?x = "addrNat current - addrNat (prefixAddr p) - 1"
  obtain i' j' where ij: "i = Suc i'" "j = Suc j'" using assms(3,4) by (metis gr0_conv_Suc less_trans)
  have "addrNat (nthAddress p current (Suc i')) = addrNat (nthAddress p current (Suc j'))" using e ij by simp
  then have "(?x + i') mod capacity p = (?x + j') mod capacity p"
    unfolding nthAddress_nat [OF assms(1,2)] by simp
  then have "capacity p dvd j' - i'" using assms(4) ij
    by (metis mod_eq_dvd_iff_nat add_diff_cancel_left nat_add_left_cancel_le less_imp_le Suc_less_eq)
  then show False using assms(4,5) ij by (auto dest: dvd_imp_le)
qed

section \<open>The contract of a storage\<close>

text \<open>
  A storage keeps, for the domains that it can store, a finite map from addresses to domains that is
  injective on each family: a domain is found under an address exactly when the address is found
  under the domain. Storing under an address replaces its domain, the domain being new.
\<close>

locale fakeip_storage =
  fixes ops :: "'s FakeIPStorage" and invar :: "'s \<Rightarrow> bool" and storable :: "string \<Rightarrow> bool"
  assumes domain_iff: "invar s \<Longrightarrow> so_FakeIPLoadDomain ops s d v6 = Some a \<longleftrightarrow>
      so_FakeIPLoad ops s a = Some d \<and> v6 = (\<not> addrIs4 a)"
    and store_new: "invar s \<Longrightarrow> storable d \<Longrightarrow> addrIsValid a \<Longrightarrow>
      so_FakeIPLoadDomain ops s d (\<not> addrIs4 a) = None \<Longrightarrow>
      \<exists>s'. so_FakeIPStore ops a d s = (None, s') \<and> invar s' \<and> so_FakeIPLoad ops s' = (so_FakeIPLoad ops s)(a := Some d)"
    and async_keeps: "invar s \<Longrightarrow> invar (so_FakeIPSaveMetadataAsync ops md s) \<and>
      so_FakeIPLoad ops (so_FakeIPSaveMetadataAsync ops md s) = so_FakeIPLoad ops s"
    and reset_empties: "invar s \<Longrightarrow> so_FakeIPReset ops s = (None, s') \<Longrightarrow>
      invar s' \<and> so_FakeIPLoad ops s' = (\<lambda>_. None)"

text \<open>A family of the store: no range at all, or a range with room and a current address in it.\<close>

definition familyOk :: "nat \<Rightarrow> Prefix \<Rightarrow> Addr \<Rightarrow> Addr \<Rightarrow> bool" where
  "familyOk width p lastAddr current =
     (if prefixIsValid p
      then addrWidth (prefixAddr p) = width \<and> roomy p \<and> lastAddr = broadcastAddress p \<and> validCurrent p current
      else current = AddrNone)"

definition storeOk :: "'s FakeIPStorage \<Rightarrow> ('s \<Rightarrow> bool) \<Rightarrow> 's Store \<Rightarrow> bool" where
  "storeOk ops invar st =
     (familyOk 32 (fs_inet4Range st) (fs_inet4Last st) (fs_inet4Current st) \<and>
      familyOk 128 (fs_inet6Range st) (fs_inet6Last st) (fs_inet6Current st) \<and>
      (case fs_storage st of
         None \<Rightarrow> False
       | Some s \<Rightarrow> invar s \<and> (\<forall>a d. so_FakeIPLoad ops s a = Some d \<longrightarrow> Store_Contains st a)))"

definition rangeOf :: "bool \<Rightarrow> 's Store \<Rightarrow> Prefix" where
  "rangeOf v6 st = (if v6 then fs_inet6Range st else fs_inet4Range st)"

definition currentOf :: "bool \<Rightarrow> 's Store \<Rightarrow> Addr" where
  "currentOf v6 st = (if v6 then fs_inet6Current st else fs_inet4Current st)"

definition contents :: "'s FakeIPStorage \<Rightarrow> 's Store \<Rightarrow> Addr \<Rightarrow> string option" where
  "contents ops st a = (case fs_storage st of None \<Rightarrow> None | Some s \<Rightarrow> so_FakeIPLoad ops s a)"

text \<open>A run of \<open>Create\<close> calls.\<close>

fun createAll :: "'s FakeIPStorage \<Rightarrow> bool \<Rightarrow> string list \<Rightarrow> 's Store \<Rightarrow> Addr result list \<times> 's Store" where
  "createAll ops v6 [] st = ([], st)"
| "createAll ops v6 (d # ds) st =
     (let (a, st1) = Store_Create ops d v6 st; (as, st2) = createAll ops v6 ds st1 in (a # as, st2))"

lemma createAll_append:
  "createAll ops v6 (ds @ es) st =
     (let (as, st1) = createAll ops v6 ds st; (bs, st2) = createAll ops v6 es st1 in (as @ bs, st2))"
  by (induction ds arbitrary: st) (auto simp: Let_def split: prod.splits)

lemma addrIs4_width: "addrIs4 a \<longleftrightarrow> addrWidth a = 32"
  by (cases a) auto

lemma validCurrent_valid: "validCurrent p a \<Longrightarrow> addrIsValid a"
  by (cases a) (auto simp: validCurrent_def)

lemma familyOk_next:
  assumes "familyOk w p l c" and "prefixIsValid p" and "0 < w"
  shows "familyOk w p l (nextAddress c l p)" and "prefixContains p (nextAddress c l p)"
    and "addrIs4 (nextAddress c l p) \<longleftrightarrow> w = 32" and "addrIsValid c" and "addrIsValid (nextAddress c l p)"
    and "nextAddress c l p = nthAddress p c 1"
  using assms nextAddress_roomy [of p c] validCurrent_valid
  by (auto simp: familyOk_def addrIs4_width validCurrent_def)

context fakeip_storage
begin

text \<open>\<open>Create\<close> for a new domain: the next address of the family, under which the domain is then found.\<close>

lemma create_new:
  assumes ok: "storeOk ops invar st" and r: "prefixIsValid (rangeOf v6 st)" and d: "storable d"
    and new: "\<And>a. contents ops st a = Some d \<Longrightarrow> addrIs4 a = v6"
  defines "a \<equiv> nthAddress (rangeOf v6 st) (currentOf v6 st) 1"
  shows "\<exists>st'. Store_Create ops d v6 st = (Inr a, st') \<and> storeOk ops invar st' \<and>
    fs_inet4Range st' = fs_inet4Range st \<and> fs_inet6Range st' = fs_inet6Range st \<and>
    currentOf v6 st' = a \<and> currentOf (\<not> v6) st' = currentOf (\<not> v6) st \<and> addrIs4 a = (\<not> v6) \<and>
    Store_Contains st a \<and> contents ops st' = (contents ops st)(a := Some d)"
proof -
  let ?a = "if v6 then nextAddress (fs_inet6Current st) (fs_inet6Last st) (fs_inet6Range st)
            else nextAddress (fs_inet4Current st) (fs_inet4Last st) (fs_inet4Range st)"
  from ok obtain s where s: "fs_storage st = Some s" "invar s"
    and c: "\<And>a d. so_FakeIPLoad ops s a = Some d \<Longrightarrow> Store_Contains st a"
    by (auto simp: storeOk_def split: option.splits)
  have f4: "familyOk 32 (fs_inet4Range st) (fs_inet4Last st) (fs_inet4Current st)"
    and f6: "familyOk 128 (fs_inet6Range st) (fs_inet6Last st) (fs_inet6Current st)"
    using ok by (simp_all add: storeOk_def)
  have a: "?a = a" "addrIs4 ?a = (\<not> v6)" "addrIsValid ?a" "Store_Contains st ?a"
    "v6 \<Longrightarrow> addrIsValid (fs_inet6Current st)" "\<not> v6 \<Longrightarrow> addrIsValid (fs_inet4Current st)"
    using familyOk_next [OF f4] familyOk_next [OF f6] r
    by (auto simp: a_def rangeOf_def currentOf_def Store_Contains_def)
  have none: "so_FakeIPLoadDomain ops s d v6 = None"
  proof (rule ccontr)
    assume "so_FakeIPLoadDomain ops s d v6 \<noteq> None"
    then obtain b where "so_FakeIPLoad ops s b = Some d" "v6 = (\<not> addrIs4 b)" using domain_iff [OF s(2)] by auto
    then show False using new [of b] s(1) by (simp add: contents_def)
  qed
  then obtain s1 where s1: "so_FakeIPStore ops ?a d s = (None, s1)" "invar s1"
    "so_FakeIPLoad ops s1 = (so_FakeIPLoad ops s)(?a := Some d)"
    using store_new [OF s(2) d a(3)] a(2) by auto
  let ?st = "if v6 then st\<lparr>fs_inet6Current := ?a\<rparr> else st\<lparr>fs_inet4Current := ?a\<rparr>"
  let ?st' = "?st\<lparr>fs_storage := Some (so_FakeIPSaveMetadataAsync ops (storeMetadata ?st) s1)\<rparr>"
  have create: "Store_Create ops d v6 st = (Inr ?a, ?st')"
    using s none s1 a(5,6) by (cases v6) (simp_all add: Store_Create_def Let_def)
  note as = async_keeps [OF s1(2), of "storeMetadata ?st"]
  have "familyOk 32 (fs_inet4Range ?st') (fs_inet4Last ?st') (fs_inet4Current ?st')"
    "familyOk 128 (fs_inet6Range ?st') (fs_inet6Last ?st') (fs_inet6Current ?st')"
    using f4 f6 familyOk_next(1) [OF f4] familyOk_next(1) [OF f6] r by (auto simp: rangeOf_def)
  then have "storeOk ops invar ?st'"
    using as s1 c a(4) by (auto simp: storeOk_def Store_Contains_def split: if_splits)
  moreover have "contents ops ?st' = (contents ops st)(?a := Some d)"
    using as s1 s by (auto simp: contents_def)
  ultimately show ?thesis using create a by (auto simp: currentOf_def)
qed

text \<open>\<open>Create\<close> for a known domain: the address it has, and nothing changes.\<close>

lemma create_known:
  assumes "storeOk ops invar st" and "contents ops st a = Some d" and "addrIs4 a = (\<not> v6)"
  shows "Store_Create ops d v6 st = (Inr a, st) \<and> Store_Contains st a"
proof -
  from assms(1) obtain s where s: "fs_storage st = Some s" "invar s"
    and c: "\<And>a d. so_FakeIPLoad ops s a = Some d \<Longrightarrow> Store_Contains st a"
    by (auto simp: storeOk_def split: option.splits)
  have l: "so_FakeIPLoad ops s a = Some d" using assms(2) s(1) by (simp add: contents_def)
  then have "so_FakeIPLoadDomain ops s d v6 = Some a" using domain_iff [OF s(2)] assms(3) by simp
  then show ?thesis using s l c by (simp add: Store_Create_def)
qed

text \<open>Creating new domains one after the other walks through the range in cyclic order.\<close>

lemma createAll_new:
  assumes ok: "storeOk ops invar st" and r: "prefixIsValid (rangeOf v6 st)"
  shows "list_all storable ds \<Longrightarrow> distinct ds \<Longrightarrow> length ds \<le> capacity (rangeOf v6 st) \<Longrightarrow>
    (\<And>a d. contents ops st a = Some d \<Longrightarrow> d \<in> set ds \<Longrightarrow> addrIs4 a = v6) \<Longrightarrow>
    \<exists>st'. createAll ops v6 ds st = (map (\<lambda>i. Inr (nthAddress (rangeOf v6 st) (currentOf v6 st) (Suc i))) [0..<length ds], st') \<and>
      storeOk ops invar st' \<and> rangeOf v6 st' = rangeOf v6 st \<and>
      currentOf v6 st' = nthAddress (rangeOf v6 st) (currentOf v6 st) (length ds) \<and>
      (\<forall>i<length ds. contents ops st' (nthAddress (rangeOf v6 st) (currentOf v6 st) (Suc i)) = Some (ds ! i)) \<and>
      (\<forall>a. (\<forall>i<length ds. a \<noteq> nthAddress (rangeOf v6 st) (currentOf v6 st) (Suc i)) \<longrightarrow> contents ops st' a = contents ops st a)"
proof (induction ds rule: rev_induct)
  case Nil
  then show ?case using ok by simp
next
  case (snoc d ds)
  let ?p = "rangeOf v6 st" and ?c = "currentOf v6 st"
  let ?n = "\<lambda>i. nthAddress ?p ?c (Suc i)"
  from snoc obtain st1 where st1: "createAll ops v6 ds st = (map (\<lambda>i. Inr (?n i)) [0..<length ds], st1)"
      "storeOk ops invar st1" "rangeOf v6 st1 = ?p" "currentOf v6 st1 = nthAddress ?p ?c (length ds)"
    and cont: "\<forall>i<length ds. contents ops st1 (?n i) = Some (ds ! i)"
    and frame: "\<forall>a. (\<forall>i<length ds. a \<noteq> ?n i) \<longrightarrow> contents ops st1 a = contents ops st a"
    by auto
  have d: "storable d" "d \<notin> set ds" using snoc.prems by simp_all
  have new: "addrIs4 a = v6" if "contents ops st1 a = Some d" for a
  proof (cases "\<exists>i<length ds. a = ?n i")
    case True
    then show ?thesis using that cont d(2) nth_mem by fastforce
  next
    case False
    then show ?thesis using that frame snoc.prems(4) [of a d] by auto
  qed
  have a: "nthAddress (rangeOf v6 st1) (currentOf v6 st1) 1 = ?n (length ds)" using st1 by simp
  obtain st' where st': "Store_Create ops d v6 st1 = (Inr (?n (length ds)), st')" "storeOk ops invar st'"
      "rangeOf v6 st' = ?p" "currentOf v6 st' = ?n (length ds)"
      "contents ops st' = (contents ops st1)(?n (length ds) := Some d)"
    using create_new [OF st1(2) _ d(1) new] r st1(3) a by (auto simp: rangeOf_def)
  have cr: "createAll ops v6 (ds @ [d]) st = (map (\<lambda>i. Inr (?n i)) [0..<length (ds @ [d])], st')"
    using st1(1) st'(1) by (simp add: createAll_append del: nthAddress.simps)
  have fam: "roomy ?p" "validCurrent ?p ?c"
    using ok r by (auto simp: storeOk_def familyOk_def rangeOf_def currentOf_def)
  have "?n i \<noteq> ?n (length ds)" if "i < length ds" for i
    using nthAddress_distinct [OF fam, of "Suc i" "Suc (length ds)"] that snoc.prems(3)
    by (simp del: nthAddress.simps)
  then have "\<forall>i<length (ds @ [d]). contents ops st' (?n i) = Some ((ds @ [d]) ! i)"
    using cont st'(5) by (auto simp: nth_append less_Suc_eq simp del: nthAddress.simps)
  moreover have "\<forall>a. (\<forall>i<length (ds @ [d]). a \<noteq> ?n i) \<longrightarrow> contents ops st' a = contents ops st a"
    using frame st'(5) by (auto simp: less_Suc_eq simp del: nthAddress.simps)
  ultimately show ?case using cr st' by (simp del: nthAddress.simps)
qed

end

section \<open>The memory storage keeps the contract\<close>

text \<open>The two directions of the memory storage are inverse to each other.\<close>

definition memoryOk :: "MemoryStorage \<Rightarrow> bool" where
  "memoryOk s =
     (\<forall>a d. (mem_addressCache s a = Some d \<longrightarrow> addrIsValid a) \<and>
            (mem_domainCache4 s d = Some a \<longleftrightarrow> mem_addressCache s a = Some d \<and> addrIs4 a) \<and>
            (mem_domainCache6 s d = Some a \<longleftrightarrow> mem_addressCache s a = Some d \<and> \<not> addrIs4 a))"

lemma memory_store:
  assumes "memoryOk s" and "addrIsValid a" and "Memory_FakeIPLoadDomain s d (\<not> addrIs4 a) = None"
  shows "memoryOk (snd (Memory_FakeIPStore a d s))"
  using assms
  by (cases "mem_addressCache s a")
     (auto simp: memoryOk_def Memory_FakeIPStore_def Memory_FakeIPLoadDomain_def Let_def split: if_splits,
      (metis option.distinct(1) option.inject)+)

interpretation mem: fakeip_storage memoryStorage memoryOk "\<lambda>_. True"
proof (unfold_locales, goal_cases)
  case (1 s d v6 a)
  then show ?case by (auto simp: memoryStorage_def Memory_FakeIPLoad_def Memory_FakeIPLoadDomain_def memoryOk_def)
next
  case (2 s d a)
  then have "memoryOk (snd (Memory_FakeIPStore a d s))" by (simp add: memory_store memoryStorage_def)
  moreover have "mem_addressCache (snd (Memory_FakeIPStore a d s)) = (mem_addressCache s)(a \<mapsto> d)"
    by (auto simp: Memory_FakeIPStore_def Let_def split: option.splits)
  moreover have "fst (Memory_FakeIPStore a d s) = None" by (simp add: Memory_FakeIPStore_def Let_def)
  ultimately show ?case
    by (auto simp: memoryStorage_def Memory_FakeIPLoad_def fun_eq_iff prod_eq_iff)
next
  case (3 s md)
  then show ?case by (simp add: memoryStorage_def)
next
  case (4 s s')
  then show ?case by (auto simp: memoryStorage_def Memory_FakeIPReset_def memoryOk_def Memory_FakeIPLoad_def)
qed

section \<open>Properties\<close>

lemma familyOk_start:
  assumes "prefixIsValid p \<Longrightarrow> addrWidth (prefixAddr p) = w \<and> roomy p"
  shows "familyOk w p (if prefixIsValid p then broadcastAddress p else AddrNone)
    (if prefixIsValid p then addrNext (prefixAddr p) else AddrNone)"
proof (cases "prefixIsValid p")
  case True
  then have p: "addrNat (prefixAddr p) + 2 < lastNat p" "addrWidth (prefixAddr p) = w" "roomy p"
    using assms by (simp_all add: roomy_def)
  then have "validCurrent p (addrNext (prefixAddr p))"
    using addrNext_nat [of "prefixAddr p"] lastNat_bound [OF True] by (simp add: validCurrent_def)
  then show ?thesis using True p by (simp add: familyOk_def)
qed (simp add: familyOk_def)

lemma contents_lookup: "storeOk ops invar st \<Longrightarrow> Store_Lookup ops st a = Inr (contents ops st a)"
  by (auto simp: storeOk_def Store_Lookup_def contents_def split: option.splits)

lemma storeOk_reset:
  "storeOk memoryStorage memoryOk st \<Longrightarrow> storeOk memoryStorage memoryOk (snd (Store_Reset memoryStorage st))"
  by (auto simp: storeOk_def Store_Reset_def memoryStorage_def Memory_FakeIPReset_def memoryOk_def Memory_FakeIPLoad_def
      split: option.splits)

text \<open>
  C13: for a fake-IP store that keeps its addresses in memory, the invariant (both directions of the
  storage inverse to each other, every stored address and the current addresses inside the configured
  ranges, the last address never used) holds after the start on ranges of the two families with room
  for an address, and every operation keeps it. (A store over the cache file is not covered: there a
  start with changed ranges finds addresses of the old ones.)
\<close>

theorem fakeip_store_invariant:
  assumes "\<And>r. prefixIsValid r \<Longrightarrow> r = range4 \<or> r = range6 \<Longrightarrow> roomy r"
    and "prefixIsValid range4 \<Longrightarrow> addrIs4 (prefixAddr range4)" and "prefixIsValid range6 \<Longrightarrow> addrIs6 (prefixAddr range6)"
  shows "storeOk memoryStorage memoryOk (Store_Start memoryStorage NewMemoryStorage (NewStore range4 range6)) \<and>
    (storeOk memoryStorage memoryOk st \<longrightarrow>
       storeOk memoryStorage memoryOk (snd (Store_Create memoryStorage domain isIPv6 st)) \<and>
       storeOk memoryStorage memoryOk (snd (Store_Reset memoryStorage st)) \<and>
       storeOk memoryStorage memoryOk (snd (Store_Close memoryStorage st)))"
proof (intro conjI impI)
  have "familyOk 32 range4 (if prefixIsValid range4 then broadcastAddress range4 else AddrNone)
      (if prefixIsValid range4 then addrNext (prefixAddr range4) else AddrNone)"
    using assms(1,2) by (intro familyOk_start) (simp add: addrIs4_width)
  moreover have "familyOk 128 range6 (if prefixIsValid range6 then broadcastAddress range6 else AddrNone)
      (if prefixIsValid range6 then addrNext (prefixAddr range6) else AddrNone)"
    using assms(1,3) by (intro familyOk_start) (cases "prefixAddr range6"; simp)
  ultimately show "storeOk memoryStorage memoryOk (Store_Start memoryStorage NewMemoryStorage (NewStore range4 range6))"
    by (auto simp: storeOk_def Store_Start_def NewStore_def NewMemoryStorage_def memoryStorage_def Memory_FakeIPReset_def
        memoryOk_def Memory_FakeIPLoad_def)
next
  assume ok: "storeOk memoryStorage memoryOk st"
  show "storeOk memoryStorage memoryOk (snd (Store_Create memoryStorage domain isIPv6 st))"
  proof (cases "\<exists>a. contents memoryStorage st a = Some domain \<and> addrIs4 a = (\<not> isIPv6)")
    case True
    then show ?thesis using mem.create_known [OF ok] ok by auto
  next
    case False
    show ?thesis
    proof (cases "prefixIsValid (rangeOf isIPv6 st)")
      case True
      then show ?thesis using mem.create_new [OF ok True, of domain] False by auto
    next
      case no_range: False
      then have "\<not> addrIsValid (currentOf isIPv6 st)"
        using ok by (auto simp: storeOk_def familyOk_def rangeOf_def currentOf_def)
      then have "snd (Store_Create memoryStorage domain isIPv6 st) = st"
        by (auto simp: Store_Create_def currentOf_def split: option.splits)
      then show ?thesis using ok by simp
    qed
  qed
  show "storeOk memoryStorage memoryOk (snd (Store_Reset memoryStorage st))" using storeOk_reset [OF ok] .
  show "storeOk memoryStorage memoryOk (snd (Store_Close memoryStorage st))"
    using ok by (auto simp: storeOk_def Store_Close_def memoryStorage_def Store_Contains_def split: option.splits)
qed

text \<open>The witness: the default range 198.18.0.0/15, no IPv6 range.\<close>

definition sampleRange :: Prefix where
  "sampleRange = Prefix (Addr4 0xC6120000) 15"

definition sampleFakeStore :: "MemoryStorage Store" where
  "sampleFakeStore = Store_Start memoryStorage NewMemoryStorage (NewStore sampleRange (Prefix AddrNone 0))"

lemma sampleRange_roomy: "roomy sampleRange" "prefixIsValid sampleRange" "capacity sampleRange = 131069"
  by (simp_all add: roomy_def capacity_def sampleRange_def lastNat_def hostBits_def)

theorem fakeip_store_invariant_witness:
  "storeOk memoryStorage memoryOk sampleFakeStore \<and>
   storeOk memoryStorage memoryOk (snd (Store_Create memoryStorage ''a.org'' False sampleFakeStore))"
proof -
  have h: "roomy r" if "prefixIsValid r" "r = sampleRange \<or> r = Prefix AddrNone 0" for r
    using that sampleRange_roomy by auto
  have 4: "addrIs4 (prefixAddr sampleRange)" by (simp add: sampleRange_def)
  note f = fakeip_store_invariant [of sampleRange "Prefix AddrNone 0", OF h]
  have s: "storeOk memoryStorage memoryOk sampleFakeStore"
    unfolding sampleFakeStore_def using f [of sampleFakeStore "''''" False] 4 by simp
  then show ?thesis using f [of sampleFakeStore "''a.org''" False] 4 by simp
qed

text \<open>
  C14: as many new domains as the range has room for get different addresses of the range, of the
  family asked for, and afterwards every one of the addresses is still found to stand for its
  domain: no address is given to a second domain before all the others have been used.
\<close>

theorem fake_addresses_round_trip:
  assumes "storeOk memoryStorage memoryOk st" and "prefixIsValid (rangeOf isIPv6 st)"
    and "distinct domains" and "length domains \<le> capacity (rangeOf isIPv6 st)"
    and "\<And>a d. contents memoryStorage st a = Some d \<Longrightarrow> d \<in> set domains \<Longrightarrow> addrIs4 a = isIPv6"
  shows "\<exists>addresses st'. createAll memoryStorage isIPv6 domains st = (map Inr addresses, st') \<and>
    distinct addresses \<and> length addresses = length domains \<and>
    list_all (\<lambda>a. Store_Contains st' a \<and> addrIs4 a = (\<not> isIPv6)) addresses \<and>
    map (Store_Lookup memoryStorage st') addresses = map (\<lambda>d. Inr (Some d)) domains"
proof -
  let ?p = "rangeOf isIPv6 st" and ?c = "currentOf isIPv6 st"
  let ?as = "map (\<lambda>i. nthAddress ?p ?c (Suc i)) [0..<length domains]"
  obtain st' where st': "createAll memoryStorage isIPv6 domains st = (map Inr ?as, st')" "storeOk memoryStorage memoryOk st'"
      "rangeOf isIPv6 st' = ?p"
      "\<forall>i<length domains. contents memoryStorage st' (nthAddress ?p ?c (Suc i)) = Some (domains ! i)"
    using mem.createAll_new [OF assms(1,2), of domains] assms(3,4,5)
    by (auto simp: comp_def list_all_iff simp del: nthAddress.simps)
  have fam: "roomy ?p" "validCurrent ?p ?c" "addrWidth (prefixAddr ?p) = (if isIPv6 then 128 else 32)"
    using assms(1,2) by (auto simp: storeOk_def familyOk_def rangeOf_def currentOf_def)
  have ne: "nthAddress ?p ?c (Suc i) \<noteq> nthAddress ?p ?c (Suc j)" if "i < j" "j < length domains" for i j
    using nthAddress_distinct [OF fam(1,2), of "Suc i" "Suc j"] that assms(4) by (simp del: nthAddress.simps)
  have d: "distinct ?as"
    unfolding distinct_map by (auto simp: inj_on_def simp del: nthAddress.simps) (metis ne nat_neq_iff)
  have "Store_Contains st' (nthAddress ?p ?c i) \<and> addrIs4 (nthAddress ?p ?c i) = (\<not> isIPv6)" for i
  proof -
    have v: "validCurrent ?p (nthAddress ?p ?c i)" using nthAddress_valid [OF fam(1,2)] .
    then have "prefixContains ?p (nthAddress ?p ?c i)"
      using contains_interval [OF assms(2)] by (simp add: validCurrent_def)
    then show ?thesis using v fam(3) st'(3) by (auto simp: Store_Contains_def addrIs4_width validCurrent_def rangeOf_def split: if_splits)
  qed
  then have "list_all (\<lambda>a. Store_Contains st' a \<and> addrIs4 a = (\<not> isIPv6)) ?as"
    by (simp add: list_all_iff del: nthAddress.simps)
  moreover have "map (Store_Lookup memoryStorage st') ?as = map (\<lambda>d. Inr (Some d)) domains"
    using st'(2,4) by (intro nth_equalityI) (simp_all add: contents_lookup del: nthAddress.simps)
  ultimately show ?thesis using st'(1) d
    by (intro exI [of _ ?as] exI [of _ st']) (simp del: nthAddress.simps)
qed

theorem fake_addresses_round_trip_witness:
  "\<exists>a b st'. createAll memoryStorage False [''a.org'', ''b.org''] sampleFakeStore = ([Inr a, Inr b], st') \<and> a \<noteq> b \<and>
     Store_Lookup memoryStorage st' a = Inr (Some ''a.org'') \<and> Store_Lookup memoryStorage st' b = Inr (Some ''b.org'')"
proof -
  have h: "roomy r" if "prefixIsValid r" "r = sampleRange \<or> r = Prefix AddrNone 0" for r
    using that sampleRange_roomy by auto
  have "familyOk 32 sampleRange (broadcastAddress sampleRange) (addrNext (prefixAddr sampleRange))"
    using familyOk_start [of sampleRange 32] sampleRange_roomy by (simp add: sampleRange_def)
  then have ok: "storeOk memoryStorage memoryOk sampleFakeStore"
    using sampleRange_roomy by (auto simp: sampleFakeStore_def storeOk_def Store_Start_def NewStore_def NewMemoryStorage_def
        memoryStorage_def Memory_FakeIPReset_def memoryOk_def Memory_FakeIPLoad_def familyOk_def)
  have r: "rangeOf False sampleFakeStore = sampleRange"
    by (simp add: sampleFakeStore_def rangeOf_def Store_Start_def NewStore_def memoryStorage_def)
  have c: "contents memoryStorage sampleFakeStore a = None" for a
    by (simp add: sampleFakeStore_def contents_def Store_Start_def memoryStorage_def Memory_FakeIPReset_def Memory_FakeIPLoad_def)
  show ?thesis
    using fake_addresses_round_trip [OF ok, of False "[''a.org'', ''b.org'']"] r c sampleRange_roomy
    by (auto simp del: createAll.simps)
qed

text \<open>
  A range of one or two addresses: the first address handed out lies outside of it, so that
  connections to it are not recognised.
\<close>

lemma tiny_range_is_left:
  assumes "prefixIsValid p" and "lastNat p \<le> addrNat (prefixAddr p) + 1"
    and "addrNat (prefixAddr p) + 2 < 2 ^ addrWidth (prefixAddr p)"
  shows "\<not> prefixContains p (nextAddress (addrNext (prefixAddr p)) (broadcastAddress p) p)"
proof -
  have n1: "addrNat (addrNext (prefixAddr p)) = addrNat (prefixAddr p) + 1" "addrWidth (addrNext (prefixAddr p)) = addrWidth (prefixAddr p)"
    using addrNext_nat [of "prefixAddr p"] assms(3) by simp_all
  have n2: "addrNat (addrNext (addrNext (prefixAddr p))) = addrNat (prefixAddr p) + 2"
    using addrNext_nat [of "addrNext (prefixAddr p)"] n1 assms(3) by simp
  have "nextAddress (addrNext (prefixAddr p)) (broadcastAddress p) p = addrNext (addrNext (prefixAddr p))"
    by (simp add: nextAddress_def)
  moreover have "\<not> prefixContains p (addrNext (addrNext (prefixAddr p)))"
    using n2 assms(1,2) by (auto simp: prefixContains_nat same_block_iff lastNat_def)
  ultimately show ?thesis by simp
qed

end
