(* ===== verification/Cache_File.thy ===== *)
theory Cache_File
  imports Fakeip Rule_Set
begin

text \<open>
  \<open>experimental/cachefile\<close>, with the binary forms of \<open>adapter/experimental.go\<close> and
  \<open>adapter/fakeip_metadata.go\<close>: the cache file keeps the selected outbounds, the mode, the remote
  rule-sets, the fake addresses and the rejected DNS responses in a \<open>bbolt\<close> database.

  The database is a parameter, the record \<open>Bolt\<close> of the operations used; what they are documented to
  do is the locale \<open>bolt\<close> of the theory \<open>Cache_Props\<close>; \<open>bo_Batch\<close> is a writing transaction, by
  \<open>Batch\<close> or \<open>Update\<close>. A bucket is named by its path. A panic inside a transaction (a truncated
  entry) is recovered by replacing the database with a new one.
\<close>

section \<open>Binary forms\<close>

definition element :: "bytes \<Rightarrow> bytes" where
  "element d = bytesOfNat 2 (length d) @ d"

definition FakeIPMetadata_MarshalBinary :: "FakeIPMetadata \<Rightarrow> bytes" where
  "FakeIPMetadata_MarshalBinary m =
     element (prefixMarshal (fm_Inet4Range m)) @ element (prefixMarshal (fm_Inet6Range m)) @
     element (addrAsSlice (fm_Inet4Current m)) @ element (addrAsSlice (fm_Inet6Current m))"

text \<open>One turn of the loop; \<open>common.Must\<close> panics when the length cannot be read.\<close>

definition readElement :: "bytes \<Rightarrow> (bytes \<times> bytes) result" where
  "readElement d =
     (case readN 2 d of
        Inl e \<Rightarrow> Inl (Panic [AStr ''EOF''])
      | Inr (len, r) \<Rightarrow> readN (bigEndian len) r)"

definition FakeIPMetadata_UnmarshalBinary :: "bytes \<Rightarrow> FakeIPMetadata result" where
  "FakeIPMetadata_UnmarshalBinary d =
     bindE (readElement d) (\<lambda>(e, r). bindE (prefixUnmarshal e) (\<lambda>inet4Range.
     bindE (readElement r) (\<lambda>(e, r). bindE (prefixUnmarshal e) (\<lambda>inet6Range.
     bindE (readElement r) (\<lambda>(e, r). bindE (addrUnmarshal e) (\<lambda>inet4Current.
     bindE (readElement r) (\<lambda>(e, r). bindE (addrUnmarshal e) (\<lambda>inet6Current.
       Inr \<lparr>fm_Inet4Range = inet4Range, fm_Inet6Range = inet6Range, fm_Inet4Current = inet4Current,
            fm_Inet6Current = inet6Current\<rparr>))))))))"

section \<open>The database\<close>

type_synonym path = "bytes list"

record 'db Bolt =
  bo_Bucket :: "'db \<Rightarrow> path \<Rightarrow> bool"
  bo_Get :: "'db \<Rightarrow> path \<Rightarrow> bytes \<Rightarrow> bytes option"
  bo_Put :: "path \<Rightarrow> bytes \<Rightarrow> bytes \<Rightarrow> 'db \<Rightarrow> 'db result"
  bo_Delete :: "path \<Rightarrow> bytes \<Rightarrow> 'db \<Rightarrow> 'db result"
  bo_CreateBucketIfNotExists :: "path \<Rightarrow> 'db \<Rightarrow> 'db result"
  bo_DeleteBucket :: "path \<Rightarrow> 'db \<Rightarrow> 'db result"
  bo_Batch :: "('db \<Rightarrow> 'db result) \<Rightarrow> 'db \<Rightarrow> Error option \<times> 'db"
  bo_Open :: "'db option"

record 'db CacheFile =
  cf_cacheID :: "bytes option"
  cf_storeFakeIP :: bool
  cf_storeRDRC :: bool
  cf_rdrcTimeout :: int
  cf_DB :: 'db
  cf_saveMetadataTimer :: "FakeIPMetadata option"
  cf_saveDomain :: "Addr \<rightharpoonup> string"
  cf_saveAddress4 :: "string \<rightharpoonup> Addr"
  cf_saveAddress6 :: "string \<rightharpoonup> Addr"
  cf_saveRDRC :: "string \<times> string \<times> u16 \<rightharpoonup> bool"

record CacheFileOptions =
  co_CacheID :: string
  co_StoreFakeIP :: bool
  co_StoreRDRC :: bool
  co_RDRCTimeout :: int

definition CacheFile_New :: "CacheFileOptions \<Rightarrow> 'db \<Rightarrow> 'db CacheFile" where
  "CacheFile_New options db =
     \<lparr>cf_cacheID = (if co_CacheID options \<noteq> '''' then Some (0 # bytesOf (co_CacheID options)) else None),
      cf_storeFakeIP = co_StoreFakeIP options, cf_storeRDRC = co_StoreRDRC options,
      cf_rdrcTimeout = (if co_StoreRDRC options
                        then (if co_RDRCTimeout options > 0 then co_RDRCTimeout options
                              else 7 * 24 * 3600 * 1000000000) else 0),
      cf_DB = db, cf_saveMetadataTimer = None, cf_saveDomain = Map.empty, cf_saveAddress4 = Map.empty,
      cf_saveAddress6 = Map.empty, cf_saveRDRC = Map.empty\<rparr>"

text \<open>\<open>resetDB\<close>: the file is removed and opened again; if that fails, the closed database stays.\<close>

definition resetDB :: "'db Bolt \<Rightarrow> 'db CacheFile \<Rightarrow> 'db CacheFile" where
  "resetDB B c = (case bo_Open B of Some db \<Rightarrow> c\<lparr>cf_DB := db\<rparr> | None \<Rightarrow> c)"

fun isPanic :: "'a result \<Rightarrow> Arg list option" where
  "isPanic (Inl (Panic p)) = Some p"
| "isPanic r = None"

definition cf_view :: "'db Bolt \<Rightarrow> ('db \<Rightarrow> 'a result) \<Rightarrow> 'db CacheFile \<Rightarrow> 'a result \<times> 'db CacheFile" where
  "cf_view B fn c =
     (case isPanic (fn (cf_DB c)) of
        Some p \<Rightarrow> (Inl (E_New (AStr ''database corrupted: '' # p)), resetDB B c)
      | None \<Rightarrow> (fn (cf_DB c), c))"

definition cf_batch :: "'db Bolt \<Rightarrow> ('db \<Rightarrow> 'db result) \<Rightarrow> 'db CacheFile \<Rightarrow> Error option \<times> 'db CacheFile" where
  "cf_batch B fn c =
     (case isPanic (fn (cf_DB c)) of
        Some p \<Rightarrow> (Some (E_New (AStr ''database corrupted: '' # p)), resetDB B c)
      | None \<Rightarrow> (let (err, db) = bo_Batch B fn (cf_DB c) in (err, c\<lparr>cf_DB := db\<rparr>)))"

section \<open>Modes, groups and rule-sets\<close>

definition bucketSelected :: bytes where "bucketSelected = bytesOf ''selected''"
definition bucketExpand :: bytes where "bucketExpand = bytesOf ''group_expand''"
definition bucketMode :: bytes where "bucketMode = bytesOf ''clash_mode''"
definition bucketRuleSet :: bytes where "bucketRuleSet = bytesOf ''rule_set''"
definition bucketRDRC :: bytes where "bucketRDRC = bytesOf ''rdrc2''"
definition cacheIDDefault :: bytes where "cacheIDDefault = bytesOf ''default''"

definition modeKey :: "'db CacheFile \<Rightarrow> bytes" where
  "modeKey c = (case cf_cacheID c of Some i \<Rightarrow> i | None \<Rightarrow> cacheIDDefault)"

definition LoadMode :: "'db Bolt \<Rightarrow> 'db CacheFile \<Rightarrow> string" where
  "LoadMode B c =
     (if \<not> bo_Bucket B (cf_DB c) [bucketMode] then ''''
      else case bo_Get B (cf_DB c) [bucketMode] (modeKey c) of None \<Rightarrow> '''' | Some m \<Rightarrow> stringOf m)"

definition StoreMode :: "'db Bolt \<Rightarrow> string \<Rightarrow> 'db CacheFile \<Rightarrow> Error option \<times> 'db CacheFile" where
  "StoreMode B mode c =
     cf_batch B (\<lambda>db. bindE (bo_CreateBucketIfNotExists B [bucketMode] db)
                        (bo_Put B [bucketMode] (modeKey c) (bytesOf mode))) c"

text \<open>\<open>bucket\<close> and \<open>createBucket\<close>: inside the bucket of the cache id, if there is one.\<close>

definition bucketPath :: "'db CacheFile \<Rightarrow> bytes \<Rightarrow> path" where
  "bucketPath c key = (case cf_cacheID c of None \<Rightarrow> [key] | Some i \<Rightarrow> [i, key])"

definition hasBucket :: "'db Bolt \<Rightarrow> 'db CacheFile \<Rightarrow> 'db \<Rightarrow> bytes \<Rightarrow> bool" where
  "hasBucket B c db key =
     (case cf_cacheID c of
        None \<Rightarrow> bo_Bucket B db [key]
      | Some i \<Rightarrow> bo_Bucket B db [i] \<and> bo_Bucket B db [i, key])"

definition createBucket :: "'db Bolt \<Rightarrow> 'db CacheFile \<Rightarrow> bytes \<Rightarrow> 'db \<Rightarrow> 'db result" where
  "createBucket B c key db =
     (case cf_cacheID c of
        None \<Rightarrow> bo_CreateBucketIfNotExists B [key] db
      | Some i \<Rightarrow> bindE (bo_CreateBucketIfNotExists B [i] db) (bo_CreateBucketIfNotExists B [i, key]))"

definition LoadSelected :: "'db Bolt \<Rightarrow> 'db CacheFile \<Rightarrow> string \<Rightarrow> string" where
  "LoadSelected B c groupTag =
     (if \<not> hasBucket B c (cf_DB c) bucketSelected then ''''
      else case bo_Get B (cf_DB c) (bucketPath c bucketSelected) (bytesOf groupTag) of
             None \<Rightarrow> '''' | Some selected \<Rightarrow> if length selected > 0 then stringOf selected else '''')"

definition StoreSelected :: "'db Bolt \<Rightarrow> string \<Rightarrow> string \<Rightarrow> 'db CacheFile \<Rightarrow> Error option \<times> 'db CacheFile" where
  "StoreSelected B groupTag selected c =
     cf_batch B (\<lambda>db. bindE (createBucket B c bucketSelected db)
                        (bo_Put B (bucketPath c bucketSelected) (bytesOf groupTag) (bytesOf selected))) c"

definition LoadGroupExpand :: "'db Bolt \<Rightarrow> 'db CacheFile \<Rightarrow> string \<Rightarrow> bool option" where
  "LoadGroupExpand B c groupTag =
     (if \<not> hasBucket B c (cf_DB c) bucketExpand then None
      else case bo_Get B (cf_DB c) (bucketPath c bucketExpand) (bytesOf groupTag) of
             Some [b] \<Rightarrow> Some (b = 1) | _ \<Rightarrow> None)"

definition StoreGroupExpand :: "'db Bolt \<Rightarrow> string \<Rightarrow> bool \<Rightarrow> 'db CacheFile \<Rightarrow> Error option \<times> 'db CacheFile" where
  "StoreGroupExpand B groupTag isExpand c =
     cf_batch B (\<lambda>db. bindE (createBucket B c bucketExpand db)
                        (bo_Put B (bucketPath c bucketExpand) (bytesOf groupTag) [if isExpand then 1 else 0])) c"

definition LoadRuleSet :: "'db Bolt \<Rightarrow> string \<Rightarrow> 'db CacheFile \<Rightarrow> SavedBinary option \<times> 'db CacheFile" where
  "LoadRuleSet B tag c =
     (case cf_view B (\<lambda>db.
        if \<not> hasBucket B c db bucketRuleSet then Inl (E_Lib ''file does not exist'')
        else case bo_Get B db (bucketPath c bucketRuleSet) (bytesOf tag) of
               None \<Rightarrow> Inl (E_Lib ''invalid argument'')
             | Some setBinary \<Rightarrow>
                 if length setBinary = 0 then Inl (E_Lib ''invalid argument'')
                 else SavedBinary_UnmarshalBinary setBinary) c of
        (Inl _, c') \<Rightarrow> (None, c')
      | (Inr saved, c') \<Rightarrow> (Some saved, c'))"

definition SaveRuleSet ::
  "'db Bolt \<Rightarrow> (u64 \<Rightarrow> bytes) \<Rightarrow> string \<Rightarrow> SavedBinary \<Rightarrow> 'db CacheFile \<Rightarrow> Error option \<times> 'db CacheFile" where
  "SaveRuleSet B writeUvarint tag s c =
     cf_batch B (\<lambda>db. bindE (createBucket B c bucketRuleSet db)
       (bo_Put B (bucketPath c bucketRuleSet) (bytesOf tag) (SavedBinary_MarshalBinary writeUvarint s))) c"

section \<open>Fake addresses\<close>

definition bucketFakeIP :: bytes where "bucketFakeIP = bytesOf ''fakeip_address''"
definition bucketFakeIPDomain4 :: bytes where "bucketFakeIPDomain4 = bytesOf ''fakeip_domain4''"
definition bucketFakeIPDomain6 :: bytes where "bucketFakeIPDomain6 = bytesOf ''fakeip_domain6''"
definition keyMetadata :: bytes where "keyMetadata = bytesOf ''fakeip_metadata''"

text \<open>The metadata is read once: the entry is deleted with the read.\<close>

definition loadMetadata :: "'db Bolt \<Rightarrow> 'db \<Rightarrow> FakeIPMetadata result" where
  "loadMetadata B db =
     (if \<not> bo_Bucket B db [bucketFakeIP] then Inl (E_Lib ''file does not exist'')
      else case bo_Get B db [bucketFakeIP] keyMetadata of
             None \<Rightarrow> Inl (E_Lib ''invalid argument'')
           | Some metadataBinary \<Rightarrow>
               if length metadataBinary = 0 then Inl (E_Lib ''invalid argument'')
               else bindE (bo_Delete B [bucketFakeIP] keyMetadata db)
                      (\<lambda>_. FakeIPMetadata_UnmarshalBinary metadataBinary))"

definition CF_FakeIPMetadata :: "'db Bolt \<Rightarrow> 'db CacheFile \<Rightarrow> FakeIPMetadata option \<times> 'db CacheFile" where
  "CF_FakeIPMetadata B c =
     (case cf_batch B (\<lambda>db. bindE (loadMetadata B db) (\<lambda>_. bo_Delete B [bucketFakeIP] keyMetadata db)) c of
        (Some _, c') \<Rightarrow> (None, c')
      | (None, c') \<Rightarrow> (case loadMetadata B (cf_DB c) of Inl _ \<Rightarrow> None | Inr m \<Rightarrow> Some m, c'))"

definition CF_FakeIPSaveMetadata ::
  "'db Bolt \<Rightarrow> FakeIPMetadata \<Rightarrow> 'db CacheFile \<Rightarrow> Error option \<times> 'db CacheFile" where
  "CF_FakeIPSaveMetadata B m c =
     cf_batch B (\<lambda>db. bindE (bo_CreateBucketIfNotExists B [bucketFakeIP] db)
                        (bo_Put B [bucketFakeIP] keyMetadata (FakeIPMetadata_MarshalBinary m))) c"

text \<open>
  \<open>FakeIPSaveMetadataAsync\<close>: the first call makes a timer whose function saves the metadata of that
  call; later calls only restart the timer. \<open>saveMetadataFires\<close> is the timer running out.
\<close>

definition CF_FakeIPSaveMetadataAsync :: "FakeIPMetadata \<Rightarrow> 'db CacheFile \<Rightarrow> 'db CacheFile" where
  "CF_FakeIPSaveMetadataAsync m c =
     (case cf_saveMetadataTimer c of None \<Rightarrow> c\<lparr>cf_saveMetadataTimer := Some m\<rparr> | Some _ \<Rightarrow> c)"

definition saveMetadataFires :: "'db Bolt \<Rightarrow> 'db CacheFile \<Rightarrow> 'db CacheFile" where
  "saveMetadataFires B c =
     (case cf_saveMetadataTimer c of None \<Rightarrow> c | Some m \<Rightarrow> snd (CF_FakeIPSaveMetadata B m c))"

definition domainBucket :: "Addr \<Rightarrow> path" where
  "domainBucket address = [if addrIs4 address then bucketFakeIPDomain4 else bucketFakeIPDomain6]"

definition storeTx :: "'db Bolt \<Rightarrow> Addr \<Rightarrow> string \<Rightarrow> 'db \<Rightarrow> 'db result" where
  "storeTx B address domain db =
     bindE (bo_CreateBucketIfNotExists B [bucketFakeIP] db) (\<lambda>db1.
       let oldDomain = bo_Get B db1 [bucketFakeIP] (addrAsSlice address)
       in bindE (bo_Put B [bucketFakeIP] (addrAsSlice address) (bytesOf domain) db1) (\<lambda>db2.
          bindE (bo_CreateBucketIfNotExists B (domainBucket address) db2) (\<lambda>db3.
          bindE (case oldDomain of
                   None \<Rightarrow> Inr db3
                 | Some old \<Rightarrow> bo_Delete B (domainBucket address) old db3) (\<lambda>db4.
          bo_Put B (domainBucket address) (bytesOf domain) (addrAsSlice address) db4))))"

definition CF_FakeIPStore :: "'db Bolt \<Rightarrow> Addr \<Rightarrow> string \<Rightarrow> 'db CacheFile \<Rightarrow> Error option \<times> 'db CacheFile" where
  "CF_FakeIPStore B address domain c = cf_batch B (storeTx B address domain) c"

text \<open>\<open>FakeIPStoreAsync\<close>: the maps first, and later in a goroutine the transaction and the maps again.\<close>

definition storeAsyncBegin :: "Addr \<Rightarrow> string \<Rightarrow> 'db CacheFile \<Rightarrow> 'db CacheFile" where
  "storeAsyncBegin address domain c =
     (let c1 = (case cf_saveDomain c address of
                  None \<Rightarrow> c
                | Some oldDomain \<Rightarrow>
                    if addrIs4 address then c\<lparr>cf_saveAddress4 := (cf_saveAddress4 c)(oldDomain := None)\<rparr>
                    else c\<lparr>cf_saveAddress6 := (cf_saveAddress6 c)(oldDomain := None)\<rparr>);
          c2 = c1\<lparr>cf_saveDomain := (cf_saveDomain c1)(address \<mapsto> domain)\<rparr>
      in if addrIs4 address then c2\<lparr>cf_saveAddress4 := (cf_saveAddress4 c2)(domain \<mapsto> address)\<rparr>
         else c2\<lparr>cf_saveAddress6 := (cf_saveAddress6 c2)(domain \<mapsto> address)\<rparr>)"

definition storeAsyncEnd :: "'db Bolt \<Rightarrow> Addr \<Rightarrow> string \<Rightarrow> 'db CacheFile \<Rightarrow> 'db CacheFile" where
  "storeAsyncEnd B address domain c =
     (let c1 = snd (CF_FakeIPStore B address domain c);
          c2 = c1\<lparr>cf_saveDomain := (cf_saveDomain c1)(address := None)\<rparr>
      in if addrIs4 address then c2\<lparr>cf_saveAddress4 := (cf_saveAddress4 c2)(domain := None)\<rparr>
         else c2\<lparr>cf_saveAddress6 := (cf_saveAddress6 c2)(domain := None)\<rparr>)"

definition CF_FakeIPLoad :: "'db Bolt \<Rightarrow> 'db CacheFile \<Rightarrow> Addr \<Rightarrow> string option" where
  "CF_FakeIPLoad B c address =
     (case cf_saveDomain c address of
        Some cachedDomain \<Rightarrow> Some cachedDomain
      | None \<Rightarrow>
          (let domain = (if \<not> bo_Bucket B (cf_DB c) [bucketFakeIP] then ''''
                         else case bo_Get B (cf_DB c) [bucketFakeIP] (addrAsSlice address) of
                                None \<Rightarrow> '''' | Some d \<Rightarrow> stringOf d)
           in if domain \<noteq> '''' then Some domain else None))"

definition CF_FakeIPLoadDomain :: "'db Bolt \<Rightarrow> DnsLib \<Rightarrow> 'db CacheFile \<Rightarrow> string \<Rightarrow> bool \<Rightarrow> Addr option" where
  "CF_FakeIPLoadDomain B dl c domain isIPv6 =
     (case (if \<not> isIPv6 then cf_saveAddress4 c domain else cf_saveAddress6 c domain) of
        Some cachedAddress \<Rightarrow> Some cachedAddress
      | None \<Rightarrow>
          (let bucket = [if isIPv6 then bucketFakeIPDomain6 else bucketFakeIPDomain4];
               address = (if \<not> bo_Bucket B (cf_DB c) bucket then AddrNone
                          else dl_AddrFromIP dl (case bo_Get B (cf_DB c) bucket (bytesOf domain) of
                                                   None \<Rightarrow> [] | Some a \<Rightarrow> a))
           in if addrIsValid address then Some address else None))"

definition resetTx :: "'db Bolt \<Rightarrow> 'db \<Rightarrow> 'db result" where
  "resetTx B db =
     bindE (bo_DeleteBucket B [bucketFakeIP] db) (\<lambda>db1.
     bindE (bo_DeleteBucket B [bucketFakeIPDomain4] db1) (bo_DeleteBucket B [bucketFakeIPDomain6]))"

definition CF_FakeIPReset :: "'db Bolt \<Rightarrow> 'db CacheFile \<Rightarrow> Error option \<times> 'db CacheFile" where
  "CF_FakeIPReset B c = cf_batch B (resetTx B) c"

text \<open>The cache file as a storage of fake addresses.\<close>

definition cacheStorage :: "'db Bolt \<Rightarrow> DnsLib \<Rightarrow> 'db CacheFile FakeIPStorage" where
  "cacheStorage B dl =
     \<lparr>so_FakeIPMetadata = CF_FakeIPMetadata B, so_FakeIPSaveMetadata = CF_FakeIPSaveMetadata B,
      so_FakeIPSaveMetadataAsync = CF_FakeIPSaveMetadataAsync, so_FakeIPStore = CF_FakeIPStore B,
      so_FakeIPLoad = CF_FakeIPLoad B, so_FakeIPLoadDomain = CF_FakeIPLoadDomain B dl,
      so_FakeIPReset = CF_FakeIPReset B\<rparr>"

section \<open>Rejected DNS responses\<close>

definition rdrcKey :: "string \<Rightarrow> u16 \<Rightarrow> bytes" where
  "rdrcKey qName qType = bytesOfNat 2 (unat qType) @ bytesOf qName"

definition rdrcPath :: "'db CacheFile \<Rightarrow> string \<Rightarrow> path" where
  "rdrcPath c transportName = bucketPath c bucketRDRC @ [bytesOf transportName]"

text \<open>The transaction of \<open>LoadRDRC\<close>: whether an entry is there, and whether it has expired.\<close>

definition rdrcEntry :: "'db Bolt \<Rightarrow> 'db CacheFile \<Rightarrow> int \<Rightarrow> string \<Rightarrow> string \<Rightarrow> u16 \<Rightarrow> 'db \<Rightarrow> (bool \<times> bool) result" where
  "rdrcEntry B c now transportName qName qType db =
     (if \<not> hasBucket B c db bucketRDRC then Inr (False, False)
      else if \<not> bo_Bucket B db (rdrcPath c transportName) then Inr (False, False)
      else case bo_Get B db (rdrcPath c transportName) (rdrcKey qName qType) of
             None \<Rightarrow> Inr (False, False)
           | Some content \<Rightarrow>
               if length content < 8 then Inl (Panic [AStr ''index out of range''])
               else if now > bytesInt64 (take 8 content) * 1000000000 then Inr (False, True)
               else Inr (True, False))"

definition LoadRDRC ::
  "'db Bolt \<Rightarrow> int \<Rightarrow> string \<Rightarrow> string \<Rightarrow> u16 \<Rightarrow> 'db CacheFile \<Rightarrow> bool \<times> 'db CacheFile" where
  "LoadRDRC B now transportName qName qType c =
     (case cf_saveRDRC c (transportName, qName, qType) of
        Some rejected \<Rightarrow> (rejected, c)
      | None \<Rightarrow>
          (case cf_view B (rdrcEntry B c now transportName qName qType) c of
             (Inl _, c') \<Rightarrow> (False, c')
           | (Inr (rejected, deleteCache), c') \<Rightarrow>
               if deleteCache
               then (rejected, snd (cf_batch B (\<lambda>db.
                       if \<not> hasBucket B c db bucketRDRC \<or> \<not> bo_Bucket B db (rdrcPath c transportName) then Inr db
                       else bo_Delete B (rdrcPath c transportName) (rdrcKey qName qType) db) c'))
               else (rejected, c')))"

definition SaveRDRC ::
  "'db Bolt \<Rightarrow> int \<Rightarrow> string \<Rightarrow> string \<Rightarrow> u16 \<Rightarrow> 'db CacheFile \<Rightarrow> Error option \<times> 'db CacheFile" where
  "SaveRDRC B now transportName qName qType c =
     cf_batch B (\<lambda>db. bindE (createBucket B c bucketRDRC db) (\<lambda>db1.
       bindE (bo_CreateBucketIfNotExists B (rdrcPath c transportName) db1)
         (bo_Put B (rdrcPath c transportName) (rdrcKey qName qType)
            (int64Bytes ((now + cf_rdrcTimeout c) div 1000000000))))) c"

definition saveRDRCAsyncBegin :: "string \<Rightarrow> string \<Rightarrow> u16 \<Rightarrow> 'db CacheFile \<Rightarrow> 'db CacheFile" where
  "saveRDRCAsyncBegin transportName qName qType c =
     c\<lparr>cf_saveRDRC := (cf_saveRDRC c)((transportName, qName, qType) \<mapsto> True)\<rparr>"

definition saveRDRCAsyncEnd :: "'db Bolt \<Rightarrow> int \<Rightarrow> string \<Rightarrow> string \<Rightarrow> u16 \<Rightarrow> 'db CacheFile \<Rightarrow> 'db CacheFile" where
  "saveRDRCAsyncEnd B now transportName qName qType c =
     (let c1 = snd (SaveRDRC B now transportName qName qType c)
      in c1\<lparr>cf_saveRDRC := (cf_saveRDRC c1)((transportName, qName, qType) := None)\<rparr>)"

end
