(* ===== verification/Outbound_Groups.thy ===== *)
theory Outbound_Groups
  imports Managers Cache_File
begin

text \<open>
  Outbound groups: \<open>protocol/group/selector.go\<close>, \<open>protocol/group/urltest.go\<close>, the history of tests
  \<open>common/urltest/urltest.go\<close> and the connections that a switch interrupts, \<open>common/interrupt\<close>.

  Outbounds are the services of the outbound manager, \<open>lookup\<close> is its method \<open>Outbound\<close>. What another
  outbound answers to \<open>Network\<close> and, if it is a group, to \<open>Now\<close> is the record \<open>GroupEnv\<close>. Connections are
  numbers. Times and durations are nanoseconds.
\<close>

section \<open>Connections of a group\<close>

text \<open>\<open>interrupt.Group\<close>: the open connections in their order, with the mark of external ones.\<close>

type_synonym InterruptGroup = "(nat \<times> bool) list"

definition Group_NewConn :: "nat \<Rightarrow> bool \<Rightarrow> InterruptGroup \<Rightarrow> InterruptGroup" where
  "Group_NewConn conn isExternal g = g @ [(conn, isExternal)]"

definition Group_Interrupt :: "bool \<Rightarrow> InterruptGroup \<Rightarrow> nat list \<times> InterruptGroup" where
  "Group_Interrupt interruptExternalConnections g =
     (map fst (filter (\<lambda>(_, isExternal). \<not> isExternal \<or> interruptExternalConnections) g),
      filter (\<lambda>(_, isExternal). isExternal \<and> \<not> interruptExternalConnections) g)"

definition Conn_Close :: "nat \<Rightarrow> InterruptGroup \<Rightarrow> InterruptGroup" where
  "Conn_Close conn g = filter (\<lambda>(c, _). c \<noteq> conn) g"

record GroupEnv =
  ge_Network :: "Service \<Rightarrow> string list"
  ge_Now :: "Service \<Rightarrow> string option"

definition RealTag :: "GroupEnv \<Rightarrow> Service \<Rightarrow> string" where
  "RealTag env detour = (case ge_Now env detour of Some now \<Rightarrow> now | None \<Rightarrow> sv_Tag detour)"

definition nilOutbound :: Error where
  "nilOutbound = Panic [AStr ''invalid memory address or nil pointer dereference'']"

definition notSupported :: "string \<Rightarrow> Service \<Rightarrow> Error" where
  "notSupported network o' = E_New [AStr network, AStr '' is not supported by outbound: '', AStr (sv_Tag o')]"

section \<open>Selector\<close>

record Selector =
  sl_tag :: string
  sl_tags :: "string list"
  sl_defaultTag :: string
  sl_outbounds :: "string \<rightharpoonup> Service"
  sl_selected :: "Service option"
  sl_interruptGroup :: InterruptGroup
  sl_interruptExternalConnections :: bool

definition NewSelector :: "string \<Rightarrow> string list \<Rightarrow> string \<Rightarrow> bool \<Rightarrow> Selector result" where
  "NewSelector tag tags defaultTag interruptExist =
     (if length tags = 0 then Inl (E_New [AStr ''missing tags''])
      else Inr \<lparr>sl_tag = tag, sl_tags = tags, sl_defaultTag = defaultTag, sl_outbounds = Map.empty, sl_selected = None,
                sl_interruptGroup = [], sl_interruptExternalConnections = interruptExist\<rparr>)"

definition Selector_Network :: "GroupEnv \<Rightarrow> Selector \<Rightarrow> string list" where
  "Selector_Network env s = (case sl_selected s of None \<Rightarrow> [''tcp'', ''udp''] | Some o' \<Rightarrow> ge_Network env o')"

text \<open>The loop of \<open>Start\<close> over the tags; the table keeps what was found before a missing tag.\<close>

fun findOutbounds :: "(string \<Rightarrow> Service option) \<Rightarrow> nat \<Rightarrow> string list \<Rightarrow> (string \<rightharpoonup> Service) \<Rightarrow> Error option \<times> (string \<rightharpoonup> Service)" where
  "findOutbounds lookup i [] m = (None, m)"
| "findOutbounds lookup i (tag # tags) m =
     (case lookup tag of
        None \<Rightarrow> (Some (E_New [AStr ''outbound '', ANum (int i), AStr '' not found: '', AStr tag]), m)
      | Some detour \<Rightarrow> findOutbounds lookup (Suc i) tags (m(tag \<mapsto> detour)))"

text \<open>The selection saved in the cache file, if there is one and it is a member.\<close>

definition savedSelection :: "'db Bolt \<Rightarrow> 'db CacheFile option \<Rightarrow> Selector \<Rightarrow> Service option" where
  "savedSelection B cacheFile s =
     (if sl_tag s = '''' then None
      else case cacheFile of
             None \<Rightarrow> None
           | Some c \<Rightarrow> (let selected = LoadSelected B c (sl_tag s) in if selected = '''' then None else sl_outbounds s selected))"

definition Selector_Start :: "(string \<Rightarrow> Service option) \<Rightarrow> 'db Bolt \<Rightarrow> 'db CacheFile option \<Rightarrow> Selector \<Rightarrow> Error option \<times> Selector" where
  "Selector_Start lookup B cacheFile s0 =
     (let (err, m) = findOutbounds lookup 0 (sl_tags s0) (sl_outbounds s0);
          s = s0\<lparr>sl_outbounds := m\<rparr>
      in if err \<noteq> None then (err, s)
         else case savedSelection B cacheFile s of
                Some detour \<Rightarrow> (None, s\<lparr>sl_selected := Some detour\<rparr>)
              | None \<Rightarrow>
                  if sl_defaultTag s \<noteq> ''''
                  then (case m (sl_defaultTag s) of
                          None \<Rightarrow> (Some (E_New [AStr ''default outbound not found: '', AStr (sl_defaultTag s)]), s)
                        | Some detour \<Rightarrow> (None, s\<lparr>sl_selected := Some detour\<rparr>))
                  else (None, s\<lparr>sl_selected := m (hd (sl_tags s))\<rparr>))"

definition Selector_Now :: "Selector \<Rightarrow> string" where
  "Selector_Now s = (case sl_selected s of None \<Rightarrow> hd (sl_tags s) | Some o' \<Rightarrow> sv_Tag o')"

text \<open>\<open>SelectOutbound\<close>: whether the tag is known, the selector, the cache file and the connections closed. A failed save is only logged.\<close>

definition SelectOutbound ::
  "'db Bolt \<Rightarrow> string \<Rightarrow> Selector \<Rightarrow> 'db CacheFile option \<Rightarrow> bool \<times> Selector \<times> 'db CacheFile option \<times> nat list" where
  "SelectOutbound B tag s cacheFile =
     (case sl_outbounds s tag of
        None \<Rightarrow> (False, s, cacheFile, [])
      | Some detour \<Rightarrow>
          if sl_selected s = Some detour then (True, s, cacheFile, [])
          else let cacheFile' = (if sl_tag s = '''' then cacheFile
                                 else map_option (\<lambda>c. snd (StoreSelected B (sl_tag s) tag c)) cacheFile);
                   (closed, conns) = Group_Interrupt (sl_interruptExternalConnections s) (sl_interruptGroup s)
               in (True, s\<lparr>sl_selected := Some detour, sl_interruptGroup := conns\<rparr>, cacheFile', closed))"

text \<open>\<open>DialContext\<close> and \<open>ListenPacket\<close>, with the outcome \<open>dial\<close> of the same call of the selected outbound.\<close>

definition Selector_Dial :: "(Service \<Rightarrow> nat result) \<Rightarrow> bool \<Rightarrow> Selector \<Rightarrow> nat result \<times> Selector" where
  "Selector_Dial dial isExternal s =
     (case sl_selected s of
        None \<Rightarrow> (Inl nilOutbound, s)
      | Some o' \<Rightarrow>
          (case dial o' of
             Inl err \<Rightarrow> (Inl err, s)
           | Inr conn \<Rightarrow> (Inr conn, s\<lparr>sl_interruptGroup := Group_NewConn conn isExternal (sl_interruptGroup s)\<rparr>)))"

text \<open>The outbound that \<open>NewDirectRouteConnection\<close> forwards to.\<close>

definition Selector_NewDirectRouteConnection :: "GroupEnv \<Rightarrow> string \<Rightarrow> Selector \<Rightarrow> Service result" where
  "Selector_NewDirectRouteConnection env network s =
     (case sl_selected s of
        None \<Rightarrow> Inl nilOutbound
      | Some o' \<Rightarrow> if network \<notin> set (ge_Network env o') then Inl (notSupported network o') else Inr o')"

section \<open>History of tests\<close>

record URLTestHistory =
  hi_Time :: int
  hi_Delay :: u16

type_synonym HistoryStorage = "string \<rightharpoonup> URLTestHistory"

definition LoadURLTestHistory :: "HistoryStorage \<Rightarrow> string \<Rightarrow> URLTestHistory option" where
  "LoadURLTestHistory s tag = s tag"

definition DeleteURLTestHistory :: "string \<Rightarrow> HistoryStorage \<Rightarrow> HistoryStorage" where
  "DeleteURLTestHistory tag s = s(tag := None)"

definition StoreURLTestHistory :: "string \<Rightarrow> URLTestHistory \<Rightarrow> HistoryStorage \<Rightarrow> HistoryStorage" where
  "StoreURLTestHistory tag history s = s(tag \<mapsto> history)"

section \<open>Groups with tests\<close>

text \<open>
  \<open>ug_entering\<close> and \<open>ug_waiting\<close> are the goroutines of \<open>loopCheck\<close> before its first statement and in its
  \<open>select\<close>; \<open>ug_ticker\<close> is whether the ticker is there, \<open>ug_closed\<close> whether the channel \<open>close\<close> is closed.
\<close>

record URLTestGroup =
  ug_outbounds :: "Service list"
  ug_interval :: int
  ug_tolerance :: u16
  ug_idleTimeout :: int
  ug_history :: HistoryStorage
  ug_checking :: bool
  ug_selectedOutboundTCP :: "Service option"
  ug_selectedOutboundUDP :: "Service option"
  ug_interruptGroup :: InterruptGroup
  ug_interruptExternalConnections :: bool
  ug_ticker :: bool
  ug_closed :: bool
  ug_started :: bool
  ug_lastActive :: int
  ug_entering :: nat
  ug_waiting :: nat

definition NewURLTestGroup ::
  "HistoryStorage \<Rightarrow> Service list \<Rightarrow> int \<Rightarrow> u16 \<Rightarrow> int \<Rightarrow> bool \<Rightarrow> URLTestGroup result" where
  "NewURLTestGroup history outbounds interval0 tolerance0 idleTimeout0 interruptExternalConnections =
     (let interval = (if interval0 = 0 then 180000000000 else interval0);
          tolerance = (if tolerance0 = 0 then 50 else tolerance0);
          idleTimeout = (if idleTimeout0 = 0 then 1800000000000 else idleTimeout0)
      in if interval > idleTimeout then Inl (E_New [AStr ''interval must be less or equal than idle_timeout''])
         else Inr \<lparr>ug_outbounds = outbounds, ug_interval = interval, ug_tolerance = tolerance, ug_idleTimeout = idleTimeout,
                   ug_history = history, ug_checking = False, ug_selectedOutboundTCP = None, ug_selectedOutboundUDP = None,
                   ug_interruptGroup = [], ug_interruptExternalConnections = interruptExternalConnections, ug_ticker = False,
                   ug_closed = False, ug_started = False, ug_lastActive = 0, ug_entering = 0, ug_waiting = 0\<rparr>)"

subsection \<open>Selection\<close>

fun selectLoop :: "GroupEnv \<Rightarrow> HistoryStorage \<Rightarrow> u16 \<Rightarrow> string \<Rightarrow> Service list \<Rightarrow> u16 \<Rightarrow> Service option \<Rightarrow> Service option" where
  "selectLoop env history tolerance network [] minDelay minOutbound = minOutbound"
| "selectLoop env history tolerance network (detour # detours) minDelay minOutbound =
     (if network \<notin> set (ge_Network env detour) then selectLoop env history tolerance network detours minDelay minOutbound
      else case LoadURLTestHistory history (RealTag env detour) of
             None \<Rightarrow> selectLoop env history tolerance network detours minDelay minOutbound
           | Some h \<Rightarrow>
               if minDelay = 0 \<or> minDelay > hi_Delay h + tolerance
               then selectLoop env history tolerance network detours (hi_Delay h) (Some detour)
               else selectLoop env history tolerance network detours minDelay minOutbound)"

definition selectedOf :: "string \<Rightarrow> URLTestGroup \<Rightarrow> Service option" where
  "selectedOf network g =
     (if network = ''tcp'' then ug_selectedOutboundTCP g else if network = ''udp'' then ug_selectedOutboundUDP g else None)"

definition Group_Select :: "GroupEnv \<Rightarrow> string \<Rightarrow> URLTestGroup \<Rightarrow> Service option \<times> bool" where
  "Group_Select env network g =
     (let (minDelay, minOutbound) =
        (case selectedOf network g of
           None \<Rightarrow> (0, None)
         | Some o' \<Rightarrow> (case LoadURLTestHistory (ug_history g) (RealTag env o') of None \<Rightarrow> (0, None) | Some h \<Rightarrow> (hi_Delay h, Some o')))
      in case selectLoop env (ug_history g) (ug_tolerance g) network (ug_outbounds g) minDelay minOutbound of
           None \<Rightarrow> (find (\<lambda>detour. network \<in> set (ge_Network env detour)) (ug_outbounds g), False)
         | Some o' \<Rightarrow> (Some o', True))"

text \<open>One half of \<open>performUpdateCheck\<close>: the new selection and whether it replaced another.\<close>

definition updateSelected :: "GroupEnv \<Rightarrow> string \<Rightarrow> URLTestGroup \<Rightarrow> Service option \<times> bool" where
  "updateSelected env network g =
     (let current = selectedOf network g
      in case Group_Select env network g of
           (Some o', exists) \<Rightarrow>
             if current = None \<or> exists \<and> Some o' \<noteq> current then (Some o', current \<noteq> None) else (current, False)
         | (None, _) \<Rightarrow> (current, False))"

definition performUpdateCheck :: "GroupEnv \<Rightarrow> URLTestGroup \<Rightarrow> URLTestGroup \<times> nat list" where
  "performUpdateCheck env g =
     (let (tcp, updated1) = updateSelected env ''tcp'' g;
          g1 = g\<lparr>ug_selectedOutboundTCP := tcp\<rparr>;
          (udp, updated2) = updateSelected env ''udp'' g1;
          g2 = g1\<lparr>ug_selectedOutboundUDP := udp\<rparr>
      in if updated1 \<or> updated2
         then (let (closed, conns) = Group_Interrupt (ug_interruptExternalConnections g2) (ug_interruptGroup g2)
               in (g2\<lparr>ug_interruptGroup := conns\<rparr>, closed))
         else (g2, []))"

subsection \<open>Tests\<close>

text \<open>
  The loop of \<open>urlTest\<close>. The tests run concurrently, but they are for different real tags and each
  touches the history of its own tag only, so the model runs them in the order of the loop. \<open>test\<close> is
  \<open>urltest.URLTest\<close>, \<open>finished\<close> the times at which the tests end.
\<close>

fun testLoop ::
  "GroupEnv \<Rightarrow> (string \<Rightarrow> Service option) \<Rightarrow> (Service \<Rightarrow> u16 result) \<Rightarrow> int \<Rightarrow> (string \<Rightarrow> int) \<Rightarrow> int \<Rightarrow> bool \<Rightarrow> Service list \<Rightarrow> string list \<Rightarrow>
   HistoryStorage \<Rightarrow> (string \<rightharpoonup> u16) \<Rightarrow> (string \<rightharpoonup> u16) \<times> HistoryStorage" where
  "testLoop env lookup test now finished interval force [] checked history result = (result, history)"
| "testLoop env lookup test now finished interval force (detour # detours) checked history result =
     (let tag = sv_Tag detour; realTag = RealTag env detour
      in if realTag \<in> set checked then testLoop env lookup test now finished interval force detours checked history result
         else if \<not> force \<and> (case LoadURLTestHistory history realTag of None \<Rightarrow> False | Some h \<Rightarrow> now - hi_Time h < interval)
         then testLoop env lookup test now finished interval force detours checked history result
         else case lookup realTag of
                None \<Rightarrow> testLoop env lookup test now finished interval force detours (realTag # checked) history result
              | Some p \<Rightarrow>
                  (case test p of
                     Inl err \<Rightarrow>
                       testLoop env lookup test now finished interval force detours (realTag # checked) (DeleteURLTestHistory realTag history) result
                   | Inr t \<Rightarrow>
                       testLoop env lookup test now finished interval force detours (realTag # checked)
                         (StoreURLTestHistory realTag \<lparr>hi_Time = finished realTag, hi_Delay = t\<rparr> history) (result(tag \<mapsto> t))))"

text \<open>\<open>urlTest\<close> in two halves, between which \<open>checking\<close> is set: a second call in between returns an empty result.\<close>

definition urlTestBegin :: "URLTestGroup \<Rightarrow> URLTestGroup option" where
  "urlTestBegin g = (if ug_checking g then None else Some (g\<lparr>ug_checking := True\<rparr>))"

definition urlTestEnd ::
  "GroupEnv \<Rightarrow> (string \<Rightarrow> Service option) \<Rightarrow> (Service \<Rightarrow> u16 result) \<Rightarrow> int \<Rightarrow> (string \<Rightarrow> int) \<Rightarrow> bool \<Rightarrow> URLTestGroup \<Rightarrow>
   (string \<rightharpoonup> u16) \<times> URLTestGroup \<times> nat list" where
  "urlTestEnd env lookup test now finished force g =
     (let (result, history) = testLoop env lookup test now finished (ug_interval g) force (ug_outbounds g) [] (ug_history g) Map.empty;
          (g', closed) = performUpdateCheck env (g\<lparr>ug_history := history\<rparr>)
      in (result, g'\<lparr>ug_checking := False\<rparr>, closed))"

subsection \<open>Life cycle\<close>

text \<open>\<open>PostStart\<close>, \<open>Touch\<close> and \<open>Close\<close>; a channel that is closed again panics.\<close>

definition Group_PostStart :: "int \<Rightarrow> URLTestGroup \<Rightarrow> URLTestGroup" where
  "Group_PostStart now g = g\<lparr>ug_started := True, ug_lastActive := now\<rparr>"

definition Group_Touch :: "int \<Rightarrow> URLTestGroup \<Rightarrow> URLTestGroup" where
  "Group_Touch now g =
     (if \<not> ug_started g then g
      else if ug_ticker g then g\<lparr>ug_lastActive := now\<rparr>
      else g\<lparr>ug_ticker := True, ug_entering := Suc (ug_entering g)\<rparr>)"

definition Group_Close :: "URLTestGroup \<Rightarrow> Error option \<times> URLTestGroup" where
  "Group_Close g =
     (if \<not> ug_ticker g then (None, g)
      else if ug_closed g then (Some (Panic [AStr ''close of closed channel'']), g)
      else (None, g\<lparr>ug_closed := True\<rparr>))"

text \<open>The steps of \<open>loopCheck\<close> besides \<open>CheckOutbounds\<close>; a \<open>select\<close> with a nil ticker panics.\<close>

definition loopBegin :: "int \<Rightarrow> URLTestGroup \<Rightarrow> URLTestGroup" where
  "loopBegin now g =
     (let g1 = (if now - ug_lastActive g > ug_interval g then g\<lparr>ug_lastActive := now\<rparr> else g)
      in g1\<lparr>ug_entering := ug_entering g - 1, ug_waiting := Suc (ug_waiting g)\<rparr>)"

definition loopTick :: "int \<Rightarrow> URLTestGroup \<Rightarrow> URLTestGroup result" where
  "loopTick now g =
     (if \<not> ug_ticker g then Inl nilOutbound
      else if now - ug_lastActive g > ug_idleTimeout g then Inr (g\<lparr>ug_ticker := False, ug_waiting := ug_waiting g - 1\<rparr>)
      else Inr g)"

definition loopClosed :: "URLTestGroup \<Rightarrow> URLTestGroup" where
  "loopClosed g = g\<lparr>ug_waiting := ug_waiting g - 1\<rparr>"

section \<open>The outbound with tests\<close>

record URLTest =
  ut_tags :: "string list"
  ut_interval :: int
  ut_tolerance :: u16
  ut_idleTimeout :: int
  ut_interruptExternalConnections :: bool
  ut_group :: "URLTestGroup option"

definition NewURLTest :: "string list \<Rightarrow> int \<Rightarrow> u16 \<Rightarrow> int \<Rightarrow> bool \<Rightarrow> URLTest result" where
  "NewURLTest tags interval tolerance idleTimeout interruptExist =
     (if length tags = 0 then Inl (E_New [AStr ''missing tags''])
      else Inr \<lparr>ut_tags = tags, ut_interval = interval, ut_tolerance = tolerance, ut_idleTimeout = idleTimeout,
                ut_interruptExternalConnections = interruptExist, ut_group = None\<rparr>)"

fun collectOutbounds :: "(string \<Rightarrow> Service option) \<Rightarrow> nat \<Rightarrow> string list \<Rightarrow> Service list result" where
  "collectOutbounds lookup i [] = Inr []"
| "collectOutbounds lookup i (tag # tags) =
     (case lookup tag of
        None \<Rightarrow> Inl (E_New [AStr ''outbound '', ANum (int i), AStr '' not found: '', AStr tag])
      | Some detour \<Rightarrow> bindE (collectOutbounds lookup (Suc i) tags) (\<lambda>detours. Inr (detour # detours)))"

definition URLTest_Start :: "(string \<Rightarrow> Service option) \<Rightarrow> HistoryStorage \<Rightarrow> URLTest \<Rightarrow> URLTest result" where
  "URLTest_Start lookup history s =
     bindE (collectOutbounds lookup 0 (ut_tags s)) (\<lambda>outbounds.
       bindE (NewURLTestGroup history outbounds (ut_interval s) (ut_tolerance s) (ut_idleTimeout s) (ut_interruptExternalConnections s))
         (\<lambda>g. Inr (s\<lparr>ut_group := Some g\<rparr>)))"

definition Group_Now :: "URLTestGroup \<Rightarrow> string" where
  "Group_Now g =
     (case ug_selectedOutboundTCP g of
        Some o' \<Rightarrow> sv_Tag o'
      | None \<Rightarrow> (case ug_selectedOutboundUDP g of Some o' \<Rightarrow> sv_Tag o' | None \<Rightarrow> ''''))"

definition URLTest_Now :: "URLTest \<Rightarrow> string result" where
  "URLTest_Now s = (case ut_group s of None \<Rightarrow> Inl nilOutbound | Some g \<Rightarrow> Inr (Group_Now g))"

text \<open>The common part of \<open>DialContext\<close> and \<open>ListenPacket\<close>: a failed dial removes the history of the outbound's own tag.\<close>

definition dialSelected ::
  "GroupEnv \<Rightarrow> (Service \<Rightarrow> nat result) \<Rightarrow> bool \<Rightarrow> string \<Rightarrow> Service option \<Rightarrow> URLTestGroup \<Rightarrow> nat result \<times> URLTestGroup" where
  "dialSelected env dial isExternal network selected g =
     (case (if selected = None then fst (Group_Select env network g) else selected) of
        None \<Rightarrow> (Inl (E_New [AStr ''missing supported outbound'']), g)
      | Some o' \<Rightarrow>
          (case dial o' of
             Inr conn \<Rightarrow> (Inr conn, g\<lparr>ug_interruptGroup := Group_NewConn conn isExternal (ug_interruptGroup g)\<rparr>)
           | Inl err \<Rightarrow> (Inl err, g\<lparr>ug_history := DeleteURLTestHistory (sv_Tag o') (ug_history g)\<rparr>)))"

text \<open>
  \<open>networkName\<close> is \<open>N.NetworkName\<close> of \<open>sing\<close>; the fallback selection uses the network as it was given.
  (\<open>E.Extend\<close> puts its message behind the cause and \<open>E.Cause\<close> before it, which the model does not distinguish.)
\<close>

definition URLTest_DialContext ::
  "GroupEnv \<Rightarrow> (string \<Rightarrow> string) \<Rightarrow> (Service \<Rightarrow> nat result) \<Rightarrow> int \<Rightarrow> bool \<Rightarrow> string \<Rightarrow> URLTestGroup \<Rightarrow> nat result \<times> URLTestGroup" where
  "URLTest_DialContext env networkName dial now isExternal network g0 =
     (let g = Group_Touch now g0
      in if networkName network = ''tcp'' then dialSelected env dial isExternal network (ug_selectedOutboundTCP g) g
         else if networkName network = ''udp'' then dialSelected env dial isExternal network (ug_selectedOutboundUDP g) g
         else (Inl (E_Cause (E_Lib ''unknown network'') [AStr network]), g))"

definition URLTest_ListenPacket ::
  "GroupEnv \<Rightarrow> (Service \<Rightarrow> nat result) \<Rightarrow> int \<Rightarrow> bool \<Rightarrow> URLTestGroup \<Rightarrow> nat result \<times> URLTestGroup" where
  "URLTest_ListenPacket env dial now isExternal g0 =
     (let g = Group_Touch now g0 in dialSelected env dial isExternal ''udp'' (ug_selectedOutboundUDP g) g)"

definition URLTest_NewDirectRouteConnection :: "GroupEnv \<Rightarrow> int \<Rightarrow> string \<Rightarrow> URLTestGroup \<Rightarrow> Service result \<times> URLTestGroup" where
  "URLTest_NewDirectRouteConnection env now network g0 =
     (let g = Group_Touch now g0
      in case (if ug_selectedOutboundTCP g = None then fst (Group_Select env ''tcp'' g) else ug_selectedOutboundTCP g) of
           None \<Rightarrow> (Inl (E_New [AStr ''missing supported outbound'']), g)
         | Some o' \<Rightarrow> (if network \<notin> set (ge_Network env o') then Inl (notSupported network o') else Inr o', g))"

section \<open>Runs of a group\<close>

text \<open>What can happen to a group: its methods, the halves of a test and the steps of its loops, in any order.\<close>

inductive groupStep :: "(string \<Rightarrow> Service option) \<Rightarrow> URLTestGroup \<Rightarrow> URLTestGroup \<Rightarrow> bool" for lookup where
  post_start: "groupStep lookup g (Group_PostStart now g)"
| dial: "groupStep lookup g (snd (URLTest_DialContext env networkName d now isExternal network g))"
| listen: "groupStep lookup g (snd (URLTest_ListenPacket env d now isExternal g))"
| direct: "groupStep lookup g (snd (URLTest_NewDirectRouteConnection env now network g))"
| closing: "Group_Close g = (None, g') \<Longrightarrow> groupStep lookup g g'"
| test_begin: "urlTestBegin g = Some g' \<Longrightarrow> groupStep lookup g g'"
| test_end: "ug_checking g \<Longrightarrow> urlTestEnd env lookup test now finished force g = (result, g', closed) \<Longrightarrow> groupStep lookup g g'"
| loop_begin: "0 < ug_entering g \<Longrightarrow> groupStep lookup g (loopBegin now g)"
| loop_tick: "0 < ug_waiting g \<Longrightarrow> loopTick now g = Inr g' \<Longrightarrow> groupStep lookup g g'"
| loop_closed: "0 < ug_waiting g \<Longrightarrow> ug_closed g \<Longrightarrow> groupStep lookup g (loopClosed g)"
| conn_closed: "groupStep lookup g (g\<lparr>ug_interruptGroup := Conn_Close conn (ug_interruptGroup g)\<rparr>)"

end
