(* ===== verification/Cache_Props.thy ===== *)
theory Cache_Props
  imports Cache_File
begin

text \<open>
  What the cache file keeps. The locale \<open>bolt\<close> has the documented behaviour of the database: what a
  successful operation does, which operations succeed, and that a transaction is committed as a
  whole or not at all; \<open>bolt_writes\<close> adds that the medium takes every commit. \<open>mapBolt\<close> is a
  database of nested maps, on which both are interpreted. The cache file over such a database meets
  the contract \<open>fakeip_storage\<close> of the fake-IP store.
\<close>

section \<open>The database\<close>

definition errBucketNotFound :: Error where
  "errBucketNotFound = E_Lib ''bucket not found''"

definition prefixPath :: "path \<Rightarrow> path \<Rightarrow> bool" where
  "prefixPath p q = (take (length p) q = p)"

definition goodKey :: "bytes \<Rightarrow> bool" where
  "goodKey k = (k \<noteq> [] \<and> length k \<le> 32768)"

definition goodValue :: "bytes \<Rightarrow> bool" where
  "goodValue v = (length v \<le> 2 ^ 31 - 2)"

locale bolt =
  fixes B :: "'db Bolt"
  assumes get_in_bucket: "bo_Get B db p k = Some v \<Longrightarrow> bo_Bucket B db p"
    and no_root_values: "bo_Get B db [] k = None"
    and put: "bo_Put B p k v db = Inr db' \<Longrightarrow>
      bo_Bucket B db' = bo_Bucket B db \<and> bo_Bucket B db p \<and>
      bo_Get B db' = (bo_Get B db)(p := (bo_Get B db p)(k \<mapsto> v))"
    and put_succeeds: "bo_Bucket B db p \<Longrightarrow> \<not> bo_Bucket B db (p @ [k]) \<Longrightarrow> goodKey k \<Longrightarrow> goodValue v \<Longrightarrow>
      \<exists>db'. bo_Put B p k v db = Inr db'"
    and delete: "bo_Delete B p k db = Inr db' \<Longrightarrow>
      bo_Bucket B db' = bo_Bucket B db \<and> bo_Get B db' = (bo_Get B db)(p := (bo_Get B db p)(k := None))"
    and delete_succeeds: "bo_Bucket B db p \<Longrightarrow> \<not> bo_Bucket B db (p @ [k]) \<Longrightarrow> \<exists>db'. bo_Delete B p k db = Inr db'"
    and create: "bo_CreateBucketIfNotExists B p db = Inr db' \<Longrightarrow>
      bo_Bucket B db' = (bo_Bucket B db)(p := True) \<and> bo_Get B db' = bo_Get B db"
    and create_succeeds: "q = [] \<or> bo_Bucket B db q \<Longrightarrow> goodKey k \<Longrightarrow> bo_Get B db q k = None \<Longrightarrow>
      \<exists>db'. bo_CreateBucketIfNotExists B (q @ [k]) db = Inr db'"
    and deleteBucket: "bo_DeleteBucket B p db = Inr db' \<Longrightarrow> bo_Bucket B db p \<and>
      bo_Bucket B db' = (\<lambda>q. bo_Bucket B db q \<and> \<not> prefixPath p q) \<and>
      bo_Get B db' = (\<lambda>q k. if prefixPath p q then None else bo_Get B db q k)"
    and deleteBucket_missing: "\<not> bo_Bucket B db p \<Longrightarrow> bo_DeleteBucket B p db = Inl errBucketNotFound"
    and deleteBucket_succeeds: "bo_Bucket B db p \<Longrightarrow> \<exists>db'. bo_DeleteBucket B p db = Inr db'"
    and rollback: "fn db = Inl e \<Longrightarrow> bo_Batch B fn db = (Some e, db)"
    and commit: "fn db = Inr db' \<Longrightarrow> bo_Batch B fn db = (None, db') \<or> (\<exists>e. bo_Batch B fn db = (Some e, db))"

text \<open>A medium on which every commit succeeds.\<close>

locale bolt_writes = bolt B for B :: "'db Bolt" +
  assumes committed: "fn db = Inr db' \<Longrightarrow> bo_Batch B fn db = (None, db')"

text \<open>The instance: a map from the paths of the buckets to their entries.\<close>

type_synonym mapDB = "path \<rightharpoonup> (bytes \<rightharpoonup> bytes)"

definition mapGet :: "mapDB \<Rightarrow> path \<Rightarrow> bytes \<Rightarrow> bytes option" where
  "mapGet db p k = (if p = [] then None else case db p of None \<Rightarrow> None | Some m \<Rightarrow> m k)"

definition mapBatch :: "(mapDB \<Rightarrow> mapDB result) \<Rightarrow> mapDB \<Rightarrow> Error option \<times> mapDB" where
  "mapBatch fn db = (case fn db of Inl e \<Rightarrow> (Some e, db) | Inr db' \<Rightarrow> (None, db'))"

definition mapPut :: "path \<Rightarrow> bytes \<Rightarrow> bytes \<Rightarrow> mapDB \<Rightarrow> mapDB result" where
  "mapPut p k v db =
     (if k = [] then Inl (E_Lib ''key required'') else if length k > 32768 then Inl (E_Lib ''key too large'')
      else if length v > 2 ^ 31 - 2 then Inl (E_Lib ''value too large'')
      else if p = [] then Inl errBucketNotFound
      else case db p of
             None \<Rightarrow> Inl errBucketNotFound
           | Some m \<Rightarrow> if db (p @ [k]) \<noteq> None then Inl (E_Lib ''incompatible value'') else Inr (db(p \<mapsto> m(k \<mapsto> v))))"

definition mapDelete :: "path \<Rightarrow> bytes \<Rightarrow> mapDB \<Rightarrow> mapDB result" where
  "mapDelete p k db =
     (case db p of
        None \<Rightarrow> Inl errBucketNotFound
      | Some m \<Rightarrow> if db (p @ [k]) \<noteq> None then Inl (E_Lib ''incompatible value'') else Inr (db(p \<mapsto> m(k := None))))"

definition mapCreate :: "path \<Rightarrow> mapDB \<Rightarrow> mapDB result" where
  "mapCreate p db =
     (if p = [] \<or> \<not> goodKey (last p) then Inl (E_Lib ''bucket name required'')
      else if butlast p \<noteq> [] \<and> db (butlast p) = None then Inl errBucketNotFound
      else if mapGet db (butlast p) (last p) \<noteq> None then Inl (E_Lib ''incompatible value'')
      else if db p \<noteq> None then Inr db else Inr (db(p \<mapsto> Map.empty)))"

definition mapDeleteBucket :: "path \<Rightarrow> mapDB \<Rightarrow> mapDB result" where
  "mapDeleteBucket p db =
     (if p = [] then Inl errBucketNotFound
      else case db p of None \<Rightarrow> Inl errBucketNotFound | Some _ \<Rightarrow> Inr (\<lambda>q. if prefixPath p q then None else db q))"


definition mapBolt :: "mapDB Bolt" where
  "mapBolt =
     \<lparr>bo_Bucket = \<lambda>db p. p \<noteq> [] \<and> db p \<noteq> None, bo_Get = mapGet, bo_Put = mapPut, bo_Delete = mapDelete,
      bo_CreateBucketIfNotExists = mapCreate, bo_DeleteBucket = mapDeleteBucket, bo_Batch = mapBatch,
      bo_Open = Some Map.empty\<rparr>"

lemma mapPut_laws:
  "mapPut p k v db = Inr db' \<Longrightarrow> p \<noteq> [] \<and> db p \<noteq> None \<and> dom db' = dom db \<and>
     mapGet db' = (mapGet db)(p := (mapGet db p)(k \<mapsto> v))"
  "p \<noteq> [] \<Longrightarrow> db p \<noteq> None \<Longrightarrow> db (p @ [k]) = None \<Longrightarrow> goodKey k \<Longrightarrow> goodValue v \<Longrightarrow> \<exists>db'. mapPut p k v db = Inr db'"
  by (auto simp: mapPut_def mapGet_def goodKey_def goodValue_def intro!: ext split: if_splits option.splits)

lemma mapDelete_laws:
  "mapDelete p k db = Inr db' \<Longrightarrow> dom db' = dom db \<and> mapGet db' = (mapGet db)(p := (mapGet db p)(k := None))"
  "db p \<noteq> None \<Longrightarrow> db (p @ [k]) = None \<Longrightarrow> \<exists>db'. mapDelete p k db = Inr db'"
  by (auto simp: mapDelete_def mapGet_def intro!: ext split: if_splits option.splits)

lemma mapCreate_laws:
  "mapCreate p db = Inr db' \<Longrightarrow> p \<noteq> [] \<and> dom db' = insert p (dom db) \<and> mapGet db' = mapGet db"
  "q = [] \<or> db q \<noteq> None \<Longrightarrow> goodKey k \<Longrightarrow> mapGet db q k = None \<Longrightarrow> \<exists>db'. mapCreate (q @ [k]) db = Inr db'"
  by (auto simp: mapCreate_def mapGet_def intro!: ext split: if_splits option.splits)

lemma mapDeleteBucket_laws:
  "mapDeleteBucket p db = Inr db' \<Longrightarrow> p \<noteq> [] \<and> db p \<noteq> None \<and> dom db' = dom db \<inter> {q. \<not> prefixPath p q} \<and>
     mapGet db' = (\<lambda>q k. if prefixPath p q then None else mapGet db q k)"
  by (auto simp: mapDeleteBucket_def mapGet_def intro!: ext split: if_splits option.splits)

interpretation mb: bolt_writes mapBolt
proof (unfold_locales, goal_cases)
  case (3 p k v db db')
  then show ?case using mapPut_laws(1) [of p k v db db'] by (auto simp: mapBolt_def fun_eq_iff)
next
  case (5 p k db db')
  then show ?case using mapDelete_laws(1) [of p k db db'] by (auto simp: mapBolt_def fun_eq_iff)
next
  case (7 p db db')
  then show ?case using mapCreate_laws(1) [of p db db'] by (auto simp: mapBolt_def fun_eq_iff)
next
  case (9 p db db')
  then show ?case using mapDeleteBucket_laws [of p db db'] by (auto simp: mapBolt_def fun_eq_iff)
next
  case (8 q db k)
  then show ?case using mapCreate_laws(2) [of q db k] by (auto simp: mapBolt_def)
qed (use mapPut_laws(2) mapDelete_laws(2) in
     \<open>auto simp: mapBolt_def mapGet_def mapBatch_def mapDeleteBucket_def split: option.splits if_splits\<close>)

section \<open>Transactions of the cache file\<close>

lemma cacheFile_DB [simp]:
  "hasBucket B (c\<lparr>cf_DB := db'\<rparr>) db key = hasBucket B c db key" "bucketPath (c\<lparr>cf_DB := db'\<rparr>) key = bucketPath c key"
  "modeKey (c\<lparr>cf_DB := db'\<rparr>) = modeKey c" "rdrcPath (c\<lparr>cf_DB := db'\<rparr>) t = rdrcPath c t"
  by (simp_all add: hasBucket_def bucketPath_def modeKey_def rdrcPath_def)

context bolt
begin

lemma batch_error: "fst (cf_batch B fn c) = Some e \<Longrightarrow> isPanic (fn (cf_DB c)) = None \<Longrightarrow> snd (cf_batch B fn c) = c"
  using rollback [of fn "cf_DB c"] commit [of fn "cf_DB c"]
  by (cases "fn (cf_DB c)") (auto simp: cf_batch_def split: prod.splits)

lemma batch_ok:
  assumes "fst (cf_batch B fn c) = None"
  obtains db' where "fn (cf_DB c) = Inr db'" and "snd (cf_batch B fn c) = c\<lparr>cf_DB := db'\<rparr>"
  using assms rollback [of fn "cf_DB c"] commit [of fn "cf_DB c"]
  by (cases "fn (cf_DB c)") (auto simp: cf_batch_def split: prod.splits option.splits)

lemma bucketPath_Nil: "bucketPath c key \<noteq> []"
  by (simp add: bucketPath_def split: option.splits)

lemma createBucket_ok:
  assumes "createBucket B c key db = Inr db'"
  shows "hasBucket B c db' key" and "bo_Get B db' = bo_Get B db"
    and "p \<noteq> bucketPath c key \<Longrightarrow> p \<noteq> butlast (bucketPath c key) \<Longrightarrow> bo_Bucket B db' p = bo_Bucket B db p"
  using assms create by (auto simp: createBucket_def hasBucket_def bucketPath_def split: option.splits)

text \<open>Writing one entry of a bucket of the cache file, and reading it back.\<close>

lemma entry_written:
  assumes "fst (cf_batch B (\<lambda>db. bindE (createBucket B c key db) (bo_Put B (bucketPath c key) k v)) c) = None"
  shows "\<exists>db'. snd (cf_batch B (\<lambda>db. bindE (createBucket B c key db) (bo_Put B (bucketPath c key) k v)) c) = c\<lparr>cf_DB := db'\<rparr> \<and>
    hasBucket B c db' key \<and>
    bo_Get B db' = (bo_Get B (cf_DB c))(bucketPath c key := (bo_Get B (cf_DB c) (bucketPath c key))(k \<mapsto> v)) \<and>
    (\<forall>p. p \<noteq> bucketPath c key \<longrightarrow> p \<noteq> butlast (bucketPath c key) \<longrightarrow> bo_Bucket B db' p = bo_Bucket B (cf_DB c) p)"
proof -
  obtain db' where db': "bindE (createBucket B c key (cf_DB c)) (bo_Put B (bucketPath c key) k v) = Inr db'"
    and c': "snd (cf_batch B (\<lambda>db. bindE (createBucket B c key db) (bo_Put B (bucketPath c key) k v)) c) = c\<lparr>cf_DB := db'\<rparr>"
    using batch_ok [OF assms] by blast
  then obtain db1 where db1: "createBucket B c key (cf_DB c) = Inr db1" "bo_Put B (bucketPath c key) k v db1 = Inr db'"
    by auto
  note cr = createBucket_ok [OF db1(1)] and pu = put [OF db1(2)]
  have "hasBucket B c db' key" using cr(1) pu by (simp add: hasBucket_def split: option.splits)
  then show ?thesis using c' cr pu by auto
qed

end

lemma good_keys: "goodKey bucketSelected" "goodKey bucketExpand" "goodKey bucketMode" "goodKey bucketRuleSet" "goodKey bucketRDRC"
  "goodKey bucketFakeIP" "goodKey bucketFakeIPDomain4" "goodKey bucketFakeIPDomain6" "goodKey keyMetadata"
  by (simp_all add: goodKey_def bucketSelected_def bucketExpand_def bucketMode_def bucketRuleSet_def bucketRDRC_def
      bucketFakeIP_def bucketFakeIPDomain4_def bucketFakeIPDomain6_def keyMetadata_def)

lemma isPanic_Inr [simp]: "isPanic (Inr x) = None"
  by simp

context bolt_writes
begin

lemma batch_commits: "fn (cf_DB c) = Inr db' \<Longrightarrow> cf_batch B fn c = (None, c\<lparr>cf_DB := db'\<rparr>)"
  by (simp add: cf_batch_def committed)

lemma entry_into_empty:
  assumes "\<And>q. \<not> bo_Bucket B (cf_DB c) q" and "\<And>q k. bo_Get B (cf_DB c) q k = None"
    and "goodKey key" and "goodKey k" and "goodValue v" and "\<And>i. cf_cacheID c = Some i \<Longrightarrow> goodKey i"
  shows "fst (cf_batch B (\<lambda>db. bindE (createBucket B c key db) (bo_Put B (bucketPath c key) k v)) c) = None"
proof -
  have "\<exists>db1. createBucket B c key (cf_DB c) = Inr db1"
  proof (cases "cf_cacheID c")
    case None
    then show ?thesis using create_succeeds [of "[]" "cf_DB c" key] assms by (auto simp: createBucket_def)
  next
    case (Some i)
    then obtain db0 where db0: "bo_CreateBucketIfNotExists B [i] (cf_DB c) = Inr db0"
      using create_succeeds [of "[]" "cf_DB c" i] assms by auto
    then show ?thesis using create_succeeds [of "[i]" db0 key] create [OF db0] assms(2,3) Some
      by (auto simp: createBucket_def)
  qed
  then obtain db1 where db1: "createBucket B c key (cf_DB c) = Inr db1" by auto
  have "bo_Bucket B db1 (bucketPath c key)"
    using createBucket_ok(1) [OF db1] by (auto simp: hasBucket_def bucketPath_def split: option.splits)
  moreover have "\<not> bo_Bucket B db1 (bucketPath c key @ [k])"
    using createBucket_ok(3) [OF db1, of "bucketPath c key @ [k]"] assms(1)
    by (auto simp: bucketPath_def split: option.splits)
  ultimately obtain db2 where "bo_Put B (bucketPath c key) k v db1 = Inr db2"
    using put_succeeds [OF _ _ assms(4,5)] by blast
  then show ?thesis using db1 by (simp add: batch_commits)
qed

end


section \<open>Rule-sets\<close>

text \<open>
  A rule-set that was saved without an error is loaded with its content, its tag and its time to
  the second, whatever else was in the cache file; the database is only assumed to do what it
  documents.
\<close>

theorem saved_rule_set_is_loaded:
  assumes "bolt B" and "writesUvarint writeUvarint" and "savable s"
    and "SaveRuleSet B writeUvarint tag s c = (None, c')"
  shows "\<exists>s'. LoadRuleSet B tag c' = (Some s', c') \<and> sb_Content s' = sb_Content s \<and> sb_LastEtag s' = sb_LastEtag s \<and>
    unixSeconds (sb_LastUpdated s') = unixSeconds (sb_LastUpdated s)"
proof -
  note rt = SavedBinary_round_trip [OF assms(2,3)]
  have ne: "SavedBinary_MarshalBinary writeUvarint s \<noteq> []" by (simp add: SavedBinary_MarshalBinary_def)
  from bolt.entry_written [OF assms(1), of c bucketRuleSet "bytesOf tag" "SavedBinary_MarshalBinary writeUvarint s"]
  obtain db' where "c' = c\<lparr>cf_DB := db'\<rparr>" "hasBucket B c db' bucketRuleSet"
    "bo_Get B db' (bucketPath c bucketRuleSet) (bytesOf tag) = Some (SavedBinary_MarshalBinary writeUvarint s)"
    using assms(4) by (auto simp: SaveRuleSet_def)
  then show ?thesis using rt ne
    by (auto simp: LoadRuleSet_def cf_view_def unixSeconds_timeUnix)
qed


theorem saved_rule_set_is_loaded_witness:
  "\<exists>c' s'. SaveRuleSet mapBolt putUvarint ''geo''
      \<lparr>sb_Content = ''abc'', sb_LastUpdated = Some 1500000000, sb_LastEtag = ''e''\<rparr>
      (CacheFile_New \<lparr>co_CacheID = ''id'', co_StoreFakeIP = True, co_StoreRDRC = True, co_RDRCTimeout = 0\<rparr> Map.empty) = (None, c') \<and>
    LoadRuleSet mapBolt ''geo'' c' = (Some s', c') \<and> sb_Content s' = ''abc'' \<and> unixSeconds (sb_LastUpdated s') = 1"
proof -
  let ?s = "\<lparr>sb_Content = ''abc'', sb_LastUpdated = Some 1500000000, sb_LastEtag = ''e''\<rparr>"
  let ?c = "CacheFile_New \<lparr>co_CacheID = ''id'', co_StoreFakeIP = True, co_StoreRDRC = True, co_RDRCTimeout = 0\<rparr> Map.empty"
  have w: "writesUvarint putUvarint" by (simp add: writesUvarint_def readUvarint_putUvarint)
  have s: "savable ?s" by (simp add: savable_def unixSeconds_def)
  have b: "bolt mapBolt" by (rule mb.bolt_axioms)
  have "fst (SaveRuleSet mapBolt putUvarint ''geo'' ?s ?c) = None"
    unfolding SaveRuleSet_def using good_keys(4)
    by (intro mb.entry_into_empty) (auto simp: goodKey_def SavedBinary_MarshalBinary_def CacheFile_New_def mapBolt_def
        mapGet_def goodValue_def putUvarint.simps)
  then obtain c' where "SaveRuleSet mapBolt putUvarint ''geo'' ?s ?c = (None, c')" by (metis prod.collapse)
  with saved_rule_set_is_loaded [OF b w s, of "''geo''" ?c] show ?thesis by (fastforce simp: unixSeconds_def)
qed

section \<open>Cache ids\<close>

lemma hd_bucket [simp]:
  "bucketSelected \<noteq> 0 # i" "bucketExpand \<noteq> 0 # i" "bucketRuleSet \<noteq> 0 # i" "bucketMode \<noteq> 0 # i" "cacheIDDefault \<noteq> 0 # i"
  "0 # i \<noteq> bucketSelected" "0 # i \<noteq> bucketExpand" "0 # i \<noteq> bucketRuleSet" "0 # i \<noteq> bucketMode" "0 # i \<noteq> cacheIDDefault"
  by (auto simp: bucketSelected_def bucketExpand_def bucketRuleSet_def bucketMode_def cacheIDDefault_def bytesOf_def)

lemma bucket_names [simp]: "bucketMode \<noteq> bucketSelected" "bucketMode \<noteq> bucketExpand" "bucketMode \<noteq> bucketRuleSet"
  "bucketSelected \<noteq> bucketMode" "bucketExpand \<noteq> bucketMode" "bucketRuleSet \<noteq> bucketMode"
  by (simp_all add: bucketMode_def bucketSelected_def bucketExpand_def bucketRuleSet_def)

text \<open>What the loads of a cache file read of the database.\<close>

definition sameView :: "'db Bolt \<Rightarrow> 'db CacheFile \<Rightarrow> 'db \<Rightarrow> 'db \<Rightarrow> bool" where
  "sameView B d db db' =
     ((\<forall>key \<in> {bucketSelected, bucketExpand, bucketRuleSet}.
         hasBucket B d db' key = hasBucket B d db key \<and>
         bo_Get B db' (bucketPath d key) = bo_Get B db (bucketPath d key)) \<and>
      bo_Get B db' [bucketMode] (modeKey d) = bo_Get B db [bucketMode] (modeKey d) \<and>
      (bo_Bucket B db [bucketMode] \<longrightarrow> bo_Bucket B db' [bucketMode]))"

context bolt
begin

lemma sameView_loads:
  assumes "sameView B d (cf_DB d) db'"
  shows "LoadSelected B (d\<lparr>cf_DB := db'\<rparr>) g = LoadSelected B d g"
    and "LoadGroupExpand B (d\<lparr>cf_DB := db'\<rparr>) g = LoadGroupExpand B d g"
    and "fst (LoadRuleSet B g (d\<lparr>cf_DB := db'\<rparr>)) = fst (LoadRuleSet B g d)"
    and "LoadMode B (d\<lparr>cf_DB := db'\<rparr>) = LoadMode B d"
  using assms get_in_bucket [of "cf_DB d" "[bucketMode]" "modeKey d"]
  by (auto simp: sameView_def LoadSelected_def LoadGroupExpand_def LoadRuleSet_def LoadMode_def cf_view_def
      split: option.splits sum.splits)

lemma entry_sameView:
  assumes "key \<in> {bucketSelected, bucketExpand, bucketRuleSet}"
    and "cf_batch B (\<lambda>db. bindE (createBucket B c key db) (bo_Put B (bucketPath c key) k v)) c = (None, c')"
    and "cf_cacheID c = map_option (Cons 0) i" and "cf_cacheID d = map_option (Cons 0) j" and "i \<noteq> j"
  shows "sameView B d (cf_DB c) (cf_DB c')"
  using entry_written [of c key k v] assms
  by (cases i; cases j) (auto simp: sameView_def bucketPath_def hasBucket_def)

lemma mode_sameView:
  assumes "StoreMode B mode c = (None, c')"
    and "cf_cacheID c = map_option (Cons 0) i" and "cf_cacheID d = map_option (Cons 0) j" and "i \<noteq> j"
  shows "sameView B d (cf_DB c) (cf_DB c')"
proof -
  obtain db' where "bindE (bo_CreateBucketIfNotExists B [bucketMode] (cf_DB c)) (bo_Put B [bucketMode] (modeKey c) (bytesOf mode)) = Inr db'"
    and c': "c' = c\<lparr>cf_DB := db'\<rparr>"
    by (rule batch_ok [of "\<lambda>db. bindE (bo_CreateBucketIfNotExists B [bucketMode] db) (bo_Put B [bucketMode] (modeKey c) (bytesOf mode))" c])
      (use assms(1) in \<open>simp_all add: StoreMode_def\<close>)
  then obtain db1 where db1: "bo_CreateBucketIfNotExists B [bucketMode] (cf_DB c) = Inr db1"
    "bo_Put B [bucketMode] (modeKey c) (bytesOf mode) db1 = Inr db'" by auto
  then show ?thesis using put [OF db1(2)] create [OF db1(1)] c' assms(2-4)
    by (cases i; cases j) (auto simp: sameView_def hasBucket_def bucketPath_def modeKey_def)
qed

end


text \<open>
  Cache files with different cache ids (or with and without one) keep their selections, expanded
  groups, modes and rule-sets apart: what is stored under one id is not seen under the other.
\<close>

theorem cache_ids_are_separate:
  assumes "bolt B" and "cf_cacheID c = map_option (Cons 0) i" and "cf_cacheID d = map_option (Cons 0) j" and "i \<noteq> j"
    and "cf_DB d = cf_DB c"
    and "write \<in> {StoreSelected B x y, StoreGroupExpand B x z, SaveRuleSet B writeUvarint x s, StoreMode B x}"
    and "write c = (None, c')"
  shows "LoadSelected B (d\<lparr>cf_DB := cf_DB c'\<rparr>) g = LoadSelected B d g \<and>
    LoadGroupExpand B (d\<lparr>cf_DB := cf_DB c'\<rparr>) g = LoadGroupExpand B d g \<and>
    fst (LoadRuleSet B g (d\<lparr>cf_DB := cf_DB c'\<rparr>)) = fst (LoadRuleSet B g d) \<and>
    LoadMode B (d\<lparr>cf_DB := cf_DB c'\<rparr>) = LoadMode B d"
proof -
  have "sameView B d (cf_DB d) (cf_DB c')"
    using bolt.mode_sameView [OF assms(1) _ assms(2,3,4)] assms(5,6,7)
      bolt.entry_sameView [OF assms(1) _ _ assms(2,3,4), of bucketSelected "bytesOf x" "bytesOf y" c']
      bolt.entry_sameView [OF assms(1) _ _ assms(2,3,4), of bucketExpand "bytesOf x" "[if z then 1 else 0]" c']
      bolt.entry_sameView [OF assms(1) _ _ assms(2,3,4), of bucketRuleSet "bytesOf x" "SavedBinary_MarshalBinary writeUvarint s" c']
    by (auto simp: StoreSelected_def StoreGroupExpand_def SaveRuleSet_def)
  then show ?thesis by (simp add: bolt.sameView_loads [OF assms(1)])
qed


definition newCacheFile :: "string \<Rightarrow> 'db \<Rightarrow> 'db CacheFile" where
  "newCacheFile i = CacheFile_New \<lparr>co_CacheID = i, co_StoreFakeIP = True, co_StoreRDRC = True, co_RDRCTimeout = 0\<rparr>"

theorem cache_ids_are_separate_witness:
  "\<exists>c'. StoreSelected mapBolt ''group'' ''proxy'' (newCacheFile ''a'' Map.empty) = (None, c') \<and>
     LoadSelected mapBolt (newCacheFile '''' (cf_DB c')) ''group'' = LoadSelected mapBolt (newCacheFile '''' Map.empty) ''group''"
proof -
  let ?c = "newCacheFile ''a'' (Map.empty :: mapDB)" and ?d = "newCacheFile '''' (Map.empty :: mapDB)"
  have i: "cf_cacheID ?c = map_option (Cons 0) (Some (bytesOf ''a''))" "cf_cacheID ?d = map_option (Cons 0) None"
    by (simp_all add: newCacheFile_def CacheFile_New_def)
  have "fst (StoreSelected mapBolt ''group'' ''proxy'' ?c) = None"
    unfolding StoreSelected_def using good_keys(1)
    by (intro mb.entry_into_empty) (auto simp: goodKey_def newCacheFile_def CacheFile_New_def mapBolt_def mapGet_def goodValue_def)
  then obtain c' where c': "StoreSelected mapBolt ''group'' ''proxy'' ?c = (None, c')" by (metis prod.collapse)
  have "LoadSelected mapBolt (?d\<lparr>cf_DB := cf_DB c'\<rparr>) ''group'' = LoadSelected mapBolt ?d ''group''"
    using cache_ids_are_separate [OF mb.bolt_axioms i, of "StoreSelected mapBolt ''group'' ''proxy''" "''group''" "''proxy''"] c'
    by (auto simp: newCacheFile_def CacheFile_New_def)
  then show ?thesis using c' by (auto simp: newCacheFile_def CacheFile_New_def)
qed


section \<open>The cache file as a storage of fake addresses\<close>

lemma readElement_element: "length e < 65536 \<Longrightarrow> readElement (element e @ r) = Inr (e, r)"
  by (simp add: readElement_def element_def bigEndian_bytesOfNat del: bytesOfNat.simps)

lemma FakeIPMetadata_round_trip:
  assumes "properPrefix (fm_Inet4Range m)" and "properPrefix (fm_Inet6Range m)"
  shows "FakeIPMetadata_UnmarshalBinary (FakeIPMetadata_MarshalBinary m) = Inr m"
proof -
  have "length (prefixMarshal p) < 65536" "length (addrAsSlice a) < 65536" for p a
    by (simp_all add: prefixMarshal_def addrAsSlice_length split: Addr.splits)
  moreover have "addrUnmarshal (addrAsSlice a) = Inr a" for a by (simp add: addrUnmarshal_def)
  moreover have "readElement (element e) = Inr (e, [])" if "length e < 65536" for e
    using readElement_element [OF that, of "[]"] by simp
  ultimately show ?thesis
    using prefixUnmarshal_marshal [OF assms(1)] prefixUnmarshal_marshal [OF assms(2)]
    by (simp add: FakeIPMetadata_UnmarshalBinary_def FakeIPMetadata_MarshalBinary_def readElement_element del: bindE_Inr_iff)
qed

text \<open>
  The invariant of the buckets: no nested buckets, no empty domain, and the two directions inverse to
  each other; no write is under way.
\<close>

definition storableDomain :: "string \<Rightarrow> bool" where
  "storableDomain d = goodKey (bytesOf d)"

definition buckets6 :: "bool \<Rightarrow> path" where
  "buckets6 v6 = [if v6 then bucketFakeIPDomain6 else bucketFakeIPDomain4]"

definition cacheOk :: "'db Bolt \<Rightarrow> 'db CacheFile \<Rightarrow> bool" where
  "cacheOk B c =
     (cf_saveDomain c = Map.empty \<and> cf_saveAddress4 c = Map.empty \<and> cf_saveAddress6 c = Map.empty \<and>
      (\<forall>k. \<not> bo_Bucket B (cf_DB c) [bucketFakeIP, k]) \<and> (\<forall>v6 k. \<not> bo_Bucket B (cf_DB c) (buckets6 v6 @ [k])) \<and>
      bo_Get B (cf_DB c) [bucketFakeIP] [] = None \<and>
      (\<forall>a k. addrIsValid a \<longrightarrow> bo_Get B (cf_DB c) [bucketFakeIP] (addrAsSlice a) = Some k \<longrightarrow>
         goodKey k \<and> bo_Get B (cf_DB c) (buckets6 (\<not> addrIs4 a)) k = Some (addrAsSlice a)) \<and>
      (\<forall>v6 k v. bo_Get B (cf_DB c) (buckets6 v6) k = Some v \<longrightarrow>
         (\<exists>a. v = addrAsSlice a \<and> addrIsValid a \<and> addrIs4 a = (\<not> v6) \<and>
              bo_Get B (cf_DB c) [bucketFakeIP] (addrAsSlice a) = Some k)))"

lemma cacheOk_empty: "cacheOk B c \<Longrightarrow> cf_saveDomain c = Map.empty \<and> cf_saveAddress4 c = Map.empty \<and> cf_saveAddress6 c = Map.empty"
  and cacheOk_flat: "cacheOk B c \<Longrightarrow> \<not> bo_Bucket B (cf_DB c) [bucketFakeIP, k] \<and> \<not> bo_Bucket B (cf_DB c) (buckets6 v6 @ [k])"
  and cacheOk_nil: "cacheOk B c \<Longrightarrow> bo_Get B (cf_DB c) [bucketFakeIP] [] = None"
  and cacheOk_address: "cacheOk B c \<Longrightarrow> addrIsValid a \<Longrightarrow> bo_Get B (cf_DB c) [bucketFakeIP] (addrAsSlice a) = Some k \<Longrightarrow>
     goodKey k \<and> bo_Get B (cf_DB c) (buckets6 (\<not> addrIs4 a)) k = Some (addrAsSlice a)"
  and cacheOk_domain: "cacheOk B c \<Longrightarrow> bo_Get B (cf_DB c) (buckets6 v6) k = Some v \<Longrightarrow>
     \<exists>a. v = addrAsSlice a \<and> addrIsValid a \<and> addrIs4 a = (\<not> v6) \<and> bo_Get B (cf_DB c) [bucketFakeIP] (addrAsSlice a) = Some k"
  unfolding cacheOk_def by blast+

lemma fake_buckets [simp]:
  "bucketFakeIP \<noteq> bucketFakeIPDomain4" "bucketFakeIP \<noteq> bucketFakeIPDomain6" "bucketFakeIPDomain4 \<noteq> bucketFakeIPDomain6"
  "bucketFakeIPDomain4 \<noteq> bucketFakeIP" "bucketFakeIPDomain6 \<noteq> bucketFakeIP" "bucketFakeIPDomain6 \<noteq> bucketFakeIPDomain4"
  by (simp_all add: bucketFakeIP_def bucketFakeIPDomain4_def bucketFakeIPDomain6_def)

lemma buckets6_simps [simp]: "buckets6 v = buckets6 w \<longleftrightarrow> v = w" "buckets6 v \<noteq> [bucketFakeIP]" "[bucketFakeIP] \<noteq> buckets6 v"
  by (auto simp: buckets6_def)

lemma domainBucket_6: "domainBucket a = buckets6 (\<not> addrIs4 a)"
  by (simp add: domainBucket_def buckets6_def)

lemma key_not_address: "addrAsSlice a \<noteq> keyMetadata"
proof
  assume "addrAsSlice a = keyMetadata"
  then have "length (addrAsSlice a) = length keyMetadata" by simp
  then show False by (simp add: addrAsSlice_length keyMetadata_def split: Addr.splits)
qed

lemma goodKey_address: "addrIsValid a \<Longrightarrow> goodKey (addrAsSlice a)" and goodValue_address: "goodValue (addrAsSlice a)"
  using addrAsSlice_length [of a] by (cases a; auto simp: goodKey_def goodValue_def)+

lemma goodValue_key: "goodKey k \<Longrightarrow> goodValue k"
  by (simp add: goodKey_def goodValue_def)

lemma option_ext: "(\<And>y. x = Some y \<longleftrightarrow> z = Some y) \<Longrightarrow> x = z"
  by (metis not_Some_eq)

locale cache_db = bolt_writes B for B :: "'db Bolt" +
  fixes dl :: DnsLib
  assumes addr_from_ip: "dl_AddrFromIP dl (addrAsSlice a) = a"
begin

lemma load_iff:
  assumes "cacheOk B c"
  shows "CF_FakeIPLoad B c a = Some d \<longleftrightarrow> addrIsValid a \<and> bo_Get B (cf_DB c) [bucketFakeIP] (addrAsSlice a) = Some (bytesOf d)"
proof (cases "addrIsValid a")
  case True
  have k: "k \<noteq> [] \<and> bo_Bucket B (cf_DB c) [bucketFakeIP]" if "bo_Get B (cf_DB c) [bucketFakeIP] (addrAsSlice a) = Some k" for k
    using cacheOk_address [OF assms True that] get_in_bucket [OF that] by (simp add: goodKey_def)
  have s: "stringOf k = d \<longleftrightarrow> k = bytesOf d" for k by auto
  have c: "cf_saveDomain c a = None" using cacheOk_empty [OF assms] by simp
  show ?thesis
    using k True s c by (cases "bo_Get B (cf_DB c) [bucketFakeIP] (addrAsSlice a)")
      (auto simp: CF_FakeIPLoad_def Let_def stringOf_def)
next
  case False
  then have "a = AddrNone" by (cases a) auto
  then show ?thesis using cacheOk_empty [OF assms] cacheOk_nil [OF assms] by (simp add: CF_FakeIPLoad_def Let_def)
qed

lemma load_domain_iff:
  assumes "cacheOk B c"
  shows "CF_FakeIPLoadDomain B dl c d v6 = Some a \<longleftrightarrow>
    addrIsValid a \<and> bo_Get B (cf_DB c) (buckets6 v6) (bytesOf d) = Some (addrAsSlice a)"
proof (cases "bo_Get B (cf_DB c) (buckets6 v6) (bytesOf d)")
  case None
  moreover have "dl_AddrFromIP dl [] = AddrNone" using addr_from_ip [of AddrNone] by simp
  ultimately show ?thesis using cacheOk_empty [OF assms]
    by (auto simp: CF_FakeIPLoadDomain_def buckets6_def Let_def)
next
  case (Some v)
  then obtain b where "v = addrAsSlice b" "addrIsValid b" using cacheOk_domain [OF assms] by blast
  then show ?thesis using cacheOk_empty [OF assms] Some get_in_bucket [OF Some] addr_from_ip [of b]
    by (auto simp: CF_FakeIPLoadDomain_def buckets6_def Let_def)
qed

text \<open>The transaction of \<open>FakeIPStore\<close> for a domain that has no address yet.\<close>

lemma store_effect:
  assumes ok: "cacheOk B c" and a: "addrIsValid a" and d: "goodKey d"
  shows "\<exists>db'. storeTx B a (stringOf d) (cf_DB c) = Inr db' \<and>
    bo_Bucket B db' = (bo_Bucket B (cf_DB c))([bucketFakeIP] := True, buckets6 (\<not> addrIs4 a) := True) \<and>
    bo_Get B db' = (bo_Get B (cf_DB c))
      ([bucketFakeIP] := (bo_Get B (cf_DB c) [bucketFakeIP])(addrAsSlice a \<mapsto> d),
       buckets6 (\<not> addrIs4 a) := (case bo_Get B (cf_DB c) [bucketFakeIP] (addrAsSlice a) of
           None \<Rightarrow> bo_Get B (cf_DB c) (buckets6 (\<not> addrIs4 a))
         | Some old \<Rightarrow> (bo_Get B (cf_DB c) (buckets6 (\<not> addrIs4 a)))(old := None))(d \<mapsto> addrAsSlice a))"
proof -
  let ?db = "cf_DB c" and ?p = "buckets6 (\<not> addrIs4 a)"
  have g: "goodKey bucketFakeIP" "?p = [] @ ?p" "goodKey (hd ?p)" using good_keys by (simp_all add: buckets6_def)
  obtain db1 where 1: "bo_CreateBucketIfNotExists B [bucketFakeIP] ?db = Inr db1"
    using create_succeeds [of "[]" ?db bucketFakeIP] g no_root_values by auto
  note e1 = create [OF 1]
  note n = cacheOk_flat [OF ok]
  have n1: "\<not> bo_Bucket B db1 ([bucketFakeIP] @ [k])" for k using e1 n by simp
  obtain db2 where 2: "bo_Put B [bucketFakeIP] (addrAsSlice a) d db1 = Inr db2"
    using put_succeeds [of db1 "[bucketFakeIP]" "addrAsSlice a" d] e1 n1 goodKey_address [OF a] goodValue_key [OF d] by auto
  note e2 = put [OF 2]
  obtain db3 where 3: "bo_CreateBucketIfNotExists B ?p db2 = Inr db3"
    using create_succeeds [of "[]" db2 "hd ?p"] g no_root_values by (auto simp: buckets6_def)
  note e3 = create [OF 3]
  have n3: "\<not> bo_Bucket B db3 (?p @ [k])" for k
    using e1 e2 e3 n [of k "\<not> addrIs4 a"] by (simp add: buckets6_def)
  let ?old = "bo_Get B ?db [bucketFakeIP] (addrAsSlice a)"
  obtain db4 where 4: "(case ?old of None \<Rightarrow> Inr db3 | Some old \<Rightarrow> bo_Delete B ?p old db3) = Inr db4"
    and e4: "bo_Bucket B db4 = bo_Bucket B db3"
      "bo_Get B db4 = (bo_Get B db3)(?p := (case ?old of None \<Rightarrow> bo_Get B db3 ?p | Some old \<Rightarrow> (bo_Get B db3 ?p)(old := None)))"
  proof (cases ?old)
    case None
    then show ?thesis using that [of db3] by simp
  next
    case (Some old)
    then obtain db4 where "bo_Delete B ?p old db3 = Inr db4"
      using delete_succeeds [of db3 ?p old] n3 e3 by auto
    then show ?thesis using that [of db4] delete Some by auto
  qed
  obtain db5 where 5: "bo_Put B ?p d (addrAsSlice a) db4 = Inr db5"
    using put_succeeds [of db4 ?p d "addrAsSlice a"] e4 e3 n3 d goodValue_address by auto
  note e5 = put [OF 5]
  have "storeTx B a (stringOf d) ?db = Inr db5"
    unfolding storeTx_def domainBucket_6 using 1 2 3 4 5 e1 by (simp add: Let_def)
  moreover have "bo_Bucket B db5 = (bo_Bucket B ?db)([bucketFakeIP] := True, ?p := True)"
    using e1 e2 e3 e4(1) e5 by simp
  ultimately show ?thesis using e1 e2 e3 e4(2) e5 by (intro exI [of _ db5]) (simp split: option.split)
qed

lemma store_ok:
  assumes ok: "cacheOk B c" and a: "addrIsValid a" and d: "storableDomain d"
    and new: "bo_Get B (cf_DB c) (buckets6 (\<not> addrIs4 a)) (bytesOf d) = None"
  shows "\<exists>c'. CF_FakeIPStore B a d c = (None, c') \<and> cacheOk B c' \<and> CF_FakeIPLoad B c' = (CF_FakeIPLoad B c)(a \<mapsto> d)"
proof -
  let ?p = "buckets6 (\<not> addrIs4 a)" and ?old = "bo_Get B (cf_DB c) [bucketFakeIP] (addrAsSlice a)"
  from store_effect [OF ok a d [unfolded storableDomain_def]] obtain db' where tx: "storeTx B a d (cf_DB c) = Inr db'"
    and bu: "bo_Bucket B db' = (bo_Bucket B (cf_DB c))([bucketFakeIP] := True, ?p := True)"
    and ge: "bo_Get B db' = (bo_Get B (cf_DB c))([bucketFakeIP] := (bo_Get B (cf_DB c) [bucketFakeIP])(addrAsSlice a \<mapsto> bytesOf d),
       ?p := (case ?old of None \<Rightarrow> bo_Get B (cf_DB c) ?p | Some old \<Rightarrow> (bo_Get B (cf_DB c) ?p)(old := None))(bytesOf d \<mapsto> addrAsSlice a))"
    by auto
  have ad: "goodKey k \<and> bo_Get B db' (buckets6 (\<not> addrIs4 b)) k = Some (addrAsSlice b)"
    if "addrIsValid b" "bo_Get B db' [bucketFakeIP] (addrAsSlice b) = Some k" for b k
  proof (cases "b = a")
    case True
    then show ?thesis using that ge d by (simp add: storableDomain_def)
  next
    case False
    then have k: "bo_Get B (cf_DB c) [bucketFakeIP] (addrAsSlice b) = Some k" using that(2) ge by simp
    note kb = cacheOk_address [OF ok that(1) k]
    have "?old = Some k \<Longrightarrow> (\<not> addrIs4 a) \<noteq> (\<not> addrIs4 b)"
      using cacheOk_address [OF ok a, of k] kb False by (cases "addrIs4 a"; cases "addrIs4 b") auto
    then show ?thesis using kb ge new by (auto split: option.splits)
  qed
  have dm: "\<exists>b. v = addrAsSlice b \<and> addrIsValid b \<and> addrIs4 b = (\<not> v6) \<and> bo_Get B db' [bucketFakeIP] (addrAsSlice b) = Some k"
    if "bo_Get B db' (buckets6 v6) k = Some v" for v6 k v
  proof (cases "v6 = (\<not> addrIs4 a) \<and> k = bytesOf d")
    case True
    then show ?thesis using that ge a by auto
  next
    case False
    then have o: "bo_Get B (cf_DB c) (buckets6 v6) k = Some v" "v6 = (\<not> addrIs4 a) \<Longrightarrow> ?old \<noteq> Some k"
      using that ge by (auto split: option.splits if_splits)
    from cacheOk_domain [OF ok o(1)] obtain b where b: "v = addrAsSlice b" "addrIsValid b" "addrIs4 b = (\<not> v6)"
      "bo_Get B (cf_DB c) [bucketFakeIP] (addrAsSlice b) = Some k" by auto
    then have "b \<noteq> a" using o(2) by auto
    then show ?thesis using b ge by auto
  qed
  have nil: "bo_Get B db' [bucketFakeIP] [] = None"
    using ge cacheOk_nil [OF ok] a goodKey_address [OF a] by (auto simp: goodKey_def)
  have flat: "\<not> bo_Bucket B db' [bucketFakeIP, k]" "\<not> bo_Bucket B db' (buckets6 v6 @ [k])" for k v6
    using bu cacheOk_flat [OF ok] by (auto simp: buckets6_def)
  have c': "cacheOk B (c\<lparr>cf_DB := db'\<rparr>)"
    unfolding cacheOk_def using cacheOk_empty [OF ok] ad dm nil flat by simp
  have "CF_FakeIPLoad B (c\<lparr>cf_DB := db'\<rparr>) b = ((CF_FakeIPLoad B c)(a \<mapsto> d)) b" for b
    using load_iff [OF c', of b] load_iff [OF ok, of b] ge a by (intro option_ext) auto
  then show ?thesis using c' batch_commits [of "storeTx B a d" c, OF tx] by (auto simp: CF_FakeIPStore_def)
qed

text \<open>A successful reset removes every fake address.\<close>

lemma reset_ok:
  assumes "cacheOk B c" and "CF_FakeIPReset B c = (None, c')"
  shows "cacheOk B c' \<and> CF_FakeIPLoad B c' = Map.empty"
proof -
  obtain db' where tx: "resetTx B (cf_DB c) = Inr db'" and c': "c' = c\<lparr>cf_DB := db'\<rparr>"
    using batch_ok [of "resetTx B" c] assms(2) by (auto simp: CF_FakeIPReset_def)
  then obtain db1 db2 where d: "bo_DeleteBucket B [bucketFakeIP] (cf_DB c) = Inr db1"
    "bo_DeleteBucket B [bucketFakeIPDomain4] db1 = Inr db2" "bo_DeleteBucket B [bucketFakeIPDomain6] db2 = Inr db'"
    by (auto simp: resetTx_def)
  note e = deleteBucket [OF d(1)] deleteBucket [OF d(2)] deleteBucket [OF d(3)]
  have g: "bo_Get B db' [bucketFakeIP] k = None" "bo_Get B db' (buckets6 v6) k = None"
    "\<not> bo_Bucket B db' [bucketFakeIP, k]" "\<not> bo_Bucket B db' (buckets6 v6 @ [k])" for k v6
    using e by (simp_all add: prefixPath_def buckets6_def)
  then have ok: "cacheOk B c'" using c' cacheOk_empty [OF assms(1)] by (simp add: cacheOk_def)
  moreover have "CF_FakeIPLoad B c' a = None" for a 
    using load_iff [OF ok, of a] g(1) c' by (cases "CF_FakeIPLoad B c' a") auto
  ultimately show ?thesis by auto
qed

end

sublocale cache_db \<subseteq> fs: fakeip_storage "cacheStorage B dl" "cacheOk B" storableDomain
proof (unfold_locales, goal_cases)
  case (1 s d v6 a)
  then show ?case
    using load_domain_iff [OF 1, of d v6 a] load_iff [OF 1, of a d] cacheOk_address [OF 1, of a] cacheOk_domain [OF 1, of v6 "bytesOf d"]
    by (auto simp: cacheStorage_def)
next
  case (2 s d a)
  then have "bo_Get B (cf_DB s) (buckets6 (\<not> addrIs4 a)) (bytesOf d) = None"
    using load_domain_iff [OF 2(1), of d "\<not> addrIs4 a"] cacheOk_domain [OF 2(1), of "\<not> addrIs4 a" "bytesOf d"]
    by (cases "bo_Get B (cf_DB s) (buckets6 (\<not> addrIs4 a)) (bytesOf d)") (auto simp: cacheStorage_def)
  then show ?case using store_ok [OF 2(1,3,2)] by (simp add: cacheStorage_def)
next
  case (3 s md)
  then show ?case
    by (auto simp: cacheStorage_def CF_FakeIPSaveMetadataAsync_def cacheOk_def CF_FakeIPLoad_def split: option.splits)
next
  case (4 s s')
  then show ?case using reset_ok [OF 4(1), of s'] by (auto simp: cacheStorage_def)
qed


context cache_db
begin

lemma load_both:
  "cacheOk B c \<Longrightarrow> CF_FakeIPLoadDomain B dl c d v6 = Some a \<longleftrightarrow> CF_FakeIPLoad B c a = Some d \<and> v6 = (\<not> addrIs4 a)"
  using fs.domain_iff [of c d v6 a] by (simp add: cacheStorage_def)

end

lemma cacheStorage_load [simp]: "so_FakeIPLoad (cacheStorage B dl) = CF_FakeIPLoad B"
  by (simp add: cacheStorage_def)

text \<open>The entry of the metadata is no fake address: writing and reading it keeps the records.\<close>

definition metadataOnly :: "'db Bolt \<Rightarrow> 'db \<Rightarrow> 'db \<Rightarrow> bool" where
  "metadataOnly B db db' =
     ((\<exists>v. bo_Get B db' = (bo_Get B db)([bucketFakeIP] := (bo_Get B db [bucketFakeIP])(keyMetadata := v))) \<and>
      (\<forall>p. p \<noteq> [bucketFakeIP] \<longrightarrow> bo_Bucket B db' p = bo_Bucket B db p))"

lemma metadataOnly_get:
  assumes "metadataOnly B db db'"
  shows "bo_Get B db' [bucketFakeIP] (addrAsSlice a) = bo_Get B db [bucketFakeIP] (addrAsSlice a)"
    and "bo_Get B db' (buckets6 v6) = bo_Get B db (buckets6 v6)" and "bo_Bucket B db' (buckets6 v6) = bo_Bucket B db (buckets6 v6)"
    and "bo_Get B db' [bucketFakeIP] [] = bo_Get B db [bucketFakeIP] []"
    and "length p = 2 \<Longrightarrow> bo_Bucket B db' p = bo_Bucket B db p"
proof -
  have "keyMetadata \<noteq> []" using good_keys(9) by (simp add: goodKey_def)
  moreover have "p \<noteq> [bucketFakeIP]" if "length p = 2" using that by auto
  ultimately show "bo_Get B db' [bucketFakeIP] (addrAsSlice a) = bo_Get B db [bucketFakeIP] (addrAsSlice a)"
    "bo_Get B db' (buckets6 v6) = bo_Get B db (buckets6 v6)" "bo_Bucket B db' (buckets6 v6) = bo_Bucket B db (buckets6 v6)"
    "bo_Get B db' [bucketFakeIP] [] = bo_Get B db [bucketFakeIP] []"
    "length p = 2 \<Longrightarrow> bo_Bucket B db' p = bo_Bucket B db p"
    using assms key_not_address [of a] by (auto simp: metadataOnly_def)
qed

lemma metadataOnly_ok:
  assumes "metadataOnly B db db'" and "cacheOk B (c\<lparr>cf_DB := db\<rparr>)"
  shows "cacheOk B (c\<lparr>cf_DB := db'\<rparr>)"
  using assms(2) metadataOnly_get [OF assms(1)] unfolding cacheOk_def by (simp add: buckets6_def)

context cache_db
begin

lemma metadataOnly_load:
  assumes "metadataOnly B db db'" and "cacheOk B (c\<lparr>cf_DB := db\<rparr>)"
  shows "CF_FakeIPLoad B (c\<lparr>cf_DB := db'\<rparr>) = CF_FakeIPLoad B (c\<lparr>cf_DB := db\<rparr>)"
  using load_iff [OF assms(2)] load_iff [OF metadataOnly_ok [OF assms]] metadataOnly_get(1) [OF assms(1)]
  by (intro ext option_ext) simp

lemma metadata_saved:
  assumes "cacheOk B c"
  shows "\<exists>db'. CF_FakeIPSaveMetadata B m c = (None, c\<lparr>cf_DB := db'\<rparr>) \<and> metadataOnly B (cf_DB c) db' \<and>
    bo_Bucket B db' [bucketFakeIP] \<and> bo_Get B db' [bucketFakeIP] keyMetadata = Some (FakeIPMetadata_MarshalBinary m)"
proof -
  obtain db1 where 1: "bo_CreateBucketIfNotExists B [bucketFakeIP] (cf_DB c) = Inr db1"
    using create_succeeds [of "[]" "cf_DB c" bucketFakeIP] good_keys no_root_values by auto
  note e1 = create [OF 1]
  have "length (FakeIPMetadata_MarshalBinary m) \<le> 2 ^ 31 - 2"
    by (simp add: FakeIPMetadata_MarshalBinary_def element_def prefixMarshal_def addrAsSlice_length split: Addr.split)
  then obtain db2 where 2: "bo_Put B [bucketFakeIP] keyMetadata (FakeIPMetadata_MarshalBinary m) db1 = Inr db2"
    using put_succeeds [of db1 "[bucketFakeIP]" keyMetadata "FakeIPMetadata_MarshalBinary m"] e1 good_keys(9)
      cacheOk_flat [OF assms, of keyMetadata] by (auto simp: goodValue_def)
  note e2 = put [OF 2]
  let ?tx = "\<lambda>db. bindE (bo_CreateBucketIfNotExists B [bucketFakeIP] db) (bo_Put B [bucketFakeIP] keyMetadata (FakeIPMetadata_MarshalBinary m))"
  have "CF_FakeIPSaveMetadata B m c = (None, c\<lparr>cf_DB := db2\<rparr>)"
    using 1 2 batch_commits [of ?tx c db2] by (simp add: CF_FakeIPSaveMetadata_def)
  then show ?thesis using e1 e2 by (auto simp: metadataOnly_def)
qed

lemma metadata_read:
  assumes "cacheOk B c" and "properPrefix (fm_Inet4Range m)" and "properPrefix (fm_Inet6Range m)"
    and "bo_Get B (cf_DB c) [bucketFakeIP] keyMetadata = Some (FakeIPMetadata_MarshalBinary m)"
  shows "\<exists>db'. CF_FakeIPMetadata B c = (Some m, c\<lparr>cf_DB := db'\<rparr>) \<and> metadataOnly B (cf_DB c) db'"
proof -
  have b: "bo_Bucket B (cf_DB c) [bucketFakeIP]" using get_in_bucket [OF assms(4)] .
  obtain db' where d: "bo_Delete B [bucketFakeIP] keyMetadata (cf_DB c) = Inr db'"
    using delete_succeeds [OF b, of keyMetadata] cacheOk_flat [OF assms(1), of keyMetadata] by auto
  have "length (FakeIPMetadata_MarshalBinary m) \<noteq> 0" by (simp add: FakeIPMetadata_MarshalBinary_def element_def)
  then have l: "loadMetadata B (cf_DB c) = Inr m"
    using b d assms(4) FakeIPMetadata_round_trip [OF assms(2,3)] by (simp add: loadMetadata_def)
  let ?tx = "\<lambda>db. bindE (loadMetadata B db) (\<lambda>_. bo_Delete B [bucketFakeIP] keyMetadata db)"
  have "cf_batch B ?tx c = (None, c\<lparr>cf_DB := db'\<rparr>)" using l d batch_commits [of ?tx c db'] by simp
  then have "CF_FakeIPMetadata B c = (Some m, c\<lparr>cf_DB := db'\<rparr>)" using l by (simp add: CF_FakeIPMetadata_def)
  then show ?thesis using delete [OF d] by (auto simp: metadataOnly_def)
qed

end


text \<open>
  C15: a fake-IP store that is closed and started again on the same cache file (a new process with the
  same ranges) has every fake address it had, goes on with the address after the last one it had
  given out, and satisfies the invariant of the store.
\<close>

theorem restart_keeps_fake_addresses:
  assumes "cache_db B dl" and "storeOk (cacheStorage B dl) (cacheOk B) st"
    and "properPrefix (fs_inet4Range st)" and "properPrefix (fs_inet6Range st)"
  shows "\<exists>st' c'. Store_Close (cacheStorage B dl) st = (None, st') \<and> fs_storage st' = Some c' \<and>
    (let again = Store_Start (cacheStorage B dl) (CacheFile_New options (cf_DB c'))
                   (NewStore (fs_inet4Range st) (fs_inet6Range st))
     in Store_Lookup (cacheStorage B dl) again = Store_Lookup (cacheStorage B dl) st \<and>
        fs_inet4Current again = fs_inet4Current st \<and> fs_inet6Current again = fs_inet6Current st \<and>
        storeOk (cacheStorage B dl) (cacheOk B) again)"
proof -
  let ?ops = "cacheStorage B dl" and ?m = "storeMetadata st"
  note db = assms(1)
  obtain c where c: "fs_storage st = Some c" "cacheOk B c"
    and in_range: "\<And>a d. CF_FakeIPLoad B c a = Some d \<Longrightarrow> Store_Contains st a"
    using assms(2) by (auto simp: storeOk_def cacheStorage_def split: option.splits)
  obtain db1 where s: "CF_FakeIPSaveMetadata B ?m c = (None, c\<lparr>cf_DB := db1\<rparr>)" "metadataOnly B (cf_DB c) db1"
    "bo_Get B db1 [bucketFakeIP] keyMetadata = Some (FakeIPMetadata_MarshalBinary ?m)"
    using cache_db.metadata_saved [OF db c(2), of ?m] by auto
  let ?n = "CacheFile_New options db1"
  have c1: "cacheOk B (c\<lparr>cf_DB := db1\<rparr>)" "CF_FakeIPLoad B (c\<lparr>cf_DB := db1\<rparr>) = CF_FakeIPLoad B c"
    using metadataOnly_ok [OF s(2), of c] cache_db.metadataOnly_load [OF db s(2), of c] c(2) by simp_all
  have n: "cacheOk B ?n" using c1(1) by (simp add: cacheOk_def CacheFile_New_def)
  have nl: "CF_FakeIPLoad B ?n = CF_FakeIPLoad B c"
    unfolding c1(2) [symmetric] using cache_db.load_iff [OF db n] cache_db.load_iff [OF db c1(1)]
    by (intro ext option_ext) (simp add: CacheFile_New_def)
  obtain db2 where r: "CF_FakeIPMetadata B ?n = (Some ?m, ?n\<lparr>cf_DB := db2\<rparr>)" "metadataOnly B db1 db2"
    using cache_db.metadata_read [OF db n, of ?m] assms(3,4) s(3) by (auto simp: storeMetadata_def CacheFile_New_def)
  have n2: "cacheOk B (?n\<lparr>cf_DB := db2\<rparr>)" "CF_FakeIPLoad B (?n\<lparr>cf_DB := db2\<rparr>) = CF_FakeIPLoad B c"
    using metadataOnly_ok [OF r(2), of ?n] cache_db.metadataOnly_load [OF db r(2), of ?n] n nl by (simp_all add: CacheFile_New_def)
  let ?again = "Store_Start ?ops ?n (NewStore (fs_inet4Range st) (fs_inet6Range st))"
  have a: "?again = (NewStore (fs_inet4Range st) (fs_inet6Range st))
      \<lparr>fs_inet4Current := fs_inet4Current st, fs_inet6Current := fs_inet6Current st, fs_storage := Some (?n\<lparr>cf_DB := db2\<rparr>)\<rparr>"
    using r(1) by (simp add: Store_Start_def cacheStorage_def storeMetadata_def NewStore_def)
  have "storeOk ?ops (cacheOk B) ?again"
    unfolding a using assms(2) n2 in_range c(1) by (auto simp: storeOk_def NewStore_def Store_Contains_def familyOk_def)
  moreover have "Store_Lookup ?ops ?again = Store_Lookup ?ops st"
    unfolding a using n2(2) c(1) by (auto simp: Store_Lookup_def fun_eq_iff)
  moreover have "Store_Close ?ops st = (None, st\<lparr>fs_storage := Some (c\<lparr>cf_DB := db1\<rparr>)\<rparr>)"
    using c(1) s(1) by (simp add: Store_Close_def cacheStorage_def)
  moreover have "fs_inet4Current ?again = fs_inet4Current st \<and> fs_inet6Current ?again = fs_inet6Current st" by (simp add: a)
  ultimately show ?thesis by (simp add: Let_def)
qed


text \<open>A library of DNS functions for the witnesses; only \<open>AddrFromIP\<close> matters here.\<close>

definition sampleDnsLib :: DnsLib where
  "sampleDnsLib =
     \<lparr>dl_IsFqdn = \<lambda>s. s \<noteq> [] \<and> last s = CHR ''.'', dl_Fqdn = \<lambda>s. if s \<noteq> [] \<and> last s = CHR ''.'' then s else s @ ''.'',
      dl_IsEdns0 = \<lambda>m. None, dl_Version = \<lambda>_. 0, dl_SetEdns0 = \<lambda>_ m. m,
      dl_AddrFromIP = \<lambda>b. case addrFromSlice b of Some a \<Rightarrow> a | None \<Rightarrow> AddrNone, dl_ParseAddr = \<lambda>_. AddrNone\<rparr>"

interpretation mapCache: cache_db mapBolt sampleDnsLib
  by unfold_locales (simp add: sampleDnsLib_def)

definition sampleCacheStore :: "mapDB CacheFile Store" where
  "sampleCacheStore = Store_Start (cacheStorage mapBolt sampleDnsLib) (newCacheFile '''' Map.empty) (NewStore sampleRange (Prefix AddrNone 0))"

lemma newCacheFile_ok: "cacheOk mapBolt (newCacheFile i Map.empty)"
  by (simp add: cacheOk_def newCacheFile_def CacheFile_New_def mapBolt_def mapGet_def)

lemma sampleCacheStore_eq:
  "sampleCacheStore = (NewStore sampleRange (Prefix AddrNone 0))
     \<lparr>fs_inet4Current := addrNext (prefixAddr sampleRange), fs_storage := Some (newCacheFile '''' Map.empty)\<rparr>"
proof -
  let ?c = "newCacheFile '''' (Map.empty :: mapDB)"
  have "loadMetadata mapBolt (cf_DB ?c) = Inl (E_Lib ''file does not exist'')"
    by (simp add: loadMetadata_def newCacheFile_def CacheFile_New_def mapBolt_def)
  then have 1: "CF_FakeIPMetadata mapBolt ?c = (None, ?c)"
    by (simp add: CF_FakeIPMetadata_def cf_batch_def mapBolt_def mapBatch_def)
  have "resetTx mapBolt (cf_DB ?c) = Inl errBucketNotFound"
    by (simp add: resetTx_def newCacheFile_def CacheFile_New_def mapBolt_def mapDeleteBucket_def)
  then have "snd (CF_FakeIPReset mapBolt ?c) = ?c"
    by (simp add: CF_FakeIPReset_def cf_batch_def mapBolt_def mapBatch_def errBucketNotFound_def)
  with 1 show ?thesis
    using sampleRange_roomy(2) by (simp add: sampleCacheStore_def Store_Start_def cacheStorage_def NewStore_def)
qed

lemma sampleCacheStore_ok: "storeOk (cacheStorage mapBolt sampleDnsLib) (cacheOk mapBolt) sampleCacheStore"
proof -
  have "familyOk 32 sampleRange (broadcastAddress sampleRange) (addrNext (prefixAddr sampleRange))"
    using familyOk_start [of sampleRange 32] sampleRange_roomy by (simp add: sampleRange_def)
  moreover have "CF_FakeIPLoad mapBolt (newCacheFile '''' Map.empty) a = None" for a
    by (simp add: CF_FakeIPLoad_def newCacheFile_def CacheFile_New_def mapBolt_def)
  ultimately show ?thesis
    using newCacheFile_ok sampleRange_roomy(2) by (simp add: sampleCacheStore_eq storeOk_def cacheStorage_def NewStore_def familyOk_def)
qed

theorem restart_keeps_fake_addresses_witness:
  "\<exists>a st st' c'. Store_Create (cacheStorage mapBolt sampleDnsLib) ''a.org'' False sampleCacheStore = (Inr a, st) \<and>
     Store_Close (cacheStorage mapBolt sampleDnsLib) st = (None, st') \<and> fs_storage st' = Some c' \<and>
     Store_Lookup (cacheStorage mapBolt sampleDnsLib)
       (Store_Start (cacheStorage mapBolt sampleDnsLib) (newCacheFile '''' (cf_DB c')) (NewStore sampleRange (Prefix AddrNone 0))) a
       = Inr (Some ''a.org'')"
proof -
  let ?ops = "cacheStorage mapBolt sampleDnsLib" and ?st = sampleCacheStore
  have r: "rangeOf False ?st = sampleRange" "fs_inet6Range ?st = Prefix AddrNone 0"
    by (simp_all add: sampleCacheStore_eq rangeOf_def NewStore_def)
  have "CF_FakeIPLoad mapBolt (newCacheFile '''' Map.empty) a = None" for a
    by (simp add: CF_FakeIPLoad_def newCacheFile_def CacheFile_New_def mapBolt_def)
  then have e: "contents ?ops ?st a = None" for a by (simp add: contents_def sampleCacheStore_eq cacheStorage_def)
  obtain a st where st: "Store_Create ?ops ''a.org'' False ?st = (Inr a, st)" "storeOk ?ops (cacheOk mapBolt) st"
    "fs_inet4Range st = sampleRange" "fs_inet6Range st = Prefix AddrNone 0" "contents ?ops st a = Some ''a.org''"
    using mapCache.fs.create_new [OF sampleCacheStore_ok, of False "''a.org''"] e r sampleRange_roomy(2)
    by (auto simp: storableDomain_def goodKey_def rangeOf_def)
  have p: "properPrefix (fs_inet4Range st)" "properPrefix (fs_inet6Range st)"
    using st sampleRange_roomy by (simp_all add: properPrefix_def)
  show ?thesis
    using restart_keeps_fake_addresses [OF mapCache.cache_db_axioms st(2) p,
        of "\<lparr>co_CacheID = '''', co_StoreFakeIP = True, co_StoreRDRC = True, co_RDRCTimeout = 0\<rparr>"]
      contents_lookup [OF st(2), of a] st
    by (auto simp: Let_def newCacheFile_def)
qed


section \<open>Changed ranges\<close>

context bolt
begin

text \<open>Without one of the three buckets the reset fails, and its transaction is rolled back.\<close>

lemma reset_fails:
  assumes "\<not> bo_Bucket B (cf_DB c) [bucketFakeIPDomain6]"
  shows "CF_FakeIPReset B c = (Some errBucketNotFound, c)"
proof -
  have del: "bo_DeleteBucket B p db = Inl errBucketNotFound \<or>
    (\<exists>db'. bo_DeleteBucket B p db = Inr db' \<and> (\<forall>q. bo_Bucket B db' q \<longrightarrow> bo_Bucket B db q))" for p db
  proof (cases "bo_Bucket B db p")
    case True
    then obtain db' where "bo_DeleteBucket B p db = Inr db'" using deleteBucket_succeeds by blast
    then show ?thesis using deleteBucket [of p db db'] by simp
  qed (simp add: deleteBucket_missing)
  have "resetTx B (cf_DB c) = Inl errBucketNotFound"
    using del [of "[bucketFakeIP]" "cf_DB c"]
  proof
    assume "\<exists>db'. bo_DeleteBucket B [bucketFakeIP] (cf_DB c) = Inr db' \<and> (\<forall>q. bo_Bucket B db' q \<longrightarrow> bo_Bucket B (cf_DB c) q)"
    then obtain db1 where db1: "bo_DeleteBucket B [bucketFakeIP] (cf_DB c) = Inr db1"
      "\<forall>q. bo_Bucket B db1 q \<longrightarrow> bo_Bucket B (cf_DB c) q" by auto
    then show ?thesis using del [of "[bucketFakeIPDomain4]" db1] assms
      by (auto simp: resetTx_def intro!: deleteBucket_missing)
  qed (simp add: resetTx_def)
  then show ?thesis
    using rollback [of "resetTx B" "cf_DB c"] by (simp add: CF_FakeIPReset_def cf_batch_def errBucketNotFound_def)
qed

end

text \<open>
  A cache file that has only ever stored IPv4 fake addresses cannot be reset (there is no bucket
  for the IPv6 domains, and the missing bucket makes the whole transaction fail). A store started on
  it with a different range keeps every old record: asked for a domain that had an address, it
  returns the old address, which lies outside of its ranges and is not recognised as a fake address.
\<close>

theorem changed_range_returns_foreign_address:
  assumes "cache_db B dl" and "cacheOk B c" and "\<not> bo_Bucket B (cf_DB c) [bucketFakeIPDomain6]"
    and "bo_Get B (cf_DB c) [bucketFakeIP] keyMetadata = Some (FakeIPMetadata_MarshalBinary m)"
    and "properPrefix (fm_Inet4Range m)" and "properPrefix (fm_Inet6Range m)" and "fm_Inet4Range m \<noteq> range4"
    and "CF_FakeIPLoad B c a = Some domain" and "addrIs4 a"
    and "\<not> prefixContains range4 a" and "\<not> prefixContains range6 a"
  defines "st \<equiv> Store_Start (cacheStorage B dl) c (NewStore range4 range6)"
  shows "Store_Create (cacheStorage B dl) domain False st = (Inr a, st) \<and> \<not> Store_Contains st a"
proof -
  obtain db' where r: "CF_FakeIPMetadata B c = (Some m, c\<lparr>cf_DB := db'\<rparr>)" "metadataOnly B (cf_DB c) db'"
    using cache_db.metadata_read [OF assms(1,2,5,6,4)] by auto
  let ?c = "c\<lparr>cf_DB := db'\<rparr>"
  have b: "bolt B" using assms(1) by (simp add: cache_db_def bolt_writes_def)
  have ok: "cacheOk B ?c" "CF_FakeIPLoad B ?c = CF_FakeIPLoad B c"
    using metadataOnly_ok [OF r(2), of c] cache_db.metadataOnly_load [OF assms(1) r(2), of c] assms(2) by simp_all
  have "\<not> bo_Bucket B (cf_DB ?c) [bucketFakeIPDomain6]"
    using metadataOnly_get(3) [OF r(2), of True] assms(3) by (simp add: buckets6_def)
  note f = bolt.reset_fails [OF b this]
  have "fs_storage st = Some ?c \<and> fs_inet4Range st = range4 \<and> fs_inet6Range st = range6"
    using r(1) f assms(7) by (simp add: st_def Store_Start_def cacheStorage_def NewStore_def)
  moreover have "CF_FakeIPLoadDomain B dl ?c domain False = Some a"
    using cache_db.load_both [OF assms(1) ok(1), of domain False a] ok(2) assms(8,9) by simp
  ultimately show ?thesis using assms(10,11)
    by (simp add: Store_Create_def cacheStorage_def Store_Contains_def)
qed


text \<open>The witness: one address of 198.18.0.0/15 is stored, and the range is changed to 10.0.0.0/8.\<close>

definition oldAddr :: Addr where "oldAddr = Addr4 0xC6120002"

definition oldMetadata :: FakeIPMetadata where
  "oldMetadata = \<lparr>fm_Inet4Range = sampleRange, fm_Inet6Range = Prefix AddrNone 0, fm_Inet4Current = oldAddr, fm_Inet6Current = AddrNone\<rparr>"

definition oldCache :: "mapDB CacheFile" where
  "oldCache = newCacheFile ''''
     [[bucketFakeIP] \<mapsto> [addrAsSlice oldAddr \<mapsto> bytesOf ''a.org'', keyMetadata \<mapsto> FakeIPMetadata_MarshalBinary oldMetadata],
      [bucketFakeIPDomain4] \<mapsto> [bytesOf ''a.org'' \<mapsto> addrAsSlice oldAddr]]"

lemma oldCache_get:
  "bo_Get mapBolt (cf_DB oldCache) [bucketFakeIP] =
     [addrAsSlice oldAddr \<mapsto> bytesOf ''a.org'', keyMetadata \<mapsto> FakeIPMetadata_MarshalBinary oldMetadata]"
  "bo_Get mapBolt (cf_DB oldCache) (buckets6 False) = [bytesOf ''a.org'' \<mapsto> addrAsSlice oldAddr]"
  "bo_Get mapBolt (cf_DB oldCache) (buckets6 True) = Map.empty"
  "bo_Bucket mapBolt (cf_DB oldCache) p = (p = [bucketFakeIP] \<or> p = [bucketFakeIPDomain4])"
  by (auto simp: oldCache_def newCacheFile_def CacheFile_New_def mapBolt_def mapGet_def buckets6_def intro!: ext)

lemma oldCache_ok: "cacheOk mapBolt oldCache"
proof -
  have a: "addrIs4 oldAddr" "addrIsValid oldAddr" by (simp_all add: oldAddr_def)
  have get: "bo_Get mapBolt (cf_DB oldCache) [bucketFakeIP] (addrAsSlice b) = (if b = oldAddr then Some (bytesOf ''a.org'') else None)" for b
    using key_not_address [of b] by (simp add: oldCache_get)
  have nil: "bo_Get mapBolt (cf_DB oldCache) [bucketFakeIP] [] = None"
    using get [of AddrNone] by (simp add: oldAddr_def)
  have dom: "bo_Get mapBolt (cf_DB oldCache) (buckets6 v6) k = (if \<not> v6 \<and> k = bytesOf ''a.org'' then Some (addrAsSlice oldAddr) else None)" for v6 k
    by (cases v6) (simp_all add: oldCache_get)
  have k: "goodKey (bytesOf ''a.org'')" by (simp add: goodKey_def)
  have e: "cf_saveDomain oldCache = Map.empty" "cf_saveAddress4 oldCache = Map.empty" "cf_saveAddress6 oldCache = Map.empty"
    by (simp_all add: oldCache_def newCacheFile_def CacheFile_New_def)
  show ?thesis unfolding cacheOk_def
    using a get nil dom k e by (auto simp: oldCache_get(4) buckets6_def simp del: addrAsSlice.simps)
qed

theorem changed_range_returns_foreign_address_witness:
  "fst (Store_Create (cacheStorage mapBolt sampleDnsLib) ''a.org'' False
     (Store_Start (cacheStorage mapBolt sampleDnsLib) oldCache (NewStore (Prefix (Addr4 0x0A000000) 8) (Prefix AddrNone 0)))) =
   Inr oldAddr"
proof -
  have "CF_FakeIPLoad mapBolt oldCache oldAddr = Some ''a.org''"
    using mapCache.load_iff [OF oldCache_ok, of oldAddr "''a.org''"] key_not_address [of oldAddr] by (simp add: oldCache_get oldAddr_def)
  moreover have "bo_Get mapBolt (cf_DB oldCache) [bucketFakeIP] keyMetadata = Some (FakeIPMetadata_MarshalBinary oldMetadata)"
    by (simp add: oldCache_get)
  moreover have "\<not> prefixContains (Prefix (Addr4 0x0A000000) 8) oldAddr" "\<not> prefixContains (Prefix AddrNone 0) oldAddr" "addrIs4 oldAddr"
    by (simp_all add: oldAddr_def prefixContains_nat)
  moreover have "properPrefix (fm_Inet4Range oldMetadata)" "properPrefix (fm_Inet6Range oldMetadata)"
    "fm_Inet4Range oldMetadata \<noteq> Prefix (Addr4 0x0A000000) 8"
    using sampleRange_roomy by (simp_all add: oldMetadata_def properPrefix_def sampleRange_def)
  moreover have "\<not> bo_Bucket mapBolt (cf_DB oldCache) [bucketFakeIPDomain6]" by (simp add: oldCache_get)
  ultimately show ?thesis
    using changed_range_returns_foreign_address [OF mapCache.cache_db_axioms oldCache_ok] by simp
qed


text \<open>
  Only the metadata of the first asynchronous save is ever written by the timer, however often it is
  called again before the timer runs out.
\<close>

lemma timer_saves_first_metadata:
  assumes "cf_saveMetadataTimer c = None"
  shows "saveMetadataFires B (CF_FakeIPSaveMetadataAsync m' (CF_FakeIPSaveMetadataAsync m c)) =
    snd (CF_FakeIPSaveMetadata B m (c\<lparr>cf_saveMetadataTimer := Some m\<rparr>))"
  using assms by (simp add: CF_FakeIPSaveMetadataAsync_def saveMetadataFires_def)

section \<open>Rejected DNS responses\<close>

lemma rdrcKey_inject [simp]: "rdrcKey q t = rdrcKey q' t' \<longleftrightarrow> q = q' \<and> t = t'"
proof
  assume a: "rdrcKey q t = rdrcKey q' t'"
  then have "bytesOfNat 2 (unat t) = bytesOfNat 2 (unat t')" and q: "bytesOf q = bytesOf q'"
    by (simp_all add: rdrcKey_def append_eq_append_conv del: bytesOfNat.simps)
  then have "unat t mod 256 ^ 2 = unat t' mod 256 ^ 2" by (metis bigEndian_bytesOfNat)
  moreover have "unat t < 65536" "unat t' < 65536" using unsigned_less [of t] unsigned_less [of t'] by simp_all
  ultimately show "q = q' \<and> t = t'" using q by (simp add: word_unat_eq_iff)
qed simp

lemma rdrc_loaded:
  assumes "cf_saveRDRC c = Map.empty"
  shows "fst (LoadRDRC B now transportName qName qType c) =
    (hasBucket B c (cf_DB c) bucketRDRC \<and> bo_Bucket B (cf_DB c) (rdrcPath c transportName) \<and>
     (case bo_Get B (cf_DB c) (rdrcPath c transportName) (rdrcKey qName qType) of
        None \<Rightarrow> False | Some content \<Rightarrow> 8 \<le> length content \<and> now \<le> bytesInt64 (take 8 content) * 1000000000))"
  using assms by (auto simp: LoadRDRC_def cf_view_def rdrcEntry_def split: option.splits)

context bolt
begin

lemma rdrc_saved:
  assumes "SaveRDRC B now transportName qName qType c = (None, c')"
  shows "\<exists>db'. c' = c\<lparr>cf_DB := db'\<rparr> \<and> hasBucket B c db' bucketRDRC \<and> bo_Bucket B db' (rdrcPath c transportName) \<and>
    bo_Get B db' = (bo_Get B (cf_DB c))(rdrcPath c transportName := (bo_Get B (cf_DB c) (rdrcPath c transportName))
      (rdrcKey qName qType \<mapsto> int64Bytes ((now + cf_rdrcTimeout c) div 1000000000)))"
proof -
  let ?v = "int64Bytes ((now + cf_rdrcTimeout c) div 1000000000)"
  let ?tx = "\<lambda>db. bindE (createBucket B c bucketRDRC db) (\<lambda>db1. bindE (bo_CreateBucketIfNotExists B (rdrcPath c transportName) db1)
    (bo_Put B (rdrcPath c transportName) (rdrcKey qName qType) ?v))"
  obtain db' where "?tx (cf_DB c) = Inr db'" and c': "c' = c\<lparr>cf_DB := db'\<rparr>"
    using batch_ok [of ?tx c] assms by (auto simp: SaveRDRC_def)
  then obtain db1 db2 where d: "createBucket B c bucketRDRC (cf_DB c) = Inr db1"
    "bo_CreateBucketIfNotExists B (rdrcPath c transportName) db1 = Inr db2"
    "bo_Put B (rdrcPath c transportName) (rdrcKey qName qType) ?v db2 = Inr db'" by auto
  note e = createBucket_ok [OF d(1)] create [OF d(2)] put [OF d(3)]
  have "hasBucket B c db' bucketRDRC" using e by (auto simp: hasBucket_def split: option.splits)
  then show ?thesis using c' e by auto
qed

end

text \<open>
  A rejected response that was saved is reported for exactly its question and server until the
  second in which the timeout ends, and no longer; every other question of the server is answered as
  before. Saving it therefore never rejects a question of another type or name.
\<close>

theorem rejected_response_expires:
  assumes "bolt B" and "SaveRDRC B now transportName qName qType c = (None, c')" and "cf_saveRDRC c = Map.empty"
    and "- (2 ^ 63) \<le> (now + cf_rdrcTimeout c) div 1000000000" and "(now + cf_rdrcTimeout c) div 1000000000 < 2 ^ 63"
    and "bo_Bucket B (cf_DB c) (rdrcPath c transportName) \<Longrightarrow> hasBucket B c (cf_DB c) bucketRDRC"
  shows "fst (LoadRDRC B later transportName qName' qType' c') =
    (if qName' = qName \<and> qType' = qType then later \<le> (now + cf_rdrcTimeout c) div 1000000000 * 1000000000
     else fst (LoadRDRC B later transportName qName' qType' c))"
proof -
  let ?s = "(now + cf_rdrcTimeout c) div 1000000000"
  obtain db' where c': "c' = c\<lparr>cf_DB := db'\<rparr>" and b: "hasBucket B c db' bucketRDRC" "bo_Bucket B db' (rdrcPath c transportName)"
    and g: "bo_Get B db' (rdrcPath c transportName) =
      (bo_Get B (cf_DB c) (rdrcPath c transportName))(rdrcKey qName qType \<mapsto> int64Bytes ?s)"
    using bolt.rdrc_saved [OF assms(1,2)] by auto
  have s: "bytesInt64 (take 8 (int64Bytes ?s)) = ?s" using bytesInt64_int64Bytes [OF assms(4,5)] by simp
  have there: "bo_Get B (cf_DB c) (rdrcPath c transportName) k = Some v \<Longrightarrow>
      hasBucket B c (cf_DB c) bucketRDRC \<and> bo_Bucket B (cf_DB c) (rdrcPath c transportName)" for k v
    using bolt.get_in_bucket [OF assms(1), of "cf_DB c" "rdrcPath c transportName" k] assms(6) by blast
  have e: "cf_saveRDRC c' = Map.empty" using c' assms(3) by simp
  show ?thesis
    unfolding rdrc_loaded [OF assms(3)] rdrc_loaded [OF e]
    using c' b g s by (auto split: option.splits dest: there)
qed

theorem rejected_response_expires_witness:
  "\<exists>c'. SaveRDRC mapBolt 0 ''dns'' ''a.org'' 1 (newCacheFile '''' Map.empty) = (None, c') \<and>
     fst (LoadRDRC mapBolt 604800000000000 ''dns'' ''a.org'' 1 c') \<and>
     \<not> fst (LoadRDRC mapBolt 604800000000001 ''dns'' ''a.org'' 1 c') \<and>
     \<not> fst (LoadRDRC mapBolt 1 ''dns'' ''a.org'' 28 c')"
proof -
  let ?c = "newCacheFile '''' (Map.empty :: mapDB)"
  have p: "rdrcPath ?c ''dns'' = [bucketRDRC, bytesOf ''dns'']" "cf_cacheID ?c = None" "cf_DB ?c = Map.empty"
    "cf_saveRDRC ?c = Map.empty" "cf_rdrcTimeout ?c = 604800000000000"
    by (simp_all add: rdrcPath_def bucketPath_def newCacheFile_def CacheFile_New_def)
  have k: "goodKey (bytesOf ''dns'')" "rdrcKey ''a.org'' 1 \<noteq> []" "length (rdrcKey ''a.org'' 1) \<le> 32768"
    by (simp_all add: goodKey_def rdrcKey_def)
  have "fst (SaveRDRC mapBolt 0 ''dns'' ''a.org'' 1 ?c) = None"
    using k good_keys(5) p unfolding SaveRDRC_def
    by (simp add: cf_batch_def createBucket_def mapBolt_def mapCreate_def mapPut_def mapBatch_def mapGet_def)
  then obtain c' where c': "SaveRDRC mapBolt 0 ''dns'' ''a.org'' 1 ?c = (None, c')" by (metis prod.collapse)
  have l: "\<not> fst (LoadRDRC mapBolt 1 ''dns'' ''a.org'' 28 ?c)"
    unfolding rdrc_loaded [OF p(4)] using p by (simp add: hasBucket_def mapBolt_def)
  note r = rejected_response_expires [OF mb.bolt_axioms c' p(4)]
  show ?thesis
    using r [of 604800000000000 "''a.org''" 1] r [of 604800000000001 "''a.org''" 1] r [of 1 "''a.org''" 28] l c' p
    by (simp add: mapBolt_def)
qed

end
