(* ===== verification/Outbound_Groups_Props.thy ===== *)
theory Outbound_Groups_Props
  imports Outbound_Groups Cache_Props
begin

text \<open>
  What the outbound groups guarantee: the selection by delay within the tolerance (and where 16-bit
  arithmetic breaks it), the invariant of a group over all runs of its methods and its check loops,
  the members a selector uses, and the selection that survives a restart.
\<close>

section \<open>Selection by delay\<close>

definition delayOf :: "GroupEnv \<Rightarrow> HistoryStorage \<Rightarrow> Service \<Rightarrow> nat option" where
  "delayOf env history d = map_option (unat \<circ> hi_Delay) (LoadURLTestHistory history (RealTag env d))"

text \<open>The outbounds that the selection compares, and when their delays can be compared without wrap-around.\<close>

definition candidate :: "GroupEnv \<Rightarrow> HistoryStorage \<Rightarrow> string \<Rightarrow> Service \<Rightarrow> bool" where
  "candidate env history network d = (network \<in> set (ge_Network env d) \<and> delayOf env history d \<noteq> None)"

definition comparable :: "GroupEnv \<Rightarrow> HistoryStorage \<Rightarrow> u16 \<Rightarrow> Service \<Rightarrow> bool" where
  "comparable env history tolerance d =
     (case delayOf env history d of None \<Rightarrow> True | Some n \<Rightarrow> 0 < n \<and> n + unat tolerance < 65536)"

lemma exceeds_iff:
  assumes "unat h + unat t < 65536"
  shows "(m > h + t) \<longleftrightarrow> unat m > unat (h :: u16) + unat (t :: u16)"
proof -
  have "unat (h + t) = unat h + unat t" using assms by (simp add: unat_word_ariths)
  then show ?thesis by (simp add: word_less_nat_alt)
qed

text \<open>The loop over the outbounds: the result has a delay within the tolerance of all candidates and never worse than before.\<close>

lemma selectLoop_spec:
  assumes "\<forall>d\<in>set ds. comparable env history tol d"
    and "case best of None \<Rightarrow> m = 0 | Some x \<Rightarrow> m > 0 \<and> delayOf env history x = Some (unat m)"
  shows "case selectLoop env history tol network ds m best of
      None \<Rightarrow> best = None \<and> (\<forall>d\<in>set ds. \<not> candidate env history network d)
    | Some x \<Rightarrow> (\<exists>n. delayOf env history x = Some n \<and> (best \<noteq> None \<longrightarrow> n \<le> unat m) \<and>
        (best = Some x \<or> x \<in> set ds \<and> candidate env history network x) \<and>
        (\<forall>d\<in>set ds. candidate env history network d \<longrightarrow> n \<le> the (delayOf env history d) + unat tol))"
  using assms
proof (induction ds arbitrary: m best)
  case Nil
  then show ?case by (auto split: option.splits)
next
  case (Cons d ds)
  show ?case
  proof (cases "candidate env history network d")
    case False
    then have "selectLoop env history tol network (d # ds) m best = selectLoop env history tol network ds m best"
      by (auto simp: candidate_def delayOf_def)
    then show ?thesis using Cons.IH [of m best] Cons.prems False by (auto split: option.splits)
  next
    case True
    then obtain h where h: "LoadURLTestHistory history (RealTag env d) = Some h" "network \<in> set (ge_Network env d)"
      by (auto simp: candidate_def delayOf_def)
    have c: "0 < unat (hi_Delay h)" "unat (hi_Delay h) + unat tol < 65536" "delayOf env history d = Some (unat (hi_Delay h))"
      using Cons.prems(1) h by (auto simp: comparable_def delayOf_def)
    show ?thesis
    proof (cases "m = 0 \<or> m > hi_Delay h + tol")
      case replaced: True
      have IH: "case selectLoop env history tol network ds (hi_Delay h) (Some d) of None \<Rightarrow> False
        | Some x \<Rightarrow> (\<exists>n. delayOf env history x = Some n \<and> n \<le> unat (hi_Delay h) \<and>
          (d = x \<or> x \<in> set ds \<and> candidate env history network x) \<and>
          (\<forall>d\<in>set ds. candidate env history network d \<longrightarrow> n \<le> the (delayOf env history d) + unat tol))"
        using Cons.IH [of "hi_Delay h" "Some d"] Cons.prems(1) c by (auto simp: word_gt_0 unat_gt_0 split: option.splits)
      have "best \<noteq> None \<longrightarrow> unat (hi_Delay h) \<le> unat m"
        using replaced c Cons.prems(2) by (auto simp: exceeds_iff [OF c(2)] split: option.splits)
      then show ?thesis using IH h replaced c True by (auto split: option.splits)
    next
      case kept: False
      then have b: "best \<noteq> None" using Cons.prems(2) by (auto split: option.splits)
      have le: "unat m \<le> unat (hi_Delay h) + unat tol" using kept by (simp add: exceeds_iff [OF c(2)])
      obtain x n where x: "selectLoop env history tol network ds m best = Some x" "delayOf env history x = Some n" "n \<le> unat m"
        "best = Some x \<or> x \<in> set ds \<and> candidate env history network x"
        "\<forall>d\<in>set ds. candidate env history network d \<longrightarrow> n \<le> the (delayOf env history d) + unat tol"
        using Cons.IH [of m best] Cons.prems b by (auto split: option.splits)
      then show ?thesis using h kept c(3) le by auto
    qed
  qed
qed

text \<open>Nothing better by more than the tolerance: the selection stays.\<close>

lemma selectLoop_stays:
  assumes "\<forall>d\<in>set ds. comparable env history tol d" and "m > 0"
    and "\<forall>d\<in>set ds. candidate env history network d \<longrightarrow> unat m \<le> the (delayOf env history d) + unat tol"
  shows "selectLoop env history tol network ds m best = best"
  using assms
proof (induction ds)
  case (Cons d ds)
  show ?case
  proof (cases "LoadURLTestHistory history (RealTag env d)")
    case None
    then show ?thesis using Cons by simp
  next
    case (Some h)
    then have "delayOf env history d = Some (unat (hi_Delay h))" by (simp add: delayOf_def)
    then show ?thesis using Cons Some exceeds_iff [of "hi_Delay h" tol m]
      by (auto simp: comparable_def candidate_def not_less)
  qed
qed simp

section \<open>Runs of a group\<close>

text \<open>At most one check loop, and only while there is a ticker; selections are members.\<close>

definition groupOk :: "Service list \<Rightarrow> URLTestGroup \<Rightarrow> bool" where
  "groupOk outbounds g =
     (ug_outbounds g = outbounds \<and> ug_entering g + ug_waiting g \<le> (if ug_ticker g then 1 else 0) \<and>
      set_option (ug_selectedOutboundTCP g) \<subseteq> set outbounds \<and> set_option (ug_selectedOutboundUDP g) \<subseteq> set outbounds)"

lemma selectLoop_member:
  "selectLoop env history tol network ds m best = Some x \<Longrightarrow> x \<in> set ds \<or> best = Some x"
proof (induction ds arbitrary: m best)
  case (Cons d ds)
  show ?case
  proof (cases "network \<in> set (ge_Network env d)")
    case False
    then show ?thesis using Cons by auto
  next
    case True
    show ?thesis
    proof (cases "LoadURLTestHistory history (RealTag env d)")
      case None
      then show ?thesis using Cons True by auto
    next
      case (Some h)
      then show ?thesis using Cons.IH [of "hi_Delay h" "Some d"] Cons.IH [of m best] Cons.prems True by (auto split: if_splits)
    qed
  qed
qed simp

lemma Group_Select_member:
  assumes "set_option (selectedOf network g) \<subseteq> set (ug_outbounds g)" and "fst (Group_Select env network g) = Some o'"
  shows "o' \<in> set (ug_outbounds g)"
proof -
  have f: "x \<in> set (ug_outbounds g)" if "find P (ug_outbounds g) = Some x" for P x
    using that by (auto simp: find_Some_iff)
  have s: "x \<in> set (ug_outbounds g)" if "selectLoop env (ug_history g) (ug_tolerance g) network (ug_outbounds g) m best = Some x"
      "best = None \<or> best = selectedOf network g" for m best x
    using selectLoop_member [OF that(1)] that(2) assms(1) by auto
  show ?thesis using assms(2)
    by (auto simp: Group_Select_def split: option.splits dest: f s)
qed

lemma updateSelected_member:
  assumes "set_option (selectedOf network g) \<subseteq> set (ug_outbounds g)"
  shows "set_option (fst (updateSelected env network g)) \<subseteq> set (ug_outbounds g)"
  using Group_Select_member [OF assms, of env] assms
  by (auto simp: updateSelected_def Let_def split: prod.splits option.splits if_splits)

lemma Group_Touch_ok: "groupOk os g \<Longrightarrow> groupOk os (Group_Touch now g)"
  by (auto simp: groupOk_def Group_Touch_def)

lemma groupOk_frame:
  "groupOk os (g\<lparr>ug_history := h\<rparr>) = groupOk os g" "groupOk os (g\<lparr>ug_interruptGroup := c\<rparr>) = groupOk os g"
  "groupOk os (g\<lparr>ug_checking := b\<rparr>) = groupOk os g" "groupOk os (g\<lparr>ug_started := b, ug_lastActive := t\<rparr>) = groupOk os g"
  "groupOk os (g\<lparr>ug_closed := b\<rparr>) = groupOk os g"
  by (simp_all add: groupOk_def)

lemma dialSelected_ok: "groupOk os g \<Longrightarrow> groupOk os (snd (dialSelected env dial ext network sel g))"
  by (auto simp: dialSelected_def groupOk_frame split: option.splits sum.splits)

lemma performUpdateCheck_ok:
  assumes "groupOk os g"
  shows "groupOk os (fst (performUpdateCheck env g))"
proof -
  define tcp where "tcp = fst (updateSelected env ''tcp'' g)"
  define g1 where "g1 = g\<lparr>ug_selectedOutboundTCP := tcp\<rparr>"
  define udp where "udp = fst (updateSelected env ''udp'' g1)"
  have "set_option tcp \<subseteq> set os"
    using updateSelected_member [of "''tcp''" g env] assms by (simp add: tcp_def groupOk_def selectedOf_def)
  then have g1: "groupOk os g1" using assms by (simp add: g1_def groupOk_def)
  then have "set_option udp \<subseteq> set os"
    using updateSelected_member [of "''udp''" g1 env] by (simp add: udp_def groupOk_def selectedOf_def)
  then have "groupOk os (g1\<lparr>ug_selectedOutboundUDP := udp\<rparr>)" using g1 by (simp add: groupOk_def)
  then show ?thesis
    by (simp add: performUpdateCheck_def Let_def split_beta tcp_def [symmetric] g1_def [symmetric] udp_def [symmetric] groupOk_frame)
qed

lemma loop_steps_ok:
  assumes "groupOk os g"
  shows "0 < ug_entering g \<Longrightarrow> groupOk os (loopBegin now g)"
    and "0 < ug_waiting g \<Longrightarrow> loopTick now g = Inr g' \<Longrightarrow> groupOk os g'"
    and "groupOk os (loopClosed g)"
  using assms by (auto simp: groupOk_def loopBegin_def loopTick_def loopClosed_def Let_def split: if_splits)

lemma groupStep_ok:
  assumes "groupStep lookup g g'" and "groupOk os g"
  shows "groupOk os g'"
  using assms
proof (cases rule: groupStep.cases)
  case (test_end env test now finished force result closed)
  define history where "history = snd (testLoop env lookup test now finished (ug_interval g) force (ug_outbounds g) [] (ug_history g) Map.empty)"
  have "g' = (fst (performUpdateCheck env (g\<lparr>ug_history := history\<rparr>)))\<lparr>ug_checking := False\<rparr>"
    using test_end(2) by (auto simp: urlTestEnd_def Let_def split_beta history_def)
  then show ?thesis using performUpdateCheck_ok assms(2) by (simp add: groupOk_frame)
qed (use assms(2) in \<open>auto simp: Group_PostStart_def URLTest_DialContext_def URLTest_ListenPacket_def
      URLTest_NewDirectRouteConnection_def Group_Close_def urlTestBegin_def groupOk_frame Let_def
      intro: dialSelected_ok Group_Touch_ok loop_steps_ok split: if_splits option.splits\<close>)

lemma reachable_ok:
  assumes "(groupStep lookup)\<^sup>*\<^sup>* g g'" and "groupOk os g"
  shows "groupOk os g'"
  using assms by (induction rule: rtranclp_induct) (auto intro: groupStep_ok)

text \<open>With the largest tolerance the sum wraps to one less than the delay, so that every candidate as good as the best so far replaces it.\<close>

lemma exceeds_wrapped: "h \<noteq> 0 \<Longrightarrow> (m > (h :: u16) + 65535) \<longleftrightarrow> unat h \<le> unat m"
proof -
  assume h: "h \<noteq> 0"
  have "h + 65535 = h - 1" by simp
  then have "unat (h + 65535) = unat h - 1" using h unat_minus_one [of h] by metis
  moreover have "0 < unat h" using h by (simp add: unat_gt_0)
  ultimately show ?thesis by (simp add: word_less_nat_alt) linarith
qed

lemma selectLoop_wrapped:
  assumes "\<forall>d\<in>set ds. delayOf env history d \<noteq> Some 0"
    and "case best of None \<Rightarrow> m = 0 | Some x \<Rightarrow> m > 0 \<and> delayOf env history x = Some (unat m)"
  shows "case selectLoop env history 65535 network ds m best of
      None \<Rightarrow> best = None \<and> (\<forall>d\<in>set ds. \<not> candidate env history network d)
    | Some x \<Rightarrow> (\<exists>n. delayOf env history x = Some n \<and> (best \<noteq> None \<longrightarrow> n \<le> unat m) \<and>
        (\<forall>d\<in>set ds. candidate env history network d \<longrightarrow> n \<le> the (delayOf env history d)))"
  using assms
proof (induction ds arbitrary: m best)
  case Nil
  then show ?case by (auto split: option.splits)
next
  case (Cons d ds)
  show ?case
  proof (cases "candidate env history network d")
    case False
    then have "selectLoop env history 65535 network (d # ds) m best = selectLoop env history 65535 network ds m best"
      by (auto simp: candidate_def delayOf_def)
    then show ?thesis using Cons.IH [of m best] Cons.prems False by (auto split: option.splits)
  next
    case True
    then obtain h where h: "LoadURLTestHistory history (RealTag env d) = Some h" "network \<in> set (ge_Network env d)"
      by (auto simp: candidate_def delayOf_def)
    have d: "delayOf env history d = Some (unat (hi_Delay h))" using h by (simp add: delayOf_def)
    then have h0: "hi_Delay h \<noteq> 0" using Cons.prems(1) by auto
    let ?b = "if m = 0 \<or> m > hi_Delay h + 65535 then Some d else best"
    let ?m = "if m = 0 \<or> m > hi_Delay h + 65535 then hi_Delay h else m"
    have step: "selectLoop env history 65535 network (d # ds) m best = selectLoop env history 65535 network ds ?m ?b"
      using h by auto
    have b: "?b \<noteq> None" "case ?b of None \<Rightarrow> ?m = 0 | Some x \<Rightarrow> ?m > 0 \<and> delayOf env history x = Some (unat ?m)"
      using Cons.prems(2) h0 d by (auto simp: word_gt_0 split: option.splits)
    have le: "unat ?m \<le> unat (hi_Delay h)" "best \<noteq> None \<longrightarrow> unat ?m \<le> unat m"
      using exceeds_wrapped [OF h0, of m] Cons.prems(2) by (auto split: option.splits)
    obtain x n where x: "selectLoop env history 65535 network ds ?m ?b = Some x" "delayOf env history x = Some n" "n \<le> unat ?m"
      "\<forall>d\<in>set ds. candidate env history network d \<longrightarrow> n \<le> the (delayOf env history d)"
      using Cons.IH [of ?m ?b] Cons.prems(1) b by (auto split: option.splits)
    then show ?thesis unfolding step x(1) using d le by auto
  qed
qed

section \<open>Selectors\<close>

lemma findOutbounds_ok:
  "findOutbounds lookup i tags m = (None, m') \<longleftrightarrow>
     (\<forall>t\<in>set tags. lookup t \<noteq> None) \<and> m' = (\<lambda>t. if t \<in> set tags then lookup t else m t)"
  by (induction tags arbitrary: i m) (auto simp: fun_eq_iff split: option.splits)

text \<open>The selected outbound is one that a tag of the selector stands for.\<close>

definition selectorOk :: "(string \<Rightarrow> Service option) \<Rightarrow> Selector \<Rightarrow> bool" where
  "selectorOk lookup s =
     (sl_selected s \<noteq> None \<and> (\<exists>tag\<in>set (sl_tags s). lookup tag = sl_selected s) \<and>
      (\<forall>tag. sl_outbounds s tag = (if tag \<in> set (sl_tags s) then lookup tag else None)) \<and> (\<forall>tag\<in>set (sl_tags s). lookup tag \<noteq> None))"

lemma savedSelection_member:
  "savedSelection B cf s = Some o' \<Longrightarrow> \<exists>tag. sl_outbounds s tag = Some o'"
  by (auto simp: savedSelection_def Let_def split: if_splits option.splits)

lemma Selector_Start_ok:
  assumes "NewSelector tag tags def e = Inr s0" and "Selector_Start lookup B cf s0 = (None, s)"
  shows "selectorOk lookup s \<and> sl_tags s = tags"
proof -
  have s0: "s0 = \<lparr>sl_tag = tag, sl_tags = tags, sl_defaultTag = def, sl_outbounds = Map.empty, sl_selected = None,
      sl_interruptGroup = [], sl_interruptExternalConnections = e\<rparr>" and ne: "tags \<noteq> []"
    using assms(1) by (auto simp: NewSelector_def split: if_splits)
  obtain err m where f: "findOutbounds lookup 0 tags Map.empty = (err, m)" by fastforce
  have err: "err = None" using assms(2) f by (cases err) (simp_all add: Selector_Start_def s0 Let_def)
  then have m: "\<forall>t\<in>set tags. lookup t \<noteq> None" "m = (\<lambda>t. if t \<in> set tags then lookup t else None)"
    using f by (simp_all add: findOutbounds_ok)
  have member: "x \<in> set tags \<and> lookup x = Some o'" if "m x = Some o'" for x o' using that m(2) by (auto split: if_splits)
  let ?s = "s0\<lparr>sl_outbounds := m\<rparr>"
  have hd: "m (hd tags) \<noteq> None" using m ne by simp
  have flds: "sl_tags s0 = tags" "sl_defaultTag s0 = def" "sl_outbounds s0 = Map.empty" by (simp_all add: s0)
  have "\<exists>x o'. s = ?s\<lparr>sl_selected := Some o'\<rparr> \<and> m x = Some o'"
  proof (cases "savedSelection B cf ?s")
    case None
    then show ?thesis using assms(2) f err hd by (auto simp: Selector_Start_def Let_def flds split: if_splits option.splits)
  next
    case (Some o')
    then obtain x where "m x = Some o'" using savedSelection_member [of B cf ?s o'] by auto
    then show ?thesis using assms(2) f err Some by (auto simp: Selector_Start_def Let_def flds)
  qed
  then obtain x o' where x: "s = ?s\<lparr>sl_selected := Some o'\<rparr>" "m x = Some o'" by blast
  have "sl_outbounds s t = (if t \<in> set tags then lookup t else None)" for t using x(1) m(2) by simp
  then show ?thesis using member [OF x(2)] m(1) x(1) flds(1) unfolding selectorOk_def by auto
qed

lemma SelectOutbound_ok:
  assumes "selectorOk lookup s" and "SelectOutbound B tag s cf = (b, s', cf', closed)"
  shows "selectorOk lookup s'"
  using assms by (auto simp: SelectOutbound_def selectorOk_def Let_def split: option.splits if_splits prod.splits)

section \<open>Properties\<close>

text \<open>
  C22: as long as the delays are positive and do not reach 2^16 with the tolerance added, a group with
  tests selects an outbound whose delay is at most the tolerance above that of any measured outbound
  of the network and no worse than that of the current selection, which it keeps if nothing is better
  by more than the tolerance. Without a measured outbound it falls back to the first one that supports
  the network.
\<close>

theorem selection_is_within_tolerance:
  assumes "\<forall>d\<in>set (ug_outbounds g). comparable env (ug_history g) (ug_tolerance g) d"
    and "\<forall>c. selectedOf network g = Some c \<longrightarrow> delayOf env (ug_history g) c \<noteq> Some 0"
  shows "case Group_Select env network g of
      (None, tested) \<Rightarrow> \<not> tested \<and> (\<forall>d\<in>set (ug_outbounds g). network \<notin> set (ge_Network env d))
    | (Some x, False) \<Rightarrow> (\<forall>d\<in>set (ug_outbounds g). \<not> candidate env (ug_history g) network d) \<and>
        find (\<lambda>d. network \<in> set (ge_Network env d)) (ug_outbounds g) = Some x
    | (Some x, True) \<Rightarrow> (\<exists>n. delayOf env (ug_history g) x = Some n \<and>
        (\<forall>d\<in>set (ug_outbounds g). candidate env (ug_history g) network d \<longrightarrow> n \<le> the (delayOf env (ug_history g) d) + unat (ug_tolerance g)) \<and>
        (\<forall>c m. selectedOf network g = Some c \<and> delayOf env (ug_history g) c = Some m \<longrightarrow> n \<le> m \<and>
           ((\<forall>d\<in>set (ug_outbounds g). candidate env (ug_history g) network d \<longrightarrow> m \<le> the (delayOf env (ug_history g) d) + unat (ug_tolerance g))
              \<longrightarrow> x = c)))"
proof -
  define start where "start = (case selectedOf network g of None \<Rightarrow> (0, None) | Some o' \<Rightarrow>
    (case LoadURLTestHistory (ug_history g) (RealTag env o') of None \<Rightarrow> (0, None) | Some h \<Rightarrow> (hi_Delay h, Some o')))"
  obtain m0 best where s: "start = (m0, best)" by fastforce
  let ?loop = "selectLoop env (ug_history g) (ug_tolerance g) network (ug_outbounds g) m0 best"
  have b: "case best of None \<Rightarrow> m0 = 0 | Some x \<Rightarrow> m0 > 0 \<and> delayOf env (ug_history g) x = Some (unat m0)"
    using s assms(2) by (auto simp: start_def delayOf_def word_gt_0 split: option.splits)
  have current: "best = Some c \<and> unat m0 = m \<and> m0 > 0" if "selectedOf network g = Some c" "delayOf env (ug_history g) c = Some m" for c m
    using s that assms(2) by (auto simp: start_def delayOf_def word_gt_0 split: option.splits)
  note spec = selectLoop_spec [OF assms(1) b, of network]
  note stays = selectLoop_stays [OF assms(1), of m0 network best]
  have sel: "Group_Select env network g = (case ?loop of
      None \<Rightarrow> (find (\<lambda>detour. network \<in> set (ge_Network env detour)) (ug_outbounds g), False) | Some o' \<Rightarrow> (Some o', True))"
    using s by (simp add: Group_Select_def start_def)
  show ?thesis
  proof (cases ?loop)
    case None
    then show ?thesis using sel spec by (cases "find (\<lambda>d. network \<in> set (ge_Network env d)) (ug_outbounds g)") (auto simp: find_None_iff)
  next
    case (Some x)
    have "x = c" if "selectedOf network g = Some c" "delayOf env (ug_history g) c = Some m"
      "\<forall>d\<in>set (ug_outbounds g). candidate env (ug_history g) network d \<longrightarrow> m \<le> the (delayOf env (ug_history g) d) + unat (ug_tolerance g)" for c m
      using stays current [OF that(1,2)] that(3) Some by simp
    moreover obtain n where n: "delayOf env (ug_history g) x = Some n" "best \<noteq> None \<longrightarrow> n \<le> unat m0"
      "\<forall>d\<in>set (ug_outbounds g). candidate env (ug_history g) network d \<longrightarrow> n \<le> the (delayOf env (ug_history g) d) + unat (ug_tolerance g)"
      using spec Some by auto
    ultimately show ?thesis unfolding sel Some using current by simp blast
  qed
qed

text \<open>
  With the largest tolerance, 65535, the 16-bit sum of a delay and the tolerance wraps to one less
  than the delay, and the tolerance has no effect: the selected outbound is never kept when another one
  is faster, by however little.
\<close>

theorem largest_tolerance_has_no_effect:
  assumes "ug_tolerance g = 65535" and "\<forall>d\<in>set (ug_outbounds g). delayOf env (ug_history g) d \<noteq> Some 0"
    and "selectedOf network g = Some c" and "delayOf env (ug_history g) c = Some m" and "0 < m"
    and "d \<in> set (ug_outbounds g)" and "candidate env (ug_history g) network d" and "the (delayOf env (ug_history g) d) < m"
  shows "fst (Group_Select env network g) \<noteq> Some c"
proof -
  obtain h where h: "LoadURLTestHistory (ug_history g) (RealTag env c) = Some h" "unat (hi_Delay h) = m"
    using assms(4) by (auto simp: delayOf_def)
  then have b: "case Some c of None \<Rightarrow> hi_Delay h = 0 | Some x \<Rightarrow> hi_Delay h > 0 \<and> delayOf env (ug_history g) x = Some (unat (hi_Delay h))"
    using assms(4,5) by (auto simp: word_gt_0)
  have "Group_Select env network g = (case selectLoop env (ug_history g) 65535 network (ug_outbounds g) (hi_Delay h) (Some c) of
      None \<Rightarrow> (find (\<lambda>detour. network \<in> set (ge_Network env detour)) (ug_outbounds g), False) | Some o' \<Rightarrow> (Some o', True))"
    using h assms(1,3) by (simp add: Group_Select_def)
  then show ?thesis using selectLoop_wrapped [OF assms(2) b, of network] assms(4,6-8) by (auto split: option.splits)
qed

text \<open>
  C23: whatever the order in which dials, tests, the timer and closing happen, a group with tests has at
  most one check loop, a loop that waits for the ticker always finds one (no nil dereference), and the
  selected outbounds are members of the group.
\<close>

theorem group_runs_one_check_loop:
  assumes "NewURLTestGroup history outbounds interval tolerance idleTimeout interrupts = Inr g0" and "(groupStep lookup)\<^sup>*\<^sup>* g0 g"
  shows "ug_entering g + ug_waiting g \<le> 1 \<and> (0 < ug_waiting g \<longrightarrow> loopTick now g \<noteq> Inl nilOutbound) \<and>
    set_option (ug_selectedOutboundTCP g) \<union> set_option (ug_selectedOutboundUDP g) \<subseteq> set outbounds"
proof -
  have "groupOk outbounds g0" using assms(1) by (auto simp: NewURLTestGroup_def groupOk_def Let_def split: if_splits)
  then have "groupOk outbounds g" using reachable_ok [OF assms(2)] by blast
  then show ?thesis by (auto simp: groupOk_def loopTick_def split: if_splits)
qed

text \<open>
  A selector that has started always has a selected outbound, the one its manager has for one of
  its tags, also after any selection; so it never dials through a nil outbound.
\<close>

theorem selector_dials_through_member:
  assumes "NewSelector tag tags def e = Inr s0" and "Selector_Start lookup B cf s0 = (None, s1)"
    and "SelectOutbound B choice s1 cf1 = (known, s2, cf2, closed)" and "s \<in> {s1, s2}"
  shows "\<exists>t\<in>set tags. \<exists>o'. lookup t = Some o' \<and> sl_selected s = Some o' \<and>
    fst (Selector_Dial dial isExternal s) = dial o' \<and> (known \<longleftrightarrow> choice \<in> set tags)"
proof -
  have 1: "selectorOk lookup s1" "sl_tags s1 = tags" using Selector_Start_ok [OF assms(1,2)] by auto
  have 2: "selectorOk lookup s2" "sl_tags s2 = tags"
    using SelectOutbound_ok [OF 1(1) assms(3)] assms(3) 1(2) by (auto simp: SelectOutbound_def Let_def split: option.splits if_splits prod.splits)
  have k: "known \<longleftrightarrow> choice \<in> set tags"
    using assms(3) 1 by (auto simp: SelectOutbound_def selectorOk_def Let_def split: option.splits if_splits prod.splits)
  have "selectorOk lookup s \<and> sl_tags s = tags" using 1 2 assms(4) by auto
  then obtain t o' where "t \<in> set tags" "lookup t = Some o'" "sl_selected s = Some o'" by (auto simp: selectorOk_def)
  then show ?thesis using k by (auto simp: Selector_Dial_def split: sum.splits)
qed

text \<open>
  A selection that was saved in the cache file is the selection after a restart with the same tag,
  as long as the chosen member is still configured, whatever the configured default.
\<close>

theorem selection_survives_restart:
  assumes "bolt B" and "SelectOutbound B choice s (Some c) = (True, s', Some c', closed)" and "sl_selected s \<noteq> sl_selected s'"
    and "fst (StoreSelected B (sl_tag s) choice c) = None" and "sl_tag s \<noteq> ''''" and "choice \<noteq> ''''"
    and "NewSelector (sl_tag s) tags def e = Inr s0" and "choice \<in> set tags" and "\<forall>t\<in>set tags. lookup t \<noteq> None"
  shows "\<exists>s1. Selector_Start lookup B (Some c') s0 = (None, s1) \<and> sl_selected s1 = lookup choice"
proof -
  have c': "c' = snd (StoreSelected B (sl_tag s) choice c)"
    using assms(2,3,5) by (auto simp: SelectOutbound_def Let_def split: option.splits if_splits prod.splits)
  from bolt.entry_written [OF assms(1), of c bucketSelected "bytesOf (sl_tag s)" "bytesOf choice"]
  obtain db' where db: "c' = c\<lparr>cf_DB := db'\<rparr>" "hasBucket B c db' bucketSelected"
    "bo_Get B db' (bucketPath c bucketSelected) (bytesOf (sl_tag s)) = Some (bytesOf choice)"
    using assms(4) c' by (auto simp: StoreSelected_def)
  then have load: "LoadSelected B c' (sl_tag s) = choice" using assms(6)
    by (auto simp: LoadSelected_def hasBucket_def bucketPath_def)
  have f: "findOutbounds lookup 0 tags Map.empty = (None, \<lambda>t. if t \<in> set tags then lookup t else None)"
    using assms(9) by (simp add: findOutbounds_ok)
  obtain o' where o': "lookup choice = Some o'" using assms(8,9) by blast
  show ?thesis using assms(5-8) load f o'
    by (auto simp: Selector_Start_def NewSelector_def savedSelection_def Let_def split: if_splits)
qed

section \<open>Witnesses\<close>

definition tcpOnly :: GroupEnv where
  "tcpOnly = \<lparr>ge_Network = \<lambda>_. [''tcp''], ge_Now = \<lambda>_. None\<rparr>"

definition twoServers :: "string \<Rightarrow> Service option" where
  "twoServers = [''a'' \<mapsto> server ''a'' [], ''b'' \<mapsto> server ''b'' []]"

definition measuredGroup :: "u16 \<Rightarrow> URLTestGroup" where
  "measuredGroup tolerance =
     \<lparr>ug_outbounds = [server ''a'' [], server ''b'' []], ug_interval = 1, ug_tolerance = tolerance, ug_idleTimeout = 1,
      ug_history = [''a'' \<mapsto> \<lparr>hi_Time = 0, hi_Delay = 80\<rparr>, ''b'' \<mapsto> \<lparr>hi_Time = 0, hi_Delay = 40\<rparr>], ug_checking = False,
      ug_selectedOutboundTCP = Some (server ''a'' []), ug_selectedOutboundUDP = None, ug_interruptGroup = [],
      ug_interruptExternalConnections = False, ug_ticker = False, ug_closed = False, ug_started = False, ug_lastActive = 0,
      ug_entering = 0, ug_waiting = 0\<rparr>"

lemmas measured_defs = measuredGroup_def tcpOnly_def server_def delayOf_def candidate_def comparable_def selectedOf_def RealTag_def
  LoadURLTestHistory_def

theorem selection_is_within_tolerance_witness:
  "Group_Select tcpOnly ''tcp'' (measuredGroup 50) = (Some (server ''a'' []), True) \<and> (80 :: nat) \<le> 40 + 50"
proof -
  have "\<exists>x. Group_Select tcpOnly ''tcp'' (measuredGroup 50) = (Some x, True)"
    by (simp add: Group_Select_def measured_defs)
  then obtain x where x: "Group_Select tcpOnly ''tcp'' (measuredGroup 50) = (Some x, True)" ..
  have "x = server ''a'' []"
    using selection_is_within_tolerance [of "measuredGroup 50" tcpOnly "''tcp''"] x by (auto simp: measured_defs)
  then show ?thesis using x by simp
qed

theorem largest_tolerance_has_no_effect_witness:
  "fst (Group_Select tcpOnly ''tcp'' (measuredGroup 65535)) \<noteq> Some (server ''a'' [])"
  by (rule largest_tolerance_has_no_effect [of _ _ _ _ 80 "server ''b'' []"]) (simp_all add: measured_defs)

theorem group_runs_one_check_loop_witness:
  "\<exists>g0 g. NewURLTestGroup Map.empty [server ''a'' []] 0 0 0 False = Inr g0 \<and> (groupStep twoServers)\<^sup>*\<^sup>* g0 g \<and>
     ug_waiting g = 1 \<and> loopTick 7 g \<noteq> Inl nilOutbound"
proof -
  obtain g0 where g0: "NewURLTestGroup Map.empty [server ''a'' []] 0 0 0 False = Inr g0" by (simp add: NewURLTestGroup_def)
  let ?g1 = "Group_PostStart 1 g0"
  let ?g2 = "snd (URLTest_ListenPacket tcpOnly (\<lambda>_. Inr 0) 2 True ?g1)"
  let ?g3 = "loopBegin 3 ?g2"
  have d: "ug_entering ?g2 = 1 \<and> ug_waiting ?g2 = 0" using g0
    by (auto simp: NewURLTestGroup_def URLTest_ListenPacket_def Group_Touch_def Group_PostStart_def dialSelected_def Let_def
        split: if_splits option.splits)
  have "groupStep twoServers g0 ?g1" "groupStep twoServers ?g1 ?g2" "groupStep twoServers ?g2 ?g3"
    using d by (auto intro: groupStep.intros)
  then have r: "(groupStep twoServers)\<^sup>*\<^sup>* g0 ?g3" by (meson rtranclp.rtrancl_refl rtranclp.rtrancl_into_rtrancl)
  have "ug_waiting ?g3 = 1" using d by (simp add: loopBegin_def Let_def)
  then show ?thesis using g0 r group_runs_one_check_loop [OF g0 r, of 7] by auto
qed

lemma NewSelector_two: "\<exists>s0. NewSelector ''s'' [''a'', ''b''] '''' False = Inr s0 \<and> sl_tag s0 = ''s''"
  by (simp add: NewSelector_def)

theorem selector_dials_through_member_witness:
  "\<exists>s0 s1. NewSelector ''s'' [''a'', ''b''] '''' False = Inr s0 \<and>
     Selector_Start twoServers mapBolt (None :: mapDB CacheFile option) s0 = (None, s1) \<and> sl_selected s1 \<noteq> None"
proof -
  obtain s0 where s0: "NewSelector ''s'' [''a'', ''b''] '''' False = Inr s0" using NewSelector_two by blast
  have "fst (Selector_Start twoServers mapBolt (None :: mapDB CacheFile option) s0) = None"
    using s0 by (auto simp: NewSelector_def Selector_Start_def savedSelection_def twoServers_def)
  then obtain s1 where s1: "Selector_Start twoServers mapBolt (None :: mapDB CacheFile option) s0 = (None, s1)" by (metis prod.collapse)
  obtain k s2 cf2 closed where "SelectOutbound mapBolt ''b'' s1 (None :: mapDB CacheFile option) = (k, s2, cf2, closed)" by (metis prod.collapse)
  from selector_dials_through_member [OF s0 s1 this, of s1] show ?thesis using s0 s1 by auto
qed

theorem selection_survives_restart_witness:
  "\<exists>c' s0 s1. NewSelector ''s'' [''a'', ''b''] '''' False = Inr s0 \<and> Selector_Start twoServers mapBolt (Some c') s0 = (None, s1) \<and>
     sl_selected s1 = Some (server ''b'' [])"
proof -
  obtain s0 where s0: "NewSelector ''s'' [''a'', ''b''] '''' False = Inr s0" "sl_tag s0 = ''s''" using NewSelector_two by blast
  let ?c = "newCacheFile '''' (Map.empty :: mapDB)"
  let ?s = "s0\<lparr>sl_outbounds := twoServers, sl_selected := Some (server ''a'' [])\<rparr>"
  have st: "fst (StoreSelected mapBolt ''s'' ''b'' ?c) = None"
    unfolding StoreSelected_def using good_keys(1)
    by (intro mb.entry_into_empty) (auto simp: goodKey_def newCacheFile_def CacheFile_New_def mapBolt_def mapGet_def goodValue_def)
  obtain s' c' closed where so: "SelectOutbound mapBolt ''b'' ?s (Some ?c) = (True, s', Some c', closed)"
    and "sl_selected s' = Some (server ''b'' [])"
    by (simp add: SelectOutbound_def twoServers_def server_def s0(2) Let_def split_beta)
  then have ne: "sl_selected ?s \<noteq> sl_selected s'" by (simp add: server_def)
  have n: "NewSelector (sl_tag ?s) [''a'', ''b''] '''' False = Inr s0" using s0 by simp
  have m: "\<forall>t\<in>set [''a'', ''b'']. twoServers t \<noteq> None" "twoServers ''b'' = Some (server ''b'' [])" by (simp_all add: twoServers_def)
  have t: "fst (StoreSelected mapBolt (sl_tag ?s) ''b'' ?c) = None" "sl_tag ?s \<noteq> ''''" using st s0(2) by simp_all
  from selection_survives_restart [OF mb.bolt_axioms so ne t _ n _ m(1)] show ?thesis using s0(1) m(2) by auto
qed

end
