(* ===== verification/Float64.thy ===== *)
theory Float64
  imports Complex_Main Prelude
begin

text \<open>
  The \<open>float64\<close> arithmetic behind \<open>Duration.Seconds\<close>, on non-negative numbers below 2^53: a result is
  rounded to 53 significant bits, to the nearest number and in a tie to the even one (at most 1074
  fractional bits, as for the subnormal numbers).
\<close>

definition roundEven :: "rat \<Rightarrow> int" where
  "roundEven x =
     (let f = \<lfloor>x\<rfloor>; r = x - of_int f
      in if r < 1 / 2 then f else if r > 1 / 2 then f + 1 else if even f then f else f + 1)"

text \<open>How often \<open>x\<close> is doubled until it has 53 bits before the point.\<close>

primrec scaleBits :: "nat \<Rightarrow> rat \<Rightarrow> nat" where
  "scaleBits 0 x = 0"
| "scaleBits (Suc n) x = (if 2 ^ 52 \<le> x then 0 else Suc (scaleBits n (2 * x)))"

definition float64 :: "rat \<Rightarrow> rat" where
  "float64 x = (let k = scaleBits 1074 x in of_int (roundEven (x * 2 ^ k)) / 2 ^ k)"

text \<open>
  \<open>Duration.Seconds\<close> of \<open>d\<close> nanoseconds: \<open>float64(sec) + float64(nsec)/1e9\<close>; and its conversion to \<open>int\<close>,
  towards zero.
\<close>

definition durationSeconds :: "int \<Rightarrow> rat" where
  "durationSeconds d =
     float64 (float64 (of_int (d div 1000000000)) + float64 (float64 (of_int (d mod 1000000000)) / 1000000000))"

definition wholeSeconds :: "int \<Rightarrow> int" where
  "wholeSeconds d = (if d \<ge> 0 then \<lfloor>durationSeconds d\<rfloor> else - \<lfloor>durationSeconds (- d)\<rfloor>)"

section \<open>Rounding\<close>

lemma roundEven_of_int [simp]: "roundEven (of_int n) = n"
  by (simp add: roundEven_def)

lemma roundEven_ge: "of_int n \<le> x \<Longrightarrow> n \<le> roundEven x"
proof -
  assume "of_int n \<le> x"
  then have "n \<le> \<lfloor>x\<rfloor>" by (simp add: le_floor_iff)
  then show ?thesis by (auto simp: roundEven_def Let_def)
qed

lemma roundEven_near: "of_int (roundEven x) \<le> x + 1 / 2"
proof -
  have f: "of_int \<lfloor>x\<rfloor> \<le> x" by simp
  consider "roundEven x = \<lfloor>x\<rfloor>" | "roundEven x = \<lfloor>x\<rfloor> + 1" "\<not> x - of_int \<lfloor>x\<rfloor> < 1 / 2"
    unfolding roundEven_def Let_def by (metis (full_types))
  then show ?thesis
  proof cases
    case 1
    have "x \<le> x + 1 / 2" by simp
    then show ?thesis using f 1 by (metis order_trans)
  next
    case 2
    then have "1 / 2 \<le> x - of_int \<lfloor>x\<rfloor>" by simp
    then have "of_int \<lfloor>x\<rfloor> + 1 \<le> x + 1 / 2" by (simp add: field_simps)
    then show ?thesis using 2(1) by simp
  qed
qed

lemma scaleBits_more:
  assumes "x * 2 ^ j < 2 ^ 52" and "j < n" and "0 \<le> x"
  shows "j < scaleBits n x"
  using assms
proof (induction j arbitrary: n x)
  case 0
  then show ?case by (cases n) simp_all
next
  case (Suc j)
  then obtain m where n: "n = Suc m" by (cases n) simp_all
  have "x * 1 \<le> x * 2 ^ Suc j" using Suc.prems(3) by (intro mult_left_mono) (simp_all only: one_le_power one_le_numeral)
  then have "x < 2 ^ 52" using Suc.prems(1) by simp
  moreover have "j < scaleBits m (2 * x)" using Suc.IH [of "2 * x" m] Suc.prems n by (simp add: mult_ac)
  ultimately show ?case by (simp add: n)
qed

lemma float64_of_int [simp]: "float64 (of_int n) = of_int n"
proof -
  have "(of_int n :: rat) * 2 ^ k = of_int (n * 2 ^ k)" for k by simp
  then show ?thesis unfolding float64_def Let_def by (simp only: roundEven_of_int) simp
qed

lemma float64_ge: "of_int n \<le> x \<Longrightarrow> of_int n \<le> float64 x"
proof -
  assume "of_int n \<le> x"
  then have "of_int (n * 2 ^ k) \<le> x * 2 ^ k" for k by (simp add: mult_right_mono)
  then have "n * 2 ^ k \<le> roundEven (x * 2 ^ k)" for k by (intro roundEven_ge)
  then have "of_int (n * 2 ^ k) \<le> (of_int (roundEven (x * 2 ^ k)) :: rat)" for k by (simp only: of_int_le_iff)
  then show ?thesis by (simp add: float64_def Let_def pos_le_divide_eq)
qed

lemma float64_near:
  assumes "0 \<le> x" and "x < 2 ^ m" and "m \<le> 52"
  shows "float64 x \<le> x + 1 / 2 ^ (54 - m)"
proof -
  let ?k = "scaleBits 1074 x"
  have "x * 2 ^ (52 - m) < 2 ^ m * 2 ^ (52 - m)" using assms(2) by (intro mult_strict_right_mono) simp_all
  also have "(2::rat) ^ m * 2 ^ (52 - m) = 2 ^ 52" using assms(3) by (simp flip: power_add)
  finally have "52 - m < ?k" by (intro scaleBits_more) (use assms in simp_all)
  then have k: "53 - m \<le> ?k" by simp
  have "float64 x \<le> (x * 2 ^ ?k + 1 / 2) / 2 ^ ?k"
    unfolding float64_def Let_def by (intro divide_right_mono roundEven_near) simp
  also have "\<dots> = x + 1 / 2 ^ Suc ?k" by (simp add: add_divide_distrib)
  also have "(1::rat) / 2 ^ Suc ?k \<le> 1 / 2 ^ (54 - m)"
    using k by (intro divide_left_mono power_increasing) simp_all
  finally show ?thesis by simp
qed

text \<open>Below 2^22 seconds the conversion is exact.\<close>

lemma wholeSeconds_exact:
  assumes "0 \<le> d" and "d < 2 ^ 22 * 1000000000"
  shows "wholeSeconds d = d div 1000000000"
proof -
  let ?s = "d div 1000000000" and ?n = "d mod 1000000000"
  let ?f = "float64 (of_int ?n / 1000000000)"
  have s: "0 \<le> ?s" "?s < 2 ^ 22" using assms by (simp_all add: pos_imp_zdiv_nonneg_iff div_less_iff_less_mult)
  have n: "0 \<le> ?n" "?n \<le> 999999999" using pos_mod_bound [of 1000000000 d] by simp_all
  have q: "0 \<le> (of_int ?n :: rat) / 1000000000" "(of_int ?n :: rat) / 1000000000 \<le> 999999999 / 1000000000"
    using n by (simp_all add: divide_right_mono)
  have f0: "0 \<le> ?f" using float64_ge [of 0] q(1) by simp
  have "?f \<le> of_int ?n / 1000000000 + 1 / 2 ^ (54 - 0)" by (rule float64_near) (use q in simp_all)
  then have f1: "?f \<le> 999999999 / 1000000000 + 1 / 2 ^ 54" using q(2) by simp
  have "(of_int ?s :: rat) \<le> of_int (2 ^ 22 - 1)" using s(2) by (simp only: of_int_le_iff)
  then have y: "of_int ?s + ?f < 2 ^ 22" using f1 by simp
  have "durationSeconds d = float64 (of_int ?s + ?f)" by (simp add: durationSeconds_def)
  moreover have "of_int ?s \<le> float64 (of_int ?s + ?f)" by (rule float64_ge) (use f0 in simp)
  moreover have "float64 (of_int ?s + ?f) \<le> of_int ?s + ?f + 1 / 2 ^ (54 - 22)"
    by (rule float64_near) (use y f0 s(1) in simp_all)
  moreover have "of_int ?s + ?f + 1 / 2 ^ (54 - 22) < of_int ?s + 1" using f1 by simp
  ultimately have "\<lfloor>durationSeconds d\<rfloor> = ?s" by (intro floor_unique) linarith+
  then show ?thesis using assms(1) by (simp add: wholeSeconds_def)
qed

end
