(* ===== verification/Dns_Client.thy ===== *)
theory Dns_Client
  imports Actions Float64
begin

text \<open>
  \<open>dns/client.go\<close>: one exchange of a DNS message with a server, with the response cache, the cache of
  rejected responses and the rewriting of TTLs, and the lookup of addresses by two exchanges.

  The cache is the \<open>freelru\<close> cache of \<open>sing\<close>, the record \<open>Lru\<close>; the cache of rejected responses is
  the record \<open>Rdrc\<close> (the cache file, theory \<open>Cache_File\<close>). An entry is keyed by the question and, for
  independent caches, by the tag of the server. The cache holds a pointer to the message that the
  exchange goes on to edit (its id and its OPT record), so the entry is written with the message as
  the exchange leaves it. Exchanges of the same question wait for each other on a channel; the model
  is the sequence of them. Times are nanoseconds.
\<close>

section \<open>State\<close>

text \<open>Errors: an \<open>RcodeError\<close>, the two rejections of responses, a reject action, and all others.\<close>

datatype DnsError =
    RcodeError int
  | ResponseRejected Msg
  | ResponseRejectedCached
  | NotCached
  | RejectedByRule RejectOutcome
  | OtherError Error
  | CausedBy DnsError "Arg list"

text \<open>\<open>errors.As(err, &rcodeError)\<close>.\<close>

fun asRcode :: "DnsError \<Rightarrow> int option" where
  "asRcode (RcodeError rcode) = Some rcode"
| "asRcode (CausedBy e args) = asRcode e"
| "asRcode e = None"

type_synonym cacheKey = "Question \<times> string"

record 's Lru =
  lr_Get :: "cacheKey \<Rightarrow> 's \<Rightarrow> Msg option \<times> 's"
  lr_GetWithLifetime :: "int \<Rightarrow> cacheKey \<Rightarrow> 's \<Rightarrow> (Msg \<times> int) option \<times> 's"
  lr_Add :: "cacheKey \<Rightarrow> Msg \<Rightarrow> 's \<Rightarrow> 's"
  lr_AddWithLifetime :: "int \<Rightarrow> cacheKey \<Rightarrow> Msg \<Rightarrow> int \<Rightarrow> 's \<Rightarrow> 's"
  lr_Remove :: "cacheKey \<Rightarrow> 's \<Rightarrow> 's"
  lr_Purge :: "'s \<Rightarrow> 's"

record 'r Rdrc =
  rd_Load :: "string \<Rightarrow> string \<Rightarrow> u16 \<Rightarrow> 'r \<Rightarrow> bool \<times> 'r"
  rd_SaveAsync :: "string \<Rightarrow> string \<Rightarrow> u16 \<Rightarrow> 'r \<Rightarrow> 'r"

record ('s, 'r) Client =
  cl_disableCache :: bool
  cl_disableExpire :: bool
  cl_independentCache :: bool
  cl_clientSubnet :: Prefix
  cl_cache :: 's
  cl_rdrc :: "'r option"

record ('s, 'r) ClientLib =
  cb_dl :: DnsLib
  cb_lru :: "'s Lru"
  cb_rdrc :: "'r Rdrc"

record DNSQueryOptions =
  qo_Strategy :: DomainStrategy
  qo_LookupStrategy :: DomainStrategy
  qo_DisableCache :: bool
  qo_RewriteTTL :: "u32 option"
  qo_ClientSubnet :: Prefix

text \<open>
  A server: its type, its tag, what it answers, and the strategy and subnet of a
  \<open>LegacyDNSTransport\<close>.
\<close>

record Transport =
  tr_Type :: string
  tr_Tag :: string
  tr_Exchange :: "Msg \<Rightarrow> DnsError + Msg"
  tr_Legacy :: "(DomainStrategy \<times> Prefix) option"

section \<open>The cache\<close>

definition cacheKeyOf :: "('s, 'r) Client \<Rightarrow> Question \<Rightarrow> Transport \<Rightarrow> cacheKey" where
  "cacheKeyOf c question transport = (question, if cl_independentCache c then tr_Tag transport else '''')"

definition storeCache ::
  "('s, 'r) ClientLib \<Rightarrow> int \<Rightarrow> Transport \<Rightarrow> Question \<Rightarrow> Msg \<Rightarrow> u32 \<Rightarrow> ('s, 'r) Client \<Rightarrow> ('s, 'r) Client" where
  "storeCache lib now transport question message timeToLive c =
     (if timeToLive = 0 then c
      else if cl_disableExpire c
      then c\<lparr>cl_cache := lr_Add (cb_lru lib) (cacheKeyOf c question transport) message (cl_cache c)\<rparr>
      else c\<lparr>cl_cache := lr_AddWithLifetime (cb_lru lib) now (cacheKeyOf c question transport) message
                          (1000000000 * int (unat timeToLive)) (cl_cache c)\<rparr>)"

text \<open>The least positive TTL of the records (0 if there is none): the loops of \<open>Exchange\<close> and \<open>loadResponse\<close>.\<close>

fun leastTTL :: "u32 \<Rightarrow> Record list \<Rightarrow> u32" where
  "leastTTL t [] = t"
| "leastTTL t (record # records) =
     leastTTL (if t = 0 \<or> rc_Ttl record > 0 \<and> rc_Ttl record < t then rc_Ttl record else t) records"

text \<open>\<open>wholeSeconds\<close> is \<open>int(expireAt.Sub(timeNow).Seconds())\<close>, computed in \<open>float64\<close>.\<close>

definition setTTL :: "(u32 \<Rightarrow> u32) \<Rightarrow> Msg \<Rightarrow> Msg" where
  "setTTL f m = mapRecords (\<lambda>r. r\<lparr>rc_Ttl := f (rc_Ttl r)\<rparr>) m"

definition loadResponse ::
  "('s, 'r) ClientLib \<Rightarrow> int \<Rightarrow> Question \<Rightarrow> Transport \<Rightarrow> ('s, 'r) Client \<Rightarrow> Msg option \<times> ('s, 'r) Client" where
  "loadResponse lib now question transport c =
     (if cl_disableExpire c
      then (let (response, s) = lr_Get (cb_lru lib) (cacheKeyOf c question transport) (cl_cache c)
            in (response, c\<lparr>cl_cache := s\<rparr>))
      else (case lr_GetWithLifetime (cb_lru lib) now (cacheKeyOf c question transport) (cl_cache c) of
              (None, s) \<Rightarrow> (None, c\<lparr>cl_cache := s\<rparr>)
            | (Some (response, expireAt), s) \<Rightarrow>
                if now > expireAt
                then (None, c\<lparr>cl_cache := lr_Remove (cb_lru lib) (cacheKeyOf c question transport) s\<rparr>)
                else let originTTL = int (unat (leastTTL 0 (msgRecords response)));
                         seconds = wholeSeconds (expireAt - now);
                         nowTTL = (if seconds < 0 then 0 else seconds)
                     in (Some (if originTTL > 0
                               then setTTL (\<lambda>ttl. ttl - word_of_int (originTTL - nowTTL)) response
                               else setTTL (\<lambda>_. word_of_int nowTTL) response),
                         c\<lparr>cl_cache := s\<rparr>)))"

section \<open>Exchange\<close>

text \<open>A request that may be answered from the cache: one question, no OPT record with contents.\<close>

definition isSimpleRequest :: "Msg \<Rightarrow> DNSQueryOptions \<Rightarrow> bool" where
  "isSimpleRequest message options =
     (length (ms_Question message) = 1 \<and> length (ms_Ns message) = 0 \<and>
      (case ms_Extra message of
         [] \<Rightarrow> True
       | [r] \<Rightarrow> rc_Rrtype r = TypeOPT \<and> rc_Class r > 0 \<and> rc_Ttl r = 0 \<and> rc_Data r = RD_OPT []
       | _ \<Rightarrow> False) \<and>
      \<not> prefixIsValid (qo_ClientSubnet options))"

text \<open>The check of the response by the rule: no addresses for an empty answer.\<close>

definition responseRejected :: "DnsLib \<Rightarrow> (Addr list \<Rightarrow> bool) \<Rightarrow> Msg \<Rightarrow> bool" where
  "responseRejected dl responseChecker response =
     (if ms_Rcode response \<noteq> 0 \<and> ms_Rcode response \<noteq> 3 then True
      else if length (ms_Answer response) = 0 then \<not> responseChecker []
      else \<not> responseChecker (MessageToAddresses dl response))"

text \<open>HTTPS answers lose the address hints of the family that the strategy excludes.\<close>

definition filterHints :: "DomainStrategy \<Rightarrow> Record \<Rightarrow> Record" where
  "filterHints strategy record =
     (case rc_Data record of
        RD_HTTPS values \<Rightarrow>
          record\<lparr>rc_Data := RD_HTTPS (filter (\<lambda>(key, _). if strategy = DomainStrategyIPv4Only then key \<noteq> 6 else key \<noteq> 4) values)\<rparr>
      | _ \<Rightarrow> record)"

definition filterHTTPS :: "Question \<Rightarrow> DomainStrategy \<Rightarrow> Msg \<Rightarrow> Msg" where
  "filterHTTPS question strategy response =
     (if qu_Qtype question = TypeHTTPS \<and> (strategy = DomainStrategyIPv4Only \<or> strategy = DomainStrategyIPv6Only)
      then response\<lparr>ms_Answer := map (filterHints strategy) (ms_Answer response)\<rparr>
      else response)"

definition responseTTL :: "DNSQueryOptions \<Rightarrow> Msg \<Rightarrow> u32" where
  "responseTTL options response =
     (let soa = (if length (ms_Answer response) = 0
                 then (case extractNegativeTTL response of Some t \<Rightarrow> t | None \<Rightarrow> 0) else 0);
          ttl = (if soa = 0 then leastTTL 0 (msgRecords response) else soa)
      in case qo_RewriteTTL options of Some t \<Rightarrow> t | None \<Rightarrow> ttl)"

text \<open>The OPT record of the response, when the request has none or a lower version.\<close>

definition adjustEdns :: "DnsLib \<Rightarrow> Msg \<Rightarrow> Msg \<Rightarrow> Msg" where
  "adjustEdns dl message response =
     (case dl_IsEdns0 dl response of
        None \<Rightarrow> response
      | Some responseOpt \<Rightarrow>
          (let stripped = response\<lparr>ms_Extra := filter (\<lambda>r. rc_Rrtype r \<noteq> TypeOPT) (ms_Extra response)\<rparr>
           in case dl_IsEdns0 dl message of
                None \<Rightarrow> stripped
              | Some requestOpt \<Rightarrow>
                  if dl_Version dl requestOpt < dl_Version dl responseOpt
                  then dl_SetEdns0 dl responseOpt stripped else response))"

text \<open>What follows the response of the server: checks, TTL, cache, OPT record.\<close>

definition finishExchange ::
  "('s, 'r) ClientLib \<Rightarrow> int \<Rightarrow> Transport \<Rightarrow> Question \<Rightarrow> Msg \<Rightarrow> DNSQueryOptions \<Rightarrow> (Addr list \<Rightarrow> bool) option \<Rightarrow> bool \<Rightarrow> Msg \<Rightarrow>
   ('s, 'r) Client \<Rightarrow> (DnsError + Msg) \<times> ('s, 'r) Client" where
  "finishExchange lib now transport question message options responseChecker disableCache0 response0 c =
     (let disableCache = (disableCache0 \<or> (ms_Rcode response0 \<noteq> 0 \<and> ms_Rcode response0 \<noteq> 3))
      in if (case responseChecker of None \<Rightarrow> False | Some check \<Rightarrow> responseRejected (cb_dl lib) check response0)
         then (Inl (ResponseRejected response0),
               (case cl_rdrc c of
                  Some r \<Rightarrow> if disableCache then c
                            else c\<lparr>cl_rdrc := Some (rd_SaveAsync (cb_rdrc lib) (tr_Tag transport) (qu_Name question) (qu_Qtype question) r)\<rparr>
                | None \<Rightarrow> c))
         else let response1 = filterHTTPS question (qo_Strategy options) response0;
                  timeToLive = responseTTL options response1;
                  response2 = (setTTL (\<lambda>_. timeToLive) response1)\<lparr>ms_Id := ms_Id message\<rparr>;
                  response3 = adjustEdns (cb_dl lib) message response2
              in (Inr response3, if disableCache then c else storeCache lib now transport question response3 timeToLive c))"

text \<open>
  \<open>Exchange\<close>, with the tag of the server whose query this one serves (\<open>transportTagFromContext\<close>); \<open>now\<close>
  is the time of the load from the cache and \<open>later\<close> the time of the store.
\<close>

definition Client_Exchange ::
  "('s, 'r) ClientLib \<Rightarrow> int \<Rightarrow> int \<Rightarrow> string option \<Rightarrow> Transport \<Rightarrow> Msg \<Rightarrow> DNSQueryOptions \<Rightarrow> (Addr list \<Rightarrow> bool) option \<Rightarrow>
   ('s, 'r) Client \<Rightarrow> (DnsError + Msg) \<times> ('s, 'r) Client" where
  "Client_Exchange lib now later contextTransport transport message0 options responseChecker c =
     (case ms_Question message0 of
        [] \<Rightarrow> (Inr (FixedResponseStatus message0 1), c)
      | question # _ \<Rightarrow>
          if (qu_Qtype question = TypeA \<and> qo_Strategy options = DomainStrategyIPv6Only) \<or>
             (qu_Qtype question = TypeAAAA \<and> qo_Strategy options = DomainStrategyIPv4Only)
          then (Inr (FixedResponseStatus message0 0), c)
          else let clientSubnet = (if prefixIsValid (qo_ClientSubnet options) then qo_ClientSubnet options else cl_clientSubnet c);
                   message = (if prefixIsValid clientSubnet then SetClientSubnet message0 clientSubnet else message0);
                   disableCache = (\<not> isSimpleRequest message options \<or> cl_disableCache c \<or> qo_DisableCache options);
                   (cached, c1) = (if disableCache then (None, c) else loadResponse lib now question transport c)
               in case cached of
                    Some response \<Rightarrow> (Inr (response\<lparr>ms_Id := ms_Id message\<rparr>), c1)
                  | None \<Rightarrow>
                      if contextTransport = Some (tr_Tag transport)
                      then (Inl (OtherError (E_New [AStr ''DNS query loopback in transport['', AStr (tr_Tag transport), AStr '']''])), c1)
                      else let (rejected, c2) =
                                 (case (if disableCache \<or> responseChecker = None then None else cl_rdrc c1) of
                                    None \<Rightarrow> (False, c1)
                                  | Some r \<Rightarrow>
                                      (let (b, r') = rd_Load (cb_rdrc lib) (tr_Tag transport) (qu_Name question) (qu_Qtype question) r
                                       in (b, c1\<lparr>cl_rdrc := Some r'\<rparr>)))
                           in if rejected then (Inl ResponseRejectedCached, c2)
                              else case tr_Exchange transport message of
                                     Inr response \<Rightarrow> finishExchange lib later transport question message options responseChecker disableCache response c2
                                   | Inl err \<Rightarrow>
                                       (case asRcode err of
                                          Some rcode \<Rightarrow>
                                            finishExchange lib later transport question message options responseChecker disableCache
                                              (FixedResponseStatus message rcode) c2
                                        | None \<Rightarrow> (Inl err, c2)))"


section \<open>Lookup\<close>

definition questionCache ::
  "('s, 'r) ClientLib \<Rightarrow> int \<Rightarrow> Question \<Rightarrow> Transport \<Rightarrow> ('s, 'r) Client \<Rightarrow> (DnsError + Addr list) \<times> ('s, 'r) Client" where
  "questionCache lib now question transport c =
     (case loadResponse lib now question transport c of
        (None, c1) \<Rightarrow> (Inl NotCached, c1)
      | (Some response, c1) \<Rightarrow>
          (if ms_Rcode response \<noteq> 0 then Inl (RcodeError (ms_Rcode response)) else Inr (MessageToAddresses (cb_dl lib) response), c1))"

definition queryMessage :: "Question \<Rightarrow> Msg" where
  "queryMessage question =
     \<lparr>ms_Id = 0, ms_Response = False, ms_Authoritative = False, ms_RecursionDesired = True, ms_RecursionAvailable = False,
      ms_Rcode = 0, ms_Question = [question], ms_Answer = [], ms_Ns = [], ms_Extra = []\<rparr>"

definition lookupToExchange ::
  "('s, 'r) ClientLib \<Rightarrow> int \<Rightarrow> int \<Rightarrow> string option \<Rightarrow> Transport \<Rightarrow> string \<Rightarrow> u16 \<Rightarrow> DNSQueryOptions \<Rightarrow> (Addr list \<Rightarrow> bool) option \<Rightarrow>
   ('s, 'r) Client \<Rightarrow> (DnsError + Addr list) \<times> ('s, 'r) Client" where
  "lookupToExchange lib now later contextTransport transport name qType options responseChecker c =
     (let question = \<lparr>qu_Name = name, qu_Qtype = qType, qu_Qclass = ClassINET\<rparr>;
          disableCache = (cl_disableCache c \<or> qo_DisableCache options);
          (cached, c1) = (if disableCache then (Inl NotCached, c) else questionCache lib now question transport c)
      in if cached \<noteq> Inl NotCached then (cached, c1)
         else case Client_Exchange lib now later contextTransport transport (queryMessage question) options responseChecker c1 of
                (Inl err, c2) \<Rightarrow> (Inl err, c2)
              | (Inr response, c2) \<Rightarrow>
                  (if ms_Rcode response \<noteq> 0 then Inl (RcodeError (ms_Rcode response)) else Inr (MessageToAddresses (cb_dl lib) response), c2))"

definition sortAddresses :: "Addr list \<Rightarrow> Addr list \<Rightarrow> DomainStrategy \<Rightarrow> Addr list" where
  "sortAddresses response4 response6 strategy =
     (if strategy = DomainStrategyPreferIPv6 then response6 @ response4 else response4 @ response6)"

definition addressesOf :: "(DnsError + Addr list) \<Rightarrow> Addr list" where
  "addressesOf r = (case r of Inl _ \<Rightarrow> [] | Inr addresses \<Rightarrow> addresses)"

text \<open>
  \<open>Lookup\<close>; without a strategy for one family both are asked, in an order of the scheduler (\<open>v6First\<close>).
  \<open>groupError\<close> is the error that \<open>task.Group\<close> makes of those of its tasks.
\<close>

definition Client_Lookup ::
  "('s, 'r) ClientLib \<Rightarrow> bool \<Rightarrow> (DnsError list \<Rightarrow> DnsError) \<Rightarrow> int \<Rightarrow> int \<Rightarrow> string option \<Rightarrow> Transport \<Rightarrow> string \<Rightarrow> DNSQueryOptions \<Rightarrow>
   (Addr list \<Rightarrow> bool) option \<Rightarrow> ('s, 'r) Client \<Rightarrow> (DnsError + Addr list) \<times> ('s, 'r) Client" where
  "Client_Lookup lib v6First groupError now later contextTransport transport domain options responseChecker c =
     (let dnsName = dl_Fqdn (cb_dl lib) (FqdnToDomain (cb_dl lib) domain);
          strategy = (if qo_LookupStrategy options \<noteq> DomainStrategyAsIS then qo_LookupStrategy options else qo_Strategy options);
          lookupOptions = (if qo_LookupStrategy options \<noteq> DomainStrategyAsIS then options\<lparr>qo_Strategy := strategy\<rparr> else options);
          ask = (\<lambda>qType. lookupToExchange lib now later contextTransport transport dnsName qType lookupOptions responseChecker)
      in if strategy = DomainStrategyIPv4Only then ask TypeA c
         else if strategy = DomainStrategyIPv6Only then ask TypeAAAA c
         else let (r4, r6, c2) =
                    (if v6First then (let (r6, c1) = ask TypeAAAA c; (r4, c2) = ask TypeA c1 in (r4, r6, c2))
                     else (let (r4, c1) = ask TypeA c; (r6, c2) = ask TypeAAAA c1 in (r4, r6, c2)));
                  response4 = addressesOf r4; response6 = addressesOf r6
              in if response4 = [] \<and> response6 = []
                 then (case [e. Inl e \<leftarrow> [r4, r6]] of [] \<Rightarrow> (Inr [], c2) | es \<Rightarrow> (Inl (groupError es), c2))
                 else (Inr (sortAddresses response4 response6 strategy), c2))"

definition Client_ClearCache :: "('s, 'r) ClientLib \<Rightarrow> ('s, 'r) Client \<Rightarrow> ('s, 'r) Client" where
  "Client_ClearCache lib c = (if cl_disableCache c then c else c\<lparr>cl_cache := lr_Purge (cb_lru lib) (cl_cache c)\<rparr>)"

section \<open>Construction\<close>

text \<open>\<open>NewClient\<close> with \<open>newCache\<close>, which makes an empty cache for a number of entries; \<open>Start\<close> asks for the store of rejected responses.\<close>

record ClientOptions =
  co_DisableCache :: bool
  co_DisableExpire :: bool
  co_IndependentCache :: bool
  co_CacheCapacity :: u32
  co_ClientSubnet :: Prefix

definition NewClient :: "(u32 \<Rightarrow> 's) \<Rightarrow> ClientOptions \<Rightarrow> ('s, 'r) Client" where
  "NewClient newCache options =
     \<lparr>cl_disableCache = co_DisableCache options, cl_disableExpire = co_DisableExpire options,
      cl_independentCache = co_IndependentCache options, cl_clientSubnet = co_ClientSubnet options,
      cl_cache = newCache (if co_CacheCapacity options < 1024 then 1024 else co_CacheCapacity options), cl_rdrc = None\<rparr>"

definition Client_Start :: "'r option \<Rightarrow> ('s, 'r) Client \<Rightarrow> ('s, 'r) Client" where
  "Client_Start store c = c\<lparr>cl_rdrc := store\<rparr>"

end
