(* ===== verification/Dns_Router.thy ===== *)
theory Dns_Router
  imports Dns_Client Rule_Build
begin

text \<open>
  \<open>dns/router.go\<close>: the choice of the DNS server by the rules, the exchange of messages and the lookup
  of addresses with the retry at the next rule when a response is rejected by the address limit of
  its rule, and \<open>RuleActionPredefined.Response\<close> of \<open>route/rule/rule_action.go\<close>.

  The loops of \<open>Exchange\<close> and \<open>Lookup\<close> continue after the rule of the last attempt; the model carries
  the list of the rules that are left. \<open>clock\<close> gives the times of an attempt (of the load from the
  cache and of the store) by the number of rules left.
\<close>

section \<open>State\<close>

record DnsRouter =
  dx_rules :: "Rule list"
  dx_Transport :: "string \<Rightarrow> Transport option"
  dx_Default :: Transport
  dx_defaultDomainStrategy :: DomainStrategy
  dx_reverseMapping :: bool

text \<open>What the rules are evaluated with.\<close>

record RuleEnv =
  rn_lib :: Lib
  rn_net :: Net
  rn_store :: RuleSetStore

section \<open>Predefined responses\<close>

definition rewriteRecords :: "Record list \<Rightarrow> Question \<Rightarrow> Record list" where
  "rewriteRecords records question =
     map (\<lambda>it. if rc_Name it \<noteq> [] \<and> hd (rc_Name it) = CHR ''*'' \<and> hasSuffix (qu_Name question) (tl (rc_Name it))
               then it\<lparr>rc_Name := qu_Name question\<rparr> else it) records"

definition Predefined_Response :: "int \<Rightarrow> Record list \<Rightarrow> Record list \<Rightarrow> Record list \<Rightarrow> Msg \<Rightarrow> Question \<Rightarrow> Msg" where
  "Predefined_Response rcode answer ns extra request question =
     \<lparr>ms_Id = ms_Id request, ms_Response = True, ms_Authoritative = True, ms_RecursionDesired = True,
      ms_RecursionAvailable = True, ms_Rcode = rcode, ms_Question = ms_Question request,
      ms_Answer = rewriteRecords answer question, ms_Ns = rewriteRecords ns question, ms_Extra = rewriteRecords extra question\<rparr>"

section \<open>Matching\<close>

definition applyLegacy :: "Transport \<Rightarrow> DNSQueryOptions \<Rightarrow> DNSQueryOptions" where
  "applyLegacy transport options =
     (case tr_Legacy transport of
        None \<Rightarrow> options
      | Some (strategy, clientSubnet) \<Rightarrow>
          (let o1 = (if qo_Strategy options = DomainStrategyAsIS then options\<lparr>qo_Strategy := strategy\<rparr> else options)
           in if prefixIsValid (qo_ClientSubnet o1) then o1 else o1\<lparr>qo_ClientSubnet := clientSubnet\<rparr>))"

definition applyDNSRouteOptions :: "bool \<Rightarrow> RuleActionDNSRouteOptions \<Rightarrow> DNSQueryOptions \<Rightarrow> DNSQueryOptions" where
  "applyDNSRouteOptions isFakeIP action options =
     (let o1 = (if dr_Strategy action \<noteq> DomainStrategyAsIS then options\<lparr>qo_Strategy := dr_Strategy action\<rparr> else options);
          o2 = (if isFakeIP \<or> dr_DisableCache action then o1\<lparr>qo_DisableCache := True\<rparr> else o1);
          o3 = (if dr_RewriteTTL action \<noteq> None then o2\<lparr>qo_RewriteTTL := dr_RewriteTTL action\<rparr> else o2)
      in if prefixIsValid (dr_ClientSubnet action) then o3\<lparr>qo_ClientSubnet := dr_ClientSubnet action\<rparr> else o3)"

text \<open>\<open>matchDNS\<close>: the server (nil for reject and predefined), the rule, the rules after it, the options and the metadata.\<close>

record DnsMatch =
  dm_transport :: "Transport option"
  dm_rule :: "Rule option"
  dm_rest :: "Rule list"
  dm_options :: DNSQueryOptions
  dm_metadata :: InboundContext

fun matchDNS ::
  "RuleEnv \<Rightarrow> DnsRouter \<Rightarrow> bool \<Rightarrow> bool \<Rightarrow> Rule list \<Rightarrow> DNSQueryOptions \<Rightarrow> InboundContext \<Rightarrow> DnsMatch" where
  "matchDNS env router allowFakeIP isAddressQuery [] options metadata =
     \<lparr>dm_transport = Some (dx_Default router), dm_rule = None, dm_rest = [],
      dm_options = applyLegacy (dx_Default router) options, dm_metadata = metadata\<rparr>"
| "matchDNS env router allowFakeIP isAddressQuery (rule # rules) options metadata =
     (if Rule_WithAddressLimit (rn_store env) rule \<and> \<not> isAddressQuery
      then matchDNS env router allowFakeIP isAddressQuery rules options metadata
      else let (matched, metadata1) = DNSRule_Match (rn_lib env) (rn_net env) (rn_store env) rule (ResetRuleCache metadata)
           in if \<not> matched then matchDNS env router allowFakeIP isAddressQuery rules options metadata1
              else case Rule_getAction rule of
                     Some (ActionDNSRoute server action) \<Rightarrow>
                       (case dx_Transport router server of
                          None \<Rightarrow> matchDNS env router allowFakeIP isAddressQuery rules options metadata1
                        | Some transport \<Rightarrow>
                            let isFakeIP = (tr_Type transport = ''fakeip'')
                            in if isFakeIP \<and> \<not> allowFakeIP
                               then matchDNS env router allowFakeIP isAddressQuery rules options metadata1
                               else \<lparr>dm_transport = Some transport, dm_rule = Some rule, dm_rest = rules,
                                     dm_options = applyLegacy transport (applyDNSRouteOptions isFakeIP action options),
                                     dm_metadata = metadata1\<rparr>)
                   | Some (ActionDNSRouteOptions action) \<Rightarrow>
                       matchDNS env router allowFakeIP isAddressQuery rules (applyDNSRouteOptions False action options) metadata1
                   | Some (ActionReject action) \<Rightarrow>
                       \<lparr>dm_transport = None, dm_rule = Some rule, dm_rest = rules, dm_options = options, dm_metadata = metadata1\<rparr>
                   | Some (ActionPredefined rcode answer ns extra) \<Rightarrow>
                       \<lparr>dm_transport = None, dm_rule = Some rule, dm_rest = rules, dm_options = options, dm_metadata = metadata1\<rparr>
                   | _ \<Rightarrow> matchDNS env router allowFakeIP isAddressQuery rules options metadata1)"

definition isAddressQuery :: "Msg \<Rightarrow> bool" where
  "isAddressQuery message = list_ex (\<lambda>q. qu_Qtype q = TypeA \<or> qu_Qtype q = TypeAAAA \<or> qu_Qtype q = TypeHTTPS) (ms_Question message)"

definition addressLimitResponseCheck :: "RuleEnv \<Rightarrow> Rule option \<Rightarrow> InboundContext \<Rightarrow> (Addr list \<Rightarrow> bool) option" where
  "addressLimitResponseCheck env rule metadata =
     (case rule of
        None \<Rightarrow> None
      | Some r \<Rightarrow>
          if \<not> Rule_WithAddressLimit (rn_store env) r then None
          else Some (\<lambda>responseAddrs. fst (DNSRule_MatchAddressLimit (rn_lib env) (rn_net env) (rn_store env) r
                                            (metadata\<lparr>md_DestinationAddresses := responseAddrs\<rparr>))))"

text \<open>The rules left are fewer after every match; this is why the loops end.\<close>

lemma matchDNS_rest:
  "dm_rule (matchDNS env router f a rules options metadata) = Some rule \<Longrightarrow>
     length (dm_rest (matchDNS env router f a rules options metadata)) < length rules"
  by (induction rules arbitrary: options metadata)
    (auto simp: Let_def less_SucI split: prod.splits option.splits RuleAction.splits if_splits)

section \<open>Exchange\<close>

text \<open>
  A nil server: the client can still answer from the shared cache, and dereferences it otherwise.
\<close>

definition nilTransport :: Transport where
  "nilTransport = \<lparr>tr_Type = '''', tr_Tag = '''', tr_Exchange = \<lambda>_. Inl (OtherError (Panic [AStr ''nil pointer dereference''])),
     tr_Legacy = None\<rparr>"

definition exchangeWith ::
  "('s, 'r) ClientLib \<Rightarrow> int \<times> int \<Rightarrow> string option \<Rightarrow> Transport option \<Rightarrow> Msg \<Rightarrow> DNSQueryOptions \<Rightarrow> (Addr list \<Rightarrow> bool) option \<Rightarrow>
   ('s, 'r) Client \<Rightarrow> (DnsError + Msg) \<times> ('s, 'r) Client" where
  "exchangeWith lib instants contextTag transport message options check c =
     (case transport of
        Some t \<Rightarrow> Client_Exchange lib (fst instants) (snd instants) contextTag t message options check c
      | None \<Rightarrow> Client_Exchange lib (fst instants) (snd instants) None nilTransport message options None c)"

fun isRejection :: "DnsError \<Rightarrow> bool" where
  "isRejection (ResponseRejected _) = True"
| "isRejection ResponseRejectedCached = True"
| "isRejection (CausedBy e args) = isRejection e"
| "isRejection e = False"

definition withDefaultStrategy :: "DnsRouter \<Rightarrow> DNSQueryOptions \<Rightarrow> DNSQueryOptions" where
  "withDefaultStrategy router options =
     (if qo_Strategy options = DomainStrategyAsIS then options\<lparr>qo_Strategy := dx_defaultDomainStrategy router\<rparr> else options)"

definition refusedResponse :: "Msg \<Rightarrow> Question \<Rightarrow> Msg" where
  "refusedResponse message question =
     \<lparr>ms_Id = ms_Id message, ms_Response = True, ms_Authoritative = False, ms_RecursionDesired = False,
      ms_RecursionAvailable = False, ms_Rcode = 5, ms_Question = [question], ms_Answer = [], ms_Ns = [], ms_Extra = []\<rparr>"

text \<open>What the action of the matched rule answers by itself; the method \<open>reply\<close> is not handled.\<close>

definition immediateAnswer :: "Rule option \<Rightarrow> Msg \<Rightarrow> Question \<Rightarrow> (DnsError + Msg) option" where
  "immediateAnswer rule message question =
     (case Option.bind rule Rule_getAction of
        Some (ActionReject action) \<Rightarrow>
          if rj_Method action = ''default'' then Some (Inr (refusedResponse message question))
          else if rj_Method action = ''drop'' then Some (Inl (RejectedByRule (RejectedError ErrDrop)))
          else None
      | Some (ActionPredefined rcode answer ns extra) \<Rightarrow> Some (Inr (Predefined_Response rcode answer ns extra message question))
      | _ \<Rightarrow> None)"

text \<open>The outcome of the loop: the response or error, the server and the rule of the last attempt, and the client.\<close>

function exchangeLoop ::
  "RuleEnv \<Rightarrow> ('s, 'r) ClientLib \<Rightarrow> (nat \<Rightarrow> int \<times> int) \<Rightarrow> string option \<Rightarrow> DnsRouter \<Rightarrow> Msg \<Rightarrow> Question \<Rightarrow> DNSQueryOptions \<Rightarrow>
   Rule list \<Rightarrow> InboundContext \<Rightarrow> ('s, 'r) Client \<Rightarrow> (DnsError + Msg) \<times> Transport option \<times> Rule option \<times> ('s, 'r) Client" where
  "exchangeLoop env lib clock contextTag router message question options rules metadata c =
     (let m = matchDNS env router True (isAddressQuery message) rules options metadata
      in case immediateAnswer (dm_rule m) message question of
           Some answer \<Rightarrow> (answer, dm_transport m, dm_rule m, c)
         | None \<Rightarrow>
             let responseCheck = addressLimitResponseCheck env (dm_rule m) (dm_metadata m);
                 dnsOptions = withDefaultStrategy router (dm_options m);
                 (result, c1) = exchangeWith lib (clock (length (dm_rest m))) contextTag (dm_transport m) message dnsOptions responseCheck c;
                 rejected = (case result of Inl err \<Rightarrow> isRejection err | Inr _ \<Rightarrow> False)
             in if responseCheck \<noteq> None \<and> rejected
                then exchangeLoop env lib clock contextTag router message question options (dm_rest m) (dm_metadata m) c1
                else (result, dm_transport m, dm_rule m, c1))"
  by pat_completeness auto

termination
proof (relation "measure (\<lambda>(env, lib, clock, contextTag, router, message, question, options, rules, metadata, c). length rules)", simp, goal_cases)
  case (1 env lib clock contextTag router message question options rules metadata c m check dnsOptions x result c1 rejected)
  then obtain r where "dm_rule m = Some r" by (auto simp: addressLimitResponseCheck_def split: option.splits)
  then show ?case using 1(1) matchDNS_rest [of env router True _ rules options metadata r] by simp
qed

declare exchangeLoop.simps [simp del]


text \<open>The metadata of the query, and the entries that \<open>Exchange\<close> adds to the reverse mapping.\<close>

definition queryMetadata :: "DnsLib \<Rightarrow> InboundContext \<Rightarrow> Question \<Rightarrow> InboundContext" where
  "queryMetadata dl metadata question =
     metadata\<lparr>md_Destination := emptySocksaddr, md_QueryType := qu_Qtype question,
              md_IPVersion := (if qu_Qtype question = TypeA then 4 else if qu_Qtype question = TypeAAAA then 6 else md_IPVersion metadata),
              md_Domain := FqdnToDomain dl (qu_Name question)\<rparr>"

definition reverseEntries :: "DnsLib \<Rightarrow> Msg \<Rightarrow> (Addr \<times> string \<times> int) list" where
  "reverseEntries dl response =
     concat (map (\<lambda>r. case rc_Data r of
          RD_A a \<Rightarrow> [(dl_AddrFromIP dl a, FqdnToDomain dl (rc_Name r), int (unat (rc_Ttl r)) * 1000000000)]
        | RD_AAAA a \<Rightarrow> [(dl_AddrFromIP dl a, FqdnToDomain dl (rc_Name r), int (unat (rc_Ttl r)) * 1000000000)]
        | _ \<Rightarrow> []) (ms_Answer response))"

definition badQuestionSize :: "Msg \<Rightarrow> Msg" where
  "badQuestionSize message =
     \<lparr>ms_Id = ms_Id message, ms_Response = True, ms_Authoritative = False, ms_RecursionDesired = False,
      ms_RecursionAvailable = False, ms_Rcode = 1, ms_Question = ms_Question message, ms_Answer = [], ms_Ns = [], ms_Extra = []\<rparr>"

definition Router_Exchange ::
  "RuleEnv \<Rightarrow> ('s, 'r) ClientLib \<Rightarrow> (nat \<Rightarrow> int \<times> int) \<Rightarrow> string option \<Rightarrow> DnsRouter \<Rightarrow> InboundContext \<Rightarrow> Msg \<Rightarrow> Transport option \<Rightarrow>
   DNSQueryOptions \<Rightarrow> ('s, 'r) Client \<Rightarrow> (DnsError + Msg) \<times> (Addr \<times> string \<times> int) list \<times> ('s, 'r) Client" where
  "Router_Exchange env lib clock contextTag router metadata message transport options c =
     (case ms_Question message of
        [question] \<Rightarrow>
          (let md = queryMetadata (cb_dl lib) metadata question;
               (result, used, c1) =
                 (case transport of
                    Some t \<Rightarrow>
                      (let (r, c1) = Client_Exchange lib (fst (clock 0)) (snd (clock 0)) contextTag t message
                                       (withDefaultStrategy router (applyLegacy t options)) None c
                       in (r, Some t, c1))
                  | None \<Rightarrow>
                      (let (r, t, _, c1) = exchangeLoop env lib clock contextTag router message question options (dx_rules router) md c
                       in (r, t, c1)))
           in case result of
                Inl err \<Rightarrow> (Inl err, [], c1)
              | Inr response \<Rightarrow>
                  (Inr response,
                   if dx_reverseMapping router \<and> length (ms_Answer response) > 0 \<and>
                      (case used of None \<Rightarrow> True | Some t \<Rightarrow> tr_Type t \<noteq> ''fakeip'')
                   then reverseEntries (cb_dl lib) response else [],
                   c1))
      | _ \<Rightarrow> (Inr (badQuestionSize message), [], c))"

section \<open>Lookup\<close>

text \<open>\<open>printResult\<close>: the error that is returned.\<close>

definition lookupResult :: "string \<Rightarrow> (DnsError + Addr list) \<Rightarrow> DnsError + Addr list" where
  "lookupResult domain r =
     (case r of
        Inl err \<Rightarrow> Inl (CausedBy err [AStr ''lookup '', AStr domain])
      | Inr [] \<Rightarrow> Inl (CausedBy (OtherError (E_New [AStr ''empty result''])) [AStr ''lookup '', AStr domain])
      | Inr addresses \<Rightarrow> Inr addresses)"

fun setAction :: "RuleAction \<Rightarrow> Rule \<Rightarrow> Rule" where
  "setAction action (DefaultRule r) = DefaultRule (r\<lparr>r_action := Some action\<rparr>)"
| "setAction action (LogicalRule rules mode invert a) = LogicalRule rules mode invert (Some action)"

definition predefinedAddresses :: "DnsLib \<Rightarrow> Record list \<Rightarrow> Addr list" where
  "predefinedAddresses dl answer =
     concat (map (\<lambda>r. case rc_Data r of RD_A a \<Rightarrow> [dl_AddrFromIP dl a] | RD_AAAA a \<Rightarrow> [dl_AddrFromIP dl a] | _ \<Rightarrow> []) answer)"

text \<open>
  What the action of the matched rule answers by itself. A reject action counts in the rule (the one
  before \<open>rest\<close>), so the rules are returned; \<open>now\<close> is its time.
\<close>

definition immediateLookup ::
  "DnsLib \<Rightarrow> int \<Rightarrow> DnsRouter \<Rightarrow> string \<Rightarrow> Rule option \<Rightarrow> Rule list \<Rightarrow> ((DnsError + Addr list) \<times> Rule list) option" where
  "immediateLookup dl now router domain rule rest =
     (case Option.bind rule Rule_getAction of
        Some (ActionReject action) \<Rightarrow>
          (let (outcome, action') = RuleActionReject_Error now action;
               index = length (dx_rules router) - length rest - 1
           in Some (Inl (RejectedByRule outcome), (dx_rules router)[index := setAction (ActionReject action') (dx_rules router ! index)]))
      | Some (ActionPredefined rcode answer ns extra) \<Rightarrow>
          Some (lookupResult domain (if rcode \<noteq> 0 then Inl (RcodeError rcode) else Inr (predefinedAddresses dl answer)), dx_rules router)
      | _ \<Rightarrow> None)"

text \<open>
  The loop of \<open>Lookup\<close>. A lookup with a nil server cannot happen: both actions without a server answer
  at once.
\<close>

function lookupLoop ::
  "RuleEnv \<Rightarrow> ('s, 'r) ClientLib \<Rightarrow> bool \<Rightarrow> (DnsError list \<Rightarrow> DnsError) \<Rightarrow> int \<Rightarrow> (nat \<Rightarrow> int \<times> int) \<Rightarrow> string option \<Rightarrow> DnsRouter \<Rightarrow> string \<Rightarrow>
   DNSQueryOptions \<Rightarrow> Rule list \<Rightarrow> InboundContext \<Rightarrow> ('s, 'r) Client \<Rightarrow> (DnsError + Addr list) \<times> Rule list \<times> ('s, 'r) Client" where
  "lookupLoop env lib v6First groupError now clock contextTag router domain options rules metadata c =
     (let m = matchDNS env router False True rules options metadata
      in case immediateLookup (cb_dl lib) now router domain (dm_rule m) (dm_rest m) of
           Some (result, rules') \<Rightarrow> (result, rules', c)
         | None \<Rightarrow>
             let responseCheck = addressLimitResponseCheck env (dm_rule m) (dm_metadata m);
                 dnsOptions = withDefaultStrategy router (dm_options m);
                 transport = (case dm_transport m of Some t \<Rightarrow> t | None \<Rightarrow> nilTransport);
                 (result, c1) = Client_Lookup lib v6First groupError (fst (clock (length (dm_rest m)))) (snd (clock (length (dm_rest m))))
                                  contextTag transport domain dnsOptions responseCheck c
             in if responseCheck = None \<or> (case result of Inr _ \<Rightarrow> True | Inl _ \<Rightarrow> False)
                then (lookupResult domain result, dx_rules router, c1)
                else lookupLoop env lib v6First groupError now clock contextTag router domain options (dm_rest m) (dm_metadata m) c1)"
  by pat_completeness auto

termination
proof (relation "measure (\<lambda>(env, lib, v6First, groupError, now, clock, contextTag, router, domain, options, rules, metadata, c). length rules)",
    simp, goal_cases)
  case (1 env lib v6First groupError now clock contextTag router domain options rules metadata c m)
  then show ?case
    by (auto simp: addressLimitResponseCheck_def split: option.splits intro!: matchDNS_rest)
qed

declare lookupLoop.simps [simp del]

definition Router_Lookup ::
  "RuleEnv \<Rightarrow> ('s, 'r) ClientLib \<Rightarrow> bool \<Rightarrow> (DnsError list \<Rightarrow> DnsError) \<Rightarrow> int \<Rightarrow> (nat \<Rightarrow> int \<times> int) \<Rightarrow> string option \<Rightarrow> DnsRouter \<Rightarrow>
   InboundContext \<Rightarrow> string \<Rightarrow> Transport option \<Rightarrow> DNSQueryOptions \<Rightarrow> ('s, 'r) Client \<Rightarrow>
   (DnsError + Addr list) \<times> Rule list \<times> ('s, 'r) Client" where
  "Router_Lookup env lib v6First groupError now clock contextTag router metadata domain transport options c =
     (let md = metadata\<lparr>md_Destination := emptySocksaddr, md_Domain := FqdnToDomain (cb_dl lib) domain\<rparr>
      in case transport of
           Some t \<Rightarrow>
             (let (result, c1) = Client_Lookup lib v6First groupError (fst (clock 0)) (snd (clock 0)) contextTag t domain
                                   (withDefaultStrategy router (applyLegacy t options)) None c
              in (lookupResult domain result, dx_rules router, c1))
         | None \<Rightarrow> lookupLoop env lib v6First groupError now clock contextTag router domain options (dx_rules router) md c)"

section \<open>Life cycle\<close>

text \<open>\<open>Initialize\<close>: the rules of the configuration.\<close>

fun initializeRules :: "Lib \<Rightarrow> nat \<Rightarrow> DNSOptions list \<Rightarrow> Rule list result" where
  "initializeRules lib i [] = Inr []"
| "initializeRules lib i (options # rest) =
     (case NewDNSRule lib True options of
        Inl err \<Rightarrow> Inl (E_Cause err [AStr ''parse dns rule['', ANum (int i), AStr '']''])
      | Inr rule \<Rightarrow> bindE (initializeRules lib (Suc i) rest) (\<lambda>rules. Inr (rule # rules)))"

definition Router_Initialize :: "Lib \<Rightarrow> DNSOptions list \<Rightarrow> DnsRouter \<Rightarrow> DnsRouter result" where
  "Router_Initialize lib options router =
     bindE (initializeRules lib 0 options) (\<lambda>rules. Inr (router\<lparr>dx_rules := dx_rules router @ rules\<rparr>))"

fun startRules :: "StartEnv \<Rightarrow> nat \<Rightarrow> Rule list \<Rightarrow> RuleSetStore \<Rightarrow> Error option \<times> Rule list \<times> RuleSetStore" where
  "startRules env i [] store = (None, [], store)"
| "startRules env i (rule # rules) store =
     (case Rule_Start env rule store of
        (Some err, rule', store') \<Rightarrow>
          (Some (E_Cause err [AStr ''initialize DNS rule['', ANum (int i), AStr '']'']), rule' # rules, store')
      | (None, rule', store') \<Rightarrow>
          (let (err, rules', store'') = startRules env (Suc i) rules store' in (err, rule' # rules', store'')))"

text \<open>\<open>Start\<close> does its work in the second stage: the client, then the rules up to the first that fails.\<close>

definition Router_Start ::
  "StartEnv \<Rightarrow> 'r option \<Rightarrow> nat \<Rightarrow> DnsRouter \<Rightarrow> ('s, 'r) Client \<Rightarrow> RuleSetStore \<Rightarrow>
   Error option \<times> DnsRouter \<times> ('s, 'r) Client \<times> RuleSetStore" where
  "Router_Start env rejections stage router c store =
     (if stage = 1
      then (let (err, rules, store') = startRules env 0 (dx_rules router) store
            in (err, router\<lparr>dx_rules := rules\<rparr>, Client_Start rejections c, store'))
      else (None, router, c, store))"

end
