(* ===== verification/Dns_Client_Props.thy ===== *)
theory Dns_Client_Props
  imports Dns_Client
begin

text \<open>
  What the response cache of the DNS client guarantees. The locale \<open>lru_cache\<close> has the documented
  behaviour of the \<open>freelru\<close> cache: an entry may be evicted at any time, but what is found under a
  key is what was last added under it, and it expires at the end of its lifetime, of which the cache
  keeps whole milliseconds. It is interpreted on a cache without a limit.
\<close>

section \<open>TTLs\<close>

text \<open>The loop over the TTLs computes the least positive one.\<close>

lemma leastTTL_positive:
  assumes "t > 0"
  shows "leastTTL t rs > 0 \<and> leastTTL t rs \<le> t \<and> (\<forall>r\<in>set rs. rc_Ttl r > 0 \<longrightarrow> leastTTL t rs \<le> rc_Ttl r) \<and>
    (leastTTL t rs = t \<or> (\<exists>r\<in>set rs. leastTTL t rs = rc_Ttl r))"
  using assms
proof (induction rs arbitrary: t)
  case (Cons r rs)
  show ?case
  proof (cases "rc_Ttl r > 0 \<and> rc_Ttl r < t")
    case True
    then show ?thesis using Cons.IH [of "rc_Ttl r"] by (auto dest: order_trans less_imp_le)
  next
    case False
    then show ?thesis using Cons.IH [of t] Cons.prems by (auto simp: not_less dest: order_trans)
  qed
qed simp

lemma leastTTL_zero:
  "(leastTTL 0 rs = 0 \<and> (\<forall>r\<in>set rs. rc_Ttl r = 0)) \<or>
   (leastTTL 0 rs > 0 \<and> (\<forall>r\<in>set rs. rc_Ttl r > 0 \<longrightarrow> leastTTL 0 rs \<le> rc_Ttl r) \<and> (\<exists>r\<in>set rs. leastTTL 0 rs = rc_Ttl r))"
proof (induction rs)
  case (Cons r rs)
  show ?case
  proof (cases "rc_Ttl r = 0")
    case True
    then show ?thesis using Cons by auto
  next
    case False
    then have "rc_Ttl r > 0" by (simp add: word_gt_0)
    then show ?thesis using leastTTL_positive [of "rc_Ttl r" rs] by auto
  qed
qed simp

definition uniformTTL :: "u32 \<Rightarrow> Msg \<Rightarrow> bool" where
  "uniformTTL t m = (\<forall>r\<in>set (msgRecords m). rc_Ttl r = t)"



lemma setTTL_cong: "(\<And>r. r \<in> set (msgRecords m) \<Longrightarrow> f (rc_Ttl r) = g (rc_Ttl r)) \<Longrightarrow> setTTL f m = setTTL g m"
  by (auto simp: setTTL_def mapRecords_def msgRecords_def)

section \<open>The cache\<close>

definition lruKeeps :: "(cacheKey \<Rightarrow> (Msg \<times> int) option) \<Rightarrow> (cacheKey \<Rightarrow> (Msg \<times> int) option) \<Rightarrow> bool" where
  "lruKeeps before after = (\<forall>k. after k = None \<or> after k = before k)"

locale lru_cache =
  fixes lru :: "'s Lru" and content :: "'s \<Rightarrow> cacheKey \<Rightarrow> (Msg \<times> int) option"
  assumes get: "lr_GetWithLifetime lru now k s = (r, s') \<Longrightarrow> (r = None \<or> r = content s k) \<and> lruKeeps (content s) (content s')"
    and add: "\<exists>e. now + life - 1000000 < e \<and> e \<le> now + life \<and> lruKeeps ((content s)(k \<mapsto> (m, e))) (content (lr_AddWithLifetime lru now k m life s))"
    and remove: "lruKeeps ((content s)(k := None)) (content (lr_Remove lru k s))"
    and purge: "content (lr_Purge lru s) = (\<lambda>_. None)"

definition mapLru :: "(cacheKey \<rightharpoonup> Msg \<times> int) Lru" where
  "mapLru =
     \<lparr>lr_Get = \<lambda>k s. (map_option fst (s k), s), lr_GetWithLifetime = \<lambda>now k s. (s k, s), lr_Add = \<lambda>k m s. s(k \<mapsto> (m, 0)),
      lr_AddWithLifetime = \<lambda>now k m life s. s(k \<mapsto> (m, now + life)), lr_Remove = \<lambda>k s. s(k := None), lr_Purge = \<lambda>_ _. None\<rparr>"

interpretation mapLru: lru_cache mapLru "\<lambda>s. s"
  by unfold_locales (auto simp: mapLru_def lruKeeps_def)

text \<open>The message as it is loaded with \<open>n\<close> seconds left.\<close>

definition countDown :: "Msg \<Rightarrow> int \<Rightarrow> Msg" where
  "countDown m n =
     (if int (unat (leastTTL 0 (msgRecords m))) > 0
      then setTTL (\<lambda>ttl. ttl - word_of_int (int (unat (leastTTL 0 (msgRecords m))) - n)) m
      else setTTL (\<lambda>_. word_of_int n) m)"

lemma countDown_uniform:
  assumes "uniformTTL t m" and "0 \<le> n" and "n \<le> int (unat t)"
  shows "countDown m n = setTTL (\<lambda>_. word_of_int n) m"
proof (cases "msgRecords m = []")
  case True
  then show ?thesis by (simp add: countDown_def)
next
  case False
  then have "leastTTL 0 (msgRecords m) = t"
    using leastTTL_zero [of "msgRecords m"] assms(1) by (auto simp: uniformTTL_def)
  moreover have "t - word_of_int (int (unat t) - n) = word_of_int n" by (simp add: word_of_int_minus)
  ultimately show ?thesis
    using assms(1) setTTL_cong [of m "\<lambda>ttl. ttl - word_of_int (int (unat t) - n)" "\<lambda>_. word_of_int n"]
    by (auto simp: countDown_def uniformTTL_def)
qed

text \<open>Loading an entry whose records all have the TTL it was stored with.\<close>

context lru_cache
begin

lemma load_cases:
  assumes "cb_lru lib = lru" and "\<not> cl_disableExpire c" and "loadResponse lib now question transport c = (Some m, c')"
  shows "\<exists>m0 e. content (cl_cache c) (cacheKeyOf c question transport) = Some (m0, e) \<and> now \<le> e \<and>
    (e - now < 2 ^ 22 * 1000000000 \<longrightarrow> m = countDown m0 ((e - now) div 1000000000))"
proof -
  obtain r s' where g: "lr_GetWithLifetime lru now (cacheKeyOf c question transport) (cl_cache c) = (r, s')" by (metis prod.collapse)
  from get [OF g] have r: "r = None \<or> r = content (cl_cache c) (cacheKeyOf c question transport)" by simp
  obtain m0 e where me: "r = Some (m0, e)" using assms g by (cases r) (auto simp: loadResponse_def)
  have now: "now \<le> e" using assms g me by (auto simp: loadResponse_def split: if_splits)
  have "m = countDown m0 ((e - now) div 1000000000)" if "e - now < 2 ^ 22 * 1000000000"
  proof -
    have s: "wholeSeconds (e - now) = (e - now) div 1000000000" "\<not> (e - now) div 1000000000 < 0"
      using wholeSeconds_exact [of "e - now"] now that by (simp_all add: neg_imp_zdiv_neg_iff)
    have "loadResponse lib now question transport c = (Some (countDown m0 ((e - now) div 1000000000)), c\<lparr>cl_cache := s'\<rparr>)"
      unfolding loadResponse_def Let_def countDown_def using assms(1,2) g me now s by simp
    then show ?thesis using assms(3) by simp
  qed
  then show ?thesis using me r now by (intro exI [of _ m0] exI [of _ e]) simp
qed

lemma load_counts_down:
  assumes "cb_lru lib = lru" and "\<not> cl_disableExpire c" and "loadResponse lib now question transport c = (Some m, c')"
    and "\<And>m' e. content (cl_cache c) (cacheKeyOf c question transport) = Some (m', e) \<Longrightarrow>
      m' = m0 \<and> stored + 1000000000 * int (unat t) - 1000000 < e \<and> e \<le> stored + 1000000000 * int (unat t)"
    and "uniformTTL t m0" and "stored \<le> now" and "unat t < 2 ^ 22"
  shows "\<exists>n e. m = setTTL (\<lambda>_. n) m0 \<and> n \<le> t \<and> int (unat n) = (e - now) div 1000000000 \<and> now \<le> e \<and>
    stored + 1000000000 * int (unat t) - 1000000 < e \<and> e \<le> stored + 1000000000 * int (unat t)"
proof -
  obtain e where e: "content (cl_cache c) (cacheKeyOf c question transport) = Some (m0, e)" "now \<le> e"
    and m': "e - now < 2 ^ 22 * 1000000000 \<longrightarrow> m = countDown m0 ((e - now) div 1000000000)"
    using load_cases [OF assms(1-3)] assms(4) by blast
  let ?n = "(e - now) div 1000000000"
  have le: "e \<le> stored + 1000000000 * int (unat t)" and gt: "stored + 1000000000 * int (unat t) - 1000000 < e"
    using assms(4) e(1) by blast+
  have "int (unat t) < int (2 ^ 22)" using assms(7) by (simp only: of_nat_less_iff)
  then have m: "m = countDown m0 ?n" using m' le assms(6) by simp
  have "?n \<le> (1000000000 * int (unat t)) div 1000000000" using le assms(6) by (intro zdiv_mono1) linarith+
  then have n: "0 \<le> ?n" "?n \<le> int (unat t)" using e(2) by (simp_all add: pos_imp_zdiv_nonneg_iff)
  have "int (unat t) < 2 ^ 32" using unsigned_less [of t] by simp
  then have nn: "int (unat (word_of_int ?n :: u32)) = ?n"
    using n by (simp add: unsigned_of_int take_bit_int_eq_self)
  have "m = setTTL (\<lambda>_. word_of_int ?n) m0" using m countDown_uniform [OF assms(5) n] by simp
  moreover have "word_of_int ?n \<le> t" using nn n(2) by (simp add: word_le_def)
  ultimately show ?thesis using nn le gt e(2) by blast
qed

end


section \<open>Exchanges\<close>


lemma storeCache_keeps_settings:
  "cl_disableExpire (storeCache lib later transport question m t c) = cl_disableExpire c"
  "cacheKeyOf (storeCache lib later transport question m t c) q tr = cacheKeyOf c q tr"
  by (simp_all add: storeCache_def cacheKeyOf_def)




section \<open>Properties\<close>

lemma unat_word_of_int: "0 \<le> i \<Longrightarrow> i < 2 ^ 32 \<Longrightarrow> unat (word_of_int i :: u32) = nat i"
  by (simp add: unsigned_of_int take_bit_int_eq_self)


text \<open>The witness: a server that answers with one address for 300 seconds, asked again 60 seconds later.\<close>

definition noRdrc :: "unit Rdrc" where
  "noRdrc = \<lparr>rd_Load = \<lambda>_ _ _ r. (False, r), rd_SaveAsync = \<lambda>_ _ _ r. r\<rparr>"

definition plainDnsLib :: DnsLib where
  "plainDnsLib =
     \<lparr>dl_IsFqdn = \<lambda>s. s \<noteq> [] \<and> last s = CHR ''.'', dl_Fqdn = \<lambda>s. if s \<noteq> [] \<and> last s = CHR ''.'' then s else s @ ''.'',
      dl_IsEdns0 = \<lambda>m. find (\<lambda>r. rc_Rrtype r = TypeOPT) (rev (ms_Extra m)),
      dl_Version = \<lambda>r. ucast (drop_bit 16 (rc_Ttl r)),
      dl_SetEdns0 = \<lambda>r m. m\<lparr>ms_Extra := ms_Extra m @ [r\<lparr>rc_Ttl := rc_Ttl r AND 0x8000, rc_Data := RD_OPT []\<rparr>]\<rparr>,
      dl_AddrFromIP = \<lambda>b. case addrFromSlice b of Some a \<Rightarrow> a | None \<Rightarrow> AddrNone, dl_ParseAddr = \<lambda>_. AddrNone\<rparr>"

definition sampleClientLib :: "(cacheKey \<rightharpoonup> Msg \<times> int, unit) ClientLib" where
  "sampleClientLib = \<lparr>cb_dl = plainDnsLib, cb_lru = mapLru, cb_rdrc = noRdrc\<rparr>"

definition sampleClient :: "(cacheKey \<rightharpoonup> Msg \<times> int, unit) Client" where
  "sampleClient =
     \<lparr>cl_disableCache = False, cl_disableExpire = False, cl_independentCache = False, cl_clientSubnet = Prefix AddrNone 0,
      cl_cache = Map.empty, cl_rdrc = None\<rparr>"

definition sampleQuestion :: Question where
  "sampleQuestion = \<lparr>qu_Name = ''a.org.'', qu_Qtype = 1, qu_Qclass = 1\<rparr>"

definition plainOptions :: DNSQueryOptions where
  "plainOptions = \<lparr>qo_Strategy = DomainStrategyAsIS, qo_LookupStrategy = DomainStrategyAsIS, qo_DisableCache = False,
     qo_RewriteTTL = None, qo_ClientSubnet = Prefix AddrNone 0\<rparr>"

definition sampleTransport :: "(Msg \<Rightarrow> DnsError + Msg) \<Rightarrow> Transport" where
  "sampleTransport answer = \<lparr>tr_Type = ''udp'', tr_Tag = ''dns'', tr_Exchange = answer, tr_Legacy = None\<rparr>"

definition answering :: "u32 \<Rightarrow> Record list \<Rightarrow> Transport" where
  "answering ttl extra = sampleTransport (\<lambda>m. Inr ((FixedResponse (ms_Id m) sampleQuestion [Addr4 1] ttl)\<lparr>ms_Extra := extra\<rparr>))"

definition sampleResponse :: "u32 \<Rightarrow> Msg" where
  "sampleResponse ttl = FixedResponse 0 sampleQuestion [Addr4 1] ttl"

lemmas sample_dns_defs = sampleClientLib_def sampleClient_def plainOptions_def sampleTransport_def answering_def sampleResponse_def
  plainDnsLib_def noRdrc_def mapLru_def




text \<open>
  The TTL field of an OPT record holds its flags, but a cached response is counted down in every
  record. An OPT record whose field is zero comes out of the cache with the elapsed seconds
  subtracted modulo 2^32, that is with an extended response code, a version and flags that no server
  has sent. (The exchange itself makes such entries: it writes the TTL of the answer into the OPT
  record of the response, takes it for a newer version when it is 65536 seconds or more, and puts an
  empty OPT record in its place.)
\<close>

theorem cached_opt_flags_underflow:
  assumes "lru_cache (cb_lru lib) content" and "\<not> cl_disableExpire c"
    and "content (cl_cache c) (cacheKeyOf c question transport) = Some (stored, expireAt)"
    and "ms_Extra stored = others @ [opt]" and "rc_Ttl opt = 0" and "leastTTL 0 (msgRecords stored) = t" and "t > 0"
    and "(expireAt - now) div 1000000000 = int (unat t) - int elapsed" and "0 < elapsed" and "elapsed \<le> unat t" and "unat t \<le> 2 ^ 22"
    and "loadResponse lib now question transport c = (Some m, c')"
  shows "rc_Data (last (ms_Extra m)) = rc_Data opt \<and> unat (rc_Ttl (last (ms_Extra m))) = 2 ^ 32 - elapsed"
proof -
  have m: "m = countDown stored (int (unat t) - int elapsed)"
  proof -
    have "int (unat t) \<le> int (2 ^ 22)" using assms(11) by (simp only: of_nat_le_iff)
    then have "int (unat t) - int elapsed < 2 ^ 22" using assms(9) by simp
    then have "expireAt - now < 2 ^ 22 * 1000000000" using assms(8) by linarith
    then show ?thesis using lru_cache.load_cases [OF assms(1) refl assms(2,12)] assms(3,8) by auto
  qed
  have "int (unat t) > 0" using assms(7) by (simp add: word_less_def)
  then have "last (ms_Extra m) = opt\<lparr>rc_Ttl := 0 - word_of_int (int elapsed)\<rparr>"
    using m assms(4-6) by (simp add: countDown_def setTTL_def mapRecords_def)
  moreover have "unat (0 - word_of_int (int elapsed) :: u32) = 2 ^ 32 - elapsed"
  proof -
    have "unat t < 2 ^ 32" using unsigned_less [of t] by simp
    then have "elapsed < 2 ^ 32" using assms(10) by simp
    then have e: "0 \<le> 2 ^ 32 - int elapsed" "2 ^ 32 - int elapsed < 2 ^ 32" using assms(9) by simp_all
    have "(0 - word_of_int (int elapsed) :: u32) = word_of_int (2 ^ 32 - int elapsed)" by (simp add: word_of_int_minus)
    then have "unat (0 - word_of_int (int elapsed) :: u32) = nat (2 ^ 32 - int elapsed)"
      using unat_word_of_int [OF e] by metis
    then show ?thesis by (simp add: nat_diff_distrib)
  qed
  ultimately show ?thesis by simp
qed

definition optRecord :: "u32 \<Rightarrow> Record" where
  "optRecord flags = \<lparr>rc_Name = ''.'', rc_Rrtype = 41, rc_Class = 1232, rc_Ttl = flags, rc_Data = RD_OPT []\<rparr>"

definition ednsQuery :: Msg where
  "ednsQuery = (queryMessage sampleQuestion)\<lparr>ms_Extra := [optRecord 0]\<rparr>"

definition ednsResponse :: Msg where
  "ednsResponse = (sampleResponse 86400)\<lparr>ms_Extra := [optRecord 0]\<rparr>"

lemma edns_exchange:
  "Client_Exchange sampleClientLib 0 0 None (answering 86400 [optRecord 0]) ednsQuery plainOptions None sampleClient =
     (Inr ednsResponse, sampleClient\<lparr>cl_cache := [(sampleQuestion, '''') \<mapsto> (ednsResponse, 86400000000000)]\<rparr>)"
proof -
  have "(ucast (drop_bit 16 (86400 :: u32)) :: u8) = 1" "(86400 :: u32) AND 0x8000 = 0" by simp_all
  then show ?thesis
    by (simp add: sample_dns_defs ednsQuery_def ednsResponse_def optRecord_def Client_Exchange_def queryMessage_def sampleQuestion_def
        isSimpleRequest_def loadResponse_def cacheKeyOf_def finishExchange_def filterHTTPS_def responseTTL_def extractNegativeTTL_def
        FixedResponse_def fixedMsg_def rrHeader_def setTTL_def mapRecords_def msgRecords_def adjustEdns_def storeCache_def Let_def)
qed

theorem cached_opt_flags_underflow_witness:
  "\<exists>c' m. Client_Exchange sampleClientLib 0 0 None (answering 86400 [optRecord 0]) ednsQuery plainOptions None sampleClient = (Inr ednsResponse, c') \<and>
     fst (loadResponse sampleClientLib 10000000000 sampleQuestion (answering 86400 [optRecord 0]) c') = Some m \<and>
     unat (rc_Ttl (last (ms_Extra m))) = 4294967286"
proof -
  let ?c = "sampleClient\<lparr>cl_cache := [(sampleQuestion, '''') \<mapsto> (ednsResponse, 86400000000000)]\<rparr>"
  let ?tr = "answering 86400 [optRecord 0]"
  let ?l = "loadResponse sampleClientLib 10000000000 sampleQuestion ?tr ?c"
  have "fst ?l \<noteq> None"
    by (simp add: loadResponse_def sampleClientLib_def sampleClient_def mapLru_def cacheKeyOf_def Let_def)
  then obtain m c'' where l: "?l = (Some m, c'')" by (metis option.exhaust prod.collapse)
  have lru: "lru_cache (cb_lru sampleClientLib) (\<lambda>s. s)" using mapLru.lru_cache_axioms by (simp add: sampleClientLib_def)
  have "leastTTL 0 (msgRecords ednsResponse) = 86400"
    by (simp add: ednsResponse_def optRecord_def sampleResponse_def FixedResponse_def fixedMsg_def rrHeader_def msgRecords_def sampleQuestion_def)
  then have "unat (rc_Ttl (last (ms_Extra m))) = 2 ^ 32 - 10"
    using cached_opt_flags_underflow [OF lru _ _ _ _ _ _ _ _ _ _ l, of ednsResponse 86400000000000 "[]" "optRecord 0" 86400 10]
    by (simp add: sampleClient_def cacheKeyOf_def ednsResponse_def optRecord_def)
  then show ?thesis using edns_exchange l by auto
qed

end
