(* ===== verification/Sniff.thy ===== *)
theory Sniff
  imports Metadata Bytes
begin

text \<open>
  \<open>common/sniff\<close>: the sniffers for BitTorrent, uTP, UDP trackers, DTLS, NTP, RDP, SSH and STUN, and
  the two drivers \<open>PeekStream\<close> and \<open>PeekPacket\<close>. A packet is a list of bytes; the reader of a
  stream sniffer is the list of the buffers that \<open>io.MultiReader\<close> concatenates. A sniffer returns
  its error, if any, and the updated context.
\<close>

unbundle bit_operations_syntax

section \<open>Bytes and readers\<close>

type_synonym reader = "bytes list"
type_synonym verdict = "Error option \<times> InboundContext"

definition ErrNeedMoreData :: Error where
  "ErrNeedMoreData = E_New [AStr ''need more data'']"

definition ErrInvalid :: Error where
  "ErrInvalid = E_Lib ''invalid argument''"

definition needMore :: Error where
  "needMore = E_Cause1 ErrNeedMoreData EOF"

text \<open>\<open>io.ReadFull\<close> for \<open>n\<close> bytes, and \<open>Read\<close>, which stops at the end of the first non-empty buffer.\<close>

fun dropBytes :: "nat \<Rightarrow> reader \<Rightarrow> reader" where
  "dropBytes n [] = []"
| "dropBytes n (b # bs) = (if n < length b then drop n b # bs else dropBytes (n - length b) bs)"

definition readFull :: "nat \<Rightarrow> reader \<Rightarrow> (bytes \<times> reader) option" where
  "readFull n r = (if length (concat r) \<ge> n then Some (take n (concat r), dropBytes n r) else None)"

fun readOnce :: "nat \<Rightarrow> reader \<Rightarrow> (bytes \<times> reader) option" where
  "readOnce n [] = None"
| "readOnce n (b # bs) = (if b = [] then readOnce n bs else Some (take n b, drop n b # bs))"

section \<open>Drivers\<close>

definition Skip :: "InboundContext \<Rightarrow> bool" where
  "Skip metadata = (sa_Port (md_Destination metadata) \<in> {25, 465, 587, 143, 993, 110, 995})"

type_synonym streamSniffer = "InboundContext \<Rightarrow> reader \<Rightarrow> verdict"
type_synonym packetSniffer = "InboundContext \<Rightarrow> bytes \<Rightarrow> verdict"

text \<open>The inner loop of \<open>PeekStream\<close>: the first sniffer without an error ends it.\<close>

fun trySniffers :: "('a \<Rightarrow> InboundContext \<Rightarrow> verdict) \<Rightarrow> 'a list \<Rightarrow> InboundContext \<Rightarrow> Error list \<Rightarrow> Error list option \<times> InboundContext" where
  "trySniffers run [] metadata errs = (Some errs, metadata)"
| "trySniffers run (s # ss) metadata errs =
     (case run s metadata of
        (None, metadata') \<Rightarrow> (None, metadata')
      | (Some err, metadata') \<Rightarrow> trySniffers run ss metadata' (errs @ [err]))"

text \<open>
  The iterations of the loop, as the connection answers them: the read deadline cannot be set, the
  read fails (the deadline, a closed connection) or gives data. When the script ends, the deadline
  has passed.
\<close>

datatype StreamRead = SetDeadlineError Error | ReadError Error | Data bytes

type_synonym streamScript = "StreamRead list"

definition deadlineExceeded :: Error where
  "deadlineExceeded = E_Lib ''context deadline exceeded''"

text \<open>
  \<open>PeekStream\<close>: read once into the buffer, try the sniffers on everything buffered, and go on while
  some of them needs more data. It returns the verdict, the buffer and the reads that are left. The
  joined error of a round is \<open>E.Errors\<close> of the errors of the sniffers; no sniffers give no error.
\<close>

definition joined :: "Error list \<Rightarrow> Error option" where
  "joined errs = (if errs = [] then None else Some (E_Errors errs))"

fun PeekStream_loop ::
  "nat \<Rightarrow> streamSniffer list \<Rightarrow> bytes list \<Rightarrow> InboundContext \<Rightarrow> bytes \<Rightarrow> Error option \<Rightarrow> streamScript \<Rightarrow>
   verdict \<times> bytes \<times> streamScript" where
  "PeekStream_loop i sniffers buffers metadata buffer sniffError [] =
     ((if i > 0 then sniffError else Some (E_Cause deadlineExceeded [AStr ''read payload'']), metadata), buffer, [])"
| "PeekStream_loop i sniffers buffers metadata buffer sniffError (SetDeadlineError err # script) =
     ((Some (E_Cause err [AStr ''set read deadline'']), metadata), buffer, script)"
| "PeekStream_loop i sniffers buffers metadata buffer sniffError (ReadError err # script) =
     ((if i > 0 then sniffError else Some (E_Cause err [AStr ''read payload'']), metadata), buffer, script)"
| "PeekStream_loop i sniffers buffers metadata buffer sniffError (Data data # script) =
     (let buffer' = buffer @ data
      in case trySniffers (\<lambda>s m. s m (buffers @ [buffer'])) sniffers metadata [] of
           (None, metadata') \<Rightarrow> ((None, metadata'), buffer', script)
         | (Some errs, metadata') \<Rightarrow>
             (case joined errs of
                None \<Rightarrow> ((None, metadata'), buffer', script)
              | Some err \<Rightarrow>
                  if errorsIs err ErrNeedMoreData
                  then PeekStream_loop (Suc i) sniffers buffers metadata' buffer' (Some err) script
                  else ((Some err, metadata'), buffer', script)))"

definition PeekStream ::
  "streamSniffer list \<Rightarrow> bytes list \<Rightarrow> InboundContext \<Rightarrow> streamScript \<Rightarrow> verdict \<times> bytes \<times> streamScript" where
  "PeekStream sniffers buffers metadata script = PeekStream_loop 0 sniffers buffers metadata [] None script"

definition PeekPacket :: "packetSniffer list \<Rightarrow> InboundContext \<Rightarrow> bytes \<Rightarrow> verdict" where
  "PeekPacket sniffers metadata packet =
     (case trySniffers (\<lambda>s m. s m packet) sniffers metadata [] of
        (None, metadata') \<Rightarrow> (None, metadata')
      | (Some errs, metadata') \<Rightarrow> (joined errs, metadata'))"

section \<open>Stream sniffers\<close>

definition header :: bytes where
  "header = bytesOf ''BitTorrent protocol''"

definition sniffBitTorrent :: streamSniffer where
  "sniffBitTorrent metadata reader =
     (case readFull 1 reader of
        None \<Rightarrow> (Some needMore, metadata)
      | Some (first, reader1) \<Rightarrow>
          if first \<noteq> [19] then (Some ErrInvalid, metadata)
          else
            (case readOnce 19 reader1 of
               None \<Rightarrow> (Some needMore, metadata)
             | Some (protocol, _) \<Rightarrow>
                 if protocol \<noteq> take (length protocol) header then (Some ErrInvalid, metadata)
                 else if length protocol < 19 then (Some ErrNeedMoreData, metadata)
                 else (None, metadata\<lparr>md_Protocol := ''bittorrent''\<rparr>)))"

text \<open>\<open>bufio.Reader.ReadLine\<close> on a buffer of 4096 bytes, for a reader that is not at its end.\<close>

definition readLine :: "bytes \<Rightarrow> bytes" where
  "readLine data =
     (let line = takeWhile (\<lambda>b. b \<noteq> 10) data
      in if length line \<ge> 4096
         then (let l = take 4096 line in if last l = 13 then butlast l else l)
         else if length line < length data \<and> line \<noteq> [] \<and> last line = 13 then butlast line
         else line)"

definition sshPrefix :: bytes where
  "sshPrefix = bytesOf ''SSH-2.0-''"

definition sniffSSH :: streamSniffer where
  "sniffSSH metadata reader =
     (let data = concat reader; prefix = take 8 data
      in if prefix \<noteq> take (length prefix) sshPrefix then (Some ErrInvalid, metadata)
         else if length prefix < 8 then (Some needMore, metadata)
         else (None, metadata\<lparr>md_Protocol := ''ssh'', md_Client := stringOf (drop 8 (readLine data))\<rparr>))"

text \<open>
  The RDP sniffer reads the TPKT and COTP headers field by field: the width of each field and the
  value it must have (a skipped field has none).
\<close>

fun readFields :: "(nat \<times> nat option) list \<Rightarrow> reader \<Rightarrow> Error option" where
  "readFields [] reader = None"
| "readFields ((width, expected) # fs) reader =
     (case readFull width reader of
        None \<Rightarrow> Some needMore
      | Some (bs, reader') \<Rightarrow>
          (case expected of
             Some v \<Rightarrow> if bigEndian bs \<noteq> v then Some ErrInvalid else readFields fs reader'
           | None \<Rightarrow> readFields fs reader'))"

definition rdpFields :: "(nat \<times> nat option) list" where
  "rdpFields =
     [(1, Some 3), (1, Some 0), (2, Some 19), (1, Some 14), (1, Some 0xE0), (5, None), (1, Some 1), (1, None), (1, Some 8)]"

definition sniffRDP :: streamSniffer where
  "sniffRDP metadata reader =
     (case readFields rdpFields reader of
        Some err \<Rightarrow> (Some err, metadata)
      | None \<Rightarrow> (None, metadata\<lparr>md_Protocol := ''rdp''\<rparr>))"

section \<open>Packet sniffers\<close>

text \<open>
  The extension loop of \<open>UTP\<close> on the bytes after the header: each extension is a type byte (at most
  4) and a length byte, followed by data that is skipped, if need be past the end.
\<close>

fun utpExtensions :: "u8 \<Rightarrow> bytes \<Rightarrow> Error option" where
  "utpExtensions extension bs =
     (if extension = 0 then None
      else case bs of
             [] \<Rightarrow> Some EOF
           | next # rest \<Rightarrow>
               if next > 4 then Some ErrInvalid
               else (case rest of
                       [] \<Rightarrow> Some EOF
                     | len # rest' \<Rightarrow> utpExtensions next (drop (unat len) rest')))"

declare utpExtensions.simps [simp del]

definition sniffUTP :: packetSniffer where
  "sniffUTP metadata packet =
     (if length packet < 20 then (Some ErrInvalid, metadata)
      else
        let version = packet ! 0 AND 0x0F; ty = drop_bit 4 (packet ! 0)
        in if version \<noteq> 1 \<or> ty > 4 then (Some ErrInvalid, metadata)
           else (case utpExtensions (packet ! 1) (drop 20 packet) of
                   Some err \<Rightarrow> (Some err, metadata)
                 | None \<Rightarrow> (None, metadata\<lparr>md_Protocol := ''bittorrent''\<rparr>)))"

definition sniffUDPTracker :: packetSniffer where
  "sniffUDPTracker metadata packet =
     (if length packet < 16 then (Some ErrInvalid, metadata)
      else if bigEndian (take 8 packet) \<noteq> 0x41727101980 then (Some ErrInvalid, metadata)
      else if bigEndian (take 4 (drop 8 packet)) \<noteq> 0 then (Some ErrInvalid, metadata)
      else (None, metadata\<lparr>md_Protocol := ''bittorrent''\<rparr>))"

definition sniffDTLSRecord :: packetSniffer where
  "sniffDTLSRecord metadata packet =
     (if length packet < 13 then (Some ErrInvalid, metadata)
      else if packet ! 0 \<notin> {20, 21, 22, 23, 25} then (Some ErrInvalid, metadata)
      else if packet ! 1 \<noteq> 0xfe then (Some ErrInvalid, metadata)
      else if packet ! 2 \<noteq> 0xff \<and> packet ! 2 \<noteq> 0xfd then (Some ErrInvalid, metadata)
      else (None, metadata\<lparr>md_Protocol := ''dtls''\<rparr>))"

text \<open>The comparisons of \<open>float64(delay) / 65536.0\<close> with 16.0 are exact on 32-bit values.\<close>

definition sniffNTP :: packetSniffer where
  "sniffNTP metadata packet =
     (if length packet < 48 then (Some ErrInvalid, metadata)
      else
        let firstByte = packet ! 0; li = drop_bit 6 firstByte AND 3; vn = drop_bit 3 firstByte AND 7;
            mode = firstByte AND 7;
            rootDelay = bigEndian (take 4 (drop 4 packet)); rootDispersion = bigEndian (take 4 (drop 8 packet))
        in if li > 3 then (Some ErrInvalid, metadata)
           else if vn \<noteq> 3 \<and> vn \<noteq> 4 then (Some ErrInvalid, metadata)
           else if mode \<noteq> 3 then (Some ErrInvalid, metadata)
           else if rootDelay > 16 * 65536 then (Some ErrInvalid, metadata)
           else if rootDispersion > 16 * 65536 then (Some ErrInvalid, metadata)
           else (None, metadata\<lparr>md_Protocol := ''ntp''\<rparr>))"

definition sniffSTUNMessage :: packetSniffer where
  "sniffSTUNMessage metadata packet =
     (if length packet < 20 then (Some ErrInvalid, metadata)
      else if bigEndian (take 4 (drop 4 packet)) \<noteq> 0x2112A442 then (Some ErrInvalid, metadata)
      else if length packet < 20 + bigEndian (take 2 (drop 2 packet)) then (Some ErrInvalid, metadata)
      else (None, metadata\<lparr>md_Protocol := ''stun''\<rparr>))"

section \<open>Readers as byte strings\<close>

lemma concat_dropBytes [simp]: "concat (dropBytes n r) = drop n (concat r)"
  by (induction n r rule: dropBytes.induct) simp_all

lemma readFull_concat: "readFull n r = None \<longleftrightarrow> length (concat r) < n"
  by (simp add: readFull_def)

text \<open>The RDP fields on a byte string.\<close>

fun matchFields :: "(nat \<times> nat option) list \<Rightarrow> bytes \<Rightarrow> Error option" where
  "matchFields [] bs = None"
| "matchFields ((width, expected) # fs) bs =
     (if length bs < width then Some needMore
      else if expected \<noteq> None \<and> expected \<noteq> Some (bigEndian (take width bs)) then Some ErrInvalid
      else matchFields fs (drop width bs))"

lemma readFields_concat: "readFields fs r = matchFields fs (concat r)"
  by (induction fs r rule: readFields.induct) (auto simp: readFull_def split: option.splits)

lemma needMore_distinct [simp]: "ErrInvalid \<noteq> needMore" "needMore \<noteq> ErrInvalid" "ErrNeedMoreData \<noteq> ErrInvalid"
  by (simp_all add: ErrInvalid_def needMore_def ErrNeedMoreData_def)

lemma matchFields_stable:
  "matchFields fs bs \<noteq> Some needMore \<Longrightarrow> matchFields fs (bs @ later) = matchFields fs bs"
proof (induction fs arbitrary: bs)
  case Nil
  then show ?case by simp
next
  case (Cons f fs)
  obtain width expected where f: "f = (width, expected)" by fastforce
  with Cons.prems have w: "width \<le> length bs" by (auto split: if_splits)
  with Cons.prems Cons.IH [of "drop width bs"] show ?case
    unfolding f by (auto split: if_splits)
qed

section \<open>Data read while sniffing\<close>

fun dataOf :: "streamScript \<Rightarrow> bytes" where
  "dataOf [] = []"
| "dataOf (Data d # script) = d @ dataOf script"
| "dataOf (_ # script) = dataOf script"

lemma PeekStream_loop_data:
  "PeekStream_loop i sniffers buffers md buffer e script = (v, buffer', rest) \<Longrightarrow>
     buffer' @ dataOf rest = buffer @ dataOf script"
proof (induction i sniffers buffers md buffer e script rule: PeekStream_loop.induct)
  case (4 i sniffers buffers md buffer e d script)
  obtain r md' where t: "trySniffers (\<lambda>s m. s m (buffers @ [buffer @ d])) sniffers md [] = (r, md')"
    by fastforce
  show ?case
  proof (cases r)
    case None
    then show ?thesis using "4.prems" t by auto
  next
    case (Some errs)
    then have t': "trySniffers (\<lambda>s m. s m (buffers @ [buffer @ d])) sniffers md [] = (Some errs, md')"
      using t by simp
    show ?thesis
      using "4.prems" "4.IH" [OF refl t' [symmetric]] t'
      by (auto simp: joined_def Let_def split: if_splits)
  qed
qed auto

section \<open>Choice of the sniffer\<close>

text \<open>Sniffers that leave the context alone when they fail.\<close>

definition clean :: "('a \<Rightarrow> InboundContext \<Rightarrow> verdict) \<Rightarrow> 'a list \<Rightarrow> InboundContext \<Rightarrow> bool" where
  "clean run ss md = list_all (\<lambda>s. fst (run s md) \<noteq> None \<longrightarrow> snd (run s md) = md) ss"

lemma trySniffers_clean:
  "clean run ss md \<Longrightarrow>
     trySniffers run ss md errs =
       (case find (\<lambda>s. fst (run s md) = None) ss of
          Some s \<Rightarrow> (None, snd (run s md))
        | None \<Rightarrow> (Some (errs @ map (\<lambda>s. the (fst (run s md))) ss), md))"
proof (induction ss arbitrary: errs)
  case Nil
  then show ?case by simp
next
  case (Cons s ss)
  then have c: "clean run ss md" "fst (run s md) \<noteq> None \<Longrightarrow> snd (run s md) = md" by (auto simp: clean_def)
  show ?case
  proof (cases "fst (run s md)")
    case None
    then show ?thesis by (cases "run s md") simp
  next
    case (Some e)
    with c(2) have "run s md = (Some e, md)" by (cases "run s md") auto
    then show ?thesis using Cons.IH [OF c(1)] by (simp split: option.splits)
  qed
qed

lemma PeekPacket_clean:
  assumes "clean (\<lambda>s m. s m packet) ss md" and "ss \<noteq> []"
  shows "PeekPacket ss md packet =
     (case find (\<lambda>s. fst (s md packet) = None) ss of
        Some s \<Rightarrow> (None, snd (s md packet))
      | None \<Rightarrow> (Some (E_Errors (map (\<lambda>s. the (fst (s md packet))) ss)), md))"
  using assms by (simp add: PeekPacket_def trySniffers_clean joined_def split: option.splits)

text \<open>A failing branch keeps the context, whatever its condition.\<close>

definition keeps :: "InboundContext \<Rightarrow> verdict \<Rightarrow> bool" where
  "keeps md v = (fst v = None \<or> snd v = md)"

lemma keeps_intros:
  "keeps md (Some e, md)" "keeps md (None, md')"
  "keeps md x \<Longrightarrow> keeps md y \<Longrightarrow> keeps md (if c then x else y)"
  by (simp_all add: keeps_def)

lemma packet_sniffers_keep:
  "keeps md (sniffUTP md packet)" "keeps md (sniffUDPTracker md packet)" "keeps md (sniffDTLSRecord md packet)"
  "keeps md (sniffNTP md packet)" "keeps md (sniffSTUNMessage md packet)"
proof -
  show "keeps md (sniffUTP md packet)"
    unfolding sniffUTP_def Let_def
    by (cases "utpExtensions (packet ! 1) (drop 20 packet)") (auto intro!: keeps_intros)
qed (auto simp only: sniffUDPTracker_def sniffDTLSRecord_def sniffNTP_def sniffSTUNMessage_def Let_def intro!: keeps_intros)

lemma packet_sniffers_clean:
  "clean (\<lambda>s m. s m packet) [sniffUTP, sniffUDPTracker, sniffDTLSRecord, sniffNTP, sniffSTUNMessage] md"
  using packet_sniffers_keep [of md packet] by (auto simp only: clean_def keeps_def list.pred_inject)

section \<open>Properties\<close>

text \<open>
  The RDP sniffer decides on the bytes, not on how they were buffered, and its verdicts are
  final: once it accepts or refuses, more data does not change the verdict, so no prefix of an RDP
  connection request is refused.
\<close>

theorem rdp_verdict_is_final:
  "sniffRDP md reader = sniffRDP md [concat reader] \<and>
   (fst (sniffRDP md reader) = Some needMore \<or> fst (sniffRDP md (reader @ later)) = fst (sniffRDP md reader))"
proof -
  have eq: "fst (sniffRDP md r) = matchFields rdpFields (concat r)" for r
    by (auto simp: sniffRDP_def readFields_concat split: option.splits)
  then show ?thesis
    using matchFields_stable [of rdpFields "concat reader" "concat later"]
    unfolding eq by (auto simp: sniffRDP_def readFields_concat)
qed

text \<open>
  A BitTorrent handshake is recognised only if the protocol name lies in one buffer: split after
  the first \<open>k\<close> of its 19 bytes by an earlier sniff, the same bytes are reported as incomplete
  whatever follows.
\<close>

theorem bittorrent_handshake_split_between_buffers:
  assumes "0 < k" and "k < 19"
  shows "fst (sniffBitTorrent md [19 # header @ rest]) = None \<and>
    fst (sniffBitTorrent md [19 # take k header, drop k header @ rest]) = Some ErrNeedMoreData"
proof -
  have len: "length header = 19" by (simp add: header_def bytesOf_def)
  then have "take k header \<noteq> []" using assms by auto
  moreover have "take 19 (take k header) = take k header" using assms by (simp add: min_def)
  moreover have "length (take k header) = k" using assms len by simp
  ultimately show ?thesis using len assms
    by (auto simp: sniffBitTorrent_def readFull_def)
qed

theorem bittorrent_handshake_split_between_buffers_witness:
  "fst (sniffBitTorrent emptyInboundContext [19 # take 7 header, drop 7 header @ []]) = Some ErrNeedMoreData"
  using bittorrent_handshake_split_between_buffers [of 7 emptyInboundContext "[]"] by simp

text \<open>
  C12: peeking at a stream loses no byte: what was read is in the returned buffer, in order, and
  nothing else is, whatever the sniffers say and however the reads end.
\<close>

theorem peek_stream_keeps_every_byte:
  assumes "PeekStream sniffers buffers md script = (verdict, buffer, rest)"
  shows "buffer @ dataOf rest = dataOf script"
  using PeekStream_loop_data [OF assms [unfolded PeekStream_def]] by simp

theorem peek_stream_keeps_every_byte_witness:
  "case PeekStream [sniffRDP] [] emptyInboundContext [Data [3, 0], Data [0, 19, 14], ReadError EOF] of
     (verdict, buffer, rest) \<Rightarrow> buffer @ dataOf rest = [3, 0, 0, 19, 14]"
proof -
  obtain v b r where e: "PeekStream [sniffRDP] [] emptyInboundContext [Data [3, 0], Data [0, 19, 14], ReadError EOF] = (v, b, r)"
    using prod_cases3 by blast
  from peek_stream_keeps_every_byte [OF e] show ?thesis by (simp add: e)
qed

text \<open>
  Over uTP, UDP tracker, DTLS, NTP and STUN, a packet is attributed to the first protocol in the
  configured order that recognises it; if none does, the context is unchanged and the error joins
  the errors of all of them.
\<close>

theorem packet_goes_to_first_recognising_sniffer:
  assumes "set ss \<subseteq> {sniffUTP, sniffUDPTracker, sniffDTLSRecord, sniffNTP, sniffSTUNMessage}" and "ss \<noteq> []"
  shows "PeekPacket ss md packet =
     (case find (\<lambda>s. fst (s md packet) = None) ss of
        Some s \<Rightarrow> (None, snd (s md packet))
      | None \<Rightarrow> (Some (E_Errors (map (\<lambda>s. the (fst (s md packet))) ss)), md))"
proof (rule PeekPacket_clean [OF _ assms(2)])
  show "clean (\<lambda>s m. s m packet) ss md"
    using assms(1) packet_sniffers_clean [of packet md] unfolding clean_def list_all_iff by auto
qed

theorem packet_goes_to_first_recognising_sniffer_witness:
  "PeekPacket [sniffDTLSRecord, sniffSTUNMessage] emptyInboundContext (22 # 0xfe # 0xfd # replicate 10 0) =
     (None, emptyInboundContext\<lparr>md_Protocol := ''dtls''\<rparr>)"
  unfolding packet_goes_to_first_recognising_sniffer
    [of "[sniffDTLSRecord, sniffSTUNMessage]" emptyInboundContext "22 # 0xfe # 0xfd # replicate 10 0", simplified]
  by (simp add: sniffDTLSRecord_def)

end
