(* ===== verification/Router.thy ===== *)
theory Router
  imports Rule_Build Sniff
begin

text \<open>
  \<open>route/route.go\<close>: the router. \<open>matchRule\<close> walks the rules, applying the actions that are not
  final (route options, sniffing, resolving) to the context until a rule is selected;
  \<open>routeConnection\<close>, \<open>routePacketConnection\<close> and \<open>PreMatch\<close> act on the selection.

  What the router calls is an environment: the rules, the process searcher, the fake-IP store, the
  DNS router, the sniffers, the inbounds and the outbounds. The connection is the script of what its
  reads will return. Logging, trackers and the release of pooled buffers are left out.
\<close>

section \<open>The environment\<close>

record Outbound =
  ob_Tag :: string
  ob_Network :: "string list"
  ob_isDirectRoute :: bool

record RouterEnv =
  re_rules :: "Rule list"
  re_processSearcher :: "(string \<Rightarrow> Socksaddr \<Rightarrow> Socksaddr option \<Rightarrow> ConnectionOwner result) option"
  re_FakeIP :: "((Addr \<Rightarrow> bool) \<times> (Addr \<Rightarrow> string option)) option"
  re_LookupReverseMapping :: "Addr \<Rightarrow> string option"
  re_Transport :: "string \<Rightarrow> bool"
  re_Lookup :: "InboundContext \<Rightarrow> string \<Rightarrow> RuleActionResolve \<Rightarrow> Addr list result"
  re_stream :: "StreamSniffer \<Rightarrow> streamSniffer"
  re_packet :: "PacketSniffer \<Rightarrow> packetSniffer"
  re_Outbound :: "string \<Rightarrow> Outbound option"
  re_Default :: Outbound
  re_Inbound :: "string \<Rightarrow> (bool \<times> bool) option"

record PacketBuffer =
  pb_Buffer :: bytes
  pb_Destination :: Socksaddr

datatype PacketRead =
  PacketData bytes Socksaddr | PacketDeadline | PacketError Error | ContextDone Error

datatype Input = NoInput | StreamInput streamScript | PacketInput "PacketRead list"

section \<open>Resolving\<close>

definition actionResolve ::
  "Lib \<Rightarrow> RouterEnv \<Rightarrow> InboundContext \<Rightarrow> RuleActionResolve \<Rightarrow> Error option \<times> InboundContext" where
  "actionResolve lib env metadata action =
     (if IsDomain lib (md_Destination metadata) then
        (if rs_Server action \<noteq> '''' \<and> \<not> re_Transport env (rs_Server action)
         then (Some (E_New [AStr ''DNS server not found: '', AStr (rs_Server action)]), metadata)
         else (case re_Lookup env metadata (sa_Fqdn (md_Destination metadata)) action of
                 Inl err \<Rightarrow> (Some err, metadata)
               | Inr addresses \<Rightarrow> (None, metadata\<lparr>md_DestinationAddresses := addresses\<rparr>)))
      else (None, metadata))"

section \<open>Sniffing\<close>

definition allStreamSniffers :: "StreamSniffer list" where
  "allStreamSniffers = [TLSClientHello, HTTPHost, StreamDomainNameQuery, BitTorrent, SSH, RDP]"

definition allPacketSniffers :: "PacketSniffer list" where
  "allPacketSniffers = [DomainNameQuery, QUICClientHello, STUNMessage, UTP, UDPTracker, DTLSRecord, NTP]"

definition isNeedMoreData :: "Error option \<Rightarrow> bool" where
  "isNeedMoreData e = (case e of None \<Rightarrow> False | Some err \<Rightarrow> errorsIs err ErrNeedMoreData)"

text \<open>The same sniffers failed before, and not for want of data.\<close>

definition previousError :: "InboundContext \<Rightarrow> RuleActionSniff \<Rightarrow> bool" where
  "previousError metadata action =
     (md_SnifferNames metadata = sn_SnifferNames action \<and> md_SniffError metadata \<noteq> None \<and>
      \<not> isNeedMoreData (md_SniffError metadata))"

definition quicMoreData :: "InboundContext \<Rightarrow> RuleActionSniff \<Rightarrow> bool" where
  "quicMoreData metadata action =
     (md_SnifferNames metadata = sn_SnifferNames action \<and> isNeedMoreData (md_SniffError metadata))"

definition recordSniff :: "RuleActionSniff \<Rightarrow> Error option \<Rightarrow> InboundContext \<Rightarrow> InboundContext" where
  "recordSniff action err metadata =
     metadata\<lparr>md_SnifferNames := sn_SnifferNames action, md_SniffError := err\<rparr>"

definition overrideDestination :: "Lib \<Rightarrow> RuleActionSniff \<Rightarrow> Error option \<Rightarrow> InboundContext \<Rightarrow> InboundContext" where
  "overrideDestination lib action err metadata =
     (if err = None \<and> sn_OverrideDestination action \<and> IsDomainName lib (md_Domain metadata)
      then metadata\<lparr>md_Destination := \<lparr>sa_Addr = AddrNone, sa_Port = sa_Port (md_Destination metadata),
                                      sa_Fqdn = md_Domain metadata\<rparr>\<rparr>
      else metadata)"

text \<open>The result of \<open>actionSniff\<close>: the new buffer, the packet buffers and the fatal error.\<close>

record SniffResult =
  sf_buffer :: "bytes option"
  sf_packetBuffers :: "PacketBuffer list"
  sf_fatalErr :: "Error option"
  sf_metadata :: InboundContext
  sf_input :: Input

definition sniffNothing :: "InboundContext \<Rightarrow> Input \<Rightarrow> SniffResult" where
  "sniffNothing metadata input =
     \<lparr>sf_buffer = None, sf_packetBuffers = [], sf_fatalErr = None, sf_metadata = metadata, sf_input = input\<rparr>"

definition sniffStream ::
  "Lib \<Rightarrow> RouterEnv \<Rightarrow> InboundContext \<Rightarrow> RuleActionSniff \<Rightarrow> bytes list \<Rightarrow> streamScript \<Rightarrow> SniffResult" where
  "sniffStream lib env metadata action inputBuffers script =
     (if length (sn_StreamSniffers action) = 0 \<and> length (sn_PacketSniffers action) > 0
      then sniffNothing metadata (StreamInput script)
      else if previousError metadata action then sniffNothing metadata (StreamInput script)
      else
        let streamSniffers = (if length (sn_StreamSniffers action) > 0 then sn_StreamSniffers action
                              else allStreamSniffers);
            ((err, metadata1), sniffBuffer, script') =
              PeekStream (map (re_stream env) streamSniffers) inputBuffers metadata script;
            metadata2 = overrideDestination lib action err (recordSniff action err metadata1)
        in \<lparr>sf_buffer = (if sniffBuffer \<noteq> [] then Some sniffBuffer else None), sf_packetBuffers = [],
            sf_fatalErr = None, sf_metadata = metadata2, sf_input = StreamInput script'\<rparr>)"

text \<open>One packet: only the QUIC sniffer while a fragmented client hello is being collected.\<close>

definition peekPacket ::
  "RouterEnv \<Rightarrow> RuleActionSniff \<Rightarrow> PacketSniffer list \<Rightarrow> InboundContext \<Rightarrow> bytes \<Rightarrow> verdict" where
  "peekPacket env action packetSniffers metadata packet =
     (let (err, metadata') =
        (if quicMoreData metadata action then PeekPacket [re_packet env QUICClientHello] metadata packet
         else PeekPacket (map (re_packet env) packetSniffers) metadata packet)
      in (err, recordSniff action err metadata'))"

text \<open>The loop over the packets buffered before: \<open>True\<close> if it jumped to \<open>finally\<close>.\<close>

fun sniffBuffered ::
  "RouterEnv \<Rightarrow> RuleActionSniff \<Rightarrow> PacketSniffer list \<Rightarrow> InboundContext \<Rightarrow> PacketBuffer list \<Rightarrow>
   bool \<times> Error option \<times> InboundContext" where
  "sniffBuffered env action ss metadata [] = (False, None, metadata)"
| "sniffBuffered env action ss metadata (p # ps) =
     (let (err, metadata') = peekPacket env action ss metadata (pb_Buffer p)
      in if isNeedMoreData err then sniffBuffered env action ss metadata' ps else (True, err, metadata'))"

text \<open>The loop that reads packets; a passed deadline ends it with that error.\<close>

fun sniffRead ::
  "RouterEnv \<Rightarrow> RuleActionSniff \<Rightarrow> PacketSniffer list \<Rightarrow> InboundContext \<Rightarrow> PacketBuffer list \<Rightarrow>
   PacketRead list \<Rightarrow> Error option \<times> Error option \<times> PacketBuffer list \<times> InboundContext \<times> PacketRead list" where
  "sniffRead env action ss metadata bufs [] = (None, Some deadlineExceeded, bufs, metadata, [])"
| "sniffRead env action ss metadata bufs (PacketDeadline # script) =
     (None, Some deadlineExceeded, bufs, metadata, script)"
| "sniffRead env action ss metadata bufs (PacketError e # script) = (Some e, Some e, bufs, metadata, script)"
| "sniffRead env action ss metadata bufs (ContextDone e # script) = (Some e, None, bufs, metadata, [])"
| "sniffRead env action ss metadata bufs (PacketData packet destination # script) =
     (let (err, metadata') = peekPacket env action ss metadata packet;
          bufs' = bufs @ [\<lparr>pb_Buffer = packet, pb_Destination = destination\<rparr>]
      in if isNeedMoreData err then sniffRead env action ss metadata' bufs' script
         else (None, err, bufs', metadata', script))"

definition sniffPackets ::
  "Lib \<Rightarrow> RouterEnv \<Rightarrow> InboundContext \<Rightarrow> RuleActionSniff \<Rightarrow> PacketBuffer list \<Rightarrow> PacketRead list \<Rightarrow> SniffResult" where
  "sniffPackets lib env metadata action inputPacketBuffers script =
     (if length (sn_PacketSniffers action) = 0 \<and> length (sn_StreamSniffers action) > 0
      then sniffNothing metadata (PacketInput script)
      else if previousError metadata action then sniffNothing metadata (PacketInput script)
      else
        let packetSniffers = (if length (sn_PacketSniffers action) > 0 then sn_PacketSniffers action
                              else allPacketSniffers)
        in case sniffBuffered env action packetSniffers metadata inputPacketBuffers of
             (True, err, metadata1) \<Rightarrow>
               sniffNothing (overrideDestination lib action err metadata1) (PacketInput script)
           | (False, _, metadata1) \<Rightarrow>
               (let (fatalErr, err, bufs, metadata2, script') =
                      sniffRead env action packetSniffers metadata1 inputPacketBuffers script
                in \<lparr>sf_buffer = None, sf_packetBuffers = bufs, sf_fatalErr = fatalErr,
                    sf_metadata = (if fatalErr \<noteq> None then metadata2
                                   else overrideDestination lib action err metadata2),
                    sf_input = PacketInput script'\<rparr>))"

definition actionSniff ::
  "Lib \<Rightarrow> RouterEnv \<Rightarrow> InboundContext \<Rightarrow> RuleActionSniff \<Rightarrow> Input \<Rightarrow> bytes list \<Rightarrow> PacketBuffer list \<Rightarrow> SniffResult" where
  "actionSniff lib env metadata action input inputBuffers inputPacketBuffers =
     (if Skip metadata then sniffNothing metadata input
      else if md_Protocol metadata \<noteq> '''' then sniffNothing metadata input
      else case input of
             StreamInput script \<Rightarrow> sniffStream lib env metadata action inputBuffers script
           | PacketInput script \<Rightarrow> sniffPackets lib env metadata action inputPacketBuffers script
           | NoInput \<Rightarrow> sniffNothing metadata input)"

section \<open>Preparing the context\<close>

definition findProcess :: "Lib \<Rightarrow> RouterEnv \<Rightarrow> InboundContext \<Rightarrow> InboundContext" where
  "findProcess lib env metadata =
     (case (re_processSearcher env, md_ProcessInfo metadata) of
        (Some search, None) \<Rightarrow>
          (let originDestination =
             (if IsValid lib (md_OriginDestination metadata) then Some (md_OriginDestination metadata)
              else if IsIP lib (md_Destination metadata) then Some (md_Destination metadata)
              else None)
           in case search (md_Network metadata) (md_Source metadata) originDestination of
                Inl _ \<Rightarrow> metadata
              | Inr processInfo \<Rightarrow> metadata\<lparr>md_ProcessInfo := Some processInfo\<rparr>)
      | _ \<Rightarrow> metadata)"

text \<open>A destination in the fake-IP range is replaced by its domain; others may have one by reverse mapping.\<close>

definition mapDestination :: "RouterEnv \<Rightarrow> InboundContext \<Rightarrow> InboundContext result" where
  "mapDestination env metadata =
     (let address = sa_Addr (md_Destination metadata);
          reverse = (if md_Domain metadata = '''' then
                       (case re_LookupReverseMapping env address of
                          Some domain \<Rightarrow> metadata\<lparr>md_Domain := domain\<rparr>
                        | None \<Rightarrow> metadata)
                     else metadata)
      in case re_FakeIP env of
           None \<Rightarrow> Inr reverse
         | Some (contains, lookup) \<Rightarrow>
             if addrIsValid address \<and> contains address then
               (case lookup address of
                  None \<Rightarrow> Inl (E_New [AStr ''missing fakeip record, try enable `experimental.cache_file`''])
                | Some domain \<Rightarrow>
                    if domain \<noteq> '''' then
                      Inr (metadata\<lparr>md_OriginDestination := md_Destination metadata,
                                    md_Destination := \<lparr>sa_Addr = AddrNone, sa_Port = sa_Port (md_Destination metadata),
                                                       sa_Fqdn = domain\<rparr>,
                                    md_FakeIP := True\<rparr>)
                    else Inr metadata)
             else Inr reverse)"

definition setIPVersion :: "Lib \<Rightarrow> InboundContext \<Rightarrow> InboundContext" where
  "setIPVersion lib metadata =
     (if IsIPv4 lib (md_Destination metadata) then metadata\<lparr>md_IPVersion := 4\<rparr>
      else if IsIPv6 lib (md_Destination metadata) then metadata\<lparr>md_IPVersion := 6\<rparr>
      else metadata)"

section \<open>Route options\<close>

definition overrideStep :: "Lib \<Rightarrow> RuleActionRouteOptions \<Rightarrow> InboundContext \<Rightarrow> InboundContext" where
  "overrideStep lib routeOptions metadata =
     (let m1 = (if (IsValid lib (ro_OverrideAddress routeOptions) \<or> ro_OverridePort routeOptions > 0) \<and>
                   \<not> IsValid lib (md_RouteOriginalDestination metadata)
                then metadata\<lparr>md_RouteOriginalDestination := md_Destination metadata\<rparr> else metadata);
          m2 = (if IsValid lib (ro_OverrideAddress routeOptions)
                then m1\<lparr>md_Destination := \<lparr>sa_Addr = sa_Addr (ro_OverrideAddress routeOptions),
                                            sa_Port = sa_Port (md_Destination m1),
                                            sa_Fqdn = sa_Fqdn (ro_OverrideAddress routeOptions)\<rparr>,
                        md_DestinationAddresses := []\<rparr> else m1)
      in if ro_OverridePort routeOptions > 0
         then m2\<lparr>md_Destination := (md_Destination m2)\<lparr>sa_Port := ro_OverridePort routeOptions\<rparr>\<rparr> else m2)"

definition applyRouteOptions :: "Lib \<Rightarrow> RuleActionRouteOptions \<Rightarrow> InboundContext \<Rightarrow> InboundContext" where
  "applyRouteOptions lib ro metadata =
     (let m3 = overrideStep lib ro metadata;
          m4 = (if ro_NetworkStrategy ro \<noteq> None then m3\<lparr>md_NetworkStrategy := ro_NetworkStrategy ro\<rparr> else m3);
          m5 = (if length (ro_NetworkType ro) > 0 then m4\<lparr>md_NetworkType := ro_NetworkType ro\<rparr> else m4);
          m6 = (if length (ro_FallbackNetworkType ro) > 0
                then m5\<lparr>md_FallbackNetworkType := ro_FallbackNetworkType ro\<rparr> else m5);
          m7 = (if ro_FallbackDelay ro \<noteq> 0 then m6\<lparr>md_FallbackDelay := ro_FallbackDelay ro\<rparr> else m6);
          m8 = (if ro_UDPDisableDomainUnmapping ro then m7\<lparr>md_UDPDisableDomainUnmapping := True\<rparr> else m7);
          m9 = (if ro_UDPConnect ro then m8\<lparr>md_UDPConnect := True\<rparr> else m8);
          m10 = (if ro_UDPTimeout ro > 0 then m9\<lparr>md_UDPTimeout := ro_UDPTimeout ro\<rparr> else m9);
          m11 = (if ro_TLSFragment ro
                 then m10\<lparr>md_TLSFragment := True, md_TLSFragmentFallbackDelay := ro_TLSFragmentFallbackDelay ro\<rparr>
                 else m10)
      in if ro_TLSRecordFragment ro then m11\<lparr>md_TLSRecordFragment := True\<rparr> else m11)"

fun routeOptionsOf :: "RuleAction \<Rightarrow> RuleActionRouteOptions option" where
  "routeOptionsOf (ActionRoute _ ro) = Some ro"
| "routeOptionsOf (ActionRouteOptions ro) = Some ro"
| "routeOptionsOf _ = None"

section \<open>Matching\<close>

text \<open>The variables of \<open>matchRule\<close>: the context, the connection and what was read from it.\<close>

record MatchState =
  ms_metadata :: InboundContext
  ms_input :: Input
  ms_buffers :: "bytes list"
  ms_packetBuffers :: "PacketBuffer list"

datatype Flow = Continue | Selected | Fatal Error

definition applySniff :: "Lib \<Rightarrow> RouterEnv \<Rightarrow> RuleActionSniff \<Rightarrow> MatchState \<Rightarrow> Error option \<times> MatchState" where
  "applySniff lib env action st =
     (let res = actionSniff lib env (ms_metadata st) action (ms_input st) (ms_buffers st) (ms_packetBuffers st);
          st' = st\<lparr>ms_metadata := sf_metadata res, ms_input := sf_input res\<rparr>
      in (sf_fatalErr res,
          case sf_buffer res of
            Some newBuffer \<Rightarrow> st'\<lparr>ms_buffers := ms_buffers st' @ [newBuffer]\<rparr>
          | None \<Rightarrow> if length (sf_packetBuffers res) > 0
                    then st'\<lparr>ms_packetBuffers := ms_packetBuffers st' @ sf_packetBuffers res\<rparr> else st'))"

text \<open>The second switch on the action of a matching rule.\<close>

definition runAction ::
  "Lib \<Rightarrow> RouterEnv \<Rightarrow> bool \<Rightarrow> RuleAction \<Rightarrow> MatchState \<Rightarrow> Flow \<times> MatchState" where
  "runAction lib env preMatch action st =
     (case action of
        ActionSniff sniff \<Rightarrow>
          (if \<not> preMatch then
             (case applySniff lib env sniff st of
                (Some err, st') \<Rightarrow> (Fatal err, st')
              | (None, st') \<Rightarrow> (Continue, st'))
           else if md_Network (ms_metadata st) \<noteq> ''icmp'' then (Selected, st)
           else (Continue, st))
      | ActionResolve resolve \<Rightarrow>
          (case actionResolve lib env (ms_metadata st) resolve of
             (Some err, m) \<Rightarrow> (Fatal err, st\<lparr>ms_metadata := m\<rparr>)
           | (None, m) \<Rightarrow> (Continue, st\<lparr>ms_metadata := m\<rparr>))
      | _ \<Rightarrow> (Continue, st))"

text \<open>The final actions; a bypass without outbound is one only where bypassing is supported.\<close>

definition selects :: "bool \<Rightarrow> RuleAction \<Rightarrow> bool" where
  "selects supportBypass action =
     (case action of
        ActionBypass outbound _ \<Rightarrow> supportBypass \<or> outbound \<noteq> ''''
      | _ \<Rightarrow> RuleAction_Type action \<in> {''route'', ''reject'', ''hijack-dns''})"

definition nilAction :: Error where
  "nilAction = Panic [AStr ''invalid memory address or nil pointer dereference'']"

definition matchStep ::
  "Lib \<Rightarrow> Net \<Rightarrow> RuleSetStore \<Rightarrow> RouterEnv \<Rightarrow> bool \<Rightarrow> bool \<Rightarrow> Rule \<Rightarrow> MatchState \<Rightarrow> Flow \<times> MatchState" where
  "matchStep lib net store env preMatch supportBypass currentRule st =
     (let (matched, metadata) = Rule_Match lib net store currentRule (ResetRuleCache (ms_metadata st));
          st1 = st\<lparr>ms_metadata := metadata\<rparr>
      in if \<not> matched then (Continue, st1)
         else
           (case Rule_getAction currentRule of
              None \<Rightarrow> (Fatal nilAction, st1)
            | Some action \<Rightarrow>
                (let st2 = (case routeOptionsOf action of
                              Some ro \<Rightarrow> st1\<lparr>ms_metadata := applyRouteOptions lib ro metadata\<rparr>
                            | None \<Rightarrow> st1)
                 in case runAction lib env preMatch action st2 of
                      (Continue, st3) \<Rightarrow> (if selects supportBypass action then Selected else Continue, st3)
                    | result \<Rightarrow> result)))"

fun matchLoop ::
  "Lib \<Rightarrow> Net \<Rightarrow> RuleSetStore \<Rightarrow> RouterEnv \<Rightarrow> bool \<Rightarrow> bool \<Rightarrow> nat \<Rightarrow> Rule list \<Rightarrow> MatchState \<Rightarrow>
   (Error + nat option) \<times> MatchState" where
  "matchLoop lib net store env preMatch supportBypass i [] st = (Inr None, st)"
| "matchLoop lib net store env preMatch supportBypass i (rule # rules) st =
     (case matchStep lib net store env preMatch supportBypass rule st of
        (Fatal err, st') \<Rightarrow> (Inl err, st')
      | (Selected, st') \<Rightarrow> (Inr (Some i), st')
      | (Continue, st') \<Rightarrow> matchLoop lib net store env preMatch supportBypass (Suc i) rules st')"

definition matchRule ::
  "Lib \<Rightarrow> Net \<Rightarrow> RuleSetStore \<Rightarrow> RouterEnv \<Rightarrow> InboundContext \<Rightarrow> bool \<Rightarrow> bool \<Rightarrow> Input \<Rightarrow>
   (Error + nat option) \<times> MatchState" where
  "matchRule lib net store env metadata preMatch supportBypass input =
     (let metadata1 = findProcess lib env metadata;
          initial = \<lparr>ms_metadata = metadata1, ms_input = input, ms_buffers = [], ms_packetBuffers = []\<rparr>
      in case mapDestination env metadata1 of
           Inl err \<Rightarrow> (Inl err, initial)
         | Inr metadata2 \<Rightarrow>
             matchLoop lib net store env preMatch supportBypass 0 (re_rules env)
               (initial\<lparr>ms_metadata := setIPVersion lib metadata2\<rparr>))"

section \<open>Routing\<close>

text \<open>
  What becomes of a connection: handed to another inbound, refused with an error, rejected by the
  action of a rule (with the limiter as it is afterwards), answered as DNS, or handed to an outbound
  with the buffered data. A nil outbound is \<open>None\<close>.
\<close>

datatype Dispatch =
    ToInbound string InboundContext
  | Failed Error
  | Rejected nat RejectOutcome RuleActionReject
  | HijackedDNS MatchState
  | ToOutbound "Outbound option" "nat option" MatchState

definition selectOutbound :: "RouterEnv \<Rightarrow> string \<Rightarrow> string \<Rightarrow> string \<Rightarrow> Outbound result" where
  "selectOutbound env network unsupported tag =
     (case re_Outbound env tag of
        None \<Rightarrow> Inl (E_New [AStr ''outbound not found: '', AStr tag])
      | Some outbound \<Rightarrow>
          if network \<notin> set (ob_Network outbound)
          then Inl (E_New [AStr unsupported, AStr (ob_Tag outbound)]) else Inr outbound)"

definition toDetour :: "RouterEnv \<Rightarrow> (bool \<times> bool \<Rightarrow> bool) \<Rightarrow> string \<Rightarrow> InboundContext \<Rightarrow> Dispatch" where
  "toDetour env injectable notInjectable metadata =
     (let detour = md_InboundDetour metadata
      in if md_LastInbound metadata = detour then Failed (E_New [AStr ''routing loop on detour: '', AStr detour])
         else case re_Inbound env detour of
                None \<Rightarrow> Failed (E_New [AStr ''inbound detour not found: '', AStr detour])
              | Some kinds \<Rightarrow>
                  if \<not> injectable kinds then Failed (E_New [AStr notInjectable, AStr detour])
                  else ToInbound detour (metadata\<lparr>md_LastInbound := md_Inbound metadata, md_Inbound := detour,
                                                  md_InboundDetour := ''''\<rparr>))"

text \<open>The destinations that used to select global multiplexing, with the error they give.\<close>

definition magicDestination :: "(string \<Rightarrow> string option) \<Rightarrow> InboundContext \<Rightarrow> Error option" where
  "magicDestination magic metadata =
     (case magic (sa_Fqdn (md_Destination metadata)) of
        Some message \<Rightarrow> Some (E_New [AStr message]) | None \<Rightarrow> None)"

text \<open>The part of the two functions after \<open>matchRule\<close>, for a network and its error messages.\<close>

definition dispatch ::
  "RouterEnv \<Rightarrow> string \<Rightarrow> string \<Rightarrow> string \<Rightarrow> string \<Rightarrow> int \<Rightarrow> nat option \<Rightarrow> MatchState \<Rightarrow> Dispatch" where
  "dispatch env network unsupported unsupportedDefault noReply now selected st =
     (case selected of
        None \<Rightarrow>
          if network \<notin> set (ob_Network (re_Default env))
          then Failed (E_New [AStr unsupportedDefault, AStr (ob_Tag (re_Default env))])
          else ToOutbound (Some (re_Default env)) None st
      | Some i \<Rightarrow>
          (case Rule_getAction (re_rules env ! i) of
             Some (ActionRoute tag _) \<Rightarrow>
               (case selectOutbound env network unsupported tag of
                  Inl err \<Rightarrow> Failed err
                | Inr outbound \<Rightarrow> ToOutbound (Some outbound) (Some i) st)
           | Some (ActionBypass tag _) \<Rightarrow>
               if tag = '''' then ToOutbound None (Some i) st
               else (case selectOutbound env network unsupported tag of
                       Inl err \<Rightarrow> Failed err
                     | Inr outbound \<Rightarrow> ToOutbound (Some outbound) (Some i) st)
           | Some (ActionReject reject) \<Rightarrow>
               if rj_Method reject = ''reply'' then Failed (E_New [AStr noReply])
               else (let (outcome, reject') = RuleActionReject_Error now reject in Rejected i outcome reject')
           | Some ActionHijackDNS \<Rightarrow> HijackedDNS st
           | _ \<Rightarrow> ToOutbound None (Some i) st))"

definition routeConnection ::
  "(string \<Rightarrow> string option) \<Rightarrow> Lib \<Rightarrow> Net \<Rightarrow> RuleSetStore \<Rightarrow> RouterEnv \<Rightarrow> int \<Rightarrow> InboundContext \<Rightarrow>
   streamScript \<Rightarrow> Dispatch" where
  "routeConnection magic lib net store env now metadata script =
     (if md_InboundDetour metadata \<noteq> ''''
      then toDetour env fst ''inbound detour is not TCP injectable: '' metadata
      else
        let metadata1 = metadata\<lparr>md_Network := ''tcp''\<rparr>
        in case magicDestination magic metadata1 of
             Some err \<Rightarrow> Failed err
           | None \<Rightarrow>
               (case matchRule lib net store env metadata1 False False (StreamInput script) of
                  (Inl err, _) \<Rightarrow> Failed err
                | (Inr selected, st) \<Rightarrow>
                    dispatch env ''tcp'' ''TCP is not supported by outbound: ''
                      ''TCP is not supported by default outbound: ''
                      ''reject method `reply` is not supported for TCP connections'' now selected st))"

definition routePacketConnection ::
  "Lib \<Rightarrow> Net \<Rightarrow> RuleSetStore \<Rightarrow> RouterEnv \<Rightarrow> int \<Rightarrow> InboundContext \<Rightarrow> PacketRead list \<Rightarrow> Dispatch" where
  "routePacketConnection lib net store env now metadata script =
     (if md_InboundDetour metadata \<noteq> ''''
      then toDetour env snd ''inbound detour is not UDP injectable: '' metadata
      else
        case matchRule lib net store env (metadata\<lparr>md_Network := ''udp''\<rparr>) False False (PacketInput script) of
          (Inl err, _) \<Rightarrow> Failed err
        | (Inr selected, st) \<Rightarrow>
            dispatch env ''udp'' ''UDP is not supported by outbound: '' ''UDP is not supported by outbound: ''
              ''reject method `reply` is not supported for UDP connections'' now selected st)"

text \<open>
  The connection handed to the outbound (and to the DNS hijacker): the buffered data is put back by
  wrapping the connection once per buffer, with \<open>NewCachedConn\<close> or \<open>NewCachedPacketConn\<close> of the
  library, which are parameters.
\<close>

definition cachedConn :: "('conn \<Rightarrow> 'buffer \<Rightarrow> 'conn) \<Rightarrow> 'conn \<Rightarrow> 'buffer list \<Rightarrow> 'conn" where
  "cachedConn newCachedConn conn buffers = foldl newCachedConn conn buffers"

section \<open>Pre-matching\<close>

text \<open>
  The result of \<open>PreMatch\<close>: no direct route (nil, nil), an error, the outcome of a reject action, a
  bypass, or a direct route through an outbound, with the address that replaced a domain.
\<close>

datatype PreMatchResult =
    NoDirectRoute
  | PreMatchError Error
  | PreMatchRejected RejectOutcome
  | Bypassed
  | DirectRoute Outbound InboundContext "Addr option"

definition asDirectRoute :: "Outbound \<Rightarrow> Outbound result" where
  "asDirectRoute outbound =
     (if ob_isDirectRoute outbound then Inr outbound
      else Inl (Panic [AStr ''interface conversion: adapter.Outbound is not adapter.DirectRouteOutbound'']))"

definition preMatchOutbound :: "RouterEnv \<Rightarrow> InboundContext \<Rightarrow> string \<Rightarrow> Outbound result" where
  "preMatchOutbound env metadata tag =
     (case re_Outbound env tag of
        None \<Rightarrow> Inl (E_New [AStr ''outbound not found: '', AStr tag])
      | Some outbound \<Rightarrow>
          if md_Network metadata \<notin> set (ob_Network outbound)
          then Inl (E_New [AStr (md_Network metadata), AStr '' is not supported by outbound: '', AStr tag])
          else asDirectRoute outbound)"

text \<open>The end of \<open>PreMatch\<close>: a domain is resolved to an address of the family of the source.\<close>

definition directRoute :: "Lib \<Rightarrow> RouterEnv \<Rightarrow> InboundContext \<Rightarrow> Outbound \<Rightarrow> PreMatchResult" where
  "directRoute lib env metadata outbound =
     (if IsDomain lib (md_Destination metadata) then
        (let v4 = IsIPv4 lib (md_Source metadata);
             resolved =
               (if length (md_DestinationAddresses metadata) = 0 then
                  actionResolve lib env metadata
                    \<lparr>rs_Server = '''', rs_Strategy = (if v4 then DomainStrategyIPv4Only else DomainStrategyIPv6Only),
                     rs_DisableCache = False, rs_RewriteTTL = None, rs_ClientSubnet = Prefix AddrNone 0\<rparr>
                else (None, metadata))
         in case resolved of
              (Some err, _) \<Rightarrow> PreMatchError err
            | (None, metadata1) \<Rightarrow>
                (case find (if v4 then addrIs4 else addrIs6) (md_DestinationAddresses metadata1) of
                   None \<Rightarrow>
                     PreMatchError
                       (E_New [AStr (if v4 then ''no IPv4 address found for domain: ''
                                     else ''no IPv6 address found for domain: ''),
                               AStr (sa_Fqdn (md_Destination metadata1))])
                 | Some newDestination \<Rightarrow>
                     DirectRoute outbound
                       (metadata1\<lparr>md_Destination := \<lparr>sa_Addr = newDestination, sa_Port = 0, sa_Fqdn = ''''\<rparr>\<rparr>)
                       (Some newDestination)))
      else DirectRoute outbound metadata None)"

definition PreMatch ::
  "Lib \<Rightarrow> Net \<Rightarrow> RuleSetStore \<Rightarrow> RouterEnv \<Rightarrow> int \<Rightarrow> InboundContext \<Rightarrow> bool \<Rightarrow> bool \<Rightarrow> PreMatchResult" where
  "PreMatch lib net store env now metadata0 routeContext supportBypass =
     (case matchRule lib net store env metadata0 True supportBypass NoInput of
        (Inl err, _) \<Rightarrow> PreMatchError err
      | (Inr selected, st) \<Rightarrow>
          (let metadata = ms_metadata st;
               via = (\<lambda>tag. if \<not> routeContext then NoDirectRoute
                            else case preMatchOutbound env metadata tag of
                                   Inl err \<Rightarrow> PreMatchError err
                                 | Inr outbound \<Rightarrow> directRoute lib env metadata outbound)
           in case selected of
                Some i \<Rightarrow>
                  (case Rule_getAction (re_rules env ! i) of
                     Some (ActionReject reject) \<Rightarrow>
                       if md_Network metadata = ''tcp'' \<and> rj_Method reject = ''reply''
                       then PreMatchError (E_New [AStr ''reject method `reply` is not supported for TCP connections''])
                       else if md_Network metadata = ''udp'' \<and> rj_Method reject = ''reply''
                       then PreMatchError (E_New [AStr ''reject method `reply` is not supported for UDP connections''])
                       else PreMatchRejected (fst (RuleActionReject_Error now reject))
                   | Some (ActionBypass tag _) \<Rightarrow> if supportBypass then Bypassed else via tag
                   | Some (ActionRoute tag _) \<Rightarrow> via tag
                   | _ \<Rightarrow> NoDirectRoute)
              | None \<Rightarrow>
                  if md_Network metadata \<noteq> ''icmp'' then NoDirectRoute
                  else if md_Network metadata \<notin> set (ob_Network (re_Default env))
                  then PreMatchError (E_New [AStr (md_Network metadata), AStr '' is not supported by default outbound: '',
                                             AStr (ob_Tag (re_Default env))])
                  else (case asDirectRoute (re_Default env) of
                          Inl err \<Rightarrow> PreMatchError err
                        | Inr outbound \<Rightarrow> directRoute lib env metadata outbound)))"

end
