(* ===== verification/Router_Props.thy ===== *)
theory Router_Props
  imports Router Rule_Build_Props
begin

text \<open>
  What the router guarantees: which rule is selected, that no connection is handed to a missing or
  unsuitable outbound, what happens to the data read while sniffing, and how overridden and fake
  destinations are kept.
\<close>

section \<open>The selected rule\<close>

lemma matchStep_Selected:
  assumes "matchStep lib net store env pm sb rule st = (Selected, st')"
  obtains action where "Rule_getAction rule = Some action"
    and "selects sb action \<or> pm \<and> (\<exists>s. action = ActionSniff s)"
  using assms
  by (auto simp: matchStep_def runAction_def Let_def split_beta split: if_splits option.splits RuleAction.splits prod.splits)

lemma matchLoop_split:
  "matchLoop lib net store env pm sb i rules st = (Inr (Some k), st'') \<longleftrightarrow>
     i \<le> k \<and> k < i + length rules \<and>
     (\<exists>st'. matchLoop lib net store env pm sb i (take (k - i) rules) st = (Inr None, st') \<and>
            matchStep lib net store env pm sb (rules ! (k - i)) st' = (Selected, st''))"
proof (induction rules arbitrary: i st)
  case Nil
  then show ?case by simp
next
  case (Cons rule rules)
  obtain f m where s: "matchStep lib net store env pm sb rule st = (f, m)" by fastforce
  show ?case
  proof (cases f)
    case Continue
    show ?thesis
    proof (cases "k \<le> i")
      case True
      have "matchLoop lib net store env pm sb (Suc i) rules m \<noteq> (Inr (Some k), st'')"
        using True by (simp add: Cons.IH)
      then show ?thesis using True Continue s by (auto simp: take_Cons')
    next
      case False
      then have "k - i = Suc (k - Suc i)" by simp
      then show ?thesis using False Continue s by (auto simp: Cons.IH)
    qed
  next
    case Selected
    then show ?thesis using s by (cases "k \<le> i") (auto simp: take_Cons' nth_Cons')
  next
    case (Fatal e)
    then show ?thesis using s by (cases "k \<le> i") (auto simp: take_Cons' nth_Cons')
  qed
qed

lemma matchRule_loop:
  assumes "matchRule lib net store env md pm sb input = (Inr selected, st)"
  obtains st0 where "matchLoop lib net store env pm sb 0 (re_rules env) st0 = (Inr selected, st)"
    and "ms_input st0 = input" and "ms_buffers st0 = []" and "ms_packetBuffers st0 = []"
  using assms by (auto simp: matchRule_def Let_def split: sum.splits)

lemma matchRule_selected:
  assumes "matchRule lib net store env md pm sb input = (Inr (Some i), st)"
  obtains action where "i < length (re_rules env)" and "Rule_getAction (re_rules env ! i) = Some action"
    and "selects sb action \<or> pm \<and> (\<exists>s. action = ActionSniff s)"
proof -
  obtain st0 where "matchLoop lib net store env pm sb 0 (re_rules env) st0 = (Inr (Some i), st)"
    using matchRule_loop [OF assms] by blast
  then obtain st' where "i < length (re_rules env)"
    and "matchStep lib net store env pm sb (re_rules env ! i) st' = (Selected, st)"
    by (auto simp: matchLoop_split)
  then show ?thesis using that by (blast elim: matchStep_Selected)
qed

text \<open>A rule of the router has no DNS action.\<close>

definition routeRule :: "Rule \<Rightarrow> bool" where
  "routeRule rule = (case Rule_getAction rule of
     Some (ActionDNSRoute _ _) \<Rightarrow> False | Some (ActionDNSRouteOptions _) \<Rightarrow> False
   | Some (ActionPredefined _ _ _ _) \<Rightarrow> False | _ \<Rightarrow> True)"

lemma NewRuleAction_routeRule:
  "NewRuleAction dn ds lib options = Inr (Some action) \<Longrightarrow> Rule_getAction rule = Some action \<Longrightarrow> routeRule rule"
  by (auto simp: NewRuleAction_def routeRule_def split: if_splits)

lemma NewRule_routeRule:
  assumes "NewRule dl lib c options = Inr rule"
  shows "routeRule rule"
proof (cases "Rule_getAction rule")
  case None
  then show ?thesis by (simp add: routeRule_def)
next
  case (Some action)
  have "\<exists>options. NewRuleAction (dl_New dl) (dl_Descriptions dl) lib options = Inr (Some action)"
    using assms Some by (cases options) (auto split: if_splits dest!: NewDefaultRule_action)
  then show ?thesis using Some NewRuleAction_routeRule by blast
qed

lemma findProcess_destination [simp]: "md_Destination (findProcess lib env md) = md_Destination md"
  by (simp add: findProcess_def Let_def split: option.splits sum.splits)

section \<open>Dispatch\<close>

text \<open>The outbound a connection is handed to, for the selected rule.\<close>

definition suitable :: "RouterEnv \<Rightarrow> string \<Rightarrow> nat option \<Rightarrow> Outbound option \<Rightarrow> bool" where
  "suitable env network selected o' =
     (case o' of
        None \<Rightarrow> False
      | Some outbound \<Rightarrow>
          network \<in> set (ob_Network outbound) \<and>
          (case selected of
             None \<Rightarrow> outbound = re_Default env
           | Some i \<Rightarrow>
               i < length (re_rules env) \<and>
               (case Rule_getAction (re_rules env ! i) of
                  Some (ActionRoute tag _) \<Rightarrow> re_Outbound env tag = Some outbound
                | Some (ActionBypass tag _) \<Rightarrow> re_Outbound env tag = Some outbound
                | _ \<Rightarrow> False)))"

lemma selectOutbound_ok:
  "selectOutbound env network msg tag = Inr outbound \<longleftrightarrow>
   re_Outbound env tag = Some outbound \<and> network \<in> set (ob_Network outbound)"
  by (auto simp: selectOutbound_def split: option.splits if_splits)

lemma dispatch_suitable:
  assumes "list_all routeRule (re_rules env)"
    and "matchRule lib net store env md False False input = (Inr selected, st0)"
    and "dispatch env network msg1 msg2 msg3 now selected st0 = ToOutbound o' sel st"
  shows "suitable env network sel o' \<and> st = st0"
proof (cases selected)
  case None
  then show ?thesis using assms(3) by (auto simp: dispatch_def suitable_def split: if_splits)
next
  case (Some i)
  obtain action where i: "i < length (re_rules env)" and a: "Rule_getAction (re_rules env ! i) = Some action"
    and s: "selects False action"
    using matchRule_selected assms(2) Some by blast
  have "routeRule (re_rules env ! i)" using assms(1) i by (simp add: list_all_length)
  then show ?thesis
    using assms(3) a s i Some
    by (cases action) (auto simp: dispatch_def routeRule_def selects_def suitable_def selectOutbound_ok Let_def
        split_beta split: sum.splits if_splits option.splits, metis+)
qed

text \<open>A connection that is neither refused nor handed on to another inbound went through the rules.\<close>

definition handled :: "Dispatch \<Rightarrow> bool" where
  "handled d = (case d of ToInbound _ _ \<Rightarrow> False | Failed _ \<Rightarrow> False | _ \<Rightarrow> True)"

lemma toDetour_not_handled: "\<not> handled (toDetour env f msg md)"
  by (simp add: toDetour_def handled_def Let_def split: option.splits)

lemma routeConnection_handled:
  assumes "handled (routeConnection magic lib net store env now md script)"
  obtains md' sel st a b c where "matchRule lib net store env md' False False (StreamInput script) = (Inr sel, st)"
    and "routeConnection magic lib net store env now md script = dispatch env ''tcp'' a b c now sel st"
proof -
  have d: "md_InboundDetour md = ''''"
    using assms toDetour_not_handled by (auto simp: routeConnection_def split: if_splits)
  let ?md = "md\<lparr>md_Network := ''tcp''\<rparr>"
  have m: "magicDestination magic ?md = None"
    using assms d by (auto simp: routeConnection_def Let_def handled_def split: option.splits)
  obtain r st where r: "matchRule lib net store env ?md False False (StreamInput script) = (r, st)" by fastforce
  with assms d m obtain sel where "r = Inr sel" by (cases r) (auto simp: routeConnection_def handled_def)
  with r show ?thesis using that [of ?md sel st] d m by (simp add: routeConnection_def)
qed

lemma routePacketConnection_handled:
  assumes "handled (routePacketConnection lib net store env now md script)"
  obtains md' sel st a b c where "matchRule lib net store env md' False False (PacketInput script) = (Inr sel, st)"
    and "routePacketConnection lib net store env now md script = dispatch env ''udp'' a b c now sel st"
proof -
  have d: "md_InboundDetour md = ''''"
    using assms toDetour_not_handled by (auto simp: routePacketConnection_def split: if_splits)
  let ?md = "md\<lparr>md_Network := ''udp''\<rparr>"
  obtain r st where r: "matchRule lib net store env ?md False False (PacketInput script) = (r, st)" by fastforce
  with assms d obtain sel where "r = Inr sel" by (cases r) (auto simp: routePacketConnection_def handled_def)
  with r show ?thesis using that [of ?md sel st] d by (simp add: routePacketConnection_def)
qed

lemma dispatch_state:
  "dispatch env network a b c now sel st = ToOutbound o' sel' st' \<Longrightarrow> st' = st"
  "dispatch env network a b c now sel st = HijackedDNS st' \<Longrightarrow> st' = st"
  by (auto simp: dispatch_def Let_def split: if_splits option.splits RuleAction.splits sum.splits prod.splits)

section \<open>Data read from streams\<close>

definition pending :: "MatchState \<Rightarrow> bytes" where
  "pending st = concat (ms_buffers st) @ (case ms_input st of StreamInput script \<Rightarrow> dataOf script | _ \<Rightarrow> [])"

definition isStream :: "MatchState \<Rightarrow> bool" where
  "isStream st = (case ms_input st of StreamInput _ \<Rightarrow> True | _ \<Rightarrow> False)"

lemma pending_metadata [simp]: "pending (st\<lparr>ms_metadata := m\<rparr>) = pending st" "isStream (st\<lparr>ms_metadata := m\<rparr>) = isStream st"
  by (simp_all add: pending_def isStream_def)

lemma PeekStream_data: "PeekStream ss bs md script = (v, buffer, rest) \<Longrightarrow> buffer @ dataOf rest = dataOf script"
  using PeekStream_loop_data [of 0 ss bs md "[]" None script v buffer rest] by (simp add: PeekStream_def)

lemma applySniff_pending:
  assumes "isStream st"
  shows "pending (snd (applySniff lib env action st)) = pending st \<and> isStream (snd (applySniff lib env action st))"
proof -
  from assms obtain script where st: "ms_input st = StreamInput script"
    by (auto simp: isStream_def split: Input.splits)
  let ?ss = "map (re_stream env) (if length (sn_StreamSniffers action) > 0 then sn_StreamSniffers action else allStreamSniffers)"
  obtain e m buffer rest where p: "PeekStream ?ss (ms_buffers st) (ms_metadata st) script = ((e, m), buffer, rest)"
    by (metis surj_pair)
  note d = PeekStream_data [OF p]
  show ?thesis
    using d p st
    by (auto simp: applySniff_def actionSniff_def sniffNothing_def sniffStream_def pending_def isStream_def Let_def)
qed

lemma runAction_pending:
  assumes "isStream st"
  shows "pending (snd (runAction lib env pm action st)) = pending st \<and> isStream (snd (runAction lib env pm action st))"
proof (cases action)
  case (ActionSniff s)
  obtain e m where "applySniff lib env s st = (e, m)" by fastforce
  with applySniff_pending [OF assms, of lib env s] assms ActionSniff show ?thesis
    by (cases e) (auto simp: runAction_def)
qed (use assms in \<open>auto simp: runAction_def split: prod.splits option.splits\<close>)

lemma matchStep_pending:
  assumes "isStream st"
  shows "pending (snd (matchStep lib net store env pm sb rule st)) = pending st \<and>
    isStream (snd (matchStep lib net store env pm sb rule st))"
proof -
  obtain matched m where rm: "Rule_Match lib net store rule (ResetRuleCache (ms_metadata st)) = (matched, m)"
    by fastforce
  show ?thesis
  proof (cases "matched \<and> Rule_getAction rule \<noteq> None")
    case True
    then obtain action where a: "Rule_getAction rule = Some action" by auto
    define st2 where "st2 = (case routeOptionsOf action of
      Some ro \<Rightarrow> st\<lparr>ms_metadata := applyRouteOptions lib ro m\<rparr> | None \<Rightarrow> st\<lparr>ms_metadata := m\<rparr>)"
    then have st2: "pending st2 = pending st" "isStream st2"
      using assms by (auto split: option.splits)
    obtain f st3 where r: "runAction lib env pm action st2 = (f, st3)" by fastforce
    have "snd (matchStep lib net store env pm sb rule st) = st3"
      using True rm a r by (cases f) (auto simp: matchStep_def Let_def st2_def split: option.splits)
    then show ?thesis using runAction_pending [OF st2(2), of lib env pm action] r st2 by simp
  next
    case False
    then show ?thesis using rm assms by (auto simp: matchStep_def Let_def split: option.splits)
  qed
qed

lemma matchLoop_pending:
  "isStream st \<Longrightarrow> pending (snd (matchLoop lib net store env pm sb i rules st)) = pending st \<and>
     isStream (snd (matchLoop lib net store env pm sb i rules st))"
proof (induction rules arbitrary: i st)
  case Nil
  then show ?case by simp
next
  case (Cons rule rules)
  obtain f m where s: "matchStep lib net store env pm sb rule st = (f, m)" by fastforce
  have "pending m = pending st" "isStream m" using matchStep_pending [OF Cons.prems] s by (metis snd_conv)+
  with Cons.IH [of m] s show ?case by (cases f) auto
qed

lemma matchStep_sniffStream:
  assumes "fst (Rule_Match lib net store rule (ResetRuleCache (ms_metadata st)))"
    and "Rule_getAction rule = Some (ActionSniff action)" and "ms_input st = StreamInput script"
  shows "\<exists>st'. matchStep lib net store env False sb rule st = (Continue, st')"
  using assms
  by (auto simp: matchStep_def runAction_def applySniff_def actionSniff_def sniffNothing_def sniffStream_def selects_def
      Let_def split_beta)

section \<open>Packets read while sniffing\<close>

lemma sniffRead_prefix:
  "sniffRead env action ss md bufs script = (fatal, err, bufs', md', rest) \<Longrightarrow> \<exists>fresh. bufs' = bufs @ fresh"
  by (induction env action ss md bufs script rule: sniffRead.induct)
    (fastforce split: if_splits prod.splits simp: Let_def)+

lemma applySniff_packets:
  assumes "ms_input st = PacketInput script" and "\<not> Skip (ms_metadata st)" and "md_Protocol (ms_metadata st) = ''''"
    and "sn_PacketSniffers action \<noteq> []" and "\<not> previousError (ms_metadata st) action"
    and "\<not> fst (sniffBuffered env action (sn_PacketSniffers action) (ms_metadata st) (ms_packetBuffers st))"
    and "ms_packetBuffers st \<noteq> []"
  shows "\<exists>fresh. ms_packetBuffers (snd (applySniff lib env action st)) = ms_packetBuffers st @ ms_packetBuffers st @ fresh"
proof -
  obtain e m where b: "sniffBuffered env action (sn_PacketSniffers action) (ms_metadata st) (ms_packetBuffers st) = (False, e, m)"
    using assms(6) by (metis prod_cases3 fst_conv)
  obtain fatal err bufs md' rest where
    r: "sniffRead env action (sn_PacketSniffers action) m (ms_packetBuffers st) script = (fatal, err, bufs, md', rest)"
    by (metis prod_cases5)
  from sniffRead_prefix [OF r] obtain fresh where "bufs = ms_packetBuffers st @ fresh" by blast
  then show ?thesis
    using assms b r by (auto simp: applySniff_def actionSniff_def sniffPackets_def Let_def)
qed

section \<open>First match\<close>

lemma reset_touch: "ResetRuleCache (touch c md) = ResetRuleCache md"
  by (simp add: touch_def setDidMatch_def ResetRuleCache_def ResetRuleMatchCache_def)

lemma matchStep_noMatch:
  assumes "\<not> fst (Rule_Match lib net store rule (ResetRuleCache (ms_metadata st)))"
  obtains m where "matchStep lib net store env pm sb rule st = (Continue, st\<lparr>ms_metadata := m\<rparr>)"
    and "ResetRuleCache m = ResetRuleCache (ms_metadata st)"
proof -
  obtain c where c: "snd (Rule_Match lib net store rule (ResetRuleCache (ms_metadata st))) = touch c (ResetRuleCache (ms_metadata st))"
    using Rule_Match_snd by blast
  let ?m = "touch c (ResetRuleCache (ms_metadata st))"
  have "matchStep lib net store env pm sb rule st = (Continue, st\<lparr>ms_metadata := ?m\<rparr>)"
    using assms c by (simp add: matchStep_def split_beta)
  moreover have "ResetRuleCache ?m = ResetRuleCache (ms_metadata st)"
    by (simp add: reset_touch) (simp add: ResetRuleCache_def ResetRuleMatchCache_def)
  ultimately show ?thesis by (rule that)
qed

lemma matchStep_final:
  assumes "fst (Rule_Match lib net store rule (ResetRuleCache (ms_metadata st)))"
    and "Rule_getAction rule = Some action" and "selects sb action"
  shows "fst (matchStep lib net store env pm sb rule st) = Selected"
  using assms by (cases action) (simp_all add: matchStep_def split_beta runAction_def selects_def Let_def)

definition finalRule :: "bool \<Rightarrow> Rule \<Rightarrow> bool" where
  "finalRule sb rule = (case Rule_getAction rule of Some action \<Rightarrow> selects sb action | None \<Rightarrow> False)"

lemma matchLoop_first:
  assumes "list_all (finalRule sb) rules"
  shows "fst (matchLoop lib net store env pm sb i rules st) =
    (let k = length (takeWhile (\<lambda>rule. \<not> fst (Rule_Match lib net store rule (ResetRuleCache (ms_metadata st)))) rules)
     in Inr (if k < length rules then Some (i + k) else None))"
  using assms
proof (induction rules arbitrary: i st)
  case Nil
  then show ?case by simp
next
  case (Cons rule rules)
  show ?case
  proof (cases "fst (Rule_Match lib net store rule (ResetRuleCache (ms_metadata st)))")
    case True
    with Cons.prems have "fst (matchStep lib net store env pm sb rule st) = Selected"
      by (auto simp: finalRule_def split: option.splits intro: matchStep_final)
    then obtain m where "matchStep lib net store env pm sb rule st = (Selected, m)" by (metis prod.collapse)
    then show ?thesis using True by simp
  next
    case False
    then obtain m where m: "matchStep lib net store env pm sb rule st = (Continue, st\<lparr>ms_metadata := m\<rparr>)"
      "ResetRuleCache m = ResetRuleCache (ms_metadata st)"
      by (rule matchStep_noMatch)
    then show ?thesis using Cons.IH [of "Suc i" "st\<lparr>ms_metadata := m\<rparr>"] Cons.prems False
      by (simp add: Let_def)
  qed
qed

text \<open>A rule that stops the walk in a state: it matches and its action selects it.\<close>

definition stops :: "Lib \<Rightarrow> Net \<Rightarrow> RuleSetStore \<Rightarrow> bool \<Rightarrow> bool \<Rightarrow> Rule \<Rightarrow> MatchState \<Rightarrow> bool" where
  "stops lib net store pm sb rule st =
     (fst (Rule_Match lib net store rule (ResetRuleCache (ms_metadata st))) \<and>
      (case Rule_getAction rule of
         Some (ActionRoute _ _) \<Rightarrow> True
       | Some (ActionDNSRoute _ _) \<Rightarrow> True
       | Some (ActionReject _) \<Rightarrow> True
       | Some ActionHijackDNS \<Rightarrow> True
       | Some (ActionBypass tag _) \<Rightarrow> sb \<or> tag \<noteq> ''''
       | Some (ActionSniff _) \<Rightarrow>
           pm \<and> md_Network (snd (Rule_Match lib net store rule (ResetRuleCache (ms_metadata st)))) \<noteq> ''icmp''
       | _ \<Rightarrow> False))"

lemma stops_iff:
  "fst (matchStep lib net store env pm sb rule st) = Selected \<longleftrightarrow> stops lib net store pm sb rule st"
  by (auto simp: matchStep_def stops_def runAction_def Let_def selects_def split_beta
      split: option.splits RuleAction.splits if_splits prod.splits)

definition walk ::
  "Lib \<Rightarrow> Net \<Rightarrow> RuleSetStore \<Rightarrow> RouterEnv \<Rightarrow> bool \<Rightarrow> bool \<Rightarrow> Rule list \<Rightarrow> MatchState \<Rightarrow> MatchState" where
  "walk lib net store env pm sb rules st = fold (\<lambda>rule st. snd (matchStep lib net store env pm sb rule st)) rules st"

lemma walk_Cons: "walk lib net store env pm sb (rule # rules) st =
  walk lib net store env pm sb rules (snd (matchStep lib net store env pm sb rule st))"
  by (simp add: walk_def)

lemma matchLoop_stops:
  "matchLoop lib net store env pm sb i rules st = (Inr selected, st') \<Longrightarrow>
   (case selected of
      Some k \<Rightarrow> i \<le> k \<and> k - i < length rules \<and>
        (\<forall>j\<le>k - i. stops lib net store pm sb (rules ! j) (walk lib net store env pm sb (take j rules) st) \<longleftrightarrow> j = k - i)
    | None \<Rightarrow> \<forall>j<length rules. \<not> stops lib net store pm sb (rules ! j) (walk lib net store env pm sb (take j rules) st))"
proof (induction rules arbitrary: i st)
  case Nil
  then show ?case by (auto split: option.splits)
next
  case (Cons rule rules)
  obtain f m where s: "matchStep lib net store env pm sb rule st = (f, m)" by fastforce
  have st: "stops lib net store pm sb rule st \<longleftrightarrow> f = Selected"
    using stops_iff [of lib net store env pm sb rule st] s by simp
  show ?case
  proof (cases f)
    case Continue
    then have "matchLoop lib net store env pm sb (Suc i) rules m = (Inr selected, st')"
      using Cons.prems s by simp
    note ih = Cons.IH [OF this]
    show ?thesis
    proof (cases selected)
      case None
      with ih show ?thesis using s st Continue
        by (auto simp: walk_Cons less_Suc_eq_0_disj) (simp add: walk_def)
    next
      case (Some k)
      with ih have k: "k - i = Suc (k - Suc i)" "i \<le> k" by auto
      have "stops lib net store pm sb ((rule # rules) ! j) (walk lib net store env pm sb (take j (rule # rules)) st) \<longleftrightarrow> j = k - i"
        if "j \<le> k - i" for j
        using that ih Some k s st Continue by (cases j) (auto simp: walk_Cons, simp_all add: walk_def)
      then show ?thesis using ih Some k by auto
    qed
  next
    case Selected
    then show ?thesis using Cons.prems s st by (auto simp: walk_def)
  next
    case (Fatal e)
    then show ?thesis using Cons.prems s by simp
  qed
qed

section \<open>Properties\<close>

text \<open>The environment of the witnesses: a rule for a domain, a rule for every domain sniffed before.\<close>

definition noOptions :: RuleActionRouteOptions where
  "noOptions = \<lparr>ro_OverrideAddress = emptySocksaddr, ro_OverridePort = 0, ro_NetworkStrategy = None,
     ro_NetworkType = [], ro_FallbackNetworkType = [], ro_FallbackDelay = 0, ro_UDPDisableDomainUnmapping = False,
     ro_UDPConnect = False, ro_UDPTimeout = 0, ro_TLSFragment = False, ro_TLSFragmentFallbackDelay = 0,
     ro_TLSRecordFragment = False\<rparr>"

definition ruleFor :: "string list \<Rightarrow> RuleAction \<Rightarrow> Rule" where
  "ruleFor domains action = DefaultRule ((sampleDomainRule domains None)\<lparr>r_action := Some action\<rparr>)"

definition sampleOutbound :: "string \<Rightarrow> Outbound" where
  "sampleOutbound tag = \<lparr>ob_Tag = tag, ob_Network = [''tcp'', ''udp''], ob_isDirectRoute = False\<rparr>"

definition sampleEnv :: "Rule list \<Rightarrow> RouterEnv" where
  "sampleEnv rules =
     \<lparr>re_rules = rules, re_processSearcher = None,
      re_FakeIP = Some ((\<lambda>a. a = Addr4 0xC6120005), (\<lambda>a. Some ''a.org'')),
      re_LookupReverseMapping = (\<lambda>_. None), re_Transport = (\<lambda>_. False), re_Lookup = (\<lambda>_ _ _. Inr []),
      re_stream = (\<lambda>_ md _. (Some ErrInvalid, md)), re_packet = (\<lambda>_ md _. (Some ErrNeedMoreData, md)),
      re_Outbound = (\<lambda>tag. if tag = ''proxy'' then Some (sampleOutbound tag) else None),
      re_Default = sampleOutbound ''direct'', re_Inbound = (\<lambda>_. None)\<rparr>"

definition toDomain :: "string \<Rightarrow> InboundContext \<Rightarrow> bool" where
  "toDomain d md = (isASCII d \<and> d \<noteq> '''' \<and> md_Network md = ''tcp'' \<and> md_Domain md = '''' \<and>
     sa_Fqdn (md_Destination md) = d \<and> sa_Port (md_Destination md) = 443)"

lemma toDomain_sample: "isASCII d \<Longrightarrow> d \<noteq> '''' \<Longrightarrow> toDomain d (sampleContext d)"
  by (simp add: toDomain_def sampleContext_def emptyInboundContext_def)

lemma toDomain_simps [simp]:
  "toDomain d (ResetRuleCache md) = toDomain d md" "toDomain d (touch c md) = toDomain d md"
  "toDomain d (recordSniff action err md) = toDomain d md"
  by (simp_all add: toDomain_def ResetRuleCache_def ResetRuleMatchCache_def touch_def setDidMatch_def recordSniff_def)

lemma ruleFor_Match:
  assumes "toDomain d md"
  shows "fst (Rule_Match sampleLib sampleNet store (ruleFor ds action) md) \<longleftrightarrow> map lowerASCII d \<in> set ds"
proof -
  let ?r = "(sampleDomainRule ds None)\<lparr>r_action := Some action\<rparr> :: RuleSetItem abstractDefaultRule"
  have h: "wellFormedRule ?r" "\<not> r_invert ?r" "r_ruleSetItem ?r = None"
    by (simp_all add: eval_simps)
  show ?thesis
    using DefaultRule_Match_plain [OF h, of sampleLib sampleNet store md] assms
    unfolding ruleFor_def by (simp add: eval_simps toDomain_def)
qed

lemma ruleFor_Match_sample [simp]:
  "isASCII d \<Longrightarrow> d \<noteq> '''' \<Longrightarrow>
   fst (Rule_Match sampleLib sampleNet store (ruleFor ds action) (ResetRuleCache (sampleContext d))) \<longleftrightarrow>
   map lowerASCII d \<in> set ds"
  using ruleFor_Match [of d "ResetRuleCache (sampleContext d)"] by (simp add: toDomain_sample)

definition sampleRules :: "Rule list" where
  "sampleRules = [ruleFor [''a.org''] (ActionRoute ''proxy'' noOptions), ruleFor [''b.org''] (ActionRoute ''proxy'' noOptions)]"

lemma sampleContext_prepared [simp]:
  "mapDestination (sampleEnv rules) (findProcess lib (sampleEnv rules) (sampleContext d)) = Inr (sampleContext d)"
  "setIPVersion sampleLib (sampleContext d) = sampleContext d"
  by (simp_all add: mapDestination_def findProcess_def setIPVersion_def sampleEnv_def sampleContext_def
      sampleLib_def emptyInboundContext_def)

lemma sampleEnv_rules [simp]: "re_rules (sampleEnv rules) = rules"
  by (simp add: sampleEnv_def)

lemma ruleFor_action [simp]: "Rule_getAction (ruleFor ds action) = Some action"
  by (simp add: ruleFor_def)

lemmas router_simps = sampleRules_def finalRule_def selects_def isASCII_def lowerASCII_def

lemma sampleRules_first:
  "fst (matchLoop sampleLib sampleNet store env pm sb 0 sampleRules
          \<lparr>ms_metadata = sampleContext ''b.org'', ms_input = input, ms_buffers = bs, ms_packetBuffers = ps\<rparr>) = Inr (Some 1)"
  by (subst matchLoop_first) (simp_all add: router_simps)

text \<open>
  C4: when the rules all have final actions, the router selects the first rule, in the order of the
  configuration, that matches the context prepared for the connection, and none if no rule matches:
  evaluating a rule that does not match leaves nothing behind that a later rule could see.
\<close>

theorem routing_is_first_match:
  assumes "list_all (finalRule sb) (re_rules env)"
    and "mapDestination env (findProcess lib env md) = Inr md'"
  shows "fst (matchRule lib net store env md pm sb input) =
    (let k = length (takeWhile (\<lambda>rule. \<not> fst (Rule_Match lib net store rule (ResetRuleCache (setIPVersion lib md'))))
                       (re_rules env))
     in Inr (if k < length (re_rules env) then Some k else None))"
  using assms matchLoop_first [OF assms(1), of lib net store env pm 0]
  by (simp add: matchRule_def Let_def)

theorem routing_is_first_match_witness:
  "fst (matchRule sampleLib sampleNet sampleStore (sampleEnv sampleRules) (sampleContext ''b.org'') False False NoInput) =
   Inr (Some 1)"
proof -
  have h: "list_all (finalRule False) (re_rules (sampleEnv sampleRules))" by (simp add: router_simps)
  show ?thesis
    unfolding routing_is_first_match [OF h sampleContext_prepared(1)] by (simp add: router_simps)
qed

text \<open>
  In general the walk stops at the first rule that matches the context as the earlier rules left
  it (their sniffing, resolving and route options applied) and has an action that is final there: the
  selected rule is such a rule and no earlier one is, and if none is selected there is none.
\<close>

theorem walk_stops_at_first_final_match:
  assumes "matchRule lib net store env md pm sb input = (Inr selected, st)"
    and "mapDestination env (findProcess lib env md) = Inr md'"
    and "st0 = \<lparr>ms_metadata = setIPVersion lib md', ms_input = input, ms_buffers = [], ms_packetBuffers = []\<rparr>"
  shows "case selected of
      Some k \<Rightarrow> k < length (re_rules env) \<and>
        (\<forall>j\<le>k. stops lib net store pm sb (re_rules env ! j)
                 (walk lib net store env pm sb (take j (re_rules env)) st0) \<longleftrightarrow> j = k)
    | None \<Rightarrow> \<forall>j<length (re_rules env).
        \<not> stops lib net store pm sb (re_rules env ! j) (walk lib net store env pm sb (take j (re_rules env)) st0)"
proof -
  have "matchLoop lib net store env pm sb 0 (re_rules env) st0 = (Inr selected, st)"
    using assms by (simp add: matchRule_def Let_def)
  from matchLoop_stops [OF this] show ?thesis by (auto split: option.splits)
qed

theorem walk_stops_at_first_final_match_witness:
  "let st0 = \<lparr>ms_metadata = sampleContext ''b.org'', ms_input = NoInput, ms_buffers = [], ms_packetBuffers = []\<rparr>
   in \<not> stops sampleLib sampleNet sampleStore False False (sampleRules ! 0) st0 \<and>
      stops sampleLib sampleNet sampleStore False False (sampleRules ! 1)
        (walk sampleLib sampleNet sampleStore (sampleEnv sampleRules) False False (take 1 sampleRules) st0)"
proof -
  obtain st where "matchRule sampleLib sampleNet sampleStore (sampleEnv sampleRules) (sampleContext ''b.org'') False False NoInput =
      (Inr (Some 1), st)"
    using sampleRules_first by (simp add: matchRule_def Let_def) (metis prod.collapse)
  note f = walk_stops_at_first_final_match [OF this sampleContext_prepared(1) refl]
  from f [simplified option.simps] have f: "\<And>j. j \<le> 1 \<Longrightarrow> stops sampleLib sampleNet sampleStore False False (sampleRules ! j)
      (walk sampleLib sampleNet sampleStore (sampleEnv sampleRules) False False (take j sampleRules)
        \<lparr>ms_metadata = sampleContext ''b.org'', ms_input = NoInput, ms_buffers = [], ms_packetBuffers = []\<rparr>) \<longleftrightarrow> j = 1"
    unfolding sampleEnv_rules sampleContext_prepared(2) by blast
  from f [of 1] have "stops sampleLib sampleNet sampleStore False False (sampleRules ! 1)
      (walk sampleLib sampleNet sampleStore (sampleEnv sampleRules) False False (take 1 sampleRules)
        \<lparr>ms_metadata = sampleContext ''b.org'', ms_input = NoInput, ms_buffers = [], ms_packetBuffers = []\<rparr>)"
    by simp
  moreover from f [of 0] have "\<not> stops sampleLib sampleNet sampleStore False False (sampleRules ! 0)
      (walk sampleLib sampleNet sampleStore (sampleEnv sampleRules) False False (take 0 sampleRules)
        \<lparr>ms_metadata = sampleContext ''b.org'', ms_input = NoInput, ms_buffers = [], ms_packetBuffers = []\<rparr>)"
    by simp
  ultimately show ?thesis by (simp add: walk_def)
qed

text \<open>
  C5: a connection that routing hands to an outbound is never handed to a missing or an unsuitable
  one: the outbound exists, supports the network of the connection, and is the one the selected rule names, or the default
  outbound when no rule was selected.
\<close>

theorem routing_reaches_suitable_outbound:
  assumes "list_all routeRule (re_rules env)"
  shows "(routeConnection magic lib net store env now md script = ToOutbound o' selected st \<longrightarrow>
      suitable env ''tcp'' selected o') \<and>
    (routePacketConnection lib net store env now md packets = ToOutbound o' selected st \<longrightarrow>
      suitable env ''udp'' selected o')"
proof (intro conjI impI)
  assume r: "routeConnection magic lib net store env now md script = ToOutbound o' selected st"
  then have "handled (routeConnection magic lib net store env now md script)" by (simp add: handled_def)
  then show "suitable env ''tcp'' selected o'"
    using r dispatch_suitable [OF assms] by (metis routeConnection_handled)
next
  assume r: "routePacketConnection lib net store env now md packets = ToOutbound o' selected st"
  then have "handled (routePacketConnection lib net store env now md packets)" by (simp add: handled_def)
  then show "suitable env ''udp'' selected o'"
    using r dispatch_suitable [OF assms] by (metis routePacketConnection_handled)
qed

theorem routing_reaches_suitable_outbound_witness:
  "\<exists>st. routeConnection (\<lambda>_. None) sampleLib sampleNet sampleStore (sampleEnv sampleRules) 0 (sampleContext ''b.org'') [] =
      ToOutbound (Some (sampleOutbound ''proxy'')) (Some 1) st \<and>
    suitable (sampleEnv sampleRules) ''tcp'' (Some 1) (Some (sampleOutbound ''proxy''))"
proof -
  have tcp: "(sampleContext ''b.org'')\<lparr>md_Network := ''tcp''\<rparr> = sampleContext ''b.org''"
    and detour: "md_InboundDetour (sampleContext ''b.org'') = ''''"
    by (simp_all add: sampleContext_def emptyInboundContext_def)
  obtain st where "matchRule sampleLib sampleNet sampleStore (sampleEnv sampleRules) (sampleContext ''b.org'') False False
      (StreamInput []) = (Inr (Some 1), st)"
    using sampleRules_first by (simp add: matchRule_def Let_def) (metis prod.collapse)
  then have "routeConnection (\<lambda>_. None) sampleLib sampleNet sampleStore (sampleEnv sampleRules) 0 (sampleContext ''b.org'') [] =
      ToOutbound (Some (sampleOutbound ''proxy'')) (Some 1) st"
    by (simp add: routeConnection_def detour tcp magicDestination_def dispatch_def selectOutbound_def sampleRules_def
        sampleEnv_def sampleOutbound_def)
  moreover have "list_all routeRule (re_rules (sampleEnv sampleRules))" by (simp add: sampleRules_def routeRule_def)
  ultimately show ?thesis using routing_reaches_suitable_outbound by blast
qed

definition sniffAll :: RuleActionSniff where
  "sniffAll = \<lparr>sn_SnifferNames = [], sn_StreamSniffers = [], sn_PacketSniffers = [], sn_Timeout = 300000000,
     sn_OverrideDestination = False\<rparr>"

definition sniffWith :: "string \<Rightarrow> StreamSniffer \<Rightarrow> RuleActionSniff" where
  "sniffWith name s = sniffAll\<lparr>sn_SnifferNames := [name], sn_StreamSniffers := [s]\<rparr>"

text \<open>
  What becomes of the data read by sniffing TCP: nothing is lost, the buffers in order and what
  the connection still delivers are what the client sent; but they are put back one wrapper per
  buffer, so the outbound reads the buffers in reverse order. With at most one buffer that is the
  data as it was sent; when two sniff actions have read data, it is not.
\<close>

theorem sniffed_buffers_are_delivered_in_reverse:
  assumes "routeConnection magic lib net store env now md script = ToOutbound o' selected st \<or>
      routeConnection magic lib net store env now md script = HijackedDNS st"
    and "\<And>conn buffer. received (newCachedConn conn buffer) = buffer @ received conn"
    and "ms_input st = StreamInput rest" and "received conn = dataOf rest"
  shows "dataOf script = concat (ms_buffers st) @ dataOf rest \<and>
    received (cachedConn newCachedConn conn (ms_buffers st)) = concat (rev (ms_buffers st)) @ dataOf rest"
proof -
  have h: "handled (routeConnection magic lib net store env now md script)" using assms(1) by (auto simp: handled_def)
  obtain md' sel st' a b c where m: "matchRule lib net store env md' False False (StreamInput script) = (Inr sel, st')"
    and d: "routeConnection magic lib net store env now md script = dispatch env ''tcp'' a b c now sel st'"
    using routeConnection_handled [OF h] by blast
  have st: "st' = st" using assms(1) d dispatch_state by metis
  obtain st0 where l: "matchLoop lib net store env False False 0 (re_rules env) st0 = (Inr sel, st')"
    and s: "ms_input st0 = StreamInput script" "ms_buffers st0 = []"
    using matchRule_loop [OF m] by blast
  have "isStream st0" "pending st0 = dataOf script" using s by (simp_all add: isStream_def pending_def)
  with matchLoop_pending [of st0 lib net store env False False 0 "re_rules env"] l st
  have "pending st = dataOf script" by simp
  moreover have "received (cachedConn newCachedConn conn bs) = concat (rev bs) @ received conn" for bs
    by (induction bs rule: rev_induct) (simp_all add: cachedConn_def assms(2))
  ultimately show ?thesis using assms(3,4) by (simp add: pending_def)
qed

lemma sniff_step:
  assumes "toDomain ''b.org'' (ms_metadata st)" and "md_SnifferNames (ms_metadata st) \<noteq> [name]"
    and "md_Protocol (ms_metadata st) = ''''" and "ms_input st = StreamInput (Data [b] # script)"
  shows "\<exists>md. matchStep sampleLib sampleNet store (sampleEnv rules) False False
     (ruleFor [''b.org''] (ActionSniff (sniffWith name s))) st =
       (Continue, st\<lparr>ms_metadata := md, ms_input := StreamInput script, ms_buffers := ms_buffers st @ [[b]]\<rparr>) \<and>
     toDomain ''b.org'' md \<and> md_SnifferNames md = [name] \<and> md_Protocol md = ''''"
proof -
  let ?md = "ResetRuleCache (ms_metadata st)"
  let ?rule = "ruleFor [''b.org''] (ActionSniff (sniffWith name s))"
  obtain t where t: "snd (Rule_Match sampleLib sampleNet store ?rule ?md) = touch t ?md" using Rule_Match_snd by blast
  have f: "fst (Rule_Match sampleLib sampleNet store ?rule ?md)"
    using ruleFor_Match [of "''b.org''" ?md] assms(1) by (simp add: lowerASCII_def)
  let ?m = "touch t ?md"
  have r: "Rule_Match sampleLib sampleNet store ?rule ?md = (True, ?m)" using t f by (metis prod.collapse)
  have m: "toDomain ''b.org'' ?m" "md_SnifferNames ?m \<noteq> [name]" "md_Protocol ?m = ''''"
    using assms by (simp, simp_all add: ResetRuleCache_def ResetRuleMatchCache_def touch_def setDidMatch_def)
  then have skip: "\<not> Skip ?m" by (simp add: toDomain_def Skip_def)
  have "PeekStream [re_stream (sampleEnv rules) s] (ms_buffers st) ?m (Data [b] # script) =
      ((Some (E_Errors [ErrInvalid]), ?m), [b], script)"
    by (simp add: PeekStream_def sampleEnv_def joined_def ErrInvalid_def ErrNeedMoreData_def)
  then have "matchStep sampleLib sampleNet store (sampleEnv rules) False False ?rule st =
    (Continue, st\<lparr>ms_metadata := recordSniff (sniffWith name s) (Some (E_Errors [ErrInvalid])) ?m,
                  ms_input := StreamInput script, ms_buffers := ms_buffers st @ [[b]]\<rparr>)"
    using r m skip assms(4)
    by (simp add: matchStep_def runAction_def applySniff_def actionSniff_def sniffStream_def previousError_def
        sniffWith_def sniffAll_def selects_def overrideDestination_def)
  moreover have "toDomain ''b.org'' (recordSniff (sniffWith name s) (Some (E_Errors [ErrInvalid])) ?m)" using m by simp
  moreover have "md_SnifferNames (recordSniff (sniffWith name s) (Some (E_Errors [ErrInvalid])) ?m) = [name]"
    "md_Protocol (recordSniff (sniffWith name s) (Some (E_Errors [ErrInvalid])) ?m) = ''''"
    using m by (simp_all add: recordSniff_def sniffWith_def)
  ultimately show ?thesis by blast
qed

theorem sniffed_buffers_are_delivered_in_reverse_witness:
  "\<exists>st. routeConnection (\<lambda>_. None) sampleLib sampleNet sampleStore
       (sampleEnv [ruleFor [''b.org''] (ActionSniff (sniffWith ''rdp'' RDP)),
                   ruleFor [''b.org''] (ActionSniff (sniffWith ''ssh'' SSH))]) 0 (sampleContext ''b.org'')
       [Data [1], Data [2]] = ToOutbound (Some (sampleOutbound ''direct'')) None st \<and>
     dataOf [Data [1], Data [2]] = [1, 2] \<and> cachedConn (\<lambda>conn buffer. buffer @ conn) [] (ms_buffers st) = [2, 1]"
proof -
  let ?rules = "[ruleFor [''b.org''] (ActionSniff (sniffWith ''rdp'' RDP)),
                 ruleFor [''b.org''] (ActionSniff (sniffWith ''ssh'' SSH))]"
  let ?env = "sampleEnv ?rules"
  let ?st = "\<lparr>ms_metadata = sampleContext ''b.org'', ms_input = StreamInput [Data [1], Data [2]], ms_buffers = [], ms_packetBuffers = []\<rparr>"
  have tcp: "(sampleContext ''b.org'')\<lparr>md_Network := ''tcp''\<rparr> = sampleContext ''b.org''"
    and detour: "md_InboundDetour (sampleContext ''b.org'') = ''''"
    by (simp_all add: sampleContext_def emptyInboundContext_def)
  have i: "toDomain ''b.org'' (ms_metadata ?st)" "md_SnifferNames (ms_metadata ?st) = []" "md_Protocol (ms_metadata ?st) = ''''"
    by (simp_all add: toDomain_sample isASCII_def) (simp_all add: sampleContext_def emptyInboundContext_def)
  obtain m1 where 1: "matchStep sampleLib sampleNet sampleStore ?env False False (ruleFor [''b.org''] (ActionSniff (sniffWith ''rdp'' RDP))) ?st =
      (Continue, ?st\<lparr>ms_metadata := m1, ms_input := StreamInput [Data [2]], ms_buffers := [[1]]\<rparr>)"
    and m1: "toDomain ''b.org'' m1" "md_SnifferNames m1 = [''rdp'']" "md_Protocol m1 = ''''"
    using sniff_step [of ?st "''rdp''" 1 "[Data [2]]" sampleStore ?rules RDP] i by auto
  let ?st1 = "?st\<lparr>ms_metadata := m1, ms_input := StreamInput [Data [2]], ms_buffers := [[1]]\<rparr>"
  obtain m2 where 2: "matchStep sampleLib sampleNet sampleStore ?env False False (ruleFor [''b.org''] (ActionSniff (sniffWith ''ssh'' SSH))) ?st1 =
      (Continue, ?st1\<lparr>ms_metadata := m2, ms_input := StreamInput [], ms_buffers := [[1], [2]]\<rparr>)"
    using sniff_step [of ?st1 "''ssh''" 2 "[]" sampleStore ?rules SSH] m1 by auto
  let ?st2 = "?st1\<lparr>ms_metadata := m2, ms_input := StreamInput [], ms_buffers := [[1], [2]]\<rparr>"
  have "matchRule sampleLib sampleNet sampleStore ?env (sampleContext ''b.org'') False False (StreamInput [Data [1], Data [2]]) = (Inr None, ?st2)"
    using 1 2 by (simp add: matchRule_def Let_def)
  then have r: "routeConnection (\<lambda>_. None) sampleLib sampleNet sampleStore ?env 0 (sampleContext ''b.org'') [Data [1], Data [2]] =
      ToOutbound (Some (sampleOutbound ''direct'')) None ?st2"
    by (simp add: routeConnection_def detour tcp magicDestination_def dispatch_def sampleEnv_def sampleOutbound_def)
  with sniffed_buffers_are_delivered_in_reverse [OF disjI1 [OF r], of "\<lambda>c. c" "\<lambda>conn buffer. buffer @ conn" "[]" "[]"]
  show ?thesis by auto
qed

text \<open>
  A second sniff action whose sniffers still need more data after the packets buffered by the
  first duplicates them: \<open>actionSniff\<close> returns the buffered packets again before the ones it read, and
  \<open>matchRule\<close> appends its result to the packets it already holds, so the outbound receives them twice.
\<close>

theorem second_sniff_duplicates_packets:
  assumes "ms_input st = PacketInput script" and "\<not> Skip (ms_metadata st)" and "md_Protocol (ms_metadata st) = ''''"
    and "sn_PacketSniffers action \<noteq> []" and "\<not> previousError (ms_metadata st) action"
    and "\<not> fst (sniffBuffered env action (sn_PacketSniffers action) (ms_metadata st) (ms_packetBuffers st))"
    and "ms_packetBuffers st \<noteq> []"
  shows "\<exists>fresh. ms_packetBuffers (snd (applySniff lib env action st)) =
    ms_packetBuffers st @ ms_packetBuffers st @ fresh"
  using applySniff_packets [OF assms] .

theorem second_sniff_duplicates_packets_witness:
  "\<exists>fresh. ms_packetBuffers (snd (applySniff sampleLib (sampleEnv []) (sniffAll\<lparr>sn_PacketSniffers := [QUICClientHello]\<rparr>)
      \<lparr>ms_metadata = sampleContext ''b.org'', ms_input = PacketInput [PacketDeadline], ms_buffers = [],
       ms_packetBuffers = [\<lparr>pb_Buffer = [1], pb_Destination = emptySocksaddr\<rparr>]\<rparr>)) =
    [\<lparr>pb_Buffer = [1], pb_Destination = emptySocksaddr\<rparr>] @ [\<lparr>pb_Buffer = [1], pb_Destination = emptySocksaddr\<rparr>] @ fresh"
  using second_sniff_duplicates_packets [of
      "\<lparr>ms_metadata = sampleContext ''b.org'', ms_input = PacketInput [PacketDeadline], ms_buffers = [],
       ms_packetBuffers = [\<lparr>pb_Buffer = [1], pb_Destination = emptySocksaddr\<rparr>]\<rparr>" "[PacketDeadline]"
      "sniffAll\<lparr>sn_PacketSniffers := [QUICClientHello]\<rparr>" "sampleEnv []" sampleLib]
  by (simp add: Skip_def sampleContext_def emptyInboundContext_def previousError_def sniffAll_def peekPacket_def
      PeekPacket_def sampleEnv_def isNeedMoreData_def joined_def ErrNeedMoreData_def recordSniff_def quicMoreData_def)

text \<open>
  A rule with the action \<open>direct\<close> never decides: although the action counts as final, the walk
  goes on after such a rule, so a configuration whose rules all have it uses the default outbound.
\<close>

theorem direct_action_is_never_selected:
  assumes "list_all (\<lambda>rule. \<exists>description. Rule_getAction rule = Some (ActionDirect description)) (re_rules env)"
    and "mapDestination env (findProcess lib env md) = Inr md'"
  shows "fst (matchRule lib net store env md pm sb input) = Inr None \<and> IsFinalAction (ActionDirect description)"
proof -
  have step: "fst (matchStep lib net store env pm sb rule st) = Continue"
    if "Rule_getAction rule = Some (ActionDirect d)" for rule d st
    using that by (simp add: matchStep_def runAction_def selects_def Let_def split_beta)
  have "fst (matchLoop lib net store env pm sb i rules st) = Inr None"
    if "list_all (\<lambda>rule. \<exists>description. Rule_getAction rule = Some (ActionDirect description)) rules" for i rules st
    using that
  proof (induction rules arbitrary: i st)
    case Nil
    then show ?case by simp
  next
    case (Cons rule rules)
    then obtain d where "Rule_getAction rule = Some (ActionDirect d)" by auto
    from step [OF this, of st] obtain m where "matchStep lib net store env pm sb rule st = (Continue, m)"
      by (cases "matchStep lib net store env pm sb rule st") auto
    then show ?case using Cons by simp
  qed
  then show ?thesis using assms by (simp add: matchRule_def Let_def IsFinalAction_def)
qed

theorem direct_action_is_never_selected_witness:
  "fst (matchRule sampleLib sampleNet sampleStore (sampleEnv [ruleFor [''b.org''] (ActionDirect [])])
          (sampleContext ''b.org'') False False NoInput) = Inr None"
  using direct_action_is_never_selected [of "sampleEnv [ruleFor [''b.org''] (ActionDirect [])]" sampleLib
      "sampleContext ''b.org''" "sampleContext ''b.org''" sampleNet sampleStore False False NoInput] by simp

definition overrides :: "Lib \<Rightarrow> RuleActionRouteOptions \<Rightarrow> bool" where
  "overrides lib ro = (IsValid lib (ro_OverrideAddress ro) \<or> ro_OverridePort ro > 0)"

lemma applyRouteOptions_destination:
  "md_Destination (applyRouteOptions lib ro md) =
     \<lparr>sa_Addr = sa_Addr (if IsValid lib (ro_OverrideAddress ro) then ro_OverrideAddress ro else md_Destination md),
      sa_Port = (if ro_OverridePort ro > 0 then ro_OverridePort ro else sa_Port (md_Destination md)),
      sa_Fqdn = sa_Fqdn (if IsValid lib (ro_OverrideAddress ro) then ro_OverrideAddress ro else md_Destination md)\<rparr>"
  "md_RouteOriginalDestination (applyRouteOptions lib ro md) =
     (if overrides lib ro \<and> \<not> IsValid lib (md_RouteOriginalDestination md) then md_Destination md
      else md_RouteOriginalDestination md)"
  by (simp_all add: applyRouteOptions_def overrideStep_def overrides_def Let_def)

definition lastOverride :: "'a \<Rightarrow> ('b \<Rightarrow> bool) \<Rightarrow> ('b \<Rightarrow> 'a) \<Rightarrow> 'b list \<Rightarrow> 'a" where
  "lastOverride x P f ys = last (x # map f (filter P ys))"

lemma lastOverride_simps [simp]:
  "lastOverride x P f [] = x"
  "lastOverride x P f (ys @ [y]) = (if P y then f y else lastOverride x P f ys)"
  by (simp_all add: lastOverride_def)

lemma lastOverride_none: "\<not> list_ex P ys \<Longrightarrow> lastOverride x P f ys = x"
  by (induction ys rule: rev_induct) auto

lemma fold_applyRouteOptions_destination:
  "md_Destination (foldl (\<lambda>m ro. applyRouteOptions lib ro m) md ros) =
     \<lparr>sa_Addr = lastOverride (sa_Addr (md_Destination md)) (\<lambda>ro. IsValid lib (ro_OverrideAddress ro))
                  (\<lambda>ro. sa_Addr (ro_OverrideAddress ro)) ros,
      sa_Port = lastOverride (sa_Port (md_Destination md)) (\<lambda>ro. ro_OverridePort ro > 0) ro_OverridePort ros,
      sa_Fqdn = lastOverride (sa_Fqdn (md_Destination md)) (\<lambda>ro. IsValid lib (ro_OverrideAddress ro))
                  (\<lambda>ro. sa_Fqdn (ro_OverrideAddress ro)) ros\<rparr>"
  by (induction ros rule: rev_induct) (auto simp: applyRouteOptions_destination)

lemma fold_applyRouteOptions_original:
  assumes "IsValid lib (md_Destination md)" and "\<not> IsValid lib (md_RouteOriginalDestination md)"
  shows "md_RouteOriginalDestination (foldl (\<lambda>m ro. applyRouteOptions lib ro m) md ros) =
    (if list_ex (overrides lib) ros then md_Destination md else md_RouteOriginalDestination md)"
proof (induction ros rule: rev_induct)
  case Nil
  then show ?case by simp
next
  case (snoc ro ros)
  have "md_Destination (foldl (\<lambda>m ro. applyRouteOptions lib ro m) md ros) = md_Destination md"
    if "\<not> list_ex (overrides lib) ros"
  proof -
    have "\<not> list_ex (\<lambda>ro. IsValid lib (ro_OverrideAddress ro)) ros" "\<not> list_ex (\<lambda>ro. ro_OverridePort ro > 0) ros"
      using that by (auto simp: list_ex_iff overrides_def)
    then show ?thesis by (simp add: fold_applyRouteOptions_destination lastOverride_none)
  qed
  then show ?case using snoc assms by (auto simp: applyRouteOptions_destination(2))
qed

text \<open>
  However many route options override the destination, the context keeps the destination the
  connection had before the first override, and the destination it ends with has the address of the
  last override of an address and the port of the last override of a port.
\<close>

theorem overrides_keep_original_destination:
  assumes "IsValid lib (md_Destination md)" and "\<not> IsValid lib (md_RouteOriginalDestination md)"
    and "md' = foldl (\<lambda>m ro. applyRouteOptions lib ro m) md ros"
  shows "md_RouteOriginalDestination md' =
      (if list_ex (overrides lib) ros then md_Destination md else md_RouteOriginalDestination md) \<and>
    md_Destination md' =
      \<lparr>sa_Addr = lastOverride (sa_Addr (md_Destination md)) (\<lambda>ro. IsValid lib (ro_OverrideAddress ro))
                   (\<lambda>ro. sa_Addr (ro_OverrideAddress ro)) ros,
       sa_Port = lastOverride (sa_Port (md_Destination md)) (\<lambda>ro. ro_OverridePort ro > 0) ro_OverridePort ros,
       sa_Fqdn = lastOverride (sa_Fqdn (md_Destination md)) (\<lambda>ro. IsValid lib (ro_OverrideAddress ro))
                   (\<lambda>ro. sa_Fqdn (ro_OverrideAddress ro)) ros\<rparr>"
  using fold_applyRouteOptions_original [OF assms(1,2)] fold_applyRouteOptions_destination by (simp add: assms(3))

theorem overrides_keep_original_destination_witness:
  "md_RouteOriginalDestination (applyRouteOptions sampleLib (noOptions\<lparr>ro_OverridePort := 8443\<rparr>)
     (applyRouteOptions sampleLib (noOptions\<lparr>ro_OverridePort := 80\<rparr>) (sampleContext ''b.org''))) =
   \<lparr>sa_Addr = AddrNone, sa_Port = 443, sa_Fqdn = ''b.org''\<rparr>"
  using overrides_keep_original_destination [of sampleLib "sampleContext ''b.org''" _
      "[noOptions\<lparr>ro_OverridePort := 80\<rparr>, noOptions\<lparr>ro_OverridePort := 8443\<rparr>]", OF _ _ refl]
  by (simp add: sampleContext_def emptyInboundContext_def emptySocksaddr_def sampleLib_def overrides_def)

text \<open>
  A connection to an address of the fake-IP range is routed by the domain the address stands
  for: the domain replaces the address before the first rule is evaluated, with the port kept and the
  fake address recorded as the original destination. An address of the range with no record makes
  routing fail, whatever the rules are.
\<close>

theorem fake_destination_is_replaced:
  assumes "re_FakeIP env = Some (contains, lookup)" and "addrIsValid (sa_Addr (md_Destination md))"
    and "contains (sa_Addr (md_Destination md))"
  shows "case lookup (sa_Addr (md_Destination md)) of
      None \<Rightarrow> \<exists>e. fst (matchRule lib net store env md pm sb input) = Inl e
    | Some domain \<Rightarrow> domain \<noteq> '''' \<longrightarrow>
        matchRule lib net store env md pm sb input =
          matchLoop lib net store env pm sb 0 (re_rules env)
            \<lparr>ms_metadata = setIPVersion lib
               ((findProcess lib env md)\<lparr>md_OriginDestination := md_Destination md,
                   md_Destination := \<lparr>sa_Addr = AddrNone, sa_Port = sa_Port (md_Destination md), sa_Fqdn = domain\<rparr>,
                   md_FakeIP := True\<rparr>),
             ms_input = input, ms_buffers = [], ms_packetBuffers = []\<rparr>"
  using assms by (auto simp: matchRule_def mapDestination_def Let_def split: option.splits)

theorem fake_destination_is_replaced_witness:
  "matchRule sampleLib sampleNet sampleStore (sampleEnv [])
     (emptyInboundContext\<lparr>md_Destination := \<lparr>sa_Addr = Addr4 0xC6120005, sa_Port = 80, sa_Fqdn = ''''\<rparr>\<rparr>) False False NoInput =
   matchLoop sampleLib sampleNet sampleStore (sampleEnv []) False False 0 []
     \<lparr>ms_metadata = emptyInboundContext\<lparr>md_OriginDestination := \<lparr>sa_Addr = Addr4 0xC6120005, sa_Port = 80, sa_Fqdn = ''''\<rparr>,
        md_Destination := \<lparr>sa_Addr = AddrNone, sa_Port = 80, sa_Fqdn = ''a.org''\<rparr>, md_FakeIP := True\<rparr>,
      ms_input = NoInput, ms_buffers = [], ms_packetBuffers = []\<rparr>"
  using fake_destination_is_replaced [of "sampleEnv []" "\<lambda>a. a = Addr4 0xC6120005" "\<lambda>a. Some ''a.org''"
      "emptyInboundContext\<lparr>md_Destination := \<lparr>sa_Addr = Addr4 0xC6120005, sa_Port = 80, sa_Fqdn = ''''\<rparr>\<rparr>"
      sampleLib sampleNet sampleStore False False NoInput]
  by (simp add: sampleEnv_def setIPVersion_def sampleLib_def findProcess_def)

text \<open>
  The route options of a \<open>bypass\<close> action have no effect: the walk gives the same result whatever
  they are, also when the action names an outbound and is documented to behave like \<open>route\<close>.
\<close>

theorem bypass_ignores_route_options:
  assumes "Rule_getAction rule = Some (ActionBypass tag ro)"
    and "fst (Rule_Match lib net store rule (ResetRuleCache (ms_metadata st)))"
  shows "matchStep lib net store env pm sb rule st =
    (if sb \<or> tag \<noteq> '''' then Selected else Continue,
     st\<lparr>ms_metadata := snd (Rule_Match lib net store rule (ResetRuleCache (ms_metadata st)))\<rparr>)"
  using assms by (simp add: matchStep_def runAction_def selects_def Let_def split_beta)

theorem bypass_ignores_route_options_witness:
  "md_Destination (ms_metadata (snd (matchStep sampleLib sampleNet sampleStore (sampleEnv []) False False
     (ruleFor [''b.org''] (ActionBypass ''proxy'' (noOptions\<lparr>ro_OverridePort := 80\<rparr>)))
     \<lparr>ms_metadata = sampleContext ''b.org'', ms_input = NoInput, ms_buffers = [], ms_packetBuffers = []\<rparr>))) =
   \<lparr>sa_Addr = AddrNone, sa_Port = 443, sa_Fqdn = ''b.org''\<rparr>"
proof -
  let ?rule = "ruleFor [''b.org''] (ActionBypass ''proxy'' (noOptions\<lparr>ro_OverridePort := 80\<rparr>))"
  let ?st = "\<lparr>ms_metadata = sampleContext ''b.org'', ms_input = NoInput, ms_buffers = [], ms_packetBuffers = []\<rparr>"
  have h: "fst (Rule_Match sampleLib sampleNet sampleStore ?rule (ResetRuleCache (ms_metadata ?st)))"
    by (simp add: router_simps)
  obtain c where "snd (Rule_Match sampleLib sampleNet sampleStore ?rule (ResetRuleCache (sampleContext ''b.org''))) =
      touch c (ResetRuleCache (sampleContext ''b.org''))" using Rule_Match_snd by blast
  then show ?thesis
    using bypass_ignores_route_options [OF ruleFor_action h, of "sampleEnv []" False False]
    by (simp add: touch_def setDidMatch_def ResetRuleCache_def ResetRuleMatchCache_def sampleContext_def emptyInboundContext_def)
qed

end
