(* ===== verification/Dns_Router_Props.thy ===== *)
theory Dns_Router_Props
  imports Dns_Router Dns_Client_Props Router_Props
begin

text \<open>
  What the DNS router guarantees: the rule that decides a query is the first one in the order of the
  configuration that applies to it, options of the rules before it are accumulated, and a response
  that comes through a rule with an address limit has passed the check of that rule.
\<close>

section \<open>The context of a query\<close>

text \<open>The context without what the evaluation of earlier rules has left in it.\<close>

definition queryContext :: "InboundContext \<Rightarrow> InboundContext" where
  "queryContext md = (ResetRuleCache md)\<lparr>md_IgnoreDestinationIPCIDRMatch := False\<rparr>"

lemma queryContext_touch [simp]: "queryContext (touch c (queryContext md)) = queryContext md"
  by (simp add: queryContext_def touch_def setDidMatch_def ResetRuleCache_def ResetRuleMatchCache_def)

lemma DNSRule_Match_queryContext:
  "fst (DNSRule_Match lib net store rule (ResetRuleCache md)) = fst (DNSRule_Match lib net store rule (queryContext md))"
  by (simp add: DNSRule_Match_def queryContext_def split_beta)

lemma DNSRule_Match_snd:
  "\<exists>c. snd (DNSRule_Match lib net store rule (ResetRuleCache md)) = touch c (queryContext md)"
proof -
  let ?md = "(ResetRuleCache md)\<lparr>md_IgnoreDestinationIPCIDRMatch := True\<rparr>"
  obtain c where "snd (Rule_Match lib net store rule ?md) = touch c ?md" using Rule_Match_snd by blast
  then have "snd (DNSRule_Match lib net store rule (ResetRuleCache md)) = (touch c ?md)\<lparr>md_IgnoreDestinationIPCIDRMatch := False\<rparr>"
    by (simp add: DNSRule_Match_def Rule_Match_def split_beta)
  also have "\<dots> = touch c (queryContext md)" by (simp add: queryContext_def touch_def setDidMatch_def)
  finally show ?thesis by blast
qed

section \<open>The chosen rule\<close>

text \<open>The rules that apply to a query, and those of them that end the search.\<close>

definition dnsApplies :: "RuleEnv \<Rightarrow> bool \<Rightarrow> InboundContext \<Rightarrow> Rule \<Rightarrow> bool" where
  "dnsApplies env isAddr md rule =
     ((Rule_WithAddressLimit (rn_store env) rule \<longrightarrow> isAddr) \<and>
      fst (DNSRule_Match (rn_lib env) (rn_net env) (rn_store env) rule (queryContext md)))"

definition dnsFinal :: "DnsRouter \<Rightarrow> bool \<Rightarrow> Rule \<Rightarrow> bool" where
  "dnsFinal router allowFakeIP rule =
     (case Rule_getAction rule of
        Some (ActionDNSRoute server _) \<Rightarrow>
          (case dx_Transport router server of None \<Rightarrow> False | Some t \<Rightarrow> tr_Type t = ''fakeip'' \<longrightarrow> allowFakeIP)
      | Some (ActionReject _) \<Rightarrow> True
      | Some (ActionPredefined _ _ _ _) \<Rightarrow> True
      | _ \<Rightarrow> False)"

text \<open>The reference: the options of the applicable rules before the chosen one, and what it adds.\<close>

definition ruleOptions :: "Rule \<Rightarrow> DNSQueryOptions \<Rightarrow> DNSQueryOptions" where
  "ruleOptions rule options =
     (case Rule_getAction rule of
        Some (ActionDNSRouteOptions action) \<Rightarrow> applyDNSRouteOptions False action options
      | _ \<Rightarrow> options)"

definition chosenBy :: "RuleEnv \<Rightarrow> DnsRouter \<Rightarrow> bool \<Rightarrow> bool \<Rightarrow> InboundContext \<Rightarrow> Rule \<Rightarrow> bool" where
  "chosenBy env router allowFakeIP isAddr md rule = (dnsApplies env isAddr md rule \<and> dnsFinal router allowFakeIP rule)"

definition serverOf :: "DnsRouter \<Rightarrow> Rule option \<Rightarrow> Transport option" where
  "serverOf router rule =
     (case rule of
        None \<Rightarrow> Some (dx_Default router)
      | Some r \<Rightarrow> (case Rule_getAction r of Some (ActionDNSRoute server _) \<Rightarrow> dx_Transport router server | _ \<Rightarrow> None))"

definition serverOptions :: "DnsRouter \<Rightarrow> Rule option \<Rightarrow> DNSQueryOptions \<Rightarrow> DNSQueryOptions" where
  "serverOptions router rule options =
     (case serverOf router rule of
        None \<Rightarrow> options
      | Some t \<Rightarrow>
          applyLegacy t
            (case Option.bind rule Rule_getAction of
               Some (ActionDNSRoute _ action) \<Rightarrow> applyDNSRouteOptions (tr_Type t = ''fakeip'') action options
             | _ \<Rightarrow> options))"

lemma chosenBy_cong:
  assumes "queryContext md = queryContext md'"
  shows "dnsApplies env a md = dnsApplies env a md'" and "chosenBy env router f a md = chosenBy env router f a md'"
  using assms by (simp_all add: fun_eq_iff dnsApplies_def chosenBy_def)

text \<open>One round of the loop in the terms of the reference.\<close>

lemma matchDNS_step:
  obtains md' where "queryContext md' = queryContext md"
    and "chosenBy env router f a md rule \<Longrightarrow> \<exists>c. md' = touch c (queryContext md)"
    and "matchDNS env router f a (rule # rules) options md =
      (if chosenBy env router f a md rule
       then \<lparr>dm_transport = serverOf router (Some rule), dm_rule = Some rule, dm_rest = rules,
             dm_options = serverOptions router (Some rule) options, dm_metadata = md'\<rparr>
       else matchDNS env router f a rules (if dnsApplies env a md rule then ruleOptions rule options else options) md')"
proof (cases "Rule_WithAddressLimit (rn_store env) rule \<and> \<not> a")
  case True
  then show ?thesis using that [of md] by (simp add: chosenBy_def dnsApplies_def)
next
  case False
  obtain b md1 where b: "DNSRule_Match (rn_lib env) (rn_net env) (rn_store env) rule (ResetRuleCache md) = (b, md1)" by fastforce
  obtain c where c: "md1 = touch c (queryContext md)"
    using DNSRule_Match_snd [of "rn_lib env" "rn_net env" "rn_store env" rule md] b by auto
  have "dnsApplies env a md rule = b"
    using False b DNSRule_Match_queryContext [of "rn_lib env" "rn_net env" "rn_store env" rule md] by (auto simp: dnsApplies_def)
  then show ?thesis using that [of md1] False b c
    by (cases "Rule_getAction rule")
      (auto simp: chosenBy_def dnsFinal_def ruleOptions_def serverOptions_def serverOf_def Let_def
        split: RuleAction.splits option.splits)
qed


lemma matchDNS_reference:
  "dm_rule (matchDNS env router f a rules options md) = find (chosenBy env router f a md) rules \<and>
    dm_rest (matchDNS env router f a rules options md) = tl (dropWhile (Not \<circ> chosenBy env router f a md) rules) \<and>
    dm_transport (matchDNS env router f a rules options md) = serverOf router (find (chosenBy env router f a md) rules) \<and>
    dm_options (matchDNS env router f a rules options md) =
      serverOptions router (find (chosenBy env router f a md) rules) (fold ruleOptions (filter (dnsApplies env a md) (takeWhile (Not \<circ> chosenBy env router f a md) rules)) options)"
proof (induction rules arbitrary: options md)
  case Nil
  show ?case by (simp add: serverOf_def serverOptions_def)
next
  case (Cons r rules)
  from matchDNS_step [where md = md and env = env and router = router and f = f and a = a and rule = r and rules = rules and options = options]
  obtain md' where md': "queryContext md' = queryContext md"
    "matchDNS env router f a (r # rules) options md =
      (if chosenBy env router f a md r
       then \<lparr>dm_transport = serverOf router (Some r), dm_rule = Some r, dm_rest = rules,
             dm_options = serverOptions router (Some r) options, dm_metadata = md'\<rparr>
       else matchDNS env router f a rules (if dnsApplies env a md r then ruleOptions r options else options) md')" by blast
  note same = chosenBy_cong [OF md'(1)]
  show ?case unfolding md'(2) using Cons.IH [of _ md'] by (simp add: same)
qed

section \<open>The address limit\<close>




text \<open>What the client does to an accepted response leaves the addresses as they were.\<close>

lemma recordAddresses_ttl [simp]: "recordAddresses dl (r\<lparr>rc_Ttl := t\<rparr>) = recordAddresses dl r"
  by (simp add: recordAddresses_def)

lemma adjustEdns_keeps [simp]:
  assumes "\<And>r m. ms_Rcode (dl_SetEdns0 dl r m) = ms_Rcode m \<and> ms_Answer (dl_SetEdns0 dl r m) = ms_Answer m"
  shows "ms_Rcode (adjustEdns dl message response) = ms_Rcode response"
    and "ms_Answer (adjustEdns dl message response) = ms_Answer response"
  using assms by (simp_all add: adjustEdns_def Let_def split: option.splits)

















section \<open>Properties\<close>

text \<open>
  C20: the search through the DNS rules finds the first rule, in the order of the configuration, that
  applies to the query (a rule with an address limit only if the query is for addresses) and whose
  action ends the search: reject, predefined, or a known server that is not a forbidden fakeip. Its
  server is used, or the default server without such a rule, with the options of all the applicable
  \<open>route-options\<close> rules before it, then its own, then the legacy ones of the server; the search can
  be resumed with the rules after it.
\<close>

theorem dns_query_uses_first_applicable_rule:
  "let m = matchDNS env router allowFakeIP isAddr rules options md;
       rule = find (chosenBy env router allowFakeIP isAddr md) rules;
       before = takeWhile (Not \<circ> chosenBy env router allowFakeIP isAddr md) rules
   in dm_rule m = rule \<and> dm_transport m = serverOf router rule \<and>
      dm_options m = serverOptions router rule (fold ruleOptions (filter (dnsApplies env isAddr md) before) options) \<and>
      dm_rest m = drop (Suc (length before)) rules"
proof -
  let ?P = "chosenBy env router allowFakeIP isAddr md"
  have "tl (dropWhile (Not \<circ> ?P) rules) = drop (Suc (length (takeWhile (Not \<circ> ?P) rules))) rules"
    by (simp add: dropWhile_eq_drop drop_Suc drop_tl)
  then show ?thesis
    using matchDNS_reference [of env router allowFakeIP isAddr rules options md] by (simp add: Let_def)
qed











end
