(* ===== verification/Tls_Fragment.thy ===== *)
theory Tls_Fragment
  imports Bytes
begin

text \<open>
  Fragmentation of TLS handshakes, \<open>common/tlsfragment\<close>: \<open>index.go\<close>, which finds the server name in a client
  hello, and \<open>conn.go\<close>, which splits the first packet of a connection inside the name, into packets, into TLS
  records, or into both.

  The loop over the extensions may run forever; its value is then \<open>None\<close>. Slices of Go that are out of range
  panic. What the connection is asked to do is a list of events. Randomness, the public suffix list and the
  outcomes of the operations on the connection are parameters.
\<close>

section \<open>Slices\<close>

definition slice :: "bytes \<Rightarrow> nat \<Rightarrow> nat \<Rightarrow> bytes result" where
  "slice b i j =
     (if i \<le> j \<and> j \<le> length b then Inr (take (j - i) (drop i b))
      else Inl (Panic [AStr ''runtime error: slice bounds out of range'']))"

definition uint16 :: "u8 \<Rightarrow> u8 \<Rightarrow> u16" where
  "uint16 a b = push_bit 8 (ucast a) OR ucast b"

section \<open>The server name in a client hello\<close>

record MyServerName =
  sn_Index :: nat
  sn_Length :: nat
  sn_ServerName :: string

definition sniExtension :: "nat \<Rightarrow> bytes \<Rightarrow> MyServerName option" where
  "sniExtension currentIndex sex =
     (if length sex < 5 then None
      else if sex ! 2 \<noteq> 0 then None
      else Some \<lparr>sn_Index = currentIndex + 4 + 5, sn_Length = unat (uint16 (sex ! 3) (sex ! 4)),
                 sn_ServerName = stringOf (drop 5 sex)\<rparr>)"

text \<open>The rest after an extension is \<open>exs[4+exLen:]\<close>, where \<open>4+exLen\<close> is computed with 16 bits.\<close>

partial_function (option) extensionsLoop :: "nat \<Rightarrow> bytes \<Rightarrow> MyServerName option option" where
  "extensionsLoop currentIndex exs =
     (if length exs = 0 then Some None
      else if length exs < 4 then Some None
      else let exType = uint16 (exs ! 0) (exs ! 1); exLen = uint16 (exs ! 2) (exs ! 3)
           in if length exs < 4 + unat exLen then Some None
              else if exType = 0 then Some (sniExtension currentIndex (take (unat exLen) (drop 4 exs)))
              else extensionsLoop (currentIndex + 4 + unat exLen) (drop (unat (4 + exLen)) exs))"

definition indexTLSServerNameFromExtensions :: "bytes \<Rightarrow> MyServerName option option" where
  "indexTLSServerNameFromExtensions exs0 =
     (if length exs0 = 0 then Some None
      else if length exs0 < 2 then Some None
      else let exsLen = uint16 (exs0 ! 0) (exs0 ! 1); exs = drop 2 exs0
           in if length exs < unat exsLen then Some None else extensionsLoop 2 exs)"

definition addIndex :: "nat \<Rightarrow> MyServerName option option \<Rightarrow> MyServerName option option" where
  "addIndex n r = map_option (map_option (\<lambda>s. s\<lparr>sn_Index := sn_Index s + n\<rparr>)) r"

definition indexTLSServerNameFromHandshake :: "bytes \<Rightarrow> MyServerName option option" where
  "indexTLSServerNameFromHandshake handshake =
     (if length handshake < 6 + 32 + 1 then Some None
      else if handshake ! 0 \<noteq> 1 then Some None
      else let handshakeLen = (push_bit 16 (ucast (handshake ! 1)) OR push_bit 8 (ucast (handshake ! 2)) OR ucast (handshake ! 3)) :: u32
      in if length (drop 4 handshake) \<noteq> unat handshakeLen then Some None
      else let tlsVersion = uint16 (handshake ! 4) (handshake ! 5)
      in if tlsVersion AND 0xFFFC \<noteq> 0x0300 \<and> tlsVersion \<noteq> 0x0304 then Some None
      else let currentIndex = 6 + 32 + 1 + unat (handshake ! 38)
      in if length handshake < currentIndex then Some None
      else let cipherSuites = drop currentIndex handshake
      in if length cipherSuites < 2 then Some None
      else let csLen = uint16 (cipherSuites ! 0) (cipherSuites ! 1)
      in if length cipherSuites < 2 + unat csLen + 1 then Some None
      else let currentIndex2 = currentIndex + 2 + unat csLen + 1 + unat (cipherSuites ! (2 + unat csLen))
      in if length handshake < currentIndex2 then Some None
      else addIndex currentIndex2 (indexTLSServerNameFromExtensions (drop currentIndex2 handshake)))"

definition IndexTLSServerName :: "bytes \<Rightarrow> MyServerName option option" where
  "IndexTLSServerName payload =
     (if length payload < 5 \<or> payload ! 0 \<noteq> 22 then Some None
      else if length payload < 5 + unat (uint16 (payload ! 3) (payload ! 4)) then Some None
      else addIndex 5 (indexTLSServerNameFromHandshake (drop 5 payload)))"

section \<open>Splitting the first packet\<close>

text \<open>\<open>strings.Split(s, ".")\<close>.\<close>

fun splitDots :: "string \<Rightarrow> string list" where
  "splitDots [] = [[]]"
| "splitDots (c # s) =
     (if c = CHR ''.'' then [] # splitDots s
      else case splitDots s of [] \<Rightarrow> [[c]] | label # labels \<Rightarrow> (c # label) # labels)"

datatype Event = SetNoDelay bool | WriteAndWaitAck bytes | Write bytes | Sleep

record FragmentEnv =
  fe_PublicSuffix :: "string \<Rightarrow> string"
  fe_Intn :: "nat \<Rightarrow> nat \<Rightarrow> nat"
  fe_SetNoDelay :: "bool \<Rightarrow> Error option"
  fe_WriteAndWaitAck :: "bytes \<Rightarrow> Error option"
  fe_Write :: "bytes \<Rightarrow> nat \<times> Error option"

record FragmentConn =
  fc_tcpConn :: bool
  fc_firstPacketWritten :: bool
  fc_splitPacket :: bool
  fc_splitRecord :: bool
  fc_fallbackDelay :: int

definition NewConn :: "bool \<Rightarrow> bool \<Rightarrow> bool \<Rightarrow> int \<Rightarrow> FragmentConn" where
  "NewConn tcpConn splitPacket splitRecord fallbackDelay =
     \<lparr>fc_tcpConn = tcpConn, fc_firstPacketWritten = False, fc_splitPacket = splitPacket, fc_splitRecord = splitRecord,
      fc_fallbackDelay = (if fallbackDelay = 0 then 500000000 else fallbackDelay)\<rparr>"

text \<open>The labels in which the name is split, and the index of the first.\<close>

definition splitLabels :: "(string \<Rightarrow> string) \<Rightarrow> MyServerName \<Rightarrow> string list \<times> nat" where
  "splitLabels publicSuffix serverName =
     (let splits0 = splitDots (sn_ServerName serverName);
          splits = (if publicSuffix (sn_ServerName serverName) \<noteq> ''''
                    then take (length splits0 - length (filter (\<lambda>c. c = CHR ''.'') (sn_ServerName serverName))) splits0 else splits0)
      in if length splits > 1 \<and> hd splits = ''...'' then (tl splits, sn_Index serverName + length (hd splits) + 1)
         else (splits, sn_Index serverName))"

text \<open>\<open>rand.Intn(0)\<close> panics.\<close>

fun splitIndexes :: "(nat \<Rightarrow> nat \<Rightarrow> nat) \<Rightarrow> nat \<Rightarrow> nat \<Rightarrow> string list \<Rightarrow> nat list result" where
  "splitIndexes intn i currentIndex [] = Inr []"
| "splitIndexes intn i currentIndex (split # splits) =
     (if length split = 0 then Inl (Panic [AStr ''invalid argument to Intn''])
      else bindE (splitIndexes intn (Suc i) (currentIndex + length split + (if splits = [] then 0 else 1)) splits)
             (\<lambda>indexes. Inr ((currentIndex + intn i (length split)) # indexes)))"

definition fragmentPayload :: "bool \<Rightarrow> bytes \<Rightarrow> nat list \<Rightarrow> nat \<Rightarrow> bytes result" where
  "fragmentPayload splitRecord b indexes i =
     (if i = 0 then
        (if indexes = [] then Inl (Panic [AStr ''runtime error: index out of range''])
         else bindE (slice b 0 (indexes ! 0)) (\<lambda>payload. if splitRecord then slice payload 5 (length payload) else Inr payload))
      else if i = length indexes then slice b (indexes ! (i - 1)) (length b)
      else slice b (indexes ! (i - 1)) (indexes ! i))"

text \<open>One round of the loop over the fragments: the buffer and what happened, or the error.\<close>

definition recordOf :: "bytes \<Rightarrow> bytes \<Rightarrow> bytes" where
  "recordOf b payload = take 3 b @ bytesOfNat 2 (length payload) @ payload"

definition sendFragment :: "FragmentEnv \<Rightarrow> FragmentConn \<Rightarrow> bool \<Rightarrow> bytes \<Rightarrow> Error option \<times> Event list" where
  "sendFragment env c isLast payload =
     (if fc_tcpConn c \<and> \<not> isLast then (fe_WriteAndWaitAck env payload, [WriteAndWaitAck payload])
      else (case snd (fe_Write env payload) of
              Some err \<Rightarrow> (Some err, [Write payload])
            | None \<Rightarrow> (None, Write payload # (if isLast then [] else [Sleep]))))"

fun fragmentLoop ::
  "FragmentEnv \<Rightarrow> FragmentConn \<Rightarrow> bytes \<Rightarrow> nat list \<Rightarrow> nat list \<Rightarrow> bytes \<Rightarrow> (Error option \<times> bytes) \<times> Event list" where
  "fragmentLoop env c b indexes [] buffer = ((None, buffer), [])"
| "fragmentLoop env c b indexes (i # is) buffer =
     (case fragmentPayload (fc_splitRecord c) b indexes i of
        Inl err \<Rightarrow> ((Some err, buffer), [])
      | Inr payload \<Rightarrow>
          (let buffer' = (if fc_splitRecord c then (if fc_splitPacket c then [] else buffer) @ recordOf b payload else buffer);
               payload' = (if fc_splitRecord c \<and> fc_splitPacket c then buffer' else payload)
           in if fc_splitPacket c
              then (case sendFragment env c (i = length indexes) payload' of
                      (Some err, es) \<Rightarrow> ((Some err, buffer'), es)
                    | (None, es) \<Rightarrow> (let (r, es') = fragmentLoop env c b indexes is buffer' in (r, es @ es')))
              else fragmentLoop env c b indexes is buffer'))"

text \<open>\<open>Conn.Write\<close>: the number of bytes and the error, the connection, and the events.\<close>

definition writeFragments :: "FragmentEnv \<Rightarrow> FragmentConn \<Rightarrow> bytes \<Rightarrow> MyServerName \<Rightarrow> (nat \<times> Error option) \<times> Event list" where
  "writeFragments env c b serverName =
     (let noDelay = (fc_splitPacket c \<and> fc_tcpConn c);
          es0 = (if noDelay then [SetNoDelay True] else [])
      in if noDelay \<and> fe_SetNoDelay env True \<noteq> None then ((0, fe_SetNoDelay env True), es0)
      else let (splits, currentIndex) = splitLabels (fe_PublicSuffix env) serverName
      in case splitIndexes (fe_Intn env) 0 currentIndex splits of
           Inl err \<Rightarrow> ((0, Some err), es0)
         | Inr indexes \<Rightarrow>
             (case fragmentLoop env c b indexes [0..<Suc (length indexes)] [] of
                ((Some err, _), es1) \<Rightarrow> ((0, Some err), es0 @ es1)
              | ((None, buffer), es1) \<Rightarrow>
                  (let whole = (fc_splitRecord c \<and> \<not> fc_splitPacket c);
                       es2 = es0 @ es1 @ (if whole then [Write buffer] else [])
                   in if whole \<and> snd (fe_Write env buffer) \<noteq> None then ((0, snd (fe_Write env buffer)), es2)
                      else if fc_tcpConn c
                      then (if fe_SetNoDelay env False \<noteq> None then ((0, fe_SetNoDelay env False), es2 @ [SetNoDelay False])
                            else ((length b, None), es2 @ [SetNoDelay False]))
                      else ((length b, None), es2))))"

definition Conn_Write ::
  "FragmentEnv \<Rightarrow> FragmentConn \<Rightarrow> bytes \<Rightarrow> ((nat \<times> Error option) \<times> FragmentConn \<times> Event list) option" where
  "Conn_Write env c b =
     (let plain = fe_Write env b
      in if fc_firstPacketWritten c then Some (plain, c, [Write b])
         else (case IndexTLSServerName b of
                 None \<Rightarrow> None
               | Some None \<Rightarrow> Some (plain, c\<lparr>fc_firstPacketWritten := True\<rparr>, [Write b])
               | Some (Some serverName) \<Rightarrow>
                   (let (r, es) = writeFragments env c b serverName in Some (r, c\<lparr>fc_firstPacketWritten := True\<rparr>, es))))"

end
