(* ===== verification/Tls_Fragment_Props.thy ===== *)
theory Tls_Fragment_Props
  imports Tls_Fragment "HOL-Library.Sublist"
begin

text \<open>
  The server name is found where it is, and the fragments carry the packet: what the peer receives is the
  client hello, as bytes or as the content of its TLS records.
\<close>

section \<open>The server name\<close>

text \<open>A name at a position of the bytes.\<close>

definition nameAt :: "bytes \<Rightarrow> nat \<Rightarrow> string \<Rightarrow> bool" where
  "nameAt b k name = (k + length name \<le> length b \<and> stringOf (take (length name) (drop k b)) = name)"

lemma stringOf_length [simp]: "length (stringOf b) = length b"
  by (simp add: stringOf_def)

lemma nameAt_drop: "nameAt (drop n b) k name \<Longrightarrow> n \<le> length b \<Longrightarrow> nameAt b (k + n) name"
  by (auto simp: nameAt_def)

lemma sniExtension_located:
  assumes "sniExtension i (take n (drop 4 exs)) = Some s" and "4 + n \<le> length exs"
  shows "sn_Index s = i + 9 \<and> nameAt exs 9 (sn_ServerName s)"
  using assms by (auto simp: sniExtension_def nameAt_def drop_take split: if_splits)

lemma no_wrap: "unat (l :: u16) + 4 < 65536 \<Longrightarrow> unat (4 + l) = 4 + unat l"
  by (simp add: unat_word_ariths)

text \<open>A list of extensions shorter than 65536 bytes is walked to its end, and the positions are right.\<close>

lemma extensionsLoop_short:
  "length exs < 65536 \<Longrightarrow>
   \<exists>r. extensionsLoop i exs = Some r \<and> (\<forall>s. r = Some s \<longrightarrow> (\<exists>k. sn_Index s = i + k \<and> nameAt exs k (sn_ServerName s)))"
proof (induction exs arbitrary: i rule: length_induct)
  case (1 exs)
  let ?l = "uint16 (exs ! 2) (exs ! 3)"
  show ?case
  proof (cases "length exs < 4 \<or> length exs < 4 + unat ?l \<or> uint16 (exs ! 0) (exs ! 1) = 0")
    case True
    show ?thesis
    proof (cases "length exs < 4 \<or> length exs < 4 + unat ?l")
      case False
      then show ?thesis using True sniExtension_located [of i "unat ?l" exs]
        by (subst extensionsLoop.simps) (auto simp: Let_def)
    qed (subst extensionsLoop.simps, auto simp: Let_def)
  next
    case False
    then have w: "unat (4 + ?l) = 4 + unat ?l" using 1(2) by (intro no_wrap) simp
    let ?rest = "drop (4 + unat ?l) exs"
    have l: "length ?rest < length exs" using False by auto
    then have l2: "length ?rest < 65536" using 1(2) by linarith
    obtain r where r: "extensionsLoop (i + 4 + unat ?l) ?rest = Some r"
        "\<And>s. r = Some s \<Longrightarrow> \<exists>k. sn_Index s = i + 4 + unat ?l + k \<and> nameAt ?rest k (sn_ServerName s)"
      using 1(1) [rule_format, OF l l2, of "i + 4 + unat ?l"] by blast
    have "\<exists>k. sn_Index s = i + k \<and> nameAt exs k (sn_ServerName s)" if s: "r = Some s" for s
    proof -
      obtain k where "sn_Index s = i + (4 + unat ?l + k)" "nameAt ?rest k (sn_ServerName s)" using r(2) [OF s] by (auto simp: add.assoc)
      moreover have "nameAt exs (4 + unat ?l + k) (sn_ServerName s)"
        using nameAt_drop [OF calculation(2)] False by (simp add: add.commute)
      ultimately show ?thesis by blast
    qed
    then show ?thesis using r(1) False w by (subst extensionsLoop.simps) (auto simp: Let_def)
  qed
qed

lemma addIndex_located:
  assumes "n \<le> length b"
    and "\<exists>r. x = Some r \<and> (\<forall>s. r = Some s \<longrightarrow> nameAt (drop n b) (sn_Index s) (sn_ServerName s))"
  shows "\<exists>r. addIndex n x = Some r \<and> (\<forall>s. r = Some s \<longrightarrow> n \<le> sn_Index s \<and> nameAt b (sn_Index s) (sn_ServerName s))"
  using assms nameAt_drop [of n b] by (auto simp: addIndex_def)

lemma fromExtensions_located:
  assumes "length exs < 65536"
  shows "\<exists>r. indexTLSServerNameFromExtensions exs = Some r \<and> (\<forall>s. r = Some s \<longrightarrow> nameAt exs (sn_Index s) (sn_ServerName s))"
proof -
  have short: "length (drop 2 exs) < 65536" using assms by simp
  obtain r where r: "extensionsLoop 2 (drop 2 exs) = Some r"
      "\<And>s. r = Some s \<Longrightarrow> \<exists>k. sn_Index s = 2 + k \<and> nameAt (drop 2 exs) k (sn_ServerName s)"
    using extensionsLoop_short [of "drop 2 exs" 2] short by blast
  then have "length exs \<ge> 2 \<Longrightarrow> r = Some s \<Longrightarrow> nameAt exs (sn_Index s) (sn_ServerName s)" for s
    using nameAt_drop [of 2 exs] by (metis add.commute)
  then show ?thesis using r(1) by (auto simp: indexTLSServerNameFromExtensions_def Let_def)
qed

lemma fromHandshake_located:
  assumes "length h < 65536"
  shows "\<exists>r. indexTLSServerNameFromHandshake h = Some r \<and> (\<forall>s. r = Some s \<longrightarrow> nameAt h (sn_Index s) (sn_ServerName s))"
proof -
  have *: "n \<le> length h \<Longrightarrow> \<exists>r. addIndex n (indexTLSServerNameFromExtensions (drop n h)) = Some r \<and>
      (\<forall>s. r = Some s \<longrightarrow> nameAt h (sn_Index s) (sn_ServerName s))" for n
  proof -
    assume n: "n \<le> length h"
    have "length (drop n h) < 65536" using assms by simp
    then show ?thesis using addIndex_located [OF n fromExtensions_located] by blast
  qed
  show ?thesis unfolding indexTLSServerNameFromHandshake_def Let_def by (simp add: not_less *)
qed

text \<open>
  For every packet shorter than 65536 bytes, looking for the server name ends, and a name that is found
  is the bytes of the packet at the reported index, after the header of the record.
\<close>

theorem server_name_is_located:
  assumes "length payload < 65536"
  shows "\<exists>r. IndexTLSServerName payload = Some r \<and>
    (\<forall>s. r = Some s \<longrightarrow> 5 \<le> sn_Index s \<and> sn_Index s + length (sn_ServerName s) \<le> length payload \<and>
       stringOf (take (length (sn_ServerName s)) (drop (sn_Index s) payload)) = sn_ServerName s)"
proof -
  have "5 \<le> length payload \<Longrightarrow> \<exists>r. addIndex 5 (indexTLSServerNameFromHandshake (drop 5 payload)) = Some r \<and>
      (\<forall>s. r = Some s \<longrightarrow> 5 \<le> sn_Index s \<and> nameAt payload (sn_Index s) (sn_ServerName s))"
    using addIndex_located [OF _ fromHandshake_located] assms by simp
  then show ?thesis unfolding IndexTLSServerName_def nameAt_def by (auto simp: not_less)
qed

section \<open>A length that wraps\<close>

text \<open>An extension of 65532 bytes: \<open>4+exLen\<close> is 0 in 16 bits, the loop does not move.\<close>

lemma extensionsLoop_stuck:
  assumes "65536 \<le> length exs" and "uint16 (exs ! 0) (exs ! 1) \<noteq> 0" and "uint16 (exs ! 2) (exs ! 3) = 0xFFFC"
  shows "extensionsLoop i exs = None"
proof (rule ccontr)
  assume "extensionsLoop i exs \<noteq> None"
  then obtain r where ret: "extensionsLoop i exs = Some r" by blast
  have "exs \<noteq> exs"
  proof (rule extensionsLoop.raw_induct [where P = "\<lambda>i e r. e \<noteq> exs", OF _ ret])
    fix f i e r
    assume IH: "\<And>i e r. f i e = Some r \<Longrightarrow> e \<noteq> exs"
      and eq: "(if length e = 0 then Some None
        else if length e < 4 then Some None
             else let exType = uint16 (e ! 0) (e ! 1); exLen = uint16 (e ! 2) (e ! 3)
                  in if length e < 4 + unat exLen then Some None
                     else if exType = 0 then Some (sniExtension i (take (unat exLen) (drop 4 e)))
                     else f (i + 4 + unat exLen) (drop (unat (4 + exLen)) e)) = Some r"
    show "e \<noteq> exs"
    proof
      assume e: "e = exs"
      have "exs \<noteq> []" "\<not> length exs < 4" using assms(1) by auto
      then have "f (i + 4 + 65532) exs = Some r" using eq assms unfolding e by (simp add: Let_def)
      then show False using IH by blast
    qed
  qed
  then show False by simp
qed

section \<open>Where the packet is split\<close>

definition dots :: "string \<Rightarrow> nat" where
  "dots s = length (filter (\<lambda>c. c = CHR ''.'') s)"

lemma splitDots_shape: "length (splitDots s) = Suc (dots s) \<and> sum_list (map length (splitDots s)) + dots s = length s"
proof (induction s)
  case (Cons c s)
  show ?case
  proof (cases "splitDots s")
    case Nil
    then show ?thesis using Cons by simp
  next
    case (Cons label labels)
    then show ?thesis using \<open>length (splitDots s) = _ \<and> _\<close> by (auto simp: dots_def)
  qed
qed (simp add: dots_def)

lemma splitDots_no_dot: "label \<in> set (splitDots s) \<Longrightarrow> CHR ''.'' \<notin> set label"
proof (induction s arbitrary: label)
  case (Cons c s)
  then show ?case by (cases "splitDots s") (auto split: if_splits)
qed simp

text \<open>The labels of the name that are split lie within it, the first label among them.\<close>

lemma splitLabels_shape:
  "\<exists>splits. splitLabels ps sn = (splits, sn_Index sn) \<and> splits \<noteq> [] \<and>
     sum_list (map length splits) + (length splits - 1) \<le> length (sn_ServerName sn) \<and>
     (ps (sn_ServerName sn) \<noteq> '''' \<longrightarrow> splits = [hd (splitDots (sn_ServerName sn))])"
proof -
  let ?n = "sn_ServerName sn"
  let ?s = "splitDots ?n"
  obtain label labels where s: "?s = label # labels" using splitDots_shape [of ?n] by (cases ?s) auto
  have shape: "length labels = dots ?n" "length label + sum_list (map length labels) + dots ?n = length ?n"
    using splitDots_shape [of ?n] s by simp_all
  have "label \<noteq> ''...''" using splitDots_no_dot [of label ?n] s by auto
  then show ?thesis using shape s by (auto simp: splitLabels_def Let_def dots_def [symmetric])
qed




section \<open>The fragments\<close>

fun pieces :: "nat \<Rightarrow> nat list \<Rightarrow> bytes \<Rightarrow> bytes list" where
  "pieces from [] b = [drop from b]"
| "pieces from (x # xs) b = take (x - from) (drop from b) # pieces x xs b"

lemma pieces_length [simp]: "length (pieces from xs b) = Suc (length xs)"
  by (induction xs arbitrary: "from") simp_all







text \<open>The bytes handed to the connection.\<close>

definition written :: "Event list \<Rightarrow> bytes" where
  "written es = concat (map (\<lambda>e. case e of WriteAndWaitAck p \<Rightarrow> p | Write p \<Rightarrow> p | _ \<Rightarrow> []) es)"

lemma written_simps [simp]:
  "written [] = []" "written (es @ es') = written es @ written es'" "written (Write p # es) = p @ written es"
  "written (WriteAndWaitAck p # es) = p @ written es" "written (SetNoDelay d # es) = written es" "written (Sleep # es) = written es"
  by (simp_all add: written_def)





subsection \<open>TLS records\<close>









text \<open>
  An empty first label, as in a hello with an empty server name, panics; and when the public suffix list
  knows a suffix, which it does for every name, only the first label of the name is ever split, as the dots of the
  name are counted instead of those of the suffix.
\<close>

theorem only_first_label_is_split:
  assumes "fe_PublicSuffix env (sn_ServerName sn) \<noteq> ''''" and "fe_SetNoDelay env True = None" and "label = hd (splitDots (sn_ServerName sn))"
  shows "if label = [] then fst (writeFragments env c b sn) = (0, Some (Panic [AStr ''invalid argument to Intn'']))
    else splitIndexes (fe_Intn env) 0 (sn_Index sn) (fst (splitLabels (fe_PublicSuffix env) sn)) = Inr [sn_Index sn + fe_Intn env 0 (length label)]"
proof -
  have "splitLabels (fe_PublicSuffix env) sn = ([label], sn_Index sn)"
    using splitLabels_shape [of "fe_PublicSuffix env" sn] assms(1,3) by auto
  then show ?thesis using assms(2) by (simp add: writeFragments_def Let_def)
qed

text \<open>
  A client hello with an unknown extension of 65532 bytes before the server name is never answered: the
  length of the extension with its header is computed in 16 bits and is 0, and the loop stays where it is.
\<close>

theorem long_extension_never_ends:
  assumes "65536 \<le> length exs" and "take 4 exs = [hi, lo, 0xFF, 0xFC]" and "hi \<noteq> 0"
  shows "extensionsLoop i exs = None"
proof -
  have "exs ! k = take 4 exs ! k" if "k < 4" for k using that by simp
  then have n: "exs ! 0 = hi" "exs ! 1 = lo" "exs ! 2 = 0xFF" "exs ! 3 = 0xFC" unfolding assms(2) by simp_all
  have "uint16 hi lo \<noteq> 0"
  proof
    assume "uint16 hi lo = 0"
    then have "bit (uint16 hi lo) (n + 8) = False" for n by simp
    then have "\<not> bit hi n" if "n < 8" for n using that by (simp add: uint16_def bit_simps)
    then show False using assms(3) by (auto simp: bit_eq_iff bit_simps)
  qed
  then show ?thesis using n by (intro extensionsLoop_stuck assms(1)) (simp_all add: uint16_def)
qed

section \<open>A client hello\<close>

definition sampleExtensions :: bytes where
  "sampleExtensions = [0, 14, 0, 0, 0, 10, 0, 8, 0, 0, 5, 97, 46, 111, 114, 103]"

definition sampleHello :: bytes where
  "sampleHello =
     [22, 3, 1, 0, 61, 1, 0, 0, 57, 3, 3] @
     [0, 0, 0, 0, 0, 0, 0, 0, 0, 0, 0, 0, 0, 0, 0, 0, 0, 0, 0, 0, 0, 0, 0, 0, 0, 0, 0, 0, 0, 0, 0, 0] @
     [0, 0, 2, 0x13, 0x01, 1, 0] @ sampleExtensions"

definition sampleFragmentEnv :: FragmentEnv where
  "sampleFragmentEnv =
     \<lparr>fe_PublicSuffix = (\<lambda>_. ''org''), fe_Intn = (\<lambda>i n. n - 1), fe_SetNoDelay = (\<lambda>_. None), fe_WriteAndWaitAck = (\<lambda>_. None),
      fe_Write = (\<lambda>b. (length b, None))\<rparr>"

lemma sample_extensions:
  "indexTLSServerNameFromExtensions sampleExtensions = Some (Some \<lparr>sn_Index = 11, sn_Length = 5, sn_ServerName = ''a.org''\<rparr>)"
proof -
  have "extensionsLoop 2 [0, 0, 0, 10, 0, 8, 0, 0, 5, 97, 46, 111, 114, 103] = Some (Some \<lparr>sn_Index = 11, sn_Length = 5, sn_ServerName = ''a.org''\<rparr>)"
    by (subst extensionsLoop.simps) (simp add: Let_def uint16_def sniExtension_def stringOf_def char_of_def bit_Suc_0_iff)
  then show ?thesis by (simp add: indexTLSServerNameFromExtensions_def sampleExtensions_def uint16_def)
qed

lemma sample_located: "IndexTLSServerName sampleHello = Some (Some \<lparr>sn_Index = 61, sn_Length = 5, sn_ServerName = ''a.org''\<rparr>)"
proof -
  have l: "length sampleExtensions = 16" by (simp add: sampleExtensions_def)
  have "indexTLSServerNameFromHandshake (drop 5 sampleHello) =
      addIndex 45 (indexTLSServerNameFromExtensions sampleExtensions)"
    by (simp add: indexTLSServerNameFromHandshake_def sampleHello_def uint16_def Let_def l)
  then show ?thesis using l by (simp add: IndexTLSServerName_def sample_extensions addIndex_def) (simp add: sampleHello_def uint16_def)
qed


theorem server_name_is_located_witness:
  "\<exists>r. IndexTLSServerName sampleHello = Some r \<and>
    (\<forall>s. r = Some s \<longrightarrow> 5 \<le> sn_Index s \<and> sn_Index s + length (sn_ServerName s) \<le> length sampleHello \<and>
       stringOf (take (length (sn_ServerName s)) (drop (sn_Index s) sampleHello)) = sn_ServerName s)"
  by (rule server_name_is_located) (simp add: sampleHello_def sampleExtensions_def)


theorem only_first_label_is_split_witness:
  "splitIndexes (fe_Intn sampleFragmentEnv) 0 61
     (fst (splitLabels (fe_PublicSuffix sampleFragmentEnv) \<lparr>sn_Index = 61, sn_Length = 9, sn_ServerName = ''www.a.org''\<rparr>)) = Inr [63]"
  using only_first_label_is_split [of sampleFragmentEnv "\<lparr>sn_Index = 61, sn_Length = 9, sn_ServerName = ''www.a.org''\<rparr>" "''www''"]
  by (simp add: sampleFragmentEnv_def)

theorem long_extension_never_ends_witness: "extensionsLoop 2 ([0xFF, 0x01, 0xFF, 0xFC] @ replicate 65532 0) = None"
  by (rule long_extension_never_ends [of _ "0xFF" "0x01"]) simp_all

end
