(* ===== verification/Registries.thy ===== *)
theory Registries
  imports Managers
begin

text \<open>
  The registries without dependencies: the managers of inbounds (\<open>adapter/inbound/manager.go\<close>),
  endpoints (\<open>adapter/endpoint/manager.go\<close>) and services (\<open>adapter/service/manager.go\<close>), which have the
  same methods up to their texts, and the check of tags in \<open>option/options.go\<close>.

  The word in the texts is the first argument of the shared operations.
\<close>

section \<open>Model\<close>

record Registry =
  rg_started :: bool
  rg_stage :: nat
  rg_items :: "Service list"
  rg_byTag :: "(string, Service) fmap"

definition NewRegistry :: Registry where
  "NewRegistry = \<lparr>rg_started = False, rg_stage = 0, rg_items = [], rg_byTag = fmempty\<rparr>"

definition itemName :: "string \<Rightarrow> Service \<Rightarrow> string" where
  "itemName kind s = kind @ ''/'' @ sv_Type s @ ''['' @ sv_Tag s @ '']''"

definition stageOf :: "string \<Rightarrow> nat \<Rightarrow> Service \<Rightarrow> Arg list" where
  "stageOf kind stage s = [AStr (stageName stage), AStr '' '', AStr (itemName kind s)]"

definition Registry_Start ::
  "string \<Rightarrow> ManagerEnv \<Rightarrow> nat \<Rightarrow> Registry \<Rightarrow> Error option \<times> Registry \<times> Call list" where
  "Registry_Start kind env stage m =
     (if rg_started m \<and> rg_stage m \<ge> stage then (Some (Panic [AStr ''already started'']), m, [])
      else let m1 = m\<lparr>rg_started := True, rg_stage := stage\<rparr>;
               (err, calls) = startAll env (stageOf kind stage) stage (rg_items m1)
           in (err, m1, calls))"

text \<open>\<open>Close\<close> collects the errors of the items and returns nil; the table by tag is kept.\<close>

definition Registry_Close :: "ManagerEnv \<Rightarrow> Registry \<Rightarrow> Error option \<times> Registry \<times> Call list" where
  "Registry_Close env m =
     (if \<not> rg_started m then (None, m, [])
      else (None, m\<lparr>rg_started := False, rg_items := []\<rparr>, closeAll env (rg_items m)))"

definition Registry_Get :: "Registry \<Rightarrow> string \<Rightarrow> Service option" where
  "Registry_Get m tag = fmlookup (rg_byTag m) tag"

definition removeItem :: "string \<Rightarrow> Service \<Rightarrow> Service list \<Rightarrow> Service list result" where
  "removeItem kind s xs =
     (case serviceIndex s xs of
        None \<Rightarrow> Inl (Panic [AStr (''invalid '' @ kind @ '' index'')])
      | Some i \<Rightarrow> Inr (take i xs @ drop (Suc i) xs))"

definition Registry_Remove ::
  "string \<Rightarrow> ManagerEnv \<Rightarrow> string \<Rightarrow> Registry \<Rightarrow> Error option \<times> Registry \<times> Call list" where
  "Registry_Remove kind env tag m =
     (case fmlookup (rg_byTag m) tag of
        None \<Rightarrow> (Some (E_Lib ''invalid argument''), m, [])
      | Some s \<Rightarrow>
          (let m1 = m\<lparr>rg_byTag := fmdrop tag (rg_byTag m)\<rparr>
           in case removeItem kind s (rg_items m1) of
                Inl err \<Rightarrow> (Some err, m1, [])
              | Inr items \<Rightarrow>
                  (let m2 = m1\<lparr>rg_items := items\<rparr>
                   in if rg_started m2 then (me_Close env s, m2, [CloseCall s]) else (None, m2, []))))"

definition Registry_Create ::
  "string \<Rightarrow> ManagerEnv \<Rightarrow> string \<Rightarrow> string \<Rightarrow> Registry \<Rightarrow> Error option \<times> Registry \<times> Call list" where
  "Registry_Create kind env tag itemType m =
     (case me_Create env tag itemType of
        Inl err \<Rightarrow> (Some err, m, [])
      | Inr s \<Rightarrow>
          (case (if rg_started m then startStages env (\<lambda>stage. stageOf kind stage s) s [0, 1, 2, 3] else (None, [])) of
             (Some err, calls) \<Rightarrow> (Some err, m, calls)
           | (None, calls) \<Rightarrow>
               (case (case fmlookup (rg_byTag m) tag of
                        None \<Rightarrow> (Inr (rg_items m), [])
                      | Some old \<Rightarrow>
                          if rg_started m
                          then (case me_Close env old of
                                  Some err \<Rightarrow> (Inl (E_Cause err [AStr (''close '' @ kind @ ''/''), AStr (sv_Type old), AStr ''['', AStr (sv_Tag old), AStr '']'']), [CloseCall old])
                                | None \<Rightarrow> (removeItem kind old (rg_items m), [CloseCall old]))
                          else (removeItem kind old (rg_items m), [])) of
                  (Inl err, closed) \<Rightarrow> (Some err, m, calls @ closed)
                | (Inr items, closed) \<Rightarrow>
                    (None, m\<lparr>rg_items := items @ [s], rg_byTag := fmupd tag s (rg_byTag m)\<rparr>, calls @ closed))))"

text \<open>The three managers. Endpoints are started with the outbounds, so their manager skips that stage.\<close>

definition InboundManager_Start :: "ManagerEnv \<Rightarrow> nat \<Rightarrow> Registry \<Rightarrow> Error option \<times> Registry \<times> Call list" where
  "InboundManager_Start = Registry_Start ''inbound''"

definition InboundManager_Get :: "Registry \<Rightarrow> Registry \<Rightarrow> string \<Rightarrow> Service option" where
  "InboundManager_Get endpoint m tag = (case fmlookup (rg_byTag m) tag of Some s \<Rightarrow> Some s | None \<Rightarrow> Registry_Get endpoint tag)"

definition InboundManager_Remove :: "ManagerEnv \<Rightarrow> string \<Rightarrow> Registry \<Rightarrow> Error option \<times> Registry \<times> Call list" where
  "InboundManager_Remove = Registry_Remove ''inbound''"

definition InboundManager_Create :: "ManagerEnv \<Rightarrow> string \<Rightarrow> string \<Rightarrow> Registry \<Rightarrow> Error option \<times> Registry \<times> Call list" where
  "InboundManager_Create = Registry_Create ''inbound''"

definition EndpointManager_Start :: "ManagerEnv \<Rightarrow> nat \<Rightarrow> Registry \<Rightarrow> Error option \<times> Registry \<times> Call list" where
  "EndpointManager_Start env stage m =
     (if rg_started m \<and> rg_stage m \<ge> stage then (Some (Panic [AStr ''already started'']), m, [])
      else let m1 = m\<lparr>rg_started := True, rg_stage := stage\<rparr>
           in if stage = 1 then (None, m1, [])
              else let (err, calls) = startAll env (stageOf ''endpoint'' stage) stage (rg_items m1) in (err, m1, calls))"

definition EndpointManager_Remove :: "ManagerEnv \<Rightarrow> string \<Rightarrow> Registry \<Rightarrow> Error option \<times> Registry \<times> Call list" where
  "EndpointManager_Remove = Registry_Remove ''endpoint''"

definition EndpointManager_Create :: "ManagerEnv \<Rightarrow> string \<Rightarrow> string \<Rightarrow> Registry \<Rightarrow> Error option \<times> Registry \<times> Call list" where
  "EndpointManager_Create = Registry_Create ''endpoint''"

definition ServiceManager_Start :: "ManagerEnv \<Rightarrow> nat \<Rightarrow> Registry \<Rightarrow> Error option \<times> Registry \<times> Call list" where
  "ServiceManager_Start = Registry_Start ''service''"

definition ServiceManager_Remove :: "ManagerEnv \<Rightarrow> string \<Rightarrow> Registry \<Rightarrow> Error option \<times> Registry \<times> Call list" where
  "ServiceManager_Remove = Registry_Remove ''service''"

definition ServiceManager_Create :: "ManagerEnv \<Rightarrow> string \<Rightarrow> string \<Rightarrow> Registry \<Rightarrow> Error option \<times> Registry \<times> Call list" where
  "ServiceManager_Create = Registry_Create ''service''"

section \<open>Tags of the configuration\<close>

record ItemOptions =
  io_Type :: string
  io_Tag :: string

definition tagAt :: "nat \<Rightarrow> ItemOptions \<Rightarrow> string" where
  "tagAt i options = (if io_Tag options \<noteq> '''' then io_Tag options else indexText i)"

fun checkTags :: "string \<Rightarrow> nat \<Rightarrow> ItemOptions list \<Rightarrow> string list \<Rightarrow> string list result" where
  "checkTags what i [] seen = Inr seen"
| "checkTags what i (x # xs) seen =
     (if tagAt i x \<in> set seen then Inl (E_New [AStr (''duplicate '' @ what @ '' tag: ''), AStr (tagAt i x)])
      else checkTags what (Suc i) xs (tagAt i x # seen))"

definition checkInbounds :: "ItemOptions list \<Rightarrow> unit result" where
  "checkInbounds inbounds = bindE (checkTags ''inbound'' 0 inbounds []) (\<lambda>_. Inr ())"

definition checkOutbounds :: "ItemOptions list \<Rightarrow> ItemOptions list \<Rightarrow> unit result" where
  "checkOutbounds outbounds endpoints =
     bindE (checkTags ''outbound/endpoint'' 0 outbounds [])
       (\<lambda>seen. bindE (checkTags ''outbound/endpoint'' 0 endpoints seen) (\<lambda>_. Inr ()))"

definition checkOptions :: "ItemOptions list \<Rightarrow> ItemOptions list \<Rightarrow> ItemOptions list \<Rightarrow> unit result" where
  "checkOptions inbounds outbounds endpoints =
     bindE (checkInbounds inbounds) (\<lambda>_. checkOutbounds outbounds endpoints)"

section \<open>The registry invariant\<close>

lemma removeItem_Inr: "removeItem kind s xs = Inr ys \<longleftrightarrow> without s xs = Inr ys"
  by (auto simp: removeItem_def without_def split: option.splits)

lemma removeItem_ok:
  "registryOk ss byTag \<Longrightarrow> fmlookup byTag tag = Some s \<Longrightarrow> \<exists>ss'. removeItem kind s ss = Inr ss' \<and> without s ss = Inr ss'"
  using without_ok by (fastforce simp: removeItem_Inr)

theorem registry_create_ok:
  assumes "registryOk (rg_items m) (rg_byTag m)" and "createsTagged env" and "envSafe env"
    and "Registry_Create kind env tag ty m = (err, m', calls)"
  shows "registryOk (rg_items m') (rg_byTag m') \<and> err \<noteq> Some (Panic p)"
proof (cases "me_Create env tag ty")
  case (Inl e)
  then show ?thesis using assms by (auto simp: Registry_Create_def envSafe_def)
next
  case (Inr s)
  have t: "sv_Tag s = tag" using Inr assms(2) by (auto simp: createsTagged_def)
  obtain e cs where st: "(if rg_started m then startStages env (\<lambda>stage. stageOf kind stage s) s [0, 1, 2, 3] else (None, [])) = (e, cs)"
    and e: "e \<noteq> Some (Panic p)"
    using startStages_panic [of env _ s "[0, 1, 2, 3]" p] by (metis fst_conv option.distinct(1) prod.collapse)
  show ?thesis
  proof (cases "fmlookup (rg_byTag m) tag")
    case None
    then show ?thesis
      using assms(1,4) Inr st e registry_add [OF assms(1), of s] t
      by (auto simp: Registry_Create_def Let_def split: if_splits option.splits)
  next
    case (Some old)
    then obtain ss where w: "removeItem kind old (rg_items m) = Inr ss" "without old (rg_items m) = Inr ss"
      using removeItem_ok [OF assms(1)] by blast
    then show ?thesis
      using assms(1,4) Inr st e registry_replace [OF assms(1), of s old ss] t Some
      by (auto simp: Registry_Create_def Let_def split: if_splits option.splits)
  qed
qed

theorem registry_remove_ok:
  assumes "registryOk (rg_items m) (rg_byTag m)" and "envSafe env" and "Registry_Remove kind env tag m = (err, m', calls)"
  shows "registryOk (rg_items m') (rg_byTag m') \<and> err \<noteq> Some (Panic p)"
proof (cases "fmlookup (rg_byTag m) tag")
  case None
  then show ?thesis using assms by (auto simp: Registry_Remove_def)
next
  case (Some s)
  then obtain ss where w: "removeItem kind s (rg_items m) = Inr ss" "without s (rg_items m) = Inr ss"
    using removeItem_ok [OF assms(1)] by blast
  then show ?thesis using assms registry_drop [OF assms(1) Some w(2)] Some
    by (auto simp: Registry_Remove_def Let_def envSafe_def split: if_splits)
qed

text \<open>
  \<open>Close\<close> empties the list and keeps the table, so that removing or replacing an item of a closed registry
  panics.
\<close>

theorem closed_registry_panics:
  assumes "rg_started m" and "fmlookup (rg_byTag m) tag = Some s" and "Registry_Close env m = (e, m', calls)"
  shows "fst (Registry_Remove kind env tag m') = Some (Panic [AStr (''invalid '' @ kind @ '' index'')])"
  using assms by (auto simp: Registry_Close_def Registry_Remove_def removeItem_def Let_def)

section \<open>Creation by tags\<close>

lemma without_tags:
  assumes "registryOk ss byTag" and "fmlookup byTag tag = Some s" and "without s ss = Inr ss'"
  shows "map sv_Tag ss' = filter (\<lambda>t. t \<noteq> tag) (map sv_Tag ss)"
proof -
  have s: "s \<in> set ss" "sv_Tag s = tag" "distinct (map sv_Tag ss)" using assms by (auto simp: registryOk_def)
  then obtain i where i: "serviceIndex s ss = Some i" "i < length ss" "ss ! i = s" using serviceIndex_split by blast
  then have ss: "ss = take i ss @ s # drop (Suc i) ss" using id_take_nth_drop [of i ss] by simp
  have d: "distinct (map sv_Tag (take i ss @ s # drop (Suc i) ss))" using s(3) ss by simp
  have ss': "ss' = take i ss @ drop (Suc i) ss" using assms(3) i by (simp add: without_def)
  have "\<forall>u\<in>set ss'. sv_Tag u \<noteq> tag" using d s(2) ss' by auto (metis imageI)+
  then have "filter (\<lambda>t. t \<noteq> tag) (map sv_Tag ss') = map sv_Tag ss'" by (auto simp: filter_id_conv)
  moreover have "filter (\<lambda>t. t \<noteq> tag) (map sv_Tag (take i ss @ s # drop (Suc i) ss)) = filter (\<lambda>t. t \<noteq> tag) (map sv_Tag ss')"
    using s(2) ss' by simp
  ultimately show ?thesis using ss by simp
qed

lemma new_tags:
  assumes "registryOk ss byTag" and "fmlookup byTag tag = None"
  shows "filter (\<lambda>t. t \<noteq> tag) (map sv_Tag ss) = map sv_Tag ss"
  using assms by (auto simp: filter_id_conv registryOk_def) (metis option.distinct(1))

lemma registry_create_tags:
  assumes "registryOk (rg_items m) (rg_byTag m)" and "createsTagged env" and "\<not> rg_started m"
    and "Registry_Create kind env tag ty m = (None, m', calls)"
  shows "registryOk (rg_items m') (rg_byTag m') \<and> \<not> rg_started m' \<and> calls = [] \<and>
    map sv_Tag (rg_items m') = filter (\<lambda>t. t \<noteq> tag) (map sv_Tag (rg_items m)) @ [tag]"
proof -
  obtain s where s: "me_Create env tag ty = Inr s" using assms(4) by (auto simp: Registry_Create_def split: sum.splits)
  then have t: "sv_Tag s = tag" using assms(2) by (auto simp: createsTagged_def)
  show ?thesis
  proof (cases "fmlookup (rg_byTag m) tag")
    case None
    then show ?thesis using assms(3,4) s t registry_add [OF assms(1), of s] new_tags [OF assms(1) None]
      by (auto simp: Registry_Create_def)
  next
    case (Some old)
    then obtain ss where w: "removeItem kind old (rg_items m) = Inr ss" "without old (rg_items m) = Inr ss"
      using removeItem_ok [OF assms(1)] by blast
    show ?thesis using assms(3,4) s t Some w registry_replace [OF assms(1), of s old ss] without_tags [OF assms(1) Some w(2)]
      by (auto simp: Registry_Create_def)
  qed
qed

lemma outbound_create_tags:
  assumes "registryOk (om_outbounds m) (om_outboundByTag m)" and "createsTagged env" and "\<not> om_started m"
    and "Manager_Create env tag ty m = (None, m', calls)"
  shows "registryOk (om_outbounds m') (om_outboundByTag m') \<and> \<not> om_started m' \<and> calls = [] \<and>
    map sv_Tag (om_outbounds m') = filter (\<lambda>t. t \<noteq> tag) (map sv_Tag (om_outbounds m)) @ [tag]"
proof -
  obtain s where s: "me_Create env tag ty = Inr s" "tag \<noteq> ''''"
    using assms(4) by (auto simp: Manager_Create_def split: sum.splits if_splits)
  then have t: "sv_Tag s = tag" using assms(2) by (auto simp: createsTagged_def)
  show ?thesis
  proof (cases "fmlookup (om_outboundByTag m) tag")
    case None
    then show ?thesis using assms(3,4) s t registry_add [OF assms(1), of s] new_tags [OF assms(1) None]
      by (auto simp: Manager_Create_def Let_def split: if_splits)
  next
    case (Some old)
    then obtain ss where w: "without old (om_outbounds m) = Inr ss" using without_ok [OF assms(1)] by blast
    show ?thesis using assms(3,4) s t Some w registry_replace [OF assms(1), of s old ss] without_tags [OF assms(1) Some w]
      by (auto simp: Manager_Create_def Let_def split: if_splits)
  qed
qed

lemma transport_create_tags:
  assumes "registryOk (tm_transports m) (tm_transportByTag m)" and "createsTagged env" and "\<not> tm_started m"
    and "TransportManager_Create env tag ty m = (None, m', calls)"
  shows "registryOk (tm_transports m') (tm_transportByTag m') \<and> \<not> tm_started m' \<and> calls = [] \<and>
    map sv_Tag (tm_transports m') = filter (\<lambda>t. t \<noteq> tag) (map sv_Tag (tm_transports m)) @ [tag]"
proof -
  obtain s where s: "me_Create env tag ty = Inr s" "tag \<noteq> ''''"
    using assms(4) by (auto simp: TransportManager_Create_def split: sum.splits if_splits)
  then have t: "sv_Tag s = tag" using assms(2) by (auto simp: createsTagged_def)
  show ?thesis
  proof (cases "fmlookup (tm_transportByTag m) tag")
    case None
    then show ?thesis using assms(3,4) s t registry_add [OF assms(1), of s] new_tags [OF assms(1) None]
      by (auto simp: TransportManager_Create_def Let_def split: if_splits)
  next
    case (Some old)
    then obtain ss where w: "without old (tm_transports m) = Inr ss" using without_ok [OF assms(1)] by blast
    show ?thesis using assms(3,4) s t Some w registry_replace [OF assms(1), of s old ss] without_tags [OF assms(1) Some w]
      by (auto simp: TransportManager_Create_def Let_def split: if_splits)
  qed
qed

text \<open>The tags of the options, and what the check accepts.\<close>

fun tagsFrom :: "nat \<Rightarrow> ItemOptions list \<Rightarrow> string list" where
  "tagsFrom i [] = []"
| "tagsFrom i (x # xs) = tagAt i x # tagsFrom (Suc i) xs"

lemma checkTags_ok: "checkTags what i xs seen = Inr seen' \<Longrightarrow> distinct seen \<Longrightarrow> distinct seen' \<and> seen' = rev (tagsFrom i xs) @ seen"
  by (induction what i xs seen rule: checkTags.induct) (auto split: if_splits)

lemma checkOptions_ok:
  assumes "checkOptions inbounds outbounds endpoints = Inr ()"
  shows "distinct (tagsFrom 0 inbounds) \<and> distinct (tagsFrom 0 outbounds @ tagsFrom 0 endpoints)"
proof -
  obtain s1 s2 s3 where c: "checkTags ''inbound'' 0 inbounds [] = Inr s1" "checkTags ''outbound/endpoint'' 0 outbounds [] = Inr s2"
    "checkTags ''outbound/endpoint'' 0 endpoints s2 = Inr s3"
    using assms by (auto simp: checkOptions_def checkInbounds_def checkOutbounds_def bindE_Inr_iff)
  show ?thesis using checkTags_ok [OF c(1)] checkTags_ok [OF c(2)] checkTags_ok [OF c(3)] by (auto simp: disjoint_iff)
qed

end
