(* ===== verification/Box_Lifecycle.thy ===== *)
theory Box_Lifecycle
  imports Registries
begin

text \<open>
  The life cycle of the program (\<open>box.go\<close>, \<open>adapter/lifecycle.go\<close>): creating the configured services,
  \<open>PreStart\<close>, \<open>Start\<close> and \<open>Close\<close>, over the managers of \<open>Managers\<close> and \<open>Registries\<close>.

  The constructors and the \<open>Start\<close> and \<open>Close\<close> methods behind the interfaces are the record \<open>BoxEnv\<close>; its
  methods return errors and do not panic. The network manager, the routers, the connection manager and
  the internal services are such objects as well. \<open>E.Append\<close> is modelled by the list of the errors it
  joins, the empty list being nil.
\<close>

section \<open>State\<close>

record BoxEnv =
  be_Create :: "string \<Rightarrow> string \<Rightarrow> string \<Rightarrow> Service result"
  be_Start :: "Service \<Rightarrow> nat \<Rightarrow> Error option"
  be_Close :: "Service \<Rightarrow> Error option"
  be_Direct :: "Service result"
  be_Local :: "Service result"
  be_RouterInitialize :: "Error option"
  be_DnsRouterInitialize :: "Error option"
  be_LogStart :: "Error option"
  be_LogClose :: "Error option"

record Box =
  bx_network :: Service
  bx_endpoint :: Registry
  bx_inbound :: Registry
  bx_outbound :: OutboundManager
  bx_service :: Registry
  bx_dnsTransport :: TransportManager
  bx_dnsRouter :: Service
  bx_connection :: Service
  bx_router :: Service
  bx_internalService :: "Service list"
  bx_done :: bool

text \<open>What a manager sees: its registry of types, the endpoint manager and its fallback.\<close>

definition managerEnv :: "BoxEnv \<Rightarrow> Box \<Rightarrow> string \<Rightarrow> ManagerEnv" where
  "managerEnv be b kind =
     \<lparr>me_Create = be_Create be kind, me_Start = be_Start be, me_Close = be_Close be,
      me_Endpoint = Registry_Get (bx_endpoint b), me_Endpoints = rg_items (bx_endpoint b),
      me_Fallback = (if kind = ''outbound'' then be_Direct be else be_Local be)\<rparr>"

type_synonym step = "Error option \<times> Box \<times> Call list"

fun andThen :: "step \<Rightarrow> (Box \<Rightarrow> step) \<Rightarrow> step" where
  "andThen (Some err, b, calls) f = (Some err, b, calls)"
| "andThen (None, b, calls) f = (let (err, b', calls') = f b in (err, b', calls @ calls'))"

section \<open>Creation\<close>

text \<open>The loops of \<open>New\<close> over the options; \<open>create\<close> is the call of the manager's \<open>Create\<close>.\<close>

fun createLoop :: "(string \<Rightarrow> string \<Rightarrow> Box \<Rightarrow> step) \<Rightarrow> string \<Rightarrow> nat \<Rightarrow> ItemOptions list \<Rightarrow> Box \<Rightarrow> step" where
  "createLoop create what i [] b = (None, b, [])"
| "createLoop create what i (x # xs) b =
     (case create (tagAt i x) (io_Type x) b of
        (Some err, b', calls) \<Rightarrow> (Some (E_Cause err [AStr (''initialize '' @ what @ ''[''), ANum (int i), AStr '']'']), b', calls)
      | (None, b', calls) \<Rightarrow> andThen (None, b', calls) (createLoop create what (Suc i) xs))"

definition createTransport :: "BoxEnv \<Rightarrow> string \<Rightarrow> string \<Rightarrow> Box \<Rightarrow> step" where
  "createTransport be tag ty b =
     (let (err, m, calls) = TransportManager_Create (managerEnv be b ''dns'') tag ty (bx_dnsTransport b) in (err, b\<lparr>bx_dnsTransport := m\<rparr>, calls))"

definition createEndpoint :: "BoxEnv \<Rightarrow> string \<Rightarrow> string \<Rightarrow> Box \<Rightarrow> step" where
  "createEndpoint be tag ty b =
     (let (err, m, calls) = EndpointManager_Create (managerEnv be b ''endpoint'') tag ty (bx_endpoint b) in (err, b\<lparr>bx_endpoint := m\<rparr>, calls))"

definition createInbound :: "BoxEnv \<Rightarrow> string \<Rightarrow> string \<Rightarrow> Box \<Rightarrow> step" where
  "createInbound be tag ty b =
     (let (err, m, calls) = InboundManager_Create (managerEnv be b ''inbound'') tag ty (bx_inbound b) in (err, b\<lparr>bx_inbound := m\<rparr>, calls))"

definition createOutbound :: "BoxEnv \<Rightarrow> string \<Rightarrow> string \<Rightarrow> Box \<Rightarrow> step" where
  "createOutbound be tag ty b =
     (let (err, m, calls) = Manager_Create (managerEnv be b ''outbound'') tag ty (bx_outbound b) in (err, b\<lparr>bx_outbound := m\<rparr>, calls))"

definition createService :: "BoxEnv \<Rightarrow> string \<Rightarrow> string \<Rightarrow> Box \<Rightarrow> step" where
  "createService be tag ty b =
     (let (err, m, calls) = ServiceManager_Create (managerEnv be b ''service'') tag ty (bx_service b) in (err, b\<lparr>bx_service := m\<rparr>, calls))"

record BoxOptions =
  bo_Servers :: "ItemOptions list"
  bo_Endpoints :: "ItemOptions list"
  bo_Inbounds :: "ItemOptions list"
  bo_Outbounds :: "ItemOptions list"
  bo_Services :: "ItemOptions list"
  bo_RouteFinal :: string
  bo_DnsFinal :: string

text \<open>
  \<open>New\<close> from the managers to the last service. The objects that are not registered under a tag are
  given.
\<close>

definition emptyBox :: "BoxOptions \<Rightarrow> Service \<Rightarrow> Service \<Rightarrow> Service \<Rightarrow> Service \<Rightarrow> Service list \<Rightarrow> Box" where
  "emptyBox options network dnsRouter connection router internalServices =
     \<lparr>bx_network = network, bx_endpoint = NewRegistry, bx_inbound = NewRegistry, bx_outbound = NewManager (bo_RouteFinal options),
      bx_service = NewRegistry, bx_dnsTransport = NewTransportManager (bo_DnsFinal options), bx_dnsRouter = dnsRouter,
      bx_connection = connection, bx_router = router, bx_internalService = internalServices, bx_done = False\<rparr>"

definition initializeWith :: "Error option \<Rightarrow> string \<Rightarrow> Box \<Rightarrow> step" where
  "initializeWith err what b = (map_option (\<lambda>e. E_Cause e [AStr what]) err, b, [])"

definition box_New :: "BoxEnv \<Rightarrow> BoxOptions \<Rightarrow> Box \<Rightarrow> step" where
  "box_New be options b =
     andThen (andThen (andThen (andThen (andThen (andThen
       (initializeWith (be_RouterInitialize be) ''initialize router'' b)
       (createLoop (createTransport be) ''DNS server'' 0 (bo_Servers options)))
       (initializeWith (be_DnsRouterInitialize be) ''initialize dns router''))
       (createLoop (createEndpoint be) ''endpoint'' 0 (bo_Endpoints options)))
       (createLoop (createInbound be) ''inbound'' 0 (bo_Inbounds options)))
       (createLoop (createOutbound be) ''outbound'' 0 (bo_Outbounds options)))
       (createLoop (createService be) ''service'' 0 (bo_Services options))"

section \<open>Start\<close>

datatype Part = P_network | P_dnsTransport | P_dnsRouter | P_connection | P_router | P_outbound | P_inbound | P_endpoint | P_service

definition startObject :: "BoxEnv \<Rightarrow> nat \<Rightarrow> Service \<Rightarrow> Box \<Rightarrow> step" where
  "startObject be stage s b = (be_Start be s stage, b, [StartCall s stage])"

fun startPart :: "BoxEnv \<Rightarrow> nat \<Rightarrow> Part \<Rightarrow> Box \<Rightarrow> step" where
  "startPart be stage P_network b = startObject be stage (bx_network b) b"
| "startPart be stage P_dnsRouter b = startObject be stage (bx_dnsRouter b) b"
| "startPart be stage P_connection b = startObject be stage (bx_connection b) b"
| "startPart be stage P_router b = startObject be stage (bx_router b) b"
| "startPart be stage P_dnsTransport b =
     (let (err, m, calls) = TransportManager_Start (managerEnv be b ''dns'') stage (bx_dnsTransport b) in (err, b\<lparr>bx_dnsTransport := m\<rparr>, calls))"
| "startPart be stage P_outbound b =
     (let (err, m, calls) = Manager_Start (managerEnv be b ''outbound'') stage (bx_outbound b) in (err, b\<lparr>bx_outbound := m\<rparr>, calls))"
| "startPart be stage P_inbound b =
     (let (err, m, calls) = InboundManager_Start (managerEnv be b ''inbound'') stage (bx_inbound b) in (err, b\<lparr>bx_inbound := m\<rparr>, calls))"
| "startPart be stage P_endpoint b =
     (let (err, m, calls) = EndpointManager_Start (managerEnv be b ''endpoint'') stage (bx_endpoint b) in (err, b\<lparr>bx_endpoint := m\<rparr>, calls))"
| "startPart be stage P_service b =
     (let (err, m, calls) = ServiceManager_Start (managerEnv be b ''service'') stage (bx_service b) in (err, b\<lparr>bx_service := m\<rparr>, calls))"

fun adapter_Start :: "BoxEnv \<Rightarrow> nat \<Rightarrow> Part list \<Rightarrow> Box \<Rightarrow> step" where
  "adapter_Start be stage [] b = (None, b, [])"
| "adapter_Start be stage (p # ps) b = andThen (startPart be stage p b) (adapter_Start be stage ps)"

text \<open>The name of an internal service is its tag.\<close>

definition adapter_StartNamed :: "BoxEnv \<Rightarrow> nat \<Rightarrow> Box \<Rightarrow> step" where
  "adapter_StartNamed be stage b =
     (let (err, calls) = startAll (managerEnv be b '''') (\<lambda>s. [AStr (stageName stage), AStr '' '', AStr (sv_Tag s)]) stage (bx_internalService b)
      in (err, b, calls))"

definition box_preStart :: "BoxEnv \<Rightarrow> Box \<Rightarrow> step" where
  "box_preStart be b =
     (case be_LogStart be of
        Some err \<Rightarrow> (Some (E_Cause err [AStr ''start logger'']), b, [])
      | None \<Rightarrow>
          andThen (andThen (adapter_StartNamed be 0 b)
            (adapter_Start be 0 [P_network, P_dnsTransport, P_dnsRouter, P_connection, P_router, P_outbound, P_inbound, P_endpoint, P_service]))
            (adapter_Start be 1 [P_outbound, P_dnsTransport, P_dnsRouter, P_network, P_connection, P_router]))"

definition box_start :: "BoxEnv \<Rightarrow> Box \<Rightarrow> step" where
  "box_start be b =
     andThen (andThen (andThen (andThen (andThen (andThen (box_preStart be b)
       (adapter_StartNamed be 1))
       (adapter_Start be 1 [P_inbound, P_endpoint, P_service]))
       (adapter_Start be 2 [P_outbound, P_network, P_dnsTransport, P_dnsRouter, P_connection, P_router, P_inbound, P_endpoint, P_service]))
       (adapter_StartNamed be 2))
       (adapter_Start be 3 [P_network, P_dnsTransport, P_dnsRouter, P_connection, P_router, P_outbound, P_inbound, P_endpoint, P_service]))
       (adapter_StartNamed be 3)"

section \<open>Close\<close>

definition appendError :: "Error list \<Rightarrow> Error option \<Rightarrow> string \<Rightarrow> Error list" where
  "appendError errs err name = (case err of None \<Rightarrow> errs | Some e \<Rightarrow> errs @ [E_Cause e [AStr ''close '', AStr name]])"

fun closePart :: "BoxEnv \<Rightarrow> Part \<Rightarrow> Box \<Rightarrow> step" where
  "closePart be P_network b = (be_Close be (bx_network b), b, [CloseCall (bx_network b)])"
| "closePart be P_dnsRouter b = (be_Close be (bx_dnsRouter b), b, [CloseCall (bx_dnsRouter b)])"
| "closePart be P_connection b = (be_Close be (bx_connection b), b, [CloseCall (bx_connection b)])"
| "closePart be P_router b = (be_Close be (bx_router b), b, [CloseCall (bx_router b)])"
| "closePart be P_dnsTransport b =
     (let (err, m, calls) = TransportManager_Close (managerEnv be b ''dns'') (bx_dnsTransport b) in (err, b\<lparr>bx_dnsTransport := m\<rparr>, calls))"
| "closePart be P_outbound b =
     (let (err, m, calls) = Manager_Close (managerEnv be b ''outbound'') (bx_outbound b) in (err, b\<lparr>bx_outbound := m\<rparr>, calls))"
| "closePart be P_inbound b =
     (let (err, m, calls) = Registry_Close (managerEnv be b ''inbound'') (bx_inbound b) in (err, b\<lparr>bx_inbound := m\<rparr>, calls))"
| "closePart be P_endpoint b =
     (let (err, m, calls) = Registry_Close (managerEnv be b ''endpoint'') (bx_endpoint b) in (err, b\<lparr>bx_endpoint := m\<rparr>, calls))"
| "closePart be P_service b =
     (let (err, m, calls) = Registry_Close (managerEnv be b ''service'') (bx_service b) in (err, b\<lparr>bx_service := m\<rparr>, calls))"

fun closeParts :: "BoxEnv \<Rightarrow> (string \<times> Part) list \<Rightarrow> Error list \<Rightarrow> Box \<Rightarrow> Error list \<times> Box \<times> Call list" where
  "closeParts be [] errs b = (errs, b, [])"
| "closeParts be ((name, p) # ps) errs b =
     (let (err, b1, calls1) = closePart be p b; (errs2, b2, calls2) = closeParts be ps (appendError errs err name) b1
      in (errs2, b2, calls1 @ calls2))"

definition closeOrder :: "(string \<times> Part) list" where
  "closeOrder =
     [(''service'', P_service), (''endpoint'', P_endpoint), (''inbound'', P_inbound), (''outbound'', P_outbound), (''router'', P_router),
      (''connection'', P_connection), (''dns-router'', P_dnsRouter), (''dns-transport'', P_dnsTransport), (''network'', P_network)]"

definition Box_Close :: "BoxEnv \<Rightarrow> Box \<Rightarrow> Error list \<times> Box \<times> Call list" where
  "Box_Close be b =
     (if bx_done b then ([E_Lib ''file already closed''], b, [])
      else let (errs, b1, calls) = closeParts be closeOrder [] (b\<lparr>bx_done := True\<rparr>);
               errs2 = foldl (\<lambda>errs s. appendError errs (be_Close be s) (sv_Tag s)) errs (bx_internalService b1)
           in (appendError errs2 (be_LogClose be) ''logger'', b1, calls @ map CloseCall (bx_internalService b1)))"

text \<open>
  \<open>PreStart\<close> and \<open>Start\<close>: an error closes the box again and its own errors are dropped; a panic passes
  through.
\<close>

fun closedOnError :: "BoxEnv \<Rightarrow> step \<Rightarrow> step" where
  "closedOnError be (None, b, calls) = (None, b, calls)"
| "closedOnError be (Some (Panic p), b, calls) = (Some (Panic p), b, calls)"
| "closedOnError be (Some err, b, calls) = (let (_, b', calls') = Box_Close be b in (Some err, b', calls @ calls'))"

definition Box_PreStart :: "BoxEnv \<Rightarrow> Box \<Rightarrow> step" where
  "Box_PreStart be b = closedOnError be (box_preStart be b)"

definition Box_Start :: "BoxEnv \<Rightarrow> Box \<Rightarrow> step" where
  "Box_Start be b = closedOnError be (box_start be b)"

end
