(* ===== verification/Box_Props.thy ===== *)
theory Box_Props
  imports Box_Lifecycle "HOL-Library.Multiset"
begin

text \<open>
  What the life cycle guarantees. The contract of a manager towards the program is the locale
  \<open>lifecycle_manager\<close>, interpreted for the five managers: a start calls the services it serves once, at
  its stage, and a close calls every listed service. From it follow the properties of \<open>Start\<close> and
  \<open>Close\<close>.
\<close>

section \<open>Calls of one stage\<close>

lemma startAll_ok: "startAll env nm stage ss = (None, cs) \<Longrightarrow> cs = map (\<lambda>s. StartCall s stage) ss"
  by (induction ss arbitrary: cs) (auto split: option.splits prod.splits)

lemma startAll_some: "startAll env nm stage ss = (e, cs) \<Longrightarrow> c \<in> set cs \<Longrightarrow> c \<in> (\<lambda>s. StartCall s stage) ` set ss"
  by (induction ss arbitrary: cs) (fastforce split: option.splits prod.splits)+

lemma startServices_complete:
  "startServices tx start byTag ss started = (e, order) \<Longrightarrow> distinct started \<Longrightarrow> set started \<subseteq> sv_Tag ` set ss \<Longrightarrow>
     distinct order \<and> set order \<subseteq> sv_Tag ` set ss \<and> (e = None \<longrightarrow> length order = length ss)"
proof (induction tx start byTag ss started rule: startServices.induct)
  case (1 tx start byTag ss started)
  obtain r started' cc where round: "startRound tx start ss started False = (r, started', cc)" by (metis prod_cases3)
  have "distinct started' \<and> set started' \<subseteq> sv_Tag ` set ss" using startRound_mono [OF round] 1(3,4) by auto
  then show ?case
    using 1(1) [OF round [symmetric]] 1(2) round
    by (subst (asm) startServices.simps) (auto split: option.splits if_splits)
qed

text \<open>A start without error implies that the tags are distinct.\<close>

lemma startServices_all:
  assumes "startServices tx start byTag ss [] = (None, order)"
  shows "distinct (map sv_Tag ss) \<and> mset order = mset (map sv_Tag ss)"
proof -
  have o: "distinct order" "set order \<subseteq> sv_Tag ` set ss" "length order = length ss"
    using startServices_complete [OF assms] by auto
  have "length ss \<le> card (sv_Tag ` set ss)" using o card_mono [OF _ o(2)] distinct_card [OF o(1)] by simp
  then have c: "card (set (map sv_Tag ss)) = length (map sv_Tag ss)" using card_length [of "map sv_Tag ss"] by simp
  then have d: "distinct (map sv_Tag ss)" by (rule card_distinct)
  have "set order = set (map sv_Tag ss)"
    using card_subset_eq [of "set (map sv_Tag ss)" "set order"] o c distinct_card [OF o(1)] by simp
  then show ?thesis using d o(1) set_eq_iff_mset_eq_distinct by blast
qed

definition dependencyCalls :: "Service list \<Rightarrow> string list \<Rightarrow> Call list" where
  "dependencyCalls ss order = map (\<lambda>t. StartCall (the (find (\<lambda>s. sv_Tag s = t) ss)) 1) order"

lemma find_tag: "distinct (map sv_Tag ss) \<Longrightarrow> s \<in> set ss \<Longrightarrow> find (\<lambda>u. sv_Tag u = sv_Tag s) ss = Some s"
  by (induction ss) (auto simp: image_iff)

lemma dependency_calls:
  assumes "startServices tx start byTag ss [] = (e, order)"
  shows "set (dependencyCalls ss order) \<subseteq> (\<lambda>s. StartCall s 1) ` set ss \<and>
    (e = None \<longrightarrow> mset (dependencyCalls ss order) = image_mset (\<lambda>s. StartCall s 1) (mset ss))"
proof (intro conjI impI subsetI)
  fix c assume "c \<in> set (dependencyCalls ss order)"
  then obtain t where t: "t \<in> set order" "c = StartCall (the (find (\<lambda>s. sv_Tag s = t) ss)) 1" by (auto simp: dependencyCalls_def)
  then have "\<exists>s\<in>set ss. sv_Tag s = t" using startServices_complete [OF assms] by auto
  then obtain s where "find (\<lambda>s. sv_Tag s = t) ss = Some s" "s \<in> set ss"
    by (cases "find (\<lambda>s. sv_Tag s = t) ss") (auto simp: find_None_iff find_Some_iff)
  then show "c \<in> (\<lambda>s. StartCall s 1) ` set ss" using t by simp
next
  assume "e = None"
  then have d: "distinct (map sv_Tag ss)" "mset order = image_mset sv_Tag (mset ss)" using startServices_all assms by auto
  then show "mset (dependencyCalls ss order) = image_mset (\<lambda>s. StartCall s 1) (mset ss)"
    by (auto simp: dependencyCalls_def image_mset.compositionality comp_def find_tag intro!: image_mset_cong)
qed

section \<open>The contract of managers\<close>

text \<open>
  \<open>served\<close> is what a start of a stage has to start: the items, except that the endpoints are served by
  the outbound manager in the stage \<open>start\<close>.
\<close>

locale lifecycle_manager =
  fixes start :: "nat \<Rightarrow> 'm \<Rightarrow> Error option \<times> 'm \<times> Call list"
    and close :: "'m \<Rightarrow> Error option \<times> 'm \<times> Call list"
    and items :: "'m \<Rightarrow> Service list"
    and served :: "nat \<Rightarrow> 'm \<Rightarrow> Service list"
    and started :: "'m \<Rightarrow> bool"
    and grows :: bool
  assumes start_all: "start stage m = (None, m', cs) \<Longrightarrow> mset cs = image_mset (\<lambda>s. StartCall s stage) (mset (served stage m'))"
    and start_some: "start stage m = (e, m', cs) \<Longrightarrow> c \<in> set cs \<Longrightarrow> c \<in> (\<lambda>s. StartCall s stage) ` set (served stage m')"
    and start_marks: "start stage m = (e, m', cs) \<Longrightarrow> started m'"
    and start_items: "start stage m = (e, m', cs) \<Longrightarrow> \<exists>new. items m' = items m @ new \<and> (new = [] \<or> grows \<and> stage = 1)"
    and close_all: "close m = (e, m', cs) \<Longrightarrow> cs = (if started m then map CloseCall (items m) else []) \<and> \<not> started m' \<and> e = None"
begin

lemma start_keeps: "start stage m = (e, m', cs) \<Longrightarrow> \<not> grows \<or> stage \<noteq> 1 \<Longrightarrow> items m' = items m"
  using start_items by fastforce

lemma start_extends: "start stage m = (e, m', cs) \<Longrightarrow> mset (items m) \<subseteq># mset (items m')"
  using start_items by fastforce

lemma started_is_closed:
  "start stage m = (e, m', cs) \<Longrightarrow> set (served stage m') \<subseteq> set (items m') \<Longrightarrow> StartCall s st \<in> set cs \<Longrightarrow>
     CloseCall s \<in> set (snd (snd (close m')))"
  using start_some start_marks close_all [of m'] by (cases "close m'") fastforce

end

lemma Registry_Start_manager:
  "lifecycle_manager (Registry_Start kind env) (Registry_Close env) rg_items (\<lambda>stage. rg_items) rg_started False"
  by unfold_locales
    (auto simp: Registry_Start_def Registry_Close_def Let_def split: if_splits prod.splits dest: startAll_ok startAll_some)

interpretation inbound: lifecycle_manager "InboundManager_Start env" "Registry_Close env" rg_items "\<lambda>stage. rg_items" rg_started False
  for env unfolding InboundManager_Start_def by (rule Registry_Start_manager)

interpretation svc: lifecycle_manager "ServiceManager_Start env" "Registry_Close env" rg_items "\<lambda>stage. rg_items" rg_started False
  for env unfolding ServiceManager_Start_def by (rule Registry_Start_manager)

interpretation endpoint: lifecycle_manager "EndpointManager_Start env" "Registry_Close env" rg_items
  "\<lambda>stage m. if stage = 1 then [] else rg_items m" rg_started False for env
  by unfold_locales
    (auto simp: EndpointManager_Start_def Registry_Close_def Let_def split: if_splits prod.splits dest: startAll_ok startAll_some)

text \<open>The managers with dependencies.\<close>

lemma startOutbounds_calls:
  assumes "startOutbounds start byTag ss = (e, order)"
  shows "set (dependencyCalls ss order) \<subseteq> (\<lambda>s. StartCall s 1) ` set ss \<and>
    (e = None \<longrightarrow> mset (dependencyCalls ss order) = image_mset (\<lambda>s. StartCall s 1) (mset ss))"
  using dependency_calls assms by (simp add: startOutbounds_def)

lemma startTransports_calls:
  assumes "startTransports start byTag ss = (e, order)"
  shows "set (dependencyCalls ss order) \<subseteq> (\<lambda>s. StartCall s 1) ` set ss \<and>
    (e = None \<longrightarrow> mset (dependencyCalls ss order) = image_mset (\<lambda>s. StartCall s 1) (mset ss))"
  using dependency_calls assms by (simp add: startTransports_def)

definition outboundsServed :: "ManagerEnv \<Rightarrow> nat \<Rightarrow> OutboundManager \<Rightarrow> Service list" where
  "outboundsServed env stage m = (if stage = 1 then om_outbounds m @ me_Endpoints env else om_outbounds m)"

lemma Manager_Start_outcome:
  assumes "Manager_Start env stage m = (e, m', cs)"
  shows "om_started m' \<and> (\<exists>new. om_outbounds m' = om_outbounds m @ new \<and> (new = [] \<or> stage = 1)) \<and>
    set cs \<subseteq> (\<lambda>s. StartCall s stage) ` set (outboundsServed env stage m') \<and>
    (e = None \<longrightarrow> mset cs = image_mset (\<lambda>s. StartCall s stage) (mset (outboundsServed env stage m')))"
proof (cases "stage = 1")
  case False
  then show ?thesis using assms
    by (auto simp: Manager_Start_def outboundsServed_def Let_def split: if_splits prod.splits dest: startAll_ok startAll_some)
next
  case True
  note calls = startOutbounds_calls [unfolded dependencyCalls_def]
  show ?thesis using assms True
    apply (simp add: Manager_Start_def outboundsServed_def Let_def split: if_splits prod.splits option.splits sum.splits)
    using calls by auto fastforce+
qed

lemma TransportManager_Start_outcome:
  assumes "TransportManager_Start env stage m = (e, m', cs)"
  shows "tm_started m' \<and> (\<exists>new. tm_transports m' = tm_transports m @ new \<and> (new = [] \<or> stage = 1)) \<and>
    set cs \<subseteq> (\<lambda>s. StartCall s stage) ` set (tm_transports m') \<and>
    (e = None \<longrightarrow> mset cs = image_mset (\<lambda>s. StartCall s stage) (mset (tm_transports m')))"
proof (cases "stage = 1")
  case False
  then show ?thesis using assms
    by (auto simp: TransportManager_Start_def Let_def split: if_splits prod.splits dest: startAll_ok startAll_some)
next
  case True
  note calls = startTransports_calls [unfolded dependencyCalls_def]
  show ?thesis using assms True
    apply (simp add: TransportManager_Start_def Let_def split: if_splits prod.splits option.splits sum.splits)
    using calls by auto fastforce+
qed

interpretation outbound: lifecycle_manager "Manager_Start env" "Manager_Close env" om_outbounds "outboundsServed env" om_started True
  for env
proof (unfold_locales, goal_cases)
  case (5 m e m' cs)
  then show ?case by (auto simp: Manager_Close_def split: if_splits)
qed (use Manager_Start_outcome in blast)+

interpretation transport: lifecycle_manager "TransportManager_Start env" "TransportManager_Close env" tm_transports
  "\<lambda>stage. tm_transports" tm_started True for env
proof (unfold_locales, goal_cases)
  case (5 m e m' cs)
  then show ?case by (auto simp: TransportManager_Close_def split: if_splits)
qed (use TransportManager_Start_outcome in blast)+

section \<open>The parts of the program\<close>

fun itemsOf :: "Part \<Rightarrow> Box \<Rightarrow> Service list" where
  "itemsOf P_network b = [bx_network b]"
| "itemsOf P_dnsRouter b = [bx_dnsRouter b]"
| "itemsOf P_connection b = [bx_connection b]"
| "itemsOf P_router b = [bx_router b]"
| "itemsOf P_dnsTransport b = tm_transports (bx_dnsTransport b)"
| "itemsOf P_outbound b = om_outbounds (bx_outbound b)"
| "itemsOf P_inbound b = rg_items (bx_inbound b)"
| "itemsOf P_endpoint b = rg_items (bx_endpoint b)"
| "itemsOf P_service b = rg_items (bx_service b)"

fun startedPart :: "Part \<Rightarrow> Box \<Rightarrow> bool" where
  "startedPart P_dnsTransport b = tm_started (bx_dnsTransport b)"
| "startedPart P_outbound b = om_started (bx_outbound b)"
| "startedPart P_inbound b = rg_started (bx_inbound b)"
| "startedPart P_endpoint b = rg_started (bx_endpoint b)"
| "startedPart P_service b = rg_started (bx_service b)"
| "startedPart p b = True"

definition servedOf :: "nat \<Rightarrow> Part \<Rightarrow> Box \<Rightarrow> Service list" where
  "servedOf stage p b =
     (if stage = 1 \<and> p = P_outbound then itemsOf P_outbound b @ itemsOf P_endpoint b
      else if stage = 1 \<and> p = P_endpoint then [] else itemsOf p b)"

lemma endpoints_not_started: "EndpointManager_Start env (Suc 0) m = (e, m', cs) \<Longrightarrow> cs = []"
  by (auto simp: EndpointManager_Start_def Let_def split: if_splits)

lemma startPart_calls:
  assumes "startPart be stage p b = (e, b', cs)"
  shows "set cs \<subseteq> (\<lambda>s. StartCall s stage) ` set (servedOf stage p b') \<and> startedPart p b' \<and>
    (e = None \<longrightarrow> mset cs = image_mset (\<lambda>s. StartCall s stage) (mset (servedOf stage p b')))"
  using assms
  by (cases p)
    (auto simp: startObject_def servedOf_def outboundsServed_def managerEnv_def split: prod.splits if_splits
       dest: endpoints_not_started inbound.start_all inbound.start_some inbound.start_marks endpoint.start_all endpoint.start_some endpoint.start_marks
         svc.start_all svc.start_some svc.start_marks outbound.start_all outbound.start_some outbound.start_marks
         transport.start_all transport.start_some transport.start_marks)

lemma startPart_other:
  assumes "startPart be stage p b = (e, b', cs)"
  shows "q \<noteq> p \<Longrightarrow> itemsOf q b' = itemsOf q b" and "q \<noteq> p \<Longrightarrow> startedPart q b' = startedPart q b"
  using assms by (cases p; cases q; auto simp: startObject_def split: prod.splits)+

lemma startPart_frame:
  assumes "startPart be stage p b = (e, b', cs)"
  shows "bx_internalService b' = bx_internalService b \<and> bx_done b' = bx_done b"
  using assms by (cases p) (auto simp: startObject_def split: prod.splits)

lemma startPart_items:
  assumes "startPart be stage p b = (e, b', cs)"
  shows "mset (itemsOf p b) \<subseteq># mset (itemsOf p b')"
    and "stage \<noteq> 1 \<or> p \<notin> {P_outbound, P_dnsTransport} \<Longrightarrow> itemsOf p b' = itemsOf p b"
  using assms
  by (cases p;
    auto simp: startObject_def split: prod.splits
       dest: inbound.start_keeps endpoint.start_keeps svc.start_keeps outbound.start_keeps transport.start_keeps
         outbound.start_extends transport.start_extends)+

lemma startPart_mono:
  assumes "startPart be stage p b = (e, b', cs)"
  shows "mset (itemsOf q b) \<subseteq># mset (itemsOf q b')" and "startedPart q b \<Longrightarrow> startedPart q b'"
    and "stage \<noteq> 1 \<or> q \<notin> {P_outbound, P_dnsTransport} \<Longrightarrow> itemsOf q b' = itemsOf q b"
  using startPart_items [OF assms] startPart_other [OF assms, of q] startPart_calls [OF assms] by (cases "q = p"; force)+

lemma andThen_None: "andThen r f = (None, b', cs) \<longleftrightarrow> (\<exists>b1 c1 c2. r = (None, b1, c1) \<and> f b1 = (None, b', c2) \<and> cs = c1 @ c2)"
  by (cases r; cases "fst r"; auto split: prod.splits)

lemma andThen_cases:
  assumes "andThen r f = (e, b', cs)"
  obtains err where "r = (Some err, b', cs)" "e = Some err"
  | b1 c1 c2 where "r = (None, b1, c1)" "f b1 = (e, b', c2)" "cs = c1 @ c2"
  using assms by (cases r; cases "fst r"; auto split: prod.splits)

lemma adapter_Start_mono:
  "adapter_Start be stage ps b = (e, b', cs) \<Longrightarrow>
     mset (itemsOf q b) \<subseteq># mset (itemsOf q b') \<and> (startedPart q b \<longrightarrow> startedPart q b') \<and>
     (stage \<noteq> 1 \<or> q \<notin> {P_outbound, P_dnsTransport} \<longrightarrow> itemsOf q b' = itemsOf q b) \<and>
     (q \<notin> set ps \<longrightarrow> itemsOf q b' = itemsOf q b) \<and>
     bx_internalService b' = bx_internalService b \<and> bx_done b' = bx_done b"
proof (induction ps arbitrary: b cs)
  case (Cons p ps)
  from Cons.prems obtain e1 b1 c1 where p: "startPart be stage p b = (e1, b1, c1)" by (metis prod_cases3)
  note m = startPart_mono [OF p, of q] startPart_other [OF p, of q] startPart_frame [OF p]
  have "andThen (startPart be stage p b) (adapter_Start be stage ps) = (e, b', cs)" using Cons.prems by simp
  then show ?case
  proof (cases rule: andThen_cases)
    case (1 err)
    then show ?thesis using p m by auto
  next
    case (2 b1 c1 c2)
    then show ?thesis using p m Cons.IH [OF 2(2)] by (auto intro: subset_mset.trans)
  qed
qed simp

lemma servedOf_later:
  assumes "adapter_Start be stage ps b = (e, b', cs)" and "p \<notin> set ps"
  shows "servedOf stage p b' = servedOf stage p b"
  using adapter_Start_mono [OF assms(1), of p] adapter_Start_mono [OF assms(1), of P_endpoint] assms(2)
  by (auto simp: servedOf_def)

lemma adapter_Start_calls:
  "adapter_Start be stage ps b = (None, b', cs) \<Longrightarrow> distinct ps \<Longrightarrow>
     mset cs = image_mset (\<lambda>s. StartCall s stage) (mset (concat (map (\<lambda>p. servedOf stage p b') ps)))"
proof (induction ps arbitrary: b cs)
  case (Cons p ps)
  from Cons.prems(1) obtain b1 c1 c2 where
    p: "startPart be stage p b = (None, b1, c1)" and ps: "adapter_Start be stage ps b1 = (None, b', c2)" and cs: "cs = c1 @ c2"
    by (auto simp: andThen_None)
  then show ?case using startPart_calls [OF p] servedOf_later [OF ps, of p] Cons.IH [OF ps] Cons.prems(2) by simp
qed simp

lemma StartNamed_calls:
  "adapter_StartNamed be stage b = (e, b', cs) \<Longrightarrow> b' = b \<and>
     (e = None \<longrightarrow> mset cs = image_mset (\<lambda>s. StartCall s stage) (mset (bx_internalService b))) \<and>
     (c \<in> set cs \<longrightarrow> c \<in> (\<lambda>s. StartCall s stage) ` set (bx_internalService b))"
  by (auto simp: adapter_StartNamed_def split: prod.splits dest: startAll_ok startAll_some)

section \<open>The stages of a start\<close>

text \<open>The stages at which a service was started, in order.\<close>

fun stagesOf :: "Service \<Rightarrow> Call list \<Rightarrow> nat list" where
  "stagesOf s [] = []"
| "stagesOf s (StartCall t stage # cs) = (if t = s then stage # stagesOf s cs else stagesOf s cs)"
| "stagesOf s (CloseCall t # cs) = stagesOf s cs"

lemma stagesOf_append [simp]: "stagesOf s (xs @ ys) = stagesOf s xs @ stagesOf s ys"
  by (induction s xs rule: stagesOf.induct) auto

lemma stagesOf_count: "set cs \<subseteq> range (\<lambda>s. StartCall s k) \<Longrightarrow> stagesOf s cs = replicate (count (mset cs) (StartCall s k)) k"
  by (induction s cs rule: stagesOf.induct) auto

lemma count_StartCall: "count (image_mset (\<lambda>s. StartCall s k) M) (StartCall s k) = count M s"
  by (induction M) auto

lemma stagesOf_stage:
  assumes "mset cs = image_mset (\<lambda>s. StartCall s k) (mset ss)"
  shows "stagesOf s cs = replicate (count (mset ss) s) k"
proof -
  have "set cs \<subseteq> range (\<lambda>s. StartCall s k)" using mset_eq_setD [of cs "map (\<lambda>s. StartCall s k) ss"] assms by auto
  moreover have "count (mset cs) (StartCall s k) = count (mset ss) s" by (simp only: assms count_StartCall)
  ultimately show ?thesis using stagesOf_count by metis
qed

definition allParts :: "Part list" where
  "allParts = [P_network, P_dnsTransport, P_dnsRouter, P_connection, P_router, P_outbound, P_inbound, P_endpoint, P_service]"

definition boxServices :: "Box \<Rightarrow> Service list" where
  "boxServices b = bx_internalService b @ concat (map (\<lambda>p. itemsOf p b) allParts)"

lemma mset_concat_mono:
  "(\<And>p. mset (f p) \<subseteq># mset (g p)) \<Longrightarrow> mset (concat (map f ps)) \<subseteq># mset (concat (map g ps))"
  by (induction ps) (auto intro: subset_mset.add_mono)

lemma box_preStart_None:
  assumes "box_preStart be b = (None, b', cs)"
  obtains b0 n0 b1 a0 a1 where "adapter_StartNamed be 0 b = (None, b0, n0)"
    and "adapter_Start be 0 allParts b0 = (None, b1, a0)"
    and "adapter_Start be 1 [P_outbound, P_dnsTransport, P_dnsRouter, P_network, P_connection, P_router] b1 = (None, b', a1)"
    and "cs = (n0 @ a0) @ a1"
proof -
  have "be_LogStart be = None" using assms by (auto simp: box_preStart_def simp del: adapter_Start.simps split: option.splits)
  then have "andThen (andThen (adapter_StartNamed be 0 b) (adapter_Start be 0 allParts))
    (adapter_Start be 1 [P_outbound, P_dnsTransport, P_dnsRouter, P_network, P_connection, P_router]) = (None, b', cs)"
    using assms by (simp add: box_preStart_def allParts_def del: adapter_Start.simps)
  then show thesis using that unfolding andThen_None by blast
qed

text \<open>A start without error in its phases; the lists only grow in the second one.\<close>

lemma box_start_phases:
  assumes "box_start be b = (None, b', cs)"
  obtains c0 c1 c1' c2 c3 where "cs = c0 @ c1 @ c1' @ c2 @ c3"
    and "mset c0 = image_mset (\<lambda>s. StartCall s 0) (mset (boxServices b))"
    and "mset c1 = image_mset (\<lambda>s. StartCall s 1) (mset (concat (map (\<lambda>p. itemsOf p b')
           [P_outbound, P_endpoint, P_dnsTransport, P_dnsRouter, P_network, P_connection, P_router])))"
    and "mset c1' = image_mset (\<lambda>s. StartCall s 1) (mset (bx_internalService b' @ itemsOf P_inbound b' @ itemsOf P_service b'))"
    and "mset c2 = image_mset (\<lambda>s. StartCall s 2) (mset (boxServices b'))"
    and "mset c3 = image_mset (\<lambda>s. StartCall s 3) (mset (boxServices b'))"
    and "mset (boxServices b) \<subseteq># mset (boxServices b')"
proof -
  from assms obtain b2 pre b3 n1 b4 a1' b5 a2 b6 n2 b7 a3 n3 where
    pre: "box_preStart be b = (None, b2, pre)" and
    n1: "adapter_StartNamed be 1 b2 = (None, b3, n1)" and
    a1': "adapter_Start be 1 [P_inbound, P_endpoint, P_service] b3 = (None, b4, a1')" and
    a2: "adapter_Start be 2 [P_outbound, P_network, P_dnsTransport, P_dnsRouter, P_connection, P_router, P_inbound, P_endpoint, P_service] b4 = (None, b5, a2)" and
    n2: "adapter_StartNamed be 2 b5 = (None, b6, n2)" and
    a3: "adapter_Start be 3 allParts b6 = (None, b7, a3)" and
    n3: "adapter_StartNamed be 3 b7 = (None, b', n3)" and
    cs': "cs = (((((pre @ n1) @ a1') @ a2) @ n2) @ a3) @ n3"
    unfolding box_start_def allParts_def [symmetric] andThen_None by blast
  from box_preStart_None [OF pre] obtain b0 n0 b1 a0 a1 where
    n0: "adapter_StartNamed be 0 b = (None, b0, n0)" and
    a0: "adapter_Start be 0 allParts b0 = (None, b1, a0)" and
    a1: "adapter_Start be 1 [P_outbound, P_dnsTransport, P_dnsRouter, P_network, P_connection, P_router] b1 = (None, b2, a1)" and
    "pre = (n0 @ a0) @ a1" by blast
  then have cs: "cs = (n0 @ a0) @ a1 @ (n1 @ a1') @ (a2 @ n2) @ a3 @ n3" using cs' by simp
  have eq: "b0 = b" "b3 = b2" "b6 = b5" "b' = b7" using StartNamed_calls n0 n1 n2 n3 by blast+
  note m0 = adapter_Start_mono [OF a0] and m1 = adapter_Start_mono [OF a1] and m1' = adapter_Start_mono [OF a1']
    and m2 = adapter_Start_mono [OF a2] and m3 = adapter_Start_mono [OF a3]
  have i1: "itemsOf p b1 = itemsOf p b" for p using m0 [of p] eq by simp
  have i4: "itemsOf p b4 = itemsOf p b2" for p using m1' [of p] eq(2) by auto
  have i5: "itemsOf p b5 = itemsOf p b2" for p using m2 [of p] i4 by simp
  have i7: "itemsOf p b7 = itemsOf p b2" for p using m3 [of p] i5 eq by simp
  have int: "bx_internalService b1 = bx_internalService b" "bx_internalService b2 = bx_internalService b"
    "bx_internalService b5 = bx_internalService b" "bx_internalService b7 = bx_internalService b"
    using m0 m1 m1' m2 m3 eq by simp_all
  have sub: "mset (itemsOf p b) \<subseteq># mset (itemsOf p b2)" for p using m1 [of p] i1 by simp
  show thesis
  proof (rule that [of "n0 @ a0" a1 "n1 @ a1'" "a2 @ n2" "a3 @ n3"])
    show "mset (boxServices b) \<subseteq># mset (boxServices b')"
      using mset_concat_mono [of "\<lambda>p. itemsOf p b" "\<lambda>p. itemsOf p b2" allParts] sub eq(4) by (simp add: boxServices_def i7 int)
  qed (use cs StartNamed_calls n0 n1 n2 n3 adapter_Start_calls [OF a0] adapter_Start_calls [OF a1] adapter_Start_calls [OF a1']
        adapter_Start_calls [OF a2] adapter_Start_calls [OF a3] in
      \<open>auto simp: eq boxServices_def allParts_def servedOf_def i1 i4 i5 i7 int simp del: itemsOf.simps\<close>)
qed

lemma start_stages:
  assumes "box_start be b = (None, b', cs)"
  shows "stagesOf s cs = replicate (count (mset (boxServices b)) s) 0 @
    concat (map (\<lambda>k. replicate (count (mset (boxServices b')) s) k) [1, 2, 3])"
proof -
  from box_start_phases [OF assms] obtain c0 c1 c1' c2 c3 where cs: "cs = c0 @ c1 @ c1' @ c2 @ c3"
    and c: "mset c0 = image_mset (\<lambda>s. StartCall s 0) (mset (boxServices b))"
      "mset c1 = image_mset (\<lambda>s. StartCall s 1) (mset (concat (map (\<lambda>p. itemsOf p b')
           [P_outbound, P_endpoint, P_dnsTransport, P_dnsRouter, P_network, P_connection, P_router])))"
      "mset c1' = image_mset (\<lambda>s. StartCall s 1) (mset (bx_internalService b' @ itemsOf P_inbound b' @ itemsOf P_service b'))"
      "mset c2 = image_mset (\<lambda>s. StartCall s 2) (mset (boxServices b'))"
      "mset c3 = image_mset (\<lambda>s. StartCall s 3) (mset (boxServices b'))" by metis
  have "mset (boxServices b') = mset (concat (map (\<lambda>p. itemsOf p b')
      [P_outbound, P_endpoint, P_dnsTransport, P_dnsRouter, P_network, P_connection, P_router])) +
    mset (bx_internalService b' @ itemsOf P_inbound b' @ itemsOf P_service b')"
    by (simp add: boxServices_def allParts_def ac_simps)
  then have "stagesOf s c1 @ stagesOf s c1' = replicate (count (mset (boxServices b')) s) 1"
    using stagesOf_stage [OF c(2)] stagesOf_stage [OF c(3)] by (simp add: replicate_add)
  then show ?thesis
    using stagesOf_stage [OF c(1)] stagesOf_stage [OF c(4)] stagesOf_stage [OF c(5)] by (simp add: cs)
qed

section \<open>Closing\<close>

definition closedOf :: "Part \<Rightarrow> Box \<Rightarrow> Service list" where
  "closedOf p b = (if startedPart p b then itemsOf p b else [])"

definition live :: "Box \<Rightarrow> Service list" where
  "live b = concat (map (\<lambda>x. closedOf (snd x) b) closeOrder) @ bx_internalService b"

lemma closePart_calls:
  assumes "closePart be p b = (e, b', cs)"
  shows "cs = map CloseCall (closedOf p b)" and "q \<noteq> p \<Longrightarrow> closedOf q b' = closedOf q b"
    and "bx_internalService b' = bx_internalService b" and "bx_done b' = bx_done b"
  using assms
  by (cases p; cases q;
    auto simp: closedOf_def split: prod.splits if_splits
      dest: inbound.close_all outbound.close_all transport.close_all)+

lemma closeParts_calls:
  "closeParts be ps errs b = (errs', b', cs) \<Longrightarrow> distinct (map snd ps) \<Longrightarrow>
     cs = map CloseCall (concat (map (\<lambda>x. closedOf (snd x) b) ps)) \<and>
     bx_internalService b' = bx_internalService b \<and> bx_done b' = bx_done b"
proof (induction be ps errs b arbitrary: cs rule: closeParts.induct)
  case (2 be name p ps errs b)
  obtain e b1 c1 where p: "closePart be p b = (e, b1, c1)" by (metis prod_cases3)
  with 2(2) obtain c2 where ps: "closeParts be ps (appendError errs e name) b1 = (errs', b', c2)" and cs: "cs = c1 @ c2"
    by (auto split: prod.splits)
  have "concat (map (\<lambda>x. closedOf (snd x) b1) ps) = concat (map (\<lambda>x. closedOf (snd x) b) ps)"
  proof -
    have "closedOf (snd x) b1 = closedOf (snd x) b" if "x \<in> set ps" for x
      using 2(3) that by (intro closePart_calls(2) [OF p]) (auto intro: rev_image_eqI)
    then show ?thesis by (simp cong: map_cong)
  qed
  then show ?case using 2(1) [OF p [symmetric] refl refl ps] 2(3) cs closePart_calls(1,3,4) [OF p] by simp
qed simp

lemma Box_Close_calls:
  assumes "\<not> bx_done b" and "Box_Close be b = (errs, b', cs)"
  shows "cs = map CloseCall (live b) \<and> bx_done b'"
proof -
  obtain e b1 c1 where p: "closeParts be closeOrder [] (b\<lparr>bx_done := True\<rparr>) = (e, b1, c1)" by (metis prod_cases3)
  have "closedOf q (b\<lparr>bx_done := True\<rparr>) = closedOf q b" for q by (cases q) (simp_all add: closedOf_def)
  then show ?thesis using closeParts_calls [OF p] assms p by (auto simp: Box_Close_def live_def closeOrder_def)
qed

text \<open>Every service that a start has called, with or without success, is one that \<open>Close\<close> calls.\<close>

lemma ex_Part:
  "(\<exists>p. Q p) \<longleftrightarrow> Q P_network \<or> Q P_dnsTransport \<or> Q P_dnsRouter \<or> Q P_connection \<or> Q P_router \<or> Q P_outbound \<or>
     Q P_inbound \<or> Q P_endpoint \<or> Q P_service"
  by (metis Part.exhaust)

lemma live_iff: "s \<in> set (live b) \<longleftrightarrow> s \<in> set (bx_internalService b) \<or> (\<exists>p. startedPart p b \<and> s \<in> set (itemsOf p b))"
  unfolding ex_Part by (simp add: live_def closedOf_def closeOrder_def) blast

definition accounted :: "Box \<Rightarrow> step \<Rightarrow> bool" where
  "accounted b r = (case r of (e, b', cs) \<Rightarrow>
     set (live b) \<subseteq> set (live b') \<and> (\<forall>s stage. StartCall s stage \<in> set cs \<longrightarrow> s \<in> set (live b')) \<and>
     bx_done b' = bx_done b \<and> (startedPart P_endpoint b \<longrightarrow> startedPart P_endpoint b'))"

lemma accounted_andThen:
  assumes "accounted b r" and "\<And>b1 c1. r = (None, b1, c1) \<Longrightarrow> accounted b1 (f b1)"
  shows "accounted b (andThen r f)"
proof -
  obtain e b' cs where a: "andThen r f = (e, b', cs)" by (metis prod_cases3)
  then show ?thesis
  proof (cases rule: andThen_cases)
    case (1 err)
    then show ?thesis using assms(1) a by simp
  next
    case (2 b1 c1 c2)
    then show ?thesis using assms(1) assms(2) [OF 2(1)] a by (simp add: accounted_def del: startedPart.simps) blast
  qed
qed

lemma accounted_startPart:
  assumes "stage = 1 \<and> p = P_outbound \<longrightarrow> startedPart P_endpoint b"
  shows "accounted b (startPart be stage p b)"
proof -
  obtain e b' cs where p: "startPart be stage p b = (e, b', cs)" by (metis prod_cases3)
  note mono = startPart_mono [OF p] and frame = startPart_frame [OF p]
  have "s \<in> set (live b')" if "StartCall s st \<in> set cs" for s st
  proof -
    have s: "s \<in> set (servedOf stage p b')" "startedPart p b'" using startPart_calls [OF p] that by auto
    then show ?thesis using assms mono(2) [of P_endpoint] unfolding live_iff servedOf_def
      by (auto simp del: itemsOf.simps startedPart.simps split: if_splits)
  qed
  moreover have "set (live b) \<subseteq> set (live b')"
  proof (intro subsetI)
    fix s assume "s \<in> set (live b)"
    moreover have "set (itemsOf q b) \<subseteq> set (itemsOf q b')" for q using set_mset_mono [OF mono(1) [of q]] by simp
    ultimately show "s \<in> set (live b')" unfolding live_iff using mono(2) frame by auto
  qed
  ultimately show ?thesis using p frame mono(2) [of P_endpoint] by (auto simp: accounted_def)
qed

lemma accounted_refl: "accounted b (None, b, [])"
  by (simp add: accounted_def)

lemma accounted_adapter_Start:
  "(stage = 1 \<and> P_outbound \<in> set ps \<longrightarrow> startedPart P_endpoint b) \<Longrightarrow> accounted b (adapter_Start be stage ps b)"
proof (induction ps arbitrary: b)
  case (Cons p ps)
  show ?case unfolding adapter_Start.simps
  proof (rule accounted_andThen)
    show "accounted b (startPart be stage p b)" using Cons.prems by (auto intro: accounted_startPart)
    then show "accounted b1 (adapter_Start be stage ps b1)" if "startPart be stage p b = (None, b1, c1)" for b1 c1
      using that Cons.prems by (intro Cons.IH) (auto simp: accounted_def)
  qed
qed (simp add: accounted_refl)

lemma accounted_StartNamed: "accounted b (adapter_StartNamed be stage b)"
proof -
  obtain e b' cs where n: "adapter_StartNamed be stage b = (e, b', cs)" by (metis prod_cases3)
  then show ?thesis using StartNamed_calls [OF n] by (auto simp: accounted_def live_iff)
qed

lemma adapter_Start_marks: "adapter_Start be stage ps b = (None, b', cs) \<Longrightarrow> p \<in> set ps \<Longrightarrow> startedPart p b'"
proof (induction ps arbitrary: b cs)
  case (Cons q ps)
  then obtain b1 c1 c2 where "startPart be stage q b = (None, b1, c1)" "adapter_Start be stage ps b1 = (None, b', c2)"
    by (auto simp: andThen_None)
  then show ?case using Cons startPart_calls adapter_Start_mono by auto
qed simp

lemma accounted_preStart: "accounted b (box_preStart be b)"
proof (cases "be_LogStart be")
  case None
  have "startedPart P_endpoint b1" if "andThen (adapter_StartNamed be 0 b) (adapter_Start be 0 allParts) = (None, b1, c1)" for b1 c1
    using that adapter_Start_marks [of be 0 allParts _ b1 _ P_endpoint] unfolding andThen_None by (auto simp: allParts_def)
  then show ?thesis
    unfolding box_preStart_def None option.case allParts_def [symmetric]
    by (intro accounted_andThen accounted_StartNamed accounted_adapter_Start) auto
qed (simp add: box_preStart_def accounted_def)

lemma accounted_start: "accounted b (box_start be b)"
  unfolding box_start_def
  by (intro accounted_andThen accounted_preStart accounted_StartNamed accounted_adapter_Start) simp_all

section \<open>Creation\<close>

text \<open>A new program: no manager is started, and the registries are consistent.\<close>

definition boxFresh :: "Box \<Rightarrow> bool" where
  "boxFresh b =
     (registryOk (rg_items (bx_endpoint b)) (rg_byTag (bx_endpoint b)) \<and> \<not> rg_started (bx_endpoint b) \<and>
      registryOk (rg_items (bx_inbound b)) (rg_byTag (bx_inbound b)) \<and> \<not> rg_started (bx_inbound b) \<and>
      registryOk (rg_items (bx_service b)) (rg_byTag (bx_service b)) \<and> \<not> rg_started (bx_service b) \<and>
      registryOk (om_outbounds (bx_outbound b)) (om_outboundByTag (bx_outbound b)) \<and> \<not> om_started (bx_outbound b) \<and>
      registryOk (tm_transports (bx_dnsTransport b)) (tm_transportByTag (bx_dnsTransport b)) \<and> \<not> tm_started (bx_dnsTransport b))"

definition boxTags :: "Part \<Rightarrow> Box \<Rightarrow> string list" where
  "boxTags p b = map sv_Tag (itemsOf p b)"

text \<open>
  The contract of a \<open>Create\<close> towards the loops of \<open>New\<close>: the new service is appended under its tag, an
  older one of that tag is dropped, and nothing else changes.
\<close>

text \<open>A registry of types creates a service with the tag it is given.\<close>

definition createsByTag :: "BoxEnv \<Rightarrow> bool" where
  "createsByTag be = (\<forall>kind tag ty s. be_Create be kind tag ty = Inr s \<longrightarrow> sv_Tag s = tag)"

lemma createsByTag_managers: "createsByTag be \<Longrightarrow> createsTagged (managerEnv be b kind)"
  by (simp add: createsByTag_def createsTagged_def managerEnv_def)

lemma remdups_snoc: "remdups (ts @ [t]) = filter (\<lambda>u. u \<noteq> t) (remdups ts) @ [t]"
  by (induction ts) auto

locale creation =
  fixes be :: BoxEnv and create :: "string \<Rightarrow> string \<Rightarrow> Box \<Rightarrow> step" and part :: Part
  assumes create_step: "create tag ty b = (None, b', cs) \<Longrightarrow> createsByTag be \<Longrightarrow> boxFresh b \<Longrightarrow>
      boxFresh b' \<and> cs = [] \<and> boxTags part b' = filter (\<lambda>t. t \<noteq> tag) (boxTags part b) @ [tag] \<and> bx_done b' = bx_done b"
    and create_other: "create tag ty b = (None, b', cs) \<Longrightarrow> q \<noteq> part \<Longrightarrow> itemsOf q b' = itemsOf q b"
begin

lemma loop_tags:
  "createLoop create what i xs b = (None, b', cs) \<Longrightarrow> createsByTag be \<Longrightarrow> boxFresh b \<Longrightarrow>
     boxFresh b' \<and> cs = [] \<and> bx_done b' = bx_done b \<and>
     (\<forall>ts. boxTags part b = remdups ts \<longrightarrow> boxTags part b' = remdups (ts @ tagsFrom i xs)) \<and>
     (\<forall>q. q \<noteq> part \<longrightarrow> itemsOf q b' = itemsOf q b)"
proof (induction xs arbitrary: i b cs)
  case (Cons x xs)
  obtain e b1 c1 where c: "create (tagAt i x) (io_Type x) b = (e, b1, c1)" by (metis prod_cases3)
  with Cons.prems(1) have e: "e = None" by (cases e) auto
  then obtain c2 where l: "createLoop create what (Suc i) xs b1 = (None, b', c2)" and cs: "cs = c1 @ c2"
    using Cons.prems(1) c by (auto split: prod.splits)
  note step = create_step [OF c [unfolded e] Cons.prems(2,3)] create_other [OF c [unfolded e]]
  have ih: "boxTags part b1 = remdups ts \<longrightarrow> boxTags part b' = remdups (ts @ tagsFrom (Suc i) xs)" for ts
    using Cons.IH [OF l Cons.prems(2)] step by blast
  have "boxTags part b' = remdups (ts @ tagsFrom i (x # xs))" if "boxTags part b = remdups ts" for ts
    using ih [of "ts @ [tagAt i x]"] step that by (simp add: remdups_snoc)
  then show ?case using Cons.IH [OF l Cons.prems(2)] step cs by auto
qed simp

end

interpretation transports: creation be "createTransport be" P_dnsTransport for be
proof (unfold_locales, goal_cases)
  case (1 tag ty b b' cs)
  then obtain m where m: "TransportManager_Create (managerEnv be b ''dns'') tag ty (bx_dnsTransport b) = (None, m, cs)" "b' = b\<lparr>bx_dnsTransport := m\<rparr>"
    by (auto simp: createTransport_def split: prod.splits)
  then show ?case using transport_create_tags [OF _ createsByTag_managers [OF 1(2)] _ m(1)] 1(3) by (simp add: boxFresh_def boxTags_def)
next
  case (2 tag ty b b' cs q)
  then show ?case by (cases q) (auto simp: createTransport_def split: prod.splits)
qed

interpretation outbounds: creation be "createOutbound be" P_outbound for be
proof (unfold_locales, goal_cases)
  case (1 tag ty b b' cs)
  then obtain m where m: "Manager_Create (managerEnv be b ''outbound'') tag ty (bx_outbound b) = (None, m, cs)" "b' = b\<lparr>bx_outbound := m\<rparr>"
    by (auto simp: createOutbound_def split: prod.splits)
  then show ?case using outbound_create_tags [OF _ createsByTag_managers [OF 1(2)] _ m(1)] 1(3) by (simp add: boxFresh_def boxTags_def)
next
  case (2 tag ty b b' cs q)
  then show ?case by (cases q) (auto simp: createOutbound_def split: prod.splits)
qed

interpretation endpoints: creation be "createEndpoint be" P_endpoint for be
proof (unfold_locales, goal_cases)
  case (1 tag ty b b' cs)
  then obtain m where m: "Registry_Create ''endpoint'' (managerEnv be b ''endpoint'') tag ty (bx_endpoint b) = (None, m, cs)" "b' = b\<lparr>bx_endpoint := m\<rparr>"
    by (auto simp: createEndpoint_def EndpointManager_Create_def split: prod.splits)
  then show ?case using registry_create_tags [OF _ createsByTag_managers [OF 1(2)] _ m(1)] 1(3) by (simp add: boxFresh_def boxTags_def)
next
  case (2 tag ty b b' cs q)
  then show ?case by (cases q) (auto simp: createEndpoint_def split: prod.splits)
qed

interpretation inbounds: creation be "createInbound be" P_inbound for be
proof (unfold_locales, goal_cases)
  case (1 tag ty b b' cs)
  then obtain m where m: "Registry_Create ''inbound'' (managerEnv be b ''inbound'') tag ty (bx_inbound b) = (None, m, cs)" "b' = b\<lparr>bx_inbound := m\<rparr>"
    by (auto simp: createInbound_def InboundManager_Create_def split: prod.splits)
  then show ?case using registry_create_tags [OF _ createsByTag_managers [OF 1(2)] _ m(1)] 1(3) by (simp add: boxFresh_def boxTags_def)
next
  case (2 tag ty b b' cs q)
  then show ?case by (cases q) (auto simp: createInbound_def split: prod.splits)
qed

interpretation services: creation be "createService be" P_service for be
proof (unfold_locales, goal_cases)
  case (1 tag ty b b' cs)
  then obtain m where m: "Registry_Create ''service'' (managerEnv be b ''service'') tag ty (bx_service b) = (None, m, cs)" "b' = b\<lparr>bx_service := m\<rparr>"
    by (auto simp: createService_def ServiceManager_Create_def split: prod.splits)
  then show ?case using registry_create_tags [OF _ createsByTag_managers [OF 1(2)] _ m(1)] 1(3) by (simp add: boxFresh_def boxTags_def)
next
  case (2 tag ty b b' cs q)
  then show ?case by (cases q) (auto simp: createService_def split: prod.splits)
qed

lemma emptyBox_fresh:
  "boxFresh (emptyBox options n d c r i) \<and> \<not> bx_done (emptyBox options n d c r i) \<and>
   (p \<in> {P_dnsTransport, P_endpoint, P_inbound, P_outbound, P_service} \<longrightarrow> boxTags p (emptyBox options n d c r i) = [])"
  by (auto simp: boxFresh_def emptyBox_def NewRegistry_def NewManager_def NewTransportManager_def registryOk_def boxTags_def)

lemma box_New_tags:
  assumes "createsByTag be" and "box_New be options (emptyBox options n d c r i) = (None, b, cs)"
  shows "boxFresh b \<and> \<not> bx_done b \<and> cs = [] \<and>
    boxTags P_dnsTransport b = remdups (tagsFrom 0 (bo_Servers options)) \<and>
    boxTags P_endpoint b = remdups (tagsFrom 0 (bo_Endpoints options)) \<and>
    boxTags P_inbound b = remdups (tagsFrom 0 (bo_Inbounds options)) \<and>
    boxTags P_outbound b = remdups (tagsFrom 0 (bo_Outbounds options)) \<and>
    boxTags P_service b = remdups (tagsFrom 0 (bo_Services options))"
proof -
  let ?b = "emptyBox options n d c r i"
  from assms(2) obtain b0 c0 b1 c1 b2 c2 b3 c3 b4 c4 b5 c5 c6 where
    0: "initializeWith (be_RouterInitialize be) ''initialize router'' ?b = (None, b0, c0)" and
    1: "createLoop (createTransport be) ''DNS server'' 0 (bo_Servers options) b0 = (None, b1, c1)" and
    2: "initializeWith (be_DnsRouterInitialize be) ''initialize dns router'' b1 = (None, b2, c2)" and
    3: "createLoop (createEndpoint be) ''endpoint'' 0 (bo_Endpoints options) b2 = (None, b3, c3)" and
    4: "createLoop (createInbound be) ''inbound'' 0 (bo_Inbounds options) b3 = (None, b4, c4)" and
    5: "createLoop (createOutbound be) ''outbound'' 0 (bo_Outbounds options) b4 = (None, b5, c5)" and
    6: "createLoop (createService be) ''service'' 0 (bo_Services options) b5 = (None, b, c6)" and
    cs: "cs = (((((c0 @ c1) @ c2) @ c3) @ c4) @ c5) @ c6"
    unfolding box_New_def andThen_None by blast
  have b: "b0 = ?b" "c0 = []" "b2 = b1" "c2 = []" using 0 2 by (auto simp: initializeWith_def)
  note e = emptyBox_fresh [of options n d c r i]
  note l1 = transports.loop_tags [OF 1 assms(1)]
  note l3 = endpoints.loop_tags [OF 3 assms(1)]
  note l4 = inbounds.loop_tags [OF 4 assms(1)]
  note l5 = outbounds.loop_tags [OF 5 assms(1)]
  note l6 = services.loop_tags [OF 6 assms(1)]
  have f: "boxFresh b1" "boxFresh b3" "boxFresh b4" "boxFresh b5" "boxFresh b" "cs = []" "\<not> bx_done b"
    using l1 l3 l4 l5 l6 e b cs by simp_all
  have same: "boxTags p b2 = boxTags p b1" "p \<noteq> P_dnsTransport \<Longrightarrow> boxTags p b1 = boxTags p ?b"
    "p \<noteq> P_endpoint \<Longrightarrow> boxTags p b3 = boxTags p b2" "p \<noteq> P_inbound \<Longrightarrow> boxTags p b4 = boxTags p b3"
    "p \<noteq> P_outbound \<Longrightarrow> boxTags p b5 = boxTags p b4" "p \<noteq> P_service \<Longrightarrow> boxTags p b = boxTags p b5" for p
    using l1 l3 l4 l5 l6 e b f by (simp_all add: boxTags_def)
  have t: "boxTags P_dnsTransport b1 = remdups (tagsFrom 0 (bo_Servers options))"
    "boxTags P_endpoint b3 = remdups (tagsFrom 0 (bo_Endpoints options))"
    "boxTags P_inbound b4 = remdups (tagsFrom 0 (bo_Inbounds options))"
    "boxTags P_outbound b5 = remdups (tagsFrom 0 (bo_Outbounds options))"
    "boxTags P_service b = remdups (tagsFrom 0 (bo_Services options))"
    using l1 l3 l4 l5 l6 e b f same emptyBox_fresh [of options n d c r i P_dnsTransport] by (auto dest: spec [of _ "[]"])
  show ?thesis using f t same by simp
qed

section \<open>Properties\<close>

lemma closedOnError_None: "closedOnError be r = (None, b', cs) \<longleftrightarrow> r = (None, b', cs)"
  by (cases "(be, r)" rule: closedOnError.cases) (auto split: prod.splits)

lemma closedOnError_Some:
  assumes "closedOnError be r = (Some err, b', cs)" and "\<forall>p. err \<noteq> Panic p"
  obtains b1 c1 errs c2 where "r = (Some err, b1, c1)" "Box_Close be b1 = (errs, b', c2)" "cs = c1 @ c2"
  using assms by (cases "(be, r)" rule: closedOnError.cases) (auto split: prod.splits)

text \<open>
  C27: when \<open>Start\<close> succeeds, every service that had been created (inbounds, outbounds, endpoints, DNS
  servers, services, the internal services, the routers and managers) has been started exactly once in
  each of the four stages and in their order; a fallback outbound or DNS server that the start itself
  creates has been started once in each of the stages from \<open>start\<close> on. No inbound or service enters the
  stage \<open>start\<close> before all outbounds, endpoints and DNS servers have been through it.
\<close>

theorem services_run_through_stages:
  assumes "Box_Start be b = (None, b', calls)" and "distinct (boxServices b')"
  shows "(\<forall>s\<in>set (boxServices b). stagesOf s calls = [0, 1, 2, 3]) \<and>
    (\<forall>s\<in>set (boxServices b') - set (boxServices b). stagesOf s calls = [1, 2, 3]) \<and>
    (\<exists>before after. calls = before @ after \<and>
      (\<forall>s\<in>set (rg_items (bx_inbound b') @ rg_items (bx_service b')). StartCall s 1 \<notin> set before) \<and>
      (\<forall>s\<in>set (om_outbounds (bx_outbound b') @ rg_items (bx_endpoint b') @ tm_transports (bx_dnsTransport b')).
         StartCall s 1 \<in> set before))"
proof -
  have start: "box_start be b = (None, b', calls)" using assms(1) by (simp add: Box_Start_def closedOnError_None)
  from box_start_phases [OF start] obtain c0 c1 rest where cs: "calls = (c0 @ c1) @ rest"
    and c0: "mset c0 = image_mset (\<lambda>s. StartCall s 0) (mset (boxServices b))"
    and c1: "mset c1 = image_mset (\<lambda>s. StartCall s 1) (mset (concat (map (\<lambda>p. itemsOf p b')
           [P_outbound, P_endpoint, P_dnsTransport, P_dnsRouter, P_network, P_connection, P_router])))"
    and sub: "mset (boxServices b) \<subseteq># mset (boxServices b')" by (metis append_assoc)
  have one: "count (mset (boxServices b')) s = (if s \<in> set (boxServices b') then 1 else 0)" for s
    using assms(2) by (simp add: distinct_count_atmost_1)
  have le: "count (mset (boxServices b)) s \<le> count (mset (boxServices b')) s" for s using sub by (rule mset_subset_eq_count)
  have "count (mset (boxServices b)) s = 1 \<and> count (mset (boxServices b')) s = 1" if "s \<in> set (boxServices b)" for s
  proof -
    have "0 < count (mset (boxServices b)) s" using that by simp
    moreover have "count (mset (boxServices b')) s \<le> 1" by (simp add: one)
    ultimately show ?thesis using le [of s] by linarith
  qed
  then have stages: "\<forall>s\<in>set (boxServices b). stagesOf s calls = [0, 1, 2, 3]"
    "\<forall>s\<in>set (boxServices b') - set (boxServices b). stagesOf s calls = [1, 2, 3]"
    using start_stages [OF start] one by (simp_all add: count_eq_zero_iff)
  have "set c0 = (\<lambda>s. StartCall s 0) ` set (boxServices b)" using mset_eq_setD [of c0 "map (\<lambda>s. StartCall s 0) (boxServices b)"] c0 by simp
  moreover have s1: "set c1 = (\<lambda>s. StartCall s 1) ` set (concat (map (\<lambda>p. itemsOf p b')
           [P_outbound, P_endpoint, P_dnsTransport, P_dnsRouter, P_network, P_connection, P_router]))"
    using c1 by (metis mset_map mset_eq_setD set_map)
  ultimately have "\<forall>s\<in>set (rg_items (bx_inbound b') @ rg_items (bx_service b')). StartCall s 1 \<notin> set (c0 @ c1)"
    using assms(2) by (auto simp: boxServices_def allParts_def)
  moreover have "\<forall>s\<in>set (om_outbounds (bx_outbound b') @ rg_items (bx_endpoint b') @ tm_transports (bx_dnsTransport b')).
      StartCall s 1 \<in> set (c0 @ c1)" using s1 by auto
  ultimately show ?thesis using stages cs by blast
qed

text \<open>
  C28: when \<open>Start\<close> or \<open>PreStart\<close> fails with an error, the program is closed again: every service that a
  start had reached, at whatever stage and whether it succeeded or not, is closed afterwards, and a
  further \<open>Close\<close> does nothing but report that the program is closed.
\<close>

theorem failed_start_closes_what_it_started:
  assumes "Box_Start be b = (Some err, b', calls) \<or> Box_PreStart be b = (Some err, b', calls)"
    and "\<not> bx_done b" and "\<forall>p. err \<noteq> Panic p"
  shows "(\<exists>before closed. calls = before @ map CloseCall closed \<and>
      (\<forall>s stage. StartCall s stage \<in> set before \<longrightarrow> s \<in> set closed)) \<and>
    Box_Close be b' = ([E_Lib ''file already closed''], b', [])"
proof -
  obtain r where r: "closedOnError be r = (Some err, b', calls)" "accounted b r"
    using assms(1) accounted_start accounted_preStart unfolding Box_Start_def Box_PreStart_def by blast
  from closedOnError_Some [OF r(1) assms(3)] obtain b1 c1 errs c2 where
    c: "r = (Some err, b1, c1)" "Box_Close be b1 = (errs, b', c2)" "calls = c1 @ c2" by blast
  then have "\<not> bx_done b1" "\<forall>s stage. StartCall s stage \<in> set c1 \<longrightarrow> s \<in> set (live b1)"
    using r(2) assms(2) by (auto simp: accounted_def)
  then show ?thesis using Box_Close_calls [OF _ c(2)] c(3) by (auto simp: Box_Close_def)
qed

text \<open>
  A program that has been started closes each of its services once: the services, endpoints and
  inbounds before the outbounds, and these before the routers and the DNS servers.
\<close>

theorem running_box_closes_everything:
  assumes "Box_Start be b = (None, b', calls)" and "\<not> bx_done b" and "Box_Close be b' = (errs, b'', closes)"
  shows "closes = map CloseCall (rg_items (bx_service b') @ rg_items (bx_endpoint b') @ rg_items (bx_inbound b') @
      om_outbounds (bx_outbound b') @ [bx_router b', bx_connection b', bx_dnsRouter b'] @ tm_transports (bx_dnsTransport b') @
      [bx_network b'] @ bx_internalService b')"
proof -
  have start: "box_start be b = (None, b', calls)" using assms(1) by (simp add: Box_Start_def closedOnError_None)
  have d: "\<not> bx_done b'" using accounted_start [of b be] start assms(2) by (simp add: accounted_def)
  obtain b6 b7 a3 n3 where a: "adapter_Start be 3 allParts b6 = (None, b7, a3)" "adapter_StartNamed be 3 b7 = (None, b', n3)"
    using start unfolding box_start_def allParts_def [symmetric] andThen_None by blast
  then have "startedPart p b'" for p
    using adapter_Start_marks [OF a(1), of p] StartNamed_calls [OF a(2)] by (cases p) (auto simp: allParts_def)
  then have "closedOf p b' = itemsOf p b'" for p by (simp add: closedOf_def)
  then show ?thesis using Box_Close_calls [OF d assms(3)] by (simp add: live_def closeOrder_def)
qed

text \<open>
  C29: a configuration that passes the check of its tags is registered completely: after \<open>New\<close> the
  managers list one inbound, outbound and endpoint for each of the options, in their order and under
  their tags, where an option without a tag has its index as the tag; outbounds and endpoints have
  distinct tags, and nothing has been started or closed. DNS servers and services are not checked: of
  those with the same tag only the last one is kept.
\<close>

theorem checked_configuration_is_registered:
  assumes "checkOptions (bo_Inbounds options) (bo_Outbounds options) (bo_Endpoints options) = Inr ()" and "createsByTag be"
    and "box_New be options (emptyBox options network dnsRouter connection router internalServices) = (None, b, calls)"
  shows "map sv_Tag (rg_items (bx_inbound b)) = tagsFrom 0 (bo_Inbounds options) \<and>
    map sv_Tag (om_outbounds (bx_outbound b)) = tagsFrom 0 (bo_Outbounds options) \<and>
    map sv_Tag (rg_items (bx_endpoint b)) = tagsFrom 0 (bo_Endpoints options) \<and>
    distinct (map sv_Tag (om_outbounds (bx_outbound b) @ rg_items (bx_endpoint b))) \<and>
    map sv_Tag (tm_transports (bx_dnsTransport b)) = remdups (tagsFrom 0 (bo_Servers options)) \<and>
    map sv_Tag (rg_items (bx_service b)) = remdups (tagsFrom 0 (bo_Services options)) \<and>
    boxFresh b \<and> calls = []"
  using box_New_tags [OF assms(2,3)] checkOptions_ok [OF assms(1)] by (simp add: boxTags_def distinct_remdups_id)

text \<open>
  The witnesses: a program with an inbound that routes through an outbound, an endpoint, and no DNS
  server; a stage of the inbound fails in the second one.
\<close>

definition object :: "nat \<Rightarrow> string \<Rightarrow> Service" where
  "object i tag = \<lparr>sv_Id = i, sv_Type = ''x'', sv_Tag = tag, sv_Dependencies = []\<rparr>"

definition sampleBoxEnv :: "(Service \<Rightarrow> nat \<Rightarrow> Error option) \<Rightarrow> BoxEnv" where
  "sampleBoxEnv start =
     \<lparr>be_Create = (\<lambda>kind tag ty. Inr (object (length kind) tag)), be_Start = start, be_Close = (\<lambda>s. None), be_Direct = Inr (object 20 ''direct''),
      be_Local = Inr (object 21 ''local''), be_RouterInitialize = None, be_DnsRouterInitialize = None, be_LogStart = None,
      be_LogClose = None\<rparr>"

definition sampleOptions :: BoxOptions where
  "sampleOptions =
     \<lparr>bo_Servers = [], bo_Endpoints = [\<lparr>io_Type = ''wireguard'', io_Tag = ''wg''\<rparr>],
      bo_Inbounds = [\<lparr>io_Type = ''mixed'', io_Tag = ''''\<rparr>], bo_Outbounds = [\<lparr>io_Type = ''vmess'', io_Tag = ''proxy''\<rparr>],
      bo_Services = [], bo_RouteFinal = '''', bo_DnsFinal = ''''\<rparr>"

definition newBox :: Box where
  "newBox = emptyBox sampleOptions (object 1 ''network'') (object 2 ''dns'') (object 3 ''connection'') (object 4 ''router'') []"

definition sampleBox :: Box where
  "sampleBox = fst (snd (box_New (sampleBoxEnv (\<lambda>s stage. None)) sampleOptions newBox))"

lemma indexText_0: "indexText 0 = ''0''"
  by code_simp

lemmas box_evaluation = sampleBox_def newBox_def sampleOptions_def sampleBoxEnv_def object_def emptyBox_def box_New_def
  initializeWith_def createTransport_def createEndpoint_def createInbound_def createOutbound_def createService_def
  EndpointManager_Create_def InboundManager_Create_def ServiceManager_Create_def Registry_Create_def Manager_Create_def
  NewRegistry_def NewManager_def NewTransportManager_def managerEnv_def tagAt_def indexText_0

lemma sampleBox_created:
  "box_New (sampleBoxEnv start) sampleOptions newBox = (None, sampleBox, []) \<and>
   rg_items (bx_inbound sampleBox) = [object 7 ''0''] \<and> rg_items (bx_endpoint sampleBox) = [object 8 ''wg''] \<and>
   om_outbounds (bx_outbound sampleBox) = [object 8 ''proxy'']"
  by (simp add: box_evaluation)

theorem checked_configuration_is_registered_witness:
  "\<exists>b. box_New (sampleBoxEnv (\<lambda>s stage. None)) sampleOptions newBox = (None, b, []) \<and> boxFresh b \<and>
     map sv_Tag (rg_items (bx_inbound b)) = [''0'']"
  using checked_configuration_is_registered [of sampleOptions "sampleBoxEnv (\<lambda>s stage. None)", OF _ _ sampleBox_created [THEN conjunct1, unfolded newBox_def]]
    sampleBox_created [of "\<lambda>s stage. None"]
  by (auto simp: sampleOptions_def checkOptions_def checkInbounds_def checkOutbounds_def tagAt_def indexText_0 createsByTag_def
      sampleBoxEnv_def object_def newBox_def)

lemmas start_evaluation = Box_Start_def box_start_def box_preStart_def adapter_StartNamed_def startObject_def
  TransportManager_Start_def Manager_Start_def InboundManager_Start_def EndpointManager_Start_def ServiceManager_Start_def
  Registry_Start_def startOutbounds_def startTransports_def startServices.simps Let_def

lemma sample_start:
  "\<exists>b' calls. Box_Start (sampleBoxEnv (\<lambda>s stage. None)) sampleBox = (None, b', calls) \<and> distinct (boxServices b')"
  by (simp add: start_evaluation box_evaluation boxServices_def allParts_def)

lemma sample_failure:
  "\<exists>err b' calls. Box_Start (sampleBoxEnv (\<lambda>s stage. if s = object 7 ''0'' \<and> stage = 1 then Some (E_Lib ''address in use'') else None)) sampleBox =
     (Some err, b', calls) \<and> (\<forall>p. err \<noteq> Panic p)"
  by (simp add: start_evaluation box_evaluation split: prod.splits)

theorem services_run_through_stages_witness:
  "\<exists>b' calls. Box_Start (sampleBoxEnv (\<lambda>s stage. None)) sampleBox = (None, b', calls) \<and>
     stagesOf (object 7 ''0'') calls = [0, 1, 2, 3]"
proof -
  obtain b' calls where r: "Box_Start (sampleBoxEnv (\<lambda>s stage. None)) sampleBox = (None, b', calls)" "distinct (boxServices b')"
    using sample_start by blast
  have "object 7 ''0'' \<in> set (boxServices sampleBox)" using sampleBox_created by (simp add: boxServices_def allParts_def)
  then show ?thesis using services_run_through_stages [OF r] r(1) by blast
qed

theorem failed_start_closes_what_it_started_witness:
  "\<exists>err b' calls. Box_Start (sampleBoxEnv (\<lambda>s stage. if s = object 7 ''0'' \<and> stage = 1 then Some (E_Lib ''address in use'') else None)) sampleBox =
     (Some err, b', calls) \<and>
     Box_Close (sampleBoxEnv (\<lambda>s stage. if s = object 7 ''0'' \<and> stage = 1 then Some (E_Lib ''address in use'') else None)) b' =
       ([E_Lib ''file already closed''], b', [])"
proof -
  let ?be = "sampleBoxEnv (\<lambda>s stage. if s = object 7 ''0'' \<and> stage = 1 then Some (E_Lib ''address in use'') else None)"
  obtain err b' calls where r: "Box_Start ?be sampleBox = (Some err, b', calls)" "\<forall>p. err \<noteq> Panic p" using sample_failure by blast
  have "\<not> bx_done sampleBox" by (simp add: box_evaluation)
  then show ?thesis using failed_start_closes_what_it_started [OF disjI1 [OF r(1)] _ r(2)] r(1) by blast
qed

text \<open>
  With an endpoint named like the fallback outbound and no outbounds, the start dereferences a nil
  pointer: the two cannot both be started under one tag.
\<close>

definition directEndpoint :: Box where
  "directEndpoint = newBox\<lparr>bx_endpoint := NewRegistry\<lparr>rg_items := [object 8 ''direct''], rg_byTag := fmupd ''direct'' (object 8 ''direct'') fmempty\<rparr>\<rparr>"

lemma fallback_tag_panics:
  "fst (Box_Start (sampleBoxEnv (\<lambda>s stage. None)) directEndpoint) = Some (Panic [AStr ''nil pointer dereference''])"
  by (simp add: start_evaluation box_evaluation directEndpoint_def)

text \<open>\<open>Start\<close> after \<open>PreStart\<close> runs the first stages again, which the managers refuse.\<close>

lemma start_after_prestart_panics:
  "fst (Box_Start (sampleBoxEnv (\<lambda>s stage. None)) (fst (snd (Box_PreStart (sampleBoxEnv (\<lambda>s stage. None)) sampleBox)))) =
     Some (Panic [AStr ''already started''])"
  by (simp add: start_evaluation box_evaluation Box_PreStart_def)

end
