(* ===== verification/Adguard.thy ===== *)
theory Adguard
  imports Srs
begin

text \<open>
  The convertor between AdGuard filter lists and rule-sets (\<open>common/convertor/adguard/convertor.go\<close>):
  \<open>ToOptions\<close> reads a list line by line and builds one headless rule, \<open>FromOptions\<close> prints such a rule
  as a list again.

  The functions of the sing library that split and parse strings are the record \<open>AdLib\<close>. Messages to
  the log are not modelled, so the ignored lines are only counted.
\<close>

section \<open>Strings\<close>

text \<open>
  \<open>bufio.Scanner\<close> with \<open>ScanLines\<close>: the lines without their line breaks and without one carriage return
  before them. Scanning stops at a line that does not fit into the buffer of 64 KiB.
\<close>

definition dropCR :: "string \<Rightarrow> string" where
  "dropCR line = (if line \<noteq> [] \<and> last line = CHR 0x0D then butlast line else line)"

definition scanLines :: "string \<Rightarrow> string list" where
  "scanLines s =
     (let raw = stringsSplit CHR 0x0A s; whole = (if last raw = [] then butlast raw else raw)
      in map dropCR (takeWhile (\<lambda>line. length line < 65536) whole))"

text \<open>\<open>strconv.ParseUint(s, 10, 8)\<close>.\<close>

definition parseUint8 :: "string \<Rightarrow> u8 result" where
  "parseUint8 s =
     (if s = [] \<or> \<not> list_all isDigit s then Inl (E_Lib ''strconv.ParseUint: invalid syntax'')
      else if decimal s > 255 then Inl (E_Lib ''strconv.ParseUint: value out of range'')
      else Inr (word_of_nat (decimal s)))"

definition addrIsUnspecified :: "Addr \<Rightarrow> bool" where
  "addrIsUnspecified a = (a = Addr4 0 \<or> a = Addr6 0)"

section \<open>Lines\<close>

record AdLib =
  ag_ParseAddr :: "string \<Rightarrow> Addr"
  ag_SubstringBefore :: "string \<Rightarrow> string \<Rightarrow> string"
  ag_SubstringAfter :: "string \<Rightarrow> string \<Rightarrow> string"

record agdguardRuleLine =
  al_ruleLine :: string
  al_isRawDomain :: bool
  al_isExclude :: bool
  al_isSuffix :: bool
  al_hasStart :: bool
  al_hasEnd :: bool
  al_isRegexp :: bool
  al_isImportant :: bool

definition rawLine :: "string \<Rightarrow> bool \<Rightarrow> agdguardRuleLine" where
  "rawLine ruleLine anchored =
     \<lparr>al_ruleLine = ruleLine, al_isRawDomain = True, al_isExclude = False, al_isSuffix = False, al_hasStart = anchored,
      al_hasEnd = anchored, al_isRegexp = False, al_isImportant = False\<rparr>"

definition ignoreIPCIDRRegexp :: "AdLib \<Rightarrow> string \<Rightarrow> bool" where
  "ignoreIPCIDRRegexp A line =
     (let ruleLine =
        (if hasPrefix line (''(http?:'' @ [CHR 0x5C, CHR ''/'', CHR 0x5C, CHR ''/'', CHR '')'']) then drop 12 line
         else if hasPrefix line (''(https?:'' @ [CHR 0x5C, CHR ''/'', CHR 0x5C, CHR ''/'', CHR '')'']) then drop 13 line
         else if hasPrefix line ''^'' then drop 1 line else line)
      in isOk (parseUint8 (ag_SubstringBefore A ruleLine [CHR 0x5C, CHR ''.''])) \<or> isOk (parseUint8 (ag_SubstringBefore A ruleLine ''.'')))"

definition parseAdGuardHostLine :: "Lib \<Rightarrow> string \<Rightarrow> string result" where
  "parseAdGuardHostLine lib ruleLine =
     (case stringsIndex ruleLine '' '' of
        None \<Rightarrow> Inl (E_Lib ''invalid argument'')
      | Some idx \<Rightarrow>
          bindE (ParseAddr lib (take idx ruleLine)) (\<lambda>address.
            if \<not> addrIsUnspecified address then Inr ''''
            else let domain = drop (idx + 1) ruleLine
                 in if \<not> IsDomainName lib domain then Inl (E_New [AStr ''invalid domain name: '', AStr domain]) else Inr domain))"

fun parseParts :: "string list \<Rightarrow> u8 list result" where
  "parseParts [] = Inr []"
| "parseParts (part # parts) = bindE (parseUint8 part) (\<lambda>b. bindE (parseParts parts) (\<lambda>bs. Inr (b # bs)))"

definition parseADGuardIPCIDRLine :: "string \<Rightarrow> Prefix result" where
  "parseADGuardIPCIDRLine line =
     (let isPrefix = hasSuffix line ''.''; ruleLine = (if isPrefix then butlast line else line);
          ruleStringParts = stringsSplit CHR ''.'' ruleLine
      in if length ruleStringParts > 4 \<or> length ruleStringParts < 4 \<and> \<not> isPrefix then Inl (E_Lib ''invalid argument'')
         else bindE (parseParts ruleStringParts) (\<lambda>ruleParts.
           Inr (Prefix (Addr4 (word_of_nat (bigEndian (ruleParts @ replicate (4 - length ruleParts) 0)))) (length ruleParts * 8))))"

text \<open>The loop over the modifiers behind \<open>$\<close>: whether the rule is important, or nothing if it is not supported.\<close>

fun modifiers :: "AdLib \<Rightarrow> string list \<Rightarrow> bool \<Rightarrow> bool option" where
  "modifiers A [] isImportant = Some isImportant"
| "modifiers A (param # params) isImportant =
     (let paramParts = stringsSplit CHR ''='' param
      in if length paramParts > 0 \<and> length paramParts \<le> 2 \<and> hd paramParts = ''important'' then modifiers A params True
         else if length paramParts = 2 \<and> hd paramParts = ''dnsrewrite'' \<and> addrIsUnspecified (ag_ParseAddr A (paramParts ! 1))
         then modifiers A params isImportant
         else None)"

text \<open>What becomes of a line: nothing, an ignored line, or a rule.\<close>

datatype LineOutcome = SkipLine | IgnoreLine | AcceptLine agdguardRuleLine

text \<open>The checks of a rule that is no regular expression.\<close>

definition supportedPattern :: "Lib \<Rightarrow> string \<Rightarrow> bool" where
  "supportedPattern lib ruleLine =
     (\<not> stringsContains ruleLine ''/'' \<and> \<not> stringsContains ruleLine ''?'' \<and> \<not> stringsContains ruleLine ''&'' \<and>
      \<not> stringsContains ruleLine ''['' \<and> \<not> stringsContains ruleLine '']'' \<and> \<not> stringsContains ruleLine ''('' \<and>
      \<not> stringsContains ruleLine '')'' \<and> \<not> stringsContains ruleLine ''!'' \<and> \<not> stringsContains ruleLine ''#'' \<and>
      \<not> stringsContains ruleLine ''~'' \<and> ruleLine \<noteq> '''' \<and>
      IsDomainName lib (map (\<lambda>c. if c = CHR ''*'' then CHR ''x'' else c)
        (if hasPrefix ruleLine ''.'' \<or> hasPrefix ruleLine ''-'' then CHR ''r'' # ruleLine else ruleLine)))"

text \<open>The rest of a line behind its modifiers; \<open>ruleLine[1 : len(ruleLine)-1]\<close> panics for a single slash.\<close>

definition parsePattern :: "AdLib \<Rightarrow> Lib \<Rightarrow> bool \<Rightarrow> string \<Rightarrow> LineOutcome result" where
  "parsePattern A lib isImportant line =
     (let isExclude = hasPrefix line ''@@''; l1 = (if isExclude then drop 2 line else line);
          l2 = (if hasSuffix l1 ''|'' then butlast l1 else l1);
          isSuffix = hasPrefix l2 ''||''; hasStart = (\<not> isSuffix \<and> hasPrefix l2 ''|'');
          l3 = (if isSuffix then drop 2 l2 else if hasStart then drop 1 l2 else l2);
          hasEnd = hasSuffix l3 ''^''; l4 = (if hasEnd then butlast l3 else l3);
          accept = (\<lambda>ruleLine suffix regexp. AcceptLine
            \<lparr>al_ruleLine = ruleLine, al_isRawDomain = False, al_isExclude = isExclude, al_isSuffix = suffix, al_hasStart = hasStart,
             al_hasEnd = hasEnd, al_isRegexp = regexp, al_isImportant = isImportant\<rparr>)
      in if hasPrefix l4 ''/'' \<and> hasSuffix l4 ''/'' then
           if length l4 < 2 then Inl (Panic [AStr ''slice bounds out of range''])
           else let ruleLine = butlast (tl l4)
                in Inr (if ignoreIPCIDRRegexp A ruleLine then IgnoreLine else accept ruleLine isSuffix True)
         else let hasScheme = stringsContains l4 ''://''; l5 = (if hasScheme then ag_SubstringAfter A l4 ''://'' else l4)
              in Inr (if supportedPattern lib l5 then accept l5 (isSuffix \<or> hasScheme) False else IgnoreLine))"

definition parseLine :: "AdLib \<Rightarrow> Lib \<Rightarrow> string \<Rightarrow> LineOutcome result" where
  "parseLine A lib ruleLine =
     (if ruleLine = '''' \<or> hasPrefix ruleLine ''!'' \<or> hasPrefix ruleLine ''#'' then Inr SkipLine
      else if IsDomainName lib ruleLine then Inr (AcceptLine (rawLine ruleLine False))
      else case parseAdGuardHostLine lib ruleLine of
             Inr hostLine \<Rightarrow> Inr (if hostLine \<noteq> '''' then AcceptLine (rawLine hostLine True) else SkipLine)
           | Inl _ \<Rightarrow>
               (let line = (if hasSuffix ruleLine ''|'' then butlast ruleLine else ruleLine)
                in if \<not> hasPrefix line ''/'' \<and> stringsContains line ''$''
                   then (case modifiers A (stringsSplit CHR '','' (ag_SubstringAfter A line ''$'')) False of
                           None \<Rightarrow> Inr IgnoreLine
                         | Some isImportant \<Rightarrow> parsePattern A lib isImportant (ag_SubstringBefore A line ''$''))
                   else parsePattern A lib False line))"

fun parseLines :: "AdLib \<Rightarrow> Lib \<Rightarrow> string list \<Rightarrow> (agdguardRuleLine list \<times> nat) result" where
  "parseLines A lib [] = Inr ([], 0)"
| "parseLines A lib (line # lines) =
     bindE (parseLine A lib line) (\<lambda>outcome.
     bindE (parseLines A lib lines) (\<lambda>(ruleLines, ignoredLines).
       Inr (case outcome of
              SkipLine \<Rightarrow> (ruleLines, ignoredLines)
            | IgnoreLine \<Rightarrow> (ruleLines, Suc ignoredLines)
            | AcceptLine l \<Rightarrow> (l # ruleLines, ignoredLines))))"

section \<open>Rules\<close>

definition mapDomain :: "agdguardRuleLine \<Rightarrow> string" where
  "mapDomain it =
     (let ruleLine = (if al_isSuffix it then ''||'' @ al_ruleLine it else if al_hasStart it then ''|'' @ al_ruleLine it else al_ruleLine it)
      in if al_hasEnd it then ruleLine @ ''^'' else ruleLine)"

text \<open>The lines of one of the eight kinds.\<close>

definition linesOf :: "agdguardRuleLine list \<Rightarrow> bool \<Rightarrow> bool \<Rightarrow> bool \<Rightarrow> string list" where
  "linesOf ruleLines important regexp exclude =
     map mapDomain (filter (\<lambda>it. al_isImportant it = important \<and> al_isRegexp it = regexp \<and> al_isExclude it = exclude) ruleLines)"

definition adguardRule :: "string list \<Rightarrow> string list \<Rightarrow> bool \<Rightarrow> HeadlessOptions" where
  "adguardRule domains regexes invert =
     defaultOptions (emptyHeadlessRule\<lparr>h_AdGuardDomain := domains, h_DomainRegex := regexes, h_Invert := invert\<rparr>)"

definition wrapRule :: "string \<Rightarrow> bool \<Rightarrow> string list \<Rightarrow> string list \<Rightarrow> HeadlessOptions \<Rightarrow> HeadlessOptions" where
  "wrapRule mode invert domains regexes currentRule =
     (if length domains > 0 \<or> length regexes > 0
      then logicalOptions mode [adguardRule domains regexes invert, currentRule] False else currentRule)"

definition toRule :: "agdguardRuleLine list \<Rightarrow> HeadlessOptions" where
  "toRule ruleLines =
     wrapRule ''and'' True (linesOf ruleLines True False True) (linesOf ruleLines True True True)
       (wrapRule ''or'' False (linesOf ruleLines True False False) (linesOf ruleLines True True False)
         (wrapRule ''and'' True (linesOf ruleLines False False True) (linesOf ruleLines False True True)
           (adguardRule (linesOf ruleLines False False False) (linesOf ruleLines False True False) False)))"

definition ToOptions :: "AdLib \<Rightarrow> Lib \<Rightarrow> string \<Rightarrow> HeadlessOptions list result" where
  "ToOptions A lib content =
     bindE (parseLines A lib (scanLines content)) (\<lambda>(ruleLines, ignoredLines).
       if length ruleLines = 0 then Inl (E_New [AStr ''AdGuard rule-set is empty or all rules are unsupported''])
       else if list_all al_isRawDomain ruleLines
       then Inr [defaultOptions (emptyHeadlessRule\<lparr>h_Domain := map al_ruleLine ruleLines\<rparr>)]
       else Inr [toRule ruleLines])"

section \<open>Printing\<close>

record AdLists =
  ad_importantDomain :: "string list"
  ad_importantDomainRegex :: "string list"
  ad_importantExcludeDomain :: "string list"
  ad_importantExcludeDomainRegex :: "string list"
  ad_domain :: "string list"
  ad_domainRegex :: "string list"
  ad_excludeDomain :: "string list"
  ad_excludeDomainRegex :: "string list"

definition noLists :: AdLists where
  "noLists = \<lparr>ad_importantDomain = [], ad_importantDomainRegex = [], ad_importantExcludeDomain = [], ad_importantExcludeDomainRegex = [],
     ad_domain = [], ad_domainRegex = [], ad_excludeDomain = [], ad_excludeDomainRegex = []\<rparr>"

definition adguardErrInvalid :: Error where
  "adguardErrInvalid = E_New [AStr ''invalid binary AdGuard rule-set'']"

text \<open>
  The loop \<open>parse\<close>. A rule of any other type leaves the switch, and the loop never ends; this is the
  result \<open>None\<close>.
\<close>

function parseRule :: "HeadlessOptions \<Rightarrow> AdLists \<Rightarrow> AdLists result option" where
  "parseRule rule a =
     (if ru_Type rule = ''logical'' then
        (case ru_Rules rule of
           [first, second] \<Rightarrow>
             if ru_Type first \<noteq> ''default'' then Some (Inl adguardErrInvalid)
             else let domains = h_AdGuardDomain (ru_Default first); regexes = h_DomainRegex (ru_Default first);
                      nothing = (length domains + length regexes = 0)
                  in if ru_Mode rule = ''and'' \<and> h_Invert (ru_Default first) then
                       if length (ad_importantExcludeDomain a) = 0 \<and> length (ad_importantExcludeDomainRegex a) = 0
                       then if nothing then Some (Inl adguardErrInvalid)
                            else parseRule second (a\<lparr>ad_importantExcludeDomain := domains, ad_importantExcludeDomainRegex := regexes\<rparr>)
                       else if nothing then Some (Inl adguardErrInvalid)
                            else parseRule second (a\<lparr>ad_excludeDomain := domains, ad_excludeDomainRegex := regexes\<rparr>)
                     else if ru_Mode rule = ''or'' \<and> \<not> h_Invert (ru_Default first) then
                       if nothing then Some (Inl adguardErrInvalid)
                       else parseRule second (a\<lparr>ad_importantDomain := domains, ad_importantDomainRegex := regexes\<rparr>)
                     else Some (Inl adguardErrInvalid)
         | _ \<Rightarrow> Some (Inl adguardErrInvalid))
      else if ru_Type rule = ''default'' then
        if length (h_AdGuardDomain (ru_Default rule)) + length (h_DomainRegex (ru_Default rule)) = 0 then Some (Inl adguardErrInvalid)
        else Some (Inr (a\<lparr>ad_domain := h_AdGuardDomain (ru_Default rule), ad_domainRegex := h_DomainRegex (ru_Default rule)\<rparr>))
      else None)"
  by pat_completeness auto

termination
proof (relation "measure (\<lambda>(rule, a). size rule)", goal_cases)
  case (2 rule a first xs second ys)
  then show ?case by (cases rule) auto
next
  case (3 rule a first xs second ys)
  then show ?case by (cases rule) auto
next
  case (4 rule a first xs second ys)
  then show ?case by (cases rule) auto
qed simp

declare parseRule.simps [simp del]

definition printLines :: "string \<Rightarrow> string \<Rightarrow> string list \<Rightarrow> string" where
  "printLines before after ruleLines = concat (map (\<lambda>ruleLine. before @ ruleLine @ after @ [CHR 0x0A]) ruleLines)"

definition printLists :: "AdLists \<Rightarrow> string" where
  "printLists a =
     printLines '''' ''$important'' (ad_importantDomain a) @
     printLines ''/'' ''/$important'' (ad_importantDomainRegex a) @
     printLines ''@@'' ''$important'' (ad_importantExcludeDomain a) @
     printLines ''@@/'' ''/$important'' (ad_importantExcludeDomainRegex a) @
     printLines '''' '''' (ad_domain a) @
     printLines ''/'' ''/'' (ad_domainRegex a) @
     printLines ''@@'' '''' (ad_excludeDomain a) @
     printLines ''@@/'' ''/'' (ad_excludeDomainRegex a)"

definition FromOptions :: "HeadlessOptions list \<Rightarrow> string result option" where
  "FromOptions rules =
     (if length rules \<noteq> 1 then Some (Inl adguardErrInvalid)
      else map_option (\<lambda>r. bindE r (\<lambda>a. Inr (printLists a))) (parseRule (hd rules) noLists))"

section \<open>Matching\<close>

text \<open>A headless rule on its own, as the tools match it.\<close>

definition HeadlessRule_Match :: "Lib \<Rightarrow> Net \<Rightarrow> unit HeadlessRule \<Rightarrow> InboundContext \<Rightarrow> bool" where
  "HeadlessRule_Match lib net rule metadata =
     (\<not> states_isEmpty (fst (HeadlessRule_matchStatesWithBase lib net noRuleSet rule metadata 0)))"

end
