(* ===== verification/Adguard_Props.thy ===== *)
theory Adguard_Props
  imports Adguard Rule_Set_Props
begin

text \<open>
  What the AdGuard convertor guarantees: the rule of a list, built and evaluated like any other headless
  rule, blocks the domains that the lines of the list block, and printing recovers the lines.
\<close>

section \<open>The meaning of a list\<close>

text \<open>Whether a host is listed by domain patterns or regular expressions.\<close>

definition listed :: "Lib \<Rightarrow> string list \<Rightarrow> string list \<Rightarrow> string \<Rightarrow> bool" where
  "listed lib domains regexes host =
     (host \<noteq> '''' \<and>
      (domains \<noteq> [] \<and> domainNewAdGuardMatcher lib domains (stringsToLower lib host) \<or>
       list_ex (\<lambda>regex. case regexpCompile lib regex of Inl _ \<Rightarrow> False | Inr matcher \<Rightarrow> matcher (stringsToLower lib host)) regexes))"

text \<open>An important exception wins over an important rule, which wins over an exception, which wins over a rule.\<close>

definition hit :: "Lib \<Rightarrow> agdguardRuleLine list \<Rightarrow> bool \<Rightarrow> bool \<Rightarrow> string \<Rightarrow> bool" where
  "hit lib ruleLines important exclude =
     listed lib (linesOf ruleLines important False exclude) (linesOf ruleLines important True exclude)"

definition blocked :: "Lib \<Rightarrow> agdguardRuleLine list \<Rightarrow> string \<Rightarrow> bool" where
  "blocked lib ruleLines host =
     (\<not> hit lib ruleLines True True host \<and>
      (hit lib ruleLines True False host \<or> \<not> hit lib ruleLines False True host \<and> hit lib ruleLines False False host))"

section \<open>Rules built from the options\<close>

lemma Match_sem: "HeadlessRule_Match lib net rule md \<longleftrightarrow> semRule lib net (\<lambda>_ _ _. {}) rule md {} \<noteq> {}"
  using headless.rule_refines [of 0 lib net rule md]
  by (simp add: HeadlessRule_Match_def absStates_isEmpty groupsOf_zero)

lemma Match_two:
  "HeadlessRule_Match lib net (LogicalRule [r1, r2] mode False act) md \<longleftrightarrow>
     (if mode = ''and'' then HeadlessRule_Match lib net r1 (ResetRuleCache md) \<and> HeadlessRule_Match lib net r2 (ResetRuleCache md)
      else HeadlessRule_Match lib net r1 (ResetRuleCache md) \<or> HeadlessRule_Match lib net r2 (ResetRuleCache md))"
  unfolding Match_sem by (auto simp: unions_empty_iff unions_empty)

lemma domainHost_reset [simp]: "domainHost (ResetRuleCache md) = domainHost md"
  by (simp add: domainHost_def ResetRuleCache_def ResetRuleMatchCache_def)

definition regexItems :: "Lib \<Rightarrow> string list \<Rightarrow> RuleItem list" where
  "regexItems lib regexes = (case NewDomainRegexItem lib regexes of Inl _ \<Rightarrow> [] | Inr it \<Rightarrow> if regexes = [] then [] else [it])"

definition patternItems :: "Lib \<Rightarrow> string list \<Rightarrow> RuleItem list" where
  "patternItems lib domains = (if domains = [] then [] else [NewAdGuardDomainItem lib domains])"

definition adguardBuilt :: "RuleItem list \<Rightarrow> bool \<Rightarrow> unit abstractDefaultRule" where
  "adguardBuilt items invert =
     \<lparr>r_items = [], r_sourceAddressItems = [], r_sourcePortItems = [], r_destinationAddressItems = items,
      r_destinationIPCIDRItems = [], r_destinationPortItems = [], r_allItems = map InDestinationAddress [0..<length items],
      r_ruleSetItem = None, r_invert = invert, r_action = None\<rparr>"

lemma NewDefault_adguard:
  assumes "NewDefaultHeadlessRule networkManager lib (emptyHeadlessRule\<lparr>h_AdGuardDomain := domains, h_DomainRegex := regexes, h_Invert := invert\<rparr>) = Inr r"
  shows "r = adguardBuilt (regexItems lib regexes @ patternItems lib domains) invert"
  using assms
  by (auto simp: NewDefaultHeadlessRule_def emptyHeadlessRule_def headlessFrontSteps_def headlessProcessSteps_def headlessNetworkSteps_def
      on_def onE_def onElse_def someNonEmpty_def newAbstractRule_def addDestinationAddress_def adguardBuilt_def regexItems_def patternItems_def
      split: if_splits sum.splits)

lemma required_adguard: "required (adguardBuilt items invert) md = (if items = [] then {} else {GDestinationAddress})"
proof -
  have "groupItems (adguardBuilt items invert) md g = (if g = GDestinationAddress then items else [])" for g
    by (cases g) (simp_all add: groupItems_def adguardBuilt_def cidrGroup_def)
  then show ?thesis by (auto simp: required_def)
qed

lemma satisfied_adguard:
  "satisfied lib net (adguardBuilt items invert) md = (if list_ex (\<lambda>it. RuleItem_Match lib net it md) items then {GDestinationAddress} else {})"
proof -
  have "groupItems (adguardBuilt items invert) md g = (if g = GDestinationAddress then items else [])" for g
    by (cases g) (simp_all add: groupItems_def adguardBuilt_def cidrGroup_def)
  then show ?thesis by (auto simp: satisfied_def list_ex_iff split: if_splits)
qed

lemma Match_adguard:
  assumes "items \<noteq> []"
  shows "HeadlessRule_Match lib net (DefaultRule (adguardBuilt items invert)) md \<longleftrightarrow> invert \<noteq> list_ex (\<lambda>it. RuleItem_Match lib net it md) items"
proof -
  have f: "r_allItems (adguardBuilt items invert) \<noteq> []" "r_ruleSetItem (adguardBuilt items invert) = None"
    "r_invert (adguardBuilt items invert) = invert" "r_destinationIPCIDRItems (adguardBuilt items invert) = []"
    "otherFields lib net (adguardBuilt items invert) md"
    using assms by (simp_all add: adguardBuilt_def otherFields_def)
  show ?thesis
    using assms by (auto simp: Match_sem semDefault_def f Let_def required_adguard satisfied_adguard onlyDeferred_def split: if_splits)
qed

lemma compileAll_ok:
  assumes "compileAll lib regexes = Inr ms"
  shows "length ms = length regexes \<and> (\<forall>i<length regexes. regexpCompile lib (regexes ! i) = Inr (ms ! i))"
  using mapE_from_length [OF assms [unfolded compileAll_def]] mapE_from_nth [OF assms [unfolded compileAll_def]]
  by (simp add: cause_Inr_iff)

lemma listed_items:
  assumes "isOk (NewDomainRegexItem lib regexes)"
  shows "list_ex (\<lambda>it. RuleItem_Match lib net it md) (regexItems lib regexes @ patternItems lib domains) \<longleftrightarrow> listed lib domains regexes (domainHost md)"
proof -
  obtain ms where ms: "compileAll lib regexes = Inr ms" using assms by (cases "compileAll lib regexes") (auto simp: NewDomainRegexItem_def)
  have "list_ex (\<lambda>regex. case regexpCompile lib regex of Inl _ \<Rightarrow> False | Inr matcher \<Rightarrow> matcher h) regexes \<longleftrightarrow> list_ex (\<lambda>m. m h) ms" for h
    using compileAll_ok [OF ms] unfolding list_ex_length by auto
  moreover have "regexes = [] \<longleftrightarrow> ms = []" using compileAll_ok [OF ms] by auto
  ultimately show ?thesis using ms
    by (auto simp: regexItems_def patternItems_def NewDomainRegexItem_def NewAdGuardDomainItem_def listed_def
        DomainRegexItem_Match_def AdGuardDomainItem_Match_def Let_def)
qed

lemma NewDefault_regexes:
  assumes "NewDefaultHeadlessRule networkManager lib (emptyHeadlessRule\<lparr>h_AdGuardDomain := domains, h_DomainRegex := regexes, h_Invert := invert\<rparr>) = Inr r"
  shows "isOk (NewDomainRegexItem lib regexes)"
proof (cases "regexes = []")
  case True
  then show ?thesis by (simp add: NewDomainRegexItem_def compileAll_def)
next
  case False
  then show ?thesis using assms
    by (auto simp: NewDefaultHeadlessRule_def emptyHeadlessRule_def headlessFrontSteps_def on_def onE_def onElse_def bindE_Inr_iff cause_Inr_iff)
qed

lemma adguardRule_built:
  assumes "NewHeadlessRule networkManager lib (adguardRule domains regexes invert) = Inr rule"
  shows "(domains \<noteq> [] \<or> regexes \<noteq> []) \<and>
    (HeadlessRule_Match lib net rule md \<longleftrightarrow> invert \<noteq> listed lib domains regexes (domainHost md))"
proof -
  obtain r where r: "NewDefaultHeadlessRule networkManager lib (emptyHeadlessRule\<lparr>h_AdGuardDomain := domains, h_DomainRegex := regexes, h_Invert := invert\<rparr>) = Inr r"
    "rule = DefaultRule r" and v: "domains \<noteq> [] \<or> regexes \<noteq> []"
    using assms by (auto simp: adguardRule_def defaultOptions_def bindE_Inr_iff DefaultHeadlessRule_IsValid_def emptyHeadlessRule_def split: if_splits)
  have "regexItems lib regexes @ patternItems lib domains \<noteq> []"
    using v NewDefault_regexes [OF r(1)] by (auto simp: regexItems_def patternItems_def split: sum.splits)
  then show ?thesis using v r(2) NewDefault_adguard [OF r(1)] Match_adguard listed_items [OF NewDefault_regexes [OF r(1)]] by simp
qed

lemma wrapRule_built:
  assumes "NewHeadlessRule networkManager lib (wrapRule mode invert domains regexes currentRule) = Inr rule"
    and "\<And>r md. NewHeadlessRule networkManager lib currentRule = Inr r \<Longrightarrow> HeadlessRule_Match lib net r md \<longleftrightarrow> P (domainHost md)"
    and "mode = ''and'' \<and> invert \<or> mode = ''or'' \<and> \<not> invert"
  shows "HeadlessRule_Match lib net rule md \<longleftrightarrow>
    (if invert then \<not> listed lib domains regexes (domainHost md) \<and> P (domainHost md)
     else listed lib domains regexes (domainHost md) \<or> P (domainHost md))"
proof (cases "domains = [] \<and> regexes = []")
  case True
  then show ?thesis using assms by (simp add: wrapRule_def listed_def)
next
  case False
  then obtain r1 r2 where "NewHeadlessRule networkManager lib (adguardRule domains regexes invert) = Inr r1"
    and "NewHeadlessRule networkManager lib currentRule = Inr r2" and "rule = LogicalRule [r1, r2] mode False None"
    using assms(1,3) by (auto simp: wrapRule_def logicalOptions_def bindE_Inr_iff cause_Inr_iff logicalMode_def split: if_splits)
  then show ?thesis using assms(2,3) adguardRule_built [of networkManager lib domains regexes invert r1]
    by (auto simp: Match_two)
qed

lemma toRule_built:
  assumes "NewHeadlessRule networkManager lib (toRule ruleLines) = Inr rule"
  shows "HeadlessRule_Match lib net rule md \<longleftrightarrow> blocked lib ruleLines (domainHost md)"
proof -
  note plain = adguardRule_built [THEN conjunct2, of networkManager lib "linesOf ruleLines False False False" "linesOf ruleLines False True False" False]
  note exceptions = wrapRule_built [where net = net and P = "listed lib (linesOf ruleLines False False False) (linesOf ruleLines False True False)",
      of networkManager lib "''and''" True]
  show ?thesis using assms unfolding toRule_def blocked_def hit_def
    by (subst wrapRule_built [where net = net and P = "\<lambda>h. listed lib (linesOf ruleLines True False False) (linesOf ruleLines True True False) h \<or>
        \<not> listed lib (linesOf ruleLines False False True) (linesOf ruleLines False True True) h \<and>
        listed lib (linesOf ruleLines False False False) (linesOf ruleLines False True False) h"], assumption)
      (simp_all add: wrapRule_built [where net = net and P = "\<lambda>h.
          \<not> listed lib (linesOf ruleLines False False True) (linesOf ruleLines False True True) h \<and>
          listed lib (linesOf ruleLines False False False) (linesOf ruleLines False True False) h"] exceptions plain)
qed

section \<open>Printing\<close>

definition listsOf :: "agdguardRuleLine list \<Rightarrow> AdLists" where
  "listsOf ls =
     \<lparr>ad_importantDomain = linesOf ls True False False, ad_importantDomainRegex = linesOf ls True True False,
      ad_importantExcludeDomain = linesOf ls True False True, ad_importantExcludeDomainRegex = linesOf ls True True True,
      ad_domain = linesOf ls False False False, ad_domainRegex = linesOf ls False True False,
      ad_excludeDomain = linesOf ls False False True, ad_excludeDomainRegex = linesOf ls False True True\<rparr>"

lemma parseRule_plain:
  "parseRule (adguardRule domains regexes False) a =
     Some (if domains = [] \<and> regexes = [] then Inl adguardErrInvalid else Inr (a\<lparr>ad_domain := domains, ad_domainRegex := regexes\<rparr>))"
  by (subst parseRule.simps) (simp add: adguardRule_def defaultOptions_def)

lemma parseRule_exceptions:
  "parseRule (wrapRule ''and'' True domains regexes currentRule) a =
     (if domains = [] \<and> regexes = [] then parseRule currentRule a
      else if ad_importantExcludeDomain a = [] \<and> ad_importantExcludeDomainRegex a = []
      then parseRule currentRule (a\<lparr>ad_importantExcludeDomain := domains, ad_importantExcludeDomainRegex := regexes\<rparr>)
      else parseRule currentRule (a\<lparr>ad_excludeDomain := domains, ad_excludeDomainRegex := regexes\<rparr>))"
proof (cases "domains = [] \<and> regexes = []")
  case False
  then show ?thesis
    by (subst parseRule.simps) (auto simp: wrapRule_def adguardRule_def defaultOptions_def logicalOptions_def Let_def)
qed (simp add: wrapRule_def)

lemma parseRule_important:
  "parseRule (wrapRule ''or'' False domains regexes currentRule) a =
     (if domains = [] \<and> regexes = [] then parseRule currentRule a
      else parseRule currentRule (a\<lparr>ad_importantDomain := domains, ad_importantDomainRegex := regexes\<rparr>))"
proof (cases "domains = [] \<and> regexes = []")
  case False
  then show ?thesis
    by (subst parseRule.simps) (auto simp: wrapRule_def adguardRule_def defaultOptions_def logicalOptions_def Let_def)
qed (simp add: wrapRule_def)

lemma FromOptions_toRule:
  assumes "linesOf ls False False False \<noteq> [] \<or> linesOf ls False True False \<noteq> []"
  shows "FromOptions [toRule ls] = Some (Inr (printLists
    (if linesOf ls True False True = [] \<and> linesOf ls True True True = []
     then (listsOf ls)\<lparr>ad_importantExcludeDomain := linesOf ls False False True, ad_importantExcludeDomainRegex := linesOf ls False True True,
            ad_excludeDomain := [], ad_excludeDomainRegex := []\<rparr>
     else listsOf ls)))"
proof -
  have plain: "parseRule (adguardRule (linesOf ls False False False) (linesOf ls False True False) False) a =
    Some (Inr (a\<lparr>ad_domain := linesOf ls False False False, ad_domainRegex := linesOf ls False True False\<rparr>))" for a
    using assms by (auto simp: parseRule_plain)
  show ?thesis
    by (cases "linesOf ls True False True = [] \<and> linesOf ls True True True = []";
        cases "linesOf ls True False False = [] \<and> linesOf ls True True False = []";
        cases "linesOf ls False False True = [] \<and> linesOf ls False True True = []")
      (auto simp: FromOptions_def toRule_def parseRule_exceptions parseRule_important plain noLists_def listsOf_def)
qed

lemma ToOptions_rule:
  assumes "ToOptions A lib content = Inr rules" and "parseLines A lib (scanLines content) = Inr (ls, n)"
    and "\<not> list_all al_isRawDomain ls"
  shows "rules = [toRule ls]"
  using assms by (auto simp: ToOptions_def split: if_splits)

section \<open>Properties\<close>

text \<open>
  C35: the rule that \<open>ToOptions\<close> makes of an AdGuard list, built and evaluated like any rule of a
  rule-set, matches exactly the hosts that the list blocks: those hit by an important rule, or by a rule
  and no exception, unless an important exception hits them. It holds for every list with something
  else than plain domains, of which the rule is a plain list of domains.
\<close>

theorem converted_list_blocks_its_hosts:
  assumes "ToOptions A lib content = Inr [options]" and "parseLines A lib (scanLines content) = Inr (ls, ignored)"
    and "\<not> list_all al_isRawDomain ls" and "NewHeadlessRule networkManager lib options = Inr rule"
  shows "HeadlessRule_Match lib net rule md \<longleftrightarrow> blocked lib ls (domainHost md)"
  using toRule_built ToOptions_rule [OF assms(1,2,3)] assms(4) by simp

text \<open>
  Printing the rule of a list recovers the lines of the list, each with the marks of its kind, when
  the list has important exceptions or no exceptions at all.
\<close>

theorem printed_list_has_the_lines:
  assumes "ToOptions A lib content = Inr rules" and "parseLines A lib (scanLines content) = Inr (ls, ignored)"
    and "\<not> list_all al_isRawDomain ls" and "linesOf ls False False False \<noteq> [] \<or> linesOf ls False True False \<noteq> []"
    and "linesOf ls True False True \<noteq> [] \<or> linesOf ls True True True \<noteq> [] \<or>
      linesOf ls False False True = [] \<and> linesOf ls False True True = []"
  shows "FromOptions rules = Some (Inr (printLists (listsOf ls)))"
  using FromOptions_toRule [OF assms(4)] ToOptions_rule [OF assms(1,2,3)] assms(5) by (auto simp: listsOf_def)

text \<open>
  Without important exceptions, the exceptions of a list are printed as important ones: they then
  overrule important rules.
\<close>

theorem printed_exceptions_become_important:
  assumes "linesOf ls False False False \<noteq> []" and "linesOf ls False False True = [line]" and "linesOf ls False True True = []"
    and "linesOf ls True False True = []" and "linesOf ls True True True = []"
  shows "\<exists>before after. FromOptions [toRule ls] = Some (Inr (before @ ''@@'' @ line @ ''$important'' @ [CHR 0x0A] @ after)) \<and>
    after = printLines '''' '''' (linesOf ls False False False) @ printLines ''/'' ''/'' (linesOf ls False True False)"
  using FromOptions_toRule [of ls] assms
  by (simp add: printLists_def listsOf_def printLines_def)

text \<open>
  A list of important rules or exceptions only is converted to a rule that no rule-set accepts, because
  the innermost rule has no conditions.
\<close>

theorem list_without_plain_rules_is_refused:
  assumes "linesOf ls False False False = []" and "linesOf ls False True False = []"
  shows "NewHeadlessRule networkManager lib (toRule ls) = Inl (E_New [AStr ''missing conditions''])"
proof -
  have v: "HeadlessRule_IsValid (adguardRule domains regexes invert) = Inr (domains \<noteq> [] \<or> regexes \<noteq> [])" for domains regexes invert
    by (auto simp: HeadlessRule_IsValid_def adguardRule_def defaultOptions_def DefaultHeadlessRule_IsValid_def emptyHeadlessRule_def)
  have w: "HeadlessRule_IsValid (wrapRule mode invert domains regexes r) = Inr False" if "HeadlessRule_IsValid r = Inr False" for mode invert domains regexes r
    using that v by (auto simp: wrapRule_def logicalOptions_def HeadlessRule_IsValid_def)
  have n: "NewHeadlessRule networkManager lib (wrapRule mode invert domains regexes r) = Inl (E_New [AStr ''missing conditions''])"
    if "HeadlessRule_IsValid r = Inr False" "NewHeadlessRule networkManager lib r = Inl (E_New [AStr ''missing conditions''])" for mode invert domains regexes r
    using that v by (auto simp: wrapRule_def logicalOptions_def LogicalHeadlessRule_IsValid_def LogicalOptions_IsValid_def HeadlessRule_IsValid_def)
  have "NewHeadlessRule networkManager lib (adguardRule [] [] False) = Inl (E_New [AStr ''missing conditions''])"
    by (simp add: adguardRule_def defaultOptions_def DefaultHeadlessRule_IsValid_def emptyHeadlessRule_def)
  then show ?thesis using assms n w v by (simp add: toRule_def)
qed

text \<open>A line that is a single slash makes the conversion panic.\<close>

theorem slash_line_panics:
  assumes "\<not> IsDomainName lib ''/''"
  shows "parseLine A lib ''/'' = Inl (Panic [AStr ''slice bounds out of range''])"
  using assms by (simp add: parseLine_def parseAdGuardHostLine_def parsePattern_def hasSuffix_def stringsContains_def Let_def)

text \<open>A line that does not fit into the buffer of the scanner ends the list without an error.\<close>

theorem long_line_ends_the_list:
  assumes "\<forall>l\<in>set before. CHR 0x0A \<notin> set l \<and> length l < 65536" and "CHR 0x0A \<notin> set long" and "length long \<ge> 65536"
  shows "scanLines (concat (map (\<lambda>l. l @ [CHR 0x0A]) before) @ long @ [CHR 0x0A] @ after) = map dropCR before"
proof -
  have ne: "stringsSplit sep s \<noteq> []" for sep s by (induction s) (auto split: list.splits)
  have split: "stringsSplit sep (l @ sep # s) = l # stringsSplit sep s" if "sep \<notin> set l" for sep l s
    using that ne [of sep s] by (induction l) (auto split: list.splits)
  have "stringsSplit CHR 0x0A (concat (map (\<lambda>l. l @ [CHR 0x0A]) before) @ long @ [CHR 0x0A] @ after) = before @ long # stringsSplit CHR 0x0A after"
    using assms(1,2) by (induction before) (simp_all add: split)
  moreover have "takeWhile (\<lambda>line. length line < 65536) (before @ long # xs) = before" for xs
    using assms(1,3) by (subst takeWhile_append2) auto
  ultimately show ?thesis using ne [of "CHR 0x0A" after]
    by (auto simp: scanLines_def Let_def butlast_append)
qed

text \<open>The witnesses: a list with a rule, an important rule and an exception.\<close>

definition adLib :: AdLib where
  "adLib =
     \<lparr>ag_ParseAddr = (\<lambda>s. AddrNone), ag_SubstringBefore = (\<lambda>s sep. takeWhile (\<lambda>c. [c] \<noteq> sep) s),
      ag_SubstringAfter = (\<lambda>s sep. tl (dropWhile (\<lambda>c. [c] \<noteq> sep) s))\<rparr>"

definition filterLib :: Lib where
  "filterLib = sampleLib\<lparr>IsDomainName := list_all (\<lambda>c. c \<in> set ''abx''), domainNewAdGuardMatcher := (\<lambda>ds d. list_ex (\<lambda>l. stringsContains l d) ds)\<rparr>"

definition filterList :: string where
  "filterList = ''||a^'' @ [CHR 0x0A] @ ''||b^$important'' @ [CHR 0x0A] @ ''@@||ab^$important'' @ [CHR 0x0A]"

definition filterLines :: "agdguardRuleLine list" where
  "filterLines =
     [\<lparr>al_ruleLine = ''a'', al_isRawDomain = False, al_isExclude = False, al_isSuffix = True, al_hasStart = False, al_hasEnd = True,
       al_isRegexp = False, al_isImportant = False\<rparr>,
      \<lparr>al_ruleLine = ''b'', al_isRawDomain = False, al_isExclude = False, al_isSuffix = True, al_hasStart = False, al_hasEnd = True,
       al_isRegexp = False, al_isImportant = True\<rparr>,
      \<lparr>al_ruleLine = ''ab'', al_isRawDomain = False, al_isExclude = True, al_isSuffix = True, al_hasStart = False, al_hasEnd = True,
       al_isRegexp = False, al_isImportant = True\<rparr>]"

lemma filter_parsed: "parseLines adLib filterLib (scanLines filterList) = Inr (filterLines, 0)"
proof -
  have "scanLines filterList = [''||a^'', ''||b^$important'', ''@@||ab^$important'']"
    by (simp add: scanLines_def filterList_def dropCR_def)
  moreover have "parseLine adLib filterLib ''||a^'' = Inr (AcceptLine (filterLines ! 0))"
    "parseLine adLib filterLib ''||b^$important'' = Inr (AcceptLine (filterLines ! 1))"
    "parseLine adLib filterLib ''@@||ab^$important'' = Inr (AcceptLine (filterLines ! 2))"
    by code_simp+
  ultimately show ?thesis by (simp add: filterLines_def)
qed

lemma filter_lines:
  "\<not> list_all al_isRawDomain filterLines \<and> filterLines \<noteq> [] \<and> linesOf filterLines False False False = [''||a^''] \<and>
   linesOf filterLines True False True = [''||ab^''] \<and> linesOf filterLines True False False = [''||b^''] \<and> linesOf filterLines False False True = [] \<and>
   linesOf filterLines False True False = [] \<and> linesOf filterLines True True True = [] \<and> linesOf filterLines True True False = [] \<and>
   linesOf filterLines False True True = []"
  by (simp add: filterLines_def linesOf_def mapDomain_def)

lemma filter_converted: "ToOptions adLib filterLib filterList = Inr [toRule filterLines]"
  using filter_parsed filter_lines by (simp add: ToOptions_def)

lemma filter_built: "\<exists>rule. NewHeadlessRule False filterLib (toRule filterLines) = Inr rule"
  using filter_lines
  by (simp add: toRule_def wrapRule_def adguardRule_def defaultOptions_def logicalOptions_def emptyHeadlessRule_def LogicalHeadlessRule_IsValid_def
      LogicalOptions_IsValid_def DefaultHeadlessRule_IsValid_def NewDefaultHeadlessRule_def headlessFrontSteps_def headlessProcessSteps_def
      on_def onE_def onElse_def logicalMode_def)

theorem converted_list_blocks_its_hosts_witness:
  "\<exists>rule. NewHeadlessRule False filterLib (toRule filterLines) = Inr rule \<and>
     HeadlessRule_Match filterLib sampleNet rule (sampleContext ''b'') = blocked filterLib filterLines ''b''"
proof -
  obtain rule where r: "NewHeadlessRule False filterLib (toRule filterLines) = Inr rule" using filter_built by blast
  have "domainHost (sampleContext ''b'') = ''b''" by (simp add: domainHost_def sampleContext_def emptyInboundContext_def)
  then show ?thesis
    using converted_list_blocks_its_hosts [OF filter_converted filter_parsed filter_lines [THEN conjunct1] r, of sampleNet "sampleContext ''b''"] r by auto
qed

theorem printed_list_has_the_lines_witness: "FromOptions [toRule filterLines] = Some (Inr (printLists (listsOf filterLines)))"
  using printed_list_has_the_lines [OF filter_converted filter_parsed filter_lines [THEN conjunct1]] filter_lines by simp

end
