(* ===== verification/Dns_Transport.thy ===== *)
theory Dns_Transport
  imports Dns_Message
begin

text \<open>
  What the connections to DNS servers share (\<open>dns/transport\<close>): the state of a transport with its queries
  in flight (\<open>base.go\<close>), the connector that dials at most once at a time (\<open>connector.go\<close>), the queries of
  a UDP transport (\<open>udp.go\<close>), the framing of messages on streams (\<open>tcp.go\<close>) and the pool of TLS
  connections (\<open>tls.go\<close>).

  The code runs concurrently. A section under a lock is a function here; what happens between two
  sections (dials, waiting for channels) is a step of its own in the relations \<open>baseStep\<close>, \<open>connectorStep\<close>,
  \<open>udpStep\<close> and \<open>poolStep\<close>. Connections, channels and callers are natural numbers.
\<close>

definition ErrTransportClosed :: Error where
  "ErrTransportClosed = E_Lib ''file already closed''"

section \<open>State of a transport\<close>

datatype TransportState = StateNew | StateStarted | StateClosing | StateClosed

fun stateClosing :: "TransportState \<Rightarrow> bool" where
  "stateClosing StateClosing = True"
| "stateClosing StateClosed = True"
| "stateClosing s = False"

text \<open>
  The channel \<open>queriesComplete\<close> is represented by whether it is there; the counter is an \<open>int32\<close>, which
  wraps around and is compared as a signed number.
\<close>

record BaseTransport =
  bt_state :: TransportState
  bt_inFlight :: u32
  bt_queriesComplete :: bool
  bt_closeCtx :: bool

definition NewBaseTransport :: BaseTransport where
  "NewBaseTransport = \<lparr>bt_state = StateNew, bt_inFlight = 0, bt_queriesComplete = False, bt_closeCtx = False\<rparr>"

definition SetStarted :: "BaseTransport \<Rightarrow> Error option \<times> BaseTransport" where
  "SetStarted t =
     (case bt_state t of
        StateNew \<Rightarrow> (None, t\<lparr>bt_state := StateStarted\<rparr>)
      | StateStarted \<Rightarrow> (None, t)
      | _ \<Rightarrow> (Some ErrTransportClosed, t))"

definition BeginQuery :: "BaseTransport \<Rightarrow> bool \<times> BaseTransport" where
  "BeginQuery t = (if bt_state t \<noteq> StateStarted then (False, t) else (True, t\<lparr>bt_inFlight := bt_inFlight t + 1\<rparr>))"

text \<open>The flag of \<open>EndQuery\<close> says whether the channel has been closed, which wakes \<open>Shutdown\<close>.\<close>

definition EndQuery :: "BaseTransport \<Rightarrow> bool \<times> BaseTransport" where
  "EndQuery t =
     (let t1 = (if sint (bt_inFlight t) > 0 then t\<lparr>bt_inFlight := bt_inFlight t - 1\<rparr> else t)
      in if bt_inFlight t1 = 0 \<and> bt_queriesComplete t1 then (True, t1\<lparr>bt_queriesComplete := False\<rparr>) else (False, t1))"

text \<open>\<open>Shutdown\<close> up to its wait, with whether it waits, and after it.\<close>

definition ShutdownBegin :: "BaseTransport \<Rightarrow> bool \<times> BaseTransport" where
  "ShutdownBegin t =
     (if stateClosing (bt_state t) then (False, t)
      else if bt_state t = StateNew then (False, t\<lparr>bt_state := StateClosed, bt_closeCtx := True\<rparr>)
      else if bt_inFlight t = 0 then (False, t\<lparr>bt_state := StateClosed, bt_closeCtx := True\<rparr>)
      else (True, t\<lparr>bt_state := StateClosing, bt_queriesComplete := True, bt_closeCtx := True\<rparr>))"

definition ShutdownEnd :: "BaseTransport \<Rightarrow> BaseTransport" where
  "ShutdownEnd t = t\<lparr>bt_state := StateClosed\<rparr>"

text \<open>
  Runs: the queries that have begun and not ended, and a shutdown that waits or has been woken. Fewer
  than 2^31 queries run at a time.
\<close>

record BaseRun =
  br_t :: BaseTransport
  br_pending :: nat
  br_waiting :: bool
  br_signalled :: bool

definition newBaseRun :: BaseRun where
  "newBaseRun = \<lparr>br_t = NewBaseTransport, br_pending = 0, br_waiting = False, br_signalled = False\<rparr>"

inductive baseStep :: "BaseRun \<Rightarrow> BaseRun \<Rightarrow> bool" where
  base_started: "SetStarted (br_t r) = (err, t) \<Longrightarrow> baseStep r (r\<lparr>br_t := t\<rparr>)"
| base_begin: "Suc (br_pending r) < 2 ^ 31 \<Longrightarrow> BeginQuery (br_t r) = (True, t) \<Longrightarrow> baseStep r (r\<lparr>br_t := t, br_pending := Suc (br_pending r)\<rparr>)"
| base_end: "br_pending r = Suc n \<Longrightarrow> EndQuery (br_t r) = (woken, t) \<Longrightarrow>
    baseStep r (r\<lparr>br_t := t, br_pending := n, br_signalled := br_signalled r \<or> woken\<rparr>)"
| base_shutdown: "ShutdownBegin (br_t r) = (waits, t) \<Longrightarrow> baseStep r (r\<lparr>br_t := t, br_waiting := br_waiting r \<or> waits\<rparr>)"
| base_woken: "br_waiting r \<Longrightarrow> br_signalled r \<Longrightarrow> baseStep r (r\<lparr>br_t := ShutdownEnd (br_t r), br_waiting := False\<rparr>)"
| base_timeout: "br_waiting r \<Longrightarrow> baseStep r (r\<lparr>br_t := ShutdownEnd (br_t r), br_waiting := False\<rparr>)"

section \<open>The connector\<close>

record Connector =
  cn_connection :: nat
  cn_hasConnection :: bool
  cn_connectionCancel :: "nat option"
  cn_connecting :: "nat option"
  cn_closed :: bool

definition NewConnector :: Connector where
  "NewConnector = \<lparr>cn_connection = 0, cn_hasConnection = False, cn_connectionCancel = None, cn_connecting = None, cn_closed = False\<rparr>"

text \<open>
  One turn of the loop of \<open>Get\<close> under the lock: it returns, waits for a channel and turns again, or
  dials with a new channel.
\<close>

datatype GetTurn = GetReturn "nat result" | GetWait nat | GetDial nat

definition errRecursiveConnectorDial :: Error where
  "errRecursiveConnectorDial = E_New [AStr ''recursive connector dial'']"

definition Connector_Get :: "(nat \<Rightarrow> bool) \<Rightarrow> bool \<Rightarrow> Error option \<Rightarrow> nat \<Rightarrow> Connector \<Rightarrow> GetTurn \<times> Connector" where
  "Connector_Get isClosed recursive ctxErr channel c =
     (if cn_closed c then (GetReturn (Inl ErrTransportClosed), c)
      else if cn_hasConnection c \<and> \<not> isClosed (cn_connection c) then (GetReturn (Inr (cn_connection c)), c)
      else let c1 = c\<lparr>cn_hasConnection := False, cn_connectionCancel := None\<rparr>
           in if recursive then (GetReturn (Inl errRecursiveConnectorDial), c1)
              else case cn_connecting c1 of
                     Some connecting \<Rightarrow> (GetWait connecting, c1)
                   | None \<Rightarrow>
                       (case ctxErr of
                          Some err \<Rightarrow> (GetReturn (Inl err), c1)
                        | None \<Rightarrow> (GetDial channel, c1\<lparr>cn_connecting := Some channel\<rparr>)))"

text \<open>\<open>dialWithCancellation\<close>: an error of the context before the dial, or the outcome of the dial.\<close>

definition dialWithCancellation :: "Error option \<Rightarrow> nat result \<Rightarrow> nat result" where
  "dialWithCancellation ctxErr outcome = (case ctxErr of Some err \<Rightarrow> Inl err | None \<Rightarrow> outcome)"

text \<open>\<open>completeDial\<close>, with the connections that it closes.\<close>

definition completeDial :: "bool \<Rightarrow> Error option \<Rightarrow> nat \<Rightarrow> nat result \<Rightarrow> Connector \<Rightarrow> nat result \<times> Connector \<times> nat list" where
  "completeDial closeCtx ctxErr connecting result c =
     (let c1 = (if cn_connecting c = Some connecting then c\<lparr>cn_connecting := None\<rparr> else c)
      in case result of
           Inl err \<Rightarrow> (Inl err, c1, [])
         | Inr connection \<Rightarrow>
             if cn_closed c \<or> closeCtx then (Inl ErrTransportClosed, c1, [connection])
             else case ctxErr of
                    Some err \<Rightarrow> (Inl err, c1, [connection])
                  | None \<Rightarrow> (Inr connection, c1\<lparr>cn_connection := connection, cn_hasConnection := True, cn_connectionCancel := Some connection\<rparr>, []))"

definition Connector_Close :: "Connector \<Rightarrow> Connector \<times> nat list" where
  "Connector_Close c =
     (if cn_closed c then (c, [])
      else (c\<lparr>cn_closed := True, cn_connectionCancel := None, cn_hasConnection := False\<rparr>,
            if cn_hasConnection c then [cn_connection c] else []))"

definition Connector_Reset :: "Connector \<Rightarrow> Connector \<times> nat list" where
  "Connector_Reset c =
     (c\<lparr>cn_connectionCancel := None, cn_hasConnection := False\<rparr>, if cn_hasConnection c then [cn_connection c] else [])"

text \<open>
  Runs: the dials between \<open>Get\<close> and \<open>completeDial\<close> by their channels, with their outcome once they have
  one, the open connections, the channels that have been closed, and the numbers in use.
\<close>

record ConnectorRun =
  cr_c :: Connector
  cr_dials :: "nat \<Rightarrow> nat result option option"
  cr_open :: "nat set"
  cr_closedChannels :: "nat set"
  cr_used :: "nat set"
  cr_closeCtx :: bool

definition newConnectorRun :: ConnectorRun where
  "newConnectorRun =
     \<lparr>cr_c = NewConnector, cr_dials = (\<lambda>_. None), cr_open = {}, cr_closedChannels = {}, cr_used = {}, cr_closeCtx = False\<rparr>"

inductive connectorStep :: "ConnectorRun \<Rightarrow> ConnectorRun \<Rightarrow> bool" where
  connector_return: "Connector_Get (\<lambda>k. k \<notin> cr_open r) recursive ctxErr channel (cr_c r) = (turn, c) \<Longrightarrow> \<forall>ch. turn \<noteq> GetDial ch \<Longrightarrow>
    connectorStep r (r\<lparr>cr_c := c\<rparr>)"
| connector_dial: "Connector_Get (\<lambda>k. k \<notin> cr_open r) recursive ctxErr channel (cr_c r) = (GetDial channel, c) \<Longrightarrow> channel \<notin> cr_used r \<Longrightarrow>
    connectorStep r (r\<lparr>cr_c := c, cr_dials := (cr_dials r)(channel := Some None), cr_used := insert channel (cr_used r)\<rparr>)"
| connector_dialed: "cr_dials r channel = Some None \<Longrightarrow> dialWithCancellation ctxErr (Inr k) = Inr k \<Longrightarrow> k \<notin> cr_used r \<Longrightarrow>
    connectorStep r (r\<lparr>cr_dials := (cr_dials r)(channel := Some (Some (Inr k))), cr_open := insert k (cr_open r), cr_used := insert k (cr_used r)\<rparr>)"
| connector_failed: "cr_dials r channel = Some None \<Longrightarrow> dialWithCancellation ctxErr outcome = Inl err \<Longrightarrow>
    connectorStep r (r\<lparr>cr_dials := (cr_dials r)(channel := Some (Some (Inl err)))\<rparr>)"
| connector_complete: "cr_dials r channel = Some (Some outcome) \<Longrightarrow>
    completeDial (cr_closeCtx r) ctxErr channel outcome (cr_c r) = (result, c, closes) \<Longrightarrow>
    connectorStep r (r\<lparr>cr_c := c, cr_dials := (cr_dials r)(channel := None), cr_open := cr_open r - set closes,
      cr_closedChannels := insert channel (cr_closedChannels r)\<rparr>)"
| connector_close: "Connector_Close (cr_c r) = (c, closes) \<Longrightarrow> connectorStep r (r\<lparr>cr_c := c, cr_open := cr_open r - set closes\<rparr>)"
| connector_reset: "Connector_Reset (cr_c r) = (c, closes) \<Longrightarrow> connectorStep r (r\<lparr>cr_c := c, cr_open := cr_open r - set closes\<rparr>)"
| connector_broken: "connectorStep r (r\<lparr>cr_open := cr_open r - {k}\<rparr>)"
| connector_shutdown: "connectorStep r (r\<lparr>cr_closeCtx := True\<rparr>)"

section \<open>Queries over UDP\<close>

text \<open>\<open>nextAvailableQueryId\<close>: the identifiers are tried in turn, starting behind the last one.\<close>

function nextQueryId :: "(u16 \<Rightarrow> bool) \<Rightarrow> u16 \<Rightarrow> u16 \<Rightarrow> u16 result" where
  "nextQueryId used start queryId =
     (let nextId = queryId + 1
      in if \<not> used nextId then Inr nextId
         else if nextId = start then Inl (E_New [AStr ''no available query ID''])
         else nextQueryId used start nextId)"
  by pat_completeness auto

termination
proof (relation "measure (\<lambda>(used, start, queryId). if queryId = start then 65536 else unat (start - queryId))", simp, goal_cases)
  case (1 used start queryId nextId)
  show ?case
  proof (cases "queryId = start")
    case True
    then show ?thesis using 1 unsigned_less [of "start - nextId"] by simp
  next
    case False
    have e: "start - nextId = (start - queryId) - 1" unfolding 1(1) by (simp add: algebra_simps)
    have "start - queryId \<noteq> 0" using False by simp
    then have "unat (start - nextId) = unat (start - queryId) - 1" "0 < unat (start - queryId)"
      unfolding e by (simp_all add: unat_minus_one unat_gt_0)
    then show ?thesis using False 1(3) by simp
  qed
qed

declare nextQueryId.simps [simp del]

record UdpQueries =
  uq_queryId :: u16
  uq_callbacks :: "u16 \<Rightarrow> Msg option option"
  uq_udpSize :: int

definition NewUDPRaw :: UdpQueries where
  "NewUDPRaw = \<lparr>uq_queryId = 0, uq_callbacks = (\<lambda>_. None), uq_udpSize = 2048\<rparr>"

definition nextAvailableQueryId :: "UdpQueries \<Rightarrow> u16 result \<times> UdpQueries" where
  "nextAvailableQueryId q =
     (case nextQueryId (\<lambda>i. uq_callbacks q i \<noteq> None) (uq_queryId q) (uq_queryId q) of
        Inl err \<Rightarrow> (Inl err, q)
      | Inr i \<Rightarrow> (Inr i, q\<lparr>uq_queryId := i\<rparr>))"

text \<open>The size of the receive buffer grows with the size a query announces; the connection is then replaced.\<close>

definition growUdpSize :: "int option \<Rightarrow> UdpQueries \<Rightarrow> bool \<times> UdpQueries" where
  "growUdpSize announced q =
     (case announced of
        None \<Rightarrow> (False, q)
      | Some udpSize \<Rightarrow> if udpSize \<le> uq_udpSize q then (False, q) else (True, q\<lparr>uq_udpSize := udpSize\<rparr>))"

text \<open>
  \<open>exchange\<close>: registering the callback of a query, its end with the response under the identifier of the
  query, and \<open>recvLoop\<close> for one message.
\<close>

definition udpExchangeBegin :: "UdpQueries \<Rightarrow> u16 result \<times> UdpQueries" where
  "udpExchangeBegin q =
     (case nextAvailableQueryId q of
        (Inl err, q1) \<Rightarrow> (Inl err, q1)
      | (Inr queryId, q1) \<Rightarrow> (Inr queryId, q1\<lparr>uq_callbacks := (uq_callbacks q1)(queryId := Some None)\<rparr>))"

definition udpReceive :: "Msg \<Rightarrow> UdpQueries \<Rightarrow> UdpQueries" where
  "udpReceive message q =
     (case uq_callbacks q (ms_Id message) of
        Some None \<Rightarrow> q\<lparr>uq_callbacks := (uq_callbacks q)(ms_Id message := Some (Some message))\<rparr>
      | _ \<Rightarrow> q)"

text \<open>
  The end of a query, by the case that its \<open>select\<close> takes (or an error before): the response, once there is
  one, or the error of another case. Without a response the first case is not there to be taken.
\<close>

definition udpExchangeEnd :: "u16 \<Rightarrow> u16 \<Rightarrow> Error option \<Rightarrow> UdpQueries \<Rightarrow> (Msg result \<times> UdpQueries) option" where
  "udpExchangeEnd queryId originalId selected q =
     (let q1 = q\<lparr>uq_callbacks := (uq_callbacks q)(queryId := None)\<rparr>
      in case selected of
           Some err \<Rightarrow> Some (Inl err, q1)
         | None \<Rightarrow> (case uq_callbacks q queryId of Some (Some response) \<Rightarrow> Some (Inr (response\<lparr>ms_Id := originalId\<rparr>), q1) | _ \<Rightarrow> None))"

text \<open>
  A message of \<open>recvLoop\<close> counts when it reaches its callback; one that reaches a callback no longer
  registered is not seen by anyone.

  Runs: the callers with their identifiers on the wire and in their queries, and for each of them the
  messages under its identifier that have come since it was registered.
\<close>

record UdpRun =
  ur_q :: UdpQueries
  ur_callers :: "nat \<Rightarrow> (u16 \<times> u16) option"
  ur_log :: "nat \<Rightarrow> Msg list"
  ur_results :: "nat \<Rightarrow> Msg result option"

definition newUdpRun :: UdpRun where
  "newUdpRun = \<lparr>ur_q = NewUDPRaw, ur_callers = (\<lambda>_. None), ur_log = (\<lambda>_. []), ur_results = (\<lambda>_. None)\<rparr>"

definition logMessage :: "Msg \<Rightarrow> UdpRun \<Rightarrow> nat \<Rightarrow> Msg list" where
  "logMessage message r caller =
     (case ur_callers r caller of
        Some (queryId, _) \<Rightarrow> if queryId = ms_Id message then ur_log r caller @ [message] else ur_log r caller
      | None \<Rightarrow> ur_log r caller)"

inductive udpStep :: "UdpRun \<Rightarrow> UdpRun \<Rightarrow> bool" where
  udp_begin: "ur_callers r caller = None \<Longrightarrow> udpExchangeBegin (snd (growUdpSize announced (ur_q r))) = (Inr queryId, q) \<Longrightarrow>
    udpStep r (r\<lparr>ur_q := q, ur_callers := (ur_callers r)(caller := Some (queryId, originalId)), ur_log := (ur_log r)(caller := [])\<rparr>)"
| udp_refused: "udpExchangeBegin (snd (growUdpSize announced (ur_q r))) = (Inl err, q) \<Longrightarrow> udpStep r (r\<lparr>ur_q := q\<rparr>)"
| udp_receive: "udpStep r (r\<lparr>ur_q := udpReceive message (ur_q r), ur_log := logMessage message r\<rparr>)"
| udp_end: "ur_callers r caller = Some (queryId, originalId) \<Longrightarrow> udpExchangeEnd queryId originalId selected (ur_q r) = Some (result, q) \<Longrightarrow>
    udpStep r (r\<lparr>ur_q := q, ur_callers := (ur_callers r)(caller := None), ur_results := (ur_results r)(caller := Some result)\<rparr>)"

section \<open>Messages on streams\<close>

text \<open>
  The codec of the DNS library: the length of a message without compression, packing with compression,
  and unpacking.
\<close>

record MsgLib =
  ml_Len :: "Msg \<Rightarrow> nat"
  ml_Pack :: "Msg \<Rightarrow> bytes result"
  ml_Unpack :: "bytes \<Rightarrow> Msg result"

definition WriteMessage :: "MsgLib \<Rightarrow> u16 \<Rightarrow> Msg \<Rightarrow> bytes result" where
  "WriteMessage M messageId message =
     bindE (ml_Pack M (message\<lparr>ms_Id := messageId\<rparr>)) (\<lambda>rawMessage. Inr (bytesOfNat 2 (ml_Len M message mod 65536) @ rawMessage))"

definition ReadMessage :: "MsgLib \<Rightarrow> bytes \<Rightarrow> (Msg \<times> bytes) result" where
  "ReadMessage M bs =
     bindE (readN 2 bs) (\<lambda>(prefix, bs1).
       let responseLen = bigEndian prefix
       in if responseLen < 10 then Inl (E_Lib ''dns: short read'')
          else bindE (readN responseLen bs1) (\<lambda>(content, bs2). bindE (ml_Unpack M content) (\<lambda>message. Inr (message, bs2))))"

text \<open>
  An exchange over a stream: what is sent, and what is made of the bytes of the server (\<open>exchangeTCP\<close> of
  \<open>udp.go\<close> with the identifier of the message, \<open>Exchange\<close> of \<open>tcp.go\<close> with 0).
\<close>

definition exchangeStream :: "MsgLib \<Rightarrow> u16 \<Rightarrow> Error option \<Rightarrow> (bytes \<Rightarrow> bytes result) \<Rightarrow> Msg \<Rightarrow> Msg result" where
  "exchangeStream M messageId dialErr server message =
     (case dialErr of
        Some err \<Rightarrow> Inl (E_Cause err [AStr ''dial TCP connection''])
      | None \<Rightarrow>
          (case bindE (WriteMessage M messageId message) server of
             Inl err \<Rightarrow> Inl (E_Cause err [AStr ''write request''])
           | Inr answer \<Rightarrow>
               (case ReadMessage M answer of
                  Inl err \<Rightarrow> Inl (E_Cause err [AStr ''read response''])
                | Inr (response, _) \<Rightarrow> Inr response)))"

definition TCPTransport_Exchange :: "MsgLib \<Rightarrow> Error option \<Rightarrow> (bytes \<Rightarrow> bytes result) \<Rightarrow> Msg \<Rightarrow> Msg result" where
  "TCPTransport_Exchange M = exchangeStream M 0"

definition exchangeTCP :: "MsgLib \<Rightarrow> Error option \<Rightarrow> (bytes \<Rightarrow> bytes result) \<Rightarrow> Msg \<Rightarrow> Msg result" where
  "exchangeTCP M dialErr server message = exchangeStream M (ms_Id message) dialErr server message"

text \<open>
  \<open>Exchange\<close> of \<open>udp.go\<close>: what comes after the exchange over UDP. The truncation flag of the message is
  a parameter.
\<close>

definition UDPTransport_Exchange ::
  "MsgLib \<Rightarrow> (Msg \<Rightarrow> bool) \<Rightarrow> BaseTransport \<Rightarrow> Msg result \<Rightarrow> Error option \<Rightarrow> (bytes \<Rightarrow> bytes result) \<Rightarrow> Msg \<Rightarrow> Msg result" where
  "UDPTransport_Exchange M truncated t udpResult dialErr server message =
     (if \<not> fst (BeginQuery t) then Inl ErrTransportClosed
      else bindE udpResult (\<lambda>response. if truncated response then exchangeTCP M dialErr server message else Inr response))"

section \<open>The pool of TLS connections\<close>

record TlsPool =
  tp_base :: BaseTransport
  tp_connections :: "nat list"

text \<open>
  \<open>Exchange\<close>: the pooled connection it takes; \<open>exchange\<close> after a response, under the lock of the pool: the
  check of the state, which takes and releases the lock of the transport, and the return of the
  connection to the pool.
\<close>

definition popConnection :: "TlsPool \<Rightarrow> nat option \<times> TlsPool" where
  "popConnection p = (case tp_connections p of [] \<Rightarrow> (None, p) | k # ks \<Rightarrow> (Some k, p\<lparr>tp_connections := ks\<rparr>))"

definition mayReturn :: "TlsPool \<Rightarrow> bool" where
  "mayReturn p = (\<not> stateClosing (bt_state (tp_base p)))"

definition returnConnection :: "nat \<Rightarrow> TlsPool \<Rightarrow> TlsPool" where
  "returnConnection k p = p\<lparr>tp_connections := tp_connections p @ [k]\<rparr>"

text \<open>\<open>Close\<close> first empties the pool and then closes the transport; \<open>Reset\<close> only empties the pool.\<close>

definition drainPool :: "TlsPool \<Rightarrow> TlsPool \<times> nat list" where
  "drainPool p = (p\<lparr>tp_connections := []\<rparr>, tp_connections p)"

text \<open>
  Runs: the phase of every query between \<open>BeginQuery\<close> and \<open>EndQuery\<close>, the open connections and the
  numbers in use. A query that has begun takes a pooled connection or dials; when the exchange over a
  pooled connection fails it dials, when the one over a dialed connection fails it ends. After a
  response it takes the lock of the pool and checks the state: it either goes on to return the
  connection, holding the lock (\<open>Returning\<close>), or releases the lock and closes the connection
  (\<open>Discarding\<close>). \<open>Shutdown\<close> does not take the lock of the pool.
\<close>

datatype QueryPhase = Begun | Dialing | Exchanging nat bool | Returning nat | Discarding nat | Finished

record PoolRun =
  pr_p :: TlsPool
  pr_query :: "nat \<Rightarrow> QueryPhase option"
  pr_open :: "nat set"
  pr_used :: "nat set"

definition newPoolRun :: PoolRun where
  "newPoolRun = \<lparr>pr_p = \<lparr>tp_base = NewBaseTransport, tp_connections = []\<rparr>, pr_query = (\<lambda>_. None), pr_open = {}, pr_used = {}\<rparr>"

definition accessFree :: "PoolRun \<Rightarrow> bool" where
  "accessFree r \<longleftrightarrow> (\<forall>q k. pr_query r q \<noteq> Some (Returning k))"

inductive poolStep :: "PoolRun \<Rightarrow> PoolRun \<Rightarrow> bool" where
  pool_started: "SetStarted (tp_base (pr_p r)) = (err, t) \<Longrightarrow> poolStep r (r\<lparr>pr_p := (pr_p r)\<lparr>tp_base := t\<rparr>\<rparr>)"
| pool_begin: "pr_query r q = None \<Longrightarrow> BeginQuery (tp_base (pr_p r)) = (True, t) \<Longrightarrow>
    poolStep r (r\<lparr>pr_p := (pr_p r)\<lparr>tp_base := t\<rparr>, pr_query := (pr_query r)(q := Some Begun)\<rparr>)"
| pool_pooled: "accessFree r \<Longrightarrow> pr_query r q = Some Begun \<Longrightarrow> popConnection (pr_p r) = (Some k, p) \<Longrightarrow>
    poolStep r (r\<lparr>pr_p := p, pr_query := (pr_query r)(q := Some (Exchanging k True))\<rparr>)"
| pool_empty: "accessFree r \<Longrightarrow> pr_query r q = Some Begun \<Longrightarrow> popConnection (pr_p r) = (None, p) \<Longrightarrow>
    poolStep r (r\<lparr>pr_p := p, pr_query := (pr_query r)(q := Some Dialing)\<rparr>)"
| pool_dialed: "pr_query r q = Some Dialing \<Longrightarrow> k \<notin> pr_used r \<Longrightarrow>
    poolStep r (r\<lparr>pr_query := (pr_query r)(q := Some (Exchanging k False)), pr_open := insert k (pr_open r), pr_used := insert k (pr_used r)\<rparr>)"
| pool_unreachable: "pr_query r q = Some Dialing \<Longrightarrow> poolStep r (r\<lparr>pr_query := (pr_query r)(q := Some Finished)\<rparr>)"
| pool_failed: "pr_query r q = Some (Exchanging k pooled) \<Longrightarrow>
    poolStep r (r\<lparr>pr_query := (pr_query r)(q := Some (if pooled then Dialing else Finished)), pr_open := pr_open r - {k}\<rparr>)"
| pool_answered: "accessFree r \<Longrightarrow> pr_query r q = Some (Exchanging k pooled) \<Longrightarrow>
    poolStep r (r\<lparr>pr_query := (pr_query r)(q := Some (if mayReturn (pr_p r) then Returning k else Discarding k))\<rparr>)"
| pool_returned: "pr_query r q = Some (Returning k) \<Longrightarrow>
    poolStep r (r\<lparr>pr_p := returnConnection k (pr_p r), pr_query := (pr_query r)(q := Some Finished)\<rparr>)"
| pool_discarded: "pr_query r q = Some (Discarding k) \<Longrightarrow>
    poolStep r (r\<lparr>pr_query := (pr_query r)(q := Some Finished), pr_open := pr_open r - {k}\<rparr>)"
| pool_end: "pr_query r q = Some Finished \<Longrightarrow> EndQuery (tp_base (pr_p r)) = (woken, t) \<Longrightarrow>
    poolStep r (r\<lparr>pr_p := (pr_p r)\<lparr>tp_base := t\<rparr>, pr_query := (pr_query r)(q := None)\<rparr>)"
| pool_drained: "accessFree r \<Longrightarrow> drainPool (pr_p r) = (p, closes) \<Longrightarrow> poolStep r (r\<lparr>pr_p := p, pr_open := pr_open r - set closes\<rparr>)"
| pool_shutdown: "ShutdownBegin (tp_base (pr_p r)) = (waits, t) \<Longrightarrow> poolStep r (r\<lparr>pr_p := (pr_p r)\<lparr>tp_base := t\<rparr>\<rparr>)"
| pool_closed: "bt_state (tp_base (pr_p r)) = StateClosing \<Longrightarrow> poolStep r (r\<lparr>pr_p := (pr_p r)\<lparr>tp_base := ShutdownEnd (tp_base (pr_p r))\<rparr>\<rparr>)"

end
