(* ===== verification/Dns_Transport_Props.thy ===== *)
theory Dns_Transport_Props
  imports Dns_Transport
begin

text \<open>
  What the connections to DNS servers keep in every run: a shutdown waits exactly for the queries in
  flight, a connector dials once at a time and loses no connection, a UDP response reaches the query
  whose identifier it has, messages on a stream are read back, and TLS connections serve one query at
  a time. The invariants are proved once, by induction over the run, in the locale \<open>invariant_system\<close> of the prelude.
\<close>

section \<open>Shutdown\<close>

definition baseInv :: "BaseRun \<Rightarrow> bool" where
  "baseInv r \<longleftrightarrow>
     br_pending r < 2 ^ 31 \<and> bt_inFlight (br_t r) = word_of_nat (br_pending r) \<and>
     (bt_state (br_t r) = StateNew \<longrightarrow> br_pending r = 0) \<and>
     (bt_queriesComplete (br_t r) \<longrightarrow> 0 < br_pending r \<and> stateClosing (bt_state (br_t r))) \<and>
     (br_signalled r \<longrightarrow> br_pending r = 0 \<and> stateClosing (bt_state (br_t r))) \<and>
     (br_waiting r \<longleftrightarrow> bt_state (br_t r) = StateClosing) \<and>
     (br_waiting r \<longrightarrow> (br_signalled r \<longleftrightarrow> br_pending r = 0)) \<and>
     (br_waiting r \<and> 0 < br_pending r \<longrightarrow> bt_queriesComplete (br_t r))"

lemma stateClosing_iff: "stateClosing s \<longleftrightarrow> s = StateClosing \<or> s = StateClosed"
  by (cases s) simp_all

text \<open>The counter of fewer than 2^31 queries.\<close>

lemma inFlight_word:
  assumes "n < 2 ^ 31"
  shows "sint (word_of_nat n :: u32) = int n" and "(word_of_nat n :: u32) = 0 \<longleftrightarrow> n = 0"
proof -
  have "signed_take_bit 31 (int n) = int n" using assms by (intro signed_take_bit_int_eq_self) auto
  moreover have "sint (word_of_nat n :: u32) = signed_take_bit 31 (int n)"
    using signed_of_nat [where 'a = int and 'b = 32, of n] by simp
  ultimately show s: "sint (word_of_nat n :: u32) = int n" by simp
  show "(word_of_nat n :: u32) = 0 \<longleftrightarrow> n = 0" 
  proof
    assume "(word_of_nat n :: u32) = 0"
    then have "sint (word_of_nat n :: u32) = 0" by (simp only: signed_0)
    then show "n = 0" using s by linarith
  qed simp
qed

interpretation base: invariant_system baseStep newBaseRun baseInv
proof
  show "baseInv newBaseRun" by (simp add: baseInv_def newBaseRun_def NewBaseTransport_def)
  fix r s
  assume i: "baseInv r" and st: "baseStep r s"
  from st show "baseInv s"
  proof cases
    case (base_started err t)
    then show ?thesis using i by (auto simp: baseInv_def SetStarted_def split: TransportState.splits)
  next
    case (base_begin t)
    then show ?thesis using i by (auto simp: baseInv_def BeginQuery_def stateClosing_iff split: if_splits)
  next
    case (base_end n woken t)
    have "Suc n < 2 ^ 31" "bt_inFlight (br_t r) = word_of_nat (Suc n)" using i base_end(2) by (simp_all add: baseInv_def)
    then have "sint (bt_inFlight (br_t r)) > 0" "bt_inFlight (br_t r) - 1 = word_of_nat n" "(word_of_nat n :: u32) = 0 \<longleftrightarrow> n = 0"
      using inFlight_word(1) [of "Suc n"] inFlight_word(2) [of n] by simp_all
    then show ?thesis using i base_end by (auto simp: baseInv_def EndQuery_def stateClosing_iff Let_def split: if_splits)
  next
    case (base_shutdown waits t)
    have "bt_inFlight (br_t r) = 0 \<longleftrightarrow> br_pending r = 0" using i inFlight_word(2) by (simp add: baseInv_def)
    then show ?thesis using i base_shutdown by (auto simp: baseInv_def ShutdownBegin_def stateClosing_iff split: if_splits)
  qed (use i in \<open>auto simp: baseInv_def ShutdownEnd_def stateClosing_iff\<close>)
qed

text \<open>
  C33: In every run of a DNS transport with fewer than 2^31 queries at a time, \<open>Shutdown\<close> waits exactly
  while the state is closing, and while it waits it has been woken if and only if no query is in flight
  any more; so apart from its deadline, which may end the wait at any time, it waits for all the
  queries and for nothing else. The 32-bit counter is the number of queries between \<open>BeginQuery\<close> and
  \<open>EndQuery\<close>, and no query begins once the transport is closing.
\<close>

theorem shutdown_waits_for_queries:
  assumes "baseStep\<^sup>*\<^sup>* newBaseRun r"
  shows "(br_waiting r \<longleftrightarrow> bt_state (br_t r) = StateClosing) \<and>
    (br_waiting r \<longrightarrow> (br_signalled r \<longleftrightarrow> br_pending r = 0)) \<and>
    sint (bt_inFlight (br_t r)) = int (br_pending r) \<and>
    (stateClosing (bt_state (br_t r)) \<longrightarrow> BeginQuery (br_t r) = (False, br_t r))"
proof -
  note i = base.reachable [OF assms]
  have "sint (bt_inFlight (br_t r)) = int (br_pending r)" using i inFlight_word(1) by (simp add: baseInv_def)
  then show ?thesis using i by (auto simp: baseInv_def BeginQuery_def stateClosing_iff)
qed

definition sampleBaseRun :: BaseRun where
  "sampleBaseRun = \<lparr>br_t = \<lparr>bt_state = StateClosing, bt_inFlight = 0, bt_queriesComplete = False, bt_closeCtx = True\<rparr>,
     br_pending = 0, br_waiting = True, br_signalled = True\<rparr>"

lemma sampleBaseRun_reachable: "baseStep\<^sup>*\<^sup>* newBaseRun sampleBaseRun"
proof -
  let ?t1 = "NewBaseTransport\<lparr>bt_state := StateStarted\<rparr>"
  let ?t2 = "?t1\<lparr>bt_inFlight := 1\<rparr>"
  let ?t3 = "?t2\<lparr>bt_state := StateClosing, bt_queriesComplete := True, bt_closeCtx := True\<rparr>"
  let ?r1 = "newBaseRun\<lparr>br_t := ?t1\<rparr>"
  let ?r2 = "?r1\<lparr>br_t := ?t2, br_pending := Suc 0\<rparr>"
  let ?r3 = "?r2\<lparr>br_t := ?t3, br_waiting := True\<rparr>"
  have "baseStep newBaseRun ?r1"
    using base_started [of newBaseRun None ?t1] by (simp add: newBaseRun_def SetStarted_def NewBaseTransport_def)
  moreover have "baseStep ?r1 ?r2"
    using base_begin [of ?r1 ?t2] by (simp add: newBaseRun_def BeginQuery_def NewBaseTransport_def)
  moreover have "baseStep ?r2 ?r3"
    using base_shutdown [of ?r2 True ?t3] by (simp add: newBaseRun_def ShutdownBegin_def NewBaseTransport_def)
  moreover have "baseStep ?r3 sampleBaseRun"
    using base_end [of ?r3 0 True "br_t sampleBaseRun"]
    by (simp add: newBaseRun_def EndQuery_def NewBaseTransport_def sampleBaseRun_def Let_def)
  ultimately show ?thesis by (meson rtranclp.rtrancl_refl rtranclp.rtrancl_into_rtrancl)
qed

theorem shutdown_waits_for_queries_witness:
  "(br_waiting sampleBaseRun \<longleftrightarrow> bt_state (br_t sampleBaseRun) = StateClosing) \<and>
   (br_signalled sampleBaseRun \<longleftrightarrow> br_pending sampleBaseRun = 0) \<and>
   BeginQuery (br_t sampleBaseRun) = (False, br_t sampleBaseRun)"
  using shutdown_waits_for_queries [OF sampleBaseRun_reachable] by (simp add: sampleBaseRun_def)

section \<open>The connector\<close>

definition connectorInv :: "ConnectorRun \<Rightarrow> bool" where
  "connectorInv r \<longleftrightarrow>
     (\<forall>ch. cr_dials r ch \<noteq> None \<longleftrightarrow> cn_connecting (cr_c r) = Some ch) \<and>
     (cn_connecting (cr_c r) \<noteq> None \<longrightarrow> \<not> cn_hasConnection (cr_c r)) \<and>
     (cn_closed (cr_c r) \<longrightarrow> \<not> cn_hasConnection (cr_c r)) \<and>
     (\<forall>k. k \<in> cr_open r \<longrightarrow>
        (cn_hasConnection (cr_c r) \<and> cn_connection (cr_c r) = k) \<or> (\<exists>ch. cr_dials r ch = Some (Some (Inr k)))) \<and>
     (\<forall>ch. cr_dials r ch \<noteq> None \<longrightarrow> ch \<in> cr_used r \<and> ch \<notin> cr_closedChannels r) \<and>
     cr_closedChannels r \<subseteq> cr_used r"

text \<open>A turn of \<open>Get\<close> that does not dial only forgets a connection that is closed.\<close>

lemma Connector_Get_turn:
  assumes "Connector_Get isClosed recursive ctxErr channel c = (turn, c1)" "\<forall>ch. turn \<noteq> GetDial ch"
  shows "c1 = c \<or> (cn_hasConnection c \<longrightarrow> isClosed (cn_connection c)) \<and> c1 = c\<lparr>cn_hasConnection := False, cn_connectionCancel := None\<rparr>"
  using assms by (auto simp: Connector_Get_def Let_def split: if_splits option.splits)

lemma Connector_Get_dial:
  assumes "Connector_Get isClosed recursive ctxErr channel c = (GetDial ch, c1)"
  shows "ch = channel" "cn_connecting c = None" "\<not> cn_closed c" "cn_hasConnection c \<longrightarrow> isClosed (cn_connection c)"
    "c1 = c\<lparr>cn_hasConnection := False, cn_connectionCancel := None, cn_connecting := Some channel\<rparr>"
  using assms by (auto simp: Connector_Get_def Let_def split: if_splits option.splits)

lemma completeDial_cases:
  assumes "completeDial closeCtx ctxErr ch outcome c = (res, c1, closes)" "cn_connecting c = Some ch"
  shows "c1 = c\<lparr>cn_connecting := None\<rparr> \<and> (\<forall>k. outcome = Inr k \<longrightarrow> closes = [k]) \<and> (\<forall>e. outcome = Inl e \<longrightarrow> closes = []) \<or>
    (\<exists>k. outcome = Inr k \<and> closes = [] \<and> \<not> cn_closed c \<and>
      c1 = c\<lparr>cn_connecting := None, cn_connection := k, cn_hasConnection := True, cn_connectionCancel := Some k\<rparr>)"
  using assms by (auto simp: completeDial_def Let_def split: if_splits option.splits sum.splits)

lemma connectorInv_dial:
  assumes "connectorInv r" "cr_dials r ch = Some outcome"
  shows "cr_open r \<subseteq> {k. outcome = Some (Inr k)}" "cn_connecting (cr_c r) = Some ch" "cr_dials r = [ch \<mapsto> outcome]"
proof -
  show c: "cn_connecting (cr_c r) = Some ch" using assms by (auto simp: connectorInv_def)
  have "\<forall>a. cr_dials r a \<noteq> None \<longleftrightarrow> a = ch" using assms(1) c by (auto simp: connectorInv_def)
  then show d: "cr_dials r = [ch \<mapsto> outcome]" using assms(2) by (auto simp: fun_eq_iff)
  show "cr_open r \<subseteq> {k. outcome = Some (Inr k)}"
  proof
    fix k
    assume "k \<in> cr_open r"
    then obtain a where "cr_dials r a = Some (Some (Inr k))" using assms(1) c by (auto simp: connectorInv_def)
    then show "k \<in> {k. outcome = Some (Inr k)}" unfolding d by (simp split: if_splits)
  qed
qed

interpretation connector: invariant_system connectorStep newConnectorRun connectorInv
proof
  show "connectorInv newConnectorRun" by (simp add: connectorInv_def newConnectorRun_def NewConnector_def)
  fix r s
  assume i: "connectorInv r" and st: "connectorStep r s"
  from st show "connectorInv s"
  proof cases
    case (connector_return recursive ctxErr channel turn c)
    then show ?thesis using i Connector_Get_turn [OF connector_return(2,3)] by (auto simp: connectorInv_def)
  next
    case (connector_dial recursive ctxErr channel c)
    then show ?thesis using i Connector_Get_dial [OF connector_dial(2)] by (auto simp: connectorInv_def)
  next
    case (connector_dialed channel ctxErr k)
    then show ?thesis using i connectorInv_dial [OF i connector_dialed(2)] by (auto simp: connectorInv_def)
  next
    case (connector_failed channel ctxErr outcome err)
    then show ?thesis using i connectorInv_dial [OF i connector_failed(2)] by (auto simp: connectorInv_def)
  next
    case (connector_complete channel outcome ctxErr res c closes)
    note d = connectorInv_dial [OF i connector_complete(2)]
    from completeDial_cases [OF connector_complete(3) d(2)] show ?thesis
      using i connector_complete(1) d by (cases outcome) (auto simp: connectorInv_def)
  next
    case (connector_close c closes)
    then show ?thesis using i by (auto simp: connectorInv_def Connector_Close_def split: if_splits)
  next
    case (connector_reset c closes)
    then show ?thesis using i by (auto simp: connectorInv_def Connector_Reset_def split: if_splits)
  qed (use i in \<open>auto simp: connectorInv_def\<close>)
qed

text \<open>
  C30: In every run of a connector there is at most one dial at a time, its channel has not been closed
  (so closing it does not panic) and it is the one that other callers of \<open>Get\<close> wait for. Every open
  connection is the one the connector holds or the outcome of the running dial; once the connector is
  closed and no dial runs, no connection is left open.
\<close>

theorem connector_dials_once_and_loses_nothing:
  assumes "connectorStep\<^sup>*\<^sup>* newConnectorRun r"
  shows "(cr_dials r a \<noteq> None \<longrightarrow> cr_dials r b \<noteq> None \<longrightarrow> a = b) \<and>
    (cr_dials r a \<noteq> None \<longrightarrow> a \<notin> cr_closedChannels r) \<and>
    (fst (Connector_Get isClosed recursive ctxErr channel (cr_c r)) = GetWait a \<longrightarrow> cr_dials r a \<noteq> None) \<and>
    (k \<in> cr_open r \<longrightarrow>
      (cn_hasConnection (cr_c r) \<and> cn_connection (cr_c r) = k) \<or> (\<exists>ch. cr_dials r ch = Some (Some (Inr k)))) \<and>
    (cn_closed (cr_c r) \<longrightarrow> (\<forall>ch. cr_dials r ch = None) \<longrightarrow> cr_open r = {})"
proof (intro conjI impI)
  note i = connector.reachable [OF assms]
  show "cr_dials r a \<noteq> None \<Longrightarrow> cr_dials r b \<noteq> None \<Longrightarrow> a = b" using i by (auto simp: connectorInv_def)
  show "cr_dials r a \<noteq> None \<Longrightarrow> a \<notin> cr_closedChannels r" using i by (auto simp: connectorInv_def)
  show "fst (Connector_Get isClosed recursive ctxErr channel (cr_c r)) = GetWait a \<Longrightarrow> cr_dials r a \<noteq> None"
    using i by (auto simp: connectorInv_def Connector_Get_def Let_def split: if_splits option.splits)
  show "k \<in> cr_open r \<Longrightarrow>
      (cn_hasConnection (cr_c r) \<and> cn_connection (cr_c r) = k) \<or> (\<exists>ch. cr_dials r ch = Some (Some (Inr k)))"
    using i by (simp add: connectorInv_def)
  show "cn_closed (cr_c r) \<Longrightarrow> \<forall>ch. cr_dials r ch = None \<Longrightarrow> cr_open r = {}"
    using i by (auto simp: connectorInv_def)
qed

text \<open>A connector that is closed while a dial runs: the connection is closed when the dial completes.\<close>

definition sampleConnectorRun :: ConnectorRun where
  "sampleConnectorRun =
     \<lparr>cr_c = NewConnector\<lparr>cn_closed := True\<rparr>, cr_dials = (\<lambda>_. None), cr_open = {}, cr_closedChannels = {0}, cr_used = {0, 1}, cr_closeCtx = False\<rparr>"

lemma sampleConnectorRun_reachable: "connectorStep\<^sup>*\<^sup>* newConnectorRun sampleConnectorRun"
proof -
  let ?r1 = "newConnectorRun\<lparr>cr_c := NewConnector\<lparr>cn_connecting := Some 0\<rparr>, cr_dials := [0 \<mapsto> None], cr_used := {0}\<rparr>"
  let ?r2 = "?r1\<lparr>cr_dials := [0 \<mapsto> Some (Inr 1)], cr_open := {1}, cr_used := {0, 1}\<rparr>"
  let ?r3 = "?r2\<lparr>cr_c := NewConnector\<lparr>cn_connecting := Some 0, cn_closed := True\<rparr>\<rparr>"
  have "connectorStep newConnectorRun ?r1"
    using connector_dial [of newConnectorRun False None 0 "NewConnector\<lparr>cn_connecting := Some 0\<rparr>"]
    by (simp add: newConnectorRun_def NewConnector_def Connector_Get_def Let_def)
  moreover have "connectorStep ?r1 ?r2"
    using connector_dialed [of ?r1 0 None 1]
    by (simp add: newConnectorRun_def NewConnector_def dialWithCancellation_def insert_commute)
  moreover have "connectorStep ?r2 ?r3"
    using connector_close [of ?r2 "NewConnector\<lparr>cn_connecting := Some 0, cn_closed := True\<rparr>" "[]"]
    by (simp add: newConnectorRun_def NewConnector_def Connector_Close_def)
  moreover have "connectorStep ?r3 sampleConnectorRun"
    using connector_complete [of ?r3 0 "Inr 1" None "Inl ErrTransportClosed" "NewConnector\<lparr>cn_closed := True\<rparr>" "[1]"]
    by (simp add: newConnectorRun_def NewConnector_def completeDial_def sampleConnectorRun_def Let_def)
  ultimately show ?thesis by (meson rtranclp.rtrancl_refl rtranclp.rtrancl_into_rtrancl)
qed

theorem connector_dials_once_and_loses_nothing_witness:
  "cn_closed (cr_c sampleConnectorRun) \<and> cr_open sampleConnectorRun = {}"
  using connector_dials_once_and_loses_nothing [OF sampleConnectorRun_reachable]
  by (simp add: sampleConnectorRun_def NewConnector_def)

section \<open>Identifiers of UDP queries\<close>

lemma nextQueryId_unused: "nextQueryId used start queryId = Inr i \<Longrightarrow> \<not> used i"
proof (induction used start queryId rule: nextQueryId.induct)
  case (1 used start queryId)
  show ?case using 1(2) 1(1) [OF refl] by (subst (asm) nextQueryId.simps) (auto simp: Let_def split: if_splits)
qed

text \<open>The identifiers that the loop still has in front of it.\<close>

definition idsLeft :: "u16 \<Rightarrow> u16 \<Rightarrow> nat" where
  "idsLeft start queryId = (if queryId = start then 65536 else unat (start - queryId))"

lemma idsLeft_next: "queryId + 1 \<noteq> start \<Longrightarrow> idsLeft start queryId = Suc (idsLeft start (queryId + 1))"
proof (cases "queryId = start")
  case True
  have "start - (start + 1) = (- 1 :: u16)" by simp
  then show ?thesis using True by (simp add: idsLeft_def unsigned_minus_1_eq_mask mask_eq_exp_minus_1)
next
  case False
  assume n: "queryId + 1 \<noteq> start"
  have e: "start - (queryId + 1) = (start - queryId) - 1" by (simp add: algebra_simps)
  have "start - queryId \<noteq> 0" using False by simp
  then have "unat (start - (queryId + 1)) = unat (start - queryId) - 1" "0 < unat (start - queryId)"
    unfolding e by (simp_all add: unat_minus_one unat_gt_0)
  then show ?thesis using False n by (simp add: idsLeft_def)
qed

lemma idsLeft_last: "queryId + 1 = start \<Longrightarrow> idsLeft start queryId = 1"
  by (auto simp: idsLeft_def)

lemma nextQueryId_error:
  "nextQueryId used start queryId = Inl e \<Longrightarrow> 0 < d \<Longrightarrow> d \<le> idsLeft start queryId \<Longrightarrow> used (queryId + of_nat d)"
proof (induction used start queryId arbitrary: d rule: nextQueryId.induct)
  case (1 used start queryId)
  have u: "used (queryId + 1)" using 1(2) by (subst (asm) nextQueryId.simps) (auto simp: Let_def split: if_splits)
  show ?case
  proof (cases "queryId + 1 = start")
    case True
    then have "d = 1" using 1(3,4) idsLeft_last [OF True] by simp
    then show ?thesis using u by simp
  next
    case False
    obtain d' where d: "d = Suc d'" using 1(3) by (cases d) auto
    have n: "nextQueryId used start (queryId + 1) = Inl e"
      using 1(2) u False by (subst (asm) nextQueryId.simps) (auto simp: Let_def)
    show ?thesis
    proof (cases d')
      case 0
      then show ?thesis using u d by simp
    next
      case (Suc d'')
      then have "used ((queryId + 1) + of_nat d')"
        using 1(1) [OF refl _ False n, of d'] u 1(4) d idsLeft_next [OF False] by simp
      then show ?thesis using d by (simp add: algebra_simps)
    qed
  qed
qed

lemma nextQueryId_exhausted:
  assumes "nextQueryId used start start = Inl e"
  shows "used i"
proof -
  define d where "d = (if i = start then 65536 else unat (i - start))"
  have "0 < d" by (simp add: d_def unat_gt_0)
  moreover have "unat (i - start) < 65536" using unsigned_less [of "i - start"] by simp
  then have "d \<le> idsLeft start start" by (simp add: d_def idsLeft_def)
  ultimately have "used (start + of_nat d)" using nextQueryId_error [OF assms] by blast
  moreover have "start + of_nat d = i" by (simp add: d_def)
  ultimately show ?thesis by simp
qed

lemma nextAvailableQueryId_fresh:
  "nextAvailableQueryId q = (Inr i, q') \<Longrightarrow> uq_callbacks q i = None \<and> q' = q\<lparr>uq_queryId := i\<rparr>"
  using nextQueryId_unused [of "\<lambda>i. uq_callbacks q i \<noteq> None" "uq_queryId q" "uq_queryId q" i]
  by (auto simp: nextAvailableQueryId_def split: sum.splits)

text \<open>
  C32: The search for an identifier of a UDP query ends; it fails exactly when all 65536 identifiers are in
  use, and otherwise it returns one that is not in use and remembers it as the last one.
\<close>

theorem query_id_is_unused:
  "((\<exists>e. nextAvailableQueryId q = (Inl e, q)) \<longleftrightarrow> (\<forall>i. uq_callbacks q i \<noteq> None)) \<and>
   (nextAvailableQueryId q = (Inr i, q') \<longrightarrow> uq_callbacks q i = None \<and> q' = q\<lparr>uq_queryId := i\<rparr>)"
proof
  let ?n = "nextQueryId (\<lambda>i. uq_callbacks q i \<noteq> None) (uq_queryId q) (uq_queryId q)"
  show "nextAvailableQueryId q = (Inr i, q') \<longrightarrow> uq_callbacks q i = None \<and> q' = q\<lparr>uq_queryId := i\<rparr>"
    using nextAvailableQueryId_fresh by blast
  show "(\<exists>e. nextAvailableQueryId q = (Inl e, q)) \<longleftrightarrow> (\<forall>i. uq_callbacks q i \<noteq> None)"
  proof (cases ?n)
    case (Inl e)
    then show ?thesis using nextQueryId_exhausted [OF Inl] by (auto simp: nextAvailableQueryId_def)
  next
    case (Inr i)
    then have "uq_callbacks q i = None" using nextQueryId_unused [OF Inr] by simp
    then show ?thesis using Inr by (auto simp: nextAvailableQueryId_def)
  qed
qed

definition sampleQueries :: UdpQueries where
  "sampleQueries = \<lparr>uq_queryId = 65535, uq_callbacks = [0 \<mapsto> None], uq_udpSize = 2048\<rparr>"

theorem query_id_is_unused_witness:
  "nextAvailableQueryId sampleQueries = (Inr 1, sampleQueries\<lparr>uq_queryId := 1\<rparr>) \<and> uq_callbacks sampleQueries 1 = None"
proof -
  have "nextAvailableQueryId sampleQueries = (Inr 1, sampleQueries\<lparr>uq_queryId := 1\<rparr>)"
    by (simp add: nextAvailableQueryId_def sampleQueries_def nextQueryId.simps Let_def)
  then show ?thesis using query_id_is_unused [of sampleQueries 1 "sampleQueries\<lparr>uq_queryId := 1\<rparr>"] by blast
qed

text \<open>The callbacks are those of the callers, each with the first message under its identifier.\<close>

primrec firstMessage :: "Msg list \<Rightarrow> Msg option" where
  "firstMessage [] = None"
| "firstMessage (m # ms) = Some m"

definition callerOk :: "UdpRun \<Rightarrow> nat \<Rightarrow> u16 \<Rightarrow> bool" where
  "callerOk r c i \<longleftrightarrow> uq_callbacks (ur_q r) i = Some (firstMessage (ur_log r c)) \<and> (\<forall>m \<in> set (ur_log r c). ms_Id m = i)"

definition udpInv :: "UdpRun \<Rightarrow> bool" where
  "udpInv r \<longleftrightarrow>
     (\<forall>c i o1. ur_callers r c = Some (i, o1) \<longrightarrow> callerOk r c i) \<and>
     (\<forall>c d i o1 o2. ur_callers r c = Some (i, o1) \<longrightarrow> ur_callers r d = Some (i, o2) \<longrightarrow> c = d) \<and>
     (\<forall>i. uq_callbacks (ur_q r) i \<noteq> None \<longrightarrow> (\<exists>c o1. ur_callers r c = Some (i, o1)))"

lemma udpInvI:
  assumes "\<And>c i o1. ur_callers r c = Some (i, o1) \<Longrightarrow> callerOk r c i"
    and "\<And>c d i o1 o2. ur_callers r c = Some (i, o1) \<Longrightarrow> ur_callers r d = Some (i, o2) \<Longrightarrow> c = d"
    and "\<And>i cb. uq_callbacks (ur_q r) i = Some cb \<Longrightarrow> \<exists>c o1. ur_callers r c = Some (i, o1)"
  shows "udpInv r"
  using assms unfolding udpInv_def by blast

lemma udpInvD:
  assumes "udpInv r"
  shows "ur_callers r c = Some (i, o1) \<Longrightarrow> callerOk r c i"
    and "ur_callers r c = Some (i, o1) \<Longrightarrow> ur_callers r d = Some (i, o2) \<Longrightarrow> c = d"
    and "uq_callbacks (ur_q r) i = Some cb \<Longrightarrow> \<exists>c o1. ur_callers r c = Some (i, o1)"
  using assms unfolding udpInv_def by blast+

lemma udpExchangeBegin_ok:
  assumes "udpExchangeBegin (snd (growUdpSize announced q)) = (Inr i, q')"
  shows "uq_callbacks q i = None" "uq_callbacks q' = (uq_callbacks q)(i := Some None)"
proof -
  let ?q = "snd (growUdpSize announced q)"
  have g: "uq_callbacks ?q = uq_callbacks q" by (simp add: growUdpSize_def split: option.split)
  obtain q1 where n: "nextAvailableQueryId ?q = (Inr i, q1)" and q': "q' = q1\<lparr>uq_callbacks := (uq_callbacks q1)(i := Some None)\<rparr>"
    using assms by (auto simp: udpExchangeBegin_def split: prod.splits sum.splits)
  from nextAvailableQueryId_fresh [OF n] q' show "uq_callbacks q i = None" "uq_callbacks q' = (uq_callbacks q)(i := Some None)"
    by (simp_all add: g)
qed

lemma udpExchangeBegin_error:
  "udpExchangeBegin (snd (growUdpSize announced q)) = (Inl e, q') \<Longrightarrow> uq_callbacks q' = uq_callbacks q"
  by (auto simp: udpExchangeBegin_def nextAvailableQueryId_def growUdpSize_def split: prod.splits sum.splits option.splits if_splits)


lemma udpInv_receive:
  assumes i: "udpInv r"
  shows "udpInv (r\<lparr>ur_q := udpReceive message (ur_q r), ur_log := logMessage message r\<rparr>)"
proof (rule udpInvI)
  have cb: "uq_callbacks (udpReceive message (ur_q r)) i =
      (if i = ms_Id message \<and> uq_callbacks (ur_q r) i = Some None then Some (Some message) else uq_callbacks (ur_q r) i)" for i
    by (auto simp: udpReceive_def split: option.splits)
  let ?r = "r\<lparr>ur_q := udpReceive message (ur_q r), ur_log := logMessage message r\<rparr>"
  show "callerOk ?r c i" if "ur_callers ?r c = Some (i, o1)" for c i o1
    using that udpInvD(1) [OF i, of c i o1]
    by (cases "ur_log r c") (auto simp: cb logMessage_def callerOk_def)
  show "c = d" if "ur_callers ?r c = Some (i, o1)" "ur_callers ?r d = Some (i, o2)" for c d i o1 o2
    using that udpInvD(2) [OF i] by simp
  show "\<exists>c o1. ur_callers ?r c = Some (i, o1)" if "uq_callbacks (ur_q ?r) i = Some x" for i x
    using that udpInvD(3) [OF i, of i] by (auto simp: cb split: if_splits)
qed

interpretation udp: invariant_system udpStep newUdpRun udpInv
proof
  show "udpInv newUdpRun" by (simp add: udpInv_def newUdpRun_def NewUDPRaw_def)
  fix r s
  assume i: "udpInv r" and st: "udpStep r s"
  from st show "udpInv s"
  proof cases
    case (udp_begin caller announced queryId q originalId)
    note b = udpExchangeBegin_ok [OF udp_begin(3)]
    have "ur_callers r c \<noteq> Some (queryId, o1)" for c o1 using udpInvD(1) [OF i] b(1) by (auto simp: callerOk_def)
    moreover have "\<exists>c. c \<noteq> caller \<and> (\<exists>o1. ur_callers r c = Some (j, o1))" if "uq_callbacks (ur_q r) j = Some cb" for j cb
      using udpInvD(3) [OF i that] udp_begin(2) by force
    ultimately show ?thesis using udpInvD(1,2) [OF i] b(2) udp_begin(1,2)
      by (intro udpInvI) (auto simp: callerOk_def cong: conj_cong split: if_splits)
  next
    case (udp_refused announced err q)
    then show ?thesis using i udpExchangeBegin_error [OF udp_refused(2)] by (simp add: udpInv_def callerOk_def)
  next
    case (udp_receive message)
    then show ?thesis using udpInv_receive [OF i] by simp
  next
    case (udp_end caller queryId originalId selected result q)
    have q: "uq_callbacks q = (uq_callbacks (ur_q r))(queryId := None)"
      using udp_end(3) by (auto simp: udpExchangeEnd_def Let_def split: option.splits)
    have "j \<noteq> queryId" if "c \<noteq> caller" "ur_callers r c = Some (j, o1)" for c j o1
      using udpInvD(2) [OF i that(2)] udp_end(2) that(1) by blast
    moreover have "\<exists>c. c \<noteq> caller \<and> (\<exists>o1. ur_callers r c = Some (j, o1))"
      if "j \<noteq> queryId" "uq_callbacks (ur_q r) j = Some cb" for j cb
      using udpInvD(3) [OF i that(2)] udp_end(2) that(1) by force
    ultimately show ?thesis using udpInvD(1,2) [OF i] q udp_end(1,2)
      by (intro udpInvI) (auto simp: callerOk_def cong: conj_cong split: if_splits)
  qed
qed

text \<open>
  C31: In every run of a UDP transport, two queries that wait have different identifiers, and the response
  of a query is the first message under its identifier that came after the query was registered, with
  the identifier of the caller put back; without such a message there is no response.
\<close>

theorem udp_response_is_first_for_query:
  assumes "udpStep\<^sup>*\<^sup>* newUdpRun r" "ur_callers r c = Some (queryId, originalId)"
  shows "udpExchangeEnd queryId originalId None (ur_q r) =
      map_option (\<lambda>m. (Inr (m\<lparr>ms_Id := originalId\<rparr>), (ur_q r)\<lparr>uq_callbacks := (uq_callbacks (ur_q r))(queryId := None)\<rparr>))
        (firstMessage (ur_log r c)) \<and>
    (\<forall>m \<in> set (ur_log r c). ms_Id m = queryId) \<and>
    (ur_callers r d = Some (queryId, otherId) \<longrightarrow> d = c)"
proof (intro conjI impI)
  note i = udp.reachable [OF assms(1)]
  show "udpExchangeEnd queryId originalId None (ur_q r) =
      map_option (\<lambda>m. (Inr (m\<lparr>ms_Id := originalId\<rparr>), (ur_q r)\<lparr>uq_callbacks := (uq_callbacks (ur_q r))(queryId := None)\<rparr>))
        (firstMessage (ur_log r c))"
    using udpInvD(1) [OF i assms(2)] by (simp add: callerOk_def udpExchangeEnd_def Let_def split: option.split)
  show "\<forall>m \<in> set (ur_log r c). ms_Id m = queryId" using udpInvD(1) [OF i assms(2)] by (simp add: callerOk_def)
  show "ur_callers r d = Some (queryId, otherId) \<Longrightarrow> d = c" using udpInvD(2) [OF i] assms(2) by blast
qed

definition emptyQuery :: Msg where
  "emptyQuery =
     \<lparr>ms_Id = 0, ms_Response = False, ms_Authoritative = False, ms_RecursionDesired = False, ms_RecursionAvailable = False, ms_Rcode = 0,
      ms_Question = [], ms_Answer = [], ms_Ns = [], ms_Extra = []\<rparr>"

definition sampleUdpRun :: UdpRun where
  "sampleUdpRun =
     \<lparr>ur_q = \<lparr>uq_queryId = 1, uq_callbacks = [1 \<mapsto> Some (emptyQuery\<lparr>ms_Id := 1\<rparr>)], uq_udpSize = 4096\<rparr>,
      ur_callers = [7 \<mapsto> (1, 500)], ur_log = (\<lambda>_. [])(7 := [emptyQuery\<lparr>ms_Id := 1\<rparr>]), ur_results = (\<lambda>_. None)\<rparr>"

lemma sampleUdpRun_reachable: "udpStep\<^sup>*\<^sup>* newUdpRun sampleUdpRun"
proof -
  let ?q1 = "\<lparr>uq_queryId = 1, uq_callbacks = [1 \<mapsto> None], uq_udpSize = 4096\<rparr>"
  let ?r1 = "newUdpRun\<lparr>ur_q := ?q1, ur_callers := [7 \<mapsto> (1, 500)]\<rparr>"
  have "udpExchangeBegin (snd (growUdpSize (Some 4096) (ur_q newUdpRun))) = (Inr 1, ?q1)"
    by (simp add: newUdpRun_def NewUDPRaw_def udpExchangeBegin_def growUdpSize_def nextAvailableQueryId_def nextQueryId.simps Let_def)
  then have "udpStep newUdpRun ?r1"
    using udp_begin [of newUdpRun 7 "Some 4096" 1 ?q1 500] by (simp add: newUdpRun_def fun_upd_idem)
  moreover have "logMessage (emptyQuery\<lparr>ms_Id := 1\<rparr>) ?r1 = (\<lambda>_. [])(7 := [emptyQuery\<lparr>ms_Id := 1\<rparr>])"
    by (auto simp: logMessage_def newUdpRun_def fun_eq_iff)
  then have "udpStep ?r1 sampleUdpRun"
    using udp_receive [of ?r1 "emptyQuery\<lparr>ms_Id := 1\<rparr>"] by (simp add: newUdpRun_def sampleUdpRun_def udpReceive_def)
  ultimately show ?thesis by (meson rtranclp.rtrancl_refl rtranclp.rtrancl_into_rtrancl)
qed

theorem udp_response_is_first_for_query_witness:
  "udpExchangeEnd 1 500 None (ur_q sampleUdpRun) = Some (Inr (emptyQuery\<lparr>ms_Id := 500\<rparr>), \<lparr>uq_queryId = 1, uq_callbacks = (\<lambda>_. None), uq_udpSize = 4096\<rparr>)"
  using udp_response_is_first_for_query [OF sampleUdpRun_reachable, of 7 1 500]
  by (simp add: sampleUdpRun_def fun_eq_iff)

section \<open>Messages on streams\<close>

lemma ReadMessage_frame:
  assumes "10 \<le> length raw" "length raw < 65536" "ml_Unpack M raw = Inr m"
  shows "ReadMessage M (bytesOfNat 2 (length raw) @ raw @ rest) = Inr (m, rest)"
proof -
  have "readN 2 (bytesOfNat 2 (length raw) @ raw @ rest) = Inr (bytesOfNat 2 (length raw), raw @ rest)"
    by (rule readN_append) (simp del: bytesOfNat.simps)
  moreover have "bigEndian (bytesOfNat 2 (length raw)) = length raw"
    using assms(2) by (simp add: bigEndian_bytesOfNat del: bytesOfNat.simps)
  ultimately show ?thesis using assms by (simp add: ReadMessage_def Let_def)
qed

text \<open>
  What \<open>WriteMessage\<close> puts on a stream \<open>ReadMessage\<close> reads back as the message with the identifier on the
  wire, and it leaves what follows on the stream, provided that the length of the message is that of
  its packed form, that it has a header and that it fits into 16 bits.
\<close>

theorem stream_message_round_trip:
  assumes "ml_Pack M (message\<lparr>ms_Id := messageId\<rparr>) = Inr raw" "ml_Unpack M raw = Inr (message\<lparr>ms_Id := messageId\<rparr>)"
    and "ml_Len M message = length raw" "10 \<le> length raw" "length raw < 65536"
  shows "\<exists>bs. WriteMessage M messageId message = Inr bs \<and> ReadMessage M (bs @ rest) = Inr (message\<lparr>ms_Id := messageId\<rparr>, rest)"
proof -
  have "WriteMessage M messageId message = Inr (bytesOfNat 2 (length raw) @ raw)"
    using assms by (simp add: WriteMessage_def)
  then show ?thesis using ReadMessage_frame [OF assms(4,5,2), of rest] by auto
qed

text \<open>A codec of messages without records: twelve bytes of header with the identifier first.\<close>

definition headerLib :: MsgLib where
  "headerLib =
     \<lparr>ml_Len = (\<lambda>m. 12),
      ml_Pack = (\<lambda>m. Inr (bytesOfNat 2 (unat (ms_Id m)) @ replicate 10 0)),
      ml_Unpack = (\<lambda>bs. Inr (emptyQuery\<lparr>ms_Id := word_of_nat (bigEndian (take 2 bs))\<rparr>))\<rparr>"

theorem stream_message_round_trip_witness:
  "\<exists>bs. WriteMessage headerLib 5 emptyQuery = Inr bs \<and> ReadMessage headerLib (bs @ [1]) = Inr (emptyQuery\<lparr>ms_Id := 5\<rparr>, [1])"
  by (rule stream_message_round_trip [where raw = "bytesOfNat 2 5 @ replicate 10 0"])
    (simp_all add: headerLib_def bigEndian_bytesOfNat del: bytesOfNat.simps)

text \<open>
  The prefix is the length without compression while the message is packed with compression: a message
  that compression makes shorter is announced as longer than it is, and its reader waits for the rest.
\<close>

theorem compressed_message_is_misframed:
  assumes "ml_Pack M (message\<lparr>ms_Id := messageId\<rparr>) = Inr raw" "length raw < ml_Len M message"
    and "10 \<le> ml_Len M message" "ml_Len M message < 65536"
  shows "\<exists>bs err. WriteMessage M messageId message = Inr bs \<and> ReadMessage M bs = Inl err"
proof -
  let ?p = "bytesOfNat 2 (ml_Len M message)"
  have "WriteMessage M messageId message = Inr (?p @ raw)" using assms(1,4) by (simp add: WriteMessage_def)
  moreover have "readN 2 (?p @ raw) = Inr (?p, raw)" by (rule readN_append) (simp del: bytesOfNat.simps)
  moreover have "bigEndian ?p = ml_Len M message" using assms(4) by (simp add: bigEndian_bytesOfNat del: bytesOfNat.simps)
  moreover obtain err where "readN (ml_Len M message) raw = Inl err" using assms(2) by (auto simp: readN_def)
  ultimately show ?thesis using assms(3) by (simp add: ReadMessage_def Let_def)
qed

section \<open>The pool of TLS connections\<close>

text \<open>The connection that a phase uses; a run maps its queries to connections, injectively.\<close>

fun usedBy :: "QueryPhase option \<Rightarrow> nat option" where
  "usedBy (Some (Exchanging k pooled)) = Some k"
| "usedBy (Some (Returning k)) = Some k"
| "usedBy (Some (Discarding k)) = Some k"
| "usedBy ph = None"

abbreviation held :: "PoolRun \<Rightarrow> nat \<rightharpoonup> nat" where
  "held r \<equiv> usedBy \<circ> pr_query r"

definition exclusive :: "(nat \<rightharpoonup> nat) \<Rightarrow> bool" where
  "exclusive g \<longleftrightarrow> (\<forall>q q' k. g q = Some k \<longrightarrow> g q' = Some k \<longrightarrow> q = q')"

lemma exclusive_take: "exclusive g \<Longrightarrow> k \<notin> ran g \<Longrightarrow> exclusive (g(q \<mapsto> k))"
  by (auto simp: exclusive_def ran_def)

lemma exclusive_give: "exclusive g \<Longrightarrow> exclusive (g(q := None))"
  by (auto simp: exclusive_def)

lemma ran_give: "exclusive g \<Longrightarrow> g q = Some k \<Longrightarrow> ran (g(q := None)) = ran g - {k}"
  unfolding exclusive_def ran_def by (auto split: if_splits) (metis option.inject)

lemma ran_take: "g q = None \<Longrightarrow> ran (g(q \<mapsto> k)) = insert k (ran g)"
  by (rule ran_map_upd)

definition poolInv :: "PoolRun \<Rightarrow> bool" where
  "poolInv r \<longleftrightarrow>
     distinct (tp_connections (pr_p r)) \<and> set (tp_connections (pr_p r)) \<subseteq> pr_open r \<and> pr_open r \<subseteq> pr_used r \<and>
     exclusive (held r) \<and> ran (held r) = pr_open r - set (tp_connections (pr_p r))"

lemma poolInv_idle:
  assumes "poolInv r" "usedBy ph = usedBy (pr_query r q)" "tp_connections p = tp_connections (pr_p r)"
  shows "poolInv (r\<lparr>pr_p := p, pr_query := (pr_query r)(q := ph)\<rparr>)"
proof -
  have "usedBy \<circ> (pr_query r)(q := ph) = held r" using assms(2) by (auto simp: fun_eq_iff)
  then show ?thesis using assms(1,3) by (simp add: poolInv_def)
qed

lemma poolInv_base: "poolInv r \<Longrightarrow> poolInv (r\<lparr>pr_p := (pr_p r)\<lparr>tp_base := t\<rparr>\<rparr>)"
  by (simp add: poolInv_def)

text \<open>A query takes a connection that is no longer pooled, or gives up the one it has.\<close>

lemma poolInv_take:
  assumes i: "poolInv r" "usedBy (pr_query r q) = None" "k \<in> set (tp_connections (pr_p r)) \<or> k \<notin> pr_used r"
    and p: "tp_connections p = remove1 k (tp_connections (pr_p r))"
  shows "poolInv (r\<lparr>pr_p := p, pr_query := (pr_query r)(q := Some (Exchanging k b)), pr_open := insert k (pr_open r), pr_used := insert k (pr_used r)\<rparr>)"
proof -
  have g: "usedBy \<circ> (pr_query r)(q := Some (Exchanging k b)) = (held r)(q \<mapsto> k)" by (auto simp: fun_eq_iff)
  have f: "k \<notin> ran (held r)" "held r q = None" using i by (auto simp: poolInv_def)
  have "exclusive ((held r)(q \<mapsto> k))" using exclusive_take f(1) i(1) by (simp add: poolInv_def)
  moreover have "ran ((held r)(q \<mapsto> k)) = insert k (ran (held r))" using f(2) by (rule ran_take)
  ultimately show ?thesis using i(1,3) p unfolding poolInv_def by (auto simp: g set_remove1_eq simp del: comp_apply)
qed

lemma poolInv_give:
  assumes i: "poolInv r" "usedBy (pr_query r q) = Some k" "usedBy (Some ph) = None"
    and p: "tp_connections p = tp_connections (pr_p r) \<and> op = pr_open r - {k} \<or> tp_connections p = tp_connections (pr_p r) @ [k] \<and> op = pr_open r"
  shows "poolInv (r\<lparr>pr_p := p, pr_query := (pr_query r)(q := Some ph), pr_open := op\<rparr>)"
proof -
  have g: "usedBy \<circ> (pr_query r)(q := Some ph) = (held r)(q := None)" using i(3) by (auto simp: fun_eq_iff)
  have f: "held r q = Some k" using i(2) by simp
  then have "k \<in> pr_open r - set (tp_connections (pr_p r))" using i(1) ranI [of "held r" q k] by (simp add: poolInv_def)
  moreover have "exclusive ((held r)(q := None))" using exclusive_give i(1) by (simp add: poolInv_def)
  moreover have "ran ((held r)(q := None)) = ran (held r) - {k}" using ran_give f i(1) by (simp add: poolInv_def)
  ultimately show ?thesis using i(1) p unfolding poolInv_def by (auto simp: g simp del: comp_apply)
qed

interpretation pool: invariant_system poolStep newPoolRun poolInv
proof
  show "poolInv newPoolRun" by (auto simp: poolInv_def newPoolRun_def exclusive_def ran_def)
  fix r s
  assume i: "poolInv r" and st: "poolStep r s"
  from st show "poolInv s"
  proof cases
    case (pool_begin q t)
    then show ?thesis using poolInv_idle [OF i, of "Some Begun" q "(pr_p r)\<lparr>tp_base := t\<rparr>"] by simp
  next
    case (pool_pooled q k p)
    then have c: "tp_connections (pr_p r) = k # tp_connections p"
      by (auto simp: popConnection_def split: list.splits)
    have "insert k (pr_open r) = pr_open r" "insert k (pr_used r) = pr_used r" using i c by (auto simp: poolInv_def)
    moreover have "poolInv (r\<lparr>pr_p := p, pr_query := (pr_query r)(q := Some (Exchanging k True)), pr_open := insert k (pr_open r), pr_used := insert k (pr_used r)\<rparr>)"
      by (rule poolInv_take [OF i]) (simp_all add: c pool_pooled(3))
    ultimately show ?thesis using pool_pooled(1) by (simp add: poolInv_def)
  next
    case (pool_empty q p)
    then have "tp_connections p = tp_connections (pr_p r)" by (auto simp: popConnection_def split: list.splits)
    then show ?thesis using pool_empty poolInv_idle [OF i, of "Some Dialing" q p] by simp
  next
    case (pool_dialed q k)
    have "k \<notin> set (tp_connections (pr_p r))" using pool_dialed(3) i by (auto simp: poolInv_def)
    then show ?thesis using pool_dialed poolInv_take [OF i, of q k "pr_p r" False] by (simp add: remove1_idem)
  next
    case (pool_unreachable q)
    then show ?thesis using poolInv_idle [OF i, of "Some Finished" q "pr_p r"] by simp
  next
    case (pool_failed q k pooled)
    then show ?thesis
      using poolInv_give [OF i, of q k "if pooled then Dialing else Finished" "pr_p r" "pr_open r - {k}"] by simp
  next
    case (pool_answered q k pooled)
    then show ?thesis
      using poolInv_idle [OF i, of "Some (if mayReturn (pr_p r) then Returning k else Discarding k)" q "pr_p r"] by simp
  next
    case (pool_returned q k)
    then show ?thesis
      using poolInv_give [OF i, of q k Finished "returnConnection k (pr_p r)" "pr_open r"] by (simp add: returnConnection_def)
  next
    case (pool_discarded q k)
    then show ?thesis using poolInv_give [OF i, of q k Finished "pr_p r" "pr_open r - {k}"] by simp
  next
    case (pool_end q woken t)
    then show ?thesis using poolInv_idle [OF i, of None q "(pr_p r)\<lparr>tp_base := t\<rparr>"] by simp
  next
    case (pool_drained p closes)
    then show ?thesis using i by (auto simp: poolInv_def drainPool_def)
  qed (use i in \<open>simp_all add: poolInv_base\<close>)
qed

lemma poolStep_closing:
  assumes "poolStep r s" "stateClosing (bt_state (tp_base (pr_p r)))" "accessFree r"
  shows "set (tp_connections (pr_p s)) \<subseteq> set (tp_connections (pr_p r)) \<and> stateClosing (bt_state (tp_base (pr_p s))) \<and> accessFree s"
  using assms(1)
proof cases
  case (pool_started err t)
  then show ?thesis using assms(2,3) by (auto simp: SetStarted_def accessFree_def split: TransportState.splits)
next
  case (pool_pooled q k p)
  then show ?thesis using assms(2) by (auto simp: popConnection_def accessFree_def split: list.splits)
next
  case (pool_empty q p)
  then show ?thesis using assms(2) by (auto simp: popConnection_def accessFree_def split: list.splits)
qed (use assms(2,3) in \<open>auto simp: BeginQuery_def EndQuery_def ShutdownBegin_def ShutdownEnd_def mayReturn_def drainPool_def accessFree_def Let_def split: if_splits\<close>)

lemma returning_unique:
  assumes "poolStep\<^sup>*\<^sup>* newPoolRun r" "pr_query r q = Some (Returning k)" "pr_query r q' = Some (Returning k')"
  shows "q = q'"
proof -
  have "\<forall>q q' k k'. pr_query r q = Some (Returning k) \<longrightarrow> pr_query r q' = Some (Returning k') \<longrightarrow> q = q'"
    using assms(1)
  proof (induction rule: rtranclp_induct)
    case base
    show ?case by (simp add: newPoolRun_def)
  next
    case (step r s)
    show ?case using step(2,3) by cases (auto simp: accessFree_def split: if_splits)
  qed
  then show ?thesis using assms(2,3) by blast
qed

text \<open>
  C34: In every run of a TLS transport no connection is used by two queries at once, a connection in use
  (for an exchange, or while it is returned to the pool or closed after one) is open and not in the
  pool, and every open connection is in the pool or in use by a query. At most one query holds the
  lock of the pool to return its connection; once the transport is closing and no query holds it, the
  pool gets no more connections. (A query that has checked the state before the transport is closing
  may still return its connection, which is then never closed.)
\<close>

theorem pool_connections_are_exclusive:
  assumes "poolStep\<^sup>*\<^sup>* newPoolRun r"
  shows "(usedBy (pr_query r q) = Some k \<longrightarrow> usedBy (pr_query r q') = Some k \<longrightarrow> q = q') \<and>
    (usedBy (pr_query r q) = Some k \<longrightarrow> k \<in> pr_open r \<and> k \<notin> set (tp_connections (pr_p r))) \<and>
    (k \<in> pr_open r \<longrightarrow> k \<in> set (tp_connections (pr_p r)) \<or> (\<exists>q. usedBy (pr_query r q) = Some k)) \<and>
    (pr_query r q = Some (Returning k) \<longrightarrow> pr_query r q' = Some (Returning k') \<longrightarrow> q = q') \<and>
    (stateClosing (bt_state (tp_base (pr_p r))) \<longrightarrow> accessFree r \<longrightarrow> poolStep r s \<longrightarrow>
      set (tp_connections (pr_p s)) \<subseteq> set (tp_connections (pr_p r)) \<and> stateClosing (bt_state (tp_base (pr_p s))) \<and> accessFree s)"
proof -
  note i = pool.reachable [OF assms]
  have "usedBy (pr_query r q) = Some k \<longrightarrow> usedBy (pr_query r q') = Some k \<longrightarrow> q = q'"
    using i unfolding poolInv_def exclusive_def comp_apply by blast
  moreover have "usedBy (pr_query r q) = Some k \<longrightarrow> k \<in> pr_open r \<and> k \<notin> set (tp_connections (pr_p r))"
    using i ranI [of "held r" q k] unfolding poolInv_def comp_apply by blast
  moreover have "k \<in> set (tp_connections (pr_p r)) \<or> (\<exists>q. usedBy (pr_query r q) = Some k)" if "k \<in> pr_open r"
  proof (cases "k \<in> set (tp_connections (pr_p r))")
    case False
    then have "k \<in> ran (held r)" using that i by (simp add: poolInv_def)
    then show ?thesis by (auto simp: ran_def)
  qed simp
  ultimately show ?thesis using returning_unique [OF assms] poolStep_closing by blast
qed

text \<open>
  A query that ends between the two halves of \<open>Close\<close>, or that has checked the state before \<open>Shutdown\<close>
  changes it, puts its connection into the pool that has just been emptied: the transport is closed, no
  query runs, and the connection stays open. Here the shutdown falls between the check and the return.
\<close>

definition leakedRun :: PoolRun where
  "leakedRun =
     \<lparr>pr_p = \<lparr>tp_base = \<lparr>bt_state = StateClosed, bt_inFlight = 0, bt_queriesComplete = False, bt_closeCtx = True\<rparr>, tp_connections = [0]\<rparr>,
      pr_query = (\<lambda>_. None), pr_open = {0}, pr_used = {0}\<rparr>"

lemma accessFree_one: "pr_query r = [q \<mapsto> ph] \<Longrightarrow> (\<And>k. ph \<noteq> Returning k) \<Longrightarrow> accessFree r"
  by (auto simp: accessFree_def)

lemma leakedRun_reachable: "poolStep\<^sup>*\<^sup>* newPoolRun leakedRun"
proof -
  let ?t1 = "NewBaseTransport\<lparr>bt_state := StateStarted\<rparr>"
  let ?t2 = "?t1\<lparr>bt_inFlight := 1\<rparr>"
  let ?r1 = "newPoolRun\<lparr>pr_p := \<lparr>tp_base = ?t1, tp_connections = []\<rparr>\<rparr>"
  let ?r2 = "?r1\<lparr>pr_p := \<lparr>tp_base = ?t2, tp_connections = []\<rparr>, pr_query := [0 \<mapsto> Begun]\<rparr>"
  let ?r3 = "?r2\<lparr>pr_query := [0 \<mapsto> Dialing]\<rparr>"
  let ?r4 = "?r3\<lparr>pr_query := [0 \<mapsto> Exchanging 0 False], pr_open := {0}, pr_used := {0}\<rparr>"
  let ?t3 = "?t2\<lparr>bt_state := StateClosing, bt_queriesComplete := True, bt_closeCtx := True\<rparr>"
  let ?t4 = "?t3\<lparr>bt_inFlight := 0, bt_queriesComplete := False\<rparr>"
  let ?r5 = "?r4\<lparr>pr_query := [0 \<mapsto> Returning 0]\<rparr>"
  let ?r6 = "?r5\<lparr>pr_p := \<lparr>tp_base = ?t3, tp_connections = []\<rparr>\<rparr>"
  let ?r7 = "?r6\<lparr>pr_p := \<lparr>tp_base = ?t3, tp_connections = [0]\<rparr>, pr_query := [0 \<mapsto> Finished]\<rparr>"
  let ?r8 = "?r7\<lparr>pr_p := \<lparr>tp_base = ?t4, tp_connections = [0]\<rparr>, pr_query := (\<lambda>_. None)\<rparr>"
  note defs = newPoolRun_def NewBaseTransport_def
  have "poolStep newPoolRun ?r1"
    using pool_started [of newPoolRun None ?t1] by (simp add: defs SetStarted_def)
  moreover have "poolStep ?r1 ?r2" using pool_begin [of ?r1 0 ?t2] by (simp add: defs BeginQuery_def)
  moreover have "poolStep ?r2 ?r3" using pool_empty [of ?r2 0 "pr_p ?r2"] accessFree_one [of ?r2 0 Begun] by (simp add: defs popConnection_def)
  moreover have "poolStep ?r3 ?r4" using pool_dialed [of ?r3 0 0] by (simp add: defs)
  moreover have "poolStep ?r4 ?r4"
    using pool_drained [of ?r4 "pr_p ?r4" "[]"] accessFree_one [of ?r4 0 "Exchanging 0 False"] by (simp add: defs drainPool_def)
  moreover have "poolStep ?r4 ?r5"
    using pool_answered [of ?r4 0 0 False] accessFree_one [of ?r4 0 "Exchanging 0 False"] by (simp add: defs mayReturn_def)
  moreover have "poolStep ?r5 ?r6"
    using pool_shutdown [of ?r5 True ?t3] by (simp add: defs ShutdownBegin_def)
  moreover have "poolStep ?r6 ?r7"
    using pool_returned [of ?r6 0 0] by (simp add: defs returnConnection_def)
  moreover have "poolStep ?r7 ?r8"
    using pool_end [of ?r7 0 True ?t4] by (simp add: defs EndQuery_def Let_def)
  moreover have "poolStep ?r8 leakedRun"
    using pool_closed [of ?r8] by (simp add: defs ShutdownEnd_def leakedRun_def)
  ultimately show ?thesis by (meson rtranclp.rtrancl_refl rtranclp.rtrancl_into_rtrancl)
qed

theorem closed_transport_keeps_connection:
  "\<exists>r k. poolStep\<^sup>*\<^sup>* newPoolRun r \<and> bt_state (tp_base (pr_p r)) = StateClosed \<and> (\<forall>q. pr_query r q = None) \<and> k \<in> pr_open r"
  using leakedRun_reachable by (intro exI [of _ leakedRun] exI [of _ 0]) (simp add: leakedRun_def)

theorem pool_connections_are_exclusive_witness:
  "0 \<in> pr_open leakedRun \<and> (0 \<in> set (tp_connections (pr_p leakedRun)) \<or> (\<exists>q. usedBy (pr_query leakedRun q) = Some 0))"
  using pool_connections_are_exclusive [OF leakedRun_reachable, where k = 0] by (simp add: leakedRun_def)

end
