(* ===== verification/Dns_Hosts.thy ===== *)
theory Dns_Hosts
  imports Dns_Message
begin

text \<open>
  The hosts server, \<open>dns/transport/hosts\<close>: the hosts files with their cache (\<open>hosts_file.go\<close>) and the exchange
  (\<open>hosts.go\<close>). Times are in nanoseconds. The map of a file is the list of its entries in the order in which
  they were added; \<open>CanonicalName\<close> of \<open>miekg/dns\<close> is a parameter. White space is that of ASCII.
\<close>

record HostsFile =
  hf_byName :: "(string \<times> Addr) list"
  hf_expire :: int
  hf_modTime :: "int option"
  hf_size :: int

definition NewFile :: HostsFile where
  "NewFile = \<lparr>hf_byName = [], hf_expire = 0, hf_modTime = None, hf_size = 0\<rparr>"

abbreviation (input) cacheMaxAge :: int where "cacheMaxAge \<equiv> 5000000000"

section \<open>Parsing\<close>

definition isSpace :: "char \<Rightarrow> bool" where
  "isSpace c = (c \<in> {CHR '' '', CHR 0x09, CHR 0x0A, CHR 0x0B, CHR 0x0C, CHR 0x0D})"

text \<open>\<open>strings.Fields\<close>\<close>

fun fieldsLoop :: "string \<Rightarrow> string \<Rightarrow> string list" where
  "fieldsLoop field [] = (if field = [] then [] else [field])"
| "fieldsLoop field (c # s) =
     (if isSpace c then (if field = [] then fieldsLoop [] s else field # fieldsLoop [] s) else fieldsLoop (field @ [c]) s)"

definition stringsFields :: "string \<Rightarrow> string list" where
  "stringsFields s = fieldsLoop [] s"

definition parseHostsLine :: "Lib \<Rightarrow> (string \<Rightarrow> string) \<Rightarrow> string \<Rightarrow> (string \<times> Addr) list" where
  "parseHostsLine lib canonicalName line =
     (let fields = stringsFields (takeWhile (\<lambda>c. c \<noteq> CHR ''#'') line)
      in if length fields < 2 then []
         else case ParseAddr lib (hd fields) of
                Inl _ \<Rightarrow> []
              | Inr addr \<Rightarrow> map (\<lambda>name. (canonicalName name, addr)) (tl fields))"

definition parseHosts :: "Lib \<Rightarrow> (string \<Rightarrow> string) \<Rightarrow> string \<Rightarrow> (string \<times> Addr) list" where
  "parseHosts lib canonicalName content = concat (map (parseHostsLine lib canonicalName) (stringsSplit (CHR 0x0A) content))"

section \<open>The cache of a file\<close>

text \<open>\<open>os.Stat\<close> and reading the file, each of which may fail.\<close>

definition HostsFile_update :: "Lib \<Rightarrow> (string \<Rightarrow> string) \<Rightarrow> int \<Rightarrow> (int \<times> int) result \<Rightarrow> string result \<Rightarrow> HostsFile \<Rightarrow> HostsFile" where
  "HostsFile_update lib canonicalName now stat content f =
     (if now < hf_expire f \<and> hf_byName f \<noteq> [] then f
      else case stat of
             Inl _ \<Rightarrow> f
           | Inr (modTime, fileSize) \<Rightarrow>
               if hf_modTime f = Some modTime \<and> hf_size f = fileSize then f\<lparr>hf_expire := now + cacheMaxAge\<rparr>
               else case content of
                      Inl _ \<Rightarrow> f
                    | Inr text \<Rightarrow>
                        \<lparr>hf_byName = parseHosts lib canonicalName text, hf_expire = now + cacheMaxAge,
                         hf_modTime = Some modTime, hf_size = fileSize\<rparr>)"

definition hostAddresses :: "(string \<times> Addr) list \<Rightarrow> string \<Rightarrow> Addr list" where
  "hostAddresses byName name = map snd (filter (\<lambda>e. fst e = name) byName)"

definition HostsFile_Lookup :: "Lib \<Rightarrow> (string \<Rightarrow> string) \<Rightarrow> int \<Rightarrow> (int \<times> int) result \<Rightarrow> string result \<Rightarrow> HostsFile \<Rightarrow> string \<Rightarrow> Addr list \<times> HostsFile" where
  "HostsFile_Lookup lib canonicalName now stat content f name =
     (let f1 = HostsFile_update lib canonicalName now stat content f in (hostAddresses (hf_byName f1) (canonicalName name), f1))"

section \<open>The server\<close>

text \<open>The files are given by what \<open>Lookup\<close> returns for a domain; they are asked in turn.\<close>

fun lookupFiles :: "(string \<Rightarrow> Addr list) list \<Rightarrow> string \<Rightarrow> Addr list" where
  "lookupFiles [] domain = []"
| "lookupFiles (file # files) domain = (if file domain \<noteq> [] then file domain else lookupFiles files domain)"

definition nameError :: "u16 \<Rightarrow> Question \<Rightarrow> Msg" where
  "nameError i question =
     \<lparr>ms_Id = i, ms_Response = True, ms_Authoritative = False, ms_RecursionDesired = False, ms_RecursionAvailable = False,
      ms_Rcode = 3, ms_Question = [question], ms_Answer = [], ms_Ns = [], ms_Extra = []\<rparr>"

definition Hosts_Exchange :: "(string \<Rightarrow> string) \<Rightarrow> (string \<rightharpoonup> Addr list) \<Rightarrow> (string \<Rightarrow> Addr list) list \<Rightarrow> Msg \<Rightarrow> Msg result" where
  "Hosts_Exchange canonicalName predefined files message =
     (case ms_Question message of
        [] \<Rightarrow> Inl (Panic [AStr ''runtime error: index out of range''])
      | question # _ \<Rightarrow>
          let domain = canonicalName (qu_Name question)
          in Inr (if qu_Qtype question = TypeA \<or> qu_Qtype question = TypeAAAA
                  then case predefined domain of
                         Some addresses \<Rightarrow> FixedResponse (ms_Id message) question addresses 600
                       | None \<Rightarrow>
                           let addresses = lookupFiles files domain
                           in if addresses \<noteq> [] then FixedResponse (ms_Id message) question addresses 600
                              else nameError (ms_Id message) question
                  else nameError (ms_Id message) question))"

section \<open>Properties\<close>

text \<open>
  A file that changes: at every time it has a modification time, a size and a content. The cache holds what
  the file was at some time; until it expires that is less than five seconds ago.
\<close>

definition hostsInv :: "Lib \<Rightarrow> (string \<Rightarrow> string) \<Rightarrow> (int \<Rightarrow> int \<times> int \<times> string) \<Rightarrow> int \<Rightarrow> HostsFile \<Rightarrow> bool" where
  "hostsInv lib cn disk now f =
     (f = NewFile \<or>
      (\<exists>t \<le> now. hf_expire f = t + cacheMaxAge \<and> hf_modTime f = Some (fst (disk t)) \<and> hf_size f = fst (snd (disk t)) \<and>
        hf_byName f = parseHosts lib cn (snd (snd (disk t)))))"

text \<open>
  A lookup answers from a state of the file that is less than five seconds old, provided that the file can
  be read and that two states with the same time and size have the same content.
\<close>

theorem hosts_lookup_is_fresh:
  assumes "\<And>s t. fst (disk s) = fst (disk t) \<Longrightarrow> fst (snd (disk s)) = fst (snd (disk t)) \<Longrightarrow> disk s = disk t"
    and "hostsInv lib cn disk earlier f" "earlier \<le> now"
    and "HostsFile_Lookup lib cn now (Inr (fst (disk now), fst (snd (disk now)))) (Inr (snd (snd (disk now)))) f name = (addresses, f')"
  shows "hostsInv lib cn disk now f' \<and>
    (\<exists>t. now - 5000000000 < t \<and> t \<le> now \<and> addresses = hostAddresses (parseHosts lib cn (snd (snd (disk t)))) (cn name))"
proof -
  let ?f = "HostsFile_update lib cn now (Inr (fst (disk now), fst (snd (disk now)))) (Inr (snd (snd (disk now)))) f"
  have f': "f' = ?f" "addresses = hostAddresses (hf_byName ?f) (cn name)" using assms(4) by (auto simp: HostsFile_Lookup_def Let_def)
  have "\<exists>t. now - 5000000000 < t \<and> t \<le> now \<and> hf_expire ?f = t + cacheMaxAge \<and> hf_modTime ?f = Some (fst (disk t)) \<and>
      hf_size ?f = fst (snd (disk t)) \<and> hf_byName ?f = parseHosts lib cn (snd (snd (disk t)))"
  proof (cases "f = NewFile")
    case True
    then show ?thesis by (intro exI [of _ now]) (simp add: HostsFile_update_def NewFile_def)
  next
    case False
    then obtain t where t: "t \<le> earlier" "hf_expire f = t + cacheMaxAge" "hf_modTime f = Some (fst (disk t))" "hf_size f = fst (snd (disk t))"
      "hf_byName f = parseHosts lib cn (snd (snd (disk t)))" using assms(2) by (auto simp: hostsInv_def)
    show ?thesis
    proof (cases "now < hf_expire f \<and> hf_byName f \<noteq> []")
      case True
      then show ?thesis using t assms(3) by (intro exI [of _ t]) (simp add: HostsFile_update_def)
    next
      case False
      show ?thesis
      proof (cases "fst (disk t) = fst (disk now) \<and> fst (snd (disk t)) = fst (snd (disk now))")
        case True
        then have "disk t = disk now" using assms(1) by blast
        then show ?thesis using False t by (intro exI [of _ now]) (auto simp: HostsFile_update_def)
      next
        case c: False
        then show ?thesis using False t by (intro exI [of _ now]) (auto simp: HostsFile_update_def)
      qed
    qed
  qed
  then show ?thesis using f' by (auto simp: hostsInv_def)
qed

text \<open>A predefined entry hides the files, even if it has no address; the first file with an address answers.\<close>

theorem hosts_exchange_order:
  assumes "ms_Question message = question # qs" "qu_Qtype question = TypeA \<or> qu_Qtype question = TypeAAAA"
  shows "predefined (cn (qu_Name question)) = Some as \<Longrightarrow>
      Hosts_Exchange cn predefined files message = Inr (FixedResponse (ms_Id message) question as 600)"
    and "predefined (cn (qu_Name question)) = None \<Longrightarrow> \<forall>file \<in> set before. file (cn (qu_Name question)) = [] \<Longrightarrow>
      file (cn (qu_Name question)) \<noteq> [] \<Longrightarrow>
      Hosts_Exchange cn predefined (before @ file # after) message =
        Inr (FixedResponse (ms_Id message) question (file (cn (qu_Name question))) 600)"
    and "predefined (cn (qu_Name question)) = None \<Longrightarrow> \<forall>file \<in> set files. file (cn (qu_Name question)) = [] \<Longrightarrow>
      Hosts_Exchange cn predefined files message = Inr (nameError (ms_Id message) question)"
proof -
  have "\<forall>h \<in> set before. h d = [] \<Longrightarrow> hosts d \<noteq> [] \<Longrightarrow> lookupFiles (before @ hosts # after) d = hosts d" for d before and hosts :: "string \<Rightarrow> Addr list" and after
    by (induction before) auto
  moreover have "\<forall>file \<in> set files. file d = [] \<Longrightarrow> lookupFiles files d = []" for d files
    by (induction files) auto
  ultimately show "predefined (cn (qu_Name question)) = Some as \<Longrightarrow>
      Hosts_Exchange cn predefined files message = Inr (FixedResponse (ms_Id message) question as 600)"
    "predefined (cn (qu_Name question)) = None \<Longrightarrow> \<forall>file \<in> set before. file (cn (qu_Name question)) = [] \<Longrightarrow>
      file (cn (qu_Name question)) \<noteq> [] \<Longrightarrow>
      Hosts_Exchange cn predefined (before @ file # after) message =
        Inr (FixedResponse (ms_Id message) question (file (cn (qu_Name question))) 600)"
    "predefined (cn (qu_Name question)) = None \<Longrightarrow> \<forall>file \<in> set files. file (cn (qu_Name question)) = [] \<Longrightarrow>
      Hosts_Exchange cn predefined files message = Inr (nameError (ms_Id message) question)"
    using assms by (auto simp: Hosts_Exchange_def Let_def)
qed

end
