(* ===== verification/Geosite.thy ===== *)
theory Geosite
  imports Srs_Props "HOL-Library.List_Lexorder" "HOL-Library.Char_ord"
begin

text \<open>
  The database of domains by code, \<open>common/geosite\<close>: its writer, its reader, and the rules made of its items.

  A Go map of items is a list of its entries with distinct keys, in any order. \<open>WriteUvarint\<close> of the \<open>sing\<close>
  library is a parameter of the writer. A writer that fails is not modelled.
\<close>

record Item =
  it_Type :: u8
  it_Value :: string

abbreviation (input) RuleTypeDomain :: u8 where "RuleTypeDomain \<equiv> 0"
abbreviation (input) RuleTypeDomainSuffix :: u8 where "RuleTypeDomainSuffix \<equiv> 1"
abbreviation (input) RuleTypeDomainKeyword :: u8 where "RuleTypeDomainKeyword \<equiv> 2"
abbreviation (input) RuleTypeDomainRegex :: u8 where "RuleTypeDomainRegex \<equiv> 3"

type_synonym Domains = "(string \<times> Item list) list"

definition codeItems :: "Domains \<Rightarrow> string \<Rightarrow> Item list" where
  "codeItems domains code = (case map_of domains code of Some items \<Rightarrow> items | None \<Rightarrow> [])"

section \<open>Writer\<close>

definition writeString :: "(u64 \<Rightarrow> bytes) \<Rightarrow> string \<Rightarrow> bytes" where
  "writeString wu v = wu (word_of_nat (length v)) @ bytesOf v"

definition writeItem :: "(u64 \<Rightarrow> bytes) \<Rightarrow> Item \<Rightarrow> bytes" where
  "writeItem wu item = it_Type item # writeString wu (it_Value item)"

text \<open>The loop over the keys: the position of every code in the content, and the content.\<close>

fun contentLoop :: "(u64 \<Rightarrow> bytes) \<Rightarrow> Domains \<Rightarrow> string list \<Rightarrow> (string \<rightharpoonup> nat) \<Rightarrow> bytes \<Rightarrow> (string \<rightharpoonup> nat) \<times> bytes" where
  "contentLoop wu domains [] index content = (index, content)"
| "contentLoop wu domains (code # keys) index content =
     contentLoop wu domains keys (index(code \<mapsto> length content)) (content @ concat (map (writeItem wu) (codeItems domains code)))"

definition writeCode :: "(u64 \<Rightarrow> bytes) \<Rightarrow> string \<times> u64 \<times> u64 \<Rightarrow> bytes" where
  "writeCode wu = (\<lambda>(code, index, n). writeString wu code @ wu index @ wu n)"

definition codeEntry :: "Domains \<Rightarrow> (string \<rightharpoonup> nat) \<Rightarrow> string \<Rightarrow> string \<times> u64 \<times> u64" where
  "codeEntry domains index code =
     (code, word_of_nat (case index code of Some i \<Rightarrow> i | None \<Rightarrow> 0), word_of_nat (length (codeItems domains code)))"

definition geosite_Write :: "(u64 \<Rightarrow> bytes) \<Rightarrow> Domains \<Rightarrow> bytes" where
  "geosite_Write wu domains =
     (let keys = sort (map fst domains);
          (index, content) = contentLoop wu domains keys Map.empty []
      in 0 # wu (word_of_nat (length keys)) @ concat (map (writeCode wu \<circ> codeEntry domains index) keys) @ content)"

section \<open>Reader\<close>

definition readString :: "bytes \<Rightarrow> (string \<times> bytes) result" where
  "readString bs = bindE (readUvarint bs) (\<lambda>(n, bs1). bindE (makeslice 1 n) (\<lambda>_. storeRead stringOf (readEach readByte (unat n) bs1)))"

definition readCode :: "bytes \<Rightarrow> ((string \<times> u64 \<times> u64) \<times> bytes) result" where
  "readCode bs =
     bindE (readString bs) (\<lambda>(code, bs1).
       bindE (readUvarint bs1) (\<lambda>(codeIndex, bs2). storeRead (\<lambda>codeLength. (code, codeIndex, codeLength)) (readUvarint bs2)))"

text \<open>The reader keeps the file it seeks in. The integers are the 64-bit words of its \<open>int\<close> fields.\<close>

record GeositeReader =
  gr_file :: bytes
  gr_metadataIndex :: u64
  gr_domainIndex :: "string \<rightharpoonup> u64"
  gr_domainLength :: "string \<rightharpoonup> u64"

definition readMetadata :: "bytes \<Rightarrow> GeositeReader result" where
  "readMetadata file =
     bindE (readByte file) (\<lambda>(version, bs1).
       if version \<noteq> 0 then Inl (E_New [AStr ''unknown version''])
       else bindE (readUvarint bs1) (\<lambda>(entryLength, bs2).
         bindE (makeslice 16 entryLength) (\<lambda>_.
           bindE (readEach readCode (unat entryLength) bs2) (\<lambda>(entries, bs3).
             Inr \<lparr>gr_file = file,
                  gr_metadataIndex = word_of_nat (length file - length bs3),
                  gr_domainIndex = foldl (\<lambda>m e. m(fst e \<mapsto> fst (snd e))) Map.empty entries,
                  gr_domainLength = foldl (\<lambda>m e. m(fst e \<mapsto> snd (snd e))) Map.empty entries\<rparr>))))"

text \<open>\<open>NewReader\<close> also returns the codes, in the order of a map: here as a set.\<close>

definition NewReader :: "bytes \<Rightarrow> (GeositeReader \<times> string set) result" where
  "NewReader file = bindE (readMetadata file) (\<lambda>reader. Inr (reader, dom (gr_domainIndex reader)))"

definition readItem :: "bytes \<Rightarrow> (Item \<times> bytes) result" where
  "readItem bs = bindE (readByte bs) (\<lambda>(typeByte, bs1). storeRead (\<lambda>v. \<lparr>it_Type = typeByte, it_Value = v\<rparr>) (readString bs1))"

definition GeositeReader_Read :: "GeositeReader \<Rightarrow> string \<Rightarrow> Item list result" where
  "GeositeReader_Read r code =
     (case gr_domainIndex r code of
        None \<Rightarrow> Inl (E_New [AStr ''code '', AStr code, AStr '' not exists!''])
      | Some index \<Rightarrow>
          let position = sint (gr_metadataIndex r + index);
              n = (case gr_domainLength r code of Some k \<Rightarrow> k | None \<Rightarrow> 0)
          in if position < 0 then Inl (E_Lib ''invalid argument'')
             else bindE (makeslice 24 n) (\<lambda>_.
                    bindE (readEach readItem (unat n) (drop (nat position) (gr_file r))) (\<lambda>(itemList, _). Inr itemList)))"

section \<open>Rules\<close>

text \<open>The fields of \<open>option.DefaultRule\<close> that \<open>Compile\<close> and \<open>Merge\<close> set; the others are empty.\<close>

record DomainRule =
  dr_Domain :: "string list"
  dr_DomainSuffix :: "string list"
  dr_DomainKeyword :: "string list"
  dr_DomainRegex :: "string list"

definition emptyDomainRule :: DomainRule where
  "emptyDomainRule = \<lparr>dr_Domain = [], dr_DomainSuffix = [], dr_DomainKeyword = [], dr_DomainRegex = []\<rparr>"

definition addItem :: "DomainRule \<Rightarrow> Item \<Rightarrow> DomainRule" where
  "addItem rule item =
     (if it_Type item = RuleTypeDomain then rule\<lparr>dr_Domain := dr_Domain rule @ [it_Value item]\<rparr>
      else if it_Type item = RuleTypeDomainSuffix then rule\<lparr>dr_DomainSuffix := dr_DomainSuffix rule @ [it_Value item]\<rparr>
      else if it_Type item = RuleTypeDomainKeyword then rule\<lparr>dr_DomainKeyword := dr_DomainKeyword rule @ [it_Value item]\<rparr>
      else if it_Type item = RuleTypeDomainRegex then rule\<lparr>dr_DomainRegex := dr_DomainRegex rule @ [it_Value item]\<rparr>
      else rule)"

definition geosite_Compile :: "Item list \<Rightarrow> DomainRule" where
  "geosite_Compile code = foldl addItem emptyDomainRule code"

definition mergeRule :: "DomainRule \<Rightarrow> DomainRule \<Rightarrow> DomainRule" where
  "mergeRule rule subRule =
     \<lparr>dr_Domain = dr_Domain rule @ dr_Domain subRule,
      dr_DomainSuffix = dr_DomainSuffix rule @ dr_DomainSuffix subRule,
      dr_DomainKeyword = dr_DomainKeyword rule @ dr_DomainKeyword subRule,
      dr_DomainRegex = dr_DomainRegex rule @ dr_DomainRegex subRule\<rparr>"

definition geosite_Merge :: "DomainRule list \<Rightarrow> DomainRule" where
  "geosite_Merge rules = foldl mergeRule emptyDomainRule rules"

section \<open>What is written is read back\<close>

locale uvarint_writer =
  fixes wu :: "u64 \<Rightarrow> bytes"
  assumes uvarint: "readUvarint (wu w @ rest) = Inr (w, rest)"
begin

lemma nonempty: "wu w \<noteq> []"
  using uvarint [of w "[]"] by (auto simp: readUvarint_def)

lemma readEach_bytes: "readEach readByte (length bs) (bs @ rest) = Inr (bs, rest)"
  by (induction bs) (simp_all add: readByte_def)

lemma string: "length s \<le> 2 ^ 48 \<Longrightarrow> readString (writeString wu s @ rest) = Inr (s, rest)"
  using makeslice_ok [of 1 s] unat_length [of s] readEach_bytes [of "bytesOf s" rest]
  by (simp add: readString_def writeString_def uvarint storeRead_def)

end

sublocale uvarint_writer \<subseteq> item: codec "\<lambda>i. length (it_Value i) \<le> 2 ^ 48" "writeItem wu" readItem
  by unfold_locales (simp add: readItem_def writeItem_def readByte_def storeRead_def string)

sublocale uvarint_writer \<subseteq> code: codec "\<lambda>(code, e). length code \<le> 2 ^ 48" "writeCode wu" readCode
  by unfold_locales (auto simp: readCode_def writeCode_def storeRead_def string uvarint)

interpretation putUvarint: uvarint_writer putUvarint
  by unfold_locales (rule readUvarint_putUvarint)

text \<open>The content of one code, and where it is.\<close>

definition block :: "(u64 \<Rightarrow> bytes) \<Rightarrow> Domains \<Rightarrow> string \<Rightarrow> bytes" where
  "block wu domains code = concat (map (writeItem wu) (codeItems domains code))"

lemma contentLoop_content: "snd (contentLoop wu d keys index content) = content @ concat (map (block wu d) keys)"
  by (induction keys arbitrary: index content) (simp_all add: block_def)

lemma contentLoop_other: "code \<notin> set keys \<Longrightarrow> fst (contentLoop wu d keys index content) code = index code"
  by (induction keys arbitrary: index content) simp_all

lemma contentLoop_index:
  "distinct (before @ code # after) \<Longrightarrow>
   fst (contentLoop wu d (before @ code # after) index content) code = Some (length content + length (concat (map (block wu d) before)))"
proof (induction before arbitrary: index content)
  case Nil
  then show ?case using contentLoop_other [of code after] by simp
next
  case (Cons c cs)
  then show ?case by (simp add: block_def)
qed

lemma foldl_codes:
  assumes "\<And>c. fst (e c) = c"
  shows "foldl (\<lambda>m x. m(fst x \<mapsto> g x)) m (map e keys) c = (if c \<in> set keys then Some (g (e c)) else m c)"
  by (induction keys arbitrary: m) (auto simp: assms)

lemma length_concat_member: "x \<in> set xs \<Longrightarrow> length (f x) \<le> length (concat (map f xs))"
  by (induction xs) auto

lemma length_concat_nonempty: "(\<And>x. f x \<noteq> []) \<Longrightarrow> length xs \<le> length (concat (map f xs))"
proof (induction xs)
  case (Cons x xs)
  have "1 \<le> length (f x)" using Cons(2) [of x] by (cases "f x") auto
  then show ?case using add_mono [OF _ Cons(1) [OF Cons(2)], of 1 "length (f x)"] by simp
qed simp

lemma sint_position: "a + b < 2 ^ 63 \<Longrightarrow> sint (word_of_nat a + word_of_nat b :: u64) = int (a + b)"
proof -
  assume "a + b < 2 ^ 63"
  then have "signed_take_bit 63 (int (a + b)) = int (a + b)"
    by (intro signed_take_bit_int_eq_self) auto
  moreover have "sint (word_of_nat (a + b) :: u64) = signed_take_bit 63 (int (a + b))"
    using signed_of_nat [where 'a = int and 'b = 64, of "a + b"] by simp
  ultimately show ?thesis by simp
qed

context uvarint_writer
begin

lemma writeCode_nonempty: "writeCode wu e \<noteq> []"
  using nonempty by (cases e) (simp add: writeCode_def writeString_def)

lemma codeEntry_short: "length (writeCode wu (codeEntry d index code)) \<le> n \<Longrightarrow> length code \<le> n"
  by (simp add: writeCode_def codeEntry_def writeString_def)

text \<open>The metadata in front of the content are read back.\<close>

lemma readMetadata_write:
  assumes "24 * length keys \<le> 2 ^ 48" "\<And>c. c \<in> set keys \<Longrightarrow> length c \<le> 2 ^ 48"
    and header_def: "header = 0 # wu (word_of_nat (length keys)) @ concat (map (writeCode wu \<circ> codeEntry d index) keys)"
  shows "readMetadata (header @ content) =
    Inr \<lparr>gr_file = header @ content, gr_metadataIndex = word_of_nat (length header),
         gr_domainIndex = (\<lambda>c. if c \<in> set keys then Some (fst (snd (codeEntry d index c))) else None),
         gr_domainLength = (\<lambda>c. if c \<in> set keys then Some (snd (snd (codeEntry d index c))) else None)\<rparr>"
proof -
  let ?es = "map (codeEntry d index) keys"
  have "list_all (\<lambda>(code, e). length code \<le> 2 ^ 48) ?es" using assms(2) by (simp add: list_all_iff codeEntry_def)
  then have "readEach readCode (length ?es) (concat (map (writeCode wu) ?es) @ content) = Inr (?es, content)"
    by (rule code.decode_each)
  moreover have "unat (word_of_nat (length keys) :: u64) = length keys" using assms(1) unat_length [of keys] by simp
  moreover have "makeslice 16 (word_of_nat (length keys)) = Inr ()" using assms(1) makeslice_ok [of 16 keys] by simp
  moreover have "foldl (\<lambda>m e. m(fst e \<mapsto> fst (snd e))) Map.empty ?es =
      (\<lambda>c. if c \<in> set keys then Some (fst (snd (codeEntry d index c))) else None)"
    using foldl_codes [of "codeEntry d index" "fst \<circ> snd" Map.empty keys] by (simp add: fun_eq_iff codeEntry_def)
  moreover have "foldl (\<lambda>m e. m(fst e \<mapsto> snd (snd e))) Map.empty ?es =
      (\<lambda>c. if c \<in> set keys then Some (snd (snd (codeEntry d index c))) else None)"
    using foldl_codes [of "codeEntry d index" "snd \<circ> snd" Map.empty keys] by (simp add: fun_eq_iff codeEntry_def)
  ultimately show ?thesis by (simp add: readMetadata_def header_def readByte_def uvarint)
qed

lemma read_block:
  assumes "24 * length (block wu d code) \<le> 2 ^ 48"
  shows "readEach readItem (length (codeItems d code)) (block wu d code @ rest) = Inr (codeItems d code, rest)"
    and "24 * length (codeItems d code) \<le> 2 ^ 48"
proof -
  have "length (it_Value i) \<le> 2 ^ 48" if "i \<in> set (codeItems d code)" for i
  proof -
    have "length (it_Value i) \<le> length (writeItem wu i)" by (simp add: writeItem_def writeString_def)
    also have "\<dots> \<le> length (block wu d code)" unfolding block_def using that by (rule length_concat_member)
    finally show ?thesis using assms by simp
  qed
  then show "readEach readItem (length (codeItems d code)) (block wu d code @ rest) = Inr (codeItems d code, rest)"
    unfolding block_def by (intro item.decode_each) (simp add: list_all_iff)
  have "length (codeItems d code) \<le> length (block wu d code)"
    unfolding block_def by (rule length_concat_nonempty) (simp add: writeItem_def)
  then show "24 * length (codeItems d code) \<le> 2 ^ 48" using assms by simp
qed

lemma read_written:
  assumes "distinct (map fst d)" "24 * length (geosite_Write wu d) \<le> 2 ^ 48"
  obtains r where "NewReader (geosite_Write wu d) = Inr (r, fst ` set d)"
    and "\<And>code. GeositeReader_Read r code =
      (if code \<in> fst ` set d then Inr (codeItems d code) else Inl (E_New [AStr ''code '', AStr code, AStr '' not exists!'']))"
proof -
  define keys where "keys = sort (map fst d)"
  have keys: "set keys = fst ` set d" "distinct keys" using assms(1) by (simp_all add: keys_def)
  obtain index content where loop: "contentLoop wu d keys Map.empty [] = (index, content)" by (cases "contentLoop wu d keys Map.empty []")
  define header where "header = 0 # wu (word_of_nat (length keys)) @ concat (map (writeCode wu \<circ> codeEntry d index) keys)"
  have whole: "geosite_Write wu d = header @ content"
    unfolding geosite_Write_def keys_def [symmetric] by (simp add: loop header_def)
  have content: "content = concat (map (block wu d) keys)"
    using contentLoop_content [of wu d keys Map.empty "[]"] loop by simp
  have size: "24 * (length header + length content) \<le> 2 ^ 48" using assms(2) whole by simp
  have "length keys \<le> length (concat (map (writeCode wu \<circ> codeEntry d index) keys))"
    by (rule length_concat_nonempty) (simp add: writeCode_nonempty)
  then have n: "24 * length keys \<le> 2 ^ 48" using size by (simp add: header_def)
  have short: "length c \<le> 2 ^ 48" if "c \<in> set keys" for c
    using length_concat_member [OF that, of "writeCode wu \<circ> codeEntry d index"] size codeEntry_short [of d index c "2 ^ 48"]
    by (simp add: header_def)
  obtain r where r: "readMetadata (header @ content) = Inr r" "gr_file r = header @ content" "gr_metadataIndex r = word_of_nat (length header)"
    "gr_domainIndex r = (\<lambda>c. if c \<in> set keys then Some (fst (snd (codeEntry d index c))) else None)"
    "gr_domainLength r = (\<lambda>c. if c \<in> set keys then Some (snd (snd (codeEntry d index c))) else None)"
    by (rule that [OF readMetadata_write [OF n short header_def, of content]]) simp_all
  have "GeositeReader_Read r code = Inr (codeItems d code)" if c: "code \<in> set keys" for code
  proof -
    obtain before after where k: "keys = before @ code # after" using split_list [OF c] by blast
    define i where "i = length (concat (map (block wu d) before))"
    have i: "index code = Some i" using contentLoop_index [of before code after wu d Map.empty "[]"] keys(2) loop k by (simp add: i_def)
    have split: "content = concat (map (block wu d) before) @ block wu d code @ concat (map (block wu d) after)" by (simp add: content k)
    then have le: "i + length (block wu d code) \<le> length content" by (simp add: i_def)
    have b: "24 * length (block wu d code) \<le> 2 ^ 48" using le size by simp
    have "sint (gr_metadataIndex r + word_of_nat i) = int (length header + i)"
      unfolding r(3) using le size by (intro sint_position) simp
    moreover have "drop (length header + i) (gr_file r) = block wu d code @ concat (map (block wu d) after)"
      unfolding r(2) by (simp add: split i_def)
    moreover note read_block [OF b] unat_length [of "codeItems d code"] makeslice_ok [of 24 "codeItems d code"]
    ultimately show ?thesis using c
      by (simp add: GeositeReader_Read_def r(4,5) codeEntry_def i nat_int_add del: of_nat_add)
  qed
  moreover have "GeositeReader_Read r code = Inl (E_New [AStr ''code '', AStr code, AStr '' not exists!''])" if "code \<notin> set keys" for code
    using that by (simp add: GeositeReader_Read_def r(4))
  moreover have "NewReader (geosite_Write wu d) = Inr (r, fst ` set d)"
    using r(4) keys(1) by (simp add: NewReader_def whole r(1) dom_def)
  ultimately show ?thesis using that keys(1) by simp
qed

end

text \<open>
  C38: A database of domains that the writer has produced is opened by the reader with the codes that were
  written, and reading a code returns exactly its items in their order; any other code is an error. The
  map may have been iterated in any order. \<open>WriteUvarint\<close> is assumed to write what \<open>ReadUvarint\<close> reads, and
  the file to be smaller than about ten terabytes.
\<close>

theorem written_database_is_read:
  assumes "\<And>w rest. readUvarint (wu w @ rest) = Inr (w, rest)"
    and "distinct (map fst domains)" "24 * length (geosite_Write wu domains) \<le> 2 ^ 48"
  shows "\<exists>r. NewReader (geosite_Write wu domains) = Inr (r, fst ` set domains) \<and>
    (\<forall>code. GeositeReader_Read r code =
      (case map_of domains code of
         Some items \<Rightarrow> Inr items
       | None \<Rightarrow> Inl (E_New [AStr ''code '', AStr code, AStr '' not exists!''])))"
proof -
  have "uvarint_writer wu" using assms(1) by (rule uvarint_writer.intro)
  from uvarint_writer.read_written [OF this assms(2,3)] obtain r where
    r: "NewReader (geosite_Write wu domains) = Inr (r, fst ` set domains)"
    "\<And>code. GeositeReader_Read r code =
      (if code \<in> fst ` set domains then Inr (codeItems domains code) else Inl (E_New [AStr ''code '', AStr code, AStr '' not exists!'']))"
    by blast
  have "code \<in> fst ` set domains \<longleftrightarrow> map_of domains code \<noteq> None" for code by (metis map_of_eq_None_iff)
  then show ?thesis using r by (intro exI [of _ r]) (auto simp: codeItems_def split: option.splits)
qed

definition sampleDomains :: Domains where
  "sampleDomains = [(''b'', [\<lparr>it_Type = 1, it_Value = ''b.org''\<rparr>]), (''a'', [])]"

theorem written_database_is_read_witness:
  "\<exists>r. NewReader (geosite_Write putUvarint sampleDomains) = Inr (r, {''a'', ''b''}) \<and>
    GeositeReader_Read r ''b'' = Inr [\<lparr>it_Type = 1, it_Value = ''b.org''\<rparr>]"
proof -
  have "length (geosite_Write putUvarint sampleDomains) = 17"
    by (simp add: geosite_Write_def sampleDomains_def putUvarint.simps writeCode_def codeEntry_def writeString_def writeItem_def codeItems_def)
  then obtain r where "NewReader (geosite_Write putUvarint sampleDomains) = Inr (r, fst ` set sampleDomains)"
    "\<And>code. GeositeReader_Read r code = (case map_of sampleDomains code of
       Some items \<Rightarrow> Inr items | None \<Rightarrow> Inl (E_New [AStr ''code '', AStr code, AStr '' not exists!'']))"
    using written_database_is_read [OF readUvarint_putUvarint, of sampleDomains] by (auto simp: sampleDomains_def)
  then show ?thesis by (intro exI [of _ r]) (auto simp: sampleDomains_def)
qed

section \<open>The rules of codes\<close>

abbreviation ofType :: "u8 \<Rightarrow> Item list \<Rightarrow> string list" where
  "ofType t items \<equiv> map it_Value (filter (\<lambda>i. it_Type i = t) items)"

lemma foldl_addItem:
  "foldl addItem rule items =
     mergeRule rule \<lparr>dr_Domain = ofType 0 items, dr_DomainSuffix = ofType 1 items, dr_DomainKeyword = ofType 2 items, dr_DomainRegex = ofType 3 items\<rparr>"
  by (induction items arbitrary: rule) (simp_all add: mergeRule_def addItem_def)

lemma geosite_Compile_fields:
  "geosite_Compile items = \<lparr>dr_Domain = ofType 0 items, dr_DomainSuffix = ofType 1 items, dr_DomainKeyword = ofType 2 items, dr_DomainRegex = ofType 3 items\<rparr>"
  by (simp add: geosite_Compile_def foldl_addItem mergeRule_def emptyDomainRule_def)

text \<open>Merging the rules of several codes is compiling the items of all of them.\<close>

theorem merge_compiles_all_items: "geosite_Merge (map geosite_Compile codes) = geosite_Compile (concat codes)"
proof -
  have "foldl mergeRule rule (map geosite_Compile codes) = mergeRule rule (geosite_Compile (concat codes))" for rule
    by (induction codes arbitrary: rule) (simp_all add: geosite_Compile_fields mergeRule_def)
  then show ?thesis by (simp add: geosite_Merge_def mergeRule_def emptyDomainRule_def)
qed

end
