(* ===== verification/Trojan.thy ===== *)
theory Trojan
  imports Srs
begin

text \<open>
  The Trojan protocol, \<open>transport/trojan\<close>: what a client writes in front of its data (\<open>protocol.go\<close>), the users
  and the handshake of the server (\<open>service.go\<close>), and the streams of a multiplexed connection (\<open>mux.go\<close>).

  A function that writes returns the bytes it has put on the connection, unless the connection fails with
  the error given to it. A packet is given as its content and the memory in front of it in its buffer, into
  which \<open>ExtendHeader\<close> lets a header be written; the serializer is taken to write no more bytes than the
  code has computed with \<open>AddrPortLen\<close>. A connection that is read is the list of
  the segments that it delivers: the first \<open>Read\<close> of the server returns at most one of them. The library
  is the record \<open>TrojanLib\<close>: \<open>SocksaddrSerializer\<close> of \<open>sing\<close> and the hash SHA-224.
\<close>

record TrojanLib =
  tl_Sum224 :: "string \<Rightarrow> bytes"
  tl_AddrPortLen :: "Socksaddr \<Rightarrow> nat"
  tl_WriteAddrPort :: "Socksaddr \<Rightarrow> bytes result"
  tl_ReadAddrPort :: "bytes \<Rightarrow> (Socksaddr \<times> bytes) result"

abbreviation (input) KeyLength :: nat where "KeyLength \<equiv> 56"
abbreviation (input) CommandTCP :: u8 where "CommandTCP \<equiv> 1"
abbreviation (input) CommandUDP :: u8 where "CommandUDP \<equiv> 3"
abbreviation (input) CommandMux :: u8 where "CommandMux \<equiv> 0x7f"

definition CRLF :: bytes where
  "CRLF = [13, 10]"

section \<open>Keys\<close>

definition hexDigit :: "nat \<Rightarrow> u8" where
  "hexDigit n = word_of_nat (if n < 10 then 48 + n else 87 + n)"

definition hexEncode :: "bytes \<Rightarrow> bytes" where
  "hexEncode bs = concat (map (\<lambda>b. [hexDigit (unat b div 16), hexDigit (unat b mod 16)]) bs)"

definition trojanKey :: "TrojanLib \<Rightarrow> string \<Rightarrow> bytes" where
  "trojanKey L password = hexEncode (tl_Sum224 L password)"

section \<open>Client\<close>

definition connWrite :: "Error option \<Rightarrow> string \<Rightarrow> bytes \<Rightarrow> bytes result" where
  "connWrite writeErr what bs = (case writeErr of Some err \<Rightarrow> Inl (E_Cause err [AStr what]) | None \<Rightarrow> Inr bs)"

definition ClientHandshake :: "TrojanLib \<Rightarrow> Error option \<Rightarrow> bytes \<Rightarrow> Socksaddr \<Rightarrow> bytes \<Rightarrow> bytes result" where
  "ClientHandshake L writeErr key destination payload =
     bindE (tl_WriteAddrPort L destination) (\<lambda>addr.
       connWrite writeErr ''write request'' (key @ CRLF @ [CommandTCP] @ addr @ CRLF @ payload))"

text \<open>
  \<open>ExtendHeader\<close> gives the last \<open>n\<close> bytes in front of the content of a buffer and panics if there are
  fewer. A header is written over them from their start.
\<close>

definition extendHeader :: "nat \<Rightarrow> bytes \<Rightarrow> bytes result" where
  "extendHeader n front =
     (if length front < n then Inl (Panic [AStr ''buffer overflow'']) else Inr (drop (length front - n) front))"

definition overlay :: "bytes \<Rightarrow> bytes \<Rightarrow> bytes" where
  "overlay header room = header @ drop (length header) room"

definition ClientHandshakeBuffer :: "TrojanLib \<Rightarrow> Error option \<Rightarrow> bytes \<Rightarrow> Socksaddr \<Rightarrow> bytes \<Rightarrow> bytes \<Rightarrow> bytes result" where
  "ClientHandshakeBuffer L writeErr key destination front payload =
     bindE (extendHeader (KeyLength + tl_AddrPortLen L destination + 5) front) (\<lambda>room.
       bindE (tl_WriteAddrPort L destination) (\<lambda>addr.
         connWrite writeErr ''write request'' (overlay (key @ CRLF @ [CommandTCP] @ addr @ CRLF) room @ payload)))"

text \<open>
  The header of the first packet is put in front of it where there is room, otherwise it is written on
  its own: \<open>writeErr\<close> has the error of either write.
\<close>

definition ClientHandshakePacket :: "TrojanLib \<Rightarrow> (nat \<Rightarrow> Error option) \<Rightarrow> bytes \<Rightarrow> Socksaddr \<Rightarrow> bytes \<Rightarrow> bytes \<Rightarrow> bytes result" where
  "ClientHandshakePacket L writeErr key destination front payload =
     (let headerLen = KeyLength + 2 * tl_AddrPortLen L destination + 9
      in bindE (tl_WriteAddrPort L destination) (\<lambda>addr.
           let header = key @ CRLF @ [CommandUDP] @ addr @ CRLF @ addr @ bytesOfNat 2 (length payload) @ CRLF
           in if headerLen \<le> length front
              then bindE (extendHeader headerLen front) (\<lambda>room. connWrite (writeErr 0) ''write payload'' (overlay header room @ payload))
              else bindE (connWrite (writeErr 0) ''write request'' header) (\<lambda>first.
                     bindE (connWrite (writeErr 1) ''write payload'' payload) (\<lambda>second. Inr (first @ second)))))"

definition trojan_WritePacket :: "TrojanLib \<Rightarrow> Error option \<Rightarrow> bytes \<Rightarrow> bytes \<Rightarrow> Socksaddr \<Rightarrow> bytes result" where
  "trojan_WritePacket L writeErr front payload destination =
     bindE (extendHeader (tl_AddrPortLen L destination + 4) front) (\<lambda>room.
       bindE (tl_WriteAddrPort L destination) (\<lambda>addr.
         connWrite writeErr ''write packet'' (overlay (addr @ bytesOfNat 2 (length payload) @ CRLF) room @ payload)))"

text \<open>\<open>free\<close> is the space of the buffer that the packet is read into.\<close>

definition trojan_ReadPacket :: "TrojanLib \<Rightarrow> nat \<Rightarrow> bytes \<Rightarrow> ((Socksaddr \<times> bytes) \<times> bytes) result" where
  "trojan_ReadPacket L free bs =
     bindE (cause [AStr ''read destination''] (tl_ReadAddrPort L bs)) (\<lambda>(destination, bs1).
       bindE (cause [AStr ''read chunk length''] (readN 2 bs1)) (\<lambda>(prefix, bs2).
         bindE (cause [AStr ''skip crlf''] (readN 2 bs2)) (\<lambda>(_, bs3).
           if free < bigEndian prefix then Inl (E_Lib ''short buffer'')
           else storeRead (Pair destination) (readN (bigEndian prefix) bs3))))"

record ClientConn =
  cc_key :: bytes
  cc_destination :: Socksaddr
  cc_headerWritten :: bool

definition NewClientConn :: "bytes \<Rightarrow> Socksaddr \<Rightarrow> ClientConn" where
  "NewClientConn key destination = \<lparr>cc_key = key, cc_destination = destination, cc_headerWritten = False\<rparr>"

definition ClientConn_Write :: "TrojanLib \<Rightarrow> Error option \<Rightarrow> ClientConn \<Rightarrow> bytes \<Rightarrow> bytes result \<times> ClientConn" where
  "ClientConn_Write L writeErr c p =
     (if cc_headerWritten c then (case writeErr of Some err \<Rightarrow> Inl err | None \<Rightarrow> Inr p, c)
      else case ClientHandshake L writeErr (cc_key c) (cc_destination c) p of
             Inl err \<Rightarrow> (Inl err, c)
           | Inr bs \<Rightarrow> (Inr bs, c\<lparr>cc_headerWritten := True\<rparr>))"

definition ClientConn_WriteBuffer :: "TrojanLib \<Rightarrow> Error option \<Rightarrow> ClientConn \<Rightarrow> bytes \<Rightarrow> bytes \<Rightarrow> bytes result \<times> ClientConn" where
  "ClientConn_WriteBuffer L writeErr c front p =
     (if cc_headerWritten c then (case writeErr of Some err \<Rightarrow> Inl err | None \<Rightarrow> Inr p, c)
      else case ClientHandshakeBuffer L writeErr (cc_key c) (cc_destination c) front p of
             Inl err \<Rightarrow> (Inl err, c)
           | Inr bs \<Rightarrow> (Inr bs, c\<lparr>cc_headerWritten := True\<rparr>))"

record ClientPacketConn =
  cp_key :: bytes
  cp_headerWritten :: bool

definition NewClientPacketConn :: "bytes \<Rightarrow> ClientPacketConn" where
  "NewClientPacketConn key = \<lparr>cp_key = key, cp_headerWritten = False\<rparr>"

definition ClientPacketConn_WritePacket ::
  "TrojanLib \<Rightarrow> (nat \<Rightarrow> Error option) \<Rightarrow> ClientPacketConn \<Rightarrow> bytes \<Rightarrow> bytes \<Rightarrow> Socksaddr \<Rightarrow> bytes result \<times> ClientPacketConn" where
  "ClientPacketConn_WritePacket L writeErr c front payload destination =
     (if \<not> cp_headerWritten c then (ClientHandshakePacket L writeErr (cp_key c) destination front payload, c\<lparr>cp_headerWritten := True\<rparr>)
      else (trojan_WritePacket L (writeErr 0) front payload destination, c))"

section \<open>Server\<close>

record 'k TrojanService =
  ts_users :: "'k \<rightharpoonup> bytes"
  ts_keys :: "bytes \<rightharpoonup> 'k"
  ts_fallback :: bool

definition NewTrojanService :: "bool \<Rightarrow> 'k TrojanService" where
  "NewTrojanService fallbackHandler = \<lparr>ts_users = Map.empty, ts_keys = Map.empty, ts_fallback = fallbackHandler\<rparr>"

definition ErrUserExists :: Error where
  "ErrUserExists = E_New [AStr ''user already exists'']"

text \<open>\<open>E.Extend(err, message)\<close> puts the message behind the error; the name of the other user is left out.\<close>

definition extendE :: "Error \<Rightarrow> string \<Rightarrow> Error" where
  "extendE err message = E_Cause err [AStr message]"

fun updateLoop :: "TrojanLib \<Rightarrow> 'k list \<Rightarrow> string list \<Rightarrow> ('k \<rightharpoonup> bytes) \<Rightarrow> (bytes \<rightharpoonup> 'k) \<Rightarrow> (('k \<rightharpoonup> bytes) \<times> (bytes \<rightharpoonup> 'k)) result" where
  "updateLoop L [] passwords users keys = Inr (users, keys)"
| "updateLoop L (user # userList) passwords users keys =
     (if users user \<noteq> None then Inl ErrUserExists
      else case passwords of
             [] \<Rightarrow> Inl (Panic [AStr ''index out of range''])
           | password # passwordList \<Rightarrow>
               let key = trojanKey L password
               in if keys key \<noteq> None then Inl (extendE ErrUserExists ''password used by '')
                  else updateLoop L userList passwordList (users(user \<mapsto> key)) (keys(key \<mapsto> user)))"

definition UpdateUsers :: "TrojanLib \<Rightarrow> 'k list \<Rightarrow> string list \<Rightarrow> 'k TrojanService \<Rightarrow> Error option \<times> 'k TrojanService" where
  "UpdateUsers L userList passwordList s =
     (case updateLoop L userList passwordList Map.empty Map.empty of
        Inl err \<Rightarrow> (Some err, s)
      | Inr (users, keys) \<Rightarrow> (None, s\<lparr>ts_users := users, ts_keys := keys\<rparr>))"

text \<open>One \<open>Read\<close> of a connection, and the handler that a connection ends up with.\<close>

fun connRead :: "nat \<Rightarrow> bytes list \<Rightarrow> (bytes \<times> bytes list) result" where
  "connRead n [] = Inl EOF"
| "connRead n (s # ss) = Inr (take n s, drop n s # ss)"

datatype 'k Handled =
    NewConnectionEx 'k Socksaddr bytes
  | NewPacketConnectionEx 'k Socksaddr bytes
  | MuxConnection 'k bytes
  | FallbackConnection bytes

definition fallback :: "'k TrojanService \<Rightarrow> bytes \<Rightarrow> Error \<Rightarrow> bytes list \<Rightarrow> 'k Handled result" where
  "fallback s header err conn =
     (if \<not> ts_fallback s then Inl (extendE err ''fallback disabled'') else Inr (FallbackConnection (header @ concat conn)))"

definition Service_NewConnection :: "TrojanLib \<Rightarrow> 'k TrojanService \<Rightarrow> bytes list \<Rightarrow> 'k Handled result" where
  "Service_NewConnection L s segments =
     bindE (connRead KeyLength segments) (\<lambda>(key, conn).
       if length key \<noteq> KeyLength then fallback s key (E_New [AStr ''bad request size'']) conn
       else case ts_keys s key of
              None \<Rightarrow> fallback s key (E_New [AStr ''bad request'']) conn
            | Some user \<Rightarrow>
                bindE (cause [AStr ''skip crlf''] (readN 2 (concat conn))) (\<lambda>(_, bs1).
                  bindE (cause [AStr ''read command''] (readByte bs1)) (\<lambda>(command, bs2).
                    if command \<notin> {CommandTCP, CommandUDP, CommandMux} then Inl (E_New [AStr ''unknown command '', ANum (uint command)])
                    else bindE (cause [AStr ''read destination''] (tl_ReadAddrPort L bs2)) (\<lambda>(destination, bs3).
                      bindE (cause [AStr ''skip crlf''] (readN 2 bs3)) (\<lambda>(_, bs4).
                        Inr (if command = CommandTCP then NewConnectionEx user destination bs4
                             else if command = CommandUDP then NewPacketConnectionEx user destination bs4
                             else MuxConnection user bs4))))))"

text \<open>
  A stream of a multiplexed connection. \<open>pulled\<close> is what the buffered reader has taken from the stream when
  it has read the destination, \<open>rest\<close> what the stream still holds. The new buffer is filled with as many
  bytes as \<open>Len\<close> says it contains, and a new buffer contains none.
\<close>

definition newBufferLen :: nat where
  "newBufferLen = 0"

definition newMuxConnection0 :: "TrojanLib \<Rightarrow> 'k \<Rightarrow> bytes \<Rightarrow> bytes \<Rightarrow> 'k Handled result" where
  "newMuxConnection0 L user pulled rest =
     bindE (cause [AStr ''read command''] (readByte pulled)) (\<lambda>(command, bs1).
       bindE (cause [AStr ''read destination''] (tl_ReadAddrPort L bs1)) (\<lambda>(destination, buffered).
         bindE (if buffered \<noteq> [] then storeRead (\<lambda>cached. cached @ rest) (readN newBufferLen buffered) else Inr (rest, [])) (\<lambda>(conn, _).
           if command = CommandTCP then Inr (NewConnectionEx user destination conn)
           else if command = CommandUDP then Inr (NewPacketConnectionEx user destination conn)
           else Inl (E_New [AStr ''unknown command '', ANum (uint command)]))))"

end
