(* ===== verification/Trojan_Props.thy ===== *)
theory Trojan_Props
  imports Trojan Srs_Props
begin

text \<open>
  What a Trojan client sends is what the server hands on: the stream with its destination, the packets with
  theirs, under the user whose password the client has. The serializer of addresses is the locale
  \<open>address_codec\<close>.
\<close>

section \<open>Users\<close>

lemma updateLoop_Cons:
  assumes "updateLoop L (user # us) passwords users keys = Inr r"
  obtains p ps where "passwords = p # ps" "users user = None" "keys (trojanKey L p) = None"
    "updateLoop L us ps (users(user \<mapsto> trojanKey L p)) (keys(trojanKey L p \<mapsto> user)) = Inr r"
  using assms by (auto simp: Let_def split: if_splits list.splits)

lemma updateLoop_inverse:
  assumes "updateLoop L us passwords users keys = Inr (users', keys')" "\<And>u k. users u = Some k \<longleftrightarrow> keys k = Some u"
  shows "users' u = Some k \<longleftrightarrow> keys' k = Some u"
  using assms
proof (induction us arbitrary: passwords users keys)
  case (Cons user us)
  from Cons(2) obtain p ps where p: "users user = None" "keys (trojanKey L p) = None"
    "updateLoop L us ps (users(user \<mapsto> trojanKey L p)) (keys(trojanKey L p \<mapsto> user)) = Inr (users', keys')"
    by (rule updateLoop_Cons)
  have "((users(user \<mapsto> trojanKey L p)) u = Some k) = ((keys(trojanKey L p \<mapsto> user)) k = Some u)" for u k
    using Cons(3) [of u k] Cons(3) [of user k] Cons(3) [of u "trojanKey L p"] p(1,2) by (auto split: if_splits)
  from Cons(1) [OF p(3) this] show ?case .
qed simp

lemma updateLoop_users:
  "updateLoop L us passwords users keys = Inr (users', keys') \<Longrightarrow>
   (\<forall>i < length us. users' (us ! i) = Some (trojanKey L (passwords ! i))) \<and> (\<forall>u. u \<notin> set us \<longrightarrow> users' u = users u) \<and>
   (\<forall>u \<in> set us. users u = None)"
proof (induction us arbitrary: passwords users keys)
  case (Cons user us)
  from Cons(2) obtain p ps where p: "passwords = p # ps" "users user = None"
    "updateLoop L us ps (users(user \<mapsto> trojanKey L p)) (keys(trojanKey L p \<mapsto> user)) = Inr (users', keys')"
    by (rule updateLoop_Cons)
  note i = Cons(1) [OF p(3)]
  then have "user \<notin> set us" by auto
  then show ?case using i p(1,2) by (auto simp: nth_Cons split: nat.splits if_splits)
qed simp

text \<open>
  After a successful update of the users the two maps of the service are inverse to each other, so a key
  belongs to one user, every listed user has the key of his password, and there are no others; users or
  passwords that occur twice are refused and change nothing.
\<close>

theorem users_and_keys_agree:
  assumes "UpdateUsers L us ps s = (None, s')"
  shows "ts_users s' u = Some k \<longleftrightarrow> ts_keys s' k = Some u"
    and "dom (ts_users s') = set us"
    and "i < length us \<Longrightarrow> ts_keys s' (trojanKey L (ps ! i)) = Some (us ! i)"
proof -
  obtain users keys where l: "updateLoop L us ps Map.empty Map.empty = Inr (users, keys)"
    and s': "s' = s\<lparr>ts_users := users, ts_keys := keys\<rparr>"
    using assms by (auto simp: UpdateUsers_def split: sum.splits prod.splits)
  show inv: "ts_users s' u = Some k \<longleftrightarrow> ts_keys s' k = Some u" for u k
    using updateLoop_inverse [OF l, of u k] s' by simp
  show "dom (ts_users s') = set us" using updateLoop_users [OF l] s' by (auto simp: in_set_conv_nth) (metis option.distinct(1))
  show "i < length us \<Longrightarrow> ts_keys s' (trojanKey L (ps ! i)) = Some (us ! i)"
    using inv updateLoop_users [OF l] s' by simp
qed

section \<open>Streams and packets\<close>

locale address_codec =
  fixes L :: TrojanLib and valid :: "Socksaddr \<Rightarrow> bool" and enc :: "Socksaddr \<Rightarrow> bytes"
  assumes write_addr: "valid d \<Longrightarrow> tl_WriteAddrPort L d = Inr (enc d)"
    and read_addr: "valid d \<Longrightarrow> tl_ReadAddrPort L (enc d @ rest) = Inr (d, rest)"
begin

lemma read_packet:
  assumes "valid d" "length payload < 65536" "length payload \<le> free"
  shows "trojan_ReadPacket L free (enc d @ bytesOfNat 2 (length payload) @ CRLF @ payload @ rest) = Inr ((d, payload), rest)"
proof -
  have "readN 2 (bytesOfNat 2 (length payload) @ CRLF @ payload @ rest) = Inr (bytesOfNat 2 (length payload), CRLF @ payload @ rest)"
    by (rule readN_append) (simp del: bytesOfNat.simps)
  moreover have "readN 2 (CRLF @ payload @ rest) = Inr (CRLF, payload @ rest)" by (rule readN_append) (simp add: CRLF_def)
  moreover have "bigEndian (bytesOfNat 2 (length payload)) = length payload"
    using assms(2) by (simp add: bigEndian_bytesOfNat del: bytesOfNat.simps)
  ultimately show ?thesis using assms by (simp add: trojan_ReadPacket_def read_addr storeRead_def del: bytesOfNat.simps)
qed

end

text \<open>The server on a connection whose first segment holds the key of a user.\<close>

lemma Service_NewConnection_command:
  assumes "ts_keys s key = Some user" "length key = 56" "56 \<le> length segment"
    and "concat (segment # segments) = key @ CRLF @ [command] @ body" "command \<in> {1, 3, 0x7f}"
    and "tl_ReadAddrPort L body = Inr (d, CRLF @ rest)"
  shows "Service_NewConnection L s (segment # segments) =
    Inr (if command = 1 then NewConnectionEx user d rest else if command = 3 then NewPacketConnectionEx user d rest else MuxConnection user rest)"
proof -
  have k: "take 56 segment = key" using arg_cong [OF assms(4), of "take 56"] assms(2,3) by simp
  moreover have "concat (drop 56 segment # segments) = CRLF @ [command] @ body"
    using arg_cong [OF assms(4), of "drop 56"] assms(2,3) by simp
  moreover have "readN 2 (CRLF @ xs) = Inr (CRLF, xs)" for xs by (rule readN_append) (simp add: CRLF_def)
  ultimately show ?thesis using assms(1,2,5,6) by (simp add: Service_NewConnection_def readByte_def)
qed

text \<open>The writes of a client one after the other, all of which succeed.\<close>

fun sendAll :: "TrojanLib \<Rightarrow> ClientConn \<Rightarrow> bytes list \<Rightarrow> bytes result" where
  "sendAll L c [] = Inr []"
| "sendAll L c (p # ps) = (case ClientConn_Write L None c p of (r, c') \<Rightarrow> bindE r (\<lambda>bs. bindE (sendAll L c' ps) (\<lambda>more. Inr (bs @ more))))"

text \<open>A packet of the client with the memory in front of it, its destination and its content.\<close>

type_synonym OutPacket = "bytes \<times> Socksaddr \<times> bytes"

fun sendPackets :: "TrojanLib \<Rightarrow> ClientPacketConn \<Rightarrow> OutPacket list \<Rightarrow> bytes result" where
  "sendPackets L c [] = Inr []"
| "sendPackets L c ((front, d, p) # ps) =
     (case ClientPacketConn_WritePacket L (\<lambda>_. None) c front p d of
        (r, c') \<Rightarrow> bindE r (\<lambda>bs. bindE (sendPackets L c' ps) (\<lambda>more. Inr (bs @ more))))"

text \<open>The room that \<open>FrontHeadroom\<close> asks for after the first packet.\<close>

definition hasHeadroom :: "TrojanLib \<Rightarrow> OutPacket \<Rightarrow> bool" where
  "hasHeadroom L = (\<lambda>(front, d, p). tl_AddrPortLen L d + 4 \<le> length front)"

lemma overlay_full: "length header = length room \<Longrightarrow> overlay header room = header"
  by (simp add: overlay_def)

lemma extendHeader_room:
  "extendHeader n front = Inr room \<longleftrightarrow> n \<le> length front \<and> room = drop (length front - n) front"
  by (auto simp: extendHeader_def)

text \<open>A packet without room in front of it for its header makes \<open>WritePacket\<close> panic.\<close>

lemma WritePacket_panics:
  "\<not> hasHeadroom L (front, d, p) \<Longrightarrow> trojan_WritePacket L writeErr front p d = Inl (Panic [AStr ''buffer overflow''])"
  by (simp add: hasHeadroom_def trojan_WritePacket_def extendHeader_def)

lemma sendAll_written: "cc_headerWritten c \<Longrightarrow> sendAll L c ps = Inr (concat ps)"
  by (induction ps arbitrary: c) (simp_all add: ClientConn_Write_def)

context address_codec
begin

definition frame :: "Socksaddr \<times> bytes \<Rightarrow> bytes" where
  "frame = (\<lambda>(d, p). enc d @ bytesOfNat 2 (length p) @ CRLF @ p)"

lemma WritePacket_frame:
  assumes "valid d" "tl_AddrPortLen L d = length (enc d)" "hasHeadroom L (front, d, p)"
  shows "trojan_WritePacket L None front p d = Inr (frame (d, p))"
  using assms
  by (simp add: trojan_WritePacket_def hasHeadroom_def extendHeader_def write_addr overlay_full frame_def connWrite_def CRLF_def del: bytesOfNat.simps)

lemma sendPackets_written:
  "cp_headerWritten c \<Longrightarrow> list_all (\<lambda>(front, d, p). valid d \<and> tl_AddrPortLen L d = length (enc d)) ps \<Longrightarrow> list_all (hasHeadroom L) ps \<Longrightarrow>
   sendPackets L c ps = Inr (concat (map (frame \<circ> snd) ps))"
  by (induction ps) (auto simp: ClientPacketConn_WritePacket_def WritePacket_frame)

lemma ClientHandshakePacket_frame:
  assumes "valid d" "tl_AddrPortLen L d = length (enc d)" "length key = 56"
  shows "ClientHandshakePacket L (\<lambda>_. None) key d front p = Inr (key @ CRLF @ [3] @ enc d @ CRLF @ frame (d, p))"
  using assms
  by (simp add: ClientHandshakePacket_def write_addr extendHeader_def overlay_full connWrite_def frame_def CRLF_def Let_def del: bytesOfNat.simps)

lemma stream_reaches_server:
  assumes "valid d" "ts_keys s key = Some user" "length key = 56"
    and "sendAll L (NewClientConn key d) (p # ps) = Inr sent" "concat (segment # segments) = sent" "56 \<le> length segment"
  shows "Service_NewConnection L s (segment # segments) = Inr (NewConnectionEx user d (concat (p # ps)))"
proof -
  have "sent = key @ CRLF @ [1] @ enc d @ CRLF @ concat (p # ps)"
    using assms(4) by (simp add: ClientConn_Write_def NewClientConn_def ClientHandshake_def connWrite_def write_addr assms(1) sendAll_written)
  then show ?thesis
    using Service_NewConnection_command [OF assms(2,3,6), of segments 1 "enc d @ CRLF @ concat (p # ps)" L d] assms(1,5)
    by (simp add: read_addr)
qed

lemma packets_sent:
  assumes "list_all (\<lambda>(front, d, p). valid d \<and> tl_AddrPortLen L d = length (enc d)) ((front, d, p) # ps)" "list_all (hasHeadroom L) ps"
    and "length key = 56"
  shows "sendPackets L (NewClientPacketConn key) ((front, d, p) # ps) =
    Inr (key @ CRLF @ [3] @ enc d @ CRLF @ concat (map (frame \<circ> snd) ((front, d, p) # ps)))"
  using assms by (simp add: NewClientPacketConn_def ClientPacketConn_WritePacket_def ClientHandshakePacket_frame sendPackets_written)

lemma frames_read:
  "list_all (\<lambda>(front, d, p). valid d \<and> length p < 65536 \<and> length p \<le> free) ps \<Longrightarrow>
   readEach (trojan_ReadPacket L free) (length ps) (concat (map (frame \<circ> snd) ps)) = Inr (map snd ps, [])"
  by (induction ps) (auto simp: frame_def read_packet simp del: bytesOfNat.simps)

lemma packets_handled:
  assumes "ts_keys s key = Some user" "length key = 56" "valid d" "56 \<le> length segment"
    and "concat (segment # segments) = key @ CRLF @ [3] @ enc d @ CRLF @ rest"
  shows "Service_NewConnection L s (segment # segments) = Inr (NewPacketConnectionEx user d rest)"
  using Service_NewConnection_command [OF assms(1,2,4), of segments 3 "enc d @ CRLF @ rest" L d] assms(3,5) by (simp add: read_addr)

end

lemma hexEncode_length [simp]: "length (hexEncode bs) = 2 * length bs"
  by (induction bs) (simp_all add: hexEncode_def)

text \<open>
  C36: What a client writes to a Trojan connection reaches the handler of the server: whatever the client's
  sequence of writes, and however the network cuts the bytes as long as the first segment holds the key,
  the server recognises the user of the password and hands on the destination and exactly the bytes
  written. The serializer of addresses is assumed to read back what it has written, and the hash to have
  28 bytes.
\<close>

theorem trojan_stream_reaches_server:
  assumes "\<And>d rest. valid d \<Longrightarrow> tl_WriteAddrPort L d = Inr (enc d) \<and> tl_ReadAddrPort L (enc d @ rest) = Inr (d, rest)"
    and "length (tl_Sum224 L (passwords ! i)) = 28"
    and "UpdateUsers L users passwords s0 = (None, s)" "i < length users" "valid d"
    and "sendAll L (NewClientConn (trojanKey L (passwords ! i)) d) (p # ps) = Inr sent"
    and "concat (segment # segments) = sent" "56 \<le> length segment"
  shows "Service_NewConnection L s (segment # segments) = Inr (NewConnectionEx (users ! i) d (concat (p # ps)))"
proof -
  have "address_codec L valid enc" using assms(1) by unfold_locales auto
  moreover have "length (trojanKey L (passwords ! i)) = 56" using assms(2) by (simp add: trojanKey_def)
  moreover have "ts_keys s (trojanKey L (passwords ! i)) = Some (users ! i)" using assms(3,4) by (rule users_and_keys_agree(3))
  ultimately show ?thesis using assms(5-) by (intro address_codec.stream_reaches_server)
qed

text \<open>
  C37: The packets that a client sends over a Trojan connection are all sent, with the header once, and they are
  the packets that the server reads, each with its destination and content and in their order, under the
  user of the password and with the destination of the first packet. This holds however the network cuts
  the bytes as long as the first segment holds the 56 bytes of the key; for packets shorter than 64 KiB
  that fit into the buffers of the server, to destinations that the serializer can write, and that have,
  from the second on, room in front of them for their header (without it \<open>WritePacket\<close> panics). The
  serializer is assumed to read back what it has written and to write as many bytes as \<open>AddrPortLen\<close>
  says, and the hash to have 28 bytes; the connection is assumed to accept every write.
\<close>

theorem trojan_packets_reach_server:
  assumes "\<And>d rest. valid d \<Longrightarrow> tl_WriteAddrPort L d = Inr (enc d) \<and> tl_ReadAddrPort L (enc d @ rest) = Inr (d, rest)"
    and "\<And>d. valid d \<Longrightarrow> tl_AddrPortLen L d = length (enc d)"
    and "length (tl_Sum224 L (passwords ! i)) = 28"
    and "UpdateUsers L users passwords s0 = (None, s)" "i < length users"
    and "list_all (\<lambda>(front, d, p). valid d \<and> length p < 65536 \<and> length p \<le> free) ((front, d, p) # ps)"
    and "list_all (hasHeadroom L) ps"
  shows "\<exists>sent. sendPackets L (NewClientPacketConn (trojanKey L (passwords ! i))) ((front, d, p) # ps) = Inr sent \<and>
    (\<forall>segment segments. concat (segment # segments) = sent \<longrightarrow> 56 \<le> length segment \<longrightarrow>
      (\<exists>rest. Service_NewConnection L s (segment # segments) = Inr (NewPacketConnectionEx (users ! i) d rest) \<and>
        readEach (trojan_ReadPacket L free) (Suc (length ps)) rest = Inr ((d, p) # map snd ps, [])))"
proof -
  let ?key = "trojanKey L (passwords ! i)" and ?ps = "(front, d, p) # ps"
  have c: "address_codec L valid enc" using assms(1) by unfold_locales auto
  let ?rest = "concat (map (address_codec.frame enc \<circ> snd) ?ps)"
  have k: "length ?key = 56" using assms(3) by (simp add: trojanKey_def)
  have u: "ts_keys s ?key = Some (users ! i)" using assms(4,5) by (rule users_and_keys_agree(3))
  have "list_all (\<lambda>(front, d, p). valid d \<and> tl_AddrPortLen L d = length (enc d)) ?ps"
    using assms(2,6) by (auto simp: list_all_iff)
  then have "sendPackets L (NewClientPacketConn ?key) ?ps = Inr (?key @ CRLF @ [3] @ enc d @ CRLF @ ?rest)"
    using address_codec.packets_sent [OF c _ assms(7) k] by blast
  moreover have "readEach (trojan_ReadPacket L free) (Suc (length ps)) ?rest = Inr ((d, p) # map snd ps, [])"
    using address_codec.frames_read [OF c assms(6)] by simp
  moreover have "valid d" using assms(6) by simp
  then have "Service_NewConnection L s (segment # segments) = Inr (NewPacketConnectionEx (users ! i) d ?rest)"
    if "concat (segment # segments) = ?key @ CRLF @ [3] @ enc d @ CRLF @ ?rest" "56 \<le> length segment" for segment segments
    using address_codec.packets_handled [OF c u k _ that(2,1)] by blast
  ultimately show ?thesis by blast
qed

text \<open>
  When the handshake of a packet connection fails the connection still counts it as done, so the next
  packet goes out without the header that the server expects.
\<close>

theorem failed_packet_handshake_is_not_repeated:
  assumes "tl_WriteAddrPort L d = Inl err" "tl_WriteAddrPort L d' = Inr addr" "tl_AddrPortLen L d' = length addr"
    and "length addr + 4 \<le> length front'"
  shows "\<exists>c. ClientPacketConn_WritePacket L writeErr (NewClientPacketConn key) front p d = (Inl err, c) \<and>
    ClientPacketConn_WritePacket L (\<lambda>_. None) c front' p' d' = (Inr (addr @ bytesOfNat 2 (length p') @ CRLF @ p'), c)"
  using assms
  by (simp add: ClientPacketConn_WritePacket_def NewClientPacketConn_def ClientHandshakePacket_def trojan_WritePacket_def connWrite_def
    extendHeader_def overlay_full CRLF_def del: bytesOfNat.simps)

text \<open>A key that arrives in two segments is taken for a bad request.\<close>

theorem split_key_is_refused:
  "length segment < 56 \<Longrightarrow> \<not> ts_fallback s \<Longrightarrow>
   Service_NewConnection L s (segment # segments) = Inl (extendE (E_New [AStr ''bad request size'']) ''fallback disabled'')"
  by (simp add: Service_NewConnection_def fallback_def)

text \<open>What a multiplexed stream delivers together with its header does not reach the handler.\<close>

theorem mux_stream_loses_buffered_bytes:
  assumes "tl_ReadAddrPort L (addr @ payload) = Inr (d, payload)"
  shows "newMuxConnection0 L user (1 # addr @ payload) rest = Inr (NewConnectionEx user d rest)"
  using assms by (simp add: newMuxConnection0_def readByte_def storeRead_def readN_def newBufferLen_def)

section \<open>A concrete serializer\<close>

text \<open>Addresses as in SOCKS5, for IPv4 only, and a hash that is the padded password.\<close>

definition sampleEnc :: "Socksaddr \<Rightarrow> bytes" where
  "sampleEnc d = 1 # addrAsSlice (sa_Addr d) @ bytesOfNat 2 (unat (sa_Port d))"

definition sampleValid :: "Socksaddr \<Rightarrow> bool" where
  "sampleValid d = (length (addrAsSlice (sa_Addr d)) = 4 \<and> sa_Fqdn d = [])"

definition sampleTrojan :: TrojanLib where
  "sampleTrojan =
     \<lparr>tl_Sum224 = (\<lambda>p. take 28 (bytesOf p @ replicate 28 0)),
      tl_AddrPortLen = (\<lambda>d. 1 + length (addrAsSlice (sa_Addr d)) + 2),
      tl_WriteAddrPort = (\<lambda>d. if sampleValid d then Inr (sampleEnc d) else Inl (E_New [AStr ''bad address''])),
      tl_ReadAddrPort = (\<lambda>bs. bindE (readN 5 bs) (\<lambda>(a, bs1). bindE (readN 2 bs1) (\<lambda>(port, bs2).
        case addrFromSlice (tl a) of
          None \<Rightarrow> Inl (E_New [AStr ''bad address''])
        | Some addr \<Rightarrow> Inr (\<lparr>sa_Addr = addr, sa_Port = word_of_nat (bigEndian port), sa_Fqdn = []\<rparr>, bs2))))\<rparr>"

interpretation sampleTrojan: address_codec sampleTrojan sampleValid sampleEnc
proof
  fix d rest
  assume v: "sampleValid d"
  show "tl_WriteAddrPort sampleTrojan d = Inr (sampleEnc d)" using v by (simp add: sampleTrojan_def)
  have "readN 5 (sampleEnc d @ rest) = Inr (1 # addrAsSlice (sa_Addr d), bytesOfNat 2 (unat (sa_Port d)) @ rest)"
    using readN_append [of "1 # addrAsSlice (sa_Addr d)" 5] v by (simp add: sampleEnc_def sampleValid_def)
  moreover have "readN 2 (bytesOfNat 2 (unat (sa_Port d)) @ rest) = Inr (bytesOfNat 2 (unat (sa_Port d)), rest)"
    by (rule readN_append) (simp del: bytesOfNat.simps)
  moreover have "unat (sa_Port d) < 65536" using unsigned_less [of "sa_Port d"] by simp
  then have "bigEndian (bytesOfNat 2 (unat (sa_Port d))) = unat (sa_Port d)" by (simp add: bigEndian_bytesOfNat del: bytesOfNat.simps)
  ultimately show "tl_ReadAddrPort sampleTrojan (sampleEnc d @ rest) = Inr (d, rest)"
    using v by (cases d) (simp add: sampleTrojan_def sampleValid_def del: bytesOfNat.simps)
qed

definition sampleDestination :: Socksaddr where
  "sampleDestination = \<lparr>sa_Addr = Addr4 0x01020304, sa_Port = 443, sa_Fqdn = []\<rparr>"

lemma sampleDestination_valid: "sampleValid sampleDestination"
  by (simp add: sampleDestination_def sampleValid_def del: bytesOfNat.simps)

lemma sampleTrojan_laws:
  "sampleValid d \<Longrightarrow> tl_WriteAddrPort sampleTrojan d = Inr (sampleEnc d) \<and> tl_ReadAddrPort sampleTrojan (sampleEnc d @ rest) = Inr (d, rest)"
  using sampleTrojan.write_addr sampleTrojan.read_addr by blast

definition sampleService :: "nat TrojanService" where
  "sampleService = snd (UpdateUsers sampleTrojan [7] [''pw''] (NewTrojanService False))"

lemma sampleService_updated: "UpdateUsers sampleTrojan [7] [''pw''] (NewTrojanService False) = (None, sampleService)"
  by (simp add: sampleService_def UpdateUsers_def Let_def)

lemma sampleHash: "length (tl_Sum224 sampleTrojan pw) = 28" "length (trojanKey sampleTrojan pw) = 56"
  by (simp_all add: sampleTrojan_def trojanKey_def)

theorem trojan_stream_reaches_server_witness:
  "\<exists>sent. sendAll sampleTrojan (NewClientConn (trojanKey sampleTrojan ''pw'') sampleDestination) [[1], [2, 3]] = Inr sent \<and>
    Service_NewConnection sampleTrojan sampleService [sent] = Inr (NewConnectionEx 7 sampleDestination [1, 2, 3])"
proof -
  define sent where "sent = trojanKey sampleTrojan ''pw'' @ CRLF @ [1] @ sampleEnc sampleDestination @ CRLF @ [1, 2, 3]"
  have w: "sendAll sampleTrojan (NewClientConn (trojanKey sampleTrojan ''pw'') sampleDestination) [[1], [2, 3]] = Inr sent"
    using sampleTrojan.write_addr [OF sampleDestination_valid]
    by (simp add: NewClientConn_def ClientConn_Write_def ClientHandshake_def connWrite_def sent_def)
  moreover have "56 \<le> length sent" by (simp add: sent_def sampleHash)
  ultimately show ?thesis
    using trojan_stream_reaches_server [where valid = sampleValid, OF sampleTrojan_laws sampleHash(1), where passwords = "[''pw'']" and i = 0 and users = "[7]" and ?s0.0 = "NewTrojanService False"
        and s = sampleService and d = sampleDestination and p = "[1]" and ps = "[[2, 3]]" and sent = sent and segment = sent and segments = "[]"]
      sampleService_updated sampleDestination_valid by simp
qed

lemma sampleTrojan_length: "tl_AddrPortLen sampleTrojan d = length (sampleEnc d)"
  by (simp add: sampleTrojan_def sampleEnc_def del: bytesOfNat.simps)

theorem trojan_packets_reach_server_witness:
  "\<exists>sent rest. sendPackets sampleTrojan (NewClientPacketConn (trojanKey sampleTrojan ''pw''))
      [([], sampleDestination, [1]), (replicate 11 0, sampleDestination, [2, 3])] = Inr sent \<and>
    Service_NewConnection sampleTrojan sampleService [sent] = Inr (NewPacketConnectionEx 7 sampleDestination rest) \<and>
    readEach (trojan_ReadPacket sampleTrojan 1500) 2 rest = Inr ([(sampleDestination, [1]), (sampleDestination, [2, 3])], [])"
proof -
  let ?ps = "[([], sampleDestination, [1]), (replicate 11 0, sampleDestination, [2, 3])]"
  have "hasHeadroom sampleTrojan (replicate 11 0, sampleDestination, [2, 3])"
    using sampleDestination_valid by (simp add: hasHeadroom_def sampleTrojan_def sampleValid_def)
  then obtain sent where w: "sendPackets sampleTrojan (NewClientPacketConn (trojanKey sampleTrojan ''pw'')) ?ps = Inr sent"
    and r: "56 \<le> length sent \<Longrightarrow> \<exists>rest. Service_NewConnection sampleTrojan sampleService [sent] = Inr (NewPacketConnectionEx 7 sampleDestination rest) \<and>
        readEach (trojan_ReadPacket sampleTrojan 1500) 2 rest = Inr (map snd ?ps, [])"
    using trojan_packets_reach_server [where valid = sampleValid, OF sampleTrojan_laws sampleTrojan_length sampleHash(1), where passwords = "[''pw'']" and i = 0
        and users = "[7]" and ?s0.0 = "NewTrojanService False" and s = sampleService and front = "[]" and d = sampleDestination and p = "[1]"
        and ps = "tl ?ps" and free = 1500]
      sampleService_updated sampleDestination_valid by (auto simp: numeral_2_eq_2)
  have "sent = trojanKey sampleTrojan ''pw'' @ drop 56 sent"
    using w sampleDestination_valid
    by (auto simp: NewClientPacketConn_def ClientPacketConn_WritePacket_def ClientHandshakePacket_def connWrite_def sampleTrojan.write_addr sampleHash
      Let_def simp del: bytesOfNat.simps split: sum.splits)
  then have "56 \<le> length sent" using sampleHash(2) by (metis le_add1 length_append)
  then show ?thesis using w r by auto
qed

end
