(* ===== verification/Framing.thy ===== *)
theory Framing
  imports Srs_Props
begin

text \<open>
  Streams inside frames: the gRPC messages of \<open>transport/v2raygrpclite/conn.go\<close>, the TLS records and the fake
  client hello of \<open>transport/simple-obfs/tls.go\<close>, and the options of plugins (\<open>transport/sip003/args.go\<close>).

  A connection that is read is the sequence of bytes it will deliver. One \<open>Read\<close> of it returns as many of them
  as the network has at hand: at least one, at most as many as fit, \<open>choice\<close> says how many. A \<open>Read\<close> of the
  wrappers returns the bytes it puts into the buffer of the given capacity, its error, the new state and
  what is left on the connection.
\<close>

definition connRead1 :: "nat \<Rightarrow> nat \<Rightarrow> bytes \<Rightarrow> bytes \<times> Error option \<times> bytes" where
  "connRead1 cap choice bs =
     (if cap = 0 then ([], None, bs) else if bs = [] then ([], Some EOF, [])
      else (take (min cap (Suc choice)) bs, None, drop (min cap (Suc choice)) bs))"

text \<open>\<open>io.ReadFull\<close>: what it has read, and its error if that is not everything.\<close>

definition ioReadFull :: "nat \<Rightarrow> bytes \<Rightarrow> bytes \<times> Error option \<times> bytes" where
  "ioReadFull n bs =
     (take n bs, if n \<le> length bs then None else Some (if bs = [] then EOF else unexpectedEOF), drop n bs)"

section \<open>Messages of gRPC\<close>

text \<open>\<open>readRemaining\<close> is the state of the reader; \<open>uvarintLen\<close> is \<open>varbin.UvarintLen\<close> of the \<open>sing\<close> library.\<close>

definition GunConn_read :: "nat \<Rightarrow> nat \<Rightarrow> nat \<Rightarrow> bytes \<Rightarrow> bytes \<times> Error option \<times> nat \<times> bytes" where
  "GunConn_read readRemaining cap choice bs =
     (if 0 < readRemaining
      then let (out, err, rest) = connRead1 (min cap readRemaining) choice bs in (out, err, readRemaining - length out, rest)
      else if length bs < 6 then ([], Some EOF, 0, [])
      else case readUvarint (drop 6 bs) of
             Inl err \<Rightarrow> ([], Some err, 0, [])
           | Inr (dataLen, bs1) \<Rightarrow>
               if 2 ^ 63 \<le> unat dataLen then ([], Some (Panic [AStr ''slice bounds out of range'']), 0, bs1)
               else let readLen = unat dataLen; (out, err, rest) = connRead1 (min cap readLen) choice bs1
                    in (out, err, readLen - length out, rest))"

text \<open>
  The header takes \<open>6 + varLen\<close> bytes of the buffer, whatever \<open>PutUvarint\<close> needs of them: it panics if they are
  too few, and what it leaves of them keeps the content of the memory. The error of the connection is
  given as \<open>WrapH2\<close> returns it. \<open>WriteBuffer\<close> takes the header from the memory in front of the content.
\<close>

definition gunHeader :: "nat \<Rightarrow> (nat \<Rightarrow> u8) \<Rightarrow> nat \<Rightarrow> bytes result" where
  "gunHeader varLen memory dataLen =
     (let uvarint = putUvarint (word_of_nat dataLen)
      in if varLen < length uvarint then Inl (Panic [AStr ''index out of range''])
         else Inr (0 # bytesOfNat 4 (1 + varLen + dataLen) @ [0x0A] @ uvarint @ map memory [6 + length uvarint ..< 6 + varLen]))"

definition GunConn_Write :: "(u64 \<Rightarrow> nat) \<Rightarrow> (nat \<Rightarrow> u8) \<Rightarrow> Error option \<Rightarrow> bytes \<Rightarrow> bytes result" where
  "GunConn_Write uvarintLen memory writeErr b =
     (let varLen = uvarintLen (word_of_nat (length b))
      in bindE (gunHeader varLen memory (length b)) (\<lambda>header.
           case writeErr of Some err \<Rightarrow> Inl err | None \<Rightarrow> Inr (header @ b)))"

definition GunConn_WriteBuffer :: "(u64 \<Rightarrow> nat) \<Rightarrow> bytes \<Rightarrow> Error option \<Rightarrow> bytes \<Rightarrow> bytes result" where
  "GunConn_WriteBuffer uvarintLen front writeErr b =
     (let varLen = uvarintLen (word_of_nat (length b)); start = length front
      in if start < 6 + varLen then Inl (Panic [AStr ''buffer overflow''])
         else bindE (gunHeader varLen (\<lambda>i. front ! (start - (6 + varLen) + i)) (length b)) (\<lambda>header.
                case writeErr of Some err \<Rightarrow> Inl err | None \<Rightarrow> Inr (header @ b)))"

section \<open>Records of TLS\<close>

record TLSObfs =
  to_server :: string
  to_remain :: nat
  to_firstRequest :: bool
  to_firstResponse :: bool

definition NewTLSObfs :: "string \<Rightarrow> TLSObfs" where
  "NewTLSObfs server = \<lparr>to_server = server, to_remain = 0, to_firstRequest = True, to_firstResponse = True\<rparr>"

definition TLSObfs_read :: "TLSObfs \<Rightarrow> nat \<Rightarrow> nat \<Rightarrow> nat \<Rightarrow> bytes \<Rightarrow> bytes \<times> Error option \<times> TLSObfs \<times> bytes" where
  "TLSObfs_read to discardN cap choice bs =
     (case readN discardN bs of
        Inl err \<Rightarrow> ([], Some err, to, [])
      | Inr (_, bs1) \<Rightarrow>
          (case readN 2 bs1 of
             Inl _ \<Rightarrow> ([], None, to, [])
           | Inr (sizeBuf, bs2) \<Rightarrow>
               let n = bigEndian sizeBuf
               in if n > cap
                  then let (out, err, rest) = connRead1 cap choice bs2
                       in (out, err, if err = None then to\<lparr>to_remain := n - length out\<rparr> else to, rest)
                  else let (out, err, rest) = ioReadFull n bs2 in (out, err, to, rest)))"

definition TLSObfs_Read :: "TLSObfs \<Rightarrow> nat \<Rightarrow> nat \<Rightarrow> bytes \<Rightarrow> bytes \<times> Error option \<times> TLSObfs \<times> bytes" where
  "TLSObfs_Read to cap choice bs =
     (if 0 < to_remain to
      then let (out, err, rest) = ioReadFull (min (to_remain to) cap) bs in (out, err, to\<lparr>to_remain := to_remain to - length out\<rparr>, rest)
      else if to_firstResponse to then TLSObfs_read (to\<lparr>to_firstResponse := False\<rparr>) 105 cap choice bs
      else TLSObfs_read to 3 cap choice bs)"

text \<open>The random bytes of the hello are arguments: the time, 28 bytes and the session.\<close>

definition makeClientHelloMsg :: "nat \<Rightarrow> bytes \<Rightarrow> bytes \<Rightarrow> bytes \<Rightarrow> string \<Rightarrow> bytes" where
  "makeClientHelloMsg now random sessionID dat server =
     [22, 0x03, 0x01] @ bytesOfNat 2 (212 + length dat + length server) @
     [1, 0] @ bytesOfNat 2 (208 + length dat + length server) @ [0x03, 0x03] @
     bytesOfNat 4 now @ random @ [32] @ sessionID @
     [0x00, 0x38] @
     [0xc0, 0x2c, 0xc0, 0x30, 0x00, 0x9f, 0xcc, 0xa9, 0xcc, 0xa8, 0xcc, 0xaa, 0xc0, 0x2b, 0xc0, 0x2f,
      0x00, 0x9e, 0xc0, 0x24, 0xc0, 0x28, 0x00, 0x6b, 0xc0, 0x23, 0xc0, 0x27, 0x00, 0x67, 0xc0, 0x0a,
      0xc0, 0x14, 0x00, 0x39, 0xc0, 0x09, 0xc0, 0x13, 0x00, 0x33, 0x00, 0x9d, 0x00, 0x9c, 0x00, 0x3d,
      0x00, 0x3c, 0x00, 0x35, 0x00, 0x2f, 0x00, 0xff] @
     [0x01, 0x00] @ bytesOfNat 2 (79 + length dat + length server) @
     [0x00, 0x23] @ bytesOfNat 2 (length dat) @ dat @
     [0x00, 0x00] @ bytesOfNat 2 (length server + 5) @ bytesOfNat 2 (length server + 3) @ [0] @ bytesOfNat 2 (length server) @ bytesOf server @
     [0x00, 0x0b, 0x00, 0x04, 0x03, 0x01, 0x00, 0x02] @
     [0x00, 0x0a, 0x00, 0x0a, 0x00, 0x08, 0x00, 0x1d, 0x00, 0x17, 0x00, 0x19, 0x00, 0x18] @
     [0x00, 0x0d, 0x00, 0x20, 0x00, 0x1e, 0x06, 0x01, 0x06, 0x02, 0x06, 0x03, 0x05,
      0x01, 0x05, 0x02, 0x05, 0x03, 0x04, 0x01, 0x04, 0x02, 0x04, 0x03, 0x03, 0x01,
      0x03, 0x02, 0x03, 0x03, 0x02, 0x01, 0x02, 0x02, 0x02, 0x03] @
     [0x00, 0x16, 0x00, 0x00] @ [0x00, 0x17, 0x00, 0x00]"

definition TLSObfs_write :: "(bytes \<Rightarrow> string \<Rightarrow> bytes) \<Rightarrow> TLSObfs \<Rightarrow> bytes \<Rightarrow> bytes \<times> TLSObfs" where
  "TLSObfs_write hello to b =
     (if to_firstRequest to then (hello b (to_server to), to\<lparr>to_firstRequest := False\<rparr>)
      else ([0x17, 0x03, 0x03] @ bytesOfNat 2 (length b) @ b, to))"

text \<open>\<open>Write\<close> over a connection that does not fail: the chunks of at most \<open>chunkSize\<close> bytes.\<close>

function TLSObfs_Write :: "(bytes \<Rightarrow> string \<Rightarrow> bytes) \<Rightarrow> TLSObfs \<Rightarrow> bytes \<Rightarrow> bytes \<times> TLSObfs" where
  "TLSObfs_Write hello to b =
     (if b = [] then ([], to)
      else let (first, to1) = TLSObfs_write hello to (take 16384 b); (more, to2) = TLSObfs_Write hello to1 (drop 16384 b)
           in (first @ more, to2))"
  by pat_completeness auto
termination by (relation "measure (\<lambda>(hello, to, b). length b)") auto

declare TLSObfs_Write.simps [simp del]

section \<open>Options of plugins\<close>

text \<open>The index is counted from the beginning of the string.\<close>

fun indexUnescaped :: "string \<Rightarrow> string \<Rightarrow> nat \<Rightarrow> (nat \<times> string) option" where
  "indexUnescaped trm [] i = Some (i, [])"
| "indexUnescaped trm (b # s) i =
     (if b \<in> set trm then Some (i, [])
      else if b = CHR 0x5C
      then (case s of
              [] \<Rightarrow> None
            | c # s' \<Rightarrow> map_option (\<lambda>(j, unesc). (j, c # unesc)) (indexUnescaped trm s' (i + 2)))
      else map_option (\<lambda>(j, unesc). (j, b # unesc)) (indexUnescaped trm s (i + 1)))"

definition backslashEscape :: "string \<Rightarrow> string \<Rightarrow> string" where
  "backslashEscape s special = concat (map (\<lambda>b. if b = CHR 0x5C \<or> b \<in> set special then [CHR 0x5C, b] else [b]) s)"

definition errFinalEscape :: Error where
  "errFinalEscape = E_New [AStr ''nothing following final escape'']"

text \<open>The arguments as the list of the pairs that are added, in their order.\<close>

function parseOptions :: "string \<Rightarrow> (string \<times> string) list result" where
  "parseOptions s =
     (if s = [] then Inr []
      else case indexUnescaped ''=;'' s 0 of
             None \<Rightarrow> Inl errFinalEscape
           | Some (i, key) \<Rightarrow>
               if key = [] then Inl (E_New [AStr ''empty key''])
               else if i \<ge> length s \<or> s ! i \<noteq> CHR ''=''
               then bindE (parseOptions (drop (i + 1) s)) (\<lambda>opts. Inr ((key, ''1'') # opts))
               else (case indexUnescaped '';'' (drop (i + 1) s) 0 of
                       None \<Rightarrow> Inl errFinalEscape
                     | Some (j, v) \<Rightarrow> bindE (parseOptions (drop (i + 1 + j + 1) s)) (\<lambda>opts. Inr ((key, v) # opts))))"
  by pat_completeness auto
termination by (relation "measure length") auto

declare parseOptions.simps [simp del]

definition ParsePluginOptions :: "string \<Rightarrow> (string \<times> string) list result" where
  "ParsePluginOptions s = parseOptions s"

definition Args_Get :: "(string \<times> string) list \<Rightarrow> string \<Rightarrow> string option" where
  "Args_Get args key = map_of args key"

end
