(* ===== verification/Framing_Props.thy ===== *)
theory Framing_Props
  imports Framing Tls_Fragment
begin

text \<open>
  What is written in frames is read back, whatever the sizes of the buffers and of what the network delivers
  at once: the contract \<open>framed_stream\<close>, fulfilled by the readers of gRPC messages and of TLS records. The fake
  client hello is consistent, and escaped options are parsed as they were.
\<close>

section \<open>The contract\<close>

text \<open>Reads one after the other, with the capacity of the buffer and the choice of the network for each.\<close>

fun readSeq :: "('s \<Rightarrow> nat \<Rightarrow> nat \<Rightarrow> bytes \<Rightarrow> bytes \<times> Error option \<times> 's \<times> bytes) \<Rightarrow> (nat \<times> nat) list \<Rightarrow> 's \<Rightarrow> bytes \<Rightarrow> bytes" where
  "readSeq rd [] s bs = []"
| "readSeq rd ((cap, choice) # rs) s bs = (case rd s cap choice bs of (out, err, s', bs') \<Rightarrow> out @ readSeq rd rs s' bs')"

locale framed_stream =
  fixes rd :: "'s \<Rightarrow> nat \<Rightarrow> nat \<Rightarrow> bytes \<Rightarrow> bytes \<times> Error option \<times> 's \<times> bytes"
    and carries :: "'s \<Rightarrow> bytes \<Rightarrow> bytes \<Rightarrow> bool"
  assumes progress: "carries s bs payload \<Longrightarrow> payload \<noteq> [] \<Longrightarrow> 0 < cap \<Longrightarrow>
      \<exists>out rest s' bs'. rd s cap choice bs = (out, None, s', bs') \<and> payload = out @ rest \<and> out \<noteq> [] \<and> carries s' bs' rest"
    and drained: "carries s bs [] \<Longrightarrow> \<exists>err s' bs'. rd s cap choice bs = ([], err, s', bs') \<and> carries s' bs' []"
begin

lemma read_prefix:
  assumes "carries s bs payload" "\<forall>r \<in> set rs. 0 < fst r"
  shows "\<exists>rest. payload = readSeq rd rs s bs @ rest \<and> (length payload \<le> length rs \<longrightarrow> rest = [])"
  using assms
proof (induction rs arbitrary: s bs payload)
  case (Cons r rs)
  obtain cap choice where r: "r = (cap, choice)" by (cases r)
  show ?case
  proof (cases "payload = []")
    case True
    then obtain err s' bs' where "rd s cap choice bs = ([], err, s', bs')" "carries s' bs' []"
      using drained [of s bs cap choice] Cons(2) by auto
    then show ?thesis using Cons(1) [of s' bs' "[]"] Cons(3) r True by auto
  next
    case False
    then obtain out rest s' bs' where o: "rd s cap choice bs = (out, None, s', bs')" "payload = out @ rest" "out \<noteq> []" "carries s' bs' rest"
      using progress [OF Cons(2) False, of cap choice] Cons(3) r by auto
    obtain rest' where "rest = readSeq rd rs s' bs' @ rest'" "length rest \<le> length rs \<longrightarrow> rest' = []"
      using Cons(1) [OF o(4)] Cons(3) by auto
    moreover have "length payload \<le> length (r # rs) \<longrightarrow> length rest \<le> length rs" using o(2,3) by (cases out) auto
    ultimately show ?thesis using o(1,2) r by (intro exI [of _ rest']) auto
  qed
qed simp

text \<open>Enough reads return everything.\<close>

lemma read_all:
  assumes "carries s bs payload" "\<forall>r \<in> set rs. 0 < fst r" "length payload \<le> length rs"
  shows "readSeq rd rs s bs = payload"
  using read_prefix [OF assms(1,2)] assms(3) by auto

end

lemma connRead1_some:
  "0 < cap \<Longrightarrow> bs \<noteq> [] \<Longrightarrow> \<exists>n. 0 < n \<and> n \<le> cap \<and> connRead1 cap choice bs = (take n bs, None, drop n bs)"
  by (intro exI [of _ "min cap (Suc choice)"]) (simp add: connRead1_def)

section \<open>Messages of gRPC\<close>

text \<open>A message as it is on the stream, and the writes of the pieces one after the other.\<close>

definition gunFrame :: "bytes \<Rightarrow> bytes" where
  "gunFrame m = (let uvarint = putUvarint (word_of_nat (length m))
     in 0 # bytesOfNat 4 (1 + length uvarint + length m) @ [0x0A] @ uvarint @ m)"

datatype GunWrite = Piece "nat \<Rightarrow> u8" bytes | BufferPiece bytes bytes

fun content :: "GunWrite \<Rightarrow> bytes" where
  "content (Piece memory m) = m"
| "content (BufferPiece front m) = m"

fun gunWrite :: "(u64 \<Rightarrow> nat) \<Rightarrow> GunWrite \<Rightarrow> bytes result" where
  "gunWrite ul (Piece memory m) = GunConn_Write ul memory None m"
| "gunWrite ul (BufferPiece front m) = GunConn_WriteBuffer ul front None m"

fun gunSend :: "(u64 \<Rightarrow> nat) \<Rightarrow> GunWrite list \<Rightarrow> bytes result" where
  "gunSend ul [] = Inr []"
| "gunSend ul (w # ws) = bindE (gunWrite ul w) (\<lambda>bs. bindE (gunSend ul ws) (\<lambda>more. Inr (bs @ more)))"

text \<open>A piece that can be sent: it is not empty, and a buffer has the room in front that \<open>FrontHeadroom\<close> asks for.\<close>

fun sendable :: "GunWrite \<Rightarrow> bool" where
  "sendable (Piece memory m) = (m \<noteq> [] \<and> length m < 2 ^ 63)"
| "sendable (BufferPiece front m) = (m \<noteq> [] \<and> length m < 2 ^ 63 \<and> 6 + length (putUvarint (word_of_nat (length m))) \<le> length front)"

lemma sendable_content: "sendable w \<Longrightarrow> content w \<noteq> [] \<and> length (content w) < 2 ^ 63"
  by (cases w) simp_all

lemma gunHeader_exact:
  "gunHeader (length (putUvarint (word_of_nat (length m)))) memory (length m) =
   Inr (0 # bytesOfNat 4 (1 + length (putUvarint (word_of_nat (length m))) + length m) @ [0x0A] @ putUvarint (word_of_nat (length m)))"
  by (simp add: gunHeader_def Let_def del: bytesOfNat.simps)

lemma gunWrite_frame:
  assumes "\<And>n. ul n = length (putUvarint n)" "sendable w"
  shows "gunWrite ul w = Inr (gunFrame (content w))"
  using assms(2)
  by (cases w) (simp_all add: GunConn_Write_def GunConn_WriteBuffer_def gunHeader_exact gunFrame_def assms(1) Let_def del: bytesOfNat.simps)

lemma gunSend_frames:
  assumes "\<And>n. ul n = length (putUvarint n)"
  shows "\<forall>w \<in> set ws. sendable w \<Longrightarrow> gunSend ul ws = Inr (concat (map (gunFrame \<circ> content) ws))"
  by (induction ws) (simp_all add: gunWrite_frame [OF assms])

definition gunCarries :: "nat \<Rightarrow> bytes \<Rightarrow> bytes \<Rightarrow> bool" where
  "gunCarries remaining bs payload \<longleftrightarrow>
     (\<exists>cur ms. remaining = length cur \<and> bs = cur @ concat (map gunFrame ms) \<and> payload = cur @ concat ms \<and>
        (\<forall>m \<in> set ms. m \<noteq> [] \<and> length m < 2 ^ 63))"

lemma gunCarriesI:
  "(\<forall>m \<in> set ms. m \<noteq> [] \<and> length m < 2 ^ 63) \<Longrightarrow> gunCarries (length cur) (cur @ concat (map gunFrame ms)) (cur @ concat ms)"
  by (auto simp: gunCarries_def)

lemma gunFrame_header:
  "\<exists>h. length h = 6 \<and> gunFrame m = h @ putUvarint (word_of_nat (length m)) @ m"
  by (intro exI [of _ "0 # bytesOfNat 4 (1 + length (putUvarint (word_of_nat (length m))) + length m) @ [0x0A]"])
    (simp add: gunFrame_def Let_def del: bytesOfNat.simps)

lemma gun_read_message:
  assumes "m \<noteq> []" "length m < 2 ^ 63" "0 < cap"
  shows "\<exists>n. 0 < n \<and> GunConn_read 0 cap choice (gunFrame m @ rest) = (take n m, None, length (drop n m), drop n m @ rest)"
proof -
  obtain h where h: "length h = 6" "gunFrame m = h @ putUvarint (word_of_nat (length m)) @ m"
    using gunFrame_header by blast
  have u: "unat (word_of_nat (length m) :: u64) = length m" using assms(2) by (simp add: unat_of_nat)
  obtain n where n: "0 < n" "n \<le> min cap (length m)" "connRead1 (min cap (length m)) choice (m @ rest) = (take n (m @ rest), None, drop n (m @ rest))"
    using connRead1_some [of "min cap (length m)" "m @ rest" choice] assms by auto
  have "GunConn_read 0 cap choice (gunFrame m @ rest) = (take n m, None, length m - length (take n m), drop n m @ rest)"
    using h n(2,3) u assms(2) by (simp add: GunConn_read_def readUvarint_putUvarint Let_def)
  then show ?thesis using n(1,2) by (intro exI [of _ n]) simp
qed

lemma gun_framed: "framed_stream GunConn_read gunCarries"
proof
  fix s bs payload cap choice
  assume c: "gunCarries s bs payload" and p: "payload \<noteq> []" and cap: "0 < (cap::nat)"
  obtain cur ms where f: "s = length cur" "bs = cur @ concat (map gunFrame ms)" "payload = cur @ concat ms"
    "\<forall>m \<in> set ms. m \<noteq> [] \<and> length m < 2 ^ 63" using c by (auto simp: gunCarries_def)
  show "\<exists>out rest s' bs'. GunConn_read s cap choice bs = (out, None, s', bs') \<and> payload = out @ rest \<and> out \<noteq> [] \<and> gunCarries s' bs' rest"
  proof (cases "cur = []")
    case True
    then obtain m ms' where ms: "ms = m # ms'" using f(3) p by (cases ms) auto
    then obtain n where n: "0 < n" "GunConn_read 0 cap choice (gunFrame m @ concat (map gunFrame ms')) =
        (take n m, None, length (drop n m), drop n m @ concat (map gunFrame ms'))"
      using gun_read_message [of m cap choice "concat (map gunFrame ms')"] f(4) cap by auto
    have "m \<noteq> []" using f(4) ms by simp
    then show ?thesis using n f ms True gunCarriesI [of ms' "drop n m"]
      by (intro exI [of _ "take n m"] exI [of _ "drop n m @ concat ms'"]) auto
  next
    case False
    then obtain n where n: "0 < n" "n \<le> min cap (length cur)" "connRead1 (min cap (length cur)) choice bs = (take n bs, None, drop n bs)"
      using connRead1_some [of "min cap (length cur)" bs choice] cap f(2) by auto
    then have "GunConn_read s cap choice bs = (take n cur, None, length (drop n cur), drop n cur @ concat (map gunFrame ms))"
      using f(1,2) False by (simp add: GunConn_read_def)
    then show ?thesis using n(1) False f(3) gunCarriesI [OF f(4), of "drop n cur"]
      by (intro exI [of _ "take n cur"] exI [of _ "drop n cur @ concat ms"]) auto
  qed
next
  fix s bs cap choice
  assume "gunCarries s bs []"
  then have "s = 0" "bs = []" by (auto simp: gunCarries_def)
  then show "\<exists>err s' bs'. GunConn_read s cap choice bs = ([], err, s', bs') \<and> gunCarries s' bs' []"
    using gunCarriesI [of "[]" "[]"] by (simp add: GunConn_read_def)
qed

interpretation gun: framed_stream GunConn_read gunCarries
  by (rule gun_framed)

text \<open>
  C39: What is written to a gRPC stream with \<open>Write\<close> and \<open>WriteBuffer\<close>, in whatever pieces that are not empty, is
  written without a panic and read in order and completely: any sequence of reads, with buffers of any
  size but 0 and whatever the network delivers at once, returns a prefix of the bytes written, and as
  many reads as there are bytes return all of them. The pieces must be shorter than 2^63 bytes, a buffer
  must have room in front of it for its header, the connection must accept every write, and
  \<open>UvarintLen\<close> must be the number of bytes that \<open>PutUvarint\<close> writes.
\<close>

theorem gun_stream_is_read_back:
  assumes "\<And>n. ul n = length (putUvarint n)" "\<forall>w \<in> set ws. sendable w" "\<forall>r \<in> set rs. 0 < fst r"
  shows "\<exists>sent. gunSend ul ws = Inr sent \<and>
    (\<exists>rest. concat (map content ws) = readSeq GunConn_read rs 0 sent @ rest) \<and>
    (length (concat (map content ws)) \<le> length rs \<longrightarrow> readSeq GunConn_read rs 0 sent = concat (map content ws))"
proof -
  let ?sent = "concat (map (gunFrame \<circ> content) ws)"
  have p: "\<forall>m \<in> set (map content ws). m \<noteq> [] \<and> length m < 2 ^ 63"
  proof
    fix m
    assume "m \<in> set (map content ws)"
    then obtain w where w: "w \<in> set ws" "m = content w" by auto
    show "m \<noteq> [] \<and> length m < 2 ^ 63" unfolding w(2) using assms(2) w(1) by (intro sendable_content) (rule bspec)
  qed
  have c: "gunCarries 0 ?sent (concat (map content ws))" using gunCarriesI [OF p, of "[]"] by simp
  have "gunSend ul ws = Inr ?sent" using gunSend_frames assms(1,2) by blast
  then show ?thesis using gun.read_prefix [OF c assms(3)] gun.read_all [OF c assms(3)] by blast
qed

theorem gun_stream_is_read_back_witness:
  "\<exists>sent. gunSend (\<lambda>n. length (putUvarint n)) [Piece (\<lambda>_. 0) [1, 2, 3], BufferPiece (replicate 16 9) [4]] = Inr sent \<and>
    readSeq GunConn_read [(2, 0), (1, 5), (8, 8), (1, 1)] 0 sent = [1, 2, 3, 4]"
proof -
  let ?ws = "[Piece (\<lambda>_. 0) [1, 2, 3], BufferPiece (replicate 16 9) [4]]"
  have "putUvarint 1 = [1]" by (subst putUvarint.simps) simp
  then have "\<forall>w \<in> set ?ws. sendable w" by simp
  then obtain sent where "gunSend (\<lambda>n. length (putUvarint n)) ?ws = Inr sent"
    and "4 \<le> length [(2 :: nat, 0 :: nat), (1, 5), (8, 8), (1, 1)] \<longrightarrow> readSeq GunConn_read [(2, 0), (1, 5), (8, 8), (1, 1)] 0 sent = concat (map content ?ws)"
    using gun_stream_is_read_back [of "\<lambda>n. length (putUvarint n)" ?ws "[(2, 0), (1, 5), (8, 8), (1, 1)]"]
    by (auto simp del: readSeq.simps gunSend.simps)
  then show ?thesis by (intro exI [of _ sent]) (simp del: readSeq.simps gunSend.simps)
qed

text \<open>A length of the header that is not the one of the number would corrupt the stream or panic.\<close>

lemma GunConn_Write_short:
  "ul (word_of_nat (length b)) < length (putUvarint (word_of_nat (length b))) \<Longrightarrow> GunConn_Write ul memory writeErr b = Inl (Panic [AStr ''index out of range''])"
  by (simp add: GunConn_Write_def gunHeader_def Let_def)

text \<open>A message that announces 2^63 bytes or more makes the reader panic.\<close>

theorem large_message_panics:
  assumes "length h = 6" "2 ^ 63 \<le> unat n"
  shows "\<exists>rest. GunConn_read 0 cap choice (h @ putUvarint n @ m) = ([], Some (Panic [AStr ''slice bounds out of range'']), 0, rest)"
  using assms by (simp add: GunConn_read_def readUvarint_putUvarint)

section \<open>Records of TLS\<close>

definition tlsRecord :: "bytes \<Rightarrow> bytes" where
  "tlsRecord b = [0x17, 0x03, 0x03] @ bytesOfNat 2 (length b) @ b"

definition properRecord :: "bytes \<Rightarrow> bool" where
  "properRecord b = (b \<noteq> [] \<and> length b < 65536)"

text \<open>Behind the first response of the server, of which 105 bytes are skipped, come records.\<close>

definition obfsCarries :: "TLSObfs \<Rightarrow> bytes \<Rightarrow> bytes \<Rightarrow> bool" where
  "obfsCarries to bs payload \<longleftrightarrow>
     (\<exists>cur ms. to_remain to = length cur \<and> list_all properRecord ms \<and> payload = cur @ concat ms \<and>
        (if to_firstResponse to
         then cur = [] \<and> (\<exists>h m ms'. ms = m # ms' \<and> length h = 105 \<and> bs = h @ bytesOfNat 2 (length m) @ m @ concat (map tlsRecord ms'))
         else bs = cur @ concat (map tlsRecord ms)))"

lemma obfsCarriesI:
  "list_all properRecord ms \<Longrightarrow> to_remain to = length cur \<Longrightarrow> \<not> to_firstResponse to \<Longrightarrow>
   obfsCarries to (cur @ concat (map tlsRecord ms)) (cur @ concat ms)"
  by (auto simp: obfsCarries_def)

lemma obfs_read_record:
  assumes "properRecord m" "0 < cap" "length h = n" "to_remain to = 0"
  shows "\<exists>k to'. 0 < k \<and> to_remain to' = length (drop k m) \<and> to_firstResponse to' = to_firstResponse to \<and>
    TLSObfs_read to n cap choice (h @ bytesOfNat 2 (length m) @ m @ rest) = (take k m, None, to', drop k m @ rest)"
proof -
  have m: "m \<noteq> []" "bigEndian (bytesOfNat 2 (length m)) = length m"
    using assms(1) by (simp_all add: properRecord_def bigEndian_bytesOfNat del: bytesOfNat.simps)
  have r: "readN n (h @ xs) = Inr (h, xs)" "readN 2 (bytesOfNat 2 (length m) @ ys) = Inr (bytesOfNat 2 (length m), ys)" for xs ys
    using assms(3) by (auto intro: readN_append simp del: bytesOfNat.simps)
  show ?thesis
  proof (cases "cap < length m")
    case True
    obtain k where k: "0 < k" "k \<le> cap" "connRead1 cap choice (m @ rest) = (take k (m @ rest), None, drop k (m @ rest))"
      using connRead1_some [of cap "m @ rest" choice] assms(2) m(1) by auto
    then show ?thesis using True m r
      by (intro exI [of _ k] exI [of _ "to\<lparr>to_remain := length (drop k m)\<rparr>"]) (simp add: TLSObfs_read_def del: bytesOfNat.simps)
  next
    case False
    then show ?thesis using m r assms(4)
      by (intro exI [of _ "length m"] exI [of _ to]) (simp add: TLSObfs_read_def ioReadFull_def del: bytesOfNat.simps)
  qed
qed

lemma obfs_read_first:
  assumes "list_all properRecord (m # ms)" "0 < cap" "length h = n" "to_remain to = 0" "\<not> to_firstResponse to"
  shows "\<exists>out rest s' bs'. TLSObfs_read to n cap choice (h @ bytesOfNat 2 (length m) @ m @ concat (map tlsRecord ms)) = (out, None, s', bs') \<and>
    concat (m # ms) = out @ rest \<and> out \<noteq> [] \<and> obfsCarries s' bs' rest"
proof -
  have m: "properRecord m" "m \<noteq> []" using assms(1) by (auto simp: properRecord_def)
  from obfs_read_record [OF m(1) assms(2,3,4), of choice "concat (map tlsRecord ms)"] obtain k to' where
    k: "0 < k" "to_remain to' = length (drop k m)" "\<not> to_firstResponse to'"
      "TLSObfs_read to n cap choice (h @ bytesOfNat 2 (length m) @ m @ concat (map tlsRecord ms)) = (take k m, None, to', drop k m @ concat (map tlsRecord ms))"
    using assms(5) by auto
  have "obfsCarries to' (drop k m @ concat (map tlsRecord ms)) (drop k m @ concat ms)"
    using assms(1) k(2,3) by (intro obfsCarriesI) auto
  then show ?thesis using k(1,4) m(2)
    by (intro exI [of _ "take k m"] exI [of _ "drop k m @ concat ms"] exI [of _ to'] exI [of _ "drop k m @ concat (map tlsRecord ms)"]) auto
qed

interpretation obfs: framed_stream TLSObfs_Read obfsCarries
proof
  fix s bs payload cap choice
  assume c: "obfsCarries s bs payload" and p: "payload \<noteq> []" and cap: "0 < (cap::nat)"
  obtain cur ms where f: "to_remain s = length cur" "list_all properRecord ms" "payload = cur @ concat ms"
    "if to_firstResponse s
     then cur = [] \<and> (\<exists>h m ms'. ms = m # ms' \<and> length h = 105 \<and> bs = h @ bytesOfNat 2 (length m) @ m @ concat (map tlsRecord ms'))
     else bs = cur @ concat (map tlsRecord ms)" using c unfolding obfsCarries_def by blast
  show "\<exists>out rest s' bs'. TLSObfs_Read s cap choice bs = (out, None, s', bs') \<and> payload = out @ rest \<and> out \<noteq> [] \<and> obfsCarries s' bs' rest"
  proof (cases "cur = []")
    case False
    then have first: "\<not> to_firstResponse s" "bs = cur @ concat (map tlsRecord ms)" using f(4) by (auto split: if_splits)
    let ?n = "min (length cur) cap"
    have "TLSObfs_Read s cap choice bs = (take ?n cur, None, s\<lparr>to_remain := length (drop ?n cur)\<rparr>, drop ?n cur @ concat (map tlsRecord ms))"
      using False f(1) first(2) by (simp add: TLSObfs_Read_def ioReadFull_def)
    moreover have "obfsCarries (s\<lparr>to_remain := length (drop ?n cur)\<rparr>) (drop ?n cur @ concat (map tlsRecord ms)) (drop ?n cur @ concat ms)"
      using f(2) first(1) by (intro obfsCarriesI) auto
    ultimately show ?thesis using False cap f(3) by (intro exI [of _ "take ?n cur"] exI [of _ "drop ?n cur @ concat ms"]) auto
  next
    case True
    then obtain m ms' where ms: "ms = m # ms'" using f(3) p by (cases ms) auto
    show ?thesis
    proof (cases "to_firstResponse s")
      case first: True
      then obtain h where h: "length h = 105" "bs = h @ bytesOfNat 2 (length m) @ m @ concat (map tlsRecord ms')" using f(4) ms by auto
      have "list_all properRecord (m # ms')" using f(2) ms by simp
      from obfs_read_first [OF this cap h(1), of "s\<lparr>to_firstResponse := False\<rparr>" choice]
      show ?thesis using f(1,3) True first h(2) ms by (simp add: TLSObfs_Read_def del: bytesOfNat.simps)
    next
      case first: False
      have "list_all properRecord (m # ms')" using f(2) ms by simp
      from obfs_read_first [OF this cap, of "[0x17, 0x03, 0x03]" 3 s choice]
      show ?thesis using f True first ms by (simp add: TLSObfs_Read_def tlsRecord_def del: bytesOfNat.simps)
    qed
  qed
next
  fix s bs cap choice
  assume c: "obfsCarries s bs []"
  obtain cur ms where f: "to_remain s = length cur" "list_all properRecord ms" "[] = cur @ concat ms"
    "if to_firstResponse s
     then cur = [] \<and> (\<exists>h m ms'. ms = m # ms' \<and> length h = 105 \<and> bs = h @ bytesOfNat 2 (length m) @ m @ concat (map tlsRecord ms'))
     else bs = cur @ concat (map tlsRecord ms)" using c unfolding obfsCarries_def by blast
  have "ms = []" using f(2,3) by (cases ms) (auto simp: properRecord_def)
  then have "to_remain s = 0" "\<not> to_firstResponse s" "bs = []" using f by (auto split: if_splits)
  then show "\<exists>err s' bs'. TLSObfs_Read s cap choice bs = ([], err, s', bs') \<and> obfsCarries s' bs' []"
    using obfsCarriesI [of "[]" s "[]"] by (simp add: TLSObfs_Read_def TLSObfs_read_def readN_def)
qed

lemma TLSObfs_Write_records:
  "\<not> to_firstRequest to \<Longrightarrow>
   \<exists>ms. TLSObfs_Write hello to b = (concat (map tlsRecord ms), to) \<and> concat ms = b \<and> list_all properRecord ms"
proof (induction hello to b rule: TLSObfs_Write.induct)
  case (1 hello to b)
  show ?case
  proof (cases "b = []")
    case True
    then show ?thesis by (intro exI [of _ "[]"]) (simp add: TLSObfs_Write.simps)
  next
    case False
    have w: "TLSObfs_write hello to (take 16384 b) = (tlsRecord (take 16384 b), to)" using 1(2) by (simp add: TLSObfs_write_def tlsRecord_def)
    obtain ms where ms: "TLSObfs_Write hello to (drop 16384 b) = (concat (map tlsRecord ms), to)" "concat ms = drop 16384 b" "list_all properRecord ms"
      using 1(1) [OF False _ refl, of "tlsRecord (take 16384 b)" to] 1(2) w by auto
    have "properRecord (take 16384 b)" using False by (simp add: properRecord_def)
    then show ?thesis using False w ms
      by (intro exI [of _ "take 16384 b # ms"]) (simp add: TLSObfs_Write.simps [of hello to b])
  qed
qed

text \<open>What is written after the handshake is read back by a peer that is past its handshake.\<close>

theorem obfs_stream_is_read_back:
  assumes "\<not> to_firstRequest w" "\<not> to_firstResponse r" "to_remain r = 0" "\<forall>x \<in> set rs. 0 < fst x" "length b \<le> length rs"
  shows "readSeq TLSObfs_Read rs r (fst (TLSObfs_Write hello w b)) = b"
proof -
  obtain ms where "TLSObfs_Write hello w b = (concat (map tlsRecord ms), w)" "concat ms = b" "list_all properRecord ms"
    using TLSObfs_Write_records [OF assms(1)] by blast
  then show ?thesis using obfs.read_all [OF obfsCarriesI [of ms r "[]"] assms(4)] assms(2,3,5) by simp
qed

section \<open>The client hello\<close>

lemma unat_uint16: "unat (uint16 a b) = 256 * unat a + unat b"
proof -
  have d: "push_bit 8 (ucast a :: u16) AND ucast b = 0" by (rule bit_eqI) (auto simp: bit_simps dest: bit_imp_le_length)
  have "uint16 a b = push_bit 8 (ucast a) + ucast b" using disjunctive_add_eq_or [OF d] by (simp add: uint16_def)
  moreover have "unat a < 256" "unat b < 256" using unsigned_less [of a] unsigned_less [of b] by simp_all
  ultimately show ?thesis by (simp add: push_bit_eq_mult unat_word_ariths unsigned_ucast_eq take_bit_nat_def)
qed

lemma uint16_bytes:
  assumes "n < 65536"
  shows "unat (uint16 (word_of_nat (n div 256)) (word_of_nat n)) = n"
proof -
  have "unat (word_of_nat (n div 256) :: u8) = n div 256" "unat (word_of_nat n :: u8) = n mod 256"
    using assms by (simp_all add: unat_of_nat)
  then show ?thesis by (simp add: unat_uint16)
qed

lemma bytesOfNat_2: "bytesOfNat 2 n = [word_of_nat (n div 256), word_of_nat n]"
  by (simp add: numeral_2_eq_2)

text \<open>The extensions: first the ticket with the data, then the server name.\<close>

lemma hello_extensions:
  assumes "79 + length dat + length server < 65536"
  shows "extensionsLoop i ([0x00, 0x23] @ bytesOfNat 2 (length dat) @ dat @
      [0x00, 0x00] @ bytesOfNat 2 (length server + 5) @ bytesOfNat 2 (length server + 3) @ [0] @ bytesOfNat 2 (length server) @ bytesOf server @ rest) =
    Some (Some \<lparr>sn_Index = i + 13 + length dat, sn_Length = length server, sn_ServerName = server\<rparr>)"
proof -
  let ?sni = "[0x00, 0x00] @ bytesOfNat 2 (length server + 5) @ bytesOfNat 2 (length server + 3) @ [0] @ bytesOfNat 2 (length server) @ bytesOf server @ rest"
  let ?l = "uint16 (word_of_nat (length dat div 256)) (word_of_nat (length dat))"
  have l: "unat ?l = length dat" using assms by (intro uint16_bytes) simp
  have w: "unat (4 + ?l) = 4 + length dat" using assms l by (simp add: unat_word_ariths)
  have t: "uint16 0 0x23 \<noteq> 0" "uint16 0 0 = 0" by (simp_all add: uint16_def)
  have u: "unat (uint16 (word_of_nat ((length server + 5) div 256)) (word_of_nat (length server + 5))) = length server + 5"
    "unat (uint16 (word_of_nat (length server div 256)) (word_of_nat (length server))) = length server"
    using assms by (intro uint16_bytes; simp)+
  have "extensionsLoop (i + 4 + length dat) ?sni = Some (Some \<lparr>sn_Index = i + 4 + length dat + 9, sn_Length = length server, sn_ServerName = server\<rparr>)"
    using u t by (subst extensionsLoop.simps) (simp add: bytesOfNat_2 sniExtension_def Let_def drop_take del: of_nat_add)
  then show ?thesis using l w t by (subst extensionsLoop.simps) (simp add: bytesOfNat_2 Let_def drop_Cons' add.assoc)
qed

lemma ucast_uint16: "(ucast (uint16 a b) :: u32) = push_bit 8 (ucast a) OR ucast b"
  by (rule bit_eqI) (auto simp: uint16_def bit_simps dest: bit_imp_le_length)

lemma unat_ucast_u16: "unat (ucast (w :: u16) :: u32) = unat w"
proof -
  have "unat (ucast w :: u32) = take_bit 32 (unat w)" using unsigned_ucast_eq [of w, where ?'c = 32] by simp
  moreover have "unat w < 65536" using unsigned_less [of w] by simp
  ultimately show ?thesis by (simp add: take_bit_nat_eq_self)
qed

lemma hello_handshake:
  assumes H: "H = [1, 0] @ bytesOfNat 2 (208 + n) @ [0x03, 0x03] @ R @ [32] @ sessionID @ [0x00, 0x38] @ C @ [0x01, 0x00] @ bytesOfNat 2 (79 + n) @ X"
    and len: "length R = 32" "length C = 56" "length sessionID = 32" "length X = 79 + n" "212 + n < 65536"
  shows "indexTLSServerNameFromHandshake H = addIndex 131 (indexTLSServerNameFromExtensions (bytesOfNat 2 (79 + n) @ X))"
proof -
  let ?a = "word_of_nat ((208 + n) div 256) :: u8" and ?b = "word_of_nat (208 + n) :: u8"
  have "unat (push_bit 8 (ucast ?a) OR ucast ?b :: u32) = unat (uint16 ?a ?b)"
  proof -
    show ?thesis using unat_ucast_u16 [of "uint16 ?a ?b"] ucast_uint16 [of ?a ?b] by simp
  qed
  also have "\<dots> = 208 + n" using len(5) by (intro uint16_bytes) simp
  finally have hl: "unat (push_bit 8 (ucast ?a) OR ucast ?b :: u32) = 208 + n" .
  have v: "uint16 3 3 AND 0xFFFC = 0x0300" "unat (uint16 0 0x38) = 56" by (simp_all add: uint16_def)
  let ?rest = "[32] @ sessionID @ [0x00, 0x38] @ C @ [0x01, 0x00] @ bytesOfNat 2 (79 + n) @ X"
  let ?cs = "[0x00, 0x38] @ C @ [0x01, 0x00] @ bytesOfNat 2 (79 + n) @ X"
  have "H = [1, 0, ?a, ?b, 3, 3] @ R @ ?rest" by (simp add: H bytesOfNat_2)
  then have h: "H ! 0 = 1" "H ! 1 = 0" "H ! 2 = ?a" "H ! 3 = ?b" "H ! 4 = 3" "H ! 5 = 3" "H ! 38 = 32" "length H = 212 + n"
    "drop 71 H = ?cs" "drop 131 H = bytesOfNat 2 (79 + n) @ X"
    using len by (simp_all add: nth_append nth_Cons' del: bytesOfNat.simps of_nat_add)
  have c: "?cs ! 0 = 0" "?cs ! 1 = 0x38" "?cs ! 58 = 1" "length ?cs = 141 + n" using len by (simp_all add: nth_append nth_Cons' del: bytesOfNat.simps)
  show ?thesis using h c hl v by (simp add: indexTLSServerNameFromHandshake_def Let_def)
qed

text \<open>
  The fake client hello is one: the search for the server name, which checks the lengths of the record, of
  the handshake, of the cipher suites and of the extensions, finds the configured host in it.
\<close>

theorem hello_names_the_server:
  assumes "212 + length dat + length server < 65536" "length random = 28" "length sessionID = 32"
  shows "IndexTLSServerName (makeClientHelloMsg now random sessionID dat server) =
    Some (Some \<lparr>sn_Index = 151 + length dat, sn_Length = length server, sn_ServerName = server\<rparr>)"
proof -
  define R where "R = bytesOfNat 4 now @ random"
  define C :: bytes where "C = [0xc0, 0x2c, 0xc0, 0x30, 0x00, 0x9f, 0xcc, 0xa9, 0xcc, 0xa8, 0xcc, 0xaa, 0xc0, 0x2b, 0xc0, 0x2f,
      0x00, 0x9e, 0xc0, 0x24, 0xc0, 0x28, 0x00, 0x6b, 0xc0, 0x23, 0xc0, 0x27, 0x00, 0x67, 0xc0, 0x0a,
      0xc0, 0x14, 0x00, 0x39, 0xc0, 0x09, 0xc0, 0x13, 0x00, 0x33, 0x00, 0x9d, 0x00, 0x9c, 0x00, 0x3d,
      0x00, 0x3c, 0x00, 0x35, 0x00, 0x2f, 0x00, 0xff]"
  define T :: bytes where "T = [0x00, 0x0b, 0x00, 0x04, 0x03, 0x01, 0x00, 0x02] @
     [0x00, 0x0a, 0x00, 0x0a, 0x00, 0x08, 0x00, 0x1d, 0x00, 0x17, 0x00, 0x19, 0x00, 0x18] @
     [0x00, 0x0d, 0x00, 0x20, 0x00, 0x1e, 0x06, 0x01, 0x06, 0x02, 0x06, 0x03, 0x05,
      0x01, 0x05, 0x02, 0x05, 0x03, 0x04, 0x01, 0x04, 0x02, 0x04, 0x03, 0x03, 0x01,
      0x03, 0x02, 0x03, 0x03, 0x02, 0x01, 0x02, 0x02, 0x02, 0x03] @
     [0x00, 0x16, 0x00, 0x00] @ [0x00, 0x17, 0x00, 0x00]"
  define X where "X = [0x00, 0x23] @ bytesOfNat 2 (length dat) @ dat @
      [0x00, 0x00] @ bytesOfNat 2 (length server + 5) @ bytesOfNat 2 (length server + 3) @ [0] @ bytesOfNat 2 (length server) @ bytesOf server @ T"
  define n where "n = length dat + length server"
  have len: "length R = 32" "length C = 56" "length X = 79 + n" using assms(2)
    by (simp_all add: R_def C_def X_def T_def n_def del: bytesOfNat.simps)
  have ext: "indexTLSServerNameFromExtensions (bytesOfNat 2 (79 + n) @ X) =
      Some (Some \<lparr>sn_Index = 2 + 13 + length dat, sn_Length = length server, sn_ServerName = server\<rparr>)"
  proof -
    have "unat (uint16 (word_of_nat ((79 + n) div 256)) (word_of_nat (79 + n))) = 79 + n" using assms(1) by (intro uint16_bytes) (simp add: n_def)
    moreover have "extensionsLoop 2 X = Some (Some \<lparr>sn_Index = 2 + 13 + length dat, sn_Length = length server, sn_ServerName = server\<rparr>)"
      unfolding X_def using assms(1) by (intro hello_extensions) simp
    ultimately show ?thesis using len(3) by (simp add: indexTLSServerNameFromExtensions_def bytesOfNat_2 Let_def del: of_nat_add)
  qed
  define H where "H = [1, 0] @ bytesOfNat 2 (208 + n) @ [0x03, 0x03] @ R @ [32] @ sessionID @ [0x00, 0x38] @ C @ [0x01, 0x00] @ bytesOfNat 2 (79 + n) @ X"
  have hello: "makeClientHelloMsg now random sessionID dat server = [22, 0x03, 0x01] @ bytesOfNat 2 (212 + n) @ H"
    unfolding makeClientHelloMsg_def H_def X_def T_def C_def R_def n_def by (simp add: add.assoc del: bytesOfNat.simps)
  have "length H = 212 + n" using len assms(3) by (simp add: H_def del: bytesOfNat.simps)
  moreover have "indexTLSServerNameFromHandshake H = addIndex 131 (indexTLSServerNameFromExtensions (bytesOfNat 2 (79 + n) @ X))"
    by (rule hello_handshake [OF H_def len(1,2) assms(3)]) (use len(3) assms(1) in \<open>simp_all add: n_def\<close>)
  moreover have "unat (uint16 (word_of_nat ((212 + n) div 256)) (word_of_nat (212 + n))) = 212 + n" using assms(1) by (intro uint16_bytes) (simp add: n_def)
  ultimately show ?thesis unfolding hello ext by (simp add: IndexTLSServerName_def bytesOfNat_2 addIndex_def del: of_nat_add)
qed

section \<open>Options of plugins\<close>

lemma indexUnescaped_escaped:
  assumes "set trm \<subseteq> set sp" "CHR 0x5C \<notin> set trm" "rest = [] \<or> hd rest \<in> set trm"
  shows "indexUnescaped trm (backslashEscape s sp @ rest) i = Some (i + length (backslashEscape s sp), s)"
proof (induction s arbitrary: i)
  case Nil
  then show ?case using assms(3) by (cases rest) (auto simp: backslashEscape_def)
next
  case (Cons c s)
  then show ?case using assms(1,2) by (auto simp: backslashEscape_def)
qed

definition printOption :: "string \<times> string \<Rightarrow> string" where
  "printOption kv = backslashEscape (fst kv) ''=;'' @ ''='' @ backslashEscape (snd kv) '';''"

lemma parseOptions_printed:
  assumes "k \<noteq> []" "rest = [] \<or> hd rest = CHR '';''"
  shows "parseOptions (printOption (k, v) @ rest) = bindE (parseOptions (tl rest)) (\<lambda>opts. Inr ((k, v) # opts))"
proof -
  let ?k = "backslashEscape k ''=;''" and ?v = "backslashEscape v '';''"
  have s: "printOption (k, v) @ rest = ?k @ CHR ''='' # ?v @ rest" by (simp add: printOption_def)
  have ik: "indexUnescaped ''=;'' (?k @ CHR ''='' # ?v @ rest) 0 = Some (length ?k, k)"
    using indexUnescaped_escaped [of "''=;''" "''=;''" "CHR ''='' # ?v @ rest" k 0] by simp
  have iv: "indexUnescaped '';'' (?v @ rest) 0 = Some (length ?v, v)"
    using indexUnescaped_escaped [of "'';''" "'';''" rest v 0] assms(2) by auto
  have "drop (length ?k + 1 + length ?v + 1) (?k @ CHR ''='' # ?v @ rest) = tl rest" by (simp add: drop_Suc drop_Cons')
  then show ?thesis unfolding s using ik iv assms(1)
    by (subst parseOptions.simps) (simp add: nth_append drop_Suc)
qed

text \<open>
  Options that are written as the specification of plugins asks, with the special characters of keys and
  values escaped, are parsed into the same keys and values in the same order.
\<close>

theorem plugin_options_round_trip:
  assumes "\<forall>kv \<in> set opts. fst kv \<noteq> []"
  shows "ParsePluginOptions (stringsJoin (map printOption opts) '';'') = Inr opts"
  unfolding ParsePluginOptions_def using assms
proof (induction opts)
  case Nil
  then show ?case by (simp add: parseOptions.simps)
next
  case (Cons kv opts)
  obtain k v where kv: "kv = (k, v)" "k \<noteq> []" using Cons(2) by (cases kv) auto
  show ?case
  proof (cases opts)
    case Nil
    then show ?thesis using parseOptions_printed [of k "[]" v] kv by (simp add: parseOptions.simps [of "[]"])
  next
    case (Cons kv' opts')
    then show ?thesis using parseOptions_printed [of k "CHR '';'' # stringsJoin (map printOption opts) '';''" v] kv Cons.IH Cons.prems by simp
  qed
qed

end
