(* ===== verification/Badversion.thy ===== *)
theory Badversion
  imports Prelude
begin

text \<open>
  Versions, \<open>common/badversion/version.go\<close>: parsing, printing and comparing, and what a Linux kernel of a version
  is taken to support (\<open>KernelSupport\<close> of \<open>common/ktls/ktls_linux.go\<close>, up to the check of the kernel module).
\<close>

record Version =
  v_Major :: int
  v_Minor :: int
  v_Patch :: int
  v_Commit :: string
  v_PreReleaseIdentifier :: string
  v_PreReleaseVersion :: int

definition zeroVersion :: Version where
  "zeroVersion = \<lparr>v_Major = 0, v_Minor = 0, v_Patch = 0, v_Commit = [], v_PreReleaseIdentifier = [], v_PreReleaseVersion = 0\<rparr>"

section \<open>Comparing\<close>

definition parsePreReleaseIdentifier :: "string \<Rightarrow> int" where
  "parsePreReleaseIdentifier identifier =
     (if hasPrefix identifier ''rc'' then 1
      else if hasPrefix identifier ''beta'' then 2
      else if hasPrefix identifier ''alpha'' then 3
      else 0)"

definition GreaterThan :: "Version \<Rightarrow> Version \<Rightarrow> bool" where
  "GreaterThan v a =
     (if v_Major v > v_Major a then True
      else if v_Major v < v_Major a then False
      else if v_Minor v > v_Minor a then True
      else if v_Minor v < v_Minor a then False
      else if v_Patch v > v_Patch a then True
      else if v_Patch v < v_Patch a then False
      else if v_PreReleaseIdentifier v = [] \<and> v_PreReleaseIdentifier a \<noteq> [] then True
      else if v_PreReleaseIdentifier v \<noteq> [] \<and> v_PreReleaseIdentifier a = [] then False
      else if v_PreReleaseIdentifier v \<noteq> [] \<and> v_PreReleaseIdentifier a \<noteq> []
      then (if v_PreReleaseIdentifier v = v_PreReleaseIdentifier a \<and> v_PreReleaseVersion v > v_PreReleaseVersion a then True
            else if v_PreReleaseIdentifier v = v_PreReleaseIdentifier a \<and> v_PreReleaseVersion v < v_PreReleaseVersion a then False
            else if parsePreReleaseIdentifier (v_PreReleaseIdentifier v) < parsePreReleaseIdentifier (v_PreReleaseIdentifier a) then True
            else False)
      else False)"

definition GreaterThanOrEqual :: "Version \<Rightarrow> Version \<Rightarrow> bool" where
  "GreaterThanOrEqual v a = (v = a \<or> GreaterThan v a)"

definition LessThan :: "Version \<Rightarrow> Version \<Rightarrow> bool" where
  "LessThan v a = (\<not> GreaterThanOrEqual v a)"

definition LessThanOrEqual :: "Version \<Rightarrow> Version \<Rightarrow> bool" where
  "LessThanOrEqual v a = (v = a \<or> GreaterThan a v)"

section \<open>Parsing and printing\<close>

text \<open>
  \<open>strconv.Atoi\<close> with its error ignored: 0 for what is not a number, the nearest 64-bit integer for a number
  out of range.
\<close>

definition atoi :: "string \<Rightarrow> int" where
  "atoi s =
     (let neg = hasPrefix s ''-'';
          ds = (if neg \<or> hasPrefix s ''+'' then tl s else s)
      in if ds = [] \<or> \<not> list_all isDigit ds then 0
         else if neg then max (- (2 ^ 63)) (- int (decimal ds)) else min (2 ^ 63 - 1) (int (decimal ds)))"

definition parseIdentifier :: "string \<Rightarrow> Version \<Rightarrow> Version" where
  "parseIdentifier identifier version =
     (if stringsContains identifier ''.''
      then (case stringsSplit (CHR ''.'') identifier of
              i # n # _ \<Rightarrow> version\<lparr>v_PreReleaseIdentifier := i, v_PreReleaseVersion := atoi n\<rparr>
            | i # _ \<Rightarrow> version\<lparr>v_PreReleaseIdentifier := i\<rparr>
            | [] \<Rightarrow> version)
      else if hasPrefix identifier ''alpha'' then version\<lparr>v_PreReleaseIdentifier := ''alpha'', v_PreReleaseVersion := atoi (drop 5 identifier)\<rparr>
      else if hasPrefix identifier ''beta'' then version\<lparr>v_PreReleaseIdentifier := ''beta'', v_PreReleaseVersion := atoi (drop 4 identifier)\<rparr>
      else version\<lparr>v_Commit := identifier\<rparr>)"

definition parseElements :: "string \<Rightarrow> Version \<Rightarrow> Version" where
  "parseElements versionName version =
     (case stringsSplit (CHR ''.'') versionName of
        [] \<Rightarrow> version
      | [a] \<Rightarrow> version\<lparr>v_Major := atoi a\<rparr>
      | [a, b] \<Rightarrow> version\<lparr>v_Major := atoi a, v_Minor := atoi b\<rparr>
      | a # b # c # _ \<Rightarrow> version\<lparr>v_Major := atoi a, v_Minor := atoi b, v_Patch := atoi c\<rparr>)"

definition version_Parse :: "string \<Rightarrow> Version" where
  "version_Parse name =
     (let versionName = (if hasPrefix name ''v'' then tl name else name)
      in if stringsContains versionName ''-''
         then (case stringsSplit (CHR ''-'') versionName of
                 p # identifier # _ \<Rightarrow> parseElements p (parseIdentifier identifier zeroVersion)
               | _ \<Rightarrow> zeroVersion)
         else parseElements versionName zeroVersion)"

text \<open>\<open>F.ToString\<close> of an integer.\<close>

definition showInt :: "int \<Rightarrow> string" where
  "showInt i = (if i < 0 then ''-'' @ indexText (nat (- i)) else indexText (nat i))"

definition VersionString :: "Version \<Rightarrow> string" where
  "VersionString v = showInt (v_Major v) @ ''.'' @ showInt (v_Minor v) @ ''.'' @ showInt (v_Patch v)"

definition Version_String :: "Version \<Rightarrow> string" where
  "Version_String v =
     (let version = VersionString v
      in if v_PreReleaseIdentifier v \<noteq> [] then version @ ''-'' @ v_PreReleaseIdentifier v @ ''.'' @ showInt (v_PreReleaseVersion v) else version)"

definition BadString :: "Version \<Rightarrow> string" where
  "BadString v =
     (let version = showInt (v_Major v) @ ''.'' @ showInt (v_Minor v);
          version = (if v_Patch v > 0 then version @ ''.'' @ showInt (v_Patch v) else version)
      in if v_PreReleaseIdentifier v \<noteq> []
         then version @ ''-'' @ v_PreReleaseIdentifier v @ (if v_PreReleaseVersion v > 0 then showInt (v_PreReleaseVersion v) else [])
         else version)"

section \<open>Kernels\<close>

record Support =
  su_TLS :: bool
  su_TLS_RX :: bool
  su_TLS_Version13 :: bool
  su_TLS_AES_256_GCM :: bool
  su_TLS_AES_128_CCM :: bool
  su_TLS_CHACHA20_POLY1305 :: bool
  su_TLS_SM4 :: bool
  su_TLS_TX_ZEROCOPY :: bool
  su_TLS_Version13_RX :: bool
  su_TLS_RX_NOPADDING :: bool
  su_TLS_ARIA_GCM :: bool
  su_TLS_Version13_KeyUpdate :: bool

definition release :: "int \<Rightarrow> int \<Rightarrow> Version" where
  "release major minor = zeroVersion\<lparr>v_Major := major, v_Minor := minor\<rparr>"

text \<open>The number of cases that the \<open>switch\<close> with its \<open>fallthrough\<close> executes, from the last one upwards.\<close>

definition supportLevel :: "Version \<Rightarrow> nat" where
  "supportLevel k =
     (if GreaterThanOrEqual k (release 6 14) then 10
      else if GreaterThanOrEqual k (release 6 1) then 9
      else if GreaterThanOrEqual k (release 6 0) then 8
      else if GreaterThanOrEqual k (release 5 19) then 7
      else if GreaterThanOrEqual k (release 5 16) then 6
      else if GreaterThanOrEqual k (release 5 11) then 5
      else if GreaterThanOrEqual k (release 5 2) then 4
      else if GreaterThanOrEqual k (release 5 1) then 3
      else if GreaterThanOrEqual k (release 4 17) then 2
      else if GreaterThanOrEqual k (release 4 13) then 1
      else 0)"

definition kernelSupport :: "string \<Rightarrow> Support" where
  "kernelSupport uname =
     (let level = supportLevel (version_Parse uname)
      in \<lparr>su_TLS = 1 \<le> level, su_TLS_RX = 2 \<le> level, su_TLS_Version13 = 3 \<le> level, su_TLS_AES_256_GCM = 3 \<le> level,
          su_TLS_AES_128_CCM = 4 \<le> level, su_TLS_CHACHA20_POLY1305 = 5 \<le> level, su_TLS_SM4 = 6 \<le> level,
          su_TLS_TX_ZEROCOPY = 7 \<le> level, su_TLS_Version13_RX = 8 \<le> level, su_TLS_RX_NOPADDING = 8 \<le> level,
          su_TLS_ARIA_GCM = 9 \<le> level, su_TLS_Version13_KeyUpdate = 10 \<le> level\<rparr>)"

section \<open>Properties\<close>

text \<open>\<open>GreaterThan\<close> is a strict order.\<close>

theorem GreaterThan_strict_order:
  shows "\<not> GreaterThan v v"
    and "GreaterThan u v \<Longrightarrow> GreaterThan v w \<Longrightarrow> GreaterThan u w"
    and "GreaterThan u v \<Longrightarrow> \<not> GreaterThan v u"
  unfolding GreaterThan_def by (auto split: if_splits)

text \<open>
  It is not total: two versions that differ in their commit only, as two builds do, are each less than
  the other, and a kernel release with a build number is not taken to be its version.
\<close>

theorem builds_are_less_than_each_other:
  assumes "c \<noteq> d"
  shows "LessThan (v\<lparr>v_Commit := c\<rparr>) (v\<lparr>v_Commit := d\<rparr>) \<and> LessThan (v\<lparr>v_Commit := d\<rparr>) (v\<lparr>v_Commit := c\<rparr>)"
  using assms by (cases v) (auto simp: LessThan_def GreaterThanOrEqual_def GreaterThan_def)

theorem kernel_build_misses_support:
  "\<not> su_TLS_Version13_RX (kernelSupport ''6.0.0-6-amd64'') \<and> su_TLS_Version13_RX (kernelSupport ''6.0.0'') \<and>
   su_TLS_Version13_RX (kernelSupport ''6.0.1-6-amd64'')"
  by (simp add: kernelSupport_def supportLevel_def version_Parse_def parseElements_def parseIdentifier_def stringsContains_def
    atoi_def isDigit_def decimal_def release_def zeroVersion_def GreaterThanOrEqual_def GreaterThan_def Let_def)

section \<open>Printing and parsing\<close>

lemma stringsSplit_nonempty: "stringsSplit sep s \<noteq> []"
  by (induction s) (auto split: list.splits)

lemma stringsSplit_none: "sep \<notin> set s \<Longrightarrow> stringsSplit sep s = [s]"
  by (induction s) auto

lemma stringsSplit_append: "sep \<notin> set a \<Longrightarrow> stringsSplit sep (a @ sep # b) = a # stringsSplit sep b"
  using stringsSplit_nonempty [of sep b] by (induction a) (auto split: list.splits)

lemma stringsContains_char: "stringsContains s [c] \<longleftrightarrow> c \<in> set s"
  by (auto simp: stringsContains_iff in_set_conv_decomp)

lemma isDigit_digit: "(n::nat) < 10 \<Longrightarrow> isDigit (char_of (48 + n))"
  by (simp add: isDigit_def of_char_of)

lemma indexText_digits: "list_all isDigit (indexText n) \<and> indexText n \<noteq> []"
proof (induction n rule: indexText.induct)
  case (1 n)
  then show ?case by (subst (1 2) indexText.simps) (simp add: isDigit_digit)
qed

lemma decimal_indexText: "decimal (indexText n) = n"
proof (induction n rule: indexText.induct)
  case (1 n)
  have d: "of_char (char_of (48 + k) :: char) - (48::nat) = k" if "k < 10" for k using that by (simp add: of_char_of)
  have "decimal (s @ [c]) = 10 * decimal s + (of_char c - 48)" for s c by (simp add: decimal_def)
  then show ?case using 1 d [of n] d [of "n mod 10"] by (subst indexText.simps) (simp add: decimal_def)
qed

lemma indexText_separators: "CHR ''.'' \<notin> set (indexText n)" "CHR ''-'' \<notin> set (indexText n)" "CHR ''+'' \<notin> set (indexText n)"
  "CHR ''v'' \<notin> set (indexText n)"
  using indexText_digits [of n] by (auto simp: list_all_iff isDigit_def)

lemma atoi_showInt: "0 \<le> i \<Longrightarrow> i < 2 ^ 63 \<Longrightarrow> atoi (showInt i) = i"
proof -
  assume i: "0 \<le> i" "i < 2 ^ 63"
  obtain c s where s: "indexText (nat i) = c # s" using indexText_digits [of "nat i"] by (cases "indexText (nat i)") auto
  then have "c \<noteq> CHR ''-''" "c \<noteq> CHR ''+''" using indexText_separators(2,3) [of "nat i"] by auto
  then show ?thesis using i s indexText_digits [of "nat i"] decimal_indexText [of "nat i"]
    by (simp add: atoi_def showInt_def Let_def)
qed

definition plainVersion :: "Version \<Rightarrow> bool" where
  "plainVersion v =
     (list_all (\<lambda>i. 0 \<le> i \<and> i < 2 ^ 63) [v_Major v, v_Minor v, v_Patch v, v_PreReleaseVersion v] \<and>
      v_Commit v = [] \<and> CHR ''.'' \<notin> set (v_PreReleaseIdentifier v) \<and> CHR ''-'' \<notin> set (v_PreReleaseIdentifier v) \<and>
      (v_PreReleaseIdentifier v = [] \<longrightarrow> v_PreReleaseVersion v = 0))"

lemma parseElements_VersionString:
  "plainVersion v \<Longrightarrow> parseElements (VersionString v) w = w\<lparr>v_Major := v_Major v, v_Minor := v_Minor v, v_Patch := v_Patch v\<rparr>"
proof -
  assume "plainVersion v"
  then have "0 \<le> v_Major v" "0 \<le> v_Minor v" "0 \<le> v_Patch v" and a: "atoi (showInt (v_Major v)) = v_Major v"
    "atoi (showInt (v_Minor v)) = v_Minor v" "atoi (showInt (v_Patch v)) = v_Patch v"
    by (simp_all add: plainVersion_def atoi_showInt)
  then have "stringsSplit (CHR ''.'') (VersionString v) = [showInt (v_Major v), showInt (v_Minor v), showInt (v_Patch v)]"
    by (simp add: VersionString_def showInt_def stringsSplit_append stringsSplit_none indexText_separators)
  then show ?thesis using a by (simp add: parseElements_def)
qed

text \<open>
  A version is printed so that parsing it gives it back: every version with numbers that are not negative,
  no commit, and an identifier of the pre-release without dots and dashes.
\<close>

theorem version_round_trip:
  assumes "plainVersion v"
  shows "version_Parse (Version_String v) = v"
proof -
  have p: "0 \<le> v_Major v" "0 \<le> v_Minor v" "0 \<le> v_Patch v" "0 \<le> v_PreReleaseVersion v" "v_PreReleaseVersion v < 2 ^ 63"
    "CHR ''.'' \<notin> set (v_PreReleaseIdentifier v)" "CHR ''-'' \<notin> set (v_PreReleaseIdentifier v)" "v_Commit v = []"
    "v_PreReleaseIdentifier v = [] \<Longrightarrow> v_PreReleaseVersion v = 0"
    using assms by (simp_all add: plainVersion_def)
  have dash: "CHR ''-'' \<notin> set (VersionString v)" using p by (simp add: VersionString_def showInt_def indexText_separators)
  obtain c s where "showInt (v_Major v) = c # s" "c \<noteq> CHR ''v''"
    using p(1) indexText_digits [of "nat (v_Major v)"] indexText_separators(4) [of "nat (v_Major v)"]
    by (cases "showInt (v_Major v)") (auto simp: showInt_def)
  then have noV: "\<not> hasPrefix (VersionString v @ x) ''v''" for x by (simp add: VersionString_def)
  show ?thesis
  proof (cases "v_PreReleaseIdentifier v = []")
    case True
    then have "version_Parse (Version_String v) = zeroVersion\<lparr>v_Major := v_Major v, v_Minor := v_Minor v, v_Patch := v_Patch v\<rparr>"
      using dash noV [of "[]"] by (simp add: version_Parse_def Version_String_def stringsContains_char parseElements_VersionString [OF assms])
    also have "\<dots> = v" using True p(8,9) by (cases v) (simp add: zeroVersion_def)
    finally show ?thesis .
  next
    case False
    let ?i = "v_PreReleaseIdentifier v @ CHR ''.'' # showInt (v_PreReleaseVersion v)"
    have s: "stringsSplit (CHR ''-'') (VersionString v @ CHR ''-'' # ?i) = [VersionString v, ?i]"
      using dash p by (simp add: stringsSplit_append stringsSplit_none showInt_def indexText_separators)
    have "stringsSplit (CHR ''.'') ?i = [v_PreReleaseIdentifier v, showInt (v_PreReleaseVersion v)]"
      using p by (simp add: stringsSplit_append stringsSplit_none showInt_def indexText_separators)
    then have "parseIdentifier ?i zeroVersion = zeroVersion\<lparr>v_PreReleaseIdentifier := v_PreReleaseIdentifier v, v_PreReleaseVersion := v_PreReleaseVersion v\<rparr>"
      using p(4,5) by (simp add: parseIdentifier_def stringsContains_char atoi_showInt)
    then have "version_Parse (Version_String v) = zeroVersion\<lparr>v_PreReleaseIdentifier := v_PreReleaseIdentifier v,
        v_PreReleaseVersion := v_PreReleaseVersion v, v_Major := v_Major v, v_Minor := v_Minor v, v_Patch := v_Patch v\<rparr>"
      using False s noV [of "CHR ''-'' # ?i"]
      by (simp add: version_Parse_def Version_String_def stringsContains_char parseElements_VersionString [OF assms] Let_def)
    also have "\<dots> = v" using p(8) by (cases v) (simp add: zeroVersion_def)
    finally show ?thesis .
  qed
qed

end
