(* ===== verification/Ssm.thy ===== *)
theory Ssm
  imports Prelude "HOL-Library.List_Lexorder" "HOL-Library.Char_ord"
begin

text \<open>
  The accounting of the SSM API, \<open>service/ssmapi\<close>: the traffic manager (\<open>traffic.go\<close>), the user manager
  (\<open>user.go\<close>), the handlers (\<open>api.go\<close>) and what is kept in the cache (\<open>cache.go\<close>).

  The counters are shared: a tracked connection keeps pointers to the counters of its user, and goes on
  adding to them whatever becomes of the maps. So they are cells of a store, and the maps hold their
  addresses. A counter has 64 bits and wraps around; it is read as a signed number. The six
  fields that a manager, a user object and a cached endpoint have for the six numbers are one function of
  the kind of number. A Go map is an association list in one of its orders, with no key twice.
\<close>

datatype TrafficKind = Uplink | Downlink | UplinkPackets | DownlinkPackets | TCPSessions | UDPSessions

definition allKinds :: "TrafficKind list" where
  "allKinds = [Uplink, Downlink, UplinkPackets, DownlinkPackets, TCPSessions, UDPSessions]"

datatype Counter = Global TrafficKind | Cell nat

record TrafficManager =
  tr_user :: "TrafficKind \<Rightarrow> (string \<times> nat) list"
  tr_cells :: "Counter \<Rightarrow> u64"
  tr_free :: nat

definition NewTrafficManager :: TrafficManager where
  "NewTrafficManager = \<lparr>tr_user = (\<lambda>_. []), tr_cells = (\<lambda>_. 0), tr_free = 0\<rparr>"

definition storeCounter :: "Counter \<Rightarrow> u64 \<Rightarrow> TrafficManager \<Rightarrow> TrafficManager" where
  "storeCounter c n s = s\<lparr>tr_cells := (tr_cells s)(c := n)\<rparr>"

definition addCounter :: "Counter \<Rightarrow> u64 \<Rightarrow> TrafficManager \<Rightarrow> TrafficManager" where
  "addCounter c n s = storeCounter c (tr_cells s c + n) s"

definition putKey :: "'k \<Rightarrow> 'v \<Rightarrow> ('k \<times> 'v) list \<Rightarrow> ('k \<times> 'v) list" where
  "putKey k v m = filter (\<lambda>e. fst e \<noteq> k) m @ [(k, v)]"

definition TrafficManager_UpdateUsers :: "string list \<Rightarrow> TrafficManager \<Rightarrow> TrafficManager" where
  "TrafficManager_UpdateUsers users s =
     s\<lparr>tr_user := (\<lambda>k. foldl (\<lambda>new user. case map_of (tr_user s k) user of Some counter \<Rightarrow> putKey user counter new | None \<Rightarrow> new) [] users)\<rparr>"

text \<open>A new counter in a map; one of the six lookups of \<open>userCounter\<close>.\<close>

definition newCounter :: "TrafficKind \<Rightarrow> string \<Rightarrow> u64 \<Rightarrow> TrafficManager \<Rightarrow> TrafficManager" where
  "newCounter k user n s =
     s\<lparr>tr_user := (tr_user s)(k := putKey user (tr_free s) (tr_user s k)),
       tr_cells := (tr_cells s)(Cell (tr_free s) := n), tr_free := Suc (tr_free s)\<rparr>"

definition loadCounter :: "string \<Rightarrow> TrafficManager \<Rightarrow> TrafficKind \<Rightarrow> TrafficManager" where
  "loadCounter user s k = (case map_of (tr_user s k) user of Some _ \<Rightarrow> s | None \<Rightarrow> newCounter k user 0 s)"

definition userCounter :: "string \<Rightarrow> TrafficManager \<Rightarrow> TrafficManager" where
  "userCounter user s = foldl (loadCounter user) s allKinds"

text \<open>The counter that \<open>userCounter\<close> returns for a kind: it is in the map by then.\<close>

definition counterOf :: "TrafficManager \<Rightarrow> TrafficKind \<Rightarrow> string \<Rightarrow> Counter" where
  "counterOf s k user = Cell (the (map_of (tr_user s k) user))"

text \<open>A tracked connection: the counters of the bytes and of the packets that are read and written.\<close>

record TrackedConn =
  tc_read :: "Counter list"
  tc_readPackets :: "Counter list"
  tc_write :: "Counter list"
  tc_writePackets :: "Counter list"

definition TrackConnection :: "string \<Rightarrow> TrafficManager \<Rightarrow> TrackedConn \<times> TrafficManager" where
  "TrackConnection user s =
     (let s1 = userCounter user (addCounter (Global TCPSessions) 1 s)
      in (\<lparr>tc_read = [Global Uplink, counterOf s1 Uplink user], tc_readPackets = [],
           tc_write = [Global Downlink, counterOf s1 Downlink user], tc_writePackets = []\<rparr>,
          addCounter (counterOf s1 TCPSessions user) 1 s1))"

definition TrackPacketConnection :: "string \<Rightarrow> TrafficManager \<Rightarrow> TrackedConn \<times> TrafficManager" where
  "TrackPacketConnection user s =
     (let s1 = userCounter user (addCounter (Global UDPSessions) 1 s)
      in (\<lparr>tc_read = [Global Uplink, counterOf s1 Uplink user],
           tc_readPackets = [Global UplinkPackets, counterOf s1 UplinkPackets user],
           tc_write = [Global Downlink, counterOf s1 Downlink user],
           tc_writePackets = [Global DownlinkPackets, counterOf s1 DownlinkPackets user]\<rparr>,
          addCounter (counterOf s1 UDPSessions user) 1 s1))"

text \<open>A number of a user object is left as it is when there is no counter.\<close>

record UserObject =
  uo_UserName :: string
  uo_Password :: string
  uo_counts :: "TrafficKind \<Rightarrow> u64"

definition readCounter :: "bool \<Rightarrow> UserObject \<times> TrafficManager \<Rightarrow> TrafficKind \<Rightarrow> UserObject \<times> TrafficManager" where
  "readCounter swap us k =
     (case us of (user, s) \<Rightarrow>
       (case map_of (tr_user s k) (uo_UserName user) of
          None \<Rightarrow> (user, s)
        | Some a \<Rightarrow>
            (user\<lparr>uo_counts := (uo_counts user)(k := tr_cells s (Cell a))\<rparr>,
             if swap then storeCounter (Cell a) 0 s else s)))"

definition readUser :: "UserObject \<Rightarrow> bool \<Rightarrow> TrafficManager \<Rightarrow> UserObject \<times> TrafficManager" where
  "readUser user swap s = foldl (readCounter swap) (user, s) allKinds"

definition ReadUser :: "UserObject \<Rightarrow> TrafficManager \<Rightarrow> UserObject \<times> TrafficManager" where
  "ReadUser user s = readUser user False s"

fun ReadUsers :: "UserObject list \<Rightarrow> bool \<Rightarrow> TrafficManager \<Rightarrow> UserObject list \<times> TrafficManager" where
  "ReadUsers [] swap s = ([], s)"
| "ReadUsers (u # us) swap s =
     (case readUser u swap s of (u1, s1) \<Rightarrow> case ReadUsers us swap s1 of (us1, s2) \<Rightarrow> (u1 # us1, s2))"

definition ReadGlobal :: "bool \<Rightarrow> TrafficManager \<Rightarrow> (TrafficKind \<Rightarrow> u64) \<times> TrafficManager" where
  "ReadGlobal swap s =
     (\<lambda>k. tr_cells s (Global k), if swap then foldl (\<lambda>t k. storeCounter (Global k) 0 t) s allKinds else s)"

section \<open>Users\<close>

text \<open>
  The users with their passwords; \<open>server\<close> is \<open>UpdateUsers\<close> of the inbound, which may refuse them. The
  traffic manager is part of the state, the only one that has a pointer to it besides is the handlers'.
\<close>

record UserManager =
  um_users :: "(string \<times> string) list"
  um_traffic :: TrafficManager

type_synonym SsmServer = "(string \<times> string) list \<Rightarrow> Error option"

definition NewUserManager :: UserManager where
  "NewUserManager = \<lparr>um_users = [], um_traffic = NewTrafficManager\<rparr>"

definition postUpdate :: "SsmServer \<Rightarrow> bool \<Rightarrow> UserManager \<Rightarrow> Error option \<times> UserManager" where
  "postUpdate server updated m =
     (case server (um_users m) of
        Some err \<Rightarrow> (Some err, m)
      | None \<Rightarrow> (None, if updated then m\<lparr>um_traffic := TrafficManager_UpdateUsers (map fst (um_users m)) (um_traffic m)\<rparr> else m))"

definition UserManager_List :: "UserManager \<Rightarrow> UserObject list" where
  "UserManager_List m = map (\<lambda>(name, password). \<lparr>uo_UserName = name, uo_Password = password, uo_counts = (\<lambda>_. 0)\<rparr>) (um_users m)"

definition UserManager_Add :: "SsmServer \<Rightarrow> string \<Rightarrow> string \<Rightarrow> UserManager \<Rightarrow> Error option \<times> UserManager" where
  "UserManager_Add server username password m =
     (if map_of (um_users m) username \<noteq> None then (Some (E_New [AStr ''user '', AStr username, AStr '' already exists'']), m)
      else postUpdate server True (m\<lparr>um_users := putKey username password (um_users m)\<rparr>))"

definition UserManager_Get :: "string \<Rightarrow> UserManager \<Rightarrow> string option" where
  "UserManager_Get username m = map_of (um_users m) username"

definition UserManager_Update :: "SsmServer \<Rightarrow> string \<Rightarrow> string \<Rightarrow> UserManager \<Rightarrow> Error option \<times> UserManager" where
  "UserManager_Update server username password m = postUpdate server True (m\<lparr>um_users := putKey username password (um_users m)\<rparr>)"

definition UserManager_Delete :: "SsmServer \<Rightarrow> string \<Rightarrow> UserManager \<Rightarrow> Error option \<times> UserManager" where
  "UserManager_Delete server username m = postUpdate server True (m\<lparr>um_users := filter (\<lambda>u. fst u \<noteq> username) (um_users m)\<rparr>)"

section \<open>Handlers\<close>

text \<open>A request body is what decoding it gives; the name is the part of the path it stands in.\<close>

datatype SsmResponse =
    SsmStatus nat
  | SsmText nat Error
  | SsmUser UserObject
  | SsmUsers "UserObject list"
  | SsmStats "TrafficKind \<Rightarrow> u64" "UserObject list"

definition listUser :: "UserManager \<Rightarrow> SsmResponse \<times> UserManager" where
  "listUser m = (SsmUsers (UserManager_List m), m)"

definition addUser :: "SsmServer \<Rightarrow> (string \<times> string) result \<Rightarrow> UserManager \<Rightarrow> SsmResponse \<times> UserManager" where
  "addUser server body m =
     (case body of
        Inl err \<Rightarrow> (SsmText 400 err, m)
      | Inr (name, password) \<Rightarrow>
          (case UserManager_Add server name password m of
             (Some err, m1) \<Rightarrow> (SsmText 400 err, m1)
           | (None, m1) \<Rightarrow> (SsmStatus 201, m1)))"

definition getUser :: "string \<Rightarrow> UserManager \<Rightarrow> SsmResponse \<times> UserManager" where
  "getUser name m =
     (if name = [] then (SsmStatus 400, m)
      else case UserManager_Get name m of
             None \<Rightarrow> (SsmStatus 404, m)
           | Some password \<Rightarrow>
               (case ReadUser \<lparr>uo_UserName = name, uo_Password = password, uo_counts = (\<lambda>_. 0)\<rparr> (um_traffic m) of
                  (user, s) \<Rightarrow> (SsmUser user, m\<lparr>um_traffic := s\<rparr>)))"

definition updateUser :: "SsmServer \<Rightarrow> string \<Rightarrow> string result \<Rightarrow> UserManager \<Rightarrow> SsmResponse \<times> UserManager" where
  "updateUser server name body m =
     (if name = [] then (SsmStatus 400, m)
      else case body of
             Inl err \<Rightarrow> (SsmText 400 err, m)
           | Inr password \<Rightarrow>
               (if UserManager_Get name m = None then (SsmStatus 404, m)
                else case UserManager_Update server name password m of
                       (Some err, m1) \<Rightarrow> (SsmText 400 err, m1)
                     | (None, m1) \<Rightarrow> (SsmStatus 204, m1)))"

definition deleteUser :: "SsmServer \<Rightarrow> string \<Rightarrow> UserManager \<Rightarrow> SsmResponse \<times> UserManager" where
  "deleteUser server name m =
     (if name = [] then (SsmStatus 400, m)
      else if UserManager_Get name m = None then (SsmStatus 404, m)
      else case UserManager_Delete server name m of
             (Some err, m1) \<Rightarrow> (SsmText 400 err, m1)
           | (None, m1) \<Rightarrow> (SsmStatus 204, m1))"

definition getStats :: "string \<Rightarrow> UserManager \<Rightarrow> SsmResponse \<times> UserManager" where
  "getStats clear m =
     (let requireClear = (clear = ''true'')
      in case ReadUsers (UserManager_List m) requireClear (um_traffic m) of (users, s) \<Rightarrow>
         case ReadGlobal requireClear s of (totals, s1) \<Rightarrow>
           (SsmStats totals (map (\<lambda>u. u\<lparr>uo_Password := []\<rparr>) users), m\<lparr>um_traffic := s1\<rparr>))"

section \<open>Cache\<close>

text \<open>
  The service has a traffic and a user manager for every endpoint, under the same key. The file holds the
  JSON of the endpoints, which \<open>marshal\<close> and \<open>unmarshal\<close> stand for.
\<close>

record EndpointCache =
  ec_Global :: "TrafficKind \<Rightarrow> u64"
  ec_User :: "TrafficKind \<Rightarrow> (string \<times> u64) list"
  ec_Users :: "(string \<times> string) list"

type_synonym SsmCache = "(string \<times> EndpointCache) list"

record SsmService =
  ss_endpoints :: "(string \<times> UserManager) list"
  ss_cachePath :: string
  ss_lastSavedCache :: "8 word list"

definition sortTypedMap :: "(string \<times> 'v) list \<Rightarrow> (string \<times> 'v) list" where
  "sortTypedMap m = foldl (\<lambda>sorted key. case map_of m key of Some v \<Rightarrow> putKey key v sorted | None \<Rightarrow> sorted) [] (sort (map fst m))"

definition encodeEndpoint :: "UserManager \<Rightarrow> EndpointCache" where
  "encodeEndpoint m =
     (let s = um_traffic m
      in \<lparr>ec_Global = (\<lambda>k. tr_cells s (Global k)),
          ec_User = (\<lambda>k. sortTypedMap (foldl (\<lambda>t (user, a). if sint (tr_cells s (Cell a)) > 0 then putKey user (tr_cells s (Cell a)) t else t) [] (tr_user s k))),
          ec_Users = sortTypedMap (foldl (\<lambda>t (name, password). if name \<noteq> [] \<and> password \<noteq> [] then putKey name password t else t) [] (um_users m))\<rparr>)"

definition cacheOf :: "SsmService \<Rightarrow> SsmCache" where
  "cacheOf v = sortTypedMap (map (\<lambda>(tag, m). (tag, encodeEndpoint m)) (ss_endpoints v))"

definition encodeCache :: "(SsmCache \<Rightarrow> 8 word list) \<Rightarrow> SsmService \<Rightarrow> 8 word list" where
  "encodeCache marshal v = marshal (cacheOf v)"

definition typedAtomicInt64Map :: "TrafficKind \<Rightarrow> (string \<times> u64) list \<Rightarrow> TrafficManager \<Rightarrow> TrafficManager" where
  "typedAtomicInt64Map k entries s =
     foldl (\<lambda>t (user, n). newCounter k user n t) (s\<lparr>tr_user := (tr_user s)(k := [])\<rparr>) entries"

definition decodeEndpoint :: "SsmServer \<Rightarrow> EndpointCache \<Rightarrow> UserManager \<Rightarrow> UserManager" where
  "decodeEndpoint server c m =
     (let s1 = foldl (\<lambda>s k. storeCounter (Global k) (ec_Global c k) s) (um_traffic m) allKinds;
          s2 = foldl (\<lambda>s k. typedAtomicInt64Map k (ec_User c k) s) s1 allKinds
      in snd (postUpdate server False \<lparr>um_users = foldl (\<lambda>t (name, password). putKey name password t) [] (ec_Users c), um_traffic = s2\<rparr>))"

definition decodeEntry :: "(string \<Rightarrow> SsmServer) \<Rightarrow> SsmService \<Rightarrow> string \<times> EndpointCache \<Rightarrow> SsmService" where
  "decodeEntry servers v e =
     v\<lparr>ss_endpoints := map (\<lambda>(tag, m). (tag, if tag = fst e then decodeEndpoint (servers tag) (snd e) m else m)) (ss_endpoints v)\<rparr>"

definition decodeCache :: "(8 word list \<Rightarrow> SsmCache result) \<Rightarrow> (string \<Rightarrow> SsmServer) \<Rightarrow> 8 word list \<Rightarrow> SsmService \<Rightarrow> Error option \<times> SsmService" where
  "decodeCache unmarshal servers cacheBinary v =
     (if cacheBinary = [] then (None, v)
      else case unmarshal cacheBinary of
             Inl err \<Rightarrow> (Some err, v)
           | Inr cache \<Rightarrow> (None, foldl (decodeEntry servers) v cache))"

text \<open>The file at the path of the cache: what reading it gives, and what is in it afterwards.\<close>

datatype SsmFile = SsmNoFile | SsmUnreadable Error | SsmContent "8 word list"

definition loadCache :: "(8 word list \<Rightarrow> SsmCache result) \<Rightarrow> (string \<Rightarrow> SsmServer) \<Rightarrow> SsmFile \<Rightarrow> SsmService \<Rightarrow> Error option \<times> SsmFile \<times> SsmService" where
  "loadCache unmarshal servers f v =
     (if ss_cachePath v = [] then (None, f, v)
      else case f of
             SsmNoFile \<Rightarrow> (None, f, v)
           | SsmUnreadable err \<Rightarrow> (Some err, f, v)
           | SsmContent cacheBinary \<Rightarrow>
               (case decodeCache unmarshal servers cacheBinary v of
                  (Some err, v1) \<Rightarrow> (Some err, SsmNoFile, v1)
                | (None, v1) \<Rightarrow> (None, f, v1\<lparr>ss_lastSavedCache := cacheBinary\<rparr>)))"

text \<open>\<open>write\<close> is what making the directory and writing the file gives; a failure leaves the file as it was.\<close>

definition saveCache :: "(SsmCache \<Rightarrow> 8 word list) \<Rightarrow> Error option \<Rightarrow> SsmFile \<Rightarrow> SsmService \<Rightarrow> Error option \<times> SsmFile \<times> SsmService" where
  "saveCache marshal write f v =
     (if ss_cachePath v = [] then (None, f, v)
      else let cacheBinary = encodeCache marshal v
           in if ss_lastSavedCache v = cacheBinary then (None, f, v)
              else case write of
                     Some err \<Rightarrow> (Some err, f, v)
                   | None \<Rightarrow> (None, SsmContent cacheBinary, v\<lparr>ss_lastSavedCache := cacheBinary\<rparr>))"

end
