(* ===== verification/Ssm_Props.thy ===== *)
theory Ssm_Props
  imports Ssm
begin

text \<open>
  The SSM API keeps a ledger: what it reports for a user, and in total, is what a table of numbers by user
  and kind would hold, however the operations are ordered and whatever pointers the connections keep. And
  the numbers and the users survive a restart through the cache file.
\<close>

section \<open>Maps\<close>

lemma map_of_filter_key: "map_of (filter (\<lambda>e. fst e \<noteq> k) m) = (map_of m)(k := None)"
  by (induction m) auto

lemma map_of_putKey [simp]: "map_of (putKey k v m) = (map_of m)(k \<mapsto> v)"
  by (auto simp: putKey_def map_of_filter_key map_add_def fun_eq_iff split: option.splits)

lemma distinct_putKey [simp]: "distinct (map fst m) \<Longrightarrow> distinct (map fst (putKey k v m))"
  by (auto simp: putKey_def distinct_map_filter)

lemma map_of_foldl_putKey:
  "map_of (foldl (\<lambda>new user. case f user of Some c \<Rightarrow> putKey user c new | None \<Rightarrow> new) t users)
   = (\<lambda>u. if u \<in> set users \<and> f u \<noteq> None then f u else map_of t u)"
  by (induction users arbitrary: t) (auto simp: fun_eq_iff split: option.splits)

lemma distinct_foldl_putKey:
  "distinct (map fst t) \<Longrightarrow>
   distinct (map fst (foldl (\<lambda>new user. case f user of Some c \<Rightarrow> putKey user c new | None \<Rightarrow> new) t users))"
  by (induction users arbitrary: t) (auto split: option.splits)

lemma map_of_sortTypedMap [simp]: "map_of (sortTypedMap m) = map_of m"
proof -
  have "map_of m u = None" if "u \<notin> fst ` set m" for u
    using that by (simp add: map_of_eq_None_iff)
  then show ?thesis
    unfolding sortTypedMap_def map_of_foldl_putKey by (force simp: fun_eq_iff)
qed

section \<open>Environment\<close>

text \<open>
  The connections that count belong to the library. They are the parameter \<open>counting\<close>: what the counters hold
  after a connection with the given counters of bytes and of packets has read or written \<open>n\<close> bytes. The
  program relies on it that every counter of bytes gets the length, and every counter of packets gets one.
\<close>

type_synonym Counting = "Counter list \<Rightarrow> Counter list \<Rightarrow> nat \<Rightarrow> (Counter \<Rightarrow> u64) \<Rightarrow> Counter \<Rightarrow> u64"

definition countsTraffic :: "Counting \<Rightarrow> bool" where
  "countsTraffic counting \<longleftrightarrow>
     (\<forall>bs packets n cells c. counting bs packets n cells c =
        cells c + word_of_nat (count_list bs c) * word_of_nat n + word_of_nat (count_list packets c))"

definition countRead :: "Counting \<Rightarrow> TrackedConn \<Rightarrow> nat \<Rightarrow> TrafficManager \<Rightarrow> TrafficManager" where
  "countRead counting c n s = s\<lparr>tr_cells := counting (tc_read c) (tc_readPackets c) n (tr_cells s)\<rparr>"

definition countWrite :: "Counting \<Rightarrow> TrackedConn \<Rightarrow> nat \<Rightarrow> TrafficManager \<Rightarrow> TrafficManager" where
  "countWrite counting c n s = s\<lparr>tr_cells := counting (tc_write c) (tc_writePackets c) n (tr_cells s)\<rparr>"

text \<open>Counting comes to adding to one counter after the other.\<close>

definition countAll :: "Counter list \<Rightarrow> Counter list \<Rightarrow> nat \<Rightarrow> TrafficManager \<Rightarrow> TrafficManager" where
  "countAll bs packets n s = foldl (\<lambda>t c. addCounter c 1 t) (foldl (\<lambda>t c. addCounter c (word_of_nat n) t) s bs) packets"

lemma foldl_addCounter:
  "foldl (\<lambda>t c. addCounter c m t) s cs = s\<lparr>tr_cells := (\<lambda>c. tr_cells s c + word_of_nat (count_list cs c) * m)\<rparr>"
  by (induction cs arbitrary: s) (auto simp: addCounter_def storeCounter_def fun_eq_iff algebra_simps)

lemma counting_countAll:
  "countsTraffic counting \<Longrightarrow> s\<lparr>tr_cells := counting bs packets n (tr_cells s)\<rparr> = countAll bs packets n s"
  by (simp add: countsTraffic_def countAll_def foldl_addCounter fun_eq_iff)

section \<open>Specification\<close>

text \<open>The connections that are tracked, by number, and the steps of the traffic manager.\<close>

record SsmRun =
  sr_traffic :: TrafficManager
  sr_conns :: "nat \<rightharpoonup> TrackedConn"

datatype SsmStep =
    DoTrack nat string
  | DoTrackPacket nat string
  | DidRead nat nat
  | DidWrite nat nat
  | DoUpdateUsers "string list"
  | DoReadUser UserObject bool
  | DoReadGlobal bool

definition ssmStep :: "Counting \<Rightarrow> SsmRun \<Rightarrow> SsmStep \<Rightarrow> SsmRun" where
  "ssmStep counting r st =
     (case st of
        DoTrack i user \<Rightarrow>
          (if sr_conns r i = None
           then let (c, s) = TrackConnection user (sr_traffic r) in \<lparr>sr_traffic = s, sr_conns = (sr_conns r)(i \<mapsto> c)\<rparr> else r)
      | DoTrackPacket i user \<Rightarrow>
          (if sr_conns r i = None
           then let (c, s) = TrackPacketConnection user (sr_traffic r) in \<lparr>sr_traffic = s, sr_conns = (sr_conns r)(i \<mapsto> c)\<rparr> else r)
      | DidRead i n \<Rightarrow> (case sr_conns r i of Some c \<Rightarrow> r\<lparr>sr_traffic := countRead counting c n (sr_traffic r)\<rparr> | None \<Rightarrow> r)
      | DidWrite i n \<Rightarrow> (case sr_conns r i of Some c \<Rightarrow> r\<lparr>sr_traffic := countWrite counting c n (sr_traffic r)\<rparr> | None \<Rightarrow> r)
      | DoUpdateUsers users \<Rightarrow> r\<lparr>sr_traffic := TrafficManager_UpdateUsers users (sr_traffic r)\<rparr>
      | DoReadUser user swap \<Rightarrow> r\<lparr>sr_traffic := snd (readUser user swap (sr_traffic r))\<rparr>
      | DoReadGlobal swap \<Rightarrow> r\<lparr>sr_traffic := snd (ReadGlobal swap (sr_traffic r))\<rparr>)"

definition ssmStart :: SsmRun where
  "ssmStart = \<lparr>sr_traffic = NewTrafficManager, sr_conns = Map.empty\<rparr>"

text \<open>
  The ledger: the numbers, as integers, that are to be reported for every user and in total. A connection belongs to its
  user until the user is removed; from then on its traffic is nobody's, and counts in the total only.
\<close>

record Ledger =
  ld_user :: "string \<Rightarrow> TrafficKind \<Rightarrow> int"
  ld_total :: "TrafficKind \<Rightarrow> int"
  ld_conns :: "nat \<rightharpoonup> bool \<times> string option"

definition ledgerStart :: Ledger where
  "ledgerStart = \<lparr>ld_user = (\<lambda>_ _. 0), ld_total = (\<lambda>_. 0), ld_conns = Map.empty\<rparr>"

definition credit :: "string option \<Rightarrow> TrafficKind \<Rightarrow> int \<Rightarrow> Ledger \<Rightarrow> Ledger" where
  "credit owner k n l =
     l\<lparr>ld_total := (ld_total l)(k := ld_total l k + n),
       ld_user := (\<lambda>u k1. ld_user l u k1 + (if owner = Some u \<and> k1 = k then n else 0))\<rparr>"

definition creditConn :: "nat \<Rightarrow> TrafficKind \<Rightarrow> TrafficKind \<Rightarrow> int \<Rightarrow> Ledger \<Rightarrow> Ledger" where
  "creditConn i kb kp n l =
     (case ld_conns l i of
        None \<Rightarrow> l
      | Some (packet, owner) \<Rightarrow> if packet then credit owner kp 1 (credit owner kb n l) else credit owner kb n l)"

definition openConn :: "nat \<Rightarrow> bool \<Rightarrow> string \<Rightarrow> Ledger \<Rightarrow> Ledger" where
  "openConn i packet user l =
     (if ld_conns l i \<noteq> None then l
      else credit (Some user) (if packet then UDPSessions else TCPSessions) 1 (l\<lparr>ld_conns := (ld_conns l)(i \<mapsto> (packet, Some user))\<rparr>))"

definition keepOwner :: "string list \<Rightarrow> string option \<Rightarrow> string option" where
  "keepOwner users owner = (case owner of Some u \<Rightarrow> if u \<in> set users then Some u else None | None \<Rightarrow> None)"

definition ledgerStep :: "Ledger \<Rightarrow> SsmStep \<Rightarrow> Ledger" where
  "ledgerStep l st =
     (case st of
        DoTrack i user \<Rightarrow> openConn i False user l
      | DoTrackPacket i user \<Rightarrow> openConn i True user l
      | DidRead i n \<Rightarrow> creditConn i Uplink UplinkPackets (int n) l
      | DidWrite i n \<Rightarrow> creditConn i Downlink DownlinkPackets (int n) l
      | DoUpdateUsers users \<Rightarrow>
          l\<lparr>ld_user := (\<lambda>u k. if u \<in> set users then ld_user l u k else 0),
            ld_conns := (\<lambda>i. map_option (\<lambda>(packet, owner). (packet, keepOwner users owner)) (ld_conns l i))\<rparr>
      | DoReadUser user swap \<Rightarrow> if swap then l\<lparr>ld_user := (ld_user l)(uo_UserName user := (\<lambda>_. 0))\<rparr> else l
      | DoReadGlobal swap \<Rightarrow> if swap then l\<lparr>ld_total := (\<lambda>_. 0)\<rparr> else l)"

section \<open>Simulation\<close>

text \<open>
  The relation between the two: no two entries of the maps share a counter, the numbers agree, and the
  counters of a connection are the ones of its owner, or no one's.
\<close>

definition countersOk :: "TrafficManager \<Rightarrow> bool" where
  "countersOk s \<longleftrightarrow>
     (\<forall>k u a. map_of (tr_user s k) u = Some a \<longrightarrow> a < tr_free s \<and>
        (\<forall>k1 u1. map_of (tr_user s k1) u1 = Some a \<longrightarrow> k1 = k \<and> u1 = u))"

definition userNumber :: "TrafficManager \<Rightarrow> string \<Rightarrow> TrafficKind \<Rightarrow> u64" where
  "userNumber s u k = (case map_of (tr_user s k) u of Some a \<Rightarrow> tr_cells s (Cell a) | None \<Rightarrow> 0)"

definition numbersAgree :: "TrafficManager \<Rightarrow> Ledger \<Rightarrow> bool" where
  "numbersAgree s l \<longleftrightarrow> (\<forall>u k. userNumber s u k = word_of_int (ld_user l u k)) \<and> (\<forall>k. tr_cells s (Global k) = word_of_int (ld_total l k))"

definition connOf :: "bool \<Rightarrow> (TrafficKind \<Rightarrow> nat) \<Rightarrow> TrackedConn" where
  "connOf packet f =
     \<lparr>tc_read = [Global Uplink, Cell (f Uplink)],
      tc_readPackets = (if packet then [Global UplinkPackets, Cell (f UplinkPackets)] else []),
      tc_write = [Global Downlink, Cell (f Downlink)],
      tc_writePackets = (if packet then [Global DownlinkPackets, Cell (f DownlinkPackets)] else [])\<rparr>"

definition heldBy :: "TrafficManager \<Rightarrow> string option \<Rightarrow> TrafficKind \<Rightarrow> nat \<Rightarrow> bool" where
  "heldBy s owner k a \<longleftrightarrow> a < tr_free s \<and> (\<forall>k1 u. map_of (tr_user s k1) u = Some a \<longleftrightarrow> owner = Some u \<and> k1 = k)"

definition connAgrees :: "TrafficManager \<Rightarrow> bool \<times> string option \<Rightarrow> TrackedConn \<Rightarrow> bool" where
  "connAgrees s p c \<longleftrightarrow> (\<exists>f. c = connOf (fst p) f \<and> (\<forall>k. heldBy s (snd p) k (f k)))"

definition ssmAgree :: "SsmRun \<Rightarrow> Ledger \<Rightarrow> bool" where
  "ssmAgree r l \<longleftrightarrow>
     countersOk (sr_traffic r) \<and> numbersAgree (sr_traffic r) l \<and>
     (\<forall>i. rel_option (\<lambda>c p. connAgrees (sr_traffic r) p c) (sr_conns r i) (ld_conns l i))"

lemma counter_frame [simp]:
  "tr_user (addCounter c n s) = tr_user s"
  "tr_free (addCounter c n s) = tr_free s"
  "tr_user (storeCounter c n s) = tr_user s"
  "tr_free (storeCounter c n s) = tr_free s"
  "tr_cells (storeCounter c n s) = (tr_cells s)(c := n)"
  by (simp_all add: addCounter_def storeCounter_def)

lemma same_maps:
  assumes "tr_user t = tr_user s" and "tr_free t = tr_free s"
  shows "countersOk t = countersOk s" and "heldBy t = heldBy s" and "connAgrees t = connAgrees s"
proof -
  show "countersOk t = countersOk s" using assms by (simp add: countersOk_def)
  show h: "heldBy t = heldBy s" using assms by (simp add: heldBy_def fun_eq_iff)
  show "connAgrees t = connAgrees s" by (simp add: connAgrees_def h fun_eq_iff)
qed

lemmas counter_maps [simp] = same_maps [OF counter_frame(1,2)] same_maps [OF counter_frame(3,4)]

subsection \<open>Adding\<close>

lemma add_both:
  assumes "numbersAgree s l" and "heldBy s owner k a"
  shows "numbersAgree (addCounter (Cell a) (word_of_int n) (addCounter (Global k) (word_of_int n) s)) (credit owner k n l)"
proof -
  let ?t = "addCounter (Cell a) (word_of_int n) (addCounter (Global k) (word_of_int n) s)"
  have "userNumber ?t u k1 = word_of_int (ld_user (credit owner k n l) u k1)" for u k1
  proof -
    have "map_of (tr_user s k1) u = Some a \<longleftrightarrow> owner = Some u \<and> k1 = k"
      using assms(2) by (simp add: heldBy_def)
    moreover have "userNumber s u k1 = word_of_int (ld_user l u k1)"
      using assms(1) by (simp add: numbersAgree_def)
    ultimately show ?thesis
      by (cases "map_of (tr_user s k1) u") (auto simp: userNumber_def credit_def addCounter_def storeCounter_def)
  qed
  then show ?thesis
    using assms(1) by (auto simp: numbersAgree_def credit_def addCounter_def storeCounter_def)
qed

lemma credit_conns [simp]: "ld_conns (credit owner k n l) = ld_conns l"
  by (simp add: credit_def)


lemma countAll_agrees:
  assumes "numbersAgree s l" and "heldBy s owner kb a" and "heldBy s owner kp b"
  shows "numbersAgree (countAll [Global kb, Cell a] (if packet then [Global kp, Cell b] else []) n s)
           (if packet then credit owner kp 1 (credit owner kb (int n) l) else credit owner kb (int n) l)"
  using add_both [OF assms(1,2), of "int n"]
    add_both [OF add_both [OF assms(1,2), of "int n"], of owner kp b 1] assms(3)
  by (simp add: countAll_def)

lemma countAll_maps [simp]:
  "tr_user (countAll bs ps n s) = tr_user s" "tr_free (countAll bs ps n s) = tr_free s"
proof -
  have "tr_user (foldl (\<lambda>t c. addCounter c m t) t cs) = tr_user t \<and> tr_free (foldl (\<lambda>t c. addCounter c m t) t cs) = tr_free t"
    for m t cs by (induction cs arbitrary: t) simp_all
  then show "tr_user (countAll bs ps n s) = tr_user s" "tr_free (countAll bs ps n s) = tr_free s"
    by (simp_all add: countAll_def)
qed

lemmas countAll_same [simp] = same_maps [OF countAll_maps]

subsection \<open>Looking up\<close>

lemma newCounter_keeps:
  assumes "countersOk s" and "map_of (tr_user s k) user = None"
  shows "countersOk (newCounter k user 0 s)"
    and "userNumber (newCounter k user 0 s) = userNumber s"
    and "heldBy s owner k1 a \<Longrightarrow> heldBy (newCounter k user 0 s) owner k1 a"
proof -
  show "countersOk (newCounter k user 0 s)"
    using assms unfolding countersOk_def newCounter_def
    by (auto simp: less_Suc_eq split: if_splits)
  show "userNumber (newCounter k user 0 s) = userNumber s"
    using assms unfolding countersOk_def
    by (auto simp: userNumber_def newCounter_def fun_eq_iff split: option.splits)
  show "heldBy (newCounter k user 0 s) owner k1 a" if "heldBy s owner k1 a"
  proof -
    let ?t = "newCounter k user 0 s"
    have a: "a < tr_free s" and h: "\<And>k2 u. map_of (tr_user s k2) u = Some a \<longleftrightarrow> owner = Some u \<and> k2 = k1"
      using that by (simp_all add: heldBy_def)
    have "\<not> (owner = Some user \<and> k = k1)" using h [of k user] assms(2) by simp
    moreover have "map_of (tr_user ?t k2) u = (if k2 = k \<and> u = user then Some (tr_free s) else map_of (tr_user s k2) u)" for k2 u
      by (simp add: newCounter_def)
    ultimately have "map_of (tr_user ?t k2) u = Some a \<longleftrightarrow> owner = Some u \<and> k2 = k1" for k2 u
      using a h [of k2 u] by auto
    then show ?thesis using a by (simp add: heldBy_def newCounter_def)
  qed
qed

lemma loadCounter_keeps:
  assumes "countersOk s"
  shows "countersOk (loadCounter user s k)"
    and "userNumber (loadCounter user s k) = userNumber s"
    and "heldBy s owner k1 a \<Longrightarrow> heldBy (loadCounter user s k) owner k1 a"
    and "tr_cells (loadCounter user s k) (Global k2) = tr_cells s (Global k2)"
    and "map_of (tr_user (loadCounter user s k) k) user \<noteq> None"
    and "map_of (tr_user s k3) user \<noteq> None \<Longrightarrow> map_of (tr_user (loadCounter user s k) k3) user \<noteq> None"
  using newCounter_keeps [OF assms] assms
  by (auto simp: loadCounter_def newCounter_def split: option.splits)

lemma loadCounters_keep:
  assumes "countersOk s"
  shows "countersOk (foldl (loadCounter user) s ks)"
    and "userNumber (foldl (loadCounter user) s ks) = userNumber s"
    and "heldBy s owner k1 a \<Longrightarrow> heldBy (foldl (loadCounter user) s ks) owner k1 a"
    and "tr_cells (foldl (loadCounter user) s ks) (Global k2) = tr_cells s (Global k2)"
    and "k3 \<in> set ks \<or> map_of (tr_user s k3) user \<noteq> None \<Longrightarrow> map_of (tr_user (foldl (loadCounter user) s ks) k3) user \<noteq> None"
proof -
  show "countersOk (foldl (loadCounter user) s ks)"
    using assms by (induction ks arbitrary: s) (simp_all add: loadCounter_keeps(1))
  show "userNumber (foldl (loadCounter user) s ks) = userNumber s"
    using assms by (induction ks arbitrary: s) (simp_all add: loadCounter_keeps(1,2))
  show "heldBy s owner k1 a \<Longrightarrow> heldBy (foldl (loadCounter user) s ks) owner k1 a"
    using assms by (induction ks arbitrary: s) (simp_all add: loadCounter_keeps(1,3))
  show "tr_cells (foldl (loadCounter user) s ks) (Global k2) = tr_cells s (Global k2)"
    using assms by (induction ks arbitrary: s) (simp_all add: loadCounter_keeps(1,4))
  show "map_of (tr_user (foldl (loadCounter user) s ks) k3) user \<noteq> None" if "k3 \<in> set ks \<or> map_of (tr_user s k3) user \<noteq> None"
    using assms that
  proof (induction ks arbitrary: s)
    case (Cons k ks)
    then show ?case using loadCounter_keeps(1,5,6) [OF Cons.prems(1)] by (cases "k3 = k") auto
  qed simp
qed

lemma allKinds_all [simp]: "k \<in> set allKinds"
  by (cases k) (simp_all add: allKinds_def)

lemma userCounter_keeps:
  assumes "countersOk s"
  shows "countersOk (userCounter user s)"
    and "numbersAgree (userCounter user s) l = numbersAgree s l"
    and "connAgrees s p c \<Longrightarrow> connAgrees (userCounter user s) p c"
    and "\<exists>f. \<forall>k. counterOf (userCounter user s) k user = Cell (f k) \<and> heldBy (userCounter user s) (Some user) k (f k)"
proof -
  note l = loadCounters_keep [OF assms, where user = user and ks = allKinds, folded userCounter_def]
  show ok: "countersOk (userCounter user s)" by (rule l(1))
  show "numbersAgree (userCounter user s) l = numbersAgree s l" by (simp add: numbersAgree_def l(2,4))
  show "connAgrees s p c \<Longrightarrow> connAgrees (userCounter user s) p c" by (auto simp: connAgrees_def l(3))
  have "heldBy (userCounter user s) (Some user) k (the (map_of (tr_user (userCounter user s) k) user))" for k
  proof -
    obtain a where a: "map_of (tr_user (userCounter user s) k) user = Some a" using l(5) [of k] by auto
    with ok have "a < tr_free (userCounter user s)"
      and "map_of (tr_user (userCounter user s) k1) u1 = Some a \<longleftrightarrow> Some user = Some u1 \<and> k1 = k" for k1 u1
      unfolding countersOk_def by blast+
    then show ?thesis unfolding heldBy_def a by simp
  qed
  then show "\<exists>f. \<forall>k. counterOf (userCounter user s) k user = Cell (f k) \<and> heldBy (userCounter user s) (Some user) k (f k)"
    unfolding counterOf_def by (intro exI [of _ "\<lambda>k. the (map_of (tr_user (userCounter user s) k) user)"]) simp
qed

lemma addCounter_commute:
  "addCounter (Cell a) m (addCounter (Global k) n s) = addCounter (Global k) n (addCounter (Cell a) m s)"
  by (simp add: addCounter_def storeCounter_def fun_upd_twist)

lemma userCounter_global: "userCounter user (addCounter (Global k) n s) = addCounter (Global k) n (userCounter user s)"
proof -
  have "loadCounter user (addCounter (Global k) n t) k1 = addCounter (Global k) n (loadCounter user t k1)" for t k1
    by (auto simp: loadCounter_def newCounter_def addCounter_def storeCounter_def fun_upd_twist split: option.split)
  then have "foldl (loadCounter user) (addCounter (Global k) n t) ks = addCounter (Global k) n (foldl (loadCounter user) t ks)" for t ks
    by (induction ks arbitrary: t) simp_all
  then show ?thesis by (simp add: userCounter_def)
qed

text \<open>Opening a connection of either sort.\<close>

definition trackConn :: "bool \<Rightarrow> string \<Rightarrow> TrafficManager \<Rightarrow> TrackedConn \<times> TrafficManager" where
  "trackConn packet user s = (if packet then TrackPacketConnection user s else TrackConnection user s)"

lemma trackConn_agrees:
  assumes "ssmAgree r l" and "sr_conns r i = None" and "trackConn packet user (sr_traffic r) = (c, s)"
  shows "ssmAgree \<lparr>sr_traffic = s, sr_conns = (sr_conns r)(i \<mapsto> c)\<rparr> (openConn i packet user l)"
proof -
  let ?k = "if packet then UDPSessions else TCPSessions" and ?s1 = "userCounter user (sr_traffic r)"
  let ?l = "l\<lparr>ld_conns := (ld_conns l)(i \<mapsto> (packet, Some user))\<rparr>"
  have ok: "countersOk (sr_traffic r)" and n: "numbersAgree (sr_traffic r) l"
    and cs: "\<And>j. rel_option (\<lambda>c p. connAgrees (sr_traffic r) p c) (sr_conns r j) (ld_conns l j)"
    using assms(1) by (simp_all add: ssmAgree_def)
  note u = userCounter_keeps [OF ok, where user = user]
  obtain f where f: "\<And>k. counterOf ?s1 k user = Cell (f k)" "\<And>k. heldBy ?s1 (Some user) k (f k)" using u(4) by blast
  have co: "counterOf (addCounter (Global k) 1 ?s1) k1 user = Cell (f k1)" for k k1 using f(1) by (simp add: counterOf_def)
  have c: "c = connOf packet f" and s: "s = addCounter (Cell (f ?k)) 1 (addCounter (Global ?k) 1 ?s1)"
    using assms(3) co
    by (auto simp: trackConn_def TrackConnection_def TrackPacketConnection_def Let_def connOf_def userCounter_global split: if_splits)
  have "ld_conns l i = None" using cs [of i] assms(2) by simp
  moreover have "numbersAgree s (credit (Some user) ?k 1 ?l)"
    unfolding s by (rule add_both [where n = 1, simplified]) (use n u(2) f(2) in \<open>simp_all add: numbersAgree_def\<close>)
  moreover have "connAgrees s (packet, Some user) c" unfolding s c by (auto simp: connAgrees_def intro: f(2))
  moreover have "rel_option (\<lambda>c p. connAgrees s p c) (sr_conns r j) (ld_conns l j)" for j
    using cs [of j] u(3) unfolding s by (auto elim!: option.rel_cases)
  moreover have "countersOk s" using u(1) by (simp add: s)
  ultimately show ?thesis by (simp add: ssmAgree_def openConn_def)
qed

lemma count_agrees:
  assumes "ssmAgree r l" and "sr_conns r i = Some c"
    and "\<And>packet f. c = connOf packet f \<Longrightarrow> s = countAll [Global kb, Cell (f kb)] (if packet then [Global kp, Cell (f kp)] else []) n (sr_traffic r)"
  shows "ssmAgree (r\<lparr>sr_traffic := s\<rparr>) (creditConn i kb kp (int n) l)"
proof -
  have n: "numbersAgree (sr_traffic r) l" and ok: "countersOk (sr_traffic r)"
    and cs: "\<And>j. rel_option (\<lambda>c p. connAgrees (sr_traffic r) p c) (sr_conns r j) (ld_conns l j)"
    using assms(1) by (simp_all add: ssmAgree_def)
  obtain packet owner where p: "ld_conns l i = Some (packet, owner)" and ca: "connAgrees (sr_traffic r) (packet, owner) c"
    using cs [of i] assms(2) by (auto simp: option_rel_Some1)
  obtain f where f: "c = connOf packet f" "\<And>k. heldBy (sr_traffic r) owner k (f k)" using ca by (auto simp: connAgrees_def)
  have "ld_conns (creditConn i kb kp (int n) l) = ld_conns l" by (simp add: creditConn_def split: option.split)
  then show ?thesis
    using countAll_agrees [OF n f(2) f(2), where kb = kb and kp = kp and packet = packet and n = n] p ok cs
    by (simp add: ssmAgree_def assms(3) [OF f(1)] creditConn_def)
qed


subsection \<open>Users\<close>

lemma map_of_UpdateUsers:
  "map_of (tr_user (TrafficManager_UpdateUsers users s) k) u = (if u \<in> set users then map_of (tr_user s k) u else None)"
  by (simp add: TrafficManager_UpdateUsers_def map_of_foldl_putKey)

lemma UpdateUsers_frame [simp]:
  "tr_cells (TrafficManager_UpdateUsers users s) = tr_cells s" "tr_free (TrafficManager_UpdateUsers users s) = tr_free s"
  by (simp_all add: TrafficManager_UpdateUsers_def)

lemma heldBy_UpdateUsers:
  assumes "heldBy s owner k a"
  shows "heldBy (TrafficManager_UpdateUsers users s) (keepOwner users owner) k a"
proof -
  have "map_of (tr_user s k1) u = Some a \<longleftrightarrow> owner = Some u \<and> k1 = k" for k1 u using assms by (simp add: heldBy_def)
  then have "map_of (tr_user (TrafficManager_UpdateUsers users s) k1) u = Some a \<longleftrightarrow> keepOwner users owner = Some u \<and> k1 = k" for k1 u
    unfolding map_of_UpdateUsers by (auto simp: keepOwner_def split: option.splits)
  then show ?thesis using assms by (simp add: heldBy_def)
qed

lemma UpdateUsers_agrees:
  assumes "ssmAgree r l"
  shows "ssmAgree (r\<lparr>sr_traffic := TrafficManager_UpdateUsers users (sr_traffic r)\<rparr>) (ledgerStep l (DoUpdateUsers users))"
proof -
  let ?s = "sr_traffic r"
  let ?t = "TrafficManager_UpdateUsers users ?s"
  have ok: "countersOk ?s" and n: "numbersAgree ?s l"
    and cs: "\<And>j. rel_option (\<lambda>c p. connAgrees ?s p c) (sr_conns r j) (ld_conns l j)"
    using assms by (simp_all add: ssmAgree_def)
  have "countersOk ?t" using ok unfolding countersOk_def map_of_UpdateUsers by (simp split: if_splits)
  moreover have "userNumber ?t u k = (if u \<in> set users then userNumber ?s u k else 0)" for u k
    by (simp add: userNumber_def map_of_UpdateUsers split: option.split)
  then have "numbersAgree ?t (ledgerStep l (DoUpdateUsers users))" using n by (simp add: numbersAgree_def ledgerStep_def fun_eq_iff)
  moreover have "connAgrees ?t (packet, keepOwner users owner) c" if "connAgrees ?s (packet, owner) c" for packet owner c
    using that heldBy_UpdateUsers by (fastforce simp: connAgrees_def)
  then have "rel_option (\<lambda>c p. connAgrees ?t p c) (sr_conns r j) (ld_conns (ledgerStep l (DoUpdateUsers users)) j)" for j
    using cs [of j] by (auto simp: ledgerStep_def elim!: option.rel_cases)
  ultimately show ?thesis by (simp add: ssmAgree_def)
qed

subsection \<open>Reading\<close>

lemma readCounter_keeps:
  "uo_UserName (fst (readCounter swap (user, s) k)) = uo_UserName user"
  "uo_Password (fst (readCounter swap (user, s) k)) = uo_Password user"
  "tr_user (snd (readCounter swap (user, s) k)) = tr_user s"
  "tr_free (snd (readCounter swap (user, s) k)) = tr_free s"
  "tr_cells (snd (readCounter swap (user, s) k)) (Global k1) = tr_cells s (Global k1)"
  by (simp_all add: readCounter_def split: option.split)

lemma readCounter_number:
  assumes "countersOk s"
  shows "userNumber (snd (readCounter swap (user, s) k)) u k1 =
           (if swap \<and> u = uo_UserName user \<and> k1 = k then 0 else userNumber s u k1)"
proof (cases "map_of (tr_user s k) (uo_UserName user)")
  case (Some a)
  then have "map_of (tr_user s k1) u = Some a \<longleftrightarrow> k1 = k \<and> u = uo_UserName user"
    using assms unfolding countersOk_def by blast
  then show ?thesis using Some by (auto simp: readCounter_def userNumber_def split: option.split)
qed (simp add: readCounter_def userNumber_def)

lemma readCounter_counts:
  "uo_counts (fst (readCounter swap (user, s) k)) k1 =
     (if k1 = k \<and> map_of (tr_user s k) (uo_UserName user) \<noteq> None then userNumber s (uo_UserName user) k else uo_counts user k1)"
  by (auto simp: readCounter_def userNumber_def split: option.split)

text \<open>What reading the kinds one after the other comes to.\<close>

lemma readCounters:
  assumes "countersOk s" and "distinct ks" and "foldl (readCounter swap) (user, s) ks = (user1, s1)"
  shows "uo_UserName user1 = uo_UserName user \<and> uo_Password user1 = uo_Password user"
    and "tr_user s1 = tr_user s \<and> tr_free s1 = tr_free s \<and> (\<forall>k. tr_cells s1 (Global k) = tr_cells s (Global k))"
    and "userNumber s1 u k = (if swap \<and> u = uo_UserName user \<and> k \<in> set ks then 0 else userNumber s u k)"
    and "uo_counts user1 k =
          (if k \<in> set ks \<and> map_of (tr_user s k) (uo_UserName user) \<noteq> None then userNumber s (uo_UserName user) k else uo_counts user k)"
proof -
  have "(uo_UserName user1 = uo_UserName user \<and> uo_Password user1 = uo_Password user) \<and>
    (tr_user s1 = tr_user s \<and> tr_free s1 = tr_free s \<and> (\<forall>k. tr_cells s1 (Global k) = tr_cells s (Global k))) \<and>
    userNumber s1 u k = (if swap \<and> u = uo_UserName user \<and> k \<in> set ks then 0 else userNumber s u k) \<and>
    uo_counts user1 k =
      (if k \<in> set ks \<and> map_of (tr_user s k) (uo_UserName user) \<noteq> None then userNumber s (uo_UserName user) k else uo_counts user k)"
    using assms
  proof (induction ks arbitrary: user s)
    case (Cons k0 ks)
    obtain user0 s0 where 0: "readCounter swap (user, s) k0 = (user0, s0)" by fastforce
    note keeps = readCounter_keeps [of swap user s k0, unfolded 0, simplified]
    have ok: "countersOk s0" using Cons.prems(1) same_maps(1) [OF keeps(3,4)] by simp
    have "foldl (readCounter swap) (user0, s0) ks = (user1, s1)" using Cons.prems(3) 0 by simp
    from Cons.IH [OF ok _ this] Cons.prems(2)
    show ?case
      using keeps readCounter_number [OF Cons.prems(1), of swap user k0, unfolded 0, simplified]
        readCounter_counts [of swap user s k0, unfolded 0, simplified]
      by auto
  qed simp
  then show "uo_UserName user1 = uo_UserName user \<and> uo_Password user1 = uo_Password user"
    and "tr_user s1 = tr_user s \<and> tr_free s1 = tr_free s \<and> (\<forall>k. tr_cells s1 (Global k) = tr_cells s (Global k))"
    and "userNumber s1 u k = (if swap \<and> u = uo_UserName user \<and> k \<in> set ks then 0 else userNumber s u k)"
    and "uo_counts user1 k =
          (if k \<in> set ks \<and> map_of (tr_user s k) (uo_UserName user) \<noteq> None then userNumber s (uo_UserName user) k else uo_counts user k)"
    by blast+
qed

lemma distinct_allKinds: "distinct allKinds"
  by (simp add: allKinds_def)

lemmas readUser_reads = readCounters [OF _ distinct_allKinds, folded readUser_def]

lemma ReadGlobal_frame:
  "tr_user (snd (ReadGlobal swap s)) = tr_user s" "tr_free (snd (ReadGlobal swap s)) = tr_free s"
  "tr_cells (snd (ReadGlobal swap s)) (Cell a) = tr_cells s (Cell a)"
  "tr_cells (snd (ReadGlobal swap s)) (Global k) = (if swap then 0 else tr_cells s (Global k))"
  by (cases k; simp add: ReadGlobal_def allKinds_def)+

lemma same_maps_agree:
  assumes "ssmAgree r l" and "tr_user t = tr_user (sr_traffic r)" and "tr_free t = tr_free (sr_traffic r)"
    and "numbersAgree t l1" and "ld_conns l1 = ld_conns l"
  shows "ssmAgree (r\<lparr>sr_traffic := t\<rparr>) l1"
  using assms same_maps [OF assms(2,3)] by (simp add: ssmAgree_def)

lemma readUser_agrees:
  assumes "ssmAgree r l"
  shows "ssmAgree (r\<lparr>sr_traffic := snd (readUser user swap (sr_traffic r))\<rparr>) (ledgerStep l (DoReadUser user swap))"
proof -
  obtain user1 s1 where 1: "readUser user swap (sr_traffic r) = (user1, s1)" by fastforce
  have ok: "countersOk (sr_traffic r)" and n: "numbersAgree (sr_traffic r) l" using assms by (simp_all add: ssmAgree_def)
  note rd = readUser_reads(2,3) [OF ok 1]
  have "numbersAgree s1 (ledgerStep l (DoReadUser user swap))"
    using n rd by (auto simp: numbersAgree_def ledgerStep_def fun_eq_iff)
  then show ?thesis using rd(1) by (auto simp: 1 ledgerStep_def intro!: same_maps_agree [OF assms])
qed

lemma ReadGlobal_agrees:
  assumes "ssmAgree r l"
  shows "ssmAgree (r\<lparr>sr_traffic := snd (ReadGlobal swap (sr_traffic r))\<rparr>) (ledgerStep l (DoReadGlobal swap))"
proof (rule same_maps_agree [OF assms ReadGlobal_frame(1,2)])
  have n: "numbersAgree (sr_traffic r) l" using assms by (simp add: ssmAgree_def)
  have "userNumber (snd (ReadGlobal swap (sr_traffic r))) = userNumber (sr_traffic r)"
    by (simp add: userNumber_def ReadGlobal_frame fun_eq_iff split: option.split)
  with n show "numbersAgree (snd (ReadGlobal swap (sr_traffic r))) (ledgerStep l (DoReadGlobal swap))"
    by (simp add: numbersAgree_def ledgerStep_def ReadGlobal_frame)
  show "ld_conns (ledgerStep l (DoReadGlobal swap)) = ld_conns l" by (simp add: ledgerStep_def)
qed


subsection \<open>Refinement\<close>

lemma ssmStep_agrees:
  assumes "ssmAgree r l" and "countsTraffic counting"
  shows "ssmAgree (ssmStep counting r st) (ledgerStep l st)"
proof -
  have cs: "rel_option (\<lambda>c p. connAgrees (sr_traffic r) p c) (sr_conns r i) (ld_conns l i)" for i
    using assms by (simp add: ssmAgree_def)
  have track: "ssmAgree (if sr_conns r i = None then let (c, s) = trackConn packet user (sr_traffic r)
                           in \<lparr>sr_traffic = s, sr_conns = (sr_conns r)(i \<mapsto> c)\<rparr> else r) (openConn i packet user l)" for i packet user
  proof (cases "sr_conns r i")
    case None
    obtain c s where "trackConn packet user (sr_traffic r) = (c, s)" by fastforce
    then show ?thesis using trackConn_agrees [OF assms(1) None] None by simp
  next
    case (Some c)
    then show ?thesis using cs [of i] assms by (auto simp: openConn_def option_rel_Some1)
  qed
  have untracked: "creditConn i kb kp n l = l" if "sr_conns r i = None" for i kb kp n
    using cs [of i] that by (simp add: creditConn_def)
  show ?thesis
  proof (cases st)
    case (DoTrack i user)
    then show ?thesis using track [of i False user] by (auto simp: ssmStep_def ledgerStep_def trackConn_def Let_def split: if_splits)
  next
    case (DoTrackPacket i user)
    then show ?thesis using track [of i True user] by (auto simp: ssmStep_def ledgerStep_def trackConn_def Let_def split: if_splits)
  next
    case (DidRead i n)
    then show ?thesis using assms untracked
      by (cases "sr_conns r i") (auto simp: ssmStep_def ledgerStep_def countRead_def counting_countAll [OF assms(2)] connOf_def intro!: count_agrees)
  next
    case (DidWrite i n)
    then show ?thesis using assms untracked
      by (cases "sr_conns r i") (auto simp: ssmStep_def ledgerStep_def countWrite_def counting_countAll [OF assms(2)] connOf_def intro!: count_agrees)
  next
    case (DoUpdateUsers users)
    then show ?thesis using UpdateUsers_agrees [OF assms(1)] by (simp add: ssmStep_def)
  next
    case (DoReadUser user swap)
    then show ?thesis using readUser_agrees [OF assms(1)] by (simp add: ssmStep_def)
  next
    case (DoReadGlobal swap)
    then show ?thesis using ReadGlobal_agrees [OF assms(1)] by (simp add: ssmStep_def)
  qed
qed

lemma ssmStart_agrees: "ssmAgree ssmStart ledgerStart"
  by (simp add: ssmAgree_def ssmStart_def ledgerStart_def NewTrafficManager_def countersOk_def numbersAgree_def userNumber_def fun_eq_iff)

lemma ssm_simulation:
  "countsTraffic counting \<Longrightarrow> ssmAgree (foldl (ssmStep counting) ssmStart steps) (foldl ledgerStep ledgerStart steps)"
  by (induction steps rule: rev_induct) (simp_all add: ssmStart_agrees ssmStep_agrees)

text \<open>No number of the ledger is negative.\<close>

definition ledgerOk :: "Ledger \<Rightarrow> bool" where
  "ledgerOk l \<longleftrightarrow> (\<forall>u k. 0 \<le> ld_user l u k) \<and> (\<forall>k. 0 \<le> ld_total l k)"

lemma ledgerOk_credit: "ledgerOk l \<Longrightarrow> 0 \<le> n \<Longrightarrow> ledgerOk (credit owner k n l)"
  by (simp add: ledgerOk_def credit_def)

lemma ledgerOk_step: "ledgerOk l \<Longrightarrow> ledgerOk (ledgerStep l st)"
proof (cases st)
  case (DoUpdateUsers users)
  then show "ledgerOk l \<Longrightarrow> ledgerOk (ledgerStep l st)" by (simp add: ledgerOk_def ledgerStep_def)
next
  case (DoReadUser user swap)
  then show "ledgerOk l \<Longrightarrow> ledgerOk (ledgerStep l st)" by (simp add: ledgerOk_def ledgerStep_def)
next
  case (DoReadGlobal swap)
  then show "ledgerOk l \<Longrightarrow> ledgerOk (ledgerStep l st)" by (simp add: ledgerOk_def ledgerStep_def)
next
  case (DoTrack i user)
  then show "ledgerOk l \<Longrightarrow> ledgerOk (ledgerStep l st)"
    using ledgerOk_credit [of "l\<lparr>ld_conns := (ld_conns l)(i \<mapsto> (False, Some user))\<rparr>" 1] by (simp add: ledgerStep_def openConn_def ledgerOk_def)
next
  case (DoTrackPacket i user)
  then show "ledgerOk l \<Longrightarrow> ledgerOk (ledgerStep l st)"
    using ledgerOk_credit [of "l\<lparr>ld_conns := (ld_conns l)(i \<mapsto> (True, Some user))\<rparr>" 1] by (simp add: ledgerStep_def openConn_def ledgerOk_def)
qed (auto simp: ledgerStep_def creditConn_def ledgerOk_credit split: option.split)

lemma ledgerOk_run: "ledgerOk (foldl ledgerStep ledgerStart steps)"
  by (induction steps rule: rev_induct) (simp add: ledgerOk_def ledgerStart_def, simp add: ledgerOk_step)

lemma sint_number: "0 \<le> i \<Longrightarrow> i < 2 ^ 63 \<Longrightarrow> sint (word_of_int i :: u64) = i"
  by (simp add: signed_of_int signed_take_bit_int_eq_self)

definition blankUser :: "string \<Rightarrow> string \<Rightarrow> UserObject" where
  "blankUser name password = \<lparr>uo_UserName = name, uo_Password = password, uo_counts = (\<lambda>_. 0)\<rparr>"

lemma readUser_blank:
  assumes "countersOk s"
  shows "fst (readUser (blankUser name password) swap s) = \<lparr>uo_UserName = name, uo_Password = password, uo_counts = userNumber s name\<rparr>"
proof -
  obtain user1 s1 where 1: "readUser (blankUser name password) swap s = (user1, s1)" by fastforce
  have "uo_counts user1 k = userNumber s name k" for k
    using readUser_reads(4) [OF assms 1, of k] by (auto simp: blankUser_def userNumber_def split: option.splits)
  then show ?thesis using readUser_reads(1) [OF assms 1] 1 by (simp add: blankUser_def fun_eq_iff)
qed

text \<open>
  C40: The traffic manager refines the ledger: after any sequence of operations, that open connections, carry
  bytes and packets over them, change the users and read with or without clearing, each number that is
  reported for a user and in total is the one of the ledger, wrapped to 64 bits, and so is exactly that
  number while it is less than 2^63; although the connections keep pointers to counters across every
  change of the maps. The operations are taken one after the other. The counting connections of the
  library are assumed to add the length to every counter of bytes that they are given and one to every
  counter of packets.
\<close>

theorem ssm_refines_ledger:
  assumes "countsTraffic counting"
  shows "let s = sr_traffic (foldl (ssmStep counting) ssmStart steps); l = foldl ledgerStep ledgerStart steps;
       user = fst (readUser (blankUser name password) swap s); totals = fst (ReadGlobal clear s)
   in uo_UserName user = name \<and> uo_Password user = password \<and>
      uo_counts user k = word_of_int (ld_user l name k) \<and> totals k = word_of_int (ld_total l k) \<and>
      (ld_user l name k < 2 ^ 63 \<longrightarrow> sint (uo_counts user k) = ld_user l name k) \<and>
      (ld_total l k < 2 ^ 63 \<longrightarrow> sint (totals k) = ld_total l k)"
proof -
  let ?s = "sr_traffic (foldl (ssmStep counting) ssmStart steps)" and ?l = "foldl ledgerStep ledgerStart steps"
  have ok: "countersOk ?s" and n: "numbersAgree ?s ?l" using ssm_simulation [OF assms, of steps] by (simp_all add: ssmAgree_def)
  have "0 \<le> ld_user ?l name k" "0 \<le> ld_total ?l k" using ledgerOk_run by (simp_all add: ledgerOk_def)
  then show ?thesis
    using n sint_number by (simp add: readUser_blank [OF ok] numbersAgree_def ReadGlobal_def Let_def del: word_of_int_eq_iff)
qed

text \<open>Connections that add to one counter after the other.\<close>

definition sampleCounting :: Counting where
  "sampleCounting bs packets n cells = (\<lambda>c. cells c + word_of_nat (count_list bs c) * word_of_nat n + word_of_nat (count_list packets c))"

lemma sampleCounting_counts: "countsTraffic sampleCounting"
  by (simp add: countsTraffic_def sampleCounting_def)

definition sampleSteps :: "SsmStep list" where
  "sampleSteps = [DoTrack 0 ''a'', DidRead 0 7, DoTrackPacket 1 ''b'', DidWrite 1 5, DoUpdateUsers [''a''], DidRead 0 3]"

theorem ssm_refines_ledger_witness:
  "sint (uo_counts (fst (readUser (blankUser ''a'' []) False (sr_traffic (foldl (ssmStep sampleCounting) ssmStart sampleSteps)))) Uplink) = 10 \<and>
   sint (fst (ReadGlobal True (sr_traffic (foldl (ssmStep sampleCounting) ssmStart sampleSteps))) Uplink) = 10"
proof -
  let ?l = "foldl ledgerStep ledgerStart sampleSteps"
  have "ld_user ?l ''a'' Uplink = 10" "ld_total ?l Uplink = 10"
    by (simp_all add: sampleSteps_def ledgerStep_def ledgerStart_def openConn_def creditConn_def credit_def keepOwner_def)
  then show ?thesis
    using ssm_refines_ledger [OF sampleCounting_counts, of sampleSteps "''a''" "[]" False True Uplink] by (simp add: Let_def)
qed

section \<open>Restart\<close>

text \<open>What \<open>put\<close> of the entries of a list comes to, and the filter of \<open>encodeCache\<close>.\<close>

lemma map_of_put_entries:
  "map_of (foldl (\<lambda>t (k, v). putKey k v t) t es) = map_of t ++ map_of (rev es)"
  by (induction es arbitrary: t) auto

lemma map_of_rev_distinct: "distinct (map fst es) \<Longrightarrow> map_of (rev es) = map_of es"
  by (rule map_of_inject_set [THEN iffD2]) (simp_all flip: rev_map)

lemma map_of_put_filtered:
  assumes "distinct (map fst xs)"
  shows "map_of (foldl (\<lambda>t (x, a). if P x a then putKey x (h a) t else t) t0 xs) u =
           (case map_of xs u of Some a \<Rightarrow> if P u a then Some (h a) else map_of t0 u | None \<Rightarrow> map_of t0 u)"
  using assms
proof (induction xs arbitrary: t0)
  case (Cons e xs)
  obtain x a where e: "e = (x, a)" by fastforce
  then have "map_of xs x = None" using Cons.prems by (simp add: map_of_eq_None_iff)
  then show ?case using Cons e by (auto split: option.split)
qed simp

lemma distinct_sortTypedMap: "distinct (map fst (sortTypedMap m))"
  unfolding sortTypedMap_def by (rule distinct_foldl_putKey) simp

lemma newCounter_number:
  assumes "countersOk s"
  shows "countersOk (newCounter k user n s)"
    and "userNumber (newCounter k user n s) u k1 = (if u = user \<and> k1 = k then n else userNumber s u k1)"
proof -
  let ?t = "newCounter k user n s"
  have m: "map_of (tr_user ?t k2) u2 = (if k2 = k \<and> u2 = user then Some (tr_free s) else map_of (tr_user s k2) u2)" for k2 u2
    by (simp add: newCounter_def)
  have lt: "a < tr_free s" if "map_of (tr_user s k2) u2 = Some a" for k2 u2 a using that assms unfolding countersOk_def by blast
  have f: "tr_free ?t = Suc (tr_free s)" by (simp add: newCounter_def)
  show "countersOk ?t"
    unfolding countersOk_def
  proof (intro allI impI)
    fix k2 u2 a assume a: "map_of (tr_user ?t k2) u2 = Some a"
    show "a < tr_free ?t \<and> (\<forall>k1 u1. map_of (tr_user ?t k1) u1 = Some a \<longrightarrow> k1 = k2 \<and> u1 = u2)"
    proof (cases "k2 = k \<and> u2 = user")
      case True
      then have "a = tr_free s" using a m by simp
      then show ?thesis using True lt f m by (auto split: if_splits)
    next
      case False
      then have s: "map_of (tr_user s k2) u2 = Some a" using a m [of k2 u2] by (auto split: if_splits)
      then have "\<forall>k1 u1. map_of (tr_user s k1) u1 = Some a \<longrightarrow> k1 = k2 \<and> u1 = u2" using assms unfolding countersOk_def by blast
      then show ?thesis using lt [OF s] f m by (auto split: if_splits)
    qed
  qed
  show "userNumber ?t u k1 = (if u = user \<and> k1 = k then n else userNumber s u k1)"
    using lt [of k1 u] by (auto simp: userNumber_def newCounter_def split: option.split)
qed

lemma typedAtomicInt64Map_number:
  assumes "countersOk s"
  shows "countersOk (typedAtomicInt64Map k es s)"
    and "userNumber (typedAtomicInt64Map k es s) u k1 =
          (if k1 = k then case map_of (rev es) u of Some n \<Rightarrow> n | None \<Rightarrow> 0 else userNumber s u k1)"
proof -
  let ?f = "foldl (\<lambda>t (user, n). newCounter k user n t)"
  have "countersOk (?f t es) \<and>
      userNumber (?f t es) u k1 = (if k1 = k then case map_of (rev es) u of Some n \<Rightarrow> n | None \<Rightarrow> userNumber t u k1 else userNumber t u k1)"
    if "countersOk t" for t
    using that
  proof (induction es arbitrary: t)
    case (Cons e es)
    obtain user n where e: "e = (user, n)" by fastforce
    show ?case
      using Cons.IH [OF newCounter_number(1) [OF Cons.prems, of k user n]]
      by (simp add: e map_add_def newCounter_number(2) [OF Cons.prems] split: option.split)
  qed simp
  moreover have "countersOk (s\<lparr>tr_user := (tr_user s)(k := [])\<rparr>)" using assms unfolding countersOk_def by (simp add: fun_upd_def)
  moreover have "userNumber (s\<lparr>tr_user := (tr_user s)(k := [])\<rparr>) u k1 = (if k1 = k then 0 else userNumber s u k1)"
    by (simp add: userNumber_def split: option.split)
  ultimately show "countersOk (typedAtomicInt64Map k es s)"
    and "userNumber (typedAtomicInt64Map k es s) u k1 =
          (if k1 = k then case map_of (rev es) u of Some n \<Rightarrow> n | None \<Rightarrow> 0 else userNumber s u k1)"
    unfolding typedAtomicInt64Map_def by (auto split: option.splits)
qed

lemma typedAtomicInt64Map_global: "tr_cells (typedAtomicInt64Map k es s) (Global k1) = tr_cells s (Global k1)"
proof -
  have "tr_cells (foldl (\<lambda>t (user, n). newCounter k user n t) t es) (Global k1) = tr_cells t (Global k1)" for t
    by (induction es arbitrary: t) (auto simp: newCounter_def)
  then show ?thesis by (simp add: typedAtomicInt64Map_def)
qed

text \<open>The counters that a decoded endpoint has.\<close>

lemma decodeEndpoint_numbers:
  fixes server c
  assumes "countersOk (um_traffic m)"
  defines "t \<equiv> um_traffic (decodeEndpoint server c m)"
  shows "countersOk t"
    and "userNumber t u k = (case map_of (rev (ec_User c k)) u of Some n \<Rightarrow> n | None \<Rightarrow> 0)"
    and "tr_cells t (Global k) = ec_Global c k"
    and "map_of (um_users (decodeEndpoint server c m)) = map_of (rev (ec_Users c))"
proof -
  let ?s1 = "foldl (\<lambda>s k. storeCounter (Global k) (ec_Global c k) s) (um_traffic m) allKinds"
  let ?d = "foldl (\<lambda>s k. typedAtomicInt64Map k (ec_User c k) s)"
  have u: "decodeEndpoint server c m = \<lparr>um_users = foldl (\<lambda>t (name, password). putKey name password t) [] (ec_Users c), um_traffic = ?d ?s1 allKinds\<rparr>"
    by (simp add: decodeEndpoint_def postUpdate_def Let_def split: option.split)
  then have t: "t = ?d ?s1 allKinds" by (simp add: t_def)
  have "countersOk ?s1" using assms(1) by (simp add: allKinds_def)
  moreover have "countersOk (?d s ks) \<and> userNumber (?d s ks) u k =
      (if k \<in> set ks then case map_of (rev (ec_User c k)) u of Some n \<Rightarrow> n | None \<Rightarrow> 0 else userNumber s u k) \<and>
      tr_cells (?d s ks) (Global k) = tr_cells s (Global k)" if "countersOk s" for s ks
    using that by (induction ks arbitrary: s) (auto simp: typedAtomicInt64Map_number typedAtomicInt64Map_global)
  moreover have "tr_cells ?s1 (Global k) = ec_Global c k" by (cases k) (simp_all add: allKinds_def)
  ultimately show "countersOk t" "userNumber t u k = (case map_of (rev (ec_User c k)) u of Some n \<Rightarrow> n | None \<Rightarrow> 0)"
    "tr_cells t (Global k) = ec_Global c k"
    by (simp_all add: t)
  show "map_of (um_users (decodeEndpoint server c m)) = map_of (rev (ec_Users c))"
    by (simp add: u map_of_put_entries)
qed

text \<open>What is true of a manager at all times.\<close>

definition managerOk :: "UserManager \<Rightarrow> bool" where
  "managerOk m \<longleftrightarrow> countersOk (um_traffic m) \<and> (\<forall>k. distinct (map fst (tr_user (um_traffic m) k))) \<and>
     distinct (map fst (um_users m))"

lemma word_sint_eq_zero: "\<not> 0 < sint w \<Longrightarrow> 0 \<le> sint w \<Longrightarrow> w = (0 :: u64)"
  using signed_word_eqI [of w 0] by simp

lemma endpoint_round_trip:
  fixes server
  assumes "managerOk m" and "countersOk (um_traffic m0)" and "\<forall>a. 0 \<le> sint (tr_cells (um_traffic m) (Cell a))"
  defines "d \<equiv> decodeEndpoint server (encodeEndpoint m) m0"
  shows "userNumber (um_traffic d) = userNumber (um_traffic m)"
    and "tr_cells (um_traffic d) (Global k) = tr_cells (um_traffic m) (Global k)"
    and "map_of (um_users d) u = (case map_of (um_users m) u of Some p \<Rightarrow> if u \<noteq> [] \<and> p \<noteq> [] then Some p else None | None \<Rightarrow> None)"
    and "countersOk (um_traffic d)"
proof -
  note n = decodeEndpoint_numbers [OF assms(2), of server "encodeEndpoint m", folded d_def]
  have ok: "distinct (map fst (tr_user (um_traffic m) k))" "0 \<le> sint (tr_cells (um_traffic m) (Cell c))" "distinct (map fst (um_users m))" for k c
    using assms(1,3) by (simp_all add: managerOk_def)
  have r: "map_of (rev (sortTypedMap es)) = map_of es" for es :: "(string \<times> 'v) list"
    by (simp add: map_of_rev_distinct [OF distinct_sortTypedMap])
  have "userNumber (um_traffic d) u k = userNumber (um_traffic m) u k" for u k
  proof -
    let ?s = "um_traffic m"
    have zero: "tr_cells ?s (Cell a) = 0" if "\<not> 0 < sint (tr_cells ?s (Cell a))" for a
      using that ok(2) [of a] by (simp add: word_sint_eq_zero)
    have "map_of (rev (ec_User (encodeEndpoint m) k)) u =
        (case map_of (tr_user ?s k) u of Some a \<Rightarrow> if 0 < sint (tr_cells ?s (Cell a)) then Some (tr_cells ?s (Cell a)) else None | None \<Rightarrow> None)"
      using map_of_put_filtered [OF ok(1) [of k], where h = "\<lambda>a. tr_cells ?s (Cell a)" and P = "\<lambda>_ a. 0 < sint (tr_cells ?s (Cell a))" and ?t0.0 = "[]" and u = u]
      by (simp add: encodeEndpoint_def Let_def r split: option.split)
    then show ?thesis
      using n(2) [of u k] zero
      by (cases "map_of (tr_user ?s k) u") (simp_all add: userNumber_def [of ?s])
  qed
  then show "userNumber (um_traffic d) = userNumber (um_traffic m)" by (simp add: fun_eq_iff)
  show "tr_cells (um_traffic d) (Global k) = tr_cells (um_traffic m) (Global k)" by (simp add: n(3) encodeEndpoint_def Let_def)
  show "map_of (um_users d) u = (case map_of (um_users m) u of Some p \<Rightarrow> if u \<noteq> [] \<and> p \<noteq> [] then Some p else None | None \<Rightarrow> None)"
    using map_of_put_filtered [OF ok(3), where h = "\<lambda>p. p" and P = "\<lambda>u p. u \<noteq> [] \<and> p \<noteq> []" and ?t0.0 = "[]" and u = u]
    by (simp add: n(4) encodeEndpoint_def Let_def r split: option.split)
  show "countersOk (um_traffic d)" by (rule n(1))
qed


lemma decode_entries:
  assumes "distinct (map fst cache)"
  shows "ss_endpoints (foldl (decodeEntry servers) v cache) =
    map (\<lambda>(tag, m). (tag, case map_of cache tag of Some c \<Rightarrow> decodeEndpoint (servers tag) c m | None \<Rightarrow> m)) (ss_endpoints v)"
  using assms
proof (induction cache arbitrary: v)
  case (Cons e cache)
  obtain t c where e: "e = (t, c)" by fastforce
  then have "map_of cache t = None" using Cons.prems by (simp add: map_of_eq_None_iff)
  then show ?case using Cons e by (auto simp: decodeEntry_def)
qed (simp add: case_prod_unfold)

lemma getUser_alike:
  assumes "countersOk (um_traffic m)" "countersOk (um_traffic d)" "userNumber (um_traffic d) = userNumber (um_traffic m)"
    and "name \<noteq> [] \<Longrightarrow> map_of (um_users d) name = map_of (um_users m) name"
  shows "fst (getUser name d) = fst (getUser name m)"
proof -
  have g: "fst (getUser name x) =
      (if name = [] then SsmStatus 400
       else case map_of (um_users x) name of
              None \<Rightarrow> SsmStatus 404
            | Some p \<Rightarrow> SsmUser \<lparr>uo_UserName = name, uo_Password = p, uo_counts = userNumber (um_traffic x) name\<rparr>)"
    if "countersOk (um_traffic x)" for x
    using readUser_blank [OF that, of name _ False]
    by (auto simp: getUser_def UserManager_Get_def ReadUser_def blankUser_def case_prod_unfold split: option.split)
  show ?thesis using assms by (auto simp: g split: option.split)
qed

lemma map_of_map_entries: "map_of (map (\<lambda>(t, x). (t, g t x)) xs) t = map_option (g t) (map_of xs t)"
  by (induction xs) auto

text \<open>The steps of a manager: connections and their traffic, which may change every counter, and the requests that change something.\<close>

inductive managerStep :: "UserManager \<Rightarrow> UserManager \<Rightarrow> bool" where
  manager_track: "managerStep m (m\<lparr>um_traffic := snd (trackConn packet user (um_traffic m))\<rparr>)"
| manager_count: "managerStep m (m\<lparr>um_traffic := (um_traffic m)\<lparr>tr_cells := cells\<rparr>\<rparr>)"
| manager_add: "managerStep m (snd (addUser server body m))"
| manager_update: "managerStep m (snd (updateUser server name password m))"
| manager_delete: "managerStep m (snd (deleteUser server name m))"
| manager_stats: "managerStep m (snd (getStats clear m))"

definition trafficOk :: "TrafficManager \<Rightarrow> bool" where
  "trafficOk s \<longleftrightarrow> countersOk s \<and> (\<forall>k. distinct (map fst (tr_user s k)))"

lemma managerOk_iff: "managerOk m \<longleftrightarrow> trafficOk (um_traffic m) \<and> distinct (map fst (um_users m))"
  by (auto simp: managerOk_def trafficOk_def)

lemma trafficOk_store: "trafficOk s \<Longrightarrow> trafficOk (storeCounter c n s)"
  by (simp add: trafficOk_def)

lemma trafficOk_add: "trafficOk s \<Longrightarrow> trafficOk (addCounter c n s)"
  by (simp add: addCounter_def trafficOk_store trafficOk_def)

lemma trafficOk_userCounter:
  assumes "trafficOk s"
  shows "trafficOk (userCounter user s)"
proof -
  have "trafficOk (loadCounter user t k)" if "trafficOk t" for t k
  proof (cases "map_of (tr_user t k) user")
    case None
    moreover have "distinct (map fst (tr_user (newCounter k user 0 t) k1))" for k1
      using that by (simp add: trafficOk_def newCounter_def)
    ultimately show ?thesis using that newCounter_number(1) [of t k user 0] by (simp add: trafficOk_def loadCounter_def)
  qed (use that in \<open>simp add: loadCounter_def\<close>)
  then have "trafficOk (foldl (loadCounter user) t ks)" if "trafficOk t" for t ks
    using that by (induction ks arbitrary: t) simp_all
  then show ?thesis using assms by (simp add: userCounter_def)
qed

lemma trafficOk_count: "trafficOk s \<Longrightarrow> trafficOk (s\<lparr>tr_cells := cells\<rparr>)"
  using same_maps(1) [of "s\<lparr>tr_cells := cells\<rparr>" s] by (simp add: trafficOk_def)

lemma trafficOk_UpdateUsers:
  assumes "trafficOk s"
  shows "trafficOk (TrafficManager_UpdateUsers users s)"
proof -
  have "countersOk (TrafficManager_UpdateUsers users s)"
    using assms unfolding trafficOk_def countersOk_def map_of_UpdateUsers by (simp split: if_splits)
  moreover have "distinct (map fst (tr_user (TrafficManager_UpdateUsers users s) k))" for k
    by (simp add: TrafficManager_UpdateUsers_def distinct_foldl_putKey)
  ultimately show ?thesis using assms by (simp add: trafficOk_def)
qed

lemma trafficOk_ReadUsers: "trafficOk s \<Longrightarrow> trafficOk (snd (ReadUsers users swap s))"
proof (induction users arbitrary: s)
  case (Cons u users)
  have "trafficOk (snd (readCounter swap us k))" if "trafficOk (snd us)" for us k
    using that by (cases us) (simp add: readCounter_def trafficOk_store split: option.split)
  then have "trafficOk (snd (foldl (readCounter swap) us ks))" if "trafficOk (snd us)" for us ks
    using that by (induction ks arbitrary: us) simp_all
  then have "trafficOk (snd (readUser u swap s))" using Cons.prems by (simp add: readUser_def)
  then show ?case using Cons.IH by (simp add: case_prod_unfold)
qed simp

lemma trafficOk_ReadGlobal: "trafficOk s \<Longrightarrow> trafficOk (snd (ReadGlobal swap s))"
  by (simp add: ReadGlobal_def allKinds_def trafficOk_store)

lemma postUpdate_keeps: "managerOk m \<Longrightarrow> managerOk (snd (postUpdate server updated m))"
  by (simp add: postUpdate_def managerOk_iff trafficOk_UpdateUsers split: option.split)

lemma managerOk_put: "managerOk m \<Longrightarrow> managerOk (m\<lparr>um_users := putKey name password (um_users m)\<rparr>)"
  by (simp add: managerOk_iff)

lemma managerOk_filter: "managerOk m \<Longrightarrow> managerOk (m\<lparr>um_users := filter P (um_users m)\<rparr>)"
  by (simp add: managerOk_iff distinct_map_filter)

lemma managerStep_keeps:
  assumes "managerStep m m1" "managerOk m"
  shows "managerOk m1"
  using assms
proof (cases rule: managerStep.cases)
  case (manager_track packet user)
  then show ?thesis using assms(2)
    by (auto simp: managerOk_iff trackConn_def TrackConnection_def TrackPacketConnection_def Let_def trafficOk_add trafficOk_userCounter)
next
  case (manager_add server body)
  have "managerOk (snd (UserManager_Add server name password m))" for name password
    using assms(2) by (auto simp: UserManager_Add_def intro!: postUpdate_keeps managerOk_put managerOk_filter)
  then show ?thesis using manager_add assms(2) by (auto simp: addUser_def split: sum.splits prod.splits option.splits) (metis snd_conv)+
next
  case (manager_update server name password)
  have "managerOk (snd (UserManager_Update server name password m))" for name password
    using assms(2) by (auto simp: UserManager_Update_def intro!: postUpdate_keeps managerOk_put managerOk_filter)
  then show ?thesis using manager_update assms(2) by (auto simp: updateUser_def split: sum.splits prod.splits option.splits) (metis snd_conv)+
next
  case (manager_delete server name)
  have "managerOk (snd (UserManager_Delete server name m))"
    using assms(2) by (auto simp: UserManager_Delete_def intro!: postUpdate_keeps managerOk_put managerOk_filter)
  then show ?thesis using manager_delete assms(2) by (auto simp: deleteUser_def split: prod.splits option.splits)
next
  case (manager_stats clear)
  then show ?thesis using assms(2)
    by (simp add: getStats_def Let_def case_prod_unfold managerOk_iff trafficOk_ReadGlobal trafficOk_ReadUsers)
qed (use assms(2) in \<open>simp add: managerOk_iff trafficOk_count\<close>)

interpretation manager: invariant_system managerStep NewUserManager managerOk
proof
  show "managerOk NewUserManager" by (simp add: managerOk_def NewUserManager_def NewTrafficManager_def countersOk_def)
qed (rule managerStep_keeps)

text \<open>
  What the SSM service knows survives a restart: a service that loads what another one with the same
  endpoints has saved answers every request for a user as the other one did, and has the same totals, if
  the file is what the service saved last, the encoding of the cache can be decoded, no password is
  empty and no counter of a user has wrapped around to a negative number.
\<close>

theorem statistics_survive_restart:
  assumes "unmarshal (marshal (cacheOf v)) = Inr (cacheOf v)" "marshal (cacheOf v) \<noteq> []"
    and "ss_lastSavedCache v \<noteq> [] \<Longrightarrow> f = SsmContent (ss_lastSavedCache v)"
    and "saveCache marshal None f v = (err, f1, v1)"
    and "ss_cachePath v \<noteq> []" "ss_cachePath w \<noteq> []"
    and "ss_endpoints w = map (\<lambda>(tag, _). (tag, NewUserManager)) (ss_endpoints v)"
    and "map_of (ss_endpoints v) tag = Some m" "managerStep\<^sup>*\<^sup>* NewUserManager m" "\<forall>(name, password) \<in> set (um_users m). password \<noteq> []"
    and "\<forall>a. 0 \<le> sint (tr_cells (um_traffic m) (Cell a))"
  shows "\<exists>w1 d. loadCache unmarshal servers f1 w = (None, f1, w1) \<and> map_of (ss_endpoints w1) tag = Some d \<and>
    fst (getUser name d) = fst (getUser name m) \<and> fst (ReadGlobal clear (um_traffic d)) = fst (ReadGlobal clear (um_traffic m))"
proof -
  let ?c = "cacheOf v"
  let ?d = "decodeEndpoint (servers tag) (encodeEndpoint m) NewUserManager"
  have ok: "managerOk m" by (rule manager.reachable [OF assms(9)])
  have f1: "f1 = SsmContent (marshal ?c)"
    using assms(2,3,4,5) by (auto simp: saveCache_def encodeCache_def Let_def split: if_splits)
  have lk: "map_of ?c tag = Some (encodeEndpoint m)" using assms(8) by (simp add: cacheOf_def map_of_map)
  have "map_of (ss_endpoints w) tag = Some NewUserManager" using assms(7,8) by (simp add: map_of_map)
  then have "map_of (ss_endpoints (foldl (decodeEntry servers) w ?c)) tag = Some ?d"
    using lk unfolding cacheOf_def decode_entries [OF distinct_sortTypedMap] map_of_map_entries by simp
  moreover have "countersOk (um_traffic NewUserManager)"
    by (simp add: NewUserManager_def NewTrafficManager_def countersOk_def)
  note rt = endpoint_round_trip [OF ok this assms(11), of "servers tag"]
  have "map_of (um_users ?d) name = map_of (um_users m) name" if "name \<noteq> []"
    using that assms(10) by (auto simp: rt(3) split: option.split dest: map_of_SomeD)
  then have "fst (getUser name ?d) = fst (getUser name m)"
    using ok rt(1,4) by (intro getUser_alike) (simp_all add: managerOk_def)
  ultimately show ?thesis
    using assms(1,2,6) rt(2) by (simp add: f1 loadCache_def decodeCache_def ReadGlobal_def)
qed


definition sampleManager :: UserManager where
  "sampleManager =
     (let m1 = snd (addUser (\<lambda>_. None) (Inr (''alice'', ''secret'')) NewUserManager);
          m2 = m1\<lparr>um_traffic := snd (trackConn False ''alice'' (um_traffic m1))\<rparr>
      in m2\<lparr>um_traffic := (um_traffic m2)\<lparr>tr_cells := (\<lambda>c. if c \<in> {Global Uplink, Cell 0} then 5 else 0)\<rparr>\<rparr>)"

definition sampleSsm :: SsmService where
  "sampleSsm = \<lparr>ss_endpoints = [(''/'', sampleManager)], ss_cachePath = ''cache'', ss_lastSavedCache = []\<rparr>"

lemma sampleManager_reachable: "managerStep\<^sup>*\<^sup>* NewUserManager sampleManager"
proof -
  let ?m1 = "snd (addUser (\<lambda>_. None) (Inr (''alice'', ''secret'')) NewUserManager)"
  let ?m2 = "?m1\<lparr>um_traffic := snd (trackConn False ''alice'' (um_traffic ?m1))\<rparr>"
  have "managerStep NewUserManager ?m1" by (rule manager_add)
  moreover have "managerStep ?m1 ?m2" by (rule manager_track)
  moreover have "managerStep ?m2 sampleManager" unfolding sampleManager_def Let_def by (rule manager_count)
  ultimately show ?thesis by (meson rtranclp.rtrancl_refl rtranclp.rtrancl_into_rtrancl)
qed

theorem statistics_survive_restart_witness:
  "\<exists>w1 d. loadCache (\<lambda>_. Inr (cacheOf sampleSsm)) (\<lambda>_ _. None) (SsmContent [1]) (sampleSsm\<lparr>ss_endpoints := [(''/'', NewUserManager)]\<rparr>)
      = (None, SsmContent [1], w1) \<and> map_of (ss_endpoints w1) ''/'' = Some d \<and>
    fst (getUser ''alice'' d) = fst (getUser ''alice'' sampleManager) \<and>
    fst (ReadGlobal False (um_traffic d)) = fst (ReadGlobal False (um_traffic sampleManager))"
proof (rule statistics_survive_restart [where marshal = "\<lambda>_. [1]" and v = sampleSsm and f = SsmNoFile and err = None
    and ?v1.0 = "sampleSsm\<lparr>ss_lastSavedCache := [1]\<rparr>"])
  show "saveCache (\<lambda>_. [1]) None SsmNoFile sampleSsm = (None, SsmContent [1], sampleSsm\<lparr>ss_lastSavedCache := [1]\<rparr>)"
    by (simp add: saveCache_def encodeCache_def sampleSsm_def Let_def)
  show "\<forall>a. 0 \<le> sint (tr_cells (um_traffic sampleManager) (Cell a))" by (simp add: sampleManager_def Let_def)
  show "\<forall>(name, password) \<in> set (um_users sampleManager). password \<noteq> []"
    by (simp add: sampleManager_def Let_def addUser_def UserManager_Add_def postUpdate_def NewUserManager_def putKey_def)
qed (simp_all add: sampleSsm_def sampleManager_reachable)

section \<open>Totals\<close>

text \<open>
  As long as nobody is removed and nothing is cleared, the numbers of the users add up to the totals: no
  byte, packet or session is lost, and none is counted for two users (modulo 2^64, as the counters wrap around).
\<close>

fun losesNothing :: "string set \<Rightarrow> SsmStep \<Rightarrow> bool" where
  "losesNothing U (DoTrack i user) = (user \<in> U)"
| "losesNothing U (DoTrackPacket i user) = (user \<in> U)"
| "losesNothing U (DidRead i n) = True"
| "losesNothing U (DidWrite i n) = True"
| "losesNothing U (DoUpdateUsers users) = (U \<subseteq> set users)"
| "losesNothing U (DoReadUser user swap) = (\<not> swap)"
| "losesNothing U (DoReadGlobal swap) = (\<not> swap)"

definition balanced :: "string set \<Rightarrow> Ledger \<Rightarrow> bool" where
  "balanced U l \<longleftrightarrow> (\<forall>k. (\<Sum>u\<in>U. ld_user l u k) = ld_total l k) \<and> (\<forall>i packet owner. ld_conns l i = Some (packet, owner) \<longrightarrow> (\<exists>u\<in>U. owner = Some u))"

lemma balanced_credit:
  assumes "finite U" "balanced U l" "u \<in> U"
  shows "balanced U (credit (Some u) k n l)"
proof -
  have "(\<Sum>x\<in>U. if u = x \<and> k1 = k then n else 0) = (if k1 = k then n else 0)" for k1
    using assms(1,3) by (cases "k1 = k") (simp_all add: sum.delta)
  then show ?thesis using assms(2) by (simp add: balanced_def credit_def sum.distrib)
qed

lemma balanced_owner:
  assumes "balanced U l" "ld_conns l i = Some (packet, owner)"
  obtains u where "u \<in> U" "owner = Some u"
  using assms unfolding balanced_def by blast

lemma balanced_open: "balanced U l \<Longrightarrow> u \<in> U \<Longrightarrow> balanced U (l\<lparr>ld_conns := (ld_conns l)(i \<mapsto> (packet, Some u))\<rparr>)"
  by (auto simp: balanced_def)

lemma balanced_conn:
  assumes "finite U" "balanced U l"
  shows "balanced U (creditConn i kb kp n l)"
proof (cases "ld_conns l i")
  case (Some p)
  obtain packet owner where p: "p = (packet, owner)" by fastforce
  then obtain u where "u \<in> U" "owner = Some u" using balanced_owner [OF assms(2)] Some by metis
  then show ?thesis using assms p Some by (simp add: creditConn_def balanced_credit)
qed (use assms in \<open>simp add: creditConn_def\<close>)

lemma balanced_step:
  assumes "finite U" "balanced U l" "losesNothing U st"
  shows "balanced U (ledgerStep l st)"
proof (cases st)
  case (DoUpdateUsers users)
  then have U: "U \<subseteq> set users" using assms(3) by simp
  have "(\<Sum>u\<in>U. ld_user (ledgerStep l st) u k) = (\<Sum>u\<in>U. ld_user l u k)" for k
    using U DoUpdateUsers by (auto simp: ledgerStep_def intro!: sum.cong)
  moreover have "\<exists>u\<in>U. owner = Some u" if o: "ld_conns (ledgerStep l st) i = Some (packet, owner)" for i packet owner
  proof -
    obtain owner0 where 0: "ld_conns l i = Some (packet, owner0)" "owner = keepOwner users owner0"
      using o DoUpdateUsers by (auto simp: ledgerStep_def)
    obtain u where "u \<in> U" "owner0 = Some u" using balanced_owner [OF assms(2) 0(1)] .
    then show ?thesis using 0(2) U by (auto simp: keepOwner_def)
  qed
  moreover have "ld_total (ledgerStep l st) = ld_total l" using DoUpdateUsers by (simp add: ledgerStep_def)
  ultimately show ?thesis using assms(2) unfolding balanced_def by simp
qed (use assms in \<open>auto simp: ledgerStep_def openConn_def intro!: balanced_credit balanced_open balanced_conn\<close>)

theorem totals_are_sums:
  assumes "finite U" "\<forall>st \<in> set steps. losesNothing U st" "countsTraffic counting"
  shows "(\<Sum>u\<in>U. uo_counts (fst (readUser (blankUser u []) False (sr_traffic (foldl (ssmStep counting) ssmStart steps)))) k) =
    fst (ReadGlobal False (sr_traffic (foldl (ssmStep counting) ssmStart steps))) k"
proof -
  let ?l = "foldl ledgerStep ledgerStart steps"
  have "balanced U ledgerStart" by (simp add: balanced_def ledgerStart_def)
  then have "balanced U ?l"
    using assms(2) by (induction steps rule: rev_induct) (auto intro: balanced_step [OF assms(1)])
  then have "(\<Sum>u\<in>U. ld_user ?l u k) = ld_total ?l k" by (simp add: balanced_def)
  then have "(\<Sum>u\<in>U. word_of_int (ld_user ?l u k) :: u64) = word_of_int (ld_total ?l k)" by (metis of_int_sum)
  moreover have "countersOk (sr_traffic (foldl (ssmStep counting) ssmStart steps))"
    "numbersAgree (sr_traffic (foldl (ssmStep counting) ssmStart steps)) ?l"
    using ssm_simulation [OF assms(3), of steps] by (simp_all add: ssmAgree_def)
  ultimately show ?thesis by (simp add: readUser_blank numbersAgree_def ReadGlobal_def)
qed

section \<open>Users that the inbound refuses\<close>

text \<open>
  A user that the inbound refuses stays in the list: the request is answered with the error, but from then
  on the user is reported like any other, and adding it again fails as it exists already.
\<close>

theorem refused_user_stays:
  assumes "map_of (um_users m) name = None" "server (putKey name password (um_users m)) = Some err" "name \<noteq> []"
    and "addUser server (Inr (name, password)) m = (resp, m1)"
  shows "resp = SsmText 400 err" and "\<exists>user. fst (getUser name m1) = SsmUser user"
    and "fst (addUser server2 (Inr (name, password2)) m1) = SsmText 400 (E_New [AStr ''user '', AStr name, AStr '' already exists''])"
  using assms
  by (auto simp: addUser_def UserManager_Add_def postUpdate_def getUser_def UserManager_Get_def case_prod_unfold)

end
