(* ===== verification/Spec2Isabelle.thy ===== *)
theory Spec2Isabelle
  imports Rule_Set_Props Srs_Load Outbound_Groups_Props Dns_Router_Props Tls_Fragment_Props Box_Props
    Adguard_Props Dns_Transport_Props Dns_Hosts Geosite Trojan_Props Framing_Props Badversion Ssm_Props
begin

text \<open>
  A verification of sing-box: the routing of connections by rules, the DNS subsystem with fake
  addresses, the cache file, the binary format of rule-sets, outbound groups, the fragmentation of
  TLS handshakes, the managers that own outbounds and DNS servers, the connections to DNS servers, the Trojan
  protocol and the convertors of domain lists. File names below are relative to \<open>src/\<close>; the copies of the program under \<open>moeclub\<close> and \<open>upstream\<close> are not modelled.

  \<^bold>\<open>The program.\<close> An inbound hands every connection with its metadata (\<open>adapter/inbound.go\<close>) to the router
  (\<open>route/route.go\<close>). The router walks over the configured rules. A rule (\<open>route/rule\<close>) is a tree of
  items over the metadata and may include rule-sets, which are loaded from files or fetched, as JSON or
  in a binary format (\<open>common/srs\<close>) that the command \<open>rule-set compile\<close> writes; its action sniffs the protocol (\<open>common/sniff\<close>), resolves the destination, sets options, rejects, or selects the
  outbound. Names are resolved by the DNS router (\<open>dns/router.go\<close>): DNS rules choose a server, the
  client (\<open>dns/client.go\<close>) exchanges messages with it and caches the responses, and a response whose
  addresses do not satisfy the rule is rejected and the next rule is tried. The fakeip server
  (\<open>dns/transport/fakeip\<close>) answers with made-up addresses that the router maps back to domains. The
  cache file (\<open>experimental/cachefile\<close>) keeps rule-sets, selections, rejected responses and fake
  addresses over restarts. Managers (\<open>adapter/outbound/manager.go\<close>, \<open>dns/transport_manager.go\<close>) own
  outbounds and DNS servers and start them after what they depend on. Groups (\<open>protocol/group\<close>) are
  outbounds that dial through one of their members, chosen by the user or by the delay of tests
  (\<open>common/urltest\<close>), and interrupt their connections when the choice changes (\<open>common/interrupt\<close>). A connection may split
  the first TLS record it sends (\<open>common/tlsfragment\<close>) inside the server name. DNS servers are reached over UDP,
  TCP and TLS (\<open>dns/transport\<close>) with one connection, one per query or a pool, or are a hosts file. Lists in the
  format of AdGuard (\<open>common/convertor/adguard\<close>) and databases of domains (\<open>common/geosite\<close>) become rules. A Trojan
  client sends its key and the destination in front of the data (\<open>transport/trojan\<close>). The SSM API
  (\<open>service/ssmapi\<close>) counts the traffic of users, adds and removes them and keeps both over restarts.

  \<^bold>\<open>The theories.\<close>

    \<^item> \<open>Prelude\<close>, \<open>Bytes\<close>: errors as values (\<open>Error\<close>, \<open>result\<close>), addresses and prefixes of \<open>net/netip\<close>,
      words, big-endian and variable-length integers, and the locale \<open>invariant_system\<close>, by which the
      invariants of step relations are proved. \<open>Float64\<close>: the rounding of \<open>Duration.Seconds\<close>.

    \<^item> \<open>Match_State\<close> (\<open>route/rule/match_state.go\<close>): sets of match states as 16-bit masks, with the
      abstraction \<open>absStates\<close> to sets of sets of groups.

    \<^item> \<open>Metadata\<close>, \<open>Rule_Items\<close>, \<open>Actions\<close>, \<open>Rule_Eval\<close>: \<open>InboundContext\<close>, every rule item, the actions with
      the reject limiter, and the evaluation of default and logical rules, rule-sets and DNS rules
      (\<open>rule_item_*.go\<close>, \<open>rule_action.go\<close>, \<open>rule_abstract.go\<close>, \<open>rule_dns.go\<close>).

    \<^item> \<open>Rule_Sem\<close>, \<open>Rule_Props\<close>: the meaning of rules as sets, the refinement of the evaluator to it (the
      locale \<open>rule_set_interface\<close>, interpreted for headless rules and for the rules of the router), and
      the documented behaviour derived from the meaning.

    \<^item> \<open>Rule_Build\<close>, \<open>Rule_Build_Props\<close>: construction of rules from the configuration and their start.

    \<^item> \<open>Rule_Set\<close>, \<open>Rule_Set_Props\<close>: local and remote rule-sets, their 32-bit reference counts (the releases
      that panic are steps too), updates, and the saved copy, which goes through the codec of
      \<open>Saved_Binary\<close> (\<open>adapter/experimental.go\<close>) with a time in whole seconds.

    \<^item> \<open>Srs\<close>, \<open>Srs_Props\<close>, \<open>Srs_Load\<close> (\<open>common/srs\<close>, \<open>cmd_rule_set_compile.go\<close>): readers and writers of
      the binary format over what the sing library provides (the locales \<open>codec\<close> for one kind of item
      and \<open>srs_library\<close> for the library), the compiler with its choice of a version, and loading.

    \<^item> \<open>Sniff\<close>, \<open>Router\<close>, \<open>Router_Props\<close>: protocol detection, the walk over the rules, dispatch.

    \<^item> \<open>Dns_Message\<close>, \<open>Dns_Client\<close>, \<open>Dns_Client_Props\<close>, \<open>Dns_Router\<close>, \<open>Dns_Router_Props\<close>: DNS messages, the
      client with its cache (the locale \<open>lru_cache\<close>), the choice of servers and the retry.

    \<^item> \<open>Fakeip\<close>: the store of fake addresses over a storage (the locale \<open>fakeip_storage\<close>, interpreted for
      the storage in memory and, in \<open>Cache_Props\<close>, for the cache file).

    \<^item> \<open>Cache_File\<close>, \<open>Cache_Props\<close>: the cache file over a database of nested buckets (the locales \<open>bolt\<close>,
      \<open>bolt_writes\<close>, \<open>cache_db\<close>), its codecs and what it keeps.

    \<^item> \<open>Dependency_Start\<close>, \<open>Managers\<close>: the order in which services start, and the registries.

    \<^item> \<open>Registries\<close>, \<open>Box_Lifecycle\<close>, \<open>Box_Props\<close> (\<open>adapter/inbound\<close>, \<open>adapter/endpoint\<close>, \<open>adapter/service\<close>,
      \<open>box.go\<close>): the registries without dependencies, the check of tags, and the program that creates,
      starts in stages and closes everything. The managers fulfil the contracts \<open>lifecycle_manager\<close> and
      \<open>creation\<close>.

    \<^item> \<open>Outbound_Groups\<close>, \<open>Outbound_Groups_Props\<close>: selectors and groups with tests; the runs of a group are the step relation
      \<open>groupStep\<close> over its methods, the two halves of a test and the steps of its check loops.

    \<^item> \<open>Tls_Fragment\<close>, \<open>Tls_Fragment_Props\<close>: the search for the server name in a handshake and the writes
      that carry the split record.

    \<^item> \<open>Adguard\<close>, \<open>Adguard_Props\<close>: the conversion of filter lists to rules and back.

    \<^item> \<open>Dns_Transport\<close>, \<open>Dns_Transport_Props\<close>: the state of a DNS transport, the connector, queries over UDP, messages
      on streams and the pool of TLS connections. The check of the state and the return of a connection to the
      pool are two steps, between which the transport may be closed. Their runs are the step relations \<open>baseStep\<close>, \<open>connectorStep\<close>,
      \<open>udpStep\<close> and \<open>poolStep\<close>, one step per section under a lock; each is an \<open>invariant_system\<close>. \<open>Dns_Hosts\<close>:
      the hosts server and the cache of its files.

    \<^item> \<open>Geosite\<close>: writer and reader of the database of domains, over the locale \<open>codec\<close>.

    \<^item> \<open>Trojan\<close>, \<open>Trojan_Props\<close>: client, server and users of the Trojan protocol over a serializer of addresses
      (the locale \<open>address_codec\<close>); a packet comes with the memory in front of it, without which the header
      cannot be written.

    \<^item> \<open>Framing\<close>, \<open>Framing_Props\<close> (\<open>transport/v2raygrpclite\<close>, \<open>transport/simple-obfs\<close>, \<open>transport/sip003\<close>): streams
      inside gRPC messages and TLS records, which fulfil the contract \<open>framed_stream\<close>, and the options of plugins.

    \<^item> \<open>Badversion\<close> (\<open>common/badversion\<close>, \<open>common/ktls\<close>): versions and what a kernel supports.

    \<^item> \<open>Ssm\<close>, \<open>Ssm_Props\<close> (\<open>service/ssmapi\<close>): traffic counters of 64 bits as cells of a store, users, handlers and the cache
      of the SSM API, and the ledger that they refine.

    \<^item> \<open>Sample\<close>: concrete parameters for witnesses.

  \<^bold>\<open>How state and operations correspond.\<close> A struct is a record with the source's field names behind a
  prefix, an operation a function that returns the changed record, an error return a value of
  \<open>result\<close> or an option, a panic an error \<open>Panic\<close>. Integers of a fixed width are words. Pointers to
  rule-sets are keys of a store. Randomness, the clock and the answers of servers are parameters. What
  is not under \<open>src/\<close> (\<open>netip\<close>'s parsers, \<open>miekg/dns\<close>, bbolt, the \<open>freelru\<close> cache, domain matchers,
  IP sets, regular expressions) is a record of functions (\<open>Lib\<close>, \<open>DnsLib\<close>, \<open>Bolt\<close>, \<open>Lru\<close>, \<open>ManagerEnv\<close>)
  that the operations take as an argument; theorems that rely on its documented behaviour assume it by
  name and have a witness on a concrete instance.

  \<^bold>\<open>What is shown.\<close> The evaluator computes the meaning of rules, and rules mean what the documentation
  says; rules built from a configuration are well-formed and match its fields; the walk is a first
  match and connections only reach an existing outbound of their network; sniffing keeps every byte;
  rule-sets keep their invariant, survive failed updates and are restored after a restart; the reject
  limiter is a sliding window. A compiled rule-set loads as the rules of its source, the compiler picks
  the lowest version that expresses them, and reading consumes no more than the content holds. DNS queries use the first applicable rule, returned addresses satisfy the
  rule they came through, and cached responses count down. The fake address store keeps its invariant,
  and addresses and domains map to each other over restarts. What is written to the cache file is read
  back, caches with different identifiers do not interfere and rejected responses expire. Services
  start after their dependencies, all of them if there is no cycle, and a reported cycle or missing
  dependency exists; the registries stay consistent until they are closed. A successful start takes every service
  through its stages once and in order, a failed one closes what it started, and a checked
  configuration is registered completely. A group with tests selects within its tolerance and
  runs at most one check loop, and a selection survives a restart. The
  server name of a well-formed handshake is found where it is, and the fragments carry the bytes of the
  packet in order. A converted filter list matches what its lines block, and it is printed with its lines.
  A shutdown of a DNS transport waits exactly for the queries in flight, unless its deadline ends it; a connector dials once at a time
  and loses no connection; a UDP query has an identifier of its own and gets the first response under it; a TLS
  connection serves one query at a time. What a Trojan client writes is what the server hands on, for
  streams and for packets; a stream in frames is read back whatever the sizes of buffers and segments; a
  written database of domains is read back. The SSM API reports what a ledger of its operations holds, modulo
  2^64. Where the code deviates from what it means to do,
  the theorem states what it does (for example \<open>removed_default_server_check_is_inverted\<close>).

  \<^bold>\<open>Bounds.\<close> All functions are total. The retry loops of the DNS router and the start loop of services are
  defined with termination proofs (the rules left, the services not yet started), so no fuel is
  needed; so are the readers of the binary format (the bytes left, the items announced). The loop over
  the extensions of a handshake counts in 16 bits and may run forever, so it is a \<open>partial_function\<close>
  into options, with a theorem that it returns for the packets it is meant for and one that it does not
  for a longer one; the search for a free query identifier has a termination proof (65536 identifiers), and
  the loop that prints a filter list has the result \<open>None\<close> where the code runs forever; the reading loop of a sniff action runs over the finite list of what the connection delivers.

  \<^bold>\<open>Not modelled.\<close> The other protocols and transports (input and output over libraries), DNS over HTTPS and QUIC and the
  resolvers of the operating system, the HTTP, TLS, QUIC and
  DNS sniffers (parameters of the model), the network manager, the JSON codecs of the configuration, the
  command line and the APIs. Concurrency is modelled where the code splits an operation in two halves
  (asynchronous saves of the cache file, tests of a group) or runs between two locks (DNS transports); other operations are single steps, taken one after the other.
\<close>

end
